(* ===== verification/Prelude.thy ===== *)
theory Prelude
  imports Complex_Main "HOL-Library.AList"
begin

text \<open>
  Shared vocabulary of the CFactory development: Python strings and their methods,
  JSON values, insertion-ordered dictionaries, timestamps, and the result type of a
  fallible operation, with the generic lemmas on them that the component theories use.

  A Python string is an Isabelle \<open>string\<close>, so the characters are the code points below
  256 (the Latin-1 block); the predicates below are Python's on that range.  A dictionary
  is an association list changed only by \<open>dset\<close>, which keeps the position of an existing
  key and appends a new one, as a Python dictionary does.  A float is an exact rational.
\<close>

named_theorems store_simps "unfolding rules of the store operations"
named_theorems invar_intros "one preservation rule per operation"

section \<open>Characters and strings\<close>

definition isspace :: "char \<Rightarrow> bool" where
  "isspace c = (let n = (of_char c :: nat) in
     (9 \<le> n \<and> n \<le> 13) \<or> (28 \<le> n \<and> n \<le> 32) \<or> n = 133 \<or> n = 160)"

definition lower_char :: "char \<Rightarrow> char" where
  "lower_char c = (let n = (of_char c :: nat) in
     if (65 \<le> n \<and> n \<le> 90) \<or> (192 \<le> n \<and> n \<le> 222 \<and> n \<noteq> 215) then char_of (n + 32) else c)"

definition lower :: "string \<Rightarrow> string" where
  "lower s = map lower_char s"

definition strip_by :: "(char \<Rightarrow> bool) \<Rightarrow> string \<Rightarrow> string" where
  "strip_by p s = rev (dropWhile p (rev (dropWhile p s)))"

definition strip :: "string \<Rightarrow> string" where
  "strip s = strip_by isspace s"

text \<open>\<open>str.isdigit\<close> also accepts the superscripts two, three and one, which \<open>int()\<close> rejects.\<close>

definition ascii_digit :: "char \<Rightarrow> bool" where
  "ascii_digit c = (let n = (of_char c :: nat) in 48 \<le> n \<and> n \<le> 57)"

definition isdigit_char :: "char \<Rightarrow> bool" where
  "isdigit_char c = (ascii_digit c \<or> (of_char c :: nat) \<in> {178, 179, 185})"

definition isdigit :: "string \<Rightarrow> bool" where
  "isdigit s = (s \<noteq> [] \<and> list_all isdigit_char s)"

fun nat_of_digits :: "nat \<Rightarrow> string \<Rightarrow> nat" where
  "nat_of_digits acc [] = acc"
| "nat_of_digits acc (c # cs) = nat_of_digits (10 * acc + ((of_char c :: nat) - 48)) cs"

definition py_int :: "string \<Rightarrow> nat option" where
  "py_int s = (if s \<noteq> [] \<and> list_all ascii_digit s then Some (nat_of_digits 0 s) else None)"

fun digits_of_nat :: "nat \<Rightarrow> string" where
  "digits_of_nat n = (if n < 10 then [char_of (48 + n)]
                      else digits_of_nat (n div 10) @ [char_of (48 + n mod 10)])"

declare digits_of_nat.simps [simp del]

definition str_of_int :: "int \<Rightarrow> string" where
  "str_of_int i = (if i < 0 then ''-'' @ digits_of_nat (nat (- i)) else digits_of_nat (nat i))"

text \<open>Splitting at every character of a class; \<open>re.split\<close> at runs of the class followed by
  dropping the empty parts is \<open>words_by\<close>, and \<open>str.split(c)\<close> is \<open>split_on\<close> of one character.\<close>

fun split_on :: "(char \<Rightarrow> bool) \<Rightarrow> string \<Rightarrow> string list" where
  "split_on p [] = [[]]"
| "split_on p (c # cs) =
     (if p c then [] # split_on p cs
      else (case split_on p cs of [] \<Rightarrow> [[c]] | w # ws \<Rightarrow> (c # w) # ws))"

definition words_by :: "(char \<Rightarrow> bool) \<Rightarrow> string \<Rightarrow> string list" where
  "words_by p s = filter (\<lambda>w. w \<noteq> []) (split_on p s)"

fun join_with :: "string \<Rightarrow> string list \<Rightarrow> string" where
  "join_with sep [] = []"
| "join_with sep [w] = w"
| "join_with sep (w # ws) = w @ sep @ join_with sep ws"

fun startswith :: "string \<Rightarrow> string \<Rightarrow> bool" where
  "startswith s [] = True"
| "startswith [] (p # ps) = False"
| "startswith (c # cs) (p # ps) = (c = p \<and> startswith cs ps)"

definition endswith :: "string \<Rightarrow> string \<Rightarrow> bool" where
  "endswith s e = startswith (rev s) (rev e)"

text \<open>\<open>str.partition\<close> at one character: the part before and the part after its first occurrence.\<close>

definition before_char :: "char \<Rightarrow> string \<Rightarrow> string" where
  "before_char c s = takeWhile (\<lambda>x. x \<noteq> c) s"

definition after_char :: "char \<Rightarrow> string \<Rightarrow> string" where
  "after_char c s = drop 1 (dropWhile (\<lambda>x. x \<noteq> c) s)"

text \<open>The class \<open>[A-Za-z0-9]\<close>.\<close>

definition alnum :: "char \<Rightarrow> bool" where
  "alnum c = (let n = (of_char c :: nat) in
     (48 \<le> n \<and> n \<le> 57) \<or> (65 \<le> n \<and> n \<le> 90) \<or> (97 \<le> n \<and> n \<le> 122))"

fun contains_str :: "string \<Rightarrow> string \<Rightarrow> bool" where
  "contains_str [] n = (n = [])"
| "contains_str (c # cs) n = (startswith (c # cs) n \<or> contains_str cs n)"

text \<open>The truth value of an optional string (\<open>None\<close> and \<open>''\<close> are false) and Python's \<open>a or b\<close>.\<close>

fun truthy :: "string option \<Rightarrow> bool" where
  "truthy None = False"
| "truthy (Some s) = (s \<noteq> [])"

definition py_or :: "string option \<Rightarrow> string option \<Rightarrow> string option" where
  "py_or a b = (if truthy a then a else b)"

lemma split_on_nonempty [simp]: "split_on p s \<noteq> []"
  by (induction s) (auto split: list.splits)

lemma split_on_ConsE: obtains w ws where "split_on p s = w # ws"
  by (cases "split_on p s") auto

lemma words_by_Nil [simp]: "words_by p [] = []"
  by (simp add: words_by_def)

lemma words_by_sep [simp]: "p c \<Longrightarrow> words_by p (c # s) = words_by p s"
  by (simp add: words_by_def)

lemma split_on_append_sep:
  "p c \<Longrightarrow> split_on p (a @ c # b) = split_on p a @ split_on p b"
proof (induction a)
  case (Cons x a)
  then show ?case by (cases "split_on p a") auto
qed simp

lemma words_by_append_sep:
  "p c \<Longrightarrow> words_by p (a @ c # b) = words_by p a @ words_by p b"
  by (simp add: words_by_def split_on_append_sep)

lemma words_by_dropWhile: "(\<And>c. q c \<Longrightarrow> p c) \<Longrightarrow> words_by p (dropWhile q s) = words_by p s"
  by (induction s) auto

lemma words_by_snoc_sep: "p c \<Longrightarrow> words_by p (s @ [c]) = words_by p s"
  using words_by_append_sep [of p c s "[]"] by simp

lemma words_by_rev_dropWhile:
  assumes "\<And>c. q c \<Longrightarrow> p c"
  shows "words_by p (rev (dropWhile q (rev s))) = words_by p s"
proof (induction s rule: rev_induct)
  case (snoc c s)
  then show ?case by (simp add: words_by_snoc_sep assms)
qed simp

lemma words_by_strip:
  assumes "\<And>c. q c \<Longrightarrow> p c"
  shows "words_by p (strip_by q s) = words_by p s"
  unfolding strip_by_def
  by (simp add: words_by_rev_dropWhile words_by_dropWhile assms)

lemma split_on_no_sep: "\<forall>c\<in>set s. \<not> p c \<Longrightarrow> split_on p s = [s]"
  by (induction s) auto

lemma words_by_single: "\<forall>c\<in>set s. \<not> p c \<Longrightarrow> words_by p s = (if s = [] then [] else [s])"
  by (simp add: words_by_def split_on_no_sep)

lemma split_on_parts_sep_free: "w \<in> set (split_on p s) \<Longrightarrow> \<forall>c\<in>set w. \<not> p c"
proof (induction s arbitrary: w)
  case (Cons a s)
  obtain v vs where *: "split_on p s = v # vs" by (rule split_on_ConsE)
  show ?case
  proof (cases "p a")
    case True
    with Cons show ?thesis by auto
  next
    case False
    with Cons.prems * consider "w = a # v" | "w \<in> set vs" by auto
    then show ?thesis
    proof cases
      case 1
      then show ?thesis using Cons.IH [of v] * False by simp
    next
      case 2
      then show ?thesis using Cons.IH [of w] * by simp
    qed
  qed
qed simp

lemma words_by_parts: "w \<in> set (words_by p s) \<Longrightarrow> w \<noteq> [] \<and> (\<forall>c\<in>set w. \<not> p c)"
  using split_on_parts_sep_free by (fastforce simp: words_by_def)

lemma startswith_append: "startswith s p \<longleftrightarrow> (\<exists>t. s = p @ t)"
  by (induction s p rule: startswith.induct) auto

lemma truthy_iff: "truthy x \<longleftrightarrow> (\<exists>s. x = Some s \<and> s \<noteq> [])"
  by (cases x) auto

lemma py_or_simps [simp]:
  "py_or None b = b" "py_or (Some []) b = b" "s \<noteq> [] \<Longrightarrow> py_or (Some s) b = Some s"
  by (auto simp: py_or_def)

lemma nat_of_digits_snoc:
  "nat_of_digits acc (xs @ [c]) = 10 * nat_of_digits acc xs + ((of_char c :: nat) - 48)"
  by (induction xs arbitrary: acc) auto

lemma digit_char: "k < 10 \<Longrightarrow> of_char (char_of (48 + k) :: char) = (48 + k :: nat)"
  by simp

lemma digits_of_nat_roundtrip: "nat_of_digits 0 (digits_of_nat n) = n"
proof (induction n rule: digits_of_nat.induct)
  case (1 n)
  show ?case
  proof (cases "n < 10")
    case True
    then show ?thesis by (subst digits_of_nat.simps) simp
  next
    case False
    then show ?thesis using 1 by (subst digits_of_nat.simps) (simp add: nat_of_digits_snoc)
  qed
qed

lemma digits_of_nat_inj: "digits_of_nat m = digits_of_nat n \<longleftrightarrow> m = n"
  by (metis digits_of_nat_roundtrip)

lemma digits_of_nat_ascii: "list_all ascii_digit (digits_of_nat n) \<and> digits_of_nat n \<noteq> []"
proof (induction n rule: digits_of_nat.induct)
  case (1 n)
  have d: "ascii_digit (char_of (48 + k))" if "k < 10" for k :: nat
    using that by (simp add: ascii_digit_def Let_def)
  show ?case
  proof (cases "n < 10")
    case True
    then show ?thesis using d [of n] by (subst (1 2) digits_of_nat.simps) simp
  next
    case False
    then show ?thesis using 1 d [of "n mod 10"] by (subst (1 2) digits_of_nat.simps) simp
  qed
qed

lemma py_int_digits: "py_int (digits_of_nat n) = Some n"
  using digits_of_nat_ascii [of n] by (simp add: py_int_def digits_of_nat_roundtrip)

lemma digits_no_char: "\<not> ascii_digit c \<Longrightarrow> c \<notin> set (digits_of_nat n)"
  using digits_of_nat_ascii [of n] by (auto simp: list_all_iff)

text \<open>What evaluates the string functions on literals.\<close>

lemmas eval_str = isspace_def lower_def lower_char_def char_of_def bit_Suc_0_iff strip_def
  strip_by_def words_by_def

section \<open>Dictionaries\<close>

text \<open>\<open>d[k] = v\<close>, \<open>d.get(k)\<close>, \<open>k in d\<close>, \<open>d.setdefault(k, v)\<close> and \<open>d.pop(k, None)\<close> on an
  insertion-ordered dictionary.\<close>

type_synonym ('k, 'v) dict = "('k \<times> 'v) list"

definition dset :: "'k \<Rightarrow> 'v \<Rightarrow> ('k, 'v) dict \<Rightarrow> ('k, 'v) dict" where
  "dset k v d = AList.update k v d"

definition dget :: "('k, 'v) dict \<Rightarrow> 'k \<Rightarrow> 'v option" where
  "dget d k = map_of d k"

definition dpop :: "'k \<Rightarrow> ('k, 'v) dict \<Rightarrow> ('k, 'v) dict" where
  "dpop k d = filter (\<lambda>p. fst p \<noteq> k) d"

definition dvalues :: "('k, 'v) dict \<Rightarrow> 'v list" where
  "dvalues d = map snd d"

definition dkeys :: "('k, 'v) dict \<Rightarrow> 'k list" where
  "dkeys d = map fst d"

definition dict_ok :: "('k, 'v) dict \<Rightarrow> bool" where
  "dict_ok d = distinct (dkeys d)"

lemma dget_Nil [simp]: "dget [] k = None"
  by (simp add: dget_def)

lemma dget_dset [simp]: "dget (dset k v d) k' = (if k = k' then Some v else dget d k')"
  by (simp add: dget_def dset_def update_conv')

lemma dict_ok_Nil [simp]: "dict_ok []"
  by (simp add: dict_ok_def dkeys_def)

lemma dict_ok_dset [simp]: "dict_ok d \<Longrightarrow> dict_ok (dset k v d)"
  by (simp add: dict_ok_def dkeys_def dset_def distinct_update)

lemma dkeys_dset [simp]: "set (dkeys (dset k v d)) = insert k (set (dkeys d))"
  by (induction d) (auto simp: dkeys_def dset_def)

lemma dset_Nil [simp]: "dset k v [] = [(k, v)]"
  by (simp add: dset_def)

lemma dset_Cons [simp]:
  "dset k v ((k', v') # d) = (if k = k' then (k, v) # d else (k', v') # dset k v d)"
  by (simp add: dset_def)

lemma dset_ne [simp]: "dset k v d \<noteq> []"
  by (cases d) (auto simp: dset_def)

lemma dget_dpop [simp]: "dget (dpop k d) k' = (if k = k' then None else dget d k')"
  by (induction d) (auto simp: dget_def dpop_def)

lemma dict_ok_dpop [simp]: "dict_ok d \<Longrightarrow> dict_ok (dpop k d)"
  by (induction d) (auto simp: dict_ok_def dkeys_def dpop_def)

lemma dget_in: "dget d k = Some v \<Longrightarrow> (k, v) \<in> set d"
  by (simp add: dget_def map_of_SomeD)

lemma dget_None_iff: "dget d k = None \<longleftrightarrow> k \<notin> set (dkeys d)"
  by (simp add: dget_def dkeys_def map_of_eq_None_iff)

lemma dict_ok_Cons [simp]: "dict_ok ((k, v) # d) \<longleftrightarrow> k \<notin> set (dkeys d) \<and> dict_ok d"
  by (simp add: dict_ok_def dkeys_def)

lemma dget_Cons [simp]: "dget ((k, v) # d) k' = (if k = k' then Some v else dget d k')"
  by (simp add: dget_def)

lemma dvalues_Nil [simp]: "dvalues [] = []" and dvalues_Cons [simp]: "dvalues ((k, v) # d) = v # dvalues d"
  by (simp_all add: dvalues_def)

section \<open>JSON values\<close>

datatype json =
    JNull
  | JBool bool
  | JInt int
  | JNum rat
  | JStr string
  | JArr "json list"
  | JObj "(string \<times> json) list"

type_synonym jobj = "(string \<times> json) list"

fun jtruthy :: "json \<Rightarrow> bool" where
  "jtruthy JNull = False"
| "jtruthy (JBool b) = b"
| "jtruthy (JInt i) = (i \<noteq> 0)"
| "jtruthy (JNum q) = (q \<noteq> 0)"
| "jtruthy (JStr s) = (s \<noteq> [])"
| "jtruthy (JArr xs) = (xs \<noteq> [])"
| "jtruthy (JObj ps) = (ps \<noteq> [])"

section \<open>Time\<close>

text \<open>A database timestamp is a naive number of microseconds on the UTC clock.  A Python
  datetime in memory is naive or carries the UTC zone.\<close>

datatype pydatetime = Naive int | Aware int

fun wall :: "pydatetime \<Rightarrow> int" where
  "wall (Naive t) = t"
| "wall (Aware t) = t"

definition seconds_between :: "int \<Rightarrow> int \<Rightarrow> rat" where
  "seconds_between a b = of_int (a - b) / 1000000"

section \<open>Results\<close>

text \<open>A fallible operation returns \<open>Inl\<close> of its error or \<open>Inr\<close> of its result.\<close>

fun is_ok :: "'e + 'a \<Rightarrow> bool" where
  "is_ok (Inl e) = False"
| "is_ok (Inr a) = True"

definition res_bind :: "'e + 'a \<Rightarrow> ('a \<Rightarrow> 'e + 'b) \<Rightarrow> 'e + 'b" where
  "res_bind r f = (case r of Inl e \<Rightarrow> Inl e | Inr a \<Rightarrow> f a)"

lemma res_bind_simps [simp]: "res_bind (Inl e) f = Inl e" "res_bind (Inr a) f = f a"
  by (simp_all add: res_bind_def)

lemma res_bind_Inr_iff: "res_bind r f = Inr b \<longleftrightarrow> (\<exists>a. r = Inr a \<and> f a = Inr b)"
  by (cases r) auto

end
