(* ===== verification/Taxonomy.thy ===== *)
theory Taxonomy
  imports Prelude
begin

text \<open>
  The lifecycle taxonomy: \<open>_contracts/factory_contracts/__init__.py\<close> (the token sets and
  the classifiers) and \<open>status_taxonomy.py\<close> (\<open>is_dead_stage\<close>).  A status is classified by
  the lowercase words it is made of, split at whitespace, underscores and hyphens.
\<close>

definition FAILED_TOKENS :: "string set" where
  "FAILED_TOKENS = {''abort'', ''aborted'', ''block'', ''blocked'', ''cancel'', ''canceled'',
     ''cancelled'', ''discard'', ''discarded'', ''error'', ''errored'', ''fail'', ''failed'',
     ''failure'', ''reject'', ''rejected''}"

definition DONE_TOKENS :: "string set" where
  "DONE_TOKENS = {''accept'', ''accepted'', ''approved'', ''closed'', ''complete'',
     ''completed'', ''done'', ''emitted'', ''merged'', ''passed'', ''ready'', ''shipped'',
     ''skip'', ''skipped'', ''succeeded'', ''success'', ''triaged''}"

definition REVIEW_TOKENS :: "string set" where
  "REVIEW_TOKENS = {''awaiting'', ''review'', ''reviewing''}"

definition QUEUED_TOKENS :: "string set" where
  "QUEUED_TOKENS = {''backlog'', ''draft'', ''icebox'', ''pending'', ''queued'', ''todo''}"

definition RUNNING_TOKENS :: "string set" where
  "RUNNING_TOKENS = {''act'', ''building'', ''coding'', ''executing'', ''generating'',
     ''in_progress'', ''inprogress'', ''planning'', ''progress'', ''running'', ''started'',
     ''working''}"

definition STUCK_TOKENS :: "string set" where
  "STUCK_TOKENS = {''stuck''}"

text \<open>\<open>_SPLIT_RE\<close>: whitespace, underscore, hyphen.\<close>

definition status_sep :: "char \<Rightarrow> bool" where
  "status_sep c = (isspace c \<or> c = CHR ''_'' \<or> c = CHR ''-'')"

definition status_tokens :: "string option \<Rightarrow> string list" where
  "status_tokens status = (case status of
     None \<Rightarrow> []
   | Some s \<Rightarrow> if s = [] then [] else words_by status_sep (lower (strip s)))"

definition status_matches :: "string option \<Rightarrow> string set \<Rightarrow> bool" where
  "status_matches status vocabulary = list_ex (\<lambda>t. t \<in> vocabulary) (status_tokens status)"

definition is_failed :: "string option \<Rightarrow> bool" where
  "is_failed status = status_matches status FAILED_TOKENS"

definition is_done :: "string option \<Rightarrow> bool" where
  "is_done status = status_matches status DONE_TOKENS"

definition is_review :: "string option \<Rightarrow> bool" where
  "is_review status = status_matches status REVIEW_TOKENS"

definition is_queued :: "string option \<Rightarrow> bool" where
  "is_queued status = status_matches status QUEUED_TOKENS"

definition is_stuck :: "string option \<Rightarrow> bool" where
  "is_stuck status = status_matches status STUCK_TOKENS"

definition is_terminal :: "string option \<Rightarrow> bool" where
  "is_terminal status = (is_done status \<or> is_failed status)"

definition is_failure_or_stuck :: "string option \<Rightarrow> bool" where
  "is_failure_or_stuck status = (is_failed status \<or> is_stuck status)"

definition is_running :: "string option \<Rightarrow> bool" where
  "is_running status = (if \<not> truthy status then False
     else \<not> is_terminal status \<and> \<not> is_review status \<and> \<not> is_queued status)"

definition is_active :: "string option \<Rightarrow> bool" where
  "is_active status = (if \<not> truthy status then True
     else \<not> is_terminal status \<and> \<not> is_review status \<and> \<not> is_queued status)"

definition is_dead_stage :: "string option \<Rightarrow> bool" where
  "is_dead_stage status = (if is_stuck status then True else if \<not> truthy status then False
     else ''stalled'' \<in> set (status_tokens status))"

section \<open>Words of a status\<close>

lemma isspace_status_sep: "isspace c \<Longrightarrow> status_sep c"
  by (simp add: status_sep_def)

lemma lower_char_sep: "status_sep (lower_char c) = status_sep c"
proof -
  have "isspace (lower_char c) = isspace c"
    by (auto simp: isspace_def lower_char_def Let_def)
  moreover have "lower_char c = CHR ''_'' \<longleftrightarrow> c = CHR ''_''"
    "lower_char c = CHR ''-'' \<longleftrightarrow> c = CHR ''-''"
    by (auto simp: lower_char_def Let_def dest: arg_cong [where f = "of_char :: char \<Rightarrow> nat"])
  ultimately show ?thesis by (simp add: status_sep_def)
qed

lemma split_on_map:
  assumes "\<And>c. p (f c) = p c"
  shows "split_on p (map f s) = map (map f) (split_on p s)"
proof (induction s)
  case (Cons a s)
  then show ?case by (cases "split_on p s") (auto simp: assms)
qed simp

lemma words_by_map:
  assumes "\<And>c. p (f c) = p c"
  shows "words_by p (map f s) = map (map f) (words_by p s)"
  by (simp add: words_by_def split_on_map assms filter_map o_def)

lemma status_tokens_Some: "status_tokens (Some s) = map lower (words_by status_sep s)"
proof -
  have "words_by status_sep (lower (strip s)) = map lower (words_by status_sep (strip s))"
    unfolding lower_def by (rule words_by_map) (rule lower_char_sep)
  also have "words_by status_sep (strip s) = words_by status_sep s"
    unfolding strip_def by (rule words_by_strip) (rule isspace_status_sep)
  finally show ?thesis by (cases "s = []") (auto simp: status_tokens_def strip_def strip_by_def)
qed

lemma status_tokens_None [simp]: "status_tokens None = []"
  by (simp add: status_tokens_def)

lemma status_matches_words:
  "status_matches (Some s) V = (\<exists>w\<in>set (words_by status_sep s). lower w \<in> V)"
  by (auto simp: status_matches_def status_tokens_Some list_ex_iff)

lemma status_matches_falsy: "\<not> truthy st \<Longrightarrow> \<not> status_matches st V"
  by (cases st) (auto simp: status_matches_def status_tokens_def)

lemmas classifier_defs = is_failed_def is_done_def is_review_def is_queued_def is_stuck_def

lemma is_dead_stage_words:
  "is_dead_stage (Some s) =
     (\<exists>w\<in>set (words_by status_sep s). lower w \<in> {''stuck'', ''stalled''})"
  by (cases "s = []")
    (auto simp: is_dead_stage_def is_stuck_def status_matches_words STUCK_TOKENS_def
      status_tokens_Some, metis imageI)

lemma is_terminal_truthy: "is_terminal st \<Longrightarrow> truthy st"
  using status_matches_falsy by (auto simp: is_terminal_def classifier_defs)

lemma is_dead_truthy: "is_dead_stage st \<Longrightarrow> truthy st"
  using status_matches_falsy by (auto simp: is_dead_stage_def classifier_defs split: if_splits)

lemma is_done_truthy: "is_done st \<Longrightarrow> truthy st"
  using is_terminal_truthy by (auto simp: is_terminal_def)

lemma single_word_matches:
  assumes "w \<noteq> []" "\<forall>c\<in>set w. \<not> status_sep c"
  shows "status_matches (Some w) V = (lower w \<in> V)"
  using assms by (simp add: status_matches_words words_by_single)

text \<open>The four vocabularies that decide a lifecycle are pairwise disjoint.\<close>

lemma lifecycle_tokens_disjoint:
  "FAILED_TOKENS \<inter> DONE_TOKENS = {}" "FAILED_TOKENS \<inter> REVIEW_TOKENS = {}"
  "FAILED_TOKENS \<inter> QUEUED_TOKENS = {}" "DONE_TOKENS \<inter> REVIEW_TOKENS = {}"
  "DONE_TOKENS \<inter> QUEUED_TOKENS = {}" "REVIEW_TOKENS \<inter> QUEUED_TOKENS = {}"
  by (simp_all add: FAILED_TOKENS_def DONE_TOKENS_def REVIEW_TOKENS_def QUEUED_TOKENS_def)

lemma dead_tokens_not_lifecycle:
  "t \<in> {''stuck'', ''stalled''} \<Longrightarrow>
     t \<notin> FAILED_TOKENS \<and> t \<notin> DONE_TOKENS \<and> t \<notin> REVIEW_TOKENS \<and> t \<notin> QUEUED_TOKENS"
  by (auto simp: FAILED_TOKENS_def DONE_TOKENS_def REVIEW_TOKENS_def QUEUED_TOKENS_def)

section \<open>Properties\<close>

text \<open>A status is classified by its words and by nothing else: a classifier holds exactly when
  one of the words of the status (its maximal runs free of whitespace, underscores and
  hyphens), in lower case, is in the vocabulary.  So \<open>already\<close> is not \<open>ready\<close> and
  \<open>installed\<close> is not \<open>stalled\<close>.\<close>

theorem classified_by_words:
  "is_failed (Some s) = (\<exists>w\<in>set (words_by status_sep s). lower w \<in> FAILED_TOKENS) \<and>
   is_done (Some s) = (\<exists>w\<in>set (words_by status_sep s). lower w \<in> DONE_TOKENS) \<and>
   is_review (Some s) = (\<exists>w\<in>set (words_by status_sep s). lower w \<in> REVIEW_TOKENS) \<and>
   is_queued (Some s) = (\<exists>w\<in>set (words_by status_sep s). lower w \<in> QUEUED_TOKENS) \<and>
   is_dead_stage (Some s) =
     (\<exists>w\<in>set (words_by status_sep s). lower w \<in> {''stuck'', ''stalled''})"
  by (simp add: classifier_defs status_matches_words is_dead_stage_words)

theorem classified_by_words_witness:
  "is_done (Some ''Ready_now'') \<and> \<not> is_done (Some ''already'') \<and> is_dead_stage (Some ''watchdog-stalled'')
     \<and> \<not> is_dead_stage (Some ''installed'')"
proof -
  have w: "\<exists>w\<in>set (words_by status_sep ''Ready_now''). lower w \<in> DONE_TOKENS"
    "\<not> (\<exists>w\<in>set (words_by status_sep ''already''). lower w \<in> DONE_TOKENS)"
    "\<exists>w\<in>set (words_by status_sep ''watchdog-stalled''). lower w \<in> {''stuck'', ''stalled''}"
    "\<not> (\<exists>w\<in>set (words_by status_sep ''installed''). lower w \<in> {''stuck'', ''stalled''})"
    by (simp_all add: eval_str status_sep_def DONE_TOKENS_def)
  show ?thesis by (simp only: classified_by_words w simp_thms)
qed

text \<open>A status that is one word has exactly one lifecycle: failed, done, in review, queued or
  running; and the two dead markers are not terminal, so a dead stage still reads as running
  to a caller that does not ask for deadness.\<close>

theorem one_word_one_lifecycle:
  assumes "w \<noteq> []" "\<forall>c\<in>set w. \<not> status_sep c"
  shows "length (filter (\<lambda>b. b) [is_failed (Some w), is_done (Some w), is_review (Some w),
           is_queued (Some w), is_running (Some w)]) = 1
    \<and> (is_dead_stage (Some w) \<longrightarrow> is_running (Some w) \<and> is_active (Some w))"
proof -
  note m = single_word_matches [OF assms]
  have d: "is_dead_stage (Some w) = (lower w \<in> {''stuck'', ''stalled''})"
    using assms by (simp add: is_dead_stage_words words_by_single)
  let ?t = "lower w"
  have "\<not> (?t \<in> FAILED_TOKENS \<and> ?t \<in> DONE_TOKENS)" "\<not> (?t \<in> FAILED_TOKENS \<and> ?t \<in> REVIEW_TOKENS)"
    "\<not> (?t \<in> FAILED_TOKENS \<and> ?t \<in> QUEUED_TOKENS)" "\<not> (?t \<in> DONE_TOKENS \<and> ?t \<in> REVIEW_TOKENS)"
    "\<not> (?t \<in> DONE_TOKENS \<and> ?t \<in> QUEUED_TOKENS)" "\<not> (?t \<in> REVIEW_TOKENS \<and> ?t \<in> QUEUED_TOKENS)"
    using lifecycle_tokens_disjoint by blast+
  moreover have "truthy (Some w)" using assms(1) by simp
  moreover have "?t \<in> {''stuck'', ''stalled''} \<longrightarrow>
      ?t \<notin> FAILED_TOKENS \<and> ?t \<notin> DONE_TOKENS \<and> ?t \<notin> REVIEW_TOKENS \<and> ?t \<notin> QUEUED_TOKENS"
    using dead_tokens_not_lifecycle by blast
  ultimately show ?thesis
    unfolding d is_running_def is_active_def is_terminal_def classifier_defs m
    by (cases "?t \<in> FAILED_TOKENS"; cases "?t \<in> DONE_TOKENS"; cases "?t \<in> REVIEW_TOKENS";
        cases "?t \<in> QUEUED_TOKENS"; simp del: insert_iff)
qed

theorem one_word_one_lifecycle_witness:
  "length (filter (\<lambda>b. b) [is_failed (Some ''stuck''), is_done (Some ''stuck''),
     is_review (Some ''stuck''), is_queued (Some ''stuck''), is_running (Some ''stuck'')]) = 1"
proof -
  have "''stuck'' \<noteq> [] \<and> (\<forall>c\<in>set ''stuck''. \<not> status_sep c)" by code_simp
  then show ?thesis using one_word_one_lifecycle [of "''stuck''"] by blast
qed

end
