(* ===== verification/Models.thy ===== *)
theory Models
  imports Taxonomy
begin

text \<open>
  The data model of the correlation store: \<open>models.py\<close>, the shared token-usage block of
  \<open>factory_contracts\<close> with its sum, and the rollup buckets of \<open>usage.py\<close>.
  A Pydantic field that may be absent is an option.
\<close>

section \<open>Services, stages and time labels\<close>

datatype service = PFACTORY | AIFACTORY | TFACTORY

fun service_value :: "service \<Rightarrow> string" where
  "service_value PFACTORY = ''pfactory''"
| "service_value AIFACTORY = ''aifactory''"
| "service_value TFACTORY = ''tfactory''"

datatype stage = PLAN | CODE | TEST

fun stage_value :: "stage \<Rightarrow> string" where
  "stage_value PLAN = ''plan''"
| "stage_value CODE = ''code''"
| "stage_value TEST = ''test''"

text \<open>The services in the order of the pipeline.\<close>

instantiation service :: linorder
begin

definition less_eq_service :: "service \<Rightarrow> service \<Rightarrow> bool" where
  "less_eq_service a b = (a = b \<or> a = PFACTORY \<or> b = TFACTORY)"

definition less_service :: "service \<Rightarrow> service \<Rightarrow> bool" where
  "less_service a b = (a \<noteq> b \<and> (a = PFACTORY \<or> b = TFACTORY))"

instance
proof
  fix x y z :: service
  show "(x < y) = (x \<le> y \<and> \<not> y \<le> x)"
    by (cases x; cases y) (auto simp: less_eq_service_def less_service_def)
  show "x \<le> x" by (simp add: less_eq_service_def)
  show "x \<le> y \<Longrightarrow> y \<le> z \<Longrightarrow> x \<le> z"
    by (cases x; cases y; cases z) (auto simp: less_eq_service_def)
  show "x \<le> y \<Longrightarrow> y \<le> x \<Longrightarrow> x = y"
    by (cases x; cases y) (auto simp: less_eq_service_def)
  show "x \<le> y \<or> y \<le> x"
    by (cases x; cases y) (auto simp: less_eq_service_def)
qed

end

text \<open>\<open>as_utc\<close> labels a naive timestamp as UTC; it never shifts the wall clock.\<close>

fun as_utc :: "pydatetime option \<Rightarrow> pydatetime option" where
  "as_utc None = None"
| "as_utc (Some (Aware t)) = Some (Aware t)"
| "as_utc (Some (Naive t)) = Some (Aware t)"

section \<open>Shared usage block\<close>

record shared_usage =
  su_input_tokens :: "int option"
  su_output_tokens :: "int option"
  su_total_tokens :: "int option"
  su_cost_usd :: "rat option"
  su_model :: "string option"

definition empty_shared_usage :: shared_usage where
  "empty_shared_usage = \<lparr>su_input_tokens = None, su_output_tokens = None,
     su_total_tokens = None, su_cost_usd = None, su_model = None\<rparr>"

fun add_opt :: "'a::plus option \<Rightarrow> 'a option \<Rightarrow> 'a option" where
  "add_opt None y = y"
| "add_opt (Some x) None = Some x"
| "add_opt (Some x) (Some y) = Some (x + y)"

definition add_shared_usage :: "shared_usage option \<Rightarrow> shared_usage option \<Rightarrow> shared_usage" where
  "add_shared_usage a b =
    (let left = (case a of None \<Rightarrow> empty_shared_usage | Some u \<Rightarrow> u);
         right = (case b of None \<Rightarrow> empty_shared_usage | Some u \<Rightarrow> u)
     in \<lparr>su_input_tokens = add_opt (su_input_tokens left) (su_input_tokens right),
         su_output_tokens = add_opt (su_output_tokens left) (su_output_tokens right),
         su_total_tokens = add_opt (su_total_tokens left) (su_total_tokens right),
         su_cost_usd = add_opt (su_cost_usd left) (su_cost_usd right),
         su_model = py_or (su_model left) (su_model right)\<rparr>)"

definition rollup_shared_usage :: "shared_usage option list \<Rightarrow> shared_usage" where
  "rollup_shared_usage items =
     foldl (\<lambda>total item. add_shared_usage (Some total) item) empty_shared_usage items"

lemma add_opt_assoc: "add_opt (add_opt x y) z = add_opt x (add_opt y (z :: 'a::semigroup_add option))"
  by (cases x; cases y; cases z) (auto simp: add.assoc)

lemma add_opt_None [simp]: "add_opt x None = x"
  by (cases x) auto

lemma py_or_assoc: "py_or (py_or a b) c = py_or a (py_or b c)"
  by (auto simp: py_or_def)

lemma add_shared_usage_assoc:
  "add_shared_usage (Some (add_shared_usage (Some x) (Some y))) (Some z)
     = add_shared_usage (Some x) (Some (add_shared_usage (Some y) (Some z)))"
  by (simp add: add_shared_usage_def Let_def add_opt_assoc py_or_assoc)

lemma add_shared_usage_None:
  "add_shared_usage a None = add_shared_usage a (Some empty_shared_usage)"
  by (simp add: add_shared_usage_def)

lemma rollup_shared_usage_snoc [simp]:
  "rollup_shared_usage (items @ [i]) = add_shared_usage (Some (rollup_shared_usage items)) i"
  by (simp add: rollup_shared_usage_def)

section \<open>Rollup buckets\<close>

text \<open>A source dictionary of \<open>add_usage\<close>: a missing or null field is \<open>None\<close>.\<close>

record usage_src =
  us_input_tokens :: "rat option"
  us_output_tokens :: "rat option"
  us_total_tokens :: "rat option"
  us_cost_usd :: "rat option"
  us_workers :: "rat option"

record bucket =
  b_input_tokens :: rat
  b_output_tokens :: rat
  b_total_tokens :: rat
  b_cost_usd :: rat
  b_workers :: rat
  b_duration_ms :: "rat option"
  b_billing_mode :: "string option"

definition empty_bucket :: bucket where
  "empty_bucket = \<lparr>b_input_tokens = 0, b_output_tokens = 0, b_total_tokens = 0,
     b_cost_usd = 0, b_workers = 0, b_duration_ms = None, b_billing_mode = None\<rparr>"

definition or0 :: "rat option \<Rightarrow> rat" where
  "or0 x = (case x of None \<Rightarrow> 0 | Some v \<Rightarrow> v)"

definition add_usage :: "bucket \<Rightarrow> usage_src option \<Rightarrow> bool \<Rightarrow> bucket" where
  "add_usage dst src count_worker =
    (let get = (\<lambda>f. case src of None \<Rightarrow> 0 | Some s \<Rightarrow> or0 (f s));
         d = dst\<lparr>b_input_tokens := b_input_tokens dst + get us_input_tokens,
                 b_output_tokens := b_output_tokens dst + get us_output_tokens,
                 b_total_tokens := b_total_tokens dst + get us_total_tokens,
                 b_cost_usd := b_cost_usd dst + get us_cost_usd\<rparr>
     in if count_worker then d\<lparr>b_workers := b_workers d + 1\<rparr>
        else d\<lparr>b_workers := b_workers d + get us_workers\<rparr>)"

text \<open>The dictionary a bucket is stored as.\<close>

definition bucket_obj :: "bucket \<Rightarrow> jobj" where
  "bucket_obj b =
     [(''input_tokens'', JNum (b_input_tokens b)), (''output_tokens'', JNum (b_output_tokens b)),
      (''total_tokens'', JNum (b_total_tokens b)), (''cost_usd'', JNum (b_cost_usd b)),
      (''workers'', JNum (b_workers b))]
     @ (case b_duration_ms b of None \<Rightarrow> [] | Some d \<Rightarrow> [(''duration_ms'', JNum d)])
     @ (case b_billing_mode b of None \<Rightarrow> [] | Some m \<Rightarrow> [(''billing_mode'', JStr m)])"

section \<open>Usage, workers and events\<close>

record budget_info =
  bi_limit_usd :: rat
  bi_spent_usd :: rat
  bi_exceeded :: bool

record routing_info =
  ri_routing_class :: "string option"
  ri_tier :: "string option"
  ri_tier_source :: "string option"
  ri_savings_usd :: "rat option"
  ri_cost_estimate_usd :: "rat option"
  ri_cost_ceiling_usd :: "rat option"
  ri_budget_mode :: "string option"
  ri_runtime :: "string option"
  ri_policy :: "string option"
  ri_rationale :: "string option"
  ri_autonomy :: "string option"
  ri_autonomy_reason :: "string option"
  ri_phase_models :: "(string \<times> string) list"

definition jopt_str :: "string option \<Rightarrow> json" where
  "jopt_str x = (case x of None \<Rightarrow> JNull | Some s \<Rightarrow> JStr s)"

definition jopt_num :: "rat option \<Rightarrow> json" where
  "jopt_num x = (case x of None \<Rightarrow> JNull | Some q \<Rightarrow> JNum q)"

definition routing_dump :: "routing_info \<Rightarrow> json" where
  "routing_dump r = JObj
     [(''routing_class'', jopt_str (ri_routing_class r)), (''tier'', jopt_str (ri_tier r)),
      (''tier_source'', jopt_str (ri_tier_source r)), (''savings_usd'', jopt_num (ri_savings_usd r)),
      (''cost_estimate_usd'', jopt_num (ri_cost_estimate_usd r)),
      (''cost_ceiling_usd'', jopt_num (ri_cost_ceiling_usd r)),
      (''budget_mode'', jopt_str (ri_budget_mode r)), (''runtime'', jopt_str (ri_runtime r)),
      (''policy'', jopt_str (ri_policy r)), (''rationale'', jopt_str (ri_rationale r)),
      (''autonomy'', jopt_str (ri_autonomy r)),
      (''autonomy_reason'', jopt_str (ri_autonomy_reason r)),
      (''phase_models'', JObj (map (\<lambda>(k, v). (k, JStr v)) (ri_phase_models r)))]"

record worker_usage =
  wu_worker_id :: string
  wu_subtask_id :: "string option"
  wu_agent_phase :: "string option"
  wu_provider :: "string option"
  wu_model :: "string option"
  wu_input_tokens :: int
  wu_output_tokens :: int
  wu_total_tokens :: int
  wu_cost_usd :: rat
  wu_duration_ms :: int
  wu_billing_mode :: "string option"
  wu_elapsed_ms :: int

record progress_point =
  pp_ts :: int
  pp_total_tokens :: int
  pp_cost_usd :: rat
  pp_elapsed_ms :: int

record token_usage =
  tu_input_tokens :: int
  tu_output_tokens :: int
  tu_total_tokens :: int
  tu_cost_usd :: rat
  tu_model :: "string option"
  tu_workers :: "worker_usage list option"
  tu_by_provider :: "(string \<times> jobj) list option"
  tu_by_model :: "(string \<times> jobj) list option"
  tu_budget :: "budget_info option"

record completion_event =
  ce_id :: "string option"
  ce_correlation_key :: string
  ce_service :: service
  ce_task_id :: string
  ce_status :: string
  ce_phase :: "string option"
  ce_time :: "pydatetime option"
  ce_updated_at :: "pydatetime option"
  ce_usage :: "token_usage option"
  ce_worker :: "worker_usage option"
  ce_access :: "jobj option"
  ce_verification :: "jobj option"
  ce_routing :: "routing_info option"
  ce_injection_scan :: "jobj option"
  ce_dependency_review :: "jobj option"
  ce_votes :: "jobj option"
  ce_review :: "jobj option"

text \<open>The validator of an incoming event: either timestamp backfills the other, a missing one
  is the current time, and both are labelled UTC.\<close>

definition reconcile_timestamps :: "int \<Rightarrow> completion_event \<Rightarrow> completion_event" where
  "reconcile_timestamps now e =
    (let u = (case ce_updated_at e of
                None \<Rightarrow> (case ce_time e of None \<Rightarrow> Some (Aware now) | Some t \<Rightarrow> Some t)
              | Some t \<Rightarrow> Some t);
         tm = (case ce_time e of None \<Rightarrow> u | Some t \<Rightarrow> Some t)
     in e\<lparr>ce_updated_at := as_utc u, ce_time := as_utc tm\<rparr>)"

record service_state =
  ss_task_id :: "string option"
  ss_status :: "string option"
  ss_phase :: "string option"
  ss_repo :: "string option"
  ss_usage :: "token_usage option"
  ss_workers :: "(string, worker_usage) dict"
  ss_worker_progress :: "(string, progress_point list) dict"
  ss_by_provider :: "(string, jobj) dict"
  ss_by_model :: "(string, jobj) dict"
  ss_extra :: jobj

definition empty_state :: service_state where
  "empty_state = \<lparr>ss_task_id = None, ss_status = None, ss_phase = None, ss_repo = None,
     ss_usage = None, ss_workers = [], ss_worker_progress = [], ss_by_provider = [],
     ss_by_model = [], ss_extra = []\<rparr>"

record liveness =
  lv_age :: rat
  lv_active_service :: "service option"
  lv_active_status :: "string option"
  lv_stalled :: bool
  lv_deadline :: rat

record work_item =
  wi_key :: string
  wi_title :: "string option"
  wi_pfactory :: service_state
  wi_aifactory :: service_state
  wi_tfactory :: service_state
  wi_timeline :: "completion_event list"
  wi_created_at :: "pydatetime option"
  wi_updated_at :: "pydatetime option"

fun wi_stage :: "service \<Rightarrow> work_item \<Rightarrow> service_state" where
  "wi_stage PFACTORY w = wi_pfactory w"
| "wi_stage AIFACTORY w = wi_aifactory w"
| "wi_stage TFACTORY w = wi_tfactory w"

lemma as_utc_wall: "map_option wall (as_utc t) = map_option wall t"
  by (cases t rule: as_utc.cases) auto

lemma as_utc_aware: "as_utc t = Some u \<Longrightarrow> \<exists>w. u = Aware w"
  by (cases t rule: as_utc.cases) auto

lemma as_utc_idem [simp]: "as_utc (as_utc t) = as_utc t"
  by (cases t rule: as_utc.cases) auto

end
