(* ===== verification/Workitems.thy ===== *)
theory Workitems
  imports Models
begin

text \<open>
  The cross-service correlation store, \<open>store.py\<close>: how a completion event, a polled snapshot
  and the reconciling sweeps change the rows of \<open>work_items\<close>.

  A service column is \<open>None\<close> for the JSON value \<open>{}\<close> of a fresh row.  Every other value the
  store writes has the key \<open>task_id\<close>, so \<open>setdefault\<close> on it acts only on \<open>{}\<close>.  The current
  time is an argument, one value per operation.
\<close>

section \<open>Deadlines\<close>

text \<open>\<open>raw\<close> is the environment variable: \<open>None\<close> when unset, \<open>Some None\<close> when \<open>float()\<close> rejects it.\<close>

definition DEFAULT_STALL_DEADLINE_SECONDS :: rat where
  "DEFAULT_STALL_DEADLINE_SECONDS = 900"

definition DEFAULT_STALLED_PRUNE_HOURS :: rat where
  "DEFAULT_STALLED_PRUNE_HOURS = 24"

definition stall_deadline_seconds :: "rat option option \<Rightarrow> rat" where
  "stall_deadline_seconds raw = (case raw of
     None \<Rightarrow> DEFAULT_STALL_DEADLINE_SECONDS
   | Some None \<Rightarrow> DEFAULT_STALL_DEADLINE_SECONDS
   | Some (Some val) \<Rightarrow> if val > 0 then val else DEFAULT_STALL_DEADLINE_SECONDS)"

definition stalled_prune_seconds :: "rat option option \<Rightarrow> rat" where
  "stalled_prune_seconds raw =
    (let hours = (case raw of None \<Rightarrow> DEFAULT_STALLED_PRUNE_HOURS
                  | Some None \<Rightarrow> DEFAULT_STALLED_PRUNE_HOURS
                  | Some (Some h) \<Rightarrow> h)
     in (if hours > 0 then hours else DEFAULT_STALLED_PRUNE_HOURS) * 3600)"

section \<open>Liveness\<close>

definition PIPELINE_ORDER :: "service list" where
  "PIPELINE_ORDER = [PFACTORY, AIFACTORY, TFACTORY]"

text \<open>The loop of \<open>compute_liveness\<close>: the last service in pipeline order that has a status.\<close>

fun frontier_from :: "(service \<Rightarrow> string option) \<Rightarrow> service list
    \<Rightarrow> (service \<times> string) option \<Rightarrow> (service \<times> string) option" where
  "frontier_from st [] acc = acc"
| "frontier_from st (s # ss) acc =
     frontier_from st ss (case st s of
        None \<Rightarrow> acc
      | Some v \<Rightarrow> if v = [] then acc else Some (s, v))"

definition round1 :: "rat \<Rightarrow> rat" where
  "round1 x = (let y = 10 * x; f = \<lfloor>y\<rfloor>; d = y - of_int f
     in of_int (if d < 1/2 then f else if d > 1/2 then f + 1
                else if even f then f else f + 1) / 10)"

definition compute_liveness :: "work_item \<Rightarrow> int \<Rightarrow> rat \<Rightarrow> liveness" where
  "compute_liveness item now deadline =
    (let updated = map_option wall (as_utc (wi_updated_at item));
         age = (case updated of None \<Rightarrow> 0 | Some u \<Rightarrow> seconds_between now u);
         last = frontier_from (\<lambda>s. ss_status (wi_stage s item)) PIPELINE_ORDER None;
         active = (case last of None \<Rightarrow> False | Some (s, st) \<Rightarrow> \<not> is_terminal (Some st));
         stalled = (active \<and> updated \<noteq> None \<and> age > deadline)
     in \<lparr>lv_age = round1 age,
         lv_active_service = (if active then map_option fst last else None),
         lv_active_status = (if active then map_option snd last else None),
         lv_stalled = stalled, lv_deadline = deadline\<rparr>)"

section \<open>Needs-you\<close>

definition needs_human :: "work_item \<Rightarrow> int \<Rightarrow> rat \<Rightarrow> bool" where
  "needs_human wi now deadline =
    (if list_ex (\<lambda>s. truthy (ss_status (wi_stage s wi)) \<and> is_review (ss_status (wi_stage s wi)))
          PIPELINE_ORDER
     then True else lv_stalled (compute_liveness wi now deadline))"

definition needs_you_count :: "work_item list \<Rightarrow> int \<Rightarrow> rat \<Rightarrow> nat" where
  "needs_you_count items now deadline =
     length (filter (\<lambda>wi. needs_human wi now deadline) items)"

section \<open>Worker sub-events\<close>

definition is_worker_event :: "completion_event \<Rightarrow> bool" where
  "is_worker_event e = (ce_phase e = Some ''worker'' \<and> ce_worker e \<noteq> None)"

definition is_worker_progress_event :: "completion_event \<Rightarrow> bool" where
  "is_worker_progress_event e = (ce_phase e = Some ''worker_progress'' \<and> ce_worker e \<noteq> None)"

definition PROGRESS_SERIES_CAP :: nat where
  "PROGRESS_SERIES_CAP = 120"

text \<open>Epoch milliseconds of the event, truncated toward zero; 0 when it has no timestamp.  An
  event that passed the validator always has an aware one.\<close>

definition coerce_ts_ms :: "completion_event \<Rightarrow> int" where
  "coerce_ts_ms e = (case ce_updated_at e of
     None \<Rightarrow> 0
   | Some t \<Rightarrow> if wall t \<ge> 0 then wall t div 1000 else - ((- wall t) div 1000))"

text \<open>\<open>rollup_by\<close>, for the two dimensions the store uses.\<close>

definition worker_src :: "worker_usage \<Rightarrow> usage_src" where
  "worker_src w = \<lparr>us_input_tokens = Some (of_int (wu_input_tokens w)),
     us_output_tokens = Some (of_int (wu_output_tokens w)),
     us_total_tokens = Some (of_int (wu_total_tokens w)),
     us_cost_usd = Some (wu_cost_usd w), us_workers = None\<rparr>"

definition rollup_key :: "(worker_usage \<Rightarrow> string option) \<Rightarrow> worker_usage \<Rightarrow> string" where
  "rollup_key dm w = (case dm w of None \<Rightarrow> ''unknown'' | Some k \<Rightarrow> if k = [] then ''unknown'' else k)"

definition rollup_add :: "bucket \<Rightarrow> worker_usage \<Rightarrow> bucket" where
  "rollup_add b0 w =
    (let b = add_usage b0 (Some (worker_src w)) True;
         b' = b\<lparr>b_duration_ms := Some (or0 (b_duration_ms b) + of_int (wu_duration_ms w))\<rparr>
     in if truthy (wu_billing_mode w) \<and> b_billing_mode b' = None
        then b'\<lparr>b_billing_mode := wu_billing_mode w\<rparr> else b')"

definition rollup_step ::
    "(worker_usage \<Rightarrow> string option) \<Rightarrow> worker_usage \<Rightarrow> (string, bucket) dict \<Rightarrow> (string, bucket) dict" where
  "rollup_step dm w out =
    (let key = rollup_key dm w;
         b = (case dget out key of None \<Rightarrow> empty_bucket | Some b \<Rightarrow> b)
     in dset key (rollup_add b w) out)"

definition rollup_by ::
    "(string, worker_usage) dict \<Rightarrow> (worker_usage \<Rightarrow> string option) \<Rightarrow> (string, bucket) dict" where
  "rollup_by workers dm = fold (rollup_step dm) (dvalues workers) []"

definition rollup_obj ::
    "(string, worker_usage) dict \<Rightarrow> (worker_usage \<Rightarrow> string option) \<Rightarrow> (string, jobj) dict" where
  "rollup_obj workers dm = map (\<lambda>(k, b). (k, bucket_obj b)) (rollup_by workers dm)"

section \<open>Applying an event to a slice\<close>

definition slice_or_empty :: "service_state option \<Rightarrow> service_state" where
  "slice_or_empty col = (case col of None \<Rightarrow> empty_state | Some s \<Rightarrow> s)"

text \<open>Whether the timeline already holds the event.\<close>

definition already_recorded :: "completion_event list \<Rightarrow> completion_event \<Rightarrow> bool" where
  "already_recorded entries event =
    (if is_worker_progress_event event then False
     else if truthy (ce_id event) then list_ex (\<lambda>e. ce_id e = ce_id event) entries
     else if is_worker_event event then
       list_ex (\<lambda>e. ce_service e = ce_service event \<and>
          map_option wu_worker_id (ce_worker e) = map_option wu_worker_id (ce_worker event)) entries
     else False)"

definition take_last :: "nat \<Rightarrow> 'a list \<Rightarrow> 'a list" where
  "take_last n xs = (if length xs > n then drop (length xs - n) xs else xs)"

definition apply_worker_progress ::
    "service_state option \<Rightarrow> completion_event \<Rightarrow> worker_usage \<Rightarrow> service_state" where
  "apply_worker_progress col event w =
    (let prev = slice_or_empty col;
         series_map = ss_worker_progress prev;
         series = (case dget series_map (wu_worker_id w) of None \<Rightarrow> [] | Some s \<Rightarrow> s);
         series' = take_last PROGRESS_SERIES_CAP
           (series @ [\<lparr>pp_ts = coerce_ts_ms event, pp_total_tokens = wu_total_tokens w,
                       pp_cost_usd = wu_cost_usd w, pp_elapsed_ms = wu_elapsed_ms w\<rparr>]);
         slice = prev\<lparr>ss_worker_progress := dset (wu_worker_id w) series' series_map\<rparr>
     in case col of None \<Rightarrow> slice\<lparr>ss_task_id := Some (ce_task_id event)\<rparr> | Some _ \<Rightarrow> slice)"

definition apply_worker ::
    "service_state option \<Rightarrow> completion_event \<Rightarrow> worker_usage \<Rightarrow> service_state" where
  "apply_worker col event w =
    (let prev = slice_or_empty col;
         workers = dset (wu_worker_id w) w (ss_workers prev)
     in prev\<lparr>ss_task_id := py_or (ss_task_id prev) (Some (ce_task_id event)),
             ss_workers := workers,
             ss_by_provider := rollup_obj workers wu_provider,
             ss_by_model := rollup_obj workers wu_model\<rparr>)"

text \<open>A present, non-empty breakdown of the event, if it has one.\<close>

definition nonempty :: "'a list option \<Rightarrow> 'a list option" where
  "nonempty x = (case x of None \<Rightarrow> None | Some [] \<Rightarrow> None | Some (v # vs) \<Rightarrow> Some (v # vs))"

definition apply_terminal_or_scalar ::
    "service_state option \<Rightarrow> completion_event \<Rightarrow> service_state" where
  "apply_terminal_or_scalar col event =
    (let prev = slice_or_empty col;
         workers = (case ce_usage event of
             None \<Rightarrow> ss_workers prev
           | Some u \<Rightarrow> (case tu_workers u of
               None \<Rightarrow> ss_workers prev
             | Some ws \<Rightarrow> fold (\<lambda>w d. dset (wu_worker_id w) w d) ws (ss_workers prev)))
     in \<lparr>ss_task_id = Some (ce_task_id event), ss_status = Some (ce_status event),
         ss_phase = ce_phase event, ss_repo = None,
         ss_usage = (case ce_usage event of None \<Rightarrow> ss_usage prev | Some u \<Rightarrow> Some u),
         ss_workers = workers,
         ss_worker_progress =
           (if is_terminal (Some (ce_status event)) then [] else ss_worker_progress prev),
         ss_by_provider =
           (case nonempty (Option.bind (ce_usage event) tu_by_provider) of
              Some d \<Rightarrow> d | None \<Rightarrow> rollup_obj workers wu_provider),
         ss_by_model =
           (case nonempty (Option.bind (ce_usage event) tu_by_model) of
              Some d \<Rightarrow> d | None \<Rightarrow> rollup_obj workers wu_model),
         ss_extra = []\<rparr>)"

text \<open>The annotation blocks present on an event, in the order of \<open>_ANNOTATION_FIELDS\<close>.\<close>

definition annotation :: "string \<Rightarrow> jobj option \<Rightarrow> jobj" where
  "annotation field v = (case nonempty v of None \<Rightarrow> [] | Some ps \<Rightarrow> [(field, JObj ps)])"

definition annotations :: "completion_event \<Rightarrow> jobj" where
  "annotations e =
     annotation ''access'' (ce_access e) @ annotation ''verification'' (ce_verification e)
     @ (case ce_routing e of None \<Rightarrow> [] | Some r \<Rightarrow> [(''routing'', routing_dump r)])
     @ annotation ''injection_scan'' (ce_injection_scan e)
     @ annotation ''dependency_review'' (ce_dependency_review e)
     @ annotation ''votes'' (ce_votes e) @ annotation ''review'' (ce_review e)"

definition attach_annotations :: "service_state \<Rightarrow> completion_event \<Rightarrow> service_state" where
  "attach_annotations slice event =
    (let extra = fold (\<lambda>(k, v) d. dset k v d) (annotations event) (ss_extra slice)
     in if extra \<noteq> [] then slice\<lparr>ss_extra := extra\<rparr> else slice)"

definition event_slice :: "service_state option \<Rightarrow> completion_event \<Rightarrow> service_state" where
  "event_slice col event =
    (case ce_worker event of
       Some w \<Rightarrow>
         if ce_phase event = Some ''worker_progress'' then apply_worker_progress col event w
         else if ce_phase event = Some ''worker''
           then attach_annotations (apply_worker col event w) event
           else attach_annotations (apply_terminal_or_scalar col event) event
     | None \<Rightarrow> attach_annotations (apply_terminal_or_scalar col event) event)"

section \<open>Rollups\<close>

lemma dget_rollup_fold:
  "dget (fold (rollup_step dm) xs out) k =
     (let g = filter (\<lambda>w. rollup_key dm w = k) xs
      in if g = [] then dget out k
         else Some (fold (\<lambda>w b. rollup_add b w) g
                     (case dget out k of None \<Rightarrow> empty_bucket | Some b \<Rightarrow> b)))"
proof (induction xs arbitrary: out)
  case (Cons w xs)
  then show ?case by (auto simp: rollup_step_def Let_def)
qed simp

lemma dget_rollup_by:
  "dget (rollup_by workers dm) k =
     (let g = filter (\<lambda>w. rollup_key dm w = k) (dvalues workers)
      in if g = [] then None else Some (fold (\<lambda>w b. rollup_add b w) g empty_bucket))"
  by (simp add: rollup_by_def dget_rollup_fold Let_def)

lemma rollup_add_sums [simp]:
  "b_input_tokens (rollup_add b w) = b_input_tokens b + of_int (wu_input_tokens w)"
  "b_output_tokens (rollup_add b w) = b_output_tokens b + of_int (wu_output_tokens w)"
  "b_total_tokens (rollup_add b w) = b_total_tokens b + of_int (wu_total_tokens w)"
  "b_cost_usd (rollup_add b w) = b_cost_usd b + wu_cost_usd w"
  "b_workers (rollup_add b w) = b_workers b + 1"
  "or0 (b_duration_ms (rollup_add b w)) = or0 (b_duration_ms b) + of_int (wu_duration_ms w)"
  by (simp_all add: rollup_add_def add_usage_def worker_src_def or0_def Let_def)

lemma fold_rollup_add:
  "b_input_tokens (fold (\<lambda>w b. rollup_add b w) g b) = b_input_tokens b + of_int (\<Sum>w\<leftarrow>g. wu_input_tokens w)"
  "b_output_tokens (fold (\<lambda>w b. rollup_add b w) g b) = b_output_tokens b + of_int (\<Sum>w\<leftarrow>g. wu_output_tokens w)"
  "b_total_tokens (fold (\<lambda>w b. rollup_add b w) g b) = b_total_tokens b + of_int (\<Sum>w\<leftarrow>g. wu_total_tokens w)"
  "b_cost_usd (fold (\<lambda>w b. rollup_add b w) g b) = b_cost_usd b + (\<Sum>w\<leftarrow>g. wu_cost_usd w)"
  "b_workers (fold (\<lambda>w b. rollup_add b w) g b) = b_workers b + of_nat (length g)"
  "or0 (b_duration_ms (fold (\<lambda>w b. rollup_add b w) g b))
     = or0 (b_duration_ms b) + of_int (\<Sum>w\<leftarrow>g. wu_duration_ms w)"
  by (induction g arbitrary: b) auto

lemma empty_bucket_simps [simp]:
  "b_input_tokens empty_bucket = 0" "b_output_tokens empty_bucket = 0"
  "b_total_tokens empty_bucket = 0" "b_cost_usd empty_bucket = 0"
  "b_workers empty_bucket = 0" "or0 (b_duration_ms empty_bucket) = 0"
  "b_billing_mode empty_bucket = None"
  by (simp_all add: empty_bucket_def or0_def)

lemma dict_ok_fold_dset: "dict_ok d \<Longrightarrow> dict_ok (fold (\<lambda>x d. dset (f x) (g x) d) xs d)"
  by (induction xs arbitrary: d) auto

lemma dict_ok_rollup_by: "dict_ok (rollup_by workers dm)"
proof -
  have "dict_ok (fold (rollup_step dm) xs out)" if "dict_ok out" for xs out
    using that by (induction xs arbitrary: out) (auto simp: rollup_step_def Let_def)
  then show ?thesis by (simp add: rollup_by_def)
qed

section \<open>The slice invariant\<close>

text \<open>Dictionaries have one entry per key, a worker is stored under its own id, and no
  progress series is longer than the cap.\<close>

definition slice_ok :: "service_state \<Rightarrow> bool" where
  "slice_ok d = (dict_ok (ss_workers d) \<and> dict_ok (ss_worker_progress d)
     \<and> list_all (\<lambda>(k, w). wu_worker_id w = k) (ss_workers d)
     \<and> list_all (\<lambda>(k, ps). length ps \<le> PROGRESS_SERIES_CAP) (ss_worker_progress d))"

lemma slice_ok_empty [simp]: "slice_ok empty_state"
  by (simp add: slice_ok_def empty_state_def)

lemma list_all_dset:
  "list_all (\<lambda>(k, v). P k v) d \<Longrightarrow> P k v \<Longrightarrow> list_all (\<lambda>(k, v). P k v) (dset k v d)"
  by (induction d) auto

lemma length_take_last: "length (take_last n xs) = min n (length xs)"
  by (simp add: take_last_def)

lemma set_take_last: "set (take_last n xs) \<subseteq> set xs"
  by (auto simp: take_last_def dest: in_set_dropD)

lemma take_last_last: "0 < n \<Longrightarrow> xs \<noteq> [] \<Longrightarrow> last (take_last n xs) = last xs"
  by (simp add: take_last_def)

lemma slice_ok_attach [simp]: "slice_ok (attach_annotations d e) = slice_ok d"
  by (simp add: attach_annotations_def slice_ok_def Let_def)

lemma slice_ok_worker_progress:
  "slice_ok (slice_or_empty col) \<Longrightarrow> slice_ok (apply_worker_progress col e w)"
  by (cases col)
    (auto simp: apply_worker_progress_def slice_ok_def Let_def slice_or_empty_def
      length_take_last intro!: list_all_dset)

lemma slice_ok_worker: "slice_ok (slice_or_empty col) \<Longrightarrow> slice_ok (apply_worker col e w)"
  by (auto simp: apply_worker_def slice_ok_def Let_def intro!: list_all_dset)

lemma workers_fold_ok:
  "list_all (\<lambda>(k, w). wu_worker_id w = k) d \<Longrightarrow>
   list_all (\<lambda>(k, w). wu_worker_id w = k) (fold (\<lambda>w d. dset (wu_worker_id w) w d) ws d)"
  by (induction ws arbitrary: d) (auto intro!: list_all_dset)

lemma slice_ok_terminal:
  "slice_ok (slice_or_empty col) \<Longrightarrow> slice_ok (apply_terminal_or_scalar col e)"
  by (auto simp: apply_terminal_or_scalar_def slice_ok_def Let_def
      intro!: workers_fold_ok dict_ok_fold_dset split: option.splits)

lemma slice_ok_event [invar_intros]:
  "slice_ok (slice_or_empty col) \<Longrightarrow> slice_ok (event_slice col e)"
  by (auto simp: event_slice_def slice_ok_worker_progress slice_ok_worker slice_ok_terminal
      split: option.split)

lemma attach_scalar [simp]:
  "ss_task_id (attach_annotations d e) = ss_task_id d"
  "ss_status (attach_annotations d e) = ss_status d"
  "ss_phase (attach_annotations d e) = ss_phase d"
  "ss_repo (attach_annotations d e) = ss_repo d"
  "ss_usage (attach_annotations d e) = ss_usage d"
  "ss_workers (attach_annotations d e) = ss_workers d"
  "ss_worker_progress (attach_annotations d e) = ss_worker_progress d"
  by (simp_all add: attach_annotations_def Let_def)

lemma event_slice_cases:
  obtains (progress) w where "is_worker_progress_event e" "ce_worker e = Some w"
      "event_slice col e = apply_worker_progress col e w"
  | (worker) w where "is_worker_event e" "\<not> is_worker_progress_event e" "ce_worker e = Some w"
      "event_slice col e = attach_annotations (apply_worker col e w) e"
  | (scalar) "\<not> is_worker_event e" "\<not> is_worker_progress_event e"
      "event_slice col e = attach_annotations (apply_terminal_or_scalar col e) e"
  by (cases "ce_worker e")
    (auto simp: event_slice_def is_worker_event_def is_worker_progress_event_def split: if_splits)

section \<open>The active frontier\<close>

text \<open>The furthest service in pipeline order whose slice has a status.\<close>

definition furthest :: "(service \<Rightarrow> string option) \<Rightarrow> service option" where
  "furthest st = (if truthy (st TFACTORY) then Some TFACTORY
     else if truthy (st AIFACTORY) then Some AIFACTORY
     else if truthy (st PFACTORY) then Some PFACTORY else None)"

lemma frontier_from_pipeline:
  "frontier_from st PIPELINE_ORDER None = map_option (\<lambda>s. (s, the (st s))) (furthest st)"
  by (cases "st PFACTORY"; cases "st AIFACTORY"; cases "st TFACTORY")
    (auto simp: PIPELINE_ORDER_def furthest_def)

lemma furthest_Some:
  "furthest st = Some s \<longleftrightarrow> truthy (st s) \<and> (\<forall>s'>s. \<not> truthy (st s'))"
proof -
  have all: "(\<forall>x. Q x) \<longleftrightarrow> Q PFACTORY \<and> Q AIFACTORY \<and> Q TFACTORY" for Q :: "service \<Rightarrow> bool"
    using service.exhaust by metis
  show ?thesis
    unfolding all [of "\<lambda>s'. s < s' \<longrightarrow> \<not> truthy (st s')"]
    by (cases s) (simp_all add: furthest_def less_service_def)
qed

lemma stalled_iff:
  "lv_stalled (compute_liveness item now deadline) \<longleftrightarrow>
     (\<exists>s u. furthest (\<lambda>s. ss_status (wi_stage s item)) = Some s
        \<and> \<not> is_terminal (ss_status (wi_stage s item))
        \<and> wi_updated_at item = Some u \<and> seconds_between now (wall u) > deadline)"
proof (cases "wi_updated_at item")
  case None
  then show ?thesis by (simp add: compute_liveness_def Let_def)
next
  case (Some u)
  then obtain z where z: "as_utc (Some u) = Some z" "wall z = wall u"
    using as_utc_wall [of "Some u"] by auto
  show ?thesis
  proof (cases "furthest (\<lambda>s. ss_status (wi_stage s item))")
    case None
    then show ?thesis by (simp add: compute_liveness_def Let_def frontier_from_pipeline)
  next
    case F: (Some s)
    then have "truthy (ss_status (wi_stage s item))" by (simp add: furthest_Some)
    then obtain v where "ss_status (wi_stage s item) = Some v" by (auto simp: truthy_iff)
    then show ?thesis using F Some z
      by (simp add: compute_liveness_def Let_def frontier_from_pipeline)
  qed
qed

section \<open>Properties\<close>

text \<open>The rollup by a dimension has one bucket per value that occurs (null and empty values
  under \<open>unknown\<close>), and each bucket holds exactly the sums of its workers' tokens, cost and
  duration and their number: nothing is lost, duplicated or counted in another bucket.\<close>

theorem rollup_conserves:
  "dict_ok (rollup_by workers dm) \<and>
   (let g = filter (\<lambda>w. rollup_key dm w = k) (dvalues workers) in
    case dget (rollup_by workers dm) k of
      None \<Rightarrow> g = []
    | Some b \<Rightarrow> g \<noteq> [] \<and> b_workers b = of_nat (length g)
        \<and> b_input_tokens b = of_int (\<Sum>w\<leftarrow>g. wu_input_tokens w)
        \<and> b_output_tokens b = of_int (\<Sum>w\<leftarrow>g. wu_output_tokens w)
        \<and> b_total_tokens b = of_int (\<Sum>w\<leftarrow>g. wu_total_tokens w)
        \<and> b_cost_usd b = (\<Sum>w\<leftarrow>g. wu_cost_usd w)
        \<and> or0 (b_duration_ms b) = of_int (\<Sum>w\<leftarrow>g. wu_duration_ms w))"
  by (simp add: dict_ok_rollup_by dget_rollup_by Let_def fold_rollup_add)

text \<open>A work item is flagged stalled exactly when the furthest service that has a status is
  not terminal and the item has not changed for longer than the deadline; an earlier stage
  never raises the flag, and an item between stages (the furthest one terminal) never does.\<close>

theorem stalled_exactly_at_frontier:
  "lv_stalled (compute_liveness item now deadline) =
     (\<exists>s u. truthy (ss_status (wi_stage s item)) \<and> (\<forall>s'>s. \<not> truthy (ss_status (wi_stage s' item)))
        \<and> \<not> is_terminal (ss_status (wi_stage s item))
        \<and> wi_updated_at item = Some u \<and> seconds_between now (wall u) > deadline)"
  by (auto simp: stalled_iff furthest_Some)

theorem stalled_exactly_at_frontier_witness:
  "lv_stalled (compute_liveness \<lparr>wi_key = ''42'', wi_title = None,
     wi_pfactory = empty_state\<lparr>ss_status := Some ''emitted''\<rparr>,
     wi_aifactory = empty_state\<lparr>ss_status := Some ''ai_coding''\<rparr>, wi_tfactory = empty_state,
     wi_timeline = [], wi_created_at = None, wi_updated_at = Some (Naive 0)\<rparr> 901000000 900)"
  (is "lv_stalled (compute_liveness ?i _ _)")
proof -
  have "truthy (ss_status (wi_stage AIFACTORY ?i))"
    "\<forall>s'>AIFACTORY. \<not> truthy (ss_status (wi_stage s' ?i))"
    by (auto simp: less_service_def empty_state_def)
  moreover have "\<not> is_terminal (Some ''ai_coding'')" by code_simp
  ultimately show ?thesis
    unfolding stalled_exactly_at_frontier
    by (intro exI [of _ AIFACTORY] exI [of _ "Naive 0"]) (simp add: seconds_between_def)
qed

end
