(* ===== verification/Table.thy ===== *)
theory Table
  imports Prelude
begin

text \<open>
  What the relational stores of the program share: a table is a list of rows in insertion
  order, a unique index is a partial key on rows (\<open>NULL\<close> keys never collide), and a tenant
  scope filters what a statement sees.  The two locales are the contracts the store
  components are proved against; each store interprets them on its own operations.
\<close>

section \<open>Rows\<close>

text \<open>What a flush can raise: a unique index or \<open>NOT NULL\<close> refused a row, or an updated row is gone.\<close>

datatype db_error = IntegrityError | StaleDataError

definition DEFAULT_TENANT :: string where
  "DEFAULT_TENANT = ''default''"

definition update_where :: "('r \<Rightarrow> bool) \<Rightarrow> ('r \<Rightarrow> 'r) \<Rightarrow> 'r list \<Rightarrow> 'r list" where
  "update_where p f rows = map (\<lambda>r. if p r then f r else r) rows"

lemma update_where_Nil [simp]: "update_where p f [] = []"
  by (simp add: update_where_def)

lemma length_update_where [simp]: "length (update_where p f rows) = length rows"
  by (simp add: update_where_def)

lemma in_update_where:
  "r \<in> set (update_where p f rows) \<longleftrightarrow> (\<exists>r0\<in>set rows. r = (if p r0 then f r0 else r0))"
  by (auto simp: update_where_def)

lemma update_where_id: "(\<And>r. r \<in> set rows \<Longrightarrow> \<not> p r) \<Longrightarrow> update_where p f rows = rows"
  by (induction rows) (auto simp: update_where_def)

lemma filter_update_where_other:
  assumes "\<And>r. r \<in> set rows \<Longrightarrow> p r \<Longrightarrow> \<not> q r \<and> \<not> q (f r)"
  shows "filter q (update_where p f rows) = filter q rows"
  using assms by (induction rows) (auto simp: update_where_def)

lemma map_update_where:
  "(\<And>r. r \<in> set rows \<Longrightarrow> p r \<Longrightarrow> g (f r) = g r) \<Longrightarrow> map g (update_where p f rows) = map g rows"
  by (auto simp: update_where_def)

section \<open>Unique indexes\<close>

definition keys_unique :: "('r \<Rightarrow> 'k option) \<Rightarrow> 'r list \<Rightarrow> bool" where
  "keys_unique key rows = sorted_wrt (\<lambda>a b. key a = None \<or> key a \<noteq> key b) rows"

definition key_used :: "('r \<Rightarrow> 'k option) \<Rightarrow> 'r \<Rightarrow> 'r list \<Rightarrow> bool" where
  "key_used key r rows = (key r \<noteq> None \<and> list_ex (\<lambda>r'. key r' = key r) rows)"

lemma key_used_total [simp]: "key_used (Some \<circ> f) r rows \<longleftrightarrow> f r \<in> f ` set rows"
  by (auto simp: key_used_def list_ex_iff image_iff eq_commute)

lemma key_used_None [simp]: "key r = None \<Longrightarrow> \<not> key_used key r rows"
  by (simp add: key_used_def)

lemma keys_unique_Nil [simp]: "keys_unique key []"
  by (simp add: keys_unique_def)

lemma keys_unique_snoc:
  "keys_unique key (rows @ [r]) \<longleftrightarrow> keys_unique key rows \<and> \<not> key_used key r rows"
  by (auto simp: keys_unique_def sorted_wrt_append key_used_def list_ex_iff)

lemma keys_unique_filter [intro]: "keys_unique key rows \<Longrightarrow> keys_unique key (filter p rows)"
  by (simp add: keys_unique_def sorted_wrt_filter)

lemma keys_unique_map_same:
  assumes "\<And>r. r \<in> set rows \<Longrightarrow> key (f r) = key r"
  shows "keys_unique key (map f rows) = keys_unique key rows"
  using assms by (induction rows) (auto simp: keys_unique_def)

lemma keys_unique_update_same:
  assumes "\<And>r. r \<in> set rows \<Longrightarrow> p r \<Longrightarrow> key (f r) = key r"
  shows "keys_unique key (update_where p f rows) = keys_unique key rows"
  unfolding update_where_def by (rule keys_unique_map_same) (use assms in auto)

lemma keys_unique_clear:
  assumes "keys_unique key rows" "\<And>r. r \<in> set rows \<Longrightarrow> p r \<Longrightarrow> key (f r) = None"
  shows "keys_unique key (update_where p f rows)"
  using assms
proof (induction rows)
  case (Cons a rows)
  have "key b = None \<or> (\<exists>c\<in>set rows. key b = key c)" if b: "b \<in> set (update_where p f rows)" for b
  proof -
    obtain c where "c \<in> set rows" "b = (if p c then f c else c)" using b unfolding in_update_where by blast
    then show ?thesis using Cons.prems(2) [of c] by (cases "p c") auto
  qed
  then show ?case using Cons by (fastforce simp: keys_unique_def update_where_def)
qed simp

lemma keys_unique_inj:
  assumes "keys_unique key rows" "a \<in> set rows" "b \<in> set rows" "key a = key b" "key a \<noteq> None"
  shows "a = b"
  using assms by (induction rows) (auto simp: keys_unique_def)

lemma keys_unique_others:
  assumes "keys_unique key rows" "cur \<in> set rows" "key r = key cur"
  shows "\<not> key_used key r (filter (\<lambda>d. ident d \<noteq> ident cur) rows)"
proof
  assume "key_used key r (filter (\<lambda>d. ident d \<noteq> ident cur) rows)"
  then obtain d where "d \<in> set rows" "ident d \<noteq> ident cur" "key d = key cur" "key cur \<noteq> None"
    using assms(3) unfolding key_used_def list_ex_iff by auto
  then show False using keys_unique_inj [OF assms(1) _ assms(2)] by metis
qed

lemma keys_unique_total: "keys_unique (Some \<circ> f) rows \<longleftrightarrow> distinct (map f rows)"
  by (induction rows) (auto simp: keys_unique_def)

text \<open>Changing the one row \<open>i\<close> to a key no other row holds keeps the index unique.\<close>

lemma keys_unique_update_one:
  assumes "keys_unique key rows"
    and one: "\<And>a. a \<in> set rows \<Longrightarrow> p a \<Longrightarrow> a = r"
    and fresh: "\<not> key_used key (f r) (filter (\<lambda>a. \<not> p a) rows)"
    and single: "length (filter p rows) \<le> 1"
  shows "keys_unique key (update_where p f rows)"
  using assms
proof (induction rows)
  case (Cons a rows)
  show ?case
  proof (cases "p a")
    case True
    then have none: "filter p rows = []" using Cons.prems(4) by simp
    then have id: "update_where p f rows = rows"
      by (intro update_where_id) (auto simp: filter_empty_conv)
    have "filter (\<lambda>a. \<not> p a) rows = rows" using none by (auto simp: filter_empty_conv filter_id_conv)
    moreover have "a = r" using Cons.prems(2) True by simp
    ultimately show ?thesis using True Cons.prems(1,3) id [unfolded update_where_def]
      by (auto simp: update_where_def keys_unique_def key_used_def list_ex_iff)
  next
    case False
    have ih: "keys_unique key (update_where p f rows)"
      using Cons.prems False by (intro Cons.IH) (auto simp: keys_unique_def key_used_def list_ex_iff)
    have "key a = None \<or> key a \<noteq> key b" if b: "b \<in> set (update_where p f rows)" for b
    proof -
      obtain c where c: "c \<in> set rows" "b = (if p c then f c else c)"
        using b by (auto simp: in_update_where)
      show ?thesis
      proof (cases "p c")
        case True
        then have "b = f r" using c Cons.prems(2) [of c] by simp
        then show ?thesis using Cons.prems(3) False by (auto simp: key_used_def list_ex_iff)
      next
        case False
        then show ?thesis using c Cons.prems(1) by (auto simp: keys_unique_def)
      qed
    qed
    then show ?thesis using ih False by (auto simp: update_where_def keys_unique_def)
  qed
qed simp

lemma distinct_one: "distinct (map ident rows) \<Longrightarrow> length (filter (\<lambda>r. ident r = i) rows) \<le> 1"
proof (induction rows)
  case (Cons a rows)
  show ?case
  proof (cases "ident a = i")
    case True
    then have "\<forall>r\<in>set rows. ident r \<noteq> i" using Cons.prems by (metis distinct.simps(2) imageI list.set_map list.simps(9))
    then have "filter (\<lambda>r. ident r = i) rows = []" by (simp add: filter_empty_conv)
    then show ?thesis by simp
  next
    case False
    then show ?thesis using Cons by simp
  qed
qed simp

lemma keys_unique_update_id:
  assumes "keys_unique key rows" "distinct (map ident rows)"
    and "\<And>r. r \<in> set rows \<Longrightarrow> ident r = i \<Longrightarrow> \<not> key_used key (f r) (filter (\<lambda>d. ident d \<noteq> i) rows)"
  shows "keys_unique key (update_where (\<lambda>d. ident d = i) f rows)"
proof (cases "\<exists>r\<in>set rows. ident r = i")
  case True
  then obtain r where r: "r \<in> set rows" "ident r = i" by blast
  show ?thesis
    using r assms(2) by (intro keys_unique_update_one [of key rows _ r] assms(1) assms(3) distinct_one)
      (auto simp: distinct_map inj_on_def)
next
  case False
  then show ?thesis using assms(1) by (subst update_where_id) auto
qed

lemma keys_unique_distinct:
  "keys_unique key rows \<Longrightarrow> (\<And>r. r \<in> set rows \<Longrightarrow> key r \<noteq> None) \<Longrightarrow> distinct (map key rows)"
  by (induction rows) (fastforce simp: keys_unique_def)+

lemma find_SomeD: "List.find p xs = Some x \<Longrightarrow> x \<in> set xs \<and> p x"
  by (auto simp: find_Some_iff)

lemma find_exists: "(\<exists>x. List.find p xs = Some x) \<longleftrightarrow> (\<exists>x\<in>set xs. p x)"
  by (metis find_None_iff find_SomeD not_Some_eq)

lemma find_unique:
  assumes "keys_unique key rows" "r \<in> set rows" "key r = Some k"
  shows "List.find (\<lambda>r. key r = Some k) rows = Some r"
  using assms by (induction rows) (auto simp: keys_unique_def)

text \<open>The contract of an insert guarded by a unique index: a key in use is refused and changes
  nothing; otherwise exactly one row is appended.\<close>

locale unique_table =
  fixes rows :: "'s \<Rightarrow> 'r list"
    and key :: "'r \<Rightarrow> 'k option"
    and ins :: "'r \<Rightarrow> 's \<Rightarrow> 'e + 's"
  assumes ins_ok: "ins r s = Inr s' \<Longrightarrow>
      \<not> key_used key r (rows s) \<and> (\<exists>r'. key r' = key r \<and> rows s' = rows s @ [r'])"
begin

lemma insert_keeps_unique:
  assumes "ins r s = Inr s'" "keys_unique key (rows s)"
  shows "keys_unique key (rows s')"
  using ins_ok [OF assms(1)] assms(2) by (auto simp: keys_unique_snoc key_used_def)

lemma insert_used_fails:
  assumes "key_used key r (rows s)"
  shows "\<exists>e. ins r s = Inl e"
  using ins_ok assms by (cases "ins r s") blast+

lemma insert_finds:
  assumes "ins r s = Inr s'" "keys_unique key (rows s)" "key r = Some k"
  shows "\<exists>r'\<in>set (rows s'). key r' = Some k \<and> List.find (\<lambda>r. key r = Some k) (rows s') = Some r'"
proof -
  obtain r' where r': "key r' = key r" "rows s' = rows s @ [r']" using ins_ok [OF assms(1)] by blast
  then have "List.find (\<lambda>r. key r = Some k) (rows s') = Some r'"
    using insert_keeps_unique [OF assms(1,2)] assms(3) by (intro find_unique) auto
  then show ?thesis using r' assms(3) by auto
qed

lemma insert_keeps_others:
  assumes "ins r s = Inr s'" "\<And>r'. key r' = key r \<Longrightarrow> \<not> p r'"
  shows "filter p (rows s') = filter p (rows s)"
  using ins_ok [OF assms(1)] assms(2) by auto

lemma insert_twice_fails:
  assumes "ins r s = Inr s'" "key r \<noteq> None" "key r2 = key r"
  shows "\<exists>e. ins r2 s' = Inl e"
  using ins_ok [OF assms(1)] assms(2,3) by (intro insert_used_fails) (auto simp: key_used_def)

end

section \<open>Tenant scopes\<close>

definition in_scope :: "('r \<Rightarrow> string) \<Rightarrow> string option \<Rightarrow> 'r \<Rightarrow> bool" where
  "in_scope tenant scope r = (case scope of None \<Rightarrow> True | Some t \<Rightarrow> tenant r = t)"

definition tenant_rows :: "('r \<Rightarrow> string) \<Rightarrow> string \<Rightarrow> 'r list \<Rightarrow> 'r list" where
  "tenant_rows tenant t rows = filter (\<lambda>r. tenant r = t) rows"

lemma tenant_rows_append [simp]:
  "tenant_rows tenant t (xs @ ys) = tenant_rows tenant t xs @ tenant_rows tenant t ys"
  by (simp add: tenant_rows_def)

lemma tenant_rows_filter_other:
  assumes "\<And>r. r \<in> set rows \<Longrightarrow> \<not> p r \<Longrightarrow> tn r \<noteq> t"
  shows "tenant_rows tn t (filter p rows) = tenant_rows tn t rows"
  unfolding tenant_rows_def using assms by (auto intro!: filter_cong)

lemma tenant_rows_update_other:
  assumes "\<And>r. r \<in> set rows \<Longrightarrow> p r \<Longrightarrow> tn r \<noteq> t \<and> tn (f r) \<noteq> t"
  shows "tenant_rows tn t (update_where p f rows) = tenant_rows tn t rows"
  unfolding tenant_rows_def using assms by (intro filter_update_where_other) auto

text \<open>The contract of a scoped read: it sees exactly the rows of its tenant, so it cannot
  tell two stores apart that agree on them.\<close>

locale scoped_select =
  fixes tenant :: "'r \<Rightarrow> string"
    and rows :: "'s \<Rightarrow> 'r list"
    and sel :: "string option \<Rightarrow> 's \<Rightarrow> 'r list"
  assumes sel_eq: "sel scope s = filter (in_scope tenant scope) (rows s)"
begin

lemma sel_scoped: "sel (Some t) s = tenant_rows tenant t (rows s)"
  by (simp add: sel_eq in_scope_def [abs_def] tenant_rows_def)

lemma sel_unscoped: "sel None s = rows s"
  by (simp add: sel_eq in_scope_def [abs_def])

lemma sel_tenant: "r \<in> set (sel (Some t) s) \<Longrightarrow> tenant r = t"
  by (simp add: sel_eq in_scope_def)

lemma sel_subset: "set (sel scope s) \<subseteq> set (rows s)"
  by (auto simp: sel_eq)

lemma sel_indistinguishable:
  "tenant_rows tenant t (rows s) = tenant_rows tenant t (rows s') \<Longrightarrow> sel (Some t) s = sel (Some t) s'"
  by (simp add: sel_scoped)

end

section \<open>Tenants and their operations\<close>

text \<open>A run of operations, each by a tenant; one that fails changes nothing.\<close>

fun run_ops :: "(string \<Rightarrow> 'o \<Rightarrow> 's \<Rightarrow> 'e + 's) \<Rightarrow> (string \<times> 'o) list \<Rightarrow> 's \<Rightarrow> 's" where
  "run_ops exec [] s = s"
| "run_ops exec ((t, op) # ops) s =
     (case exec t op s of Inl _ \<Rightarrow> run_ops exec ops s | Inr s' \<Rightarrow> run_ops exec ops s')"

text \<open>The contract of a store shared by tenants: an operation keeps the store well-formed and
  leaves what every other tenant sees unchanged.  \<open>valid\<close> says which names a tenant can have.\<close>

locale tenant_store =
  fixes exec :: "string \<Rightarrow> 'o \<Rightarrow> 's \<Rightarrow> 'e + 's"
    and valid :: "string \<Rightarrow> bool"
    and ok :: "'s \<Rightarrow> bool"
    and view :: "string \<Rightarrow> 's \<Rightarrow> 'v"
  assumes exec_ok: "exec t op s = Inr s' \<Longrightarrow> ok s \<Longrightarrow> ok s'"
    and exec_view: "exec t op s = Inr s' \<Longrightarrow> ok s \<Longrightarrow> valid t \<Longrightarrow> t' \<noteq> t \<Longrightarrow> view t' s' = view t' s"
begin

lemma run_ok: "ok s \<Longrightarrow> ok (run_ops exec ops s)"
proof (induction ops arbitrary: s)
  case (Cons a ops)
  then show ?case using exec_ok by (cases a; cases "exec (fst a) (snd a) s") auto
qed simp

lemma run_view:
  "ok s \<Longrightarrow> t' \<notin> fst ` set ops \<Longrightarrow> list_all (\<lambda>a. valid (fst a)) ops \<Longrightarrow> view t' (run_ops exec ops s) = view t' s"
proof (induction ops arbitrary: s)
  case (Cons a ops)
  obtain t op where a: "a = (t, op)" by force
  show ?case
  proof (cases "exec t op s")
    case (Inl e)
    then show ?thesis using Cons a by simp
  next
    case (Inr s')
    then show ?thesis using Cons.IH [of s'] Cons.prems exec_ok [OF Inr] exec_view [OF Inr, of t'] a by auto
  qed
qed simp

end

end
