(* ===== verification/Workstore.thy ===== *)
theory Workstore
  imports Workitems Table
begin

text \<open>
  \<open>WorkItemRow\<close> and \<open>WorkItemStore\<close> of \<open>store.py\<close>.  A write is planned from the rows the
  transaction reads and committed to the rows present at its flush; run alone, the two are
  the same rows.  A plan that inserts a key already present fails with \<open>IntegrityError\<close>
  (the unique index on \<open>correlation_key\<close>), which the operation retries once; an update whose
  row is gone fails with \<open>StaleDataError\<close>, which it does not.
\<close>

record wi_row =
  wr_id :: nat
  wr_key :: string
  wr_tenant :: string
  wr_title :: "string option"
  wr_pfactory :: "service_state option"
  wr_aifactory :: "service_state option"
  wr_tfactory :: "service_state option"
  wr_timeline :: "completion_event list"
  wr_created_at :: int
  wr_updated_at :: int

record wi_store =
  ws_rows :: "wi_row list"
  ws_next :: nat

fun wr_stage :: "service \<Rightarrow> wi_row \<Rightarrow> service_state option" where
  "wr_stage PFACTORY r = wr_pfactory r"
| "wr_stage AIFACTORY r = wr_aifactory r"
| "wr_stage TFACTORY r = wr_tfactory r"

fun set_stage :: "service \<Rightarrow> service_state \<Rightarrow> wi_row \<Rightarrow> wi_row" where
  "set_stage PFACTORY s r = r\<lparr>wr_pfactory := Some s\<rparr>"
| "set_stage AIFACTORY s r = r\<lparr>wr_aifactory := Some s\<rparr>"
| "set_stage TFACTORY s r = r\<lparr>wr_tfactory := Some s\<rparr>"

definition to_model :: "wi_row \<Rightarrow> work_item" where
  "to_model r = \<lparr>wi_key = wr_key r, wi_title = wr_title r,
     wi_pfactory = slice_or_empty (wr_pfactory r),
     wi_aifactory = slice_or_empty (wr_aifactory r),
     wi_tfactory = slice_or_empty (wr_tfactory r),
     wi_timeline = wr_timeline r,
     wi_created_at = as_utc (Some (Naive (wr_created_at r))),
     wi_updated_at = as_utc (Some (Naive (wr_updated_at r)))\<rparr>"

definition row_has_stage_data :: "wi_row \<Rightarrow> bool" where
  "row_has_stage_data r = list_ex (\<lambda>s. let d = slice_or_empty (wr_stage s r)
     in truthy (ss_status d) \<or> truthy (ss_task_id d)) [PFACTORY, AIFACTORY, TFACTORY]"

section \<open>Reading under a tenant scope\<close>

definition visible :: "string option \<Rightarrow> wi_row \<Rightarrow> bool" where
  "visible scope r = in_scope wr_tenant scope r"

definition select_rows :: "string option \<Rightarrow> wi_store \<Rightarrow> wi_row list" where
  "select_rows scope s = filter (visible scope) (ws_rows s)"

definition get_row :: "string option \<Rightarrow> wi_store \<Rightarrow> string \<Rightarrow> wi_row option" where
  "get_row scope s k = List.find (\<lambda>r. wr_key r = k) (select_rows scope s)"

definition get_item :: "string option \<Rightarrow> wi_store \<Rightarrow> string \<Rightarrow> work_item option" where
  "get_item scope s k = map_option to_model (get_row scope s k)"

definition list_items :: "string option \<Rightarrow> wi_store \<Rightarrow> work_item list" where
  "list_items scope s =
     map to_model (sort_key (\<lambda>r. - wr_updated_at r) (select_rows scope s))"

section \<open>Planned writes\<close>

datatype wi_write =
    WNone
  | WInsert wi_row
  | WUpdate nat "wi_row \<Rightarrow> wi_row"

definition new_row :: "string option \<Rightarrow> int \<Rightarrow> string \<Rightarrow> wi_row" where
  "new_row scope now k = \<lparr>wr_id = 0, wr_key = k,
     wr_tenant = (case scope of None \<Rightarrow> DEFAULT_TENANT | Some t \<Rightarrow> if t = [] then DEFAULT_TENANT else t),
     wr_title = None, wr_pfactory = None, wr_aifactory = None, wr_tfactory = None,
     wr_timeline = [], wr_created_at = now, wr_updated_at = now\<rparr>"

fun commit_write :: "wi_write \<Rightarrow> wi_store \<Rightarrow> db_error + wi_store" where
  "commit_write WNone s = Inr s"
| "commit_write (WInsert r) s =
     (if wr_key r \<in> wr_key ` set (ws_rows s) then Inl IntegrityError
      else Inr (s\<lparr>ws_rows := ws_rows s @ [r\<lparr>wr_id := ws_next s\<rparr>], ws_next := ws_next s + 1\<rparr>))"
| "commit_write (WUpdate i f) s =
     (if i \<in> wr_id ` set (ws_rows s)
      then Inr (s\<lparr>ws_rows := update_where (\<lambda>r. wr_id r = i) f (ws_rows s)\<rparr>)
      else Inl StaleDataError)"

text \<open>The row an event is written to after the write: the slice, the timeline and the clock.
  Only these columns are part of an update.\<close>

definition event_change :: "int \<Rightarrow> completion_event \<Rightarrow> wi_row \<Rightarrow> wi_row \<Rightarrow> wi_row" where
  "event_change now event seen r =
    (let s = event_slice (wr_stage (ce_service event) seen) event;
         r' = (set_stage (ce_service event) s r)\<lparr>wr_updated_at := now\<rparr>
     in if is_worker_progress_event event then r'
        else r'\<lparr>wr_timeline := wr_timeline seen @ [event]\<rparr>)"

text \<open>The body of one attempt: what is returned and what is to be written.\<close>

definition plan_event ::
    "string option \<Rightarrow> int \<Rightarrow> completion_event \<Rightarrow> wi_store \<Rightarrow> (work_item \<times> bool) \<times> wi_write" where
  "plan_event scope now event s =
    (case get_row scope s (ce_correlation_key event) of
       Some row \<Rightarrow>
         if already_recorded (wr_timeline row) event then ((to_model row, False), WNone)
         else ((to_model (event_change now event row row), True),
               WUpdate (wr_id row) (event_change now event row))
     | None \<Rightarrow>
         let row = new_row scope now (ce_correlation_key event);
             row' = event_change now event row row
         in ((to_model row', True), WInsert row'))"

definition poll_blind_fill :: "service_state \<Rightarrow> service_state \<Rightarrow> service_state" where
  "poll_blind_fill existing new =
     new\<lparr>ss_usage := (case ss_usage new of None \<Rightarrow> ss_usage existing | Some u \<Rightarrow> Some u),
         ss_workers := (if ss_workers new = [] then ss_workers existing else ss_workers new),
         ss_worker_progress := (if ss_worker_progress new = [] then ss_worker_progress existing
                                else ss_worker_progress new),
         ss_by_provider := (if ss_by_provider new = [] then ss_by_provider existing
                            else ss_by_provider new),
         ss_by_model := (if ss_by_model new = [] then ss_by_model existing
                         else ss_by_model new)\<rparr>"

definition snapshot_change ::
    "int \<Rightarrow> service \<Rightarrow> service_state \<Rightarrow> string option \<Rightarrow> wi_row \<Rightarrow> wi_row \<Rightarrow> wi_row" where
  "snapshot_change now service new title seen r =
    (let r' = (set_stage service new r)\<lparr>wr_updated_at := now\<rparr>
     in if truthy title \<and> \<not> truthy (wr_title seen) then r'\<lparr>wr_title := title\<rparr> else r')"

definition snapshot_unchanged :: "service_state \<Rightarrow> service_state \<Rightarrow> string option \<Rightarrow> wi_row \<Rightarrow> bool" where
  "snapshot_unchanged existing new title row =
    (\<not> (truthy title \<and> \<not> truthy (wr_title row))
     \<and> ss_status existing = ss_status new \<and> ss_phase existing = ss_phase new
     \<and> ss_usage existing = ss_usage new)"

definition snapshot_superseded :: "service_state \<Rightarrow> service_state \<Rightarrow> bool \<Rightarrow> bool" where
  "snapshot_superseded existing new newest =
    (\<not> newest \<and> is_done (ss_status existing) \<and> ss_task_id existing \<noteq> ss_task_id new
     \<and> is_dead_stage (ss_status new))"

definition plan_snapshot ::
    "string option \<Rightarrow> int \<Rightarrow> string \<Rightarrow> service \<Rightarrow> service_state \<Rightarrow> string option \<Rightarrow> bool
     \<Rightarrow> wi_store \<Rightarrow> work_item \<times> wi_write" where
  "plan_snapshot scope now k service state title newest s =
    (case get_row scope s k of
       Some row \<Rightarrow>
         let existing = slice_or_empty (wr_stage service row);
             new = poll_blind_fill existing state
         in if snapshot_unchanged existing new title row \<or> snapshot_superseded existing new newest
            then (to_model row, WNone)
            else (to_model (snapshot_change now service new title row row),
                  WUpdate (wr_id row) (snapshot_change now service new title row))
     | None \<Rightarrow>
         let row = new_row scope now k;
             row' = snapshot_change now service state title row row
         in (to_model row', WInsert row'))"

text \<open>Two attempts.  \<open>between\<close> is what other writers commit after this one has read and
  before it flushes, in the first attempt; the identity when it runs alone.\<close>

definition run_plan :: "(wi_store \<Rightarrow> 'a \<times> wi_write) \<Rightarrow> (wi_store \<Rightarrow> wi_store) \<Rightarrow> wi_store
    \<Rightarrow> (db_error + 'a) \<times> wi_store" where
  "run_plan plan between s =
    (let (a, w) = plan s; s1 = between s
     in case commit_write w s1 of
          Inr s2 \<Rightarrow> (Inr a, s2)
        | Inl StaleDataError \<Rightarrow> (Inl StaleDataError, s1)
        | Inl IntegrityError \<Rightarrow> (let (a', w') = plan s1
                    in case commit_write w' s1 of
                         Inr s2 \<Rightarrow> (Inr a', s2)
                       | Inl e \<Rightarrow> (Inl e, s1)))"

definition upsert_from_event ::
    "string option \<Rightarrow> int \<Rightarrow> completion_event \<Rightarrow> (wi_store \<Rightarrow> wi_store) \<Rightarrow> wi_store
     \<Rightarrow> (db_error + (work_item \<times> bool)) \<times> wi_store" where
  "upsert_from_event scope now event between s = run_plan (plan_event scope now event) between s"

definition upsert_snapshot ::
    "string option \<Rightarrow> int \<Rightarrow> string \<Rightarrow> service \<Rightarrow> service_state \<Rightarrow> string option \<Rightarrow> bool
     \<Rightarrow> (wi_store \<Rightarrow> wi_store) \<Rightarrow> wi_store \<Rightarrow> (db_error + work_item) \<times> wi_store" where
  "upsert_snapshot scope now k service state title newest between s =
     run_plan (plan_snapshot scope now k service state title newest) between s"

section \<open>Sweeps\<close>

definition stale_stage :: "service \<Rightarrow> string set \<Rightarrow> wi_row \<Rightarrow> bool" where
  "stale_stage service live r =
    (let d = slice_or_empty (wr_stage service r)
     in truthy (ss_status d) \<and> \<not> is_terminal (ss_status d) \<and> \<not> is_dead_stage (ss_status d)
        \<and> (case ss_task_id d of None \<Rightarrow> False | Some t \<Rightarrow> t \<notin> live))"

definition blank_stage :: "int \<Rightarrow> service \<Rightarrow> wi_row \<Rightarrow> wi_row" where
  "blank_stage now service r = (set_stage service empty_state r)\<lparr>wr_updated_at := now\<rparr>"

definition reconcile_snapshot ::
    "string option \<Rightarrow> int \<Rightarrow> service \<Rightarrow> string set \<Rightarrow> wi_store \<Rightarrow> nat \<times> wi_store" where
  "reconcile_snapshot scope now service live s =
    (let hit = (\<lambda>r. visible scope r \<and> stale_stage service live r)
     in (length (filter hit (ws_rows s)),
         s\<lparr>ws_rows := update_where hit (blank_stage now service) (ws_rows s)\<rparr>))"

definition frontier :: "wi_row \<Rightarrow> service_state option" where
  "frontier r = List.find (\<lambda>d. truthy (ss_status d))
     (map (\<lambda>s. slice_or_empty (wr_stage s r)) (rev PIPELINE_ORDER))"

definition prunable :: "int \<Rightarrow> rat \<Rightarrow> wi_row \<Rightarrow> bool" where
  "prunable now limit r = (case frontier r of
     None \<Rightarrow> False
   | Some d \<Rightarrow> is_dead_stage (ss_status d) \<and> seconds_between now (wr_updated_at r) > limit)"

definition prune_dead :: "string option \<Rightarrow> int \<Rightarrow> rat \<Rightarrow> wi_store \<Rightarrow> nat \<times> wi_store" where
  "prune_dead scope now limit s =
    (let hit = (\<lambda>r. visible scope r \<and> prunable now limit r)
     in (length (filter hit (ws_rows s)),
         s\<lparr>ws_rows := filter (\<lambda>r. \<not> hit r) (ws_rows s)\<rparr>))"

definition rekeyed :: "service \<Rightarrow> (string, string) dict \<Rightarrow> wi_row \<Rightarrow> bool" where
  "rekeyed service keys r =
    (case ss_task_id (slice_or_empty (wr_stage service r)) of
       None \<Rightarrow> False
     | Some t \<Rightarrow> (case dget keys t of None \<Rightarrow> False | Some c \<Rightarrow> c \<noteq> wr_key r))"

definition rekey_row ::
    "string option \<Rightarrow> int \<Rightarrow> service \<Rightarrow> (string, string) dict \<Rightarrow> wi_row \<Rightarrow> wi_row list" where
  "rekey_row scope now service keys r =
    (if \<not> (visible scope r \<and> rekeyed service keys r) then [r]
     else let r' = blank_stage now service r
          in if row_has_stage_data r' then [r'] else [])"

definition prune_duplicate_stages ::
    "string option \<Rightarrow> int \<Rightarrow> service \<Rightarrow> (string, string) dict \<Rightarrow> wi_store \<Rightarrow> nat \<times> wi_store" where
  "prune_duplicate_stages scope now service keys s =
     (length (filter (\<lambda>r. visible scope r \<and> rekeyed service keys r) (ws_rows s)),
      s\<lparr>ws_rows := concat (map (rekey_row scope now service keys) (ws_rows s))\<rparr>)"

definition delete_item :: "string option \<Rightarrow> string \<Rightarrow> wi_store \<Rightarrow> bool \<times> wi_store" where
  "delete_item scope k s = (case get_row scope s k of
     None \<Rightarrow> (False, s)
   | Some row \<Rightarrow> (True, s\<lparr>ws_rows := filter (\<lambda>r. wr_id r \<noteq> wr_id row) (ws_rows s)\<rparr>))"

section \<open>The store meets its contracts\<close>

interpretation wik: unique_table ws_rows "Some \<circ> wr_key" "\<lambda>r. commit_write (WInsert r)"
  by unfold_locales (auto split: if_splits)

interpretation wis: scoped_select wr_tenant ws_rows select_rows
  by unfold_locales (simp add: select_rows_def visible_def [abs_def])

lemma get_row_Some:
  "get_row scope s k = Some r \<Longrightarrow>
     r \<in> set (ws_rows s) \<and> visible scope r \<and> wr_key r = k"
  by (auto simp: get_row_def select_rows_def find_Some_iff
      dest!: nth_mem [where xs = "filter (visible scope) (ws_rows s)"])

lemma get_row_None:
  "get_row scope s k = None \<longleftrightarrow> (\<forall>r\<in>set (ws_rows s). visible scope r \<longrightarrow> wr_key r \<noteq> k)"
  by (auto simp: get_row_def select_rows_def find_None_iff)

lemma set_stage_simps [simp]:
  "wr_id (set_stage v d r) = wr_id r" "wr_key (set_stage v d r) = wr_key r"
  "wr_tenant (set_stage v d r) = wr_tenant r" "wr_title (set_stage v d r) = wr_title r"
  "wr_timeline (set_stage v d r) = wr_timeline r"
  "wr_updated_at (set_stage v d r) = wr_updated_at r"
  "wr_stage v' (set_stage v d r) = (if v = v' then Some d else wr_stage v' r)"
  by (cases v; cases v'; simp)+

lemma wr_stage_updates [simp]:
  "wr_stage v (r\<lparr>wr_updated_at := x\<rparr>) = wr_stage v r"
  "wr_stage v (r\<lparr>wr_timeline := y\<rparr>) = wr_stage v r"
  "wr_stage v (r\<lparr>wr_title := z\<rparr>) = wr_stage v r"
  "wr_stage v (r\<lparr>wr_id := i\<rparr>) = wr_stage v r"
  by (cases v; simp)+

lemma wr_stage_new_row [simp]: "wr_stage v (new_row scope now k) = None"
  by (cases v) (simp_all add: new_row_def)

lemma new_row_simps [simp]:
  "wr_key (new_row scope now k) = k" "wr_timeline (new_row scope now k) = []"
  "wr_title (new_row scope now k) = None"
  by (simp_all add: new_row_def)

lemma event_change_simps [simp]:
  "wr_id (event_change now e seen r) = wr_id r" "wr_key (event_change now e seen r) = wr_key r"
  "wr_tenant (event_change now e seen r) = wr_tenant r"
  "wr_title (event_change now e seen r) = wr_title r"
  "wr_updated_at (event_change now e seen r) = now"
  "wr_timeline (event_change now e seen r) =
     (if is_worker_progress_event e then wr_timeline r else wr_timeline seen @ [e])"
  "wr_stage v (event_change now e seen r) =
     (if v = ce_service e then Some (event_slice (wr_stage v seen) e) else wr_stage v r)"
  by (auto simp: event_change_def Let_def)

lemma snapshot_change_simps [simp]:
  "wr_id (snapshot_change now v d t seen r) = wr_id r"
  "wr_key (snapshot_change now v d t seen r) = wr_key r"
  "wr_tenant (snapshot_change now v d t seen r) = wr_tenant r"
  "wr_timeline (snapshot_change now v d t seen r) = wr_timeline r"
  "wr_updated_at (snapshot_change now v d t seen r) = now"
  "wr_stage v' (snapshot_change now v d t seen r) = (if v = v' then Some d else wr_stage v' r)"
  by (auto simp: snapshot_change_def Let_def)

lemma blank_stage_simps [simp]:
  "wr_id (blank_stage now v r) = wr_id r" "wr_key (blank_stage now v r) = wr_key r"
  "wr_tenant (blank_stage now v r) = wr_tenant r"
  "wr_timeline (blank_stage now v r) = wr_timeline r"
  "wr_stage v' (blank_stage now v r) = (if v = v' then Some empty_state else wr_stage v' r)"
  by (auto simp: blank_stage_def)

section \<open>The store invariant\<close>

definition row_ok :: "wi_row \<Rightarrow> bool" where
  "row_ok r = (\<forall>v\<in>{PFACTORY, AIFACTORY, TFACTORY}. slice_ok (slice_or_empty (wr_stage v r)))"

definition ws_ok :: "wi_store \<Rightarrow> bool" where
  "ws_ok s = (keys_unique (Some \<circ> wr_key) (ws_rows s) \<and> keys_unique (Some \<circ> wr_id) (ws_rows s)
     \<and> list_all (\<lambda>r. wr_id r < ws_next s \<and> row_ok r) (ws_rows s))"

lemma slice_or_empty_None [simp]: "slice_or_empty None = empty_state"
  and slice_or_empty_Some [simp]: "slice_or_empty (Some d) = d"
  by (simp_all add: slice_or_empty_def)

lemma row_ok_iff: "row_ok r \<longleftrightarrow> (\<forall>v. slice_ok (slice_or_empty (wr_stage v r)))"
proof -
  have "(\<forall>v. Q v) \<longleftrightarrow> Q PFACTORY \<and> Q AIFACTORY \<and> Q TFACTORY" for Q :: "service \<Rightarrow> bool"
    using service.exhaust by metis
  then show ?thesis by (simp add: row_ok_def)
qed

lemma row_ok_event: "row_ok seen \<Longrightarrow> row_ok r \<Longrightarrow> row_ok (event_change now e seen r)"
  by (simp add: row_ok_iff slice_ok_event)

lemma row_ok_snapshot: "slice_ok d \<Longrightarrow> row_ok r \<Longrightarrow> row_ok (snapshot_change now v d t seen r)"
  by (simp add: row_ok_iff)

lemma row_ok_blank: "row_ok r \<Longrightarrow> row_ok (blank_stage now v r)"
  by (simp add: row_ok_iff)

lemma row_ok_new [simp]: "row_ok (new_row scope now k)"
  by (simp add: row_ok_iff)

lemma row_ok_id [simp]: "row_ok (r\<lparr>wr_id := i\<rparr>) = row_ok r"
  by (simp add: row_ok_iff)

lemma slice_ok_fill: "slice_ok a \<Longrightarrow> slice_ok b \<Longrightarrow> slice_ok (poll_blind_fill a b)"
  by (auto simp: slice_ok_def poll_blind_fill_def)

text \<open>A planned write that is safe to commit: it targets one visible row and keeps its identity,
  or appends a row of the scope's tenant.\<close>

fun write_ok :: "string option \<Rightarrow> wi_store \<Rightarrow> wi_write \<Rightarrow> bool" where
  "write_ok scope s WNone = True"
| "write_ok scope s (WInsert r) = (row_ok r \<and> visible scope r \<or> row_ok r \<and> scope = Some [])"
| "write_ok scope s (WUpdate i f) =
     ((\<exists>r\<in>set (ws_rows s). visible scope r \<and> wr_id r = i \<and> row_ok (f r))
      \<and> (\<forall>r. wr_id (f r) = wr_id r \<and> wr_key (f r) = wr_key r \<and> wr_tenant (f r) = wr_tenant r))"

lemma ws_ok_rows: "ws_ok s \<Longrightarrow> r \<in> set (ws_rows s) \<Longrightarrow> row_ok r \<and> wr_id r < ws_next s"
  by (auto simp: ws_ok_def list_all_iff)

lemma ws_ok_same_id:
  "ws_ok s \<Longrightarrow> a \<in> set (ws_rows s) \<Longrightarrow> b \<in> set (ws_rows s) \<Longrightarrow> wr_id a = wr_id b \<Longrightarrow> a = b"
  using keys_unique_inj [of "Some \<circ> wr_id"] by (auto simp: ws_ok_def)

lemma ws_ok_same_key:
  "ws_ok s \<Longrightarrow> a \<in> set (ws_rows s) \<Longrightarrow> b \<in> set (ws_rows s) \<Longrightarrow> wr_key a = wr_key b \<Longrightarrow> a = b"
  using keys_unique_inj [of "Some \<circ> wr_key"] by (auto simp: ws_ok_def)

lemma commit_write_ok [invar_intros]:
  assumes "ws_ok s" "write_ok scope s w" "commit_write w s = Inr s'"
  shows "ws_ok s'"
proof (cases w)
  case WNone
  then show ?thesis using assms by simp
next
  case (WInsert r)
  then have "s' = s\<lparr>ws_rows := ws_rows s @ [r\<lparr>wr_id := ws_next s\<rparr>], ws_next := ws_next s + 1\<rparr>"
    "wr_key r \<notin> wr_key ` set (ws_rows s)" "row_ok r"
    using assms by (auto split: if_splits)
  then show ?thesis using assms(1)
    by (auto simp: ws_ok_def keys_unique_snoc list_all_iff image_iff)
next
  case (WUpdate i f)
  then have s': "s' = s\<lparr>ws_rows := update_where (\<lambda>r. wr_id r = i) f (ws_rows s)\<rparr>"
    using assms by (auto split: if_splits)
  from WUpdate assms obtain r where r: "r \<in> set (ws_rows s)" "wr_id r = i" "row_ok (f r)" by auto
  have "row_ok (f a)" if "a \<in> set (ws_rows s)" "wr_id a = i" for a
    using ws_ok_same_id [OF assms(1), of a r] that r by simp
  then show ?thesis using assms WUpdate s'
    by (auto simp: ws_ok_def keys_unique_update_same list_all_iff in_update_where)
qed

lemma plan_event_write_ok [invar_intros]:
  assumes "ws_ok s" shows "write_ok scope s (snd (plan_event scope now e s))"
proof (cases "get_row scope s (ce_correlation_key e)")
  case None
  have "visible scope (new_row scope now k) \<or> scope = Some []" for k
    by (auto simp: visible_def in_scope_def new_row_def split: option.split)
  moreover have "visible scope (event_change now e r r) = visible scope r" for r
    by (simp add: visible_def in_scope_def split: option.split)
  ultimately show ?thesis using None by (auto simp: plan_event_def Let_def row_ok_event)
next
  case (Some r)
  then show ?thesis using get_row_Some [OF Some] ws_ok_rows [OF assms]
    by (auto simp: plan_event_def intro: row_ok_event)
qed

lemma plan_snapshot_write_ok [invar_intros]:
  assumes "ws_ok s" "slice_ok d"
  shows "write_ok scope s (snd (plan_snapshot scope now k v d t n s))"
proof (cases "get_row scope s k")
  case None
  have "visible scope (new_row scope now k) \<or> scope = Some []"
    by (auto simp: visible_def in_scope_def new_row_def split: option.split)
  moreover have "visible scope (snapshot_change now v d t r r) = visible scope r" for r
    by (simp add: visible_def in_scope_def split: option.split)
  ultimately show ?thesis using None assms
    by (auto simp: plan_snapshot_def Let_def row_ok_snapshot)
next
  case (Some r)
  then show ?thesis using get_row_Some [OF Some] ws_ok_rows [OF assms(1)] assms(2)
    by (auto simp: plan_snapshot_def Let_def intro!: row_ok_snapshot slice_ok_fill simp: row_ok_iff)
qed

text \<open>No write of one tenant changes a row of another.\<close>

lemma commit_write_frame:
  assumes "ws_ok s" "write_ok (Some t) s w" "commit_write w s = Inr s'" "t \<noteq> []" "u \<noteq> t"
  shows "tenant_rows wr_tenant u (ws_rows s') = tenant_rows wr_tenant u (ws_rows s)"
proof (cases w)
  case WNone
  then show ?thesis using assms by simp
next
  case (WInsert r)
  then have "wr_tenant r = t"
    using assms by (auto simp: visible_def in_scope_def)
  then show ?thesis using assms WInsert by (auto simp: tenant_rows_def split: if_splits)
next
  case (WUpdate i f)
  then obtain r where r: "r \<in> set (ws_rows s)" "wr_tenant r = t" "wr_id r = i"
    using assms by (auto simp: visible_def in_scope_def)
  have "wr_tenant a = t" if "a \<in> set (ws_rows s)" "wr_id a = i" for a
    using ws_ok_same_id [OF assms(1), of a r] that r by simp
  then show ?thesis using assms WUpdate
    by (auto simp: tenant_rows_def intro!: filter_update_where_other split: if_splits)
qed

lemma run_plan_cases:
  assumes "run_plan plan (\<lambda>s. s) s = (r, s')"
  obtains (ok) a w where "plan s = (a, w)" "commit_write w s = Inr s'" "r = Inr a"
  | (err) a w e where "plan s = (a, w)" "commit_write w s = Inl e" "r = Inl e" "s' = s"
  using assms
  by (cases "plan s"; cases "commit_write (snd (plan s)) s")
    (auto simp: run_plan_def Let_def split: db_error.splits)

lemma run_plan_state:
  assumes "run_plan plan (\<lambda>s. s) s = (r, s')"
  shows "s' = s \<or> commit_write (snd (plan s)) s = Inr s'"
  using assms by (rule run_plan_cases) auto

lemma run_plan_ok:
  assumes "run_plan plan (\<lambda>s. s) s = (r, s')" "ws_ok s" "write_ok scope s (snd (plan s))"
  shows "ws_ok s'"
  using run_plan_state [OF assms(1)] commit_write_ok [OF assms(2,3)] assms(2) by blast

lemma run_plan_frame:
  assumes "run_plan plan (\<lambda>s. s) s = (r, s')" "ws_ok s" "write_ok (Some t) s (snd (plan s))"
    "t \<noteq> []" "u \<noteq> t"
  shows "tenant_rows wr_tenant u (ws_rows s') = tenant_rows wr_tenant u (ws_rows s)"
  using run_plan_state [OF assms(1)] commit_write_frame [OF assms(2,3) _ assms(4,5)] by auto

section \<open>Runs of the store\<close>

text \<open>One operation of a store view with tenant scope \<open>scope\<close>.  Concurrent transactions that
  do not overlap are a sequence of steps.\<close>

inductive ws_step :: "string option \<Rightarrow> wi_store \<Rightarrow> wi_store \<Rightarrow> bool" where
  ws_event: "upsert_from_event scope now e (\<lambda>s. s) s = (r, s') \<Longrightarrow> ws_step scope s s'"
| ws_snapshot: "slice_ok d \<Longrightarrow> upsert_snapshot scope now k v d t n (\<lambda>s. s) s = (r, s') \<Longrightarrow> ws_step scope s s'"
| ws_reconcile: "reconcile_snapshot scope now v live s = (n, s') \<Longrightarrow> ws_step scope s s'"
| ws_prune: "prune_dead scope now limit s = (n, s') \<Longrightarrow> ws_step scope s s'"
| ws_rekey: "prune_duplicate_stages scope now v keys s = (n, s') \<Longrightarrow> ws_step scope s s'"
| ws_delete: "delete_item scope k s = (b, s') \<Longrightarrow> ws_step scope s s'"

inductive_cases ws_stepE: "ws_step scope s s'"

inductive ws_reach :: "wi_store \<Rightarrow> bool" where
  ws_init: "ws_reach \<lparr>ws_rows = [], ws_next = 1\<rparr>"
| ws_more: "ws_reach s \<Longrightarrow> ws_step scope s s' \<Longrightarrow> ws_reach s'"

lemma ws_ok_update [invar_intros]:
  assumes "ws_ok s" "\<And>r. p r \<Longrightarrow> row_ok r \<Longrightarrow> row_ok (f r)"
    "\<And>r. wr_id (f r) = wr_id r" "\<And>r. wr_key (f r) = wr_key r"
  shows "ws_ok (s\<lparr>ws_rows := update_where p f (ws_rows s)\<rparr>)"
  using assms by (auto simp: ws_ok_def keys_unique_update_same list_all_iff in_update_where)

lemma ws_ok_filter [invar_intros]: "ws_ok s \<Longrightarrow> ws_ok (s\<lparr>ws_rows := filter p (ws_rows s)\<rparr>)"
  by (auto simp: ws_ok_def list_all_iff)

text \<open>The re-key sweep maps each row to at most one row with its identity.\<close>

lemma sorted_wrt_concat_sub:
  assumes "sorted_wrt P rows" "\<And>r. length (g r) \<le> 1" "\<And>r x. x \<in> set (g r) \<Longrightarrow> K x = K r"
    "\<And>a b a' b'. P a b \<Longrightarrow> K a = K a' \<Longrightarrow> K b = K b' \<Longrightarrow> P a' b'"
  shows "sorted_wrt P (concat (map g rows))"
  using assms(1)
proof (induction rows)
  case (Cons a rows)
  have s: "sorted_wrt P (g a)" using assms(2) [of a] by (cases "g a") auto
  have "P x y" if "x \<in> set (g a)" "b \<in> set rows" "y \<in> set (g b)" for x y b
    using Cons.prems that assms(3) [of x a] assms(3) [of y b] assms(4) [of a b x y] by auto
  then show ?case using Cons s by (auto simp: sorted_wrt_append)
qed simp

lemma rekey_row_length: "length (rekey_row scope now v keys r) \<le> 1"
  by (simp add: rekey_row_def Let_def)

lemma rekey_row_keeps:
  assumes "x \<in> set (rekey_row scope now v keys r)"
  shows "wr_id x = wr_id r" "wr_key x = wr_key r" "wr_tenant x = wr_tenant r" "row_ok r \<Longrightarrow> row_ok x"
  using assms by (auto simp: rekey_row_def Let_def row_ok_blank split: if_splits)

lemma ws_ok_rekey:
  assumes "ws_ok s" shows "ws_ok (snd (prune_duplicate_stages scope now v keys s))"
proof -
  let ?g = "rekey_row scope now v keys"
  have k: "keys_unique (Some \<circ> wr_key) (ws_rows s)" "keys_unique (Some \<circ> wr_id) (ws_rows s)"
    using assms by (auto simp: ws_ok_def)
  have "keys_unique (Some \<circ> wr_key) (concat (map ?g (ws_rows s)))"
    unfolding keys_unique_def
    by (rule sorted_wrt_concat_sub [where K = wr_key, OF k(1) [unfolded keys_unique_def]])
      (simp_all add: rekey_row_length [unfolded One_nat_def] rekey_row_keeps)
  moreover have "keys_unique (Some \<circ> wr_id) (concat (map ?g (ws_rows s)))"
    unfolding keys_unique_def
    by (rule sorted_wrt_concat_sub [where K = wr_id, OF k(2) [unfolded keys_unique_def]])
      (simp_all add: rekey_row_length [unfolded One_nat_def] rekey_row_keeps)
  moreover have "wr_id x < ws_next s \<and> row_ok x"
    if "r \<in> set (ws_rows s)" "x \<in> set (?g r)" for r x
    using ws_ok_rows [OF assms that(1)] rekey_row_keeps [OF that(2)] by simp
  ultimately show ?thesis by (auto simp: prune_duplicate_stages_def ws_ok_def list_all_iff)
qed

lemma ws_ok_step:
  assumes "ws_step scope s s'" "ws_ok s" shows "ws_ok s'"
  using assms(1)
proof (cases rule: ws_step.cases)
  case (ws_event now e r)
  show ?thesis
    by (rule run_plan_ok [OF ws_event [unfolded upsert_from_event_def] assms(2)
      plan_event_write_ok [OF assms(2)]])
next
  case (ws_snapshot d now k v t n r)
  show ?thesis
    by (rule run_plan_ok [OF ws_snapshot(2) [unfolded upsert_snapshot_def] assms(2)
      plan_snapshot_write_ok [OF assms(2) ws_snapshot(1)]])
next
  case (ws_reconcile now v live n)
  then show ?thesis using assms(2)
    by (auto simp: reconcile_snapshot_def Let_def intro!: ws_ok_update row_ok_blank)
next
  case (ws_prune now limit n)
  then show ?thesis using assms(2) by (auto simp: prune_dead_def Let_def intro!: ws_ok_filter)
next
  case (ws_rekey now v keys n)
  then show ?thesis using ws_ok_rekey [OF assms(2)] by (metis snd_conv)
next
  case (ws_delete k b)
  then show ?thesis using assms(2) by (auto simp: delete_item_def intro!: ws_ok_filter split: option.splits)
qed

lemma ws_ok_init: "ws_ok \<lparr>ws_rows = [], ws_next = 1\<rparr>"
  by (simp add: ws_ok_def)

lemma ws_reach_ok: "ws_reach s \<Longrightarrow> ws_ok s"
  by (induction rule: ws_reach.induct) (auto intro: ws_ok_step ws_ok_init [unfolded One_nat_def])

lemma ws_step_frame:
  assumes "ws_step (Some t) s s'" "ws_ok s" "t \<noteq> []" "u \<noteq> t"
  shows "tenant_rows wr_tenant u (ws_rows s') = tenant_rows wr_tenant u (ws_rows s)"
  using assms(1)
proof (cases rule: ws_step.cases)
  case (ws_event now e r)
  show ?thesis
    by (rule run_plan_frame [OF ws_event [unfolded upsert_from_event_def] assms(2)
      plan_event_write_ok [OF assms(2)] assms(3,4)])
next
  case (ws_snapshot d now k v t n r)
  show ?thesis
    by (rule run_plan_frame [OF ws_snapshot(2) [unfolded upsert_snapshot_def] assms(2)
      plan_snapshot_write_ok [OF assms(2) ws_snapshot(1)] assms(3,4)])
next
  case (ws_reconcile now v live n)
  then show ?thesis using assms(4)
    by (auto simp: reconcile_snapshot_def Let_def tenant_rows_def visible_def in_scope_def
        intro!: filter_update_where_other)
next
  case (ws_prune now limit n)
  then show ?thesis using assms(4)
    by (auto simp: prune_dead_def Let_def visible_def in_scope_def intro!: tenant_rows_filter_other)
next
  case (ws_rekey now v keys n)
  have own: "rekey_row (Some t) now v keys r = [r]" if "wr_tenant r = u" for r
    using that assms(4) by (simp add: rekey_row_def visible_def in_scope_def)
  have none: "tenant_rows wr_tenant u (rekey_row (Some t) now v keys r) = []" if "wr_tenant r \<noteq> u" for r
    using that by (auto simp: tenant_rows_def filter_empty_conv rekey_row_keeps)
  have "tenant_rows wr_tenant u (concat (map (rekey_row (Some t) now v keys) rows))
      = tenant_rows wr_tenant u rows" for rows
    by (induction rows) (simp_all add: tenant_rows_def own none [unfolded tenant_rows_def])
  then show ?thesis using ws_rekey by (auto simp: prune_duplicate_stages_def)
next
  case (ws_delete k b)
  show ?thesis
  proof (cases "get_row (Some t) s k")
    case None
    then show ?thesis using ws_delete by (simp add: delete_item_def)
  next
    case (Some r)
    then have r: "r \<in> set (ws_rows s)" "wr_tenant r = t"
      using get_row_Some [OF Some] by (auto simp: visible_def in_scope_def)
    have "tenant_rows wr_tenant u (filter (\<lambda>a. wr_id a \<noteq> wr_id r) (ws_rows s))
        = tenant_rows wr_tenant u (ws_rows s)"
      using ws_ok_same_id [OF assms(2)] r assms(4) by (intro tenant_rows_filter_other) auto
    then show ?thesis using ws_delete Some by (auto simp: delete_item_def)
  qed
qed

section \<open>What an operation leaves behind\<close>

definition stage_of :: "string option \<Rightarrow> wi_store \<Rightarrow> string \<Rightarrow> service \<Rightarrow> service_state option" where
  "stage_of scope s k v = Option.bind (get_row scope s k) (wr_stage v)"

definition timeline_of :: "string option \<Rightarrow> wi_store \<Rightarrow> string \<Rightarrow> completion_event list" where
  "timeline_of scope s k = (case get_row scope s k of None \<Rightarrow> [] | Some r \<Rightarrow> wr_timeline r)"

fun event_applied :: "'e + (work_item \<times> bool) \<Rightarrow> bool" where
  "event_applied (Inl e) = False"
| "event_applied (Inr (w, b)) = b"

lemma get_row_iff:
  assumes "ws_ok s"
  shows "get_row scope s k = Some r \<longleftrightarrow> r \<in> set (ws_rows s) \<and> visible scope r \<and> wr_key r = k"
proof
  assume r: "r \<in> set (ws_rows s) \<and> visible scope r \<and> wr_key r = k"
  then obtain r' where r': "get_row scope s k = Some r'"
    using get_row_None [of scope s k] by (cases "get_row scope s k") auto
  then show "get_row scope s k = Some r"
    using r get_row_Some [OF r'] ws_ok_same_key [OF assms, of r r'] by simp
qed (rule get_row_Some)

lemma get_row_eqI:
  assumes "ws_ok s" "ws_ok s'"
    "\<And>r. wr_key r = k \<Longrightarrow> visible scope r \<Longrightarrow> r \<in> set (ws_rows s) \<longleftrightarrow> r \<in> set (ws_rows s')"
  shows "get_row scope s k = get_row scope s' k"
proof -
  have "get_row scope s k = Some r \<longleftrightarrow> get_row scope s' k = Some r" for r
    unfolding get_row_iff [OF assms(1)] get_row_iff [OF assms(2)] using assms(3) [of r] by blast
  then show ?thesis by (metis not_None_eq)
qed

lemma visible_same: "wr_tenant a = wr_tenant b \<Longrightarrow> visible scope a = visible scope b"
  by (simp add: visible_def in_scope_def split: option.split)

lemma get_row_update:
  assumes s: "ws_ok s" "ws_ok s'" and r: "get_row scope s k = Some r"
    and f: "wr_key (f r) = k" "wr_tenant (f r) = wr_tenant r"
    and s': "commit_write (WUpdate (wr_id r) f) s = Inr s'"
  shows "get_row scope s' k = Some (f r)" "k' \<noteq> k \<Longrightarrow> get_row scope s' k' = get_row scope s k'"
proof -
  have rows: "ws_rows s' = update_where (\<lambda>a. wr_id a = wr_id r) f (ws_rows s)"
    using s' by (auto split: if_splits)
  have rin: "r \<in> set (ws_rows s)" "visible scope r" "wr_key r = k" using get_row_Some [OF r] by auto
  have one: "a = r" if "a \<in> set (ws_rows s)" "wr_id a = wr_id r" for a
    using ws_ok_same_id [OF s(1) that(1) rin(1) that(2)] .
  have mem: "a \<in> set (ws_rows s') \<longleftrightarrow> a = f r \<or> a \<in> set (ws_rows s) \<and> a \<noteq> r" for a
    unfolding rows in_update_where using rin(1) one by (metis (full_types))
  show "get_row scope s' k = Some (f r)"
    using mem rin f visible_same by (subst get_row_iff [OF s(2)]) blast
  show "get_row scope s' k' = get_row scope s k'" if "k' \<noteq> k"
    by (rule get_row_eqI [OF s(2,1)]) (use mem rin f that in auto)
qed

lemma get_row_insert:
  assumes s: "ws_ok s" "ws_ok s'" and v: "visible scope r"
    and s': "commit_write (WInsert r) s = Inr s'"
  shows "get_row scope s' (wr_key r) = Some (r\<lparr>wr_id := ws_next s\<rparr>)"
    "k' \<noteq> wr_key r \<Longrightarrow> get_row scope s' k' = get_row scope s k'"
proof -
  have mem: "a \<in> set (ws_rows s') \<longleftrightarrow> a = r\<lparr>wr_id := ws_next s\<rparr> \<or> a \<in> set (ws_rows s)" for a
    using s' by (auto split: if_splits)
  have "visible scope (r\<lparr>wr_id := ws_next s\<rparr>)"
    using v visible_same [of "r\<lparr>wr_id := ws_next s\<rparr>" r scope] by simp
  then show "get_row scope s' (wr_key r) = Some (r\<lparr>wr_id := ws_next s\<rparr>)"
    using mem by (subst get_row_iff [OF s(2)]) auto
  show "get_row scope s' k' = get_row scope s k'" if "k' \<noteq> wr_key r"
    by (rule get_row_eqI [OF s(2,1)]) (use mem that in auto)
qed

lemma new_row_visible: "scope \<noteq> Some [] \<Longrightarrow> visible scope (new_row scope now k)"
  by (auto simp: visible_def in_scope_def new_row_def split: option.split)

text \<open>The row after an applied event.\<close>

lemma event_row:
  assumes ok: "ws_ok s" "scope \<noteq> Some []"
    and up: "upsert_from_event scope now e (\<lambda>s. s) s = (r, s')" and ap: "event_applied r"
  defines "old \<equiv> (case get_row scope s (ce_correlation_key e) of
      Some a \<Rightarrow> a | None \<Rightarrow> (new_row scope now (ce_correlation_key e))\<lparr>wr_id := ws_next s\<rparr>)"
  shows "get_row scope s' (ce_correlation_key e) = Some (event_change now e old old)"
    "k \<noteq> ce_correlation_key e \<Longrightarrow> get_row scope s' k = get_row scope s k"
    "\<not> already_recorded (wr_timeline old) e"
proof -
  have ok': "ws_ok s'"
    by (rule run_plan_ok [OF up [unfolded upsert_from_event_def] ok(1) plan_event_write_ok [OF ok(1)]])
  obtain a w where p: "plan_event scope now e s = (a, w)" "commit_write w s = Inr s'" "r = Inr a"
    using up ap unfolding upsert_from_event_def by (elim run_plan_cases) auto
  have id: "event_change now e (x\<lparr>wr_id := i\<rparr>) (x\<lparr>wr_id := i\<rparr>) = (event_change now e x x)\<lparr>wr_id := i\<rparr>" for x i
    by (cases "ce_service e") (simp_all add: event_change_def Let_def)
  have "get_row scope s' (ce_correlation_key e) = Some (event_change now e old old) \<and>
      (k \<noteq> ce_correlation_key e \<longrightarrow> get_row scope s' k = get_row scope s k) \<and>
      \<not> already_recorded (wr_timeline old) e"
  proof (cases "get_row scope s (ce_correlation_key e)")
    case None
    let ?n = "new_row scope now (ce_correlation_key e)"
    have w: "w = WInsert (event_change now e ?n ?n)"
      using p(1) None by (simp add: plan_event_def Let_def)
    have vis: "visible scope (event_change now e ?n ?n)"
      using new_row_visible [OF ok(2)] visible_same [of "event_change now e ?n ?n" ?n] by simp
    show ?thesis
      using get_row_insert [OF ok(1) ok' vis p(2) [unfolded w]] None
      by (simp add: old_def id already_recorded_def)
  next
    case (Some row)
    then have w: "w = WUpdate (wr_id row) (event_change now e row)"
      and new: "\<not> already_recorded (wr_timeline row) e"
      using p ap by (auto simp: plan_event_def split: if_splits)
    show ?thesis
      using get_row_update [OF ok(1) ok' Some _ _ p(2) [unfolded w]] get_row_Some [OF Some] Some new
      by (simp add: old_def)
  qed
  then show "get_row scope s' (ce_correlation_key e) = Some (event_change now e old old)"
    "k \<noteq> ce_correlation_key e \<Longrightarrow> get_row scope s' k = get_row scope s k"
    "\<not> already_recorded (wr_timeline old) e" by auto
qed

lemma slice_or_empty_stage_of:
  "slice_or_empty (stage_of scope s k v) =
     (case get_row scope s k of None \<Rightarrow> empty_state | Some r \<Rightarrow> slice_or_empty (wr_stage v r))"
  by (simp add: stage_of_def split: option.split)

lemma event_slice_usage:
  assumes "ce_usage e = None"
  shows "ss_usage (event_slice col e) = ss_usage (slice_or_empty col)"
  by (rule event_slice_cases [of e col])
    (simp_all add: assms apply_worker_progress_def apply_worker_def apply_terminal_or_scalar_def
      Let_def split: option.split)

lemma event_slice_worker:
  assumes "is_worker_event e \<or> is_worker_progress_event e"
  shows "ss_status (event_slice col e) = ss_status (slice_or_empty col)"
    "ss_phase (event_slice col e) = ss_phase (slice_or_empty col)"
    "ss_usage (event_slice col e) = ss_usage (slice_or_empty col)"
    "ss_repo (event_slice col e) = ss_repo (slice_or_empty col)"
  using assms
  by - (rule event_slice_cases [of e col]; simp add: apply_worker_progress_def apply_worker_def
      Let_def split: option.split)+

text \<open>A row in the state and the operations on it.\<close>

lemma reconcile_rows:
  "ws_rows (snd (reconcile_snapshot scope now v live s)) =
     update_where (\<lambda>r. visible scope r \<and> stale_stage v live r) (blank_stage now v) (ws_rows s)"
  by (simp add: reconcile_snapshot_def Let_def)

lemma blank_not_stale [simp]: "\<not> stale_stage v live (blank_stage now v r)"
  by (simp add: stale_stage_def empty_state_def)

lemma frontier_None: "frontier r = None \<longleftrightarrow> (\<forall>v. \<not> truthy (ss_status (slice_or_empty (wr_stage v r))))"
proof -
  have "(\<forall>v. Q v) \<longleftrightarrow> Q PFACTORY \<and> Q AIFACTORY \<and> Q TFACTORY" for Q :: "service \<Rightarrow> bool"
    using service.exhaust by metis
  then show ?thesis by (auto simp: frontier_def PIPELINE_ORDER_def find_None_iff)
qed

lemma frontier_furthest:
  "frontier r = map_option (\<lambda>v. slice_or_empty (wr_stage v r))
     (furthest (\<lambda>v. ss_status (slice_or_empty (wr_stage v r))))"
  by (simp add: frontier_def PIPELINE_ORDER_def furthest_def)

section \<open>Properties\<close>

text \<open>C2: an applied event has exactly its documented effect: the row of its key (created if there
  was none) gets the new slice for the event's service and the event at the end of its
  timeline (a heartbeat adds no entry); the other stages of the row and every other row the
  view sees are as before.\<close>

theorem event_effect:
  assumes "ws_ok s" "scope \<noteq> Some []"
    "event_applied (fst (upsert_from_event scope now e (\<lambda>s. s) s))"
  shows "let s' = snd (upsert_from_event scope now e (\<lambda>s. s) s); key = ce_correlation_key e in
     stage_of scope s' key v = (if v = ce_service e
        then Some (event_slice (stage_of scope s key v) e) else stage_of scope s key v)
     \<and> timeline_of scope s' key = timeline_of scope s key @ (if is_worker_progress_event e then [] else [e])
     \<and> (k \<noteq> key \<longrightarrow> get_row scope s' k = get_row scope s k)"
proof -
  note row = event_row [OF assms(1,2) surjective_pairing assms(3)]
  show ?thesis using row(1,2)
    by (auto simp: Let_def stage_of_def timeline_of_def split: option.splits)
qed

definition ex_event :: completion_event where
  "ex_event = \<lparr>ce_id = Some ''e-1'', ce_correlation_key = ''42'', ce_service = AIFACTORY,
     ce_task_id = ''t-1'', ce_status = ''coding'', ce_phase = Some ''code'', ce_time = Some (Aware 5),
     ce_updated_at = Some (Aware 5), ce_usage = None, ce_worker = None, ce_access = None,
     ce_verification = None, ce_routing = None, ce_injection_scan = None,
     ce_dependency_review = None, ce_votes = None, ce_review = None\<rparr>"

definition ex_empty :: wi_store where
  "ex_empty = \<lparr>ws_rows = [], ws_next = 1\<rparr>"

definition ex_store :: wi_store where
  "ex_store = snd (upsert_from_event (Some ''acme'') 7 ex_event (\<lambda>s. s) ex_empty)"

lemma ex_empty_ok: "ws_ok ex_empty"
  by (simp add: ex_empty_def ws_ok_def)

lemma ex_event_class [simp]: "\<not> is_worker_progress_event ex_event" "\<not> is_worker_event ex_event"
  by (simp_all add: ex_event_def is_worker_progress_event_def is_worker_event_def)

lemma ex_applied:
  "event_applied (fst (upsert_from_event (Some ''acme'') 7 ex_event (\<lambda>s. s) ex_empty))"
  by (simp add: upsert_from_event_def run_plan_def plan_event_def ex_empty_def get_row_def
      select_rows_def Let_def)

lemma ex_store_ok: "ws_ok ex_store"
  unfolding ex_store_def
  by (rule ws_ok_step [OF ws_step.ws_event ex_empty_ok]) (rule surjective_pairing)

theorem event_effect_witness:
  "timeline_of (Some ''acme'') ex_store ''42'' = [ex_event]"
proof -
  have "timeline_of (Some ''acme'') ex_empty ''42'' = []"
    by (simp add: timeline_of_def ex_empty_def get_row_def select_rows_def)
  moreover have "ce_correlation_key ex_event = ''42''" by (simp add: ex_event_def)
  ultimately show ?thesis
    using event_effect [OF ex_empty_ok _ ex_applied]
    by (simp add: Let_def ex_store_def [symmetric])
qed

lemma event_replayed:
  assumes "ws_ok s" "scope \<noteq> Some []" "truthy (ce_id e)" "\<not> is_worker_progress_event e"
    "event_applied (fst (upsert_from_event scope now e (\<lambda>s. s) s))"
    "ce_id e' = ce_id e" "ce_correlation_key e' = ce_correlation_key e" "\<not> is_worker_progress_event e'"
  defines "s' \<equiv> snd (upsert_from_event scope now e (\<lambda>s. s) s)"
  shows "\<exists>item. upsert_from_event scope later e' (\<lambda>s. s) s' = (Inr (item, False), s')"
proof -
  obtain r where r: "get_row scope s' (ce_correlation_key e) = Some r" "last (wr_timeline r) = e"
    "wr_timeline r \<noteq> []"
    using event_row(1) [OF assms(1,2) surjective_pairing assms(5)] assms(4)
    unfolding s'_def by (auto split: option.splits)
  then have "already_recorded (wr_timeline r) e'"
    using assms(3,6,8) last_in_set [of "wr_timeline r"]
    by (auto simp: already_recorded_def list_ex_iff)
  then show ?thesis
    using r(1) assms(7) by (simp add: upsert_from_event_def run_plan_def plan_event_def)
qed

text \<open>C3: ingest is exactly-once per event id.  Once an event that carries an id has been applied,
  delivering it again, at any later time and however its other fields changed, returns
  \<open>applied = False\<close> and leaves the store as it is.\<close>

theorem event_idempotent:
  assumes "ws_ok s" "scope \<noteq> Some []" "truthy (ce_id e)" "\<not> is_worker_progress_event e"
    "event_applied (fst (upsert_from_event scope now e (\<lambda>s. s) s))"
    "ce_id e' = ce_id e" "ce_correlation_key e' = ce_correlation_key e" "\<not> is_worker_progress_event e'"
  defines "s' \<equiv> snd (upsert_from_event scope now e (\<lambda>s. s) s)"
  shows "snd (upsert_from_event scope later e' (\<lambda>s. s) s') = s'
    \<and> \<not> event_applied (fst (upsert_from_event scope later e' (\<lambda>s. s) s'))"
  unfolding assms(9) using event_replayed [OF assms(1-8), of later] by auto

theorem event_idempotent_witness:
  "snd (upsert_from_event (Some ''acme'') 9 (ex_event\<lparr>ce_status := ''done''\<rparr>) (\<lambda>s. s) ex_store) = ex_store"
  using event_idempotent [OF ex_empty_ok _ _ _ ex_applied, of "ex_event\<lparr>ce_status := ''done''\<rparr>" 9]
  by (simp add: ex_store_def [symmetric])
    (simp add: ex_event_def is_worker_progress_event_def)

text \<open>C4: in every state the store can reach, whatever tenants write and sweep, correlation keys
  and row ids are unique, every worker record sits under its own id, and no progress series
  is longer than its cap of 120 points.\<close>

theorem store_invariant:
  assumes "ws_reach s"
  shows "distinct (map wr_key (ws_rows s)) \<and> distinct (map wr_id (ws_rows s)) \<and>
     (\<forall>r\<in>set (ws_rows s). \<forall>v. let d = slice_or_empty (wr_stage v r) in
        (\<forall>(k, w)\<in>set (ss_workers d). wu_worker_id w = k) \<and>
        (\<forall>(k, ps)\<in>set (ss_worker_progress d). length ps \<le> 120))"
proof -
  have ok: "ws_ok s" using assms by (rule ws_reach_ok)
  then have "slice_ok (slice_or_empty (wr_stage v r))" if "r \<in> set (ws_rows s)" for r v
    using ws_ok_rows [OF ok that] by (simp add: row_ok_iff)
  then show ?thesis using ok
    by (fastforce simp: ws_ok_def keys_unique_total slice_ok_def list_all_iff PROGRESS_SERIES_CAP_def Let_def)
qed

theorem store_invariant_witness: "distinct (map wr_key (ws_rows ex_store))"
proof -
  have "ws_reach ex_store"
    unfolding ex_store_def ex_empty_def
    by (rule ws_more [OF ws_init ws_step.ws_event]) (rule surjective_pairing)
  then show ?thesis using store_invariant by blast
qed

text \<open>C1: a view scoped to one tenant cannot change what another tenant sees: after any
  operation of it (ingest, snapshot, sweep, delete) every other tenant's rows, in order, are
  as they were.\<close>

theorem tenant_isolation:
  assumes "ws_step (Some t) s s'" "ws_ok s" "t \<noteq> []" "u \<noteq> t"
  shows "select_rows (Some u) s' = select_rows (Some u) s \<and> get_item (Some u) s' k = get_item (Some u) s k"
proof -
  have "select_rows (Some u) s' = select_rows (Some u) s"
    by (rule wis.sel_indistinguishable [OF ws_step_frame [OF assms]])
  then show ?thesis by (simp add: get_item_def get_row_def)
qed

theorem tenant_isolation_witness:
  "get_item (Some ''beta'') (snd (upsert_from_event (Some ''acme'') 7 ex_event (\<lambda>s. s) ex_empty)) ''42''
     = get_item (Some ''beta'') ex_empty ''42''"
  by (rule tenant_isolation [THEN conjunct2, OF ws_step.ws_event ex_empty_ok])
    (rule surjective_pairing, simp_all)

text \<open>Correlation keys are global across tenants: an event or a snapshot for a key that another
  tenant holds fails with \<open>IntegrityError\<close> after the retry, and changes nothing.\<close>

theorem cross_tenant_collision:
  assumes "ws_ok s" "r \<in> set (ws_rows s)" "wr_tenant r \<noteq> t"
  shows "upsert_from_event (Some t) now (e\<lparr>ce_correlation_key := wr_key r\<rparr>) (\<lambda>s. s) s = (Inl IntegrityError, s)
    \<and> upsert_snapshot (Some t) now (wr_key r) v d title newest (\<lambda>s. s) s = (Inl IntegrityError, s)"
proof -
  have none: "get_row (Some t) s (wr_key r) = None"
    using assms ws_ok_same_key [OF assms(1)] by (auto simp: get_row_None visible_def in_scope_def)
  have "wr_key x = wr_key r \<Longrightarrow> commit_write (WInsert x) s = Inl IntegrityError" for x
    using assms(2) by auto
  then show ?thesis using none
    by (simp add: upsert_from_event_def upsert_snapshot_def run_plan_def plan_event_def
        plan_snapshot_def Let_def)
qed

definition ex_row :: wi_row where
  "ex_row = (event_change 7 ex_event (new_row (Some ''acme'') 7 ''42'') (new_row (Some ''acme'') 7 ''42''))\<lparr>wr_id := 1\<rparr>"

lemma ex_key [simp]: "ce_correlation_key ex_event = ''42''"
  by (simp add: ex_event_def)

lemma ex_row_simps [simp]:
  "wr_key ex_row = ''42''" "wr_tenant ex_row = ''acme''" "wr_timeline ex_row = [ex_event]" "wr_id ex_row = 1"
  by (simp_all add: ex_row_def) (simp add: new_row_def)

lemma ex_store_rows: "ws_rows ex_store = [ex_row]"
  by (simp add: ex_store_def ex_row_def upsert_from_event_def run_plan_def plan_event_def ex_empty_def
      get_row_def select_rows_def Let_def)

lemma ex_store_row: "get_row (Some ''acme'') ex_store ''42'' = Some ex_row"
  by (simp add: get_row_def select_rows_def ex_store_rows visible_def in_scope_def)

theorem cross_tenant_collision_witness:
  "upsert_from_event (Some ''beta'') 9 (ex_event\<lparr>ce_correlation_key := ''42''\<rparr>) (\<lambda>s. s) ex_store
     = (Inl IntegrityError, ex_store)"
  using cross_tenant_collision [OF ex_store_ok, of ex_row "''beta''" 9 ex_event]
  by (simp add: ex_store_rows)

text \<open>The insertion race is absorbed.  When the row of the key is missing at the read and another
  writer creates it before the flush, the retry applies the event to that row: the outcome
  is the one of running alone after the other writer.\<close>

theorem insert_race_absorbed:
  assumes "get_row scope s (ce_correlation_key e) = None"
    and "get_row scope (between s) (ce_correlation_key e) = Some r"
  shows "upsert_from_event scope now e between s = upsert_from_event scope now e (\<lambda>s. s) (between s)
    \<and> (\<exists>a s'. upsert_from_event scope now e between s = (Inr a, s'))"
proof -
  have r: "r \<in> set (ws_rows (between s))" "wr_key r = ce_correlation_key e"
    using get_row_Some [OF assms(2)] by auto
  obtain a w where p: "plan_event scope now e (between s) = (a, w)" by (cases "plan_event scope now e (between s)")
  then have "w = WNone \<or> (\<exists>f. w = WUpdate (wr_id r) f)"
    using assms(2) by (auto simp: plan_event_def split: if_splits)
  then obtain s' where s': "commit_write w (between s) = Inr s'" using r(1) by auto
  have ins: "commit_write (WInsert x) (between s) = Inl IntegrityError"
    if "wr_key x = ce_correlation_key e" for x
    using r that by auto (metis imageI)
  have "upsert_from_event scope now e between s = (Inr a, s')"
    using assms(1) ins p s' by (simp add: upsert_from_event_def run_plan_def plan_event_def Let_def)
  moreover have "upsert_from_event scope now e (\<lambda>s. s) (between s) = (Inr a, s')"
    using p s' by (simp add: upsert_from_event_def run_plan_def)
  ultimately show ?thesis by auto
qed

theorem insert_race_absorbed_witness:
  "\<exists>a s'. upsert_from_event (Some ''acme'') 9 (ex_event\<lparr>ce_id := Some ''e-2''\<rparr>) (\<lambda>_. ex_store) ex_empty
     = (Inr a, s')"
proof -
  have "get_row (Some ''acme'') ex_empty ''42'' = None"
    by (simp add: ex_empty_def get_row_None)
  then show ?thesis
    using ex_store_row insert_race_absorbed [of "Some ''acme''" ex_empty "ex_event\<lparr>ce_id := Some ''e-2''\<rparr>" "\<lambda>_. ex_store",
        THEN conjunct2]
    by (simp add: ex_event_def)
qed

text \<open>Two overlapping ingests for one existing key lose an event.  An update rewrites the whole
  timeline column from the row it read, so whatever another writer appended to that row in
  between is gone afterwards, although both callers were told \<open>applied\<close>.\<close>

theorem overlapping_ingest_loses_events:
  assumes "ws_ok s" "ws_ok (between s)"
    and "get_row scope s (ce_correlation_key e) = Some r"
    and "get_row scope (between s) (ce_correlation_key e) = Some r1" "wr_id r1 = wr_id r"
    and "\<not> already_recorded (wr_timeline r) e" "\<not> is_worker_progress_event e"
  shows "event_applied (fst (upsert_from_event scope now e between s))
    \<and> timeline_of scope (snd (upsert_from_event scope now e between s)) (ce_correlation_key e)
        = wr_timeline r @ [e]"
proof -
  let ?w = "WUpdate (wr_id r) (event_change now e r)"
  have p: "plan_event scope now e s = ((to_model (event_change now e r r), True), ?w)"
    using assms by (simp add: plan_event_def)
  have r1: "r1 \<in> set (ws_rows (between s))" "wr_key r1 = ce_correlation_key e" "visible scope r1"
    using get_row_Some [OF assms(4)] by auto
  have "\<exists>s'. commit_write ?w (between s) = Inr s'" using r1(1) assms(5) by (auto simp: image_iff intro!: bexI [of _ r1])
  then obtain s' where s': "commit_write ?w (between s) = Inr s'" by blast
  have "row_ok r" using get_row_Some [OF assms(3)] ws_ok_rows [OF assms(1)] by auto
  then have "write_ok scope (between s) ?w"
    using r1 assms(5) ws_ok_rows [OF assms(2) r1(1)] by (auto intro: row_ok_event)
  then have "ws_ok s'" using commit_write_ok [OF assms(2) _ s'] by blast
  then have "get_row scope s' (ce_correlation_key e) = Some (event_change now e r r1)"
    using get_row_update(1) [OF assms(2) _ assms(4), where f = "event_change now e r"] s' assms(5) r1
    by simp
  then show ?thesis
    using p s' assms(7) by (simp add: upsert_from_event_def run_plan_def timeline_of_def)
qed

definition ex_other :: completion_event where
  "ex_other = ex_event\<lparr>ce_id := Some ''e-2'', ce_service := TFACTORY\<rparr>"

definition ex_third :: completion_event where
  "ex_third = ex_event\<lparr>ce_id := Some ''e-3''\<rparr>"

lemma ex_more [simp]:
  "\<not> is_worker_progress_event ex_other" "\<not> is_worker_progress_event ex_third"
  "ce_correlation_key ex_other = ''42''" "ce_correlation_key ex_third = ''42''"
  by (simp_all add: ex_other_def ex_third_def ex_event_def is_worker_progress_event_def)

theorem overlapping_ingest_loses_events_witness:
  "let other = (\<lambda>s. snd (upsert_from_event (Some ''acme'') 8 ex_other (\<lambda>s. s) s)) in
     event_applied (fst (upsert_from_event (Some ''acme'') 8 ex_other (\<lambda>s. s) ex_store))
     \<and> timeline_of (Some ''acme'') (snd (upsert_from_event (Some ''acme'') 9 ex_third other ex_store)) ''42''
        = [ex_event, ex_third]"
proof -
  let ?t = "Some ''acme''" and ?o = "\<lambda>s. snd (upsert_from_event (Some ''acme'') 8 ex_other (\<lambda>s. s) s)"
  have new: "\<not> already_recorded [ex_event] ex_other" "\<not> already_recorded [ex_event] ex_third"
    by (simp_all add: already_recorded_def) (simp_all add: ex_other_def ex_third_def ex_event_def)
  have ap: "event_applied (fst (upsert_from_event ?t 8 ex_other (\<lambda>s. s) ex_store))"
    using ex_store_row new by (simp add: upsert_from_event_def run_plan_def plan_event_def ex_store_rows)
  have ok: "ws_ok (?o ex_store)"
    by (rule ws_ok_step [OF ws_step.ws_event ex_store_ok]) (rule surjective_pairing)
  have r1: "get_row ?t (?o ex_store) ''42'' = Some (event_change 8 ex_other ex_row ex_row)"
    using event_row(1) [OF ex_store_ok _ surjective_pairing ap] ex_store_row by simp
  show ?thesis
    using overlapping_ingest_loses_events [of ex_store ?o ?t ex_third ex_row _ 9, OF ex_store_ok ok]
      ex_store_row r1 new ap by (simp add: Let_def)
qed

text \<open>The reconciling sweep blanks exactly the ghosts: afterwards no visible row holds a
  non-terminal, non-dead stage of the service whose task the upstream no longer lists; every
  row that held none is untouched (terminal and dead stages persist); the returned number is
  the number of blanked stages; and a second sweep with the same list does nothing.\<close>

theorem reconcile_exact:
  "let (n, s') = reconcile_snapshot scope now v live s in
     n = length (filter (\<lambda>r. visible scope r \<and> stale_stage v live r) (ws_rows s))
   \<and> list_all2 (\<lambda>r r'. if visible scope r \<and> stale_stage v live r
        then \<not> stale_stage v live r' \<and> wr_stage v r' = Some empty_state
             \<and> (\<forall>v'. v' \<noteq> v \<longrightarrow> wr_stage v' r' = wr_stage v' r) \<and> wr_timeline r' = wr_timeline r
        else r' = r) (ws_rows s) (ws_rows s')
   \<and> reconcile_snapshot scope later v live s' = (0, s')"
proof -
  let ?hit = "\<lambda>r. visible scope r \<and> stale_stage v live r"
  let ?rows = "update_where ?hit (blank_stage now v) (ws_rows s)"
  have clean: "\<not> ?hit r" if "r \<in> set ?rows" for r
    using that unfolding in_update_where by (metis blank_not_stale)
  then have "filter ?hit ?rows = []" by (auto simp: filter_empty_conv)
  moreover have "update_where ?hit (blank_stage later v) ?rows = ?rows"
    using clean by (intro update_where_id) auto
  moreover have "list_all2 (\<lambda>r r'. if ?hit r
        then \<not> stale_stage v live r' \<and> wr_stage v r' = Some empty_state
             \<and> (\<forall>v'. v' \<noteq> v \<longrightarrow> wr_stage v' r' = wr_stage v' r) \<and> wr_timeline r' = wr_timeline r
        else r' = r) (ws_rows s) ?rows"
    by (simp add: update_where_def list_all2_map2 list_all2_same)
  ultimately show ?thesis by (simp add: reconcile_snapshot_def Let_def)
qed

theorem reconcile_exact_witness:
  "fst (reconcile_snapshot (Some ''acme'') 9 TFACTORY {} ex_store) = 0
   \<and> reconcile_snapshot (Some ''acme'') 10 TFACTORY {} (snd (reconcile_snapshot (Some ''acme'') 9 TFACTORY {} ex_store))
       = (0, snd (reconcile_snapshot (Some ''acme'') 9 TFACTORY {} ex_store))"
proof -
  have "wr_stage TFACTORY ex_row = None"
    by (simp add: ex_row_def) (simp add: ex_event_def new_row_def)
  then have "filter (\<lambda>r. visible (Some ''acme'') r \<and> stale_stage TFACTORY {} r) (ws_rows ex_store) = []"
    by (simp add: ex_store_rows stale_stage_def empty_state_def)
  then show ?thesis
    using reconcile_exact [where scope = "Some ''acme''" and now = 9 and v = TFACTORY and live = "{}"
        and s = ex_store and later = 10]
    by (simp add: case_prod_beta)
qed

lemma snapshot_row:
  assumes ok: "ws_ok s" "scope \<noteq> Some []" "slice_ok d"
    and up: "upsert_snapshot scope now k v d title newest (\<lambda>s. s) s = (Inr a, s')"
  shows "case get_row scope s k of
      None \<Rightarrow> \<exists>r. get_row scope s' k = Some r \<and> wr_stage v r = Some d \<and> wr_updated_at r = now
    | Some r \<Rightarrow> (let old = slice_or_empty (wr_stage v r); new = poll_blind_fill old d in
        if snapshot_unchanged old new title r \<or> snapshot_superseded old new newest then s' = s
        else get_row scope s' k = Some (snapshot_change now v new title r r))"
proof -
  have ok': "ws_ok s'"
    by (rule run_plan_ok [OF up [unfolded upsert_snapshot_def] ok(1) plan_snapshot_write_ok [OF ok(1,3)]])
  show ?thesis
  proof (cases "get_row scope s k")
    case None
    let ?n = "new_row scope now k"
    have vis: "visible scope (snapshot_change now v d title ?n ?n)"
      using new_row_visible [OF ok(2)] visible_same [of "snapshot_change now v d title ?n ?n" ?n] by simp
    have c: "commit_write (WInsert (snapshot_change now v d title ?n ?n)) s = Inr s'"
      using up None unfolding upsert_snapshot_def
      by (elim run_plan_cases) (auto simp: plan_snapshot_def Let_def)
    show ?thesis using get_row_insert(1) [OF ok(1) ok' vis c] None by simp
  next
    case (Some r)
    show ?thesis
    proof (cases "snapshot_unchanged (slice_or_empty (wr_stage v r)) (poll_blind_fill (slice_or_empty (wr_stage v r)) d) title r
        \<or> snapshot_superseded (slice_or_empty (wr_stage v r)) (poll_blind_fill (slice_or_empty (wr_stage v r)) d) newest")
      case True
      then show ?thesis using up Some
        by (simp add: upsert_snapshot_def run_plan_def plan_snapshot_def Let_def)
    next
      case False
      then have c: "commit_write (WUpdate (wr_id r) (snapshot_change now v
          (poll_blind_fill (slice_or_empty (wr_stage v r)) d) title r)) s = Inr s'"
        using up Some unfolding upsert_snapshot_def
        by (elim run_plan_cases) (auto simp: plan_snapshot_def Let_def)
      show ?thesis
        using get_row_update(1) [OF ok(1) ok' Some _ _ c] get_row_Some [OF Some] Some False
        by (simp add: Let_def)
    qed
  qed
qed

text \<open>Cost is last-known-good.  An event without a usage block and a polled snapshot without
  one never lose or change the usage already recorded for the stage.\<close>

theorem usage_last_known_good:
  assumes "ws_ok s" "scope \<noteq> Some []"
  shows "(ce_usage e = None \<and> upsert_from_event scope now e (\<lambda>s. s) s = (Inr a, s') \<longrightarrow>
      ss_usage (slice_or_empty (stage_of scope s' (ce_correlation_key e) v))
        = ss_usage (slice_or_empty (stage_of scope s (ce_correlation_key e) v)))
    \<and> (ss_usage d = None \<and> slice_ok d \<and>
      upsert_snapshot scope now k v d title newest (\<lambda>s. s) s = (Inr b, s') \<longrightarrow>
      ss_usage (slice_or_empty (stage_of scope s' k v)) = ss_usage (slice_or_empty (stage_of scope s k v)))"
proof (intro conjI impI; elim conjE)
  assume e: "ce_usage e = None" and up: "upsert_from_event scope now e (\<lambda>s. s) s = (Inr a, s')"
  show "ss_usage (slice_or_empty (stage_of scope s' (ce_correlation_key e) v))
        = ss_usage (slice_or_empty (stage_of scope s (ce_correlation_key e) v))"
  proof (cases "snd a")
    case True
    then have "event_applied (Inr a :: db_error + (work_item \<times> bool))" by (cases a) simp
    from event_row(1) [OF assms up this] show ?thesis
      by (cases "v = ce_service e")
        (auto simp: stage_of_def event_slice_usage [OF e] split: option.split)
  next
    case False
    then have "s' = s" using up unfolding upsert_from_event_def
      by (elim run_plan_cases) (auto simp: plan_event_def Let_def split: option.splits if_splits)
    then show ?thesis by simp
  qed
next
  assume d: "ss_usage d = None" "slice_ok d"
    and up: "upsert_snapshot scope now k v d title newest (\<lambda>s. s) s = (Inr b, s')"
  show "ss_usage (slice_or_empty (stage_of scope s' k v)) = ss_usage (slice_or_empty (stage_of scope s k v))"
    using snapshot_row [OF assms d(2) up] d(1)
    by (auto simp: stage_of_def poll_blind_fill_def empty_state_def Let_def split: option.splits if_splits)
qed

theorem usage_last_known_good_witness:
  "\<exists>a s'. upsert_from_event (Some ''acme'') 8 ex_other (\<lambda>s. s) ex_store = (Inr a, s')
     \<and> ss_usage (slice_or_empty (stage_of (Some ''acme'') s' ''42'' AIFACTORY))
         = ss_usage (slice_or_empty (stage_of (Some ''acme'') ex_store ''42'' AIFACTORY))"
proof -
  have "\<not> already_recorded [ex_event] ex_other"
    by (simp add: already_recorded_def) (simp add: ex_other_def ex_event_def)
  then obtain a s' where up: "upsert_from_event (Some ''acme'') 8 ex_other (\<lambda>s. s) ex_store = (Inr a, s')"
    using ex_store_row by (auto simp: upsert_from_event_def run_plan_def plan_event_def ex_store_rows)
  have "ce_usage ex_other = None" by (simp add: ex_other_def ex_event_def)
  then show ?thesis using usage_last_known_good [OF ex_store_ok, of "Some ''acme''" ex_other 8 a s' AIFACTORY] up by auto
qed

text \<open>Live worker events never touch the scalar slice: whatever a worker record or a heartbeat
  carries, the status, phase, repository and usage of the stage stay; a worker record replaces
  the previous one of the same worker and no other; a heartbeat appends its sample to that
  worker's series.\<close>

theorem worker_events_are_local:
  assumes "ce_worker e = Some w" "ce_phase e = Some ''worker'' \<or> ce_phase e = Some ''worker_progress''"
  shows "let old = slice_or_empty col; new = event_slice col e in
     ss_status new = ss_status old \<and> ss_phase new = ss_phase old
   \<and> ss_usage new = ss_usage old \<and> ss_repo new = ss_repo old
   \<and> (ce_phase e = Some ''worker'' \<longrightarrow>
        dget (ss_workers new) i = (if i = wu_worker_id w then Some w else dget (ss_workers old) i))
   \<and> (ce_phase e = Some ''worker_progress'' \<longrightarrow> ss_workers new = ss_workers old
        \<and> (\<exists>ps. dget (ss_worker_progress new) (wu_worker_id w) = Some ps \<and> ps \<noteq> []
             \<and> pp_total_tokens (last ps) = wu_total_tokens w))"
proof -
  have "is_worker_event e \<or> is_worker_progress_event e"
    using assms by (auto simp: is_worker_event_def is_worker_progress_event_def)
  note scalar = event_slice_worker [OF this, of col]
  have cap: "0 < PROGRESS_SERIES_CAP" by (simp add: PROGRESS_SERIES_CAP_def)
  have "take_last n xs \<noteq> []" if "0 < n" "xs \<noteq> []" for n and xs :: "progress_point list"
    using that by (auto simp: take_last_def)
  then show ?thesis
    using assms scalar cap
    by (auto simp: Let_def event_slice_def apply_worker_def apply_worker_progress_def take_last_last
        split: option.splits)
qed

definition ex_worker :: worker_usage where
  "ex_worker = \<lparr>wu_worker_id = ''w-1'', wu_subtask_id = None, wu_agent_phase = None,
     wu_provider = Some ''ollama'', wu_model = None, wu_input_tokens = 3, wu_output_tokens = 4,
     wu_total_tokens = 7, wu_cost_usd = 0, wu_duration_ms = 9, wu_billing_mode = None, wu_elapsed_ms = 0\<rparr>"

theorem worker_events_are_local_witness:
  "dget (ss_workers (event_slice None
     (ex_event\<lparr>ce_phase := Some ''worker'', ce_worker := Some ex_worker\<rparr>))) ''w-1'' = Some ex_worker"
  using worker_events_are_local [of "ex_event\<lparr>ce_phase := Some ''worker'', ce_worker := Some ex_worker\<rparr>"
      ex_worker None "''w-1''"]
  by (simp add: Let_def) (simp add: ex_worker_def)

text \<open>A poll that re-reports what the row already shows is no write at all, so the liveness clock
  keeps the time of the last real transition; a poll with a different status is written and
  stamped, unless it is a dead task trying to take the row from a different task that is done.\<close>

theorem noop_poll_keeps_clock:
  assumes "ws_ok s" "scope \<noteq> Some []" "slice_ok d" "ss_usage d = None"
    and "get_row scope s k = Some r" "wr_stage v r = Some old"
    and "upsert_snapshot scope now k v d title newest (\<lambda>s. s) s = (Inr a, s')"
  shows "(ss_status d = ss_status old \<and> ss_phase d = ss_phase old \<and> \<not> truthy title \<longrightarrow> s' = s)
    \<and> (if \<not> newest \<and> is_done (ss_status old) \<and> is_dead_stage (ss_status d)
            \<and> ss_task_id d \<noteq> ss_task_id old then s' = s
       else ss_status d \<noteq> ss_status old \<longrightarrow>
         (\<exists>r'. get_row scope s' k = Some r' \<and> wr_updated_at r' = now
            \<and> ss_status (slice_or_empty (wr_stage v r')) = ss_status d))"
  using snapshot_row [OF assms(1-3,7)] assms(4-6)
  by (auto simp: snapshot_unchanged_def snapshot_superseded_def poll_blind_fill_def Let_def
      split: option.splits if_splits)

definition ex_poll :: service_state where
  "ex_poll = empty_state\<lparr>ss_task_id := Some ''t-1'', ss_status := Some ''coding'', ss_phase := Some ''code''\<rparr>"

lemma ex_row_stage: "\<exists>old. wr_stage AIFACTORY ex_row = Some old \<and> ss_status old = Some ''coding''
    \<and> ss_phase old = Some ''code'' \<and> ss_usage old = None \<and> ss_task_id old = Some ''t-1''"
  by (simp add: ex_row_def) (simp add: ex_event_def event_slice_def apply_terminal_or_scalar_def empty_state_def)

theorem noop_poll_keeps_clock_witness:
  "snd (upsert_snapshot (Some ''acme'') 99 ''42'' AIFACTORY ex_poll None False (\<lambda>s. s) ex_store) = ex_store"
proof -
  obtain old where old: "wr_stage AIFACTORY ex_row = Some old" "ss_status old = Some ''coding''"
    "ss_phase old = Some ''code''" "ss_usage old = None" using ex_row_stage by blast
  have d: "slice_ok ex_poll" "ss_usage ex_poll = None" "ss_status ex_poll = Some ''coding''"
    "ss_phase ex_poll = Some ''code''"
    by (simp_all add: ex_poll_def slice_ok_def) (simp_all add: empty_state_def)
  obtain a s' where up: "upsert_snapshot (Some ''acme'') 99 ''42'' AIFACTORY ex_poll None False (\<lambda>s. s) ex_store
      = (Inr a, s')"
    using ex_store_row old d
    by (auto simp: upsert_snapshot_def run_plan_def plan_snapshot_def snapshot_unchanged_def
        poll_blind_fill_def Let_def)
  show ?thesis
    using noop_poll_keeps_clock [OF ex_store_ok _ d(1,2) ex_store_row old(1) up] old d up by simp
qed

text \<open>The age sweep removes a row exactly when its furthest stage with a status is dead and the
  row has not changed for longer than the limit; in particular a row whose furthest stage is
  running, in review, queued or finished is never removed, however old, and no row is altered.\<close>

theorem prune_removes_only_dead_frontiers:
  "let s' = snd (prune_dead scope now limit s) in
   ws_rows s' = filter (\<lambda>r. \<not> (visible scope r \<and> prunable now limit r)) (ws_rows s) \<and>
   (\<forall>r. prunable now limit r \<longleftrightarrow>
      (\<exists>v. truthy (ss_status (slice_or_empty (wr_stage v r)))
         \<and> (\<forall>v'>v. \<not> truthy (ss_status (slice_or_empty (wr_stage v' r))))
         \<and> is_dead_stage (ss_status (slice_or_empty (wr_stage v r)))
         \<and> seconds_between now (wr_updated_at r) > limit)) \<and>
   fst (prune_dead scope now limit s) = length (ws_rows s) - length (ws_rows s')"
proof -
  let ?st = "\<lambda>r v. ss_status (slice_or_empty (wr_stage v r))"
  have "prunable now limit r \<longleftrightarrow> (\<exists>v. furthest (?st r) = Some v \<and>
      is_dead_stage (?st r v) \<and> seconds_between now (wr_updated_at r) > limit)" for r
    by (auto simp: prunable_def frontier_furthest split: option.split)
  then have "prunable now limit r \<longleftrightarrow> (\<exists>v. truthy (?st r v) \<and> (\<forall>v'>v. \<not> truthy (?st r v')) \<and>
      is_dead_stage (?st r v) \<and> seconds_between now (wr_updated_at r) > limit)" for r
    by (simp only: furthest_Some conj_assoc)
  moreover have "length (filter (\<lambda>r. visible scope r \<and> prunable now limit r) (ws_rows s))
      = length (ws_rows s) - length (filter (\<lambda>r. \<not> (visible scope r \<and> prunable now limit r)) (ws_rows s))"
    using sum_length_filter_compl [of "\<lambda>r. visible scope r \<and> prunable now limit r" "ws_rows s"] by simp
  ultimately show ?thesis unfolding prune_dead_def Let_def by simp
qed

theorem prune_removes_only_dead_frontiers_witness:
  "fst (prune_dead (Some ''beta'') 99000000 1 ex_store) = 0"
proof -
  have "filter (\<lambda>r. \<not> (visible (Some ''beta'') r \<and> prunable 99000000 1 r)) (ws_rows ex_store) = [ex_row]"
    by (simp add: ex_store_rows visible_def in_scope_def)
  then show ?thesis
    using prune_removes_only_dead_frontiers [of "Some ''beta''" 99000000 1 ex_store]
    by (simp add: Let_def ex_store_rows)
qed

text \<open>Annotation blocks do not survive the next plain event.  An ordinary event that carries no
  annotation block leaves the stage with no annotations and no repository, whatever earlier
  events and polls had recorded there.\<close>

theorem plain_event_drops_annotations:
  assumes "\<not> is_worker_event e" "\<not> is_worker_progress_event e" "annotations e = []"
  shows "ss_extra (event_slice col e) = [] \<and> ss_repo (event_slice col e) = None"
  by (rule event_slice_cases [of e col])
    (use assms in \<open>simp_all add: attach_annotations_def apply_terminal_or_scalar_def Let_def\<close>)

theorem plain_event_drops_annotations_witness:
  "ss_extra (event_slice (Some (empty_state\<lparr>ss_extra := [(''review'', JObj [(''gates_passed'', JBool False)])]\<rparr>))
     ex_event) = []"
proof -
  have "annotations ex_event = []" by (simp add: annotations_def annotation_def nonempty_def ex_event_def)
  then show ?thesis using plain_event_drops_annotations by simp
qed

text \<open>A poll can blank what only events know.  A snapshot that is written replaces the annotation
  map of the stage by its own, although usage, workers, series and rollups are carried over.\<close>

theorem snapshot_drops_annotations:
  assumes "ws_ok s" "scope \<noteq> Some []" "slice_ok d" "get_row scope s k = Some r"
    and "upsert_snapshot scope now k v d title newest (\<lambda>s. s) s = (Inr a, s')" "s' \<noteq> s"
  shows "ss_extra (slice_or_empty (stage_of scope s' k v)) = ss_extra d
    \<and> (ss_workers d = [] \<longrightarrow> ss_workers (slice_or_empty (stage_of scope s' k v))
        = ss_workers (slice_or_empty (wr_stage v r)))"
  using snapshot_row [OF assms(1-3,5)] assms(4,6)
  by (auto simp: stage_of_def poll_blind_fill_def Let_def split: if_splits)

theorem snapshot_drops_annotations_witness:
  "ss_extra (slice_or_empty (stage_of (Some ''acme'') (snd (upsert_snapshot (Some ''acme'') 99 ''42'' AIFACTORY
     (ex_poll\<lparr>ss_status := Some ''done''\<rparr>) None False (\<lambda>s. s) ex_store)) ''42'' AIFACTORY)) = []"
proof -
  let ?d = "ex_poll\<lparr>ss_status := Some ''done''\<rparr>"
  obtain old where old: "wr_stage AIFACTORY ex_row = Some old" "ss_status old = Some ''coding''"
    "ss_phase old = Some ''code''" "ss_usage old = None" "ss_task_id old = Some ''t-1''"
    using ex_row_stage by blast
  have d: "slice_ok ?d" "ss_status ?d = Some ''done''" "ss_extra ?d = []" "ss_task_id ?d = Some ''t-1''"
    by (simp_all add: ex_poll_def slice_ok_def) (simp_all add: empty_state_def)
  have "wr_id ex_row \<in> wr_id ` set (ws_rows ex_store)" by (simp add: ex_store_rows)
  then obtain a s' where up: "upsert_snapshot (Some ''acme'') 99 ''42'' AIFACTORY ?d None False (\<lambda>s. s) ex_store
      = (Inr a, s')"
    using ex_store_row old d
    by (auto simp: upsert_snapshot_def run_plan_def plan_snapshot_def snapshot_unchanged_def
        snapshot_superseded_def poll_blind_fill_def Let_def)
  have "\<exists>r. get_row (Some ''acme'') s' ''42'' = Some r \<and> wr_updated_at r = 99"
    using snapshot_row [OF ex_store_ok _ d(1) up] ex_store_row old d
    by (auto simp: snapshot_unchanged_def snapshot_superseded_def poll_blind_fill_def Let_def)
  moreover have "wr_updated_at ex_row = 7" by (simp add: ex_row_def)
  ultimately have "s' \<noteq> ex_store" using ex_store_row by auto
  then show ?thesis
    using snapshot_drops_annotations [OF ex_store_ok _ d(1) ex_store_row up] up d by simp
qed

text \<open>A re-run that reports the status and phase its predecessor showed is blanked by the poll
  that reported it: the snapshot counts as unchanged although its task id is new, so the row
  keeps the old id, and the sweep of the same cycle, which knows only the new id, clears the
  live stage.\<close>

theorem rerun_blanked_by_its_own_poll:
  assumes "ws_ok s" "scope \<noteq> Some []" "slice_ok d" "ss_usage d = None" "get_row scope s k = Some r"
    and "wr_stage v r = Some old" "ss_task_id old = Some t" "ss_task_id d = Some t'" "t \<notin> live"
    and "ss_status d = ss_status old" "ss_phase d = ss_phase old" "is_running (ss_status old)"
    and "\<not> is_dead_stage (ss_status old)"
    and "upsert_snapshot scope now k v d None newest (\<lambda>s. s) s = (Inr a, s')"
  shows "s' = s \<and> (\<exists>r'\<in>set (ws_rows (snd (reconcile_snapshot scope now v live s'))).
           wr_key r' = k \<and> wr_stage v r' = Some empty_state)"
proof
  show *: "s' = s"
    using snapshot_row [OF assms(1-3,14)] assms
    by (auto simp: snapshot_unchanged_def poll_blind_fill_def Let_def split: if_splits)
  have "truthy (ss_status old)" "\<not> is_terminal (ss_status old)"
    using assms(12) by (auto simp: is_running_def split: if_splits)
  then have "stale_stage v live r" using assms by (simp add: stale_stage_def)
  then show "\<exists>r'\<in>set (ws_rows (snd (reconcile_snapshot scope now v live s'))).
           wr_key r' = k \<and> wr_stage v r' = Some empty_state"
    using get_row_Some [OF assms(5)] *
    by (intro bexI [of _ "blank_stage now v r"]) (auto simp: reconcile_rows in_update_where)
qed

theorem rerun_blanked_by_its_own_poll_witness:
  "snd (upsert_snapshot (Some ''acme'') 99 ''42'' AIFACTORY (ex_poll\<lparr>ss_task_id := Some ''t-2''\<rparr>) None False
     (\<lambda>s. s) ex_store) = ex_store
   \<and> (\<exists>r'\<in>set (ws_rows (snd (reconcile_snapshot (Some ''acme'') 99 AIFACTORY {''t-2''} ex_store))).
        wr_key r' = ''42'' \<and> wr_stage AIFACTORY r' = Some empty_state)"
proof -
  let ?d = "ex_poll\<lparr>ss_task_id := Some ''t-2''\<rparr>"
  obtain old where old: "wr_stage AIFACTORY ex_row = Some old" "ss_status old = Some ''coding''"
    "ss_phase old = Some ''code''" "ss_usage old = None" "ss_task_id old = Some ''t-1''"
    using ex_row_stage by blast
  have d: "slice_ok ?d" "ss_usage ?d = None" "ss_status ?d = Some ''coding''" "ss_phase ?d = Some ''code''"
    by (simp_all add: ex_poll_def slice_ok_def) (simp_all add: empty_state_def)
  obtain a s' where up: "upsert_snapshot (Some ''acme'') 99 ''42'' AIFACTORY ?d None False (\<lambda>s. s) ex_store
      = (Inr a, s')"
    using ex_store_row old d
    by (auto simp: upsert_snapshot_def run_plan_def plan_snapshot_def snapshot_unchanged_def
        poll_blind_fill_def Let_def)
  have c: "is_running (Some ''coding'')" "\<not> is_dead_stage (Some ''coding'')"
    by (simp_all add: is_running_def is_dead_stage_words is_terminal_def classifier_defs
        status_matches_words eval_str status_sep_def DONE_TOKENS_def FAILED_TOKENS_def REVIEW_TOKENS_def
        QUEUED_TOKENS_def)
  show ?thesis
    using rerun_blanked_by_its_own_poll [OF ex_store_ok _ d(1,2) ex_store_row old(1,5) _ _ _ _ _ _ up,
        of "''t-2''" "{''t-2''}"] old d c up by auto
qed

end
