(* ===== verification/Adapters.thy ===== *)
theory Adapters
  imports Workstore
begin

text \<open>
  The service adapters (\<open>adapters/base.py\<close>, \<open>pfactory.py\<close>, \<open>aifactory.py\<close>, \<open>tfactory.py\<close>):
  an upstream answer is classified, its rows are normalised to adapter items, and a batch of
  items is written to the store (\<open>hydrate\<close>).  An HTTP exchange is a value: a transport
  failure, or a status with a body that is JSON or is not.  \<open>repr\<close> stands for Python's \<open>str\<close>
  of a float, a list or a dictionary.
\<close>

datatype adapter_exc =
    AdapterErrorE
  | AdapterRefusalE "string option"
  | JSONDecodeE
  | ValidationE
  | DatabaseE db_error

text \<open>\<open>except AdapterError\<close> also catches the refusal, its subclass, and nothing else.\<close>

fun is_adapter_error :: "adapter_exc \<Rightarrow> bool" where
  "is_adapter_error AdapterErrorE = True"
| "is_adapter_error (AdapterRefusalE d) = True"
| "is_adapter_error JSONDecodeE = False"
| "is_adapter_error ValidationE = False"
| "is_adapter_error (DatabaseE e) = False"

datatype http_outcome =
    TransportError
  | HttpResponse nat "json option"

fun json_str :: "(json \<Rightarrow> string) \<Rightarrow> json \<Rightarrow> string" where
  "json_str repr (JStr s) = s"
| "json_str repr (JInt i) = str_of_int i"
| "json_str repr (JBool b) = (if b then ''True'' else ''False'')"
| "json_str repr JNull = ''None''"
| "json_str repr j = repr j"

text \<open>\<open>first\<close>: the first present, non-null value among dotted paths.\<close>

fun walk_path :: "json \<Rightarrow> string list \<Rightarrow> json" where
  "walk_path cur [] = cur"
| "walk_path (JObj d) (part # ps) = (case dget d part of None \<Rightarrow> JNull | Some v \<Rightarrow> walk_path v ps)"
| "walk_path cur (part # ps) = JNull"

fun first_of :: "jobj \<Rightarrow> string list \<Rightarrow> json option" where
  "first_of d [] = None"
| "first_of d (k # ks) =
     (let cur = walk_path (JObj d) (split_on (\<lambda>c. c = CHR ''.'') k)
      in if cur \<noteq> JNull then Some cur else first_of d ks)"

definition created_at_of :: "(json \<Rightarrow> string) \<Rightarrow> jobj \<Rightarrow> string option" where
  "created_at_of repr row = map_option (json_str repr) (first_of row [''createdAt'', ''created_at''])"

definition refusal_detail :: "(json \<Rightarrow> string) \<Rightarrow> json option \<Rightarrow> string option" where
  "refusal_detail repr body = (case body of
     Some (JObj d) \<Rightarrow>
       (let e = (case dget d ''error'' of None \<Rightarrow> JNull | Some v \<Rightarrow> v);
            raw = (if jtruthy e then e else (case dget d ''detail'' of None \<Rightarrow> JNull | Some v \<Rightarrow> v))
        in if raw = JNull then None else Some (json_str repr raw))
   | _ \<Rightarrow> None)"

definition get_json :: "(json \<Rightarrow> string) \<Rightarrow> http_outcome \<Rightarrow> adapter_exc + json" where
  "get_json repr out = (case out of
     TransportError \<Rightarrow> Inl AdapterErrorE
   | HttpResponse code body \<Rightarrow>
       if code = 409 then Inl (AdapterRefusalE (refusal_detail repr body))
       else if \<not> (200 \<le> code \<and> code < 300) then Inl AdapterErrorE
       else (case body of None \<Rightarrow> Inl JSONDecodeE | Some j \<Rightarrow> Inr j))"

definition get_detail :: "(json \<Rightarrow> string) \<Rightarrow> http_outcome \<Rightarrow> adapter_exc + jobj option" where
  "get_detail repr out = (case out of
     TransportError \<Rightarrow> Inl AdapterErrorE
   | HttpResponse code body \<Rightarrow>
       if code = 404 then Inr None
       else if code = 409 then Inl (AdapterRefusalE (refusal_detail repr body))
       else if \<not> (200 \<le> code \<and> code < 300) then Inl AdapterErrorE
       else (case body of None \<Rightarrow> Inl JSONDecodeE | Some (JObj d) \<Rightarrow> Inr (Some d) | Some _ \<Rightarrow> Inr None))"

definition only_objects :: "json list \<Rightarrow> jobj list" where
  "only_objects xs = concat (map (\<lambda>j. case j of JObj d \<Rightarrow> [d] | _ \<Rightarrow> []) xs)"

fun first_list :: "jobj \<Rightarrow> string list \<Rightarrow> jobj list" where
  "first_list d [] = []"
| "first_list d (k # ks) =
     (case dget d k of Some (JArr xs) \<Rightarrow> only_objects xs | _ \<Rightarrow> first_list d ks)"

definition rows_of :: "json \<Rightarrow> jobj list" where
  "rows_of payload = (case payload of
     JArr xs \<Rightarrow> only_objects xs
   | JObj d \<Rightarrow> first_list d [''items'', ''tasks'', ''plans'', ''sessions'', ''results'', ''data'']
   | _ \<Rightarrow> [])"

datatype probe_status = Online | Unauthorized | Offline | ProbeError

definition probe :: "http_outcome \<Rightarrow> bool \<times> probe_status" where
  "probe out = (case out of
     TransportError \<Rightarrow> (False, Offline)
   | HttpResponse code body \<Rightarrow>
       if code = 401 \<or> code = 403 then (False, Unauthorized)
       else if code \<ge> 400 then (False, ProbeError)
       else (True, Online))"

section \<open>Items\<close>

record adapter_item =
  ai_key :: string
  ai_service :: service
  ai_task_id :: string
  ai_status :: "string option"
  ai_phase :: "string option"
  ai_title :: "string option"
  ai_repo :: "string option"
  ai_created_at :: "string option"
  ai_review :: "jobj option"

definition to_state :: "adapter_item \<Rightarrow> service_state" where
  "to_state i = empty_state\<lparr>ss_task_id := Some (ai_task_id i), ss_status := ai_status i,
     ss_phase := ai_phase i, ss_repo := ai_repo i,
     ss_extra := (case nonempty (ai_review i) of None \<Rightarrow> [] | Some r \<Rightarrow> [(''review'', JObj r)])\<rparr>"

text \<open>A field declared \<open>str | None\<close>: anything else fails validation.\<close>

definition opt_str_field :: "json option \<Rightarrow> adapter_exc + string option" where
  "opt_str_field v = (case v of
     None \<Rightarrow> Inr None | Some (JStr s) \<Rightarrow> Inr (Some s) | Some _ \<Rightarrow> Inl ValidationE)"

definition key_field :: "(json \<Rightarrow> string) \<Rightarrow> jobj \<Rightarrow> json \<Rightarrow> string" where
  "key_field repr row task_id =
    (case first_of row [''correlation_key'', ''correlationKey''] of
       None \<Rightarrow> json_str repr task_id
     | Some k \<Rightarrow> json_str repr (if jtruthy k then k else task_id))"

definition make_item :: "(json \<Rightarrow> string) \<Rightarrow> service \<Rightarrow> jobj \<Rightarrow> json \<Rightarrow> json option \<Rightarrow> json option
    \<Rightarrow> json option \<Rightarrow> jobj option \<Rightarrow> adapter_exc + adapter_item option" where
  "make_item repr service row task_id status phase title review =
     res_bind (opt_str_field status) (\<lambda>st.
     res_bind (opt_str_field phase) (\<lambda>ph.
     res_bind (opt_str_field title) (\<lambda>ti.
     res_bind (opt_str_field (first_of row [''repo''])) (\<lambda>re.
       Inr (Some \<lparr>ai_key = key_field repr row task_id, ai_service = service,
         ai_task_id = json_str repr task_id, ai_status = st, ai_phase = ph, ai_title = ti,
         ai_repo = re, ai_created_at = created_at_of repr row, ai_review = review\<rparr>)))))"

definition normalize_pfactory :: "(json \<Rightarrow> string) \<Rightarrow> jobj \<Rightarrow> adapter_exc + adapter_item option" where
  "normalize_pfactory repr row = (case first_of row [''session_id'', ''id''] of
     None \<Rightarrow> Inr None
   | Some t \<Rightarrow>
       (let review = (case first_of row [''review''] of
              Some (JObj r) \<Rightarrow> Some r
            | _ \<Rightarrow> if first_of row [''gates_passed''] = Some (JBool False)
                   then Some [(''gates_passed'', JBool False)] else None)
        in make_item repr PFACTORY row t (first_of row [''board_state'', ''status'']) (Some (JStr ''plan''))
             (first_of row [''title'', ''name'']) review))"

definition normalize_aifactory :: "(json \<Rightarrow> string) \<Rightarrow> jobj \<Rightarrow> adapter_exc + adapter_item option" where
  "normalize_aifactory repr row = (case first_of row [''id'', ''task_id''] of
     None \<Rightarrow> Inr None
   | Some t \<Rightarrow> make_item repr AIFACTORY row t (first_of row [''status''])
       (first_of row [''phase'', ''current_phase'']) (first_of row [''title'', ''name'', ''description'']) None)"

definition normalize_tfactory :: "(json \<Rightarrow> string) \<Rightarrow> jobj \<Rightarrow> adapter_exc + adapter_item option" where
  "normalize_tfactory repr row = (case first_of row [''spec_id'', ''id'', ''task_id''] of
     None \<Rightarrow> Inr None
   | Some t \<Rightarrow> make_item repr TFACTORY row t (first_of row [''status''])
       (first_of row [''phase'']) (first_of row [''title'', ''name'']) None)"

fun normalize :: "(json \<Rightarrow> string) \<Rightarrow> service \<Rightarrow> jobj \<Rightarrow> adapter_exc + adapter_item option" where
  "normalize repr PFACTORY row = normalize_pfactory repr row"
| "normalize repr AIFACTORY row = normalize_aifactory repr row"
| "normalize repr TFACTORY row = normalize_tfactory repr row"

fun normalize_all :: "(jobj \<Rightarrow> adapter_exc + adapter_item option) \<Rightarrow> jobj list
    \<Rightarrow> adapter_exc + adapter_item list" where
  "normalize_all f [] = Inr []"
| "normalize_all f (r # rs) = res_bind (f r) (\<lambda>i. res_bind (normalize_all f rs) (\<lambda>is.
     Inr (case i of None \<Rightarrow> is | Some x \<Rightarrow> x # is)))"

definition list_items_of :: "(json \<Rightarrow> string) \<Rightarrow> service \<Rightarrow> http_outcome \<Rightarrow> adapter_exc + adapter_item list" where
  "list_items_of repr service out =
     res_bind (get_json repr out) (\<lambda>payload. normalize_all (normalize repr service) (rows_of payload))"

text \<open>\<open>hydrate\<close>: one snapshot per item, in order; a database error stops it where it is.\<close>

fun hydrate :: "string option \<Rightarrow> int \<Rightarrow> string set \<Rightarrow> adapter_item list \<Rightarrow> wi_store
    \<Rightarrow> (adapter_exc + unit) \<times> wi_store" where
  "hydrate scope now newest [] s = (Inr (), s)"
| "hydrate scope now newest (i # is) s =
     (case upsert_snapshot scope now (ai_key i) (ai_service i) (to_state i) (ai_title i)
             (ai_task_id i \<in> newest) (\<lambda>s. s) s of
        (Inl e, s') \<Rightarrow> (Inl (DatabaseE e), s')
      | (Inr _, s') \<Rightarrow> hydrate scope now newest is s')"

lemma to_state_ok: "slice_ok (to_state i) \<and> ss_usage (to_state i) = None"
  by (simp add: to_state_def slice_ok_def empty_state_def)

lemma hydrate_ok: "ws_ok s \<Longrightarrow> ws_ok (snd (hydrate scope now newest is s))"
proof (induction "is" arbitrary: s)
  case (Cons i "is")
  obtain r s' where up: "upsert_snapshot scope now (ai_key i) (ai_service i) (to_state i) (ai_title i)
      (ai_task_id i \<in> newest) (\<lambda>s. s) s = (r, s')"
    by (cases "upsert_snapshot scope now (ai_key i) (ai_service i) (to_state i) (ai_title i)
      (ai_task_id i \<in> newest) (\<lambda>s. s) s")
  have "ws_ok s'"
    by (rule ws_ok_step [OF ws_step.ws_snapshot [OF conjunct1 [OF to_state_ok] up] Cons.prems])
  then show ?case using Cons.IH up by (cases r) auto
qed simp

lemma normalize_all_ok:
  "normalize_all f rs = Inr is \<Longrightarrow> i \<in> set is \<Longrightarrow> \<exists>r\<in>set rs. f r = Inr (Some i)"
proof (induction rs arbitrary: "is")
  case (Cons r rs)
  then obtain x xs where "f r = Inr x" "normalize_all f rs = Inr xs"
    "is = (case x of None \<Rightarrow> xs | Some y \<Rightarrow> y # xs)"
    by (auto simp: res_bind_Inr_iff)
  with Cons show ?case by (cases x) auto
qed simp

end
