(* ===== verification/Progress.thy ===== *)
theory Progress
  imports Adapters
begin

text \<open>
  The live-progress poller, \<open>progress.py\<close>: the hub of latest progress per key, the choice of the
  task that owns a row when several tasks share a key, and one poll cycle over the adapters.
  \<open>fromiso\<close> stands for \<open>datetime.fromisoformat\<close>, \<open>None\<close> when it raises.
\<close>

record live_progress =
  lp_key :: string
  lp_service :: service
  lp_phase :: "string option"
  lp_percent :: "rat option"
  lp_subtask :: "string option"
  lp_updated_at :: int

definition progress_from_item :: "int \<Rightarrow> adapter_item \<Rightarrow> live_progress" where
  "progress_from_item now i = \<lparr>lp_key = ai_key i, lp_service = ai_service i,
     lp_phase = py_or (ai_phase i) (ai_status i), lp_percent = None, lp_subtask = None,
     lp_updated_at = now\<rparr>"

type_synonym progress_hub = "(string, live_progress) dict"

definition hub_update :: "live_progress \<Rightarrow> progress_hub \<Rightarrow> progress_hub" where
  "hub_update lp h = dset (lp_key lp) lp h"

definition hub_snapshot :: "progress_hub \<Rightarrow> live_progress list" where
  "hub_snapshot h = sort_key (\<lambda>p. - lp_updated_at p) (dvalues h)"

definition created :: "(string \<Rightarrow> pydatetime option) \<Rightarrow> adapter_item \<Rightarrow> int option" where
  "created fromiso i =
     map_option wall (fromiso (case ai_created_at i of None \<Rightarrow> '''' | Some s \<Rightarrow> s))"

definition current_task :: "string option \<Rightarrow> wi_store \<Rightarrow> adapter_item \<Rightarrow> string option" where
  "current_task scope s i = (case get_item scope s (ai_key i) of
     None \<Rightarrow> None | Some w \<Rightarrow> ss_task_id (wi_stage (ai_service i) w))"

definition stuck_ids :: "adapter_item list \<Rightarrow> string set" where
  "stuck_ids items = ai_task_id ` set (filter (\<lambda>i. is_dead_stage (ai_status i)) items)"

text \<open>The groups of items by key, in order of first appearance.\<close>

definition add_group :: "adapter_item \<Rightarrow> (string, adapter_item list) dict \<Rightarrow> (string, adapter_item list) dict" where
  "add_group i g = dset (ai_key i) ((case dget g (ai_key i) of None \<Rightarrow> [] | Some is \<Rightarrow> is) @ [i]) g"

definition groups_of :: "adapter_item list \<Rightarrow> (string, adapter_item list) dict" where
  "groups_of items = fold add_group items []"

text \<open>\<open>max\<close> by creation time: the first of the maximal ones.\<close>

fun newest_from :: "(adapter_item \<Rightarrow> int) \<Rightarrow> adapter_item \<Rightarrow> adapter_item list \<Rightarrow> adapter_item" where
  "newest_from t best [] = best"
| "newest_from t best (i # is) = newest_from t (if t i > t best then i else best) is"

definition group_owner :: "(string \<Rightarrow> pydatetime option) \<Rightarrow> adapter_item list \<Rightarrow> adapter_item option" where
  "group_owner fromiso grp =
    (if grp = [] \<or> list_ex (\<lambda>i. created fromiso i = None) grp then None
     else Some (newest_from (\<lambda>i. the (created fromiso i)) (hd grp) (tl grp)))"

definition owners_of :: "(string \<Rightarrow> pydatetime option) \<Rightarrow> adapter_item list \<Rightarrow> adapter_item list" where
  "owners_of fromiso items =
     List.map_filter (group_owner fromiso) (dvalues (groups_of items))"

definition rest_of :: "(string \<Rightarrow> pydatetime option) \<Rightarrow> adapter_item list \<Rightarrow> adapter_item list" where
  "rest_of fromiso items =
     concat (filter (\<lambda>g. group_owner fromiso g = None) (dvalues (groups_of items)))"

definition last_dead :: "string set \<Rightarrow> adapter_item list \<Rightarrow> (string, string) dict" where
  "last_dead stuck rest = fold (\<lambda>i d. dset (ai_key i) (ai_task_id i) d)
     (filter (\<lambda>i. ai_task_id i \<in> stuck) rest) []"

definition live_items :: "(string \<Rightarrow> pydatetime option) \<Rightarrow> adapter_item list \<Rightarrow> adapter_item list" where
  "live_items fromiso items =
    (let stuck = stuck_ids items; rest = rest_of fromiso items;
         alive = ai_key ` set (filter (\<lambda>i. ai_task_id i \<notin> stuck) rest)
     in owners_of fromiso items
        @ filter (\<lambda>i. ai_task_id i \<notin> stuck
            \<or> ai_key i \<notin> alive \<and> dget (last_dead stuck rest) (ai_key i) = Some (ai_task_id i)) rest)"

definition newest_ids :: "(string \<Rightarrow> pydatetime option) \<Rightarrow> string option \<Rightarrow> wi_store
    \<Rightarrow> adapter_item list \<Rightarrow> string set" where
  "newest_ids fromiso scope s items =
     ai_task_id ` set (filter (\<lambda>o'. case current_task scope s o' of
         None \<Rightarrow> False
       | Some t \<Rightarrow> t \<in> ai_task_id ` set (case dget (groups_of items) (ai_key o') of None \<Rightarrow> [] | Some g \<Rightarrow> g))
       (owners_of fromiso items))"

text \<open>One adapter of a cycle.  \<open>scope\<close> and the store are absent when the poller has no store.\<close>

record poll_state =
  ps_hub :: progress_hub
  ps_store :: wi_store
  ps_changed :: "live_progress list"

definition feed_hub :: "int \<Rightarrow> adapter_item list \<Rightarrow> poll_state \<Rightarrow> poll_state" where
  "feed_hub now items p =
    (let lps = map (progress_from_item now) (filter (\<lambda>i. ai_task_id i \<notin> stuck_ids items) items)
     in p\<lparr>ps_hub := fold hub_update lps (ps_hub p), ps_changed := ps_changed p @ lps\<rparr>)"

definition sync_store :: "(string \<Rightarrow> pydatetime option) \<Rightarrow> string option \<Rightarrow> int \<Rightarrow> service
    \<Rightarrow> adapter_item list \<Rightarrow> wi_store \<Rightarrow> (adapter_exc + unit) \<times> wi_store" where
  "sync_store fromiso scope now service items s =
    (let live = live_items fromiso items in
     case hydrate scope now (newest_ids fromiso scope s items) live s of
       (Inl e, s1) \<Rightarrow> (Inl e, s1)
     | (Inr _, s1) \<Rightarrow>
         (let s2 = snd (reconcile_snapshot scope now service (ai_task_id ` set live) s1);
              keys = fold (\<lambda>i d. dset (ai_task_id i) (ai_key i) d) live []
          in (Inr (), snd (prune_duplicate_stages scope now service keys s2))))"

text \<open>An adapter's poll: its service and what \<open>list_items\<close> gave or raised.\<close>

definition poll_adapter :: "(string \<Rightarrow> pydatetime option) \<Rightarrow> string option \<Rightarrow> int
    \<Rightarrow> service \<times> (adapter_exc + adapter_item list) \<Rightarrow> poll_state \<Rightarrow> (adapter_exc + unit) \<times> poll_state" where
  "poll_adapter fromiso scope now a p = (case a of
     (service, Inl e) \<Rightarrow> ((if is_adapter_error e then Inr () else Inl e), p)
   | (service, Inr items) \<Rightarrow>
       (let p1 = feed_hub now items p;
            (r, s') = sync_store fromiso scope now service items (ps_store p1)
        in ((case r of Inl e \<Rightarrow> if is_adapter_error e then Inr () else Inl e | Inr _ \<Rightarrow> Inr ()),
            p1\<lparr>ps_store := s'\<rparr>)))"

fun poll_adapters :: "(string \<Rightarrow> pydatetime option) \<Rightarrow> string option \<Rightarrow> int
    \<Rightarrow> (service \<times> (adapter_exc + adapter_item list)) list \<Rightarrow> poll_state \<Rightarrow> (adapter_exc + unit) \<times> poll_state" where
  "poll_adapters fromiso scope now [] p = (Inr (), p)"
| "poll_adapters fromiso scope now (a # as) p =
     (case poll_adapter fromiso scope now a p of
        (Inl e, p') \<Rightarrow> (Inl e, p')
      | (Inr _, p') \<Rightarrow> poll_adapters fromiso scope now as p')"

definition poll_progress_once :: "(string \<Rightarrow> pydatetime option) \<Rightarrow> string option \<Rightarrow> int \<Rightarrow> rat
    \<Rightarrow> (service \<times> (adapter_exc + adapter_item list)) list \<Rightarrow> progress_hub \<Rightarrow> wi_store
    \<Rightarrow> (adapter_exc + live_progress list) \<times> poll_state" where
  "poll_progress_once fromiso scope now limit as h s =
    (case poll_adapters fromiso scope now as \<lparr>ps_hub = h, ps_store = s, ps_changed = []\<rparr> of
       (Inl e, p) \<Rightarrow> (Inl e, p)
     | (Inr _, p) \<Rightarrow>
         (Inr (ps_changed p), p\<lparr>ps_store := snd (prune_dead scope now limit (ps_store p))\<rparr>))"

section \<open>Groups and owners\<close>

abbreviation of_key :: "string \<Rightarrow> adapter_item list \<Rightarrow> adapter_item list" where
  "of_key k items \<equiv> filter (\<lambda>i. ai_key i = k) items"

lemma dget_groups_fold:
  "dget (fold add_group items g) k =
     (if of_key k items = [] then dget g k
      else Some ((case dget g k of None \<Rightarrow> [] | Some is \<Rightarrow> is) @ of_key k items))"
  by (induction items arbitrary: g) (auto simp: add_group_def)

lemma dget_groups:
  "dget (groups_of items) k = (if of_key k items = [] then None else Some (of_key k items))"
  by (simp add: groups_of_def dget_groups_fold)

lemma dict_ok_groups: "dict_ok (groups_of items)"
proof -
  have "dict_ok (fold add_group items g)" if "dict_ok g" for g
    using that by (induction items arbitrary: g) (auto simp: add_group_def)
  then show ?thesis by (simp add: groups_of_def)
qed

lemma dict_ok_dget: "dict_ok d \<Longrightarrow> (k, v) \<in> set d \<Longrightarrow> dget d k = Some v"
  by (simp add: dict_ok_def dkeys_def dget_def)

lemma group_entry: "(k, g) \<in> set (groups_of items) \<Longrightarrow> g = of_key k items \<and> g \<noteq> []"
  using dict_ok_dget [OF dict_ok_groups, of k g items] by (auto simp: dget_groups split: if_splits)

text \<open>What a per-group selection keeps of one key.\<close>

lemma of_key_concat_groups:
  assumes "dict_ok d" "\<And>k' g. (k', g) \<in> set d \<Longrightarrow> \<forall>i\<in>set g. ai_key i = k'"
    and "\<And>g. set (f g) \<subseteq> set g"
  shows "of_key k (concat (map f (dvalues d))) = (case dget d k of None \<Rightarrow> [] | Some g \<Rightarrow> f g)"
  using assms(1,2)
proof (induction d)
  case (Cons a d)
  obtain k' g where a: "a = (k', g)" by (cases a)
  have g: "ai_key i = k'" if "i \<in> set (f g)" for i
    using that assms(3) [of g] Cons.prems(2) [of k' g] a by auto
  have ih: "of_key k (concat (map f (dvalues d))) = (case dget d k of None \<Rightarrow> [] | Some g \<Rightarrow> f g)"
    using Cons.prems a by (intro Cons.IH) auto
  show ?case
  proof (cases "k' = k")
    case True
    then have "dget d k = None" using Cons.prems(1) a by (simp add: dget_None_iff)
    moreover have "of_key k (f g) = f g" using g True by (intro filter_True) auto
    ultimately show ?thesis using ih True a by simp
  next
    case False
    then have "of_key k (f g) = []" using g by (auto simp: filter_empty_conv)
    then show ?thesis using ih False a by simp
  qed
qed simp

lemma newest_from_max:
  "newest_from t b is \<in> insert b (set is) \<and> (\<forall>i\<in>insert b (set is). t i \<le> t (newest_from t b is))"
proof (induction "is" arbitrary: b)
  case (Cons i "is")
  from Cons.IH [of "if t i > t b then i else b"] show ?case by (auto split: if_splits)
qed simp

lemma group_owner_Some:
  assumes "group_owner fromiso g = Some o'"
  shows "o' \<in> set g \<and> (\<forall>i\<in>set g. \<exists>t. created fromiso i = Some t \<and> t \<le> the (created fromiso o'))"
proof -
  obtain b "is" where g: "g = b # is" and st: "list_all (\<lambda>i. created fromiso i \<noteq> None) g"
    and o': "o' = newest_from (\<lambda>i. the (created fromiso i)) b is"
    using assms by (cases g) (auto simp: group_owner_def list_ex_iff list_all_iff split: if_splits)
  have "created fromiso i = Some (the (created fromiso i))" if "i \<in> set g" for i
    using st that by (auto simp: list_all_iff)
  then show ?thesis
    using newest_from_max [of "\<lambda>i. the (created fromiso i)" b "is"] g o' by auto
qed

lemma owners_concat:
  "owners_of fromiso items = concat (map (\<lambda>g. case group_owner fromiso g of None \<Rightarrow> [] | Some o' \<Rightarrow> [o'])
     (dvalues (groups_of items)))"
proof -
  have "List.map_filter f xs = concat (map (\<lambda>x. case f x of None \<Rightarrow> [] | Some y \<Rightarrow> [y]) xs)"
    for f :: "adapter_item list \<Rightarrow> adapter_item option" and xs
    by (induction xs) (auto simp: map_filter_simps split: option.split)
  then show ?thesis by (simp add: owners_of_def)
qed

lemma rest_concat:
  "rest_of fromiso items = concat (map (\<lambda>g. if group_owner fromiso g = None then g else [])
     (dvalues (groups_of items)))"
proof -
  have "concat (filter p xs) = concat (map (\<lambda>g. if p g then g else []) xs)"
    for p and xs :: "adapter_item list list" by (induction xs) auto
  then show ?thesis by (simp add: rest_of_def)
qed

lemma of_key_owners:
  "of_key k (owners_of fromiso items) = (case group_owner fromiso (of_key k items) of None \<Rightarrow> [] | Some o' \<Rightarrow> [o'])"
proof -
  have "of_key k (owners_of fromiso items) = (case dget (groups_of items) k of None \<Rightarrow> []
      | Some g \<Rightarrow> (case group_owner fromiso g of None \<Rightarrow> [] | Some o' \<Rightarrow> [o']))"
    unfolding owners_concat
    by (rule of_key_concat_groups [OF dict_ok_groups])
      (auto dest!: group_entry dest: group_owner_Some [OF sym] group_owner_Some split: option.splits)
  then show ?thesis by (auto simp: dget_groups group_owner_def split: option.split)
qed

lemma of_key_rest:
  "of_key k (rest_of fromiso items) = (if group_owner fromiso (of_key k items) = None then of_key k items else [])"
proof -
  have "of_key k (rest_of fromiso items) = (case dget (groups_of items) k of None \<Rightarrow> []
      | Some g \<Rightarrow> (if group_owner fromiso g = None then g else []))"
    unfolding rest_concat
    by (rule of_key_concat_groups [OF dict_ok_groups]) (auto dest!: group_entry)
  then show ?thesis by (auto simp: dget_groups)
qed

lemma dget_last_dead_fold:
  "dget (fold (\<lambda>i d. dset (ai_key i) (ai_task_id i) d) is d) k =
     (if of_key k is = [] then dget d k else Some (ai_task_id (last (of_key k is))))"
  by (induction "is" arbitrary: d) auto

lemma in_rest_key:
  "(\<exists>i\<in>set (rest_of fromiso items). ai_key i = k \<and> P i) \<longleftrightarrow>
     group_owner fromiso (of_key k items) = None \<and> (\<exists>i\<in>set (of_key k items). P i)"
proof -
  have "(\<exists>i\<in>set (rest_of fromiso items). ai_key i = k \<and> P i) \<longleftrightarrow>
      (\<exists>i\<in>set (of_key k (rest_of fromiso items)). P i)" by auto
  then show ?thesis by (simp only: of_key_rest) auto
qed

section \<open>Poll cycles\<close>

lemma poll_adapters_append:
  "poll_adapters fromiso scope now (as @ bs) p =
     (case poll_adapters fromiso scope now as p of
        (Inl e, p') \<Rightarrow> (Inl e, p')
      | (Inr _, p') \<Rightarrow> poll_adapters fromiso scope now bs p')"
  by (induction as arbitrary: p) (auto split: prod.splits sum.splits)

lemma poll_adapter_changed:
  "ps_changed (snd (poll_adapter fromiso scope now a p)) = ps_changed p @
     (case snd a of Inl e \<Rightarrow> [] | Inr items \<Rightarrow>
        map (progress_from_item now) (filter (\<lambda>i. ai_task_id i \<notin> stuck_ids items) items))"
  by (auto simp: poll_adapter_def feed_hub_def Let_def split: prod.splits sum.splits)

lemma poll_adapters_changed:
  "lp \<in> set (ps_changed (snd (poll_adapters fromiso scope now as p))) \<Longrightarrow>
     lp \<in> set (ps_changed p) \<or> (\<exists>v items i. (v, Inr items) \<in> set as \<and> i \<in> set items
        \<and> ai_task_id i \<notin> stuck_ids items \<and> lp = progress_from_item now i)"
proof (induction as arbitrary: p)
  case (Cons a as)
  obtain r p' where p': "poll_adapter fromiso scope now a p = (r, p')"
    by (cases "poll_adapter fromiso scope now a p")
  have ch: "ps_changed p' = ps_changed p @ (case snd a of Inl e \<Rightarrow> [] | Inr items \<Rightarrow>
        map (progress_from_item now) (filter (\<lambda>i. ai_task_id i \<notin> stuck_ids items) items))"
    using poll_adapter_changed [of fromiso scope now a p] p' by simp
  have here: "lp \<in> set (ps_changed p) \<or> (\<exists>v items i. (v, Inr items) \<in> set (a # as) \<and> i \<in> set items
        \<and> ai_task_id i \<notin> stuck_ids items \<and> lp = progress_from_item now i)"
    if "lp \<in> set (ps_changed p')"
    using that unfolding ch by (cases a) (auto split: sum.splits)
  show ?case
  proof (cases r)
    case (Inl e)
    then show ?thesis using Cons.prems p' here by simp
  next
    case (Inr u)
    then have "lp \<in> set (ps_changed (snd (poll_adapters fromiso scope now as p')))"
      using Cons.prems p' by simp
    from Cons.IH [OF this] here show ?thesis by auto
  qed
qed simp

section \<open>Properties\<close>

text \<open>One writer per row and poll.  For every correlation key of a listing: if all its tasks have a
  creation time, exactly one of them is written, one created no earlier than the others, dead
  or alive; otherwise its live tasks are written, or, when there is none, the tasks with the
  id of the last dead one.  No listed key is dropped.\<close>

theorem one_owner_per_key:
  "let g = filter (\<lambda>i. ai_key i = k) items; w = filter (\<lambda>i. ai_key i = k) (live_items fromiso items);
       stuck = stuck_ids items in
   (g = [] \<longleftrightarrow> w = []) \<and>
   (if g \<noteq> [] \<and> (\<forall>i\<in>set g. created fromiso i \<noteq> None)
    then \<exists>o'. w = [o'] \<and> o' \<in> set g \<and>
           (\<forall>i\<in>set g. \<forall>t. created fromiso i = Some t \<longrightarrow> t \<le> the (created fromiso o'))
    else w = (if \<exists>i\<in>set g. ai_task_id i \<notin> stuck then filter (\<lambda>i. ai_task_id i \<notin> stuck) g
              else filter (\<lambda>i. ai_task_id i = ai_task_id (last g)) g))"
proof -
  let ?g = "of_key k items" and ?stuck = "stuck_ids items" and ?rest = "rest_of fromiso items"
  have stamped: "group_owner fromiso ?g = None \<longleftrightarrow> \<not> (?g \<noteq> [] \<and> (\<forall>i\<in>set ?g. created fromiso i \<noteq> None))"
    by (auto simp: group_owner_def list_ex_iff)
  have alive: "k \<in> ai_key ` set (filter (\<lambda>i. ai_task_id i \<notin> ?stuck) ?rest) \<longleftrightarrow>
      group_owner fromiso ?g = None \<and> (\<exists>i\<in>set ?g. ai_task_id i \<notin> ?stuck)"
    using in_rest_key [of fromiso items k "\<lambda>i. ai_task_id i \<notin> ?stuck"] by (auto simp: image_iff)
  let ?dead = "filter (\<lambda>i. ai_task_id i \<in> ?stuck) ?rest"
  have dead: "of_key k ?dead = filter (\<lambda>i. ai_task_id i \<in> ?stuck) (of_key k ?rest)"
    by (simp add: conj_commute)
  have w: "of_key k (live_items fromiso items) =
     (case group_owner fromiso ?g of Some o' \<Rightarrow> [o'] | None \<Rightarrow>
        filter (\<lambda>i. ai_task_id i \<notin> ?stuck \<or> \<not> (\<exists>i\<in>set ?g. ai_task_id i \<notin> ?stuck)
          \<and> dget (last_dead ?stuck ?rest) k = Some (ai_task_id i)) ?g)"
  proof -
    have "of_key k (live_items fromiso items) = of_key k (owners_of fromiso items) @
      filter (\<lambda>i. ai_task_id i \<notin> ?stuck \<or> k \<notin> ai_key ` set (filter (\<lambda>i. ai_task_id i \<notin> ?stuck) ?rest)
          \<and> dget (last_dead ?stuck ?rest) k = Some (ai_task_id i)) (of_key k ?rest)"
      by (auto simp: live_items_def Let_def intro!: filter_cong)
    then show ?thesis
      unfolding of_key_owners of_key_rest alive by (cases "group_owner fromiso ?g") simp_all
  qed
  show ?thesis
  proof (cases "group_owner fromiso ?g")
    case None
    have ld: "dget (last_dead ?stuck ?rest) k =
       (if filter (\<lambda>i. ai_task_id i \<in> ?stuck) ?g = [] then None
        else Some (ai_task_id (last (filter (\<lambda>i. ai_task_id i \<in> ?stuck) ?g))))"
      using None unfolding last_dead_def dget_last_dead_fold dead of_key_rest by simp
    show ?thesis
    proof (cases "\<exists>i\<in>set ?g. ai_task_id i \<notin> ?stuck")
      case True
      then have "filter (\<lambda>i. ai_task_id i \<notin> ?stuck) ?g \<noteq> []" "?g \<noteq> []" by (auto simp: filter_empty_conv)
      then show ?thesis using True None stamped w by (auto simp: Let_def)
    next
      case False
      then have all: "filter (\<lambda>i. ai_task_id i \<in> ?stuck) ?g = ?g" by (intro filter_True) blast
      have eq: "of_key k (live_items fromiso items) =
          filter (\<lambda>i. dget (last_dead ?stuck ?rest) k = Some (ai_task_id i)) ?g"
        using False None w by (auto intro!: filter_cong)
      have "of_key k (live_items fromiso items) = filter (\<lambda>i. ai_task_id i = ai_task_id (last ?g)) ?g"
      proof (cases "?g = []")
        case True
        then show ?thesis unfolding eq by (simp only: filter.simps)
      next
        case g: False
        then have "dget (last_dead ?stuck ?rest) k = Some (ai_task_id (last ?g))"
          unfolding ld all by (simp only: if_False)
        then show ?thesis unfolding eq by (simp add: eq_commute)
      qed
      moreover have "?g \<noteq> [] \<Longrightarrow> filter (\<lambda>i. ai_task_id i = ai_task_id (last ?g)) ?g \<noteq> []"
        using last_in_set [of ?g] by (auto simp: filter_empty_conv)
      ultimately show ?thesis using False None stamped by (auto simp: Let_def simp del: filter_filter)
    qed
  next
    case (Some o')
    then show ?thesis using group_owner_Some [OF Some] stamped w by (fastforce simp: Let_def)
  qed
qed

definition ex_item :: "string \<Rightarrow> string \<Rightarrow> string option \<Rightarrow> adapter_item" where
  "ex_item t st c = \<lparr>ai_key = ''42'', ai_service = TFACTORY, ai_task_id = t, ai_status = Some st,
     ai_phase = None, ai_title = None, ai_repo = None, ai_created_at = c, ai_review = None\<rparr>"

theorem one_owner_per_key_witness:
  "filter (\<lambda>i. ai_key i = ''42'') (live_items (\<lambda>_. None)
     [ex_item ''a'' ''running'' None, ex_item ''b'' ''stalled'' None]) = [ex_item ''a'' ''running'' None]"
proof -
  let ?is = "[ex_item ''a'' ''running'' None, ex_item ''b'' ''stalled'' None]"
  have "stuck_ids ?is = {''b''}"
    by (simp add: stuck_ids_def ex_item_def is_dead_stage_words eval_str status_sep_def)
  moreover have "of_key ''42'' ?is = ?is" by (simp add: ex_item_def)
  ultimately show ?thesis
    using one_owner_per_key [of "''42''" ?is "\<lambda>_. None"]
    by (simp add: Let_def) (simp add: ex_item_def created_def)
qed

text \<open>The live feed never shows a dead task.  Everything a poll publishes comes from a listing
  that an adapter answered in this cycle, and no entry of that listing with the same task id
  is stuck or stalled.\<close>

theorem dead_tasks_not_in_feed:
  assumes "poll_progress_once fromiso scope now limit as h s = (Inr changed, p)" "lp \<in> set changed"
  shows "\<exists>v items i. (v, Inr items) \<in> set as \<and> i \<in> set items \<and> lp = progress_from_item now i
    \<and> (\<forall>j\<in>set items. ai_task_id j = ai_task_id i \<longrightarrow> \<not> is_dead_stage (ai_status j))"
proof -
  let ?p0 = "\<lparr>ps_hub = h, ps_store = s, ps_changed = []\<rparr>"
  have "changed = ps_changed (snd (poll_adapters fromiso scope now as ?p0))"
    using assms(1) by (auto simp: poll_progress_once_def split: prod.splits sum.splits)
  then obtain v items i where "(v, Inr items) \<in> set as" "i \<in> set items"
    "ai_task_id i \<notin> stuck_ids items" "lp = progress_from_item now i"
    using poll_adapters_changed [of lp fromiso scope now as ?p0] assms(2) by auto
  then show ?thesis
    by (intro exI [of _ v] exI [of _ items] exI [of _ i]) (auto simp: stuck_ids_def image_iff)
qed

theorem dead_tasks_not_in_feed_witness:
  "\<exists>changed p. poll_progress_once (\<lambda>_. None) None 5 1 [(TFACTORY, Inr [ex_item ''a'' ''running'' None])] [] ex_empty
      = (Inr changed, p) \<and> (\<forall>lp\<in>set changed. \<exists>i. lp = progress_from_item 5 i)"
proof -
  let ?as = "[(TFACTORY, Inr [ex_item ''a'' ''running'' None])]"
  have st: "stuck_ids [ex_item ''a'' ''running'' None] = {}"
    by (simp add: stuck_ids_def ex_item_def is_dead_stage_words eval_str status_sep_def)
  have live: "live_items (\<lambda>_. None) [ex_item ''a'' ''running'' None] = [ex_item ''a'' ''running'' None]"
    by (simp add: live_items_def st owners_of_def rest_of_def groups_of_def add_group_def group_owner_def
        created_def map_filter_simps Let_def)
  obtain x s' where "upsert_snapshot None 5 ''42'' TFACTORY (to_state (ex_item ''a'' ''running'' None)) None
      False (\<lambda>s. s) ex_empty = (Inr x, s')"
    by (simp add: upsert_snapshot_def run_plan_def plan_snapshot_def get_row_def select_rows_def ex_empty_def Let_def)
  moreover have "newest_ids (\<lambda>_. None) None ex_empty [ex_item ''a'' ''running'' None] = {}"
    by (simp add: newest_ids_def owners_of_def groups_of_def add_group_def group_owner_def created_def
        map_filter_simps)
  ultimately obtain r where "poll_progress_once (\<lambda>_. None) None 5 1 ?as [] ex_empty = r" "\<exists>c p. r = (Inr c, p)"
    using live by (simp add: poll_progress_once_def poll_adapter_def feed_hub_def sync_store_def Let_def)
      (simp add: ex_item_def)
  then obtain c p where "poll_progress_once (\<lambda>_. None) None 5 1 ?as [] ex_empty = (Inr c, p)" by auto
  then show ?thesis using dead_tasks_not_in_feed [of "\<lambda>_. None" None 5 1 ?as] by blast
qed

text \<open>A down service costs only its own update: an adapter whose listing raised an adapter error
  (unreachable, refused, HTTP error) can be left out of the cycle without changing its
  outcome.  An answer with status 200 that is not JSON is not an adapter error: it ends the
  cycle at once, later services are not polled and the age sweep does not run.\<close>

theorem poll_fault_isolation:
  "(is_adapter_error e \<longrightarrow>
      poll_progress_once fromiso scope now limit (as @ (v, Inl e) # bs) h s
        = poll_progress_once fromiso scope now limit (as @ bs) h s) \<and>
   (poll_adapters fromiso scope now as \<lparr>ps_hub = h, ps_store = s, ps_changed = []\<rparr> = (Inr (), p) \<longrightarrow>
      poll_progress_once fromiso scope now limit
        (as @ (v, list_items_of repr v (HttpResponse 200 None)) # bs) h s = (Inl JSONDecodeE, p)) \<and>
   list_items_of repr v TransportError = Inl AdapterErrorE"
  by (auto simp: poll_progress_once_def poll_adapters_append poll_adapter_def list_items_of_def
      get_json_def split: prod.splits sum.splits)

theorem poll_fault_isolation_witness:
  "poll_progress_once (\<lambda>_. None) None 5 1 [(PFACTORY, Inl AdapterErrorE)] [] ex_empty
     = poll_progress_once (\<lambda>_. None) None 5 1 [] [] ex_empty"
  using poll_fault_isolation [of AdapterErrorE "\<lambda>_. None" None 5 1 "[]" PFACTORY "[]" "[]" ex_empty]
  by simp

end
