(* ===== verification/Auth.thy ===== *)
theory Auth
  imports Prelude
begin

text \<open>
  Scoped API keys, \<open>auth.py\<close>: parsing the configured keys, the constant-time key lookup and
  the authorisation of a request.  \<open>hmac.compare_digest\<close> raises on a non-ASCII string; the
  model keeps that as an error.  A refusal is the HTTP status it is answered with.
\<close>

datatype auth_error = TypeErrorA | HttpError nat

definition is_ascii :: "string \<Rightarrow> bool" where
  "is_ascii s = list_all (\<lambda>c. (of_char c :: nat) < 128) s"

text \<open>\<open>KEY_SHAPED\<close>; the final \<open>$\<close> also matches before one trailing newline.\<close>

definition chomp :: "string \<Rightarrow> string" where
  "chomp s = (if s \<noteq> [] \<and> (of_char (last s) :: nat) = 10 then butlast s else s)"

definition key_shaped :: "string \<Rightarrow> bool" where
  "key_shaped s = (let t = chomp s in
     (startswith t ''acw_'' \<or> startswith t ''cfk_'') \<and> length t \<ge> 20 \<and> list_all alnum (drop 4 t))"

text \<open>\<open>sha\<close> is the SHA-256 hex digest.\<close>

definition key_actor :: "(string \<Rightarrow> string) \<Rightarrow> string \<Rightarrow> string" where
  "key_actor sha key = ''unattributed:key-'' @ take 12 (sha key)"

definition secret_matches :: "string option \<Rightarrow> string option \<Rightarrow> auth_error + bool" where
  "secret_matches candidate expected =
    (if \<not> truthy candidate \<or> \<not> truthy expected then Inr False
     else if \<not> is_ascii (the candidate) \<or> \<not> is_ascii (the expected) then Inl TypeErrorA
     else Inr (candidate = expected))"

definition parse_scopes :: "string \<Rightarrow> string list" where
  "parse_scopes s = filter (\<lambda>w. w \<noteq> []) (map strip (split_on (\<lambda>c. c = CHR '','') s))"

definition parse_entry :: "string \<Rightarrow> (string, string list) dict \<Rightarrow> (string, string list) dict" where
  "parse_entry raw keys =
    (let entry = strip raw; key = strip (before_char (CHR '':'') entry)
     in if entry = [] \<or> key = [] then keys
        else dset key (parse_scopes (after_char (CHR '':'') entry)) keys)"

definition parse_api_keys :: "string option \<Rightarrow> (string, string list) dict" where
  "parse_api_keys raw = (if \<not> truthy raw then []
     else fold parse_entry (split_on (\<lambda>c. c = CHR '';'') (the raw)) [])"

record keystore =
  ks_keys :: "(string, string list) dict"
  ks_dev_open :: bool

definition replace_keys :: "(string, string list) dict \<Rightarrow> keystore \<Rightarrow> keystore" where
  "replace_keys keys ks = ks\<lparr>ks_keys := keys\<rparr>"

definition configured :: "keystore \<Rightarrow> bool" where
  "configured ks = (ks_keys ks \<noteq> [])"

definition open_store :: "keystore \<Rightarrow> bool" where
  "open_store ks = (ks_keys ks = [] \<and> ks_dev_open ks)"

text \<open>The loop compares every key and keeps the scopes of the last match.\<close>

fun scan_keys :: "string \<Rightarrow> (string, string list) dict \<Rightarrow> string list option
    \<Rightarrow> auth_error + string list option" where
  "scan_keys key [] matched = Inr matched"
| "scan_keys key ((known, scopes) # ks) matched =
     (case secret_matches (Some key) (Some known) of
        Inl e \<Rightarrow> Inl e
      | Inr b \<Rightarrow> scan_keys key ks (if b then Some scopes else matched))"

definition scopes_for :: "keystore \<Rightarrow> string option \<Rightarrow> auth_error + string list option" where
  "scopes_for ks key = (case key of None \<Rightarrow> Inr None | Some k \<Rightarrow> scan_keys k (ks_keys ks) None)"

definition preferred_key :: "keystore \<Rightarrow> string option" where
  "preferred_key ks = (case ks_keys ks of
     [] \<Rightarrow> None
   | (k, _) # _ \<Rightarrow>
       (case List.find (\<lambda>(k, sc). ''write'' \<in> set sc) (ks_keys ks) of
          Some (k', _) \<Rightarrow> Some k'
        | None \<Rightarrow> (case List.find (\<lambda>(k, sc). ''read'' \<in> set sc) (ks_keys ks) of
                     Some (k', _) \<Rightarrow> Some k' | None \<Rightarrow> Some k)))"

definition authorize :: "keystore \<Rightarrow> string option \<Rightarrow> string \<Rightarrow> auth_error + unit" where
  "authorize ks key scope =
    (if \<not> configured ks then (if ks_dev_open ks then Inr () else Inl (HttpError 401))
     else (case scopes_for ks key of
             Inl e \<Rightarrow> Inl e
           | Inr None \<Rightarrow> Inl (HttpError 401)
           | Inr (Some scopes) \<Rightarrow> if scope \<in> set scopes then Inr () else Inl (HttpError 403)))"

definition extract_key :: "string option \<Rightarrow> string option \<Rightarrow> string option" where
  "extract_key authorization x_api_key =
    (let scheme = (case authorization of None \<Rightarrow> [] | Some a \<Rightarrow> before_char (CHR '' '') a);
         token = (case authorization of None \<Rightarrow> [] | Some a \<Rightarrow> strip (after_char (CHR '' '') a));
         x = (case x_api_key of None \<Rightarrow> [] | Some k \<Rightarrow> strip k)
     in if lower scheme = ''bearer'' \<and> token \<noteq> [] then Some token
        else if x \<noteq> [] then Some x else None)"

definition authorize_headers :: "keystore \<Rightarrow> string option \<Rightarrow> string option \<Rightarrow> string \<Rightarrow> auth_error + unit" where
  "authorize_headers ks authorization x_api_key scope =
    (if open_store ks then Inr () else authorize ks (extract_key authorization x_api_key) scope)"

section \<open>The lookup\<close>

lemma dict_ok_parse: "dict_ok (parse_api_keys raw)"
proof -
  have "dict_ok (fold parse_entry xs d)" if "dict_ok d" for xs d
    using that by (induction xs arbitrary: d) (auto simp: parse_entry_def Let_def)
  then show ?thesis by (simp add: parse_api_keys_def)
qed

lemma parse_keys_nonempty: "k \<in> set (dkeys (parse_api_keys raw)) \<Longrightarrow> k \<noteq> []"
proof -
  have step: "[] \<notin> set (dkeys (parse_entry x d))" if "[] \<notin> set (dkeys d)" for x d
    using that by (auto simp: parse_entry_def Let_def)
  have "[] \<notin> set (dkeys (fold parse_entry xs d))" if "[] \<notin> set (dkeys d)" for xs d
    using that by (induction xs arbitrary: d) (simp_all add: step)
  from this [of "[]"] have "[] \<notin> set (dkeys (parse_api_keys raw))"
    by (simp add: parse_api_keys_def dkeys_def [of "[]"])
  then show "k \<in> set (dkeys (parse_api_keys raw)) \<Longrightarrow> k \<noteq> []" by auto
qed

lemma scan_keys_ascii:
  assumes "is_ascii key" "list_all is_ascii (dkeys ks)" "dict_ok ks" "key \<noteq> []"
  shows "scan_keys key ks m = Inr (case dget ks key of None \<Rightarrow> m | Some sc \<Rightarrow> Some sc)"
  using assms(2,3)
proof (induction ks arbitrary: m)
  case (Cons a ks)
  obtain k sc where a: "a = (k, sc)" by (cases a)
  have "secret_matches (Some key) (Some k) = Inr (k = key)"
    using assms(1,4) Cons.prems(1) a by (cases "k = []") (auto simp: secret_matches_def dkeys_def)
  moreover have "k = key \<Longrightarrow> dget ks key = None"
    using Cons.prems(2) a by (simp add: dget_None_iff)
  ultimately show ?case using Cons a by (auto simp: dkeys_def split: option.split)
qed simp

lemma scan_keys_empty: "scan_keys [] ks m = Inr m"
  by (induction ks arbitrary: m) (auto simp: secret_matches_def)

lemma scan_keys_not_ascii:
  assumes "\<not> is_ascii key" "\<exists>k\<in>set (dkeys ks). k \<noteq> []"
  shows "scan_keys key ks m = Inl TypeErrorA"
  using assms(2)
proof (induction ks arbitrary: m)
  case (Cons a ks)
  obtain k sc where a: "a = (k, sc)" by (cases a)
  have "key \<noteq> []" using assms(1) by (auto simp: is_ascii_def)
  then show ?case using Cons a assms(1) by (cases "k = []") (auto simp: secret_matches_def dkeys_def)
qed (simp add: dkeys_def)

section \<open>Properties\<close>

text \<open>C24: authorisation is fail-closed and exact.  With ASCII keys configured, a request is let through
  exactly when the key it presents is one of them and holds the required scope; an unknown or
  missing key is answered 401 and a known key without the scope 403.  With no key configured
  everything is refused unless the development opt-in is set.\<close>

theorem authorize_exact:
  assumes "ks_keys ks = parse_api_keys raw" "list_all is_ascii (dkeys (ks_keys ks))"
    and "case key of None \<Rightarrow> True | Some k \<Rightarrow> is_ascii k"
  shows "authorize ks key scope =
     (if ks_keys ks = [] then (if ks_dev_open ks then Inr () else Inl (HttpError 401))
      else case Option.bind key (dget (ks_keys ks)) of
             None \<Rightarrow> Inl (HttpError 401)
           | Some sc \<Rightarrow> if scope \<in> set sc then Inr () else Inl (HttpError 403))"
proof (cases key)
  case None
  then show ?thesis by (simp add: authorize_def configured_def scopes_for_def)
next
  case (Some k)
  have "dget (ks_keys ks) [] = None"
    using parse_keys_nonempty [of "[]" raw] assms(1) by (auto simp: dget_None_iff)
  then have "scan_keys k (ks_keys ks) None = Inr (dget (ks_keys ks) k)"
    using scan_keys_ascii [of k "ks_keys ks" None] assms dict_ok_parse [of raw] Some
    by (cases "k = []") (auto simp: scan_keys_empty split: option.split)
  then show ?thesis using Some
    by (auto simp: authorize_def configured_def scopes_for_def split: option.split)
qed

definition ex_keys :: keystore where
  "ex_keys = \<lparr>ks_keys = parse_api_keys (Some ''k1:read,write; k2:read''), ks_dev_open = False\<rparr>"

lemma ex_keys_src: "ks_keys ex_keys = parse_api_keys (Some ''k1:read,write; k2:read'')"
  by (simp add: ex_keys_def)

lemma ex_keys_eq: "ks_keys ex_keys = [(''k1'', [''read'', ''write'']), (''k2'', [''read''])]"
  by (simp add: ex_keys_def parse_api_keys_def parse_entry_def parse_scopes_def before_char_def
      after_char_def eval_str Let_def)

theorem authorize_exact_witness:
  "authorize ex_keys (Some ''k2'') ''write'' = Inl (HttpError 403) \<and> authorize ex_keys (Some ''k1'') ''write'' = Inr ()"
proof -
  have a: "list_all is_ascii (dkeys (ks_keys ex_keys))" by (simp add: ex_keys_eq is_ascii_def dkeys_def)
  show ?thesis
    using authorize_exact [OF ex_keys_src a, of "Some ''k2''" "''write''"]
      authorize_exact [OF ex_keys_src a, of "Some ''k1''" "''write''"]
    by (simp add: ex_keys_eq is_ascii_def)
qed

text \<open>A presented key with a non-ASCII character is not refused with 401 but raises: as soon as a
  key is configured, the comparison of the two strings fails with a type error.\<close>

theorem non_ascii_key_raises:
  assumes "ks_keys ks = parse_api_keys raw" "ks_keys ks \<noteq> []" "\<not> is_ascii k"
  shows "authorize ks (Some k) scope = Inl TypeErrorA \<and> scopes_for ks (Some k) = Inl TypeErrorA"
proof -
  have "\<exists>k\<in>set (dkeys (ks_keys ks)). k \<noteq> []"
    using parse_keys_nonempty [of _ raw] assms(1,2) by (cases "ks_keys ks") (auto simp: dkeys_def)
  then have "scan_keys k (ks_keys ks) None = Inl TypeErrorA" using assms(3) by (rule scan_keys_not_ascii [rotated])
  then show ?thesis using assms(2) by (simp add: authorize_def configured_def scopes_for_def)
qed

theorem non_ascii_key_raises_witness: "authorize ex_keys (Some [char_of (233 :: nat)]) ''read'' = Inl TypeErrorA"
  using non_ascii_key_raises [OF ex_keys_src, of "[char_of (233 :: nat)]" "''read''"]
  by (simp add: ex_keys_eq is_ascii_def)

end
