(* ===== verification/AuditChain.thy ===== *)
theory AuditChain
  imports Auth
begin

text \<open>
  The tamper-evident audit chain, \<open>audit.py\<close>.  \<open>mac\<close> is HMAC-SHA256 under the configured
  secret as a function on messages, \<open>sha\<close> the digest that names a redacted key; both are
  arguments.  What is assumed of \<open>mac\<close> is only that it does not collide on the messages that
  occur.  An entry's identifier is its row id.
\<close>

record audit_entry =
  ae_id :: nat
  ae_ts :: int
  ae_actor :: string
  ae_kind :: string
  ae_key :: string
  ae_service :: string
  ae_endpoint :: string
  ae_status_code :: int
  ae_ok :: bool
  ae_prev_hash :: "string option"
  ae_hash :: string

definition redact_actor :: "keystore \<Rightarrow> (string \<Rightarrow> string) \<Rightarrow> string \<Rightarrow> auth_error + string" where
  "redact_actor ks sha actor = res_bind (scopes_for ks (Some actor)) (\<lambda>sc.
     Inr (if sc \<noteq> None \<or> key_shaped actor then key_actor sha actor else actor))"

section \<open>The canonical message\<close>

text \<open>\<open>strftime("%Y-%m-%dT%H:%M:%S.%f")\<close> of a UTC time in microseconds since the epoch.\<close>

definition civil_from_days :: "int \<Rightarrow> int \<times> int \<times> int" where
  "civil_from_days z0 =
    (let z = z0 + 719468; era = z div 146097; doe = z mod 146097;
         yoe = (doe - doe div 1460 + doe div 36524 - doe div 146096) div 365;
         doy = doe - (365 * yoe + yoe div 4 - yoe div 100);
         mp = (5 * doy + 2) div 153;
         d = doy - (153 * mp + 2) div 5 + 1;
         m = (if mp < 10 then mp + 3 else mp - 9)
     in ((yoe + era * 400 + (if m \<le> 2 then 1 else 0)), m, d))"

definition pad :: "nat \<Rightarrow> int \<Rightarrow> string" where
  "pad w n = (let s = str_of_int n in replicate (w - length s) (CHR ''0'') @ s)"

definition canonical_ts :: "int \<Rightarrow> string" where
  "canonical_ts t =
    (let us = t mod 1000000; s = t div 1000000; day = s div 86400; r = s mod 86400;
         (y, m, d) = civil_from_days day
     in pad 4 y @ ''-'' @ pad 2 m @ ''-'' @ pad 2 d @ ''T'' @ pad 2 (r div 3600) @ '':''
        @ pad 2 (r mod 3600 div 60) @ '':'' @ pad 2 (r mod 60) @ ''.'' @ pad 6 us)"

definition unit_sep :: string where
  "unit_sep = [char_of (31 :: nat)]"

text \<open>\<open>_canonical\<close>: the fields in the order of \<open>_CANONICAL_FIELDS\<close>.\<close>

definition canonical :: "audit_entry \<Rightarrow> string" where
  "canonical e = join_with unit_sep
     [canonical_ts (ae_ts e), ae_actor e, ae_kind e, ae_key e, ae_service e, ae_endpoint e,
      str_of_int (ae_status_code e), if ae_ok e then ''1'' else ''0'']"

definition entry_message :: "audit_entry \<Rightarrow> string option \<Rightarrow> string" where
  "entry_message e prev = canonical e @ unit_sep @ (case prev of None \<Rightarrow> '''' | Some h \<Rightarrow> h)"

definition compute_entry_hash :: "(string \<Rightarrow> string) \<Rightarrow> audit_entry \<Rightarrow> string option \<Rightarrow> string" where
  "compute_entry_hash mac e prev = mac (entry_message e prev)"

section \<open>Appending\<close>

record audit_log =
  al_rows :: "audit_entry list"
  al_next :: nat

text \<open>Rows are kept in the order of their ids.\<close>

definition tail_hash :: "audit_entry list \<Rightarrow> string option" where
  "tail_hash rows = (if rows = [] then None else Some (ae_hash (last rows)))"

definition make_entry :: "(string \<Rightarrow> string) \<Rightarrow> audit_entry \<Rightarrow> string option \<Rightarrow> nat \<Rightarrow> audit_entry" where
  "make_entry mac cols prev i =
     cols\<lparr>ae_id := i, ae_prev_hash := prev, ae_hash := compute_entry_hash mac cols prev\<rparr>"

definition append_entry :: "(string \<Rightarrow> string) \<Rightarrow> audit_entry \<Rightarrow> string option \<Rightarrow> audit_log \<Rightarrow> audit_log" where
  "append_entry mac cols prev l =
     l\<lparr>al_rows := al_rows l @ [make_entry mac cols prev (al_next l)], al_next := al_next l + 1\<rparr>"

text \<open>\<open>record\<close> under the chain lock: the tail read and the insert are one critical section.
  \<open>cols\<close> carries the caller's columns; the actor is redacted first.\<close>

definition record_entry :: "keystore \<Rightarrow> (string \<Rightarrow> string) \<Rightarrow> (string \<Rightarrow> string) \<Rightarrow> int \<Rightarrow> audit_entry
    \<Rightarrow> audit_log \<Rightarrow> auth_error + audit_log" where
  "record_entry ks sha mac now cols l = res_bind (redact_actor ks sha (ae_actor cols)) (\<lambda>actor.
     Inr (append_entry mac (cols\<lparr>ae_ts := now, ae_actor := actor\<rparr>) (tail_hash (al_rows l)) l))"

definition list_entries :: "audit_log \<Rightarrow> nat \<Rightarrow> nat option \<Rightarrow> audit_entry list" where
  "list_entries l limit after = (case after of
     Some i \<Rightarrow> take limit (filter (\<lambda>e. ae_id e > i) (al_rows l))
   | None \<Rightarrow> take limit (rev (al_rows l)))"

section \<open>Checking\<close>

datatype break_kind = Mutated | Duplicate | Forked | Dangling

record chain_break =
  cb_id :: nat
  cb_kind :: break_kind
  cb_related :: "nat list"

text \<open>The two indexes of the scan: the ids that carry a hash and the ids that name a parent.\<close>

definition by_hash :: "audit_entry list \<Rightarrow> string \<Rightarrow> nat list" where
  "by_hash rows h = map ae_id (filter (\<lambda>e. ae_hash e = h) rows)"

definition by_parent :: "audit_entry list \<Rightarrow> string option \<Rightarrow> nat list" where
  "by_parent rows p = map ae_id (filter (\<lambda>e. ae_prev_hash e = p) rows)"

definition classify :: "audit_entry list \<Rightarrow> audit_entry \<Rightarrow> string \<Rightarrow> string option \<Rightarrow> chain_break option" where
  "classify rows row recomputed expected_prev =
    (let twins = filter (\<lambda>i. i \<noteq> ae_id row) (by_hash rows (ae_hash row));
         siblings = filter (\<lambda>i. i \<noteq> ae_id row) (by_parent rows (ae_prev_hash row));
         parent_exists = (case ae_prev_hash row of None \<Rightarrow> True | Some h \<Rightarrow> by_hash rows h \<noteq> [])
     in if ae_hash row \<noteq> recomputed then Some \<lparr>cb_id = ae_id row, cb_kind = Mutated, cb_related = []\<rparr>
        else if twins \<noteq> [] then Some \<lparr>cb_id = ae_id row, cb_kind = Duplicate, cb_related = twins\<rparr>
        else if ae_prev_hash row = expected_prev then None
        else if siblings \<noteq> [] \<and> parent_exists
          then Some \<lparr>cb_id = ae_id row, cb_kind = Forked, cb_related = siblings\<rparr>
        else Some \<lparr>cb_id = ae_id row, cb_kind = Dangling, cb_related = []\<rparr>)"

fun scan_from :: "(string \<Rightarrow> string) \<Rightarrow> audit_entry list \<Rightarrow> string option \<Rightarrow> audit_entry list \<Rightarrow> chain_break list" where
  "scan_from mac rows expected [] = []"
| "scan_from mac rows expected (e # es) =
     (case classify rows e (compute_entry_hash mac e (ae_prev_hash e)) expected of
        None \<Rightarrow> scan_from mac rows (Some (ae_hash e)) es
      | Some b \<Rightarrow> b # scan_from mac rows (Some (ae_hash e)) es)"

definition check_chain :: "(string \<Rightarrow> string) \<Rightarrow> audit_entry list \<Rightarrow> chain_break list" where
  "check_chain mac rows = scan_from mac rows None rows"

definition verify_chain :: "(string \<Rightarrow> string) \<Rightarrow> audit_entry list \<Rightarrow> nat list" where
  "verify_chain mac rows = map cb_id (filter (\<lambda>b. cb_kind b \<noteq> Forked) (check_chain mac rows))"

section \<open>The report\<close>

text \<open>\<open>parse_acknowledged_forks\<close>; \<open>int()\<close> rejects anything but digits.  (Python also accepts a sign and
  underscores between digits, which an id list does not use.)\<close>

fun ints_of :: "string list \<Rightarrow> nat list option" where
  "ints_of [] = Some []"
| "ints_of (w # ws) = (case (py_int w, ints_of ws) of (Some n, Some ns) \<Rightarrow> Some (n # ns) | _ \<Rightarrow> None)"

definition parse_acknowledged_forks :: "string option \<Rightarrow> nat list option" where
  "parse_acknowledged_forks raw = (if \<not> truthy raw then Some []
     else ints_of (words_by (\<lambda>c. isspace c \<or> c = CHR '','') (the raw)))"

datatype verdict = OkV | ForkedV | TamperedV

record chain_report =
  cr_verdict :: verdict
  cr_rows :: nat
  cr_checked_at :: int
  cr_findings :: "chain_break list"
  cr_acknowledged :: "nat list"

definition REPORT_TTL :: int where
  "REPORT_TTL = 30000000"

definition acknowledged :: "nat set \<Rightarrow> chain_break \<Rightarrow> bool" where
  "acknowledged acks b = (cb_kind b = Forked \<and> cb_id b \<in> acks)"

definition fresh_report :: "(string \<Rightarrow> string) \<Rightarrow> nat set \<Rightarrow> int \<Rightarrow> audit_entry list \<Rightarrow> chain_report" where
  "fresh_report mac acks now rows =
    (let breaks = check_chain mac rows;
         findings = filter (\<lambda>b. \<not> acknowledged acks b) breaks
     in \<lparr>cr_verdict = (if list_ex (\<lambda>b. cb_kind b \<noteq> Forked) findings then TamperedV
                       else if findings \<noteq> [] then ForkedV else OkV),
         cr_rows = length rows, cr_checked_at = now, cr_findings = findings,
         cr_acknowledged = sort (map cb_id (filter (acknowledged acks) breaks))\<rparr>)"

definition report_chain :: "(string \<Rightarrow> string) \<Rightarrow> nat set \<Rightarrow> int \<Rightarrow> audit_entry list \<Rightarrow> chain_report option
    \<Rightarrow> chain_report \<times> chain_report option" where
  "report_chain mac acks now rows cached = (case cached of
     Some c \<Rightarrow> if now - cr_checked_at c < REPORT_TTL then (c, cached)
               else (let r = fresh_report mac acks now rows in (r, Some r))
   | None \<Rightarrow> (let r = fresh_report mac acks now rows in (r, Some r)))"

section \<open>What a sound chain is\<close>

fun linked :: "string option \<Rightarrow> audit_entry list \<Rightarrow> bool" where
  "linked prev [] = True"
| "linked prev (e # es) = (ae_prev_hash e = prev \<and> linked (Some (ae_hash e)) es)"

definition hashed :: "(string \<Rightarrow> string) \<Rightarrow> audit_entry list \<Rightarrow> bool" where
  "hashed mac rows = list_all (\<lambda>e. ae_hash e = compute_entry_hash mac e (ae_prev_hash e)) rows"

definition log_ok :: "audit_log \<Rightarrow> bool" where
  "log_ok l = (distinct (map ae_id (al_rows l)) \<and> list_all (\<lambda>e. ae_id e < al_next l) (al_rows l))"

definition hash_before :: "string option \<Rightarrow> audit_entry list \<Rightarrow> string option" where
  "hash_before prev xs = (if xs = [] then prev else Some (ae_hash (last xs)))"

lemma hash_before_None: "hash_before None xs = tail_hash xs"
  by (simp add: hash_before_def tail_hash_def)

lemma hash_before_Cons [simp]: "hash_before (Some (ae_hash e)) xs = hash_before p (e # xs)"
  by (simp add: hash_before_def)

lemma linked_append: "linked p (xs @ ys) \<longleftrightarrow> linked p xs \<and> linked (hash_before p xs) ys"
  by (induction xs arbitrary: p) (auto simp: hash_before_def)

lemma scan_append:
  "scan_from mac rows p (xs @ ys) = scan_from mac rows p xs @ scan_from mac rows (hash_before p xs) ys"
  by (induction xs arbitrary: p) (auto simp: hash_before_def split: option.split)

lemma by_hash_Nil: "by_hash rows h = [] \<longleftrightarrow> h \<notin> ae_hash ` set rows"
  by (auto simp: by_hash_def filter_empty_conv)

lemma twins_none:
  assumes "distinct (map ae_id rows)" "e \<in> set rows"
  shows "filter (\<lambda>i. i \<noteq> ae_id e) (by_hash rows (ae_hash e)) = [] \<longleftrightarrow>
    (\<forall>e'\<in>set rows. ae_hash e' = ae_hash e \<longrightarrow> e' = e)"
proof -
  have "e' = e" if "e' \<in> set rows" "ae_id e' = ae_id e" for e'
    using assms that by (auto simp: distinct_map dest: inj_onD)
  then show ?thesis by (auto simp: by_hash_def filter_empty_conv)
qed

lemma classify_None:
  "classify rows e h p = None \<longleftrightarrow> ae_hash e = h
     \<and> filter (\<lambda>i. i \<noteq> ae_id e) (by_hash rows (ae_hash e)) = [] \<and> ae_prev_hash e = p"
  by (simp add: classify_def Let_def)

lemma classify_id: "classify rows e h p = Some b \<Longrightarrow> cb_id b = ae_id e"
  by (auto simp: classify_def Let_def split: if_splits)

lemma distinct_hash_iff:
  "distinct (map ae_id rows) \<Longrightarrow>
     distinct (map ae_hash rows) \<longleftrightarrow> (\<forall>e\<in>set rows. \<forall>e'\<in>set rows. ae_hash e' = ae_hash e \<longrightarrow> e' = e)"
  by (auto simp: distinct_map inj_on_def)

lemma scan_Nil:
  "scan_from mac rows p es = [] \<longleftrightarrow> linked p es \<and> hashed mac es \<and>
     (\<forall>e\<in>set es. filter (\<lambda>i. i \<noteq> ae_id e) (by_hash rows (ae_hash e)) = [])"
proof (induction es arbitrary: p)
  case (Cons a es)
  have "scan_from mac rows p (a # es) = [] \<longleftrightarrow>
      classify rows a (compute_entry_hash mac a (ae_prev_hash a)) p = None
      \<and> scan_from mac rows (Some (ae_hash a)) es = []"
    by (simp split: option.split)
  then show ?case unfolding classify_None Cons.IH by (auto simp: hashed_def)
qed (simp add: hashed_def)

lemma check_Nil:
  assumes "distinct (map ae_id rows)"
  shows "check_chain mac rows = [] \<longleftrightarrow> linked None rows \<and> hashed mac rows \<and> distinct (map ae_hash rows)"
  using assms by (auto simp: check_chain_def scan_Nil twins_none distinct_hash_iff)

lemma verify_member:
  assumes "rows = xs @ e # ys"
    and "classify rows e (compute_entry_hash mac e (ae_prev_hash e)) (tail_hash xs) = Some b" "cb_kind b \<noteq> Forked"
  shows "ae_id e \<in> set (verify_chain mac rows)"
proof -
  have "b \<in> set (check_chain mac rows)"
    using assms(1,2) by (simp add: check_chain_def scan_append hash_before_None)
  then show ?thesis using assms(3) classify_id [OF assms(2)] by (auto simp: verify_chain_def image_iff intro!: bexI [of _ b])
qed

section \<open>The message determines its parent\<close>

definition hex_mac :: "(string \<Rightarrow> string) \<Rightarrow> bool" where
  "hex_mac mac = (\<forall>m. mac m \<noteq> [] \<and> char_of (31 :: nat) \<notin> set (mac m))"

lemma last_sep_unique:
  assumes "a @ c # x = b @ c # y" "c \<notin> set x" "c \<notin> set y"
  shows "x = y"
proof -
  have "takeWhile (\<lambda>d. d \<noteq> c) (rev (a @ c # x)) = rev x" "takeWhile (\<lambda>d. d \<noteq> c) (rev (b @ c # y)) = rev y"
    using assms(2,3) by (auto simp: takeWhile_tail takeWhile_append)
  then show ?thesis using assms(1) by (metis rev_rev_ident)
qed

definition parent_text :: "string option \<Rightarrow> string" where
  "parent_text p = (case p of None \<Rightarrow> [] | Some h \<Rightarrow> h)"

lemma entry_message_parent:
  assumes "entry_message e p = entry_message e' q"
    and "char_of (31 :: nat) \<notin> set (parent_text p)" "char_of (31 :: nat) \<notin> set (parent_text q)"
  shows "parent_text p = parent_text q"
  using last_sep_unique [of "canonical e" "char_of 31" "parent_text p" "canonical e'" "parent_text q"] assms
  by (simp add: entry_message_def unit_sep_def parent_text_def)

lemma linked_parents:
  "linked p es \<Longrightarrow> e \<in> set es \<Longrightarrow> ae_prev_hash e = p \<or> ae_prev_hash e \<in> Some ` ae_hash ` set (butlast es)"
  by (induction es arbitrary: p) auto

text \<open>In a sound chain nothing names the tail as its parent yet.\<close>

lemma tail_not_parent:
  assumes "linked None rows" "distinct (map ae_hash rows)" "e \<in> set rows"
  shows "ae_prev_hash e \<noteq> tail_hash rows"
proof (cases rows rule: rev_cases)
  case (snoc ys y)
  then have "ae_hash y \<notin> ae_hash ` set ys" using assms(2) by auto
  then have "\<forall>x\<in>set ys. ae_hash x \<noteq> ae_hash y" by (metis imageI)
  then show ?thesis
    using linked_parents [OF assms(1,3)] snoc by (auto simp: tail_hash_def)
qed (use assms in simp)

lemma fresh_hash:
  assumes mac: "hex_mac mac" "inj_on mac (insert (entry_message n (tail_hash rows))
      ((\<lambda>e. entry_message e (ae_prev_hash e)) ` set rows))"
    and sound: "linked None rows" "hashed mac rows" "distinct (map ae_hash rows)"
  shows "compute_entry_hash mac n (tail_hash rows) \<notin> ae_hash ` set rows"
proof
  assume "compute_entry_hash mac n (tail_hash rows) \<in> ae_hash ` set rows"
  then obtain e where e: "e \<in> set rows" "compute_entry_hash mac n (tail_hash rows) = ae_hash e" by auto
  have hex: "char_of (31 :: nat) \<notin> set (ae_hash x)" "ae_hash x \<noteq> []" if "x \<in> set rows" for x
    using mac(1) sound(2) that by (auto simp: hex_mac_def hashed_def list_all_iff compute_entry_hash_def)
  have "entry_message n (tail_hash rows) = entry_message e (ae_prev_hash e)"
    using mac(2) e sound(2) by (auto simp: hashed_def list_all_iff compute_entry_hash_def inj_on_def)
  moreover have par: "ae_prev_hash e = None \<or> (\<exists>x\<in>set rows. ae_prev_hash e = Some (ae_hash x))"
    using linked_parents [OF sound(1) e(1)] by (auto dest: in_set_butlastD)
  moreover have tl: "tail_hash rows = None \<or> (\<exists>x\<in>set rows. tail_hash rows = Some (ae_hash x))"
    using e(1) by (auto simp: tail_hash_def)
  ultimately have "parent_text (tail_hash rows) = parent_text (ae_prev_hash e)"
    using hex by (intro entry_message_parent [of n _ e]) (auto simp: parent_text_def)
  then have "ae_prev_hash e = tail_hash rows"
    using par tl hex(2) by (auto simp: parent_text_def dest: sym)
  then show False using tail_not_parent [OF sound(1,3) e(1)] by simp
qed

section \<open>Appending to a chain\<close>

lemma make_entry_simps [simp]:
  "ae_id (make_entry mac c p i) = i" "ae_prev_hash (make_entry mac c p i) = p"
  "ae_hash (make_entry mac c p i) = compute_entry_hash mac c p"
  by (simp_all add: make_entry_def)

lemma canonical_make_entry [simp]: "canonical (make_entry mac c p i) = canonical c"
  by (simp add: make_entry_def canonical_def)

lemma compute_make_entry [simp]:
  "compute_entry_hash mac (make_entry mac c p i) q = compute_entry_hash mac c q"
  by (simp add: compute_entry_hash_def entry_message_def)

lemma append_entry_log_ok: "log_ok l \<Longrightarrow> log_ok (append_entry mac c p l)"
  by (auto simp: log_ok_def append_entry_def list_all_iff)

lemma append_sound:
  assumes "log_ok l" "linked None (al_rows l)" "hashed mac (al_rows l)"
  shows "linked None (al_rows (append_entry mac c (tail_hash (al_rows l)) l))"
    "hashed mac (al_rows (append_entry mac c p l))"
  using assms by (auto simp: append_entry_def linked_append hash_before_None hashed_def)

section \<open>Copies\<close>

lemma classify_twin:
  assumes "ae_hash e = h" "i \<in> set (filter (\<lambda>j. j \<noteq> ae_id e) (by_hash rows (ae_hash e)))"
  shows "classify rows e h p = Some \<lparr>cb_id = ae_id e, cb_kind = Duplicate,
    cb_related = filter (\<lambda>j. j \<noteq> ae_id e) (by_hash rows (ae_hash e))\<rparr>"
proof -
  have "filter (\<lambda>j. j \<noteq> ae_id e) (by_hash rows (ae_hash e)) \<noteq> []" using assms(2) by force
  then show ?thesis using assms(1) by (simp add: classify_def Let_def)
qed

text \<open>The id of a row is not part of what is hashed: a copy is the same row under another id.\<close>

definition unnumbered :: "audit_entry \<Rightarrow> audit_entry" where
  "unnumbered e = e\<lparr>ae_id := 0\<rparr>"

lemma unnumbered_simps [simp]:
  "ae_hash (unnumbered e) = ae_hash e" "ae_prev_hash (unnumbered e) = ae_prev_hash e"
  "compute_entry_hash mac (unnumbered e) p = compute_entry_hash mac e p"
  by (simp_all add: unnumbered_def compute_entry_hash_def entry_message_def canonical_def)

lemma unnumberedD:
  assumes "unnumbered e = unnumbered r"
  shows "ae_hash e = ae_hash r" "ae_prev_hash e = ae_prev_hash r" "compute_entry_hash mac e p = compute_entry_hash mac r p"
  using arg_cong [OF assms, of ae_hash] arg_cong [OF assms, of ae_prev_hash]
    arg_cong [OF assms, of "\<lambda>x. compute_entry_hash mac x p"] by simp_all

lemma linked_unnumbered: "linked p (map unnumbered xs) = linked p xs"
  by (induction xs arbitrary: p) auto

lemma hashed_unnumbered: "hashed mac (map unnumbered xs) = hashed mac xs"
  by (induction xs) (auto simp: hashed_def)

lemma hashes_unnumbered: "map ae_hash (map unnumbered xs) = map ae_hash xs"
  by simp

lemma tail_unnumbered: "tail_hash (map unnumbered xs) = tail_hash xs"
  by (simp add: tail_hash_def last_map)

text \<open>In a sound chain no two rows name the same parent.\<close>

lemma parent_unique:
  assumes "linked p es" "distinct (map ae_hash es)" "p \<notin> Some ` ae_hash ` set es"
    and "x \<in> set es" "y \<in> set es" "ae_prev_hash x = ae_prev_hash y"
  shows "x = y"
  using assms
proof (induction es arbitrary: p)
  case (Cons e es)
  have e: "ae_prev_hash e = p" and es: "linked (Some (ae_hash e)) es" "distinct (map ae_hash es)" "ae_hash e \<notin> ae_hash ` set es"
    using Cons.prems by auto
  have "ae_prev_hash z \<noteq> p" if "z \<in> set es" for z
    using linked_parents [OF es(1) that] Cons.prems(3) by (auto dest: in_set_butlastD)
  then show ?case using Cons.IH [OF es(1,2)] es(3) e Cons.prems(4-6) by force
qed simp

lemma scan_member: "b \<in> set (scan_from mac rows p es) \<Longrightarrow>
    \<exists>e\<in>set es. \<exists>q. classify rows e (compute_entry_hash mac e (ae_prev_hash e)) q = Some b"
  by (induction es arbitrary: p) (auto split: option.splits)

text \<open>So copies of its rows never look like a fork: two that share a parent are twins.\<close>

lemma copies_never_forked:
  assumes sound: "linked None rows" "distinct (map ae_hash rows)"
    and copies: "unnumbered ` set kept \<subseteq> unnumbered ` set rows"
  shows "verify_chain mac kept = map cb_id (check_chain mac kept)"
proof -
  have "cb_kind b \<noteq> Forked" if b: "b \<in> set (check_chain mac kept)" for b
  proof
    assume fork: "cb_kind b = Forked"
    obtain e q where e: "e \<in> set kept" "classify kept e (compute_entry_hash mac e (ae_prev_hash e)) q = Some b"
      using scan_member b unfolding check_chain_def by blast
    have tw: "filter (\<lambda>i. i \<noteq> ae_id e) (by_hash kept (ae_hash e)) = []"
      and sib: "filter (\<lambda>i. i \<noteq> ae_id e) (by_parent kept (ae_prev_hash e)) \<noteq> []"
      using e(2) fork by (auto simp: classify_def Let_def split: if_splits)
    then obtain e' where e': "e' \<in> set kept" "ae_prev_hash e' = ae_prev_hash e" "ae_id e' \<noteq> ae_id e"
      by (auto simp: by_parent_def filter_empty_conv)
    obtain r r' where r: "r \<in> set rows" "unnumbered e = unnumbered r" "r' \<in> set rows" "unnumbered e' = unnumbered r'"
      using copies e(1) e'(1) by blast
    have "r' = r"
      using parent_unique [OF sound, of r' r] r e'(2) unnumberedD(2) [OF r(2)] unnumberedD(2) [OF r(4)] by auto
    then have "ae_hash e' = ae_hash e" using unnumberedD(1) [OF r(2)] unnumberedD(1) [OF r(4)] by simp
    then show False using tw e' by (auto simp: by_hash_def filter_empty_conv)
  qed
  then show ?thesis by (simp add: verify_chain_def filter_id_conv)
qed

lemma linked_copies_are_prefix:
  assumes sound: "linked None rows" "distinct (map ae_hash rows)"
    and "unnumbered ` set kept \<subseteq> unnumbered ` set rows" "linked None kept"
  shows "map unnumbered kept = map unnumbered (take (length kept) rows)"
  using assms(3,4)
proof (induction kept rule: rev_induct)
  case (snoc e ks)
  then have IH: "map unnumbered ks = map unnumbered (take (length ks) rows)" by (simp add: linked_append)
  let ?n = "length ks"
  obtain r where r: "r \<in> set rows" "unnumbered e = unnumbered r" using snoc.prems(1) by auto
  have n: "?n \<le> length rows" using arg_cong [OF IH, of length] by simp
  have "tail_hash ks = tail_hash (take ?n rows)" using arg_cong [OF IH, of tail_hash] by (simp only: tail_unnumbered)
  then have prev: "ae_prev_hash r = tail_hash (take ?n rows)"
    using snoc.prems(2) unnumberedD(2) [OF r(2)] by (simp add: linked_append hash_before_None)
  then have lt: "?n < length rows"
    using n tail_not_parent [OF sound r(1)] by (cases "?n = length rows") auto
  have "linked (tail_hash (take ?n rows)) (drop ?n rows)"
    using sound(1) linked_append [of None "take ?n rows" "drop ?n rows"] by (simp add: hash_before_None)
  then have "ae_prev_hash (rows ! ?n) = tail_hash (take ?n rows)" using lt by (simp add: Cons_nth_drop_Suc [symmetric])
  then have "r = rows ! ?n" using parent_unique [OF sound, of r "rows ! ?n"] r(1) lt prev by auto
  then show ?case using IH r(2) lt by (simp add: take_Suc_conv_app_nth)
qed simp

lemma copies_verify:
  assumes sound: "linked None rows" "hashed mac rows" "distinct (map ae_hash rows)"
    and "unnumbered ` set kept \<subseteq> unnumbered ` set rows" "distinct (map ae_id kept)"
  shows "verify_chain mac kept = [] \<longleftrightarrow> map unnumbered kept = map unnumbered (take (length kept) rows)"
proof
  assume "verify_chain mac kept = []"
  then have "linked None kept"
    using copies_never_forked [OF sound(1,3) assms(4)] check_Nil [OF assms(5)] by simp
  then show "map unnumbered kept = map unnumbered (take (length kept) rows)"
    by (rule linked_copies_are_prefix [OF sound(1,3) assms(4)])
next
  assume eq: "map unnumbered kept = map unnumbered (take (length kept) rows)"
  let ?pre = "take (length kept) rows"
  have "rows = ?pre @ drop (length kept) rows" by simp
  then have "linked None ?pre" "hashed mac ?pre" "distinct (map ae_hash ?pre)"
    using sound by (metis linked_append, metis hashed_def list_all_append, metis distinct_take take_map)
  then have "linked None kept" "hashed mac kept" "distinct (map ae_hash kept)"
    by (metis eq linked_unnumbered, metis eq hashed_unnumbered, metis eq hashes_unnumbered)
  then have "check_chain mac kept = []" using check_Nil [OF assms(5), of mac] by blast
  then show "verify_chain mac kept = []" by (simp add: verify_chain_def)
qed

section \<open>Properties\<close>

lemma record_entry_sound:
  assumes "hex_mac mac" "log_ok l" "check_chain mac (al_rows l) = []"
    and "inj_on mac (insert (entry_message (cols\<lparr>ae_ts := now, ae_actor := actor\<rparr>) (tail_hash (al_rows l)))
          ((\<lambda>e. entry_message e (ae_prev_hash e)) ` set (al_rows l)))"
    and "redact_actor ks sha (ae_actor cols) = Inr actor"
  shows "\<exists>l'. record_entry ks sha mac now cols l = Inr l' \<and> log_ok l' \<and> check_chain mac (al_rows l') = []
    \<and> length (al_rows l') = length (al_rows l) + 1"
proof -
  let ?c = "cols\<lparr>ae_ts := now, ae_actor := actor\<rparr>" and ?p = "tail_hash (al_rows l)"
  have sound: "linked None (al_rows l)" "hashed mac (al_rows l)" "distinct (map ae_hash (al_rows l))"
    using assms(2,3) by (auto simp: check_Nil log_ok_def)
  have ok: "log_ok (append_entry mac ?c ?p l)" using assms(2) by (rule append_entry_log_ok)
  have "distinct (map ae_hash (al_rows (append_entry mac ?c ?p l)))"
    using fresh_hash [OF assms(1,4) sound] sound(3) by (simp add: append_entry_def)
  then have "check_chain mac (al_rows (append_entry mac ?c ?p l)) = []"
    using append_sound [OF assms(2) sound(1,2)] ok by (simp add: check_Nil log_ok_def)
  then show ?thesis using ok assms(5) by (simp add: record_entry_def append_entry_def)
qed

text \<open>C18: recording keeps the chain sound.  Appending to a log in which the check finds nothing gives
  a log in which it finds nothing, for every caller, time and content, as long as the HMAC is
  a hex digest and does not collide on the messages of this log.\<close>

theorem record_keeps_chain_sound:
  assumes "hex_mac mac" "log_ok l" "check_chain mac (al_rows l) = []"
    and "inj_on mac (insert (entry_message (cols\<lparr>ae_ts := now, ae_actor := actor\<rparr>) (tail_hash (al_rows l)))
          ((\<lambda>e. entry_message e (ae_prev_hash e)) ` set (al_rows l)))"
    and "redact_actor ks sha (ae_actor cols) = Inr actor"
  shows "\<exists>l'. record_entry ks sha mac now cols l = Inr l' \<and> log_ok l' \<and> check_chain mac (al_rows l') = []
    \<and> length (al_rows l') = length (al_rows l) + 1"
  using assms by (rule record_entry_sound)

definition ex_mac :: "string \<Rightarrow> string" where
  "ex_mac m = CHR ''h'' # map (\<lambda>c. if c = char_of (31 :: nat) then CHR '' '' else c) m"

definition ex_cols :: "string \<Rightarrow> audit_entry" where
  "ex_cols k = \<lparr>ae_id = 0, ae_ts = 0, ae_actor = ''system'', ae_kind = k, ae_key = ''42'',
     ae_service = ''aifactory'', ae_endpoint = ''/x'', ae_status_code = 200, ae_ok = True,
     ae_prev_hash = None, ae_hash = []\<rparr>"

definition ex_log :: audit_log where
  "ex_log = \<lparr>al_rows = [], al_next = 1\<rparr>"

lemma ex_mac_hex: "hex_mac ex_mac"
  by (auto simp: hex_mac_def ex_mac_def char_of_def)

lemma ex_log_ok: "log_ok ex_log \<and> check_chain ex_mac (al_rows ex_log) = []"
  by (simp add: ex_log_def log_ok_def check_chain_def)

theorem record_keeps_chain_sound_witness:
  "\<exists>l'. record_entry ex_keys (\<lambda>s. s) ex_mac 7 (ex_cols ''create'') ex_log = Inr l'
     \<and> check_chain ex_mac (al_rows l') = []"
proof -
  have "redact_actor ex_keys (\<lambda>s. s) (ae_actor (ex_cols ''create'')) = Inr ''system''"
    by (simp add: redact_actor_def scopes_for_def ex_keys_eq secret_matches_def is_ascii_def ex_cols_def
        key_shaped_def chomp_def Let_def)
  then show ?thesis
    using record_keeps_chain_sound [where mac = ex_mac and l = ex_log and cols = "ex_cols ''create''" and now = 7
        and actor = "''system''" and ks = ex_keys and sha = "\<lambda>s. s"]
      ex_mac_hex ex_log_ok by (auto simp: ex_log_def)
qed

text \<open>C19: an alteration of a sound chain by somebody without the secret is reported, except that its
  end is cut off.  A row with any field edited so that its message changes, the row after a deleted one,
  and both copies of a replayed one are listed by \<open>verify\<close>.  And whatever is done with the rows
  themselves, deleting, reordering, renumbering or replaying any of them, \<open>verify\<close> is silent
  exactly when what is left is a beginning of the chain in its order: nothing but the loss of the
  newest entries goes unseen, and that always does.\<close>

theorem alterations_are_detected:
  assumes "distinct (map ae_id rows)" "check_chain mac rows = []"
  shows "(rows = xs @ e # ys \<and> ae_id e' = ae_id e \<and> ae_hash e' = ae_hash e
        \<and> entry_message e' (ae_prev_hash e') \<noteq> entry_message e (ae_prev_hash e)
        \<and> inj_on mac {entry_message e' (ae_prev_hash e'), entry_message e (ae_prev_hash e)}
        \<longrightarrow> ae_id e \<in> set (verify_chain mac (xs @ e' # ys)))
    \<and> (rows = xs @ e # f # ys \<longrightarrow> ae_id f \<in> set (verify_chain mac (xs @ f # ys)))
    \<and> (e \<in> set rows \<and> i \<notin> ae_id ` set rows \<longrightarrow>
        {ae_id e, i} \<subseteq> set (verify_chain mac (rows @ [e\<lparr>ae_id := i\<rparr>])))
    \<and> (unnumbered ` set kept \<subseteq> unnumbered ` set rows \<and> distinct (map ae_id kept) \<longrightarrow>
        (verify_chain mac kept = [] \<longleftrightarrow> map unnumbered kept = map unnumbered (take (length kept) rows)))"
proof (intro conjI impI; (elim conjE)?)
  note sound = assms(2) [unfolded check_Nil [OF assms(1)]]
  have hash: "ae_hash x = compute_entry_hash mac x (ae_prev_hash x)" if "x \<in> set rows" for x
    using sound that by (auto simp: hashed_def list_all_iff)
  show "ae_id e \<in> set (verify_chain mac (xs @ e' # ys))"
    if r: "rows = xs @ e # ys" and e': "ae_id e' = ae_id e" "ae_hash e' = ae_hash e"
      and m: "entry_message e' (ae_prev_hash e') \<noteq> entry_message e (ae_prev_hash e)"
        "inj_on mac {entry_message e' (ae_prev_hash e'), entry_message e (ae_prev_hash e)}"
  proof -
    have "ae_hash e' \<noteq> compute_entry_hash mac e' (ae_prev_hash e')"
      using hash [of e] r e' m by (auto simp: compute_entry_hash_def)
    then have "ae_id e' \<in> set (verify_chain mac (xs @ e' # ys))"
      by (intro verify_member [OF refl, where b = "\<lparr>cb_id = ae_id e', cb_kind = Mutated, cb_related = []\<rparr>"])
        (simp_all add: classify_def Let_def)
    then show ?thesis using e' by simp
  qed
  show "ae_id f \<in> set (verify_chain mac (xs @ f # ys))" if r: "rows = xs @ e # f # ys"
  proof -
    let ?rows = "xs @ f # ys"
    have d: "distinct (map ae_hash rows)" "distinct (map ae_id ?rows)" using sound assms(1) r by auto
    have prev: "ae_prev_hash f = Some (ae_hash e)" using sound r by (simp add: linked_append)
    have gone: "ae_hash e \<notin> ae_hash ` set ?rows" using d(1) r by auto
    have tw: "filter (\<lambda>i. i \<noteq> ae_id f) (by_hash ?rows (ae_hash f)) = []"
    proof -
      have "distinct (map ae_hash ?rows)" using d(1) r by auto
      then show ?thesis using twins_none [OF d(2), of f] distinct_hash_iff [OF d(2)] by auto
    qed
    have "Some (ae_hash e) \<noteq> tail_hash xs"
      using gone by (auto simp: tail_hash_def split: if_splits)
    then show ?thesis
      using hash [of f] r prev tw gone
      by (intro verify_member [OF refl, where b = "\<lparr>cb_id = ae_id f, cb_kind = Dangling, cb_related = []\<rparr>"])
        (auto simp: classify_def Let_def by_hash_Nil)
  qed
  show "{ae_id e, i} \<subseteq> set (verify_chain mac (rows @ [e\<lparr>ae_id := i\<rparr>]))"
    if e: "e \<in> set rows" and i: "i \<notin> ae_id ` set rows"
  proof -
    let ?d = "e\<lparr>ae_id := i\<rparr>"
    obtain xs ys where r: "rows = xs @ e # ys" using e by (auto simp: in_set_conv_decomp)
    have same: "compute_entry_hash mac ?d (ae_prev_hash ?d) = compute_entry_hash mac e (ae_prev_hash e)"
      by (simp add: compute_entry_hash_def entry_message_def canonical_def)
    have ne: "i \<noteq> ae_id e" using e i by auto
    have t1: "i \<in> set (filter (\<lambda>j. j \<noteq> ae_id e) (by_hash (rows @ [?d]) (ae_hash e)))"
      and t2: "ae_id e \<in> set (filter (\<lambda>j. j \<noteq> i) (by_hash (rows @ [?d]) (ae_hash e)))"
      using e ne by (auto simp: by_hash_def)
    have "ae_id e \<in> set (verify_chain mac (rows @ [?d]))"
      by (rule verify_member [where xs = xs and ys = "ys @ [?d]", OF _ classify_twin [OF _ t1]])
        (simp_all add: r hash [OF e, symmetric])
    moreover have "ae_id ?d \<in> set (verify_chain mac (rows @ [?d]))"
      by (rule verify_member [where xs = rows and ys = "[]", OF _ classify_twin [where i = "ae_id e"]])
        (use t2 in \<open>simp_all add: same [simplified] hash [OF e, symmetric]\<close>)
    ultimately show ?thesis by simp
  qed
  show "verify_chain mac kept = [] \<longleftrightarrow> map unnumbered kept = map unnumbered (take (length kept) rows)"
    if "unnumbered ` set kept \<subseteq> unnumbered ` set rows" "distinct (map ae_id kept)"
    using copies_verify that sound by blast
qed

text \<open>A chain of two entries: replaying the first is reported, and so is losing it; losing the second is not.\<close>

theorem alterations_are_detected_witness:
  "let e = make_entry ex_mac (ex_cols ''create'') None 1; f = make_entry ex_mac (ex_cols ''create'') (Some (ae_hash e)) 2 in
     {1, 3} \<subseteq> set (verify_chain ex_mac ([e, f] @ [e\<lparr>ae_id := 3\<rparr>]))
     \<and> 2 \<in> set (verify_chain ex_mac [f]) \<and> verify_chain ex_mac [e] = []"
proof -
  define e where "e = make_entry ex_mac (ex_cols ''create'') None 1"
  define f where "f = make_entry ex_mac (ex_cols ''create'') (Some (ae_hash e)) 2"
  have id: "ae_id e = 1" "ae_id f = 2" by (simp_all add: e_def f_def)
  have ne: "ae_hash f \<noteq> ae_hash e"
    by (simp add: e_def f_def compute_entry_hash_def entry_message_def ex_mac_def)
  have ok: "check_chain ex_mac [e, f] = []"
    by (subst check_Nil) (use ne in \<open>simp_all add: hashed_def id, simp_all add: e_def f_def\<close>)
  have "{1, 3} \<subseteq> set (verify_chain ex_mac ([e, f] @ [e\<lparr>ae_id := 3\<rparr>]))" "2 \<in> set (verify_chain ex_mac [f])"
    using alterations_are_detected [of "[e, f]" ex_mac "[]" e "[]" e f 3 "[]"] ok by (simp_all add: id)
  moreover have "verify_chain ex_mac [e] = []"
    using alterations_are_detected [of "[e, f]" ex_mac "[]" e "[f]" e f 3 "[e]"] ok by (simp add: id)
  ultimately show ?thesis by (simp add: Let_def e_def f_def)
qed

text \<open>Two appends that read the same tail (the race the lock prevents) are a fork and nothing
  worse: the check names the second row as forked from the first, \<open>verify\<close> stays silent, and
  the report is \<open>forked\<close> until exactly that row is acknowledged and \<open>ok\<close> afterwards.\<close>

theorem race_is_reported_as_fork:
  fixes c1 c2 :: audit_entry
  assumes "log_ok l" "check_chain mac (al_rows l) = []"
  defines "l1 \<equiv> append_entry mac c1 (tail_hash (al_rows l)) l"
  defines "l2 \<equiv> append_entry mac c2 (tail_hash (al_rows l)) l1"
  assumes "distinct (map ae_hash (al_rows l2))"
  shows "check_chain mac (al_rows l2) = [\<lparr>cb_id = al_next l + 1, cb_kind = Forked, cb_related = [al_next l]\<rparr>]
    \<and> verify_chain mac (al_rows l2) = []
    \<and> cr_verdict (fresh_report mac {} now (al_rows l2)) = ForkedV
    \<and> cr_verdict (fresh_report mac {al_next l + 1} now (al_rows l2)) = OkV"
proof -
  let ?rows = "al_rows l" and ?p = "tail_hash (al_rows l)"
  let ?e1 = "make_entry mac c1 ?p (al_next l)" and ?e2 = "make_entry mac c2 ?p (al_next l + 1)"
  have r2: "al_rows l2 = ?rows @ [?e1, ?e2]" by (simp add: l1_def l2_def append_entry_def)
  have ids: "distinct (map ae_id (al_rows l2))"
    using append_entry_log_ok [OF append_entry_log_ok [OF assms(1)]] unfolding l1_def l2_def log_ok_def by blast
  have sound: "linked None ?rows" "hashed mac ?rows" "distinct (map ae_hash ?rows)"
    using assms(1,2) by (auto simp: check_Nil log_ok_def)
  have tw: "filter (\<lambda>i. i \<noteq> ae_id e) (by_hash (al_rows l2) (ae_hash e)) = []" if "e \<in> set (al_rows l2)" for e
    using twins_none [OF ids that] distinct_hash_iff [OF ids] assms(5) that by blast
  have pre: "scan_from mac (al_rows l2) None (?rows @ [?e1]) = []"
  proof -
    have "set (?rows @ [?e1]) \<subseteq> set (al_rows l2)" by (auto simp: r2)
    then have "\<forall>e\<in>set (?rows @ [?e1]). filter (\<lambda>i. i \<noteq> ae_id e) (by_hash (al_rows l2) (ae_hash e)) = []"
      using tw by blast
    moreover have "linked None (?rows @ [?e1]) \<and> hashed mac (?rows @ [?e1])"
      using sound by (simp add: linked_append hash_before_None hashed_def)
    ultimately show ?thesis unfolding scan_Nil by blast
  qed
  have sib: "filter (\<lambda>i. i \<noteq> al_next l + 1) (by_parent (al_rows l2) ?p) = [al_next l]"
  proof -
    have "filter (\<lambda>e. ae_prev_hash e = ?p) ?rows = []"
      using tail_not_parent [OF sound(1,3)] by (auto simp: filter_empty_conv)
    then show ?thesis by (simp add: by_parent_def r2)
  qed
  have par: "case ?p of None \<Rightarrow> True | Some h \<Rightarrow> by_hash (al_rows l2) h \<noteq> []"
    by (auto simp: tail_hash_def by_hash_Nil r2)
  have ne: "?p \<noteq> Some (ae_hash ?e1)"
    using assms(5) by (auto simp: r2 tail_hash_def split: if_splits)
  have scan: "check_chain mac (al_rows l2) = scan_from mac (al_rows l2) (Some (ae_hash ?e1)) [?e2]"
  proof -
    have "check_chain mac (al_rows l2) = scan_from mac (al_rows l2) None ((?rows @ [?e1]) @ [?e2])"
      by (simp add: check_chain_def r2)
    also have "\<dots> = scan_from mac (al_rows l2) None (?rows @ [?e1])
        @ scan_from mac (al_rows l2) (hash_before None (?rows @ [?e1])) [?e2]"
      by (rule scan_append)
    also have "hash_before None (?rows @ [?e1]) = Some (ae_hash ?e1)" by (simp add: hash_before_def)
    finally show ?thesis unfolding pre by (simp only: append.simps)
  qed
  have e2: "?e2 \<in> set (al_rows l2)" by (simp add: r2)
  have "classify (al_rows l2) ?e2 (compute_entry_hash mac ?e2 (ae_prev_hash ?e2)) (Some (ae_hash ?e1))
      = Some \<lparr>cb_id = al_next l + 1, cb_kind = Forked, cb_related = [al_next l]\<rparr>"
    using tw [OF e2] sib par ne unfolding classify_def Let_def
    by (simp only: make_entry_simps compute_make_entry simp_thms if_True if_False list.distinct refl)
  then have c: "check_chain mac (al_rows l2)
      = [\<lparr>cb_id = al_next l + 1, cb_kind = Forked, cb_related = [al_next l]\<rparr>]"
    using scan by (simp only: scan_from.simps option.case)
  then show ?thesis by (simp add: verify_chain_def fresh_report_def acknowledged_def Let_def)
qed

theorem race_is_reported_as_fork_witness:
  "verify_chain ex_mac (al_rows (append_entry ex_mac (ex_cols ''b'') None
     (append_entry ex_mac (ex_cols ''a'') None ex_log))) = []"
proof -
  have n: "tail_hash (al_rows ex_log) = None" by (simp add: ex_log_def tail_hash_def)
  have "distinct (map ae_hash (al_rows (append_entry ex_mac (ex_cols ''b'') None
     (append_entry ex_mac (ex_cols ''a'') None ex_log))))"
    by (simp add: append_entry_def ex_log_def compute_entry_hash_def entry_message_def canonical_def ex_mac_def
        ex_cols_def char_of_def)
  then show ?thesis
    using race_is_reported_as_fork [where l = ex_log and mac = ex_mac and ?c1.0 = "ex_cols ''a''" and ?c2.0 = "ex_cols ''b''"]
      ex_log_ok n by simp
qed

text \<open>An acknowledgement never hides tamper evidence: whatever ids are acknowledged, the verdict is
  \<open>tampered\<close> exactly when \<open>verify\<close> lists a row, and it is \<open>ok\<close> exactly when every anomaly is
  a fork that is acknowledged by its id.\<close>

theorem acknowledgement_never_hides_tampering:
  "let r = fresh_report mac acks now rows in
     (cr_verdict r = TamperedV \<longleftrightarrow> verify_chain mac rows \<noteq> [])
   \<and> (cr_verdict r = OkV \<longleftrightarrow> (\<forall>b\<in>set (check_chain mac rows). cb_kind b = Forked \<and> cb_id b \<in> acks))
   \<and> cr_rows r = length rows
   \<and> length (cr_findings r) + length (cr_acknowledged r) = length (check_chain mac rows)"
proof -
  have "length (filter (\<lambda>b. \<not> acknowledged acks b) bs) + length (filter (acknowledged acks) bs) = length bs" for bs
    using sum_length_filter_compl [of "acknowledged acks" bs] by simp
  moreover have "list_ex (\<lambda>b. cb_kind b \<noteq> Forked) (filter (\<lambda>b. \<not> acknowledged acks b) bs)
      \<longleftrightarrow> filter (\<lambda>b. cb_kind b \<noteq> Forked) bs \<noteq> []" for bs
    by (auto simp: list_ex_iff filter_empty_conv acknowledged_def)
  ultimately show ?thesis
    by (auto simp: fresh_report_def Let_def verify_chain_def filter_empty_conv acknowledged_def list_ex_iff)
qed

theorem acknowledgement_never_hides_tampering_witness:
  "cr_verdict (fresh_report ex_mac {1} 7 [(make_entry ex_mac (ex_cols ''a'') None 1)\<lparr>ae_kind := ''b''\<rparr>]) = TamperedV"
proof -
  let ?e = "(make_entry ex_mac (ex_cols ''a'') None 1)\<lparr>ae_kind := ''b''\<rparr>"
  have "compute_entry_hash ex_mac ?e None \<noteq> ae_hash ?e"
    by (simp add: compute_entry_hash_def entry_message_def canonical_def ex_mac_def ex_cols_def make_entry_def
        char_of_def)
  then have "verify_chain ex_mac [?e] \<noteq> []"
    by (simp add: verify_chain_def check_chain_def classify_def Let_def split: option.split)
  then show ?thesis using acknowledgement_never_hides_tampering [of ex_mac "{1}" 7 "[?e]"] by (simp add: Let_def)
qed

text \<open>The canonical message is not unambiguous.  A field that contains the unit separator can trade
  text with the next field: two different entries get the same hash under every secret, so
  such an edit is not detected.\<close>

theorem canonical_form_is_ambiguous:
  "let e = c\<lparr>ae_actor := a @ unit_sep @ b, ae_kind := k\<rparr>; e' = c\<lparr>ae_actor := a, ae_kind := b @ unit_sep @ k\<rparr> in
     e \<noteq> e' \<and> compute_entry_hash mac e p = compute_entry_hash mac e' p"
proof -
  have "ae_actor (c\<lparr>ae_actor := a @ unit_sep @ b, ae_kind := k\<rparr>) \<noteq> ae_actor (c\<lparr>ae_actor := a, ae_kind := b @ unit_sep @ k\<rparr>)"
    by (simp add: unit_sep_def)
  then have "c\<lparr>ae_actor := a @ unit_sep @ b, ae_kind := k\<rparr> \<noteq> c\<lparr>ae_actor := a, ae_kind := b @ unit_sep @ k\<rparr>" by metis
  then show ?thesis
    by (simp add: Let_def compute_entry_hash_def entry_message_def canonical_def)
qed

end
