(* ===== verification/AuditLock.thy ===== *)
theory AuditLock
  imports AuditChain
begin

text \<open>
  Concurrent appends to the audit chain, \<open>AuditStore.record\<close> as the database sees it: each caller's
  transaction is a program of statements, the scheduler interleaves the statements of any number of
  callers, and a transaction may be rolled back at any point.  Mutual exclusion is nothing the model
  gives: the database only keeps one holder of the lock, as it documents of the write lock of
  \<open>BEGIN IMMEDIATE\<close> and of an advisory lock; that every append asks for it, and before it reads the
  tail, is what \<open>_serialise_sqlite_appends\<close>, \<open>_lock_chain\<close> and \<open>record\<close> do.
\<close>

section \<open>Transactions\<close>

datatype dialect = Sqlite | Postgresql

datatype statement = Begin_tx | Lock_chain | Read_tail | Insert_entry int audit_entry | Commit_tx

record append_tx =
  tx_todo :: "statement list"
  tx_tail :: "string option"
  tx_row :: "audit_entry option"

definition idle_tx :: append_tx where
  "idle_tx = \<lparr>tx_todo = [], tx_tail = None, tx_row = None\<rparr>"

record chain_db =
  cd_log :: audit_log
  cd_holder :: "nat option"
  cd_tx :: "nat \<Rightarrow> append_tx"

text \<open>The statements of \<open>record\<close>, in its order.\<close>

definition append_program :: "int \<Rightarrow> audit_entry \<Rightarrow> statement list" where
  "append_program now cols = [Begin_tx, Lock_chain, Read_tail, Insert_entry now cols, Commit_tx]"

text \<open>The lock of the database: one holder, the others wait (\<open>None\<close>).\<close>

definition take_lock :: "nat \<Rightarrow> chain_db \<Rightarrow> chain_db option" where
  "take_lock p s = (if cd_holder s = None \<or> cd_holder s = Some p then Some (s\<lparr>cd_holder := Some p\<rparr>) else None)"

text \<open>SQLite's transactions open with \<open>BEGIN IMMEDIATE\<close>; PostgreSQL's take the advisory lock in
  \<open>_lock_chain\<close>.\<close>

definition begin_tx :: "dialect \<Rightarrow> nat \<Rightarrow> chain_db \<Rightarrow> chain_db option" where
  "begin_tx d p s = (if d = Sqlite then take_lock p s else Some s)"

definition lock_chain :: "dialect \<Rightarrow> nat \<Rightarrow> chain_db \<Rightarrow> chain_db option" where
  "lock_chain d p s = (if d = Postgresql then take_lock p s else Some s)"

definition with_tx :: "nat \<Rightarrow> (append_tx \<Rightarrow> append_tx) \<Rightarrow> chain_db \<Rightarrow> chain_db" where
  "with_tx p f s = s\<lparr>cd_tx := (cd_tx s)(p := f (cd_tx s p))\<rparr>"

text \<open>The end of a transaction, committed or rolled back, gives up the lock.\<close>

definition end_tx :: "nat \<Rightarrow> chain_db \<Rightarrow> chain_db" where
  "end_tx p s = with_tx p (\<lambda>_. idle_tx) (s\<lparr>cd_holder := (if cd_holder s = Some p then None else cd_holder s)\<rparr>)"

definition read_tail :: "nat \<Rightarrow> chain_db \<Rightarrow> chain_db" where
  "read_tail p s = with_tx p (tx_tail_update (\<lambda>_. tail_hash (al_rows (cd_log s)))) s"

text \<open>The flushed row has its id and is not visible to the others yet; an actor that cannot be redacted
  raises, which rolls back.\<close>

definition insert_entry ::
  "keystore \<Rightarrow> (string \<Rightarrow> string) \<Rightarrow> (string \<Rightarrow> string) \<Rightarrow> nat \<Rightarrow> int \<Rightarrow> audit_entry \<Rightarrow> chain_db \<Rightarrow> chain_db" where
  "insert_entry ks sha mac p now cols s = (case redact_actor ks sha (ae_actor cols) of
     Inl e \<Rightarrow> end_tx p s
   | Inr actor \<Rightarrow> with_tx p (tx_row_update (\<lambda>_. Some (make_entry mac (cols\<lparr>ae_ts := now, ae_actor := actor\<rparr>)
         (tx_tail (cd_tx s p)) (al_next (cd_log s)))))
       (s\<lparr>cd_log := (cd_log s)\<lparr>al_next := al_next (cd_log s) + 1\<rparr>\<rparr>))"

definition commit_tx :: "nat \<Rightarrow> chain_db \<Rightarrow> chain_db" where
  "commit_tx p s = end_tx p (case tx_row (cd_tx s p) of None \<Rightarrow> s
     | Some e \<Rightarrow> s\<lparr>cd_log := (cd_log s)\<lparr>al_rows := insort_key ae_id e (al_rows (cd_log s))\<rparr>\<rparr>)"

fun exec_statement ::
  "keystore \<Rightarrow> (string \<Rightarrow> string) \<Rightarrow> (string \<Rightarrow> string) \<Rightarrow> dialect \<Rightarrow> nat \<Rightarrow> statement \<Rightarrow> chain_db \<Rightarrow> chain_db option" where
  "exec_statement ks sha mac d p Begin_tx s = begin_tx d p s"
| "exec_statement ks sha mac d p Lock_chain s = lock_chain d p s"
| "exec_statement ks sha mac d p Read_tail s = Some (read_tail p s)"
| "exec_statement ks sha mac d p (Insert_entry now cols) s = Some (insert_entry ks sha mac p now cols s)"
| "exec_statement ks sha mac d p Commit_tx s = Some (commit_tx p s)"

section \<open>Schedules\<close>

text \<open>One move of the world: a caller that is idle calls \<open>record\<close>, a caller executes its next statement or
  goes on waiting, or its transaction is rolled back.\<close>

datatype append_move = Call nat int audit_entry | Step nat | Rollback nat

fun exec_move ::
  "keystore \<Rightarrow> (string \<Rightarrow> string) \<Rightarrow> (string \<Rightarrow> string) \<Rightarrow> dialect \<Rightarrow> chain_db \<Rightarrow> append_move \<Rightarrow> chain_db" where
  "exec_move ks sha mac d s (Call p now cols) = (if tx_todo (cd_tx s p) = []
     then with_tx p (\<lambda>_. idle_tx\<lparr>tx_todo := append_program now cols\<rparr>) s else s)"
| "exec_move ks sha mac d s (Step p) = (case tx_todo (cd_tx s p) of [] \<Rightarrow> s
     | st # rest \<Rightarrow> (case exec_statement ks sha mac d p st (with_tx p (tx_todo_update (\<lambda>_. rest)) s) of
         None \<Rightarrow> s | Some s' \<Rightarrow> s'))"
| "exec_move ks sha mac d s (Rollback p) = end_tx p s"

definition run_moves ::
  "keystore \<Rightarrow> (string \<Rightarrow> string) \<Rightarrow> (string \<Rightarrow> string) \<Rightarrow> dialect \<Rightarrow> append_move list \<Rightarrow> chain_db \<Rightarrow> chain_db" where
  "run_moves ks sha mac d moves s = foldl (exec_move ks sha mac d) s moves"

definition open_db :: "audit_log \<Rightarrow> chain_db" where
  "open_db l = \<lparr>cd_log = l, cd_holder = None, cd_tx = (\<lambda>_. idle_tx)\<rparr>"

section \<open>The invariant\<close>

text \<open>What a caller may rely on at each point of its program: from its read to its commit it holds the lock,
  what it read is still the tail, and the row it has flushed continues the chain.\<close>

definition tx_inv :: "(string \<Rightarrow> string) \<Rightarrow> dialect \<Rightarrow> audit_log \<Rightarrow> bool \<Rightarrow> append_tx \<Rightarrow> bool" where
  "tx_inv mac d l holds t = (tx_todo t = [] \<or> (\<exists>now cols.
     tx_todo t = [Begin_tx, Lock_chain, Read_tail, Insert_entry now cols, Commit_tx]
   \<or> tx_todo t = [Lock_chain, Read_tail, Insert_entry now cols, Commit_tx] \<and> (d = Sqlite \<longrightarrow> holds)
   \<or> tx_todo t = [Read_tail, Insert_entry now cols, Commit_tx] \<and> holds
   \<or> tx_todo t = [Insert_entry now cols, Commit_tx] \<and> holds \<and> tx_tail t = tail_hash (al_rows l)
   \<or> tx_todo t = [Commit_tx] \<and> holds \<and> (\<exists>c i. tx_row t = Some (make_entry mac c (tail_hash (al_rows l)) i)
       \<and> (\<forall>e\<in>set (al_rows l). ae_id e < i) \<and> i < al_next l)))"

definition chain_inv :: "(string \<Rightarrow> string) \<Rightarrow> audit_log \<Rightarrow> bool" where
  "chain_inv mac l = (log_ok l \<and> linked None (al_rows l) \<and> hashed mac (al_rows l))"

definition db_inv :: "(string \<Rightarrow> string) \<Rightarrow> dialect \<Rightarrow> chain_db \<Rightarrow> bool" where
  "db_inv mac d s = (chain_inv mac (cd_log s) \<and> (\<forall>p. tx_inv mac d (cd_log s) (cd_holder s = Some p) (cd_tx s p)))"

text \<open>What is before the read does not depend on the log.\<close>

lemma tx_inv_other: "tx_inv mac d l False t \<Longrightarrow> tx_inv mac d l' b t"
  by (auto simp: tx_inv_def)

lemma tx_inv_todo: "tx_inv mac d l b (t\<lparr>tx_todo := []\<rparr>)" "tx_inv mac d l b idle_tx"
  by (simp_all add: tx_inv_def idle_tx_def)

lemma db_invD: "db_inv mac d s \<Longrightarrow> tx_inv mac d (cd_log s) (cd_holder s = Some p) (cd_tx s p)"
  by (simp add: db_inv_def)

text \<open>A step of one caller: the others keep what they rely on if the log is unchanged, or if the caller is
  the holder, for then they rely on nothing.\<close>

lemma db_inv_step:
  assumes inv: "db_inv mac d s" and chain: "chain_inv mac l"
    and mine: "tx_inv mac d l (h = Some p) t"
    and others: "(h = cd_holder s \<or> cd_holder s = None \<and> h = Some p \<or> cd_holder s = Some p \<and> h = None)
      \<and> (cd_holder s = Some p \<or> l = cd_log s)"
  shows "db_inv mac d \<lparr>cd_log = l, cd_holder = h, cd_tx = (cd_tx s)(p := t)\<rparr>"
proof -
  have "tx_inv mac d l (h = Some q) (cd_tx s q)" if q: "q \<noteq> p" for q
  proof (cases "cd_holder s = Some q")
    case True
    then have "l = cd_log s" "h = Some q" using others q by auto
    then show ?thesis using db_invD [OF inv, of q] True by simp
  next
    case False
    then show ?thesis using tx_inv_other db_invD [OF inv, of q] by auto
  qed
  then show ?thesis using mine chain by (simp add: db_inv_def)
qed

lemma chain_inv_snoc:
  assumes "chain_inv mac l" and "\<forall>e\<in>set (al_rows l). ae_id e < i" "i < al_next l"
  shows "chain_inv mac (l\<lparr>al_rows := al_rows l @ [make_entry mac c (tail_hash (al_rows l)) i]\<rparr>)"
  using assms by (auto simp: chain_inv_def log_ok_def linked_append hash_before_None hashed_def list_all_iff)

lemma insort_at_end: "\<forall>x\<in>set xs. f x < f e \<Longrightarrow> insort_key f e xs = xs @ [e]" for f :: "'a \<Rightarrow> nat"
  by (induction xs) auto

lemma end_tx_inv: "db_inv mac d s \<Longrightarrow> db_inv mac d (end_tx p s)"
  using db_inv_step [of mac d s "cd_log s" "if cd_holder s = Some p then None else cd_holder s" p idle_tx]
  by (auto simp: end_tx_def with_tx_def tx_inv_todo db_inv_def)

lemma tx_todo_idle [simp]: "tx_todo idle_tx = []"
  by (simp add: idle_tx_def)

lemma set_tx_inv:
  assumes "db_inv mac d s" and "tx_inv mac d (cd_log s) (cd_holder s = Some p) (f (cd_tx s p))"
  shows "db_inv mac d (with_tx p f s)"
  using assms by (auto simp: db_inv_def with_tx_def)

lemma take_lock_inv:
  assumes inv: "db_inv mac d s" and "take_lock p (with_tx p f s) = Some s'"
    and "tx_inv mac d (cd_log s) True (f (cd_tx s p))"
  shows "db_inv mac d s'"
proof -
  have free: "cd_holder s = None \<or> cd_holder s = Some p"
    and s': "s' = (with_tx p f s)\<lparr>cd_holder := Some p\<rparr>"
    using assms(2) by (auto simp: take_lock_def with_tx_def split: if_splits)
  have "tx_inv mac d (cd_log s) (Some p = Some q) (((cd_tx s)(p := f (cd_tx s p))) q)" for q
  proof (cases "q = p")
    case False
    then have "cd_holder s \<noteq> Some q" using free by auto
    then show ?thesis using db_invD [OF inv, of q] False tx_inv_other by auto
  qed (simp add: assms(3))
  then show ?thesis using inv by (simp add: s' db_inv_def with_tx_def)
qed

lemma commit_inv:
  assumes inv: "db_inv mac d s" and hold: "cd_holder s = Some p"
    and row: "tx_row (cd_tx s p) = Some (make_entry mac c (tail_hash (al_rows (cd_log s))) i)"
      "\<forall>e\<in>set (al_rows (cd_log s)). ae_id e < i" "i < al_next (cd_log s)"
  shows "db_inv mac d (commit_tx p (with_tx p (tx_todo_update (\<lambda>_. [])) s))"
proof -
  let ?e = "make_entry mac c (tail_hash (al_rows (cd_log s))) i"
  let ?l = "(cd_log s)\<lparr>al_rows := al_rows (cd_log s) @ [?e]\<rparr>"
  have end_: "insort_key ae_id ?e (al_rows (cd_log s)) = al_rows (cd_log s) @ [?e]"
    by (rule insort_at_end) (simp add: row(2))
  have "commit_tx p (with_tx p (tx_todo_update (\<lambda>_. [])) s) = s\<lparr>cd_log := ?l, cd_holder := None, cd_tx := (cd_tx s)(p := idle_tx)\<rparr>"
    by (simp add: commit_tx_def end_tx_def with_tx_def hold row(1) end_)
  moreover have "chain_inv mac ?l" using chain_inv_snoc row(2,3) inv by (simp add: db_inv_def)
  moreover have "tx_inv mac d ?l (None = Some q) (((cd_tx s)(p := idle_tx)) q)" for q
    using db_invD [OF inv, of q] hold tx_inv_other by (auto simp: tx_inv_todo)
  ultimately show ?thesis by (simp add: db_inv_def)
qed

lemma insert_inv:
  assumes inv: "db_inv mac d s" and hold: "cd_holder s = Some p"
    and tail: "tx_tail (cd_tx s p) = tail_hash (al_rows (cd_log s))"
  shows "db_inv mac d (insert_entry ks sha mac p now cols (with_tx p (tx_todo_update (\<lambda>_. [Commit_tx])) s))"
proof (cases "redact_actor ks sha (ae_actor cols)")
  case (Inl e)
  have "end_tx p (with_tx p f s) = end_tx p s" for f by (simp add: end_tx_def with_tx_def)
  then show ?thesis using end_tx_inv [OF inv] Inl by (simp add: insert_entry_def)
next
  case (Inr actor)
  let ?l = "(cd_log s)\<lparr>al_next := al_next (cd_log s) + 1\<rparr>"
  let ?e = "make_entry mac (cols\<lparr>ae_ts := now, ae_actor := actor\<rparr>) (tail_hash (al_rows (cd_log s))) (al_next (cd_log s))"
  let ?t = "(cd_tx s p)\<lparr>tx_todo := [Commit_tx], tx_row := Some ?e\<rparr>"
  have "insert_entry ks sha mac p now cols (with_tx p (tx_todo_update (\<lambda>_. [Commit_tx])) s)
      = s\<lparr>cd_log := ?l, cd_tx := (cd_tx s)(p := ?t)\<rparr>"
    by (simp add: insert_entry_def Inr with_tx_def tail)
  moreover have "chain_inv mac (cd_log s)" using inv by (simp add: db_inv_def)
  then have "chain_inv mac ?l" and ids: "\<forall>e\<in>set (al_rows (cd_log s)). ae_id e < al_next (cd_log s)"
    by (auto simp: chain_inv_def log_ok_def list_all_iff)
  moreover have "tx_inv mac d ?l True ?t" using ids unfolding tx_inv_def by fastforce
  moreover have "tx_inv mac d ?l (cd_holder s = Some q) (cd_tx s q)" if "q \<noteq> p" for q
    using db_invD [OF inv, of q] hold that tx_inv_other by auto
  ultimately show ?thesis using hold by (simp add: db_inv_def)
qed

lemma step_inv:
  assumes inv: "db_inv mac d s"
  shows "db_inv mac d (exec_move ks sha mac d s (Step p))"
proof -
  let ?h = "cd_holder s = Some p" and ?t = "cd_tx s p"
  have next_inv: "db_inv mac d s'" if todo: "tx_todo ?t = st # rest"
    and run: "exec_statement ks sha mac d p st (with_tx p (tx_todo_update (\<lambda>_. rest)) s) = Some s'" for st rest s'
  proof -
    have "tx_inv mac d (cd_log s) ?h ?t" using inv by (rule db_invD)
    then consider now cols where "st = Begin_tx" "rest = [Lock_chain, Read_tail, Insert_entry now cols, Commit_tx]"
      | now cols where "st = Lock_chain" "rest = [Read_tail, Insert_entry now cols, Commit_tx]" "d = Sqlite \<longrightarrow> ?h"
      | now cols where "st = Read_tail" "rest = [Insert_entry now cols, Commit_tx]" ?h
      | now cols where "st = Insert_entry now cols" "rest = [Commit_tx]" ?h "tx_tail ?t = tail_hash (al_rows (cd_log s))"
      | c i where "st = Commit_tx" "rest = []" ?h "tx_row ?t = Some (make_entry mac c (tail_hash (al_rows (cd_log s))) i)"
          "\<forall>e\<in>set (al_rows (cd_log s)). ae_id e < i" "i < al_next (cd_log s)"
      using todo unfolding tx_inv_def by auto
    then show ?thesis
    proof cases
      case 1
      then show ?thesis using run take_lock_inv [OF inv, of p _ s'] set_tx_inv [OF inv, of p]
        by (cases d) (auto simp: begin_tx_def tx_inv_def)
    next
      case 2
      then show ?thesis using run take_lock_inv [OF inv, of p _ s'] set_tx_inv [OF inv, of p]
        by (cases d) (auto simp: lock_chain_def tx_inv_def)
    next
      case 3
      have "with_tx p (\<lambda>t. t\<lparr>tx_todo := rest, tx_tail := tail_hash (al_rows (cd_log s))\<rparr>) s = s'"
        using run 3 by (auto simp: read_tail_def with_tx_def)
      moreover have "db_inv mac d (with_tx p (\<lambda>t. t\<lparr>tx_todo := rest, tx_tail := tail_hash (al_rows (cd_log s))\<rparr>) s)"
        by (rule set_tx_inv [OF inv]) (use 3 in \<open>auto simp: tx_inv_def\<close>)
      ultimately show ?thesis by simp
    next
      case 4
      then show ?thesis using run insert_inv [OF inv 4(3,4)] by auto
    next
      case 5
      then show ?thesis using run commit_inv [OF inv 5(3-6)] by auto
    qed
  qed
  show ?thesis using inv by (auto simp: next_inv split: list.split option.split)
qed

lemma move_inv: "db_inv mac d s \<Longrightarrow> db_inv mac d (exec_move ks sha mac d s m)"
proof (cases m)
  case (Call p now cols)
  assume inv: "db_inv mac d s"
  have "tx_inv mac d l b (idle_tx\<lparr>tx_todo := append_program now cols\<rparr>)" for l b
    by (auto simp: tx_inv_def append_program_def)
  then show ?thesis using set_tx_inv [OF inv] inv by (simp add: Call)
qed (simp_all add: step_inv end_tx_inv del: exec_move.simps(2))

lemma run_moves_inv: "db_inv mac d s \<Longrightarrow> db_inv mac d (run_moves ks sha mac d moves s)"
  by (induction moves arbitrary: s) (auto simp: run_moves_def move_inv simp del: exec_move.simps)

section \<open>The log only grows\<close>

lemma rows_of_steps [simp]:
  "cd_log (with_tx p f s) = cd_log s" "cd_log (end_tx p s) = cd_log s" "cd_log (read_tail p s) = cd_log s"
  "al_rows (cd_log (insert_entry ks sha mac p now cols s)) = al_rows (cd_log s)"
  by (simp_all add: with_tx_def end_tx_def read_tail_def insert_entry_def split: sum.split)

lemma rows_of_locks:
  "take_lock p s = Some s' \<Longrightarrow> cd_log s' = cd_log s" "begin_tx d p s = Some s' \<Longrightarrow> cd_log s' = cd_log s"
  "lock_chain d p s = Some s' \<Longrightarrow> cd_log s' = cd_log s"
  by (auto simp: take_lock_def begin_tx_def lock_chain_def split: if_splits)

lemma commit_grows:
  assumes "db_inv mac d s" "tx_todo (cd_tx s p) = Commit_tx # rest"
  shows "\<exists>new. al_rows (cd_log (commit_tx p (with_tx p (tx_todo_update f) s))) = al_rows (cd_log s) @ new"
proof -
  obtain c i where row: "tx_row (cd_tx s p) = Some (make_entry mac c (tail_hash (al_rows (cd_log s))) i)"
    "\<forall>e\<in>set (al_rows (cd_log s)). ae_id e < i"
    using db_invD [OF assms(1), of p] assms(2) by (auto simp: tx_inv_def)
  have "insort_key ae_id (make_entry mac c (tail_hash (al_rows (cd_log s))) i) (al_rows (cd_log s))
      = al_rows (cd_log s) @ [make_entry mac c (tail_hash (al_rows (cd_log s))) i]"
    by (rule insort_at_end) (simp add: row(2))
  then show ?thesis using row(1) by (simp add: commit_tx_def) (simp add: with_tx_def)
qed

lemma move_grows:
  assumes "db_inv mac d s"
  shows "\<exists>new. al_rows (cd_log (exec_move ks sha mac d s m)) = al_rows (cd_log s) @ new"
proof (cases m)
  case (Step p)
  show ?thesis
  proof (cases "tx_todo (cd_tx s p)")
    case (Cons st rest)
    then show ?thesis using commit_grows [OF assms, of p rest] unfolding Step
      by (cases st) (auto dest: rows_of_locks split: option.split)
  qed (simp add: Step)
qed simp_all

lemma run_moves_grows:
  "db_inv mac d s \<Longrightarrow> \<exists>new. al_rows (cd_log (run_moves ks sha mac d moves s)) = al_rows (cd_log s) @ new"
proof (induction moves arbitrary: s)
  case (Cons m moves)
  from Cons.IH [OF move_inv [OF Cons.prems, of ks sha m]] move_grows [OF Cons.prems, of ks sha m]
  show ?case by (auto simp: run_moves_def simp del: exec_move.simps)
qed (simp add: run_moves_def)

text \<open>In a chain no two messages can be the same, so hashes repeat only when the HMAC collides.\<close>

lemma chain_hashes_distinct:
  assumes "hex_mac mac"
  shows "linked None rows \<Longrightarrow> hashed mac rows \<Longrightarrow> inj_on mac ((\<lambda>e. entry_message e (ae_prev_hash e)) ` set rows)
    \<Longrightarrow> distinct (map ae_hash rows)"
proof (induction rows rule: rev_induct)
  case (snoc e rows)
  have sound: "linked None rows" "hashed mac rows" and prev: "ae_prev_hash e = tail_hash rows"
    and hash: "ae_hash e = compute_entry_hash mac e (tail_hash rows)"
    using snoc.prems by (auto simp: linked_append hash_before_None hashed_def)
  have inj: "inj_on mac (insert (entry_message e (tail_hash rows)) ((\<lambda>e. entry_message e (ae_prev_hash e)) ` set rows))"
    using snoc.prems(3) prev by simp
  have d: "distinct (map ae_hash rows)" using snoc.IH [OF sound inj_on_subset [OF inj]] by blast
  then show ?case using fresh_hash [OF assms inj sound d] hash by simp
qed simp

section \<open>Properties\<close>

text \<open>A caller that has read the tail and not yet ended its transaction.\<close>

definition has_read :: "append_tx \<Rightarrow> bool" where
  "has_read t = (tx_todo t \<noteq> [] \<and> Read_tail \<notin> set (tx_todo t))"

text \<open>C20: However the transactions of any number of callers are interleaved and rolled back, on SQLite as
  on PostgreSQL, a sound chain stays one in which the check finds nothing, and what is committed is only
  ever added to its end: since each append takes the lock before it reads the tail, no two callers are
  ever between their read and the end of their transaction together.  The HMAC is a hex digest
  that does not collide on the messages of the chain.\<close>

theorem locked_appends_never_fork:
  assumes "hex_mac mac" "log_ok l" "check_chain mac (al_rows l) = []"
    and s: "s = run_moves ks sha mac d moves (open_db l)"
    and "inj_on mac ((\<lambda>e. entry_message e (ae_prev_hash e)) ` set (al_rows (cd_log s)))"
  shows "check_chain mac (al_rows (cd_log s)) = []
    \<and> (\<exists>new. al_rows (cd_log s) = al_rows l @ new)
    \<and> (\<forall>p q. has_read (cd_tx s p) \<and> has_read (cd_tx s q) \<longrightarrow> p = q)"
proof -
  have "db_inv mac d (open_db l)"
    using assms(2,3) by (auto simp: db_inv_def open_db_def chain_inv_def tx_inv_todo check_Nil log_ok_def)
  then have inv: "db_inv mac d s" and grows: "\<exists>new. al_rows (cd_log s) = al_rows l @ new"
    using run_moves_inv run_moves_grows unfolding s by (fastforce simp: open_db_def)+
  then have chain: "log_ok (cd_log s)" "linked None (al_rows (cd_log s))" "hashed mac (al_rows (cd_log s))"
    by (simp_all add: db_inv_def chain_inv_def)
  have holder: "cd_holder s = Some p" if "has_read (cd_tx s p)" for p
    using db_invD [OF inv, of p] that by (auto simp: tx_inv_def has_read_def)
  have "p = q" if "has_read (cd_tx s p)" "has_read (cd_tx s q)" for p q using holder [OF that(1)] holder [OF that(2)] by simp
  moreover have "check_chain mac (al_rows (cd_log s)) = []"
    using chain chain_hashes_distinct [OF assms(1) chain(2,3) assms(5)] by (simp add: check_Nil log_ok_def)
  ultimately show ?thesis using grows by blast
qed

text \<open>Two callers whose transactions are open at the same time: the second waits for the first twice.\<close>

definition ex_schedule :: "append_move list" where
  "ex_schedule = [Call 0 7 (ex_cols ''a''), Call 1 7 (ex_cols ''b''), Step 0, Step 1, Step 0, Step 1, Step 0, Step 0, Step 1,
     Step 0, Step 1, Step 1, Step 1, Step 1]"

theorem locked_appends_never_fork_witness:
  "let s = run_moves ex_keys (\<lambda>s. s) ex_mac Postgresql ex_schedule (open_db ex_log)
   in length (al_rows (cd_log s)) = 2 \<and> check_chain ex_mac (al_rows (cd_log s)) = []"
proof -
  define s where "s = run_moves ex_keys (\<lambda>s. s) ex_mac Postgresql ex_schedule (open_db ex_log)"
  have actor: "redact_actor ex_keys (\<lambda>s. s) ''system'' = Inr ''system''"
    by (simp add: redact_actor_def scopes_for_def ex_keys_eq secret_matches_def is_ascii_def key_shaped_def chomp_def Let_def)
  let ?a = "(ex_cols ''a'')\<lparr>ae_ts := 7\<rparr>" and ?b = "(ex_cols ''b'')\<lparr>ae_ts := 7\<rparr>"
  have sys: "ae_actor (ex_cols k) = ''system''" "(ex_cols k)\<lparr>ae_ts := 7, ae_actor := ''system''\<rparr> = (ex_cols k)\<lparr>ae_ts := 7\<rparr>" for k
    by (simp_all add: ex_cols_def)
  have rows: "al_rows (cd_log s) = [make_entry ex_mac ?a None 1, make_entry ex_mac ?b (Some (compute_entry_hash ex_mac ?a None)) 2]"
    by (simp add: s_def run_moves_def ex_schedule_def open_db_def idle_tx_def with_tx_def append_program_def begin_tx_def lock_chain_def
      take_lock_def read_tail_def insert_entry_def commit_tx_def end_tx_def sys actor ex_log_def tail_hash_def numeral_2_eq_2)
  have "ex_mac (entry_message ?a None) \<noteq> ex_mac (entry_message ?b (Some (compute_entry_hash ex_mac ?a None)))"
    by (rule notI, drule arg_cong [where f = length])
      (simp add: ex_mac_def entry_message_def canonical_def ex_cols_def compute_entry_hash_def)
  then have "inj_on ex_mac ((\<lambda>e. entry_message e (ae_prev_hash e)) ` set (al_rows (cd_log s)))"
    by (auto simp: rows entry_message_def)
  then have "check_chain ex_mac (al_rows (cd_log s)) = []"
    using locked_appends_never_fork [OF ex_mac_hex _ _ s_def] ex_log_ok by blast
  then show ?thesis using rows by (simp add: s_def Let_def)
qed

end
