(* ===== verification/GitConfig.thy ===== *)
theory GitConfig
  imports Table
begin

text \<open>
  The git configuration of a tenant, \<open>git_config.py\<close> and the validation and view half of
  \<open>git_connections.py\<close>: what a configuration write may contain, the provider-qualified
  repository reference, the derived status, and the target a stored repository, the legacy
  row or the environment describes.  Provider names are the code's strings.  A rejected
  configuration is \<open>GitConfigError\<close> with the reason in place of the message.
\<close>

section \<open>Providers, errors, settings\<close>

definition GITHUB :: string where "GITHUB = ''github''"
definition GITLAB :: string where "GITLAB = ''gitlab''"
definition AZURE_DEVOPS :: string where "AZURE_DEVOPS = ''azure_devops''"

definition SUPPORTED_PROVIDERS :: "string list" where
  "SUPPORTED_PROVIDERS = [GITHUB, GITLAB, AZURE_DEVOPS]"

definition PROVIDER_DEFAULT_BASE_URL :: "(string, string) dict" where
  "PROVIDER_DEFAULT_BASE_URL = [(GITHUB, ''https://api.github.com''), (GITLAB, ''https://gitlab.com''),
     (AZURE_DEVOPS, ''https://dev.azure.com'')]"

datatype config_reason =
    UnknownProvider
  | BadProject string
  | BadAzureProject string
  | BadBaseUrl
  | IntakeLabel string
  | LabelTooLong
  | ProjectRequired
  | ProjectCleared
  | DuplicateConnection string string
  | DuplicateRepository "string option"

datatype git_error = GitConfigError config_reason | GitResourceNotFoundError

text \<open>The settings the configuration layer reads.\<close>

record git_settings =
  st_git_provider :: string
  st_git_provider_url :: "string option"
  st_github_api_url :: string
  st_github_repo :: "string option"
  st_intake_project_id :: "string option"
  st_git_provider_token :: "string option"
  st_github_token :: "string option"

text \<open>The masked view of a credential.  The token itself is fetched elsewhere.\<close>

datatype cred_source = SrcTenant | SrcEnv | SrcInstall | SrcNone

record cred_info =
  ci_configured :: bool
  ci_source :: cred_source
  ci_updated_at :: "int option"
  ci_key_version :: "string option"

definition NO_CREDENTIAL :: cred_info where
  "NO_CREDENTIAL = \<lparr>ci_configured = False, ci_source = SrcNone, ci_updated_at = None, ci_key_version = None\<rparr>"

definition env_credential :: "string option \<Rightarrow> cred_info" where
  "env_credential token = (if truthy token
     then \<lparr>ci_configured = True, ci_source = SrcEnv, ci_updated_at = None, ci_key_version = None\<rparr>
     else NO_CREDENTIAL)"

definition provider_token :: "git_settings \<Rightarrow> string option" where
  "provider_token st = py_or (st_git_provider_token st) (st_github_token st)"

section \<open>Validation\<close>

fun or_empty :: "string option \<Rightarrow> string" where
  "or_empty None = []"
| "or_empty (Some s) = s"

text \<open>\<open>s.strip() or None\<close>.\<close>

definition blank_none :: "string \<Rightarrow> string option" where
  "blank_none s = (if strip s = [] then None else Some (strip s))"

definition validate_provider :: "string option \<Rightarrow> git_error + string" where
  "validate_provider provider =
    (let kind = lower (strip (or_empty provider))
     in if kind \<in> set SUPPORTED_PROVIDERS then Inr kind else Inl (GitConfigError UnknownProvider))"

text \<open>One path segment of \<open>PROJECT_RE\<close>: characters of the class, an alphanumeric among them; a
  project is at least two segments.  The pattern is matched on a stripped value, so the final
  \<open>$\<close> has no newline to skip.\<close>

definition seg_char :: "char \<Rightarrow> bool" where
  "seg_char c = (alnum c \<or> c = CHR ''_'' \<or> c = CHR ''.'' \<or> c = CHR ''-'')"

definition path_segment :: "string \<Rightarrow> bool" where
  "path_segment w = (list_all seg_char w \<and> list_ex alnum w)"

definition path_parts :: "string \<Rightarrow> string list" where
  "path_parts v = split_on (\<lambda>c. c = CHR ''/'') v"

definition project_re :: "string \<Rightarrow> bool" where
  "project_re v = (length (path_parts v) \<ge> 2 \<and> list_all path_segment (path_parts v))"

definition validate_project :: "string option \<Rightarrow> string \<Rightarrow> string \<Rightarrow> git_error + string option" where
  "validate_project project provider field_name =
    (let v = strip (or_empty project)
     in if v = [] then Inr None
        else if \<not> project_re v then Inl (GitConfigError (BadProject field_name))
        else if provider = AZURE_DEVOPS \<and> length (path_parts v) \<noteq> 3 then Inl (GitConfigError (BadAzureProject field_name))
        else Inr (Some v))"

definition rstrip_char :: "char \<Rightarrow> string \<Rightarrow> string" where
  "rstrip_char c s = rev (dropWhile (\<lambda>x. x = c) (rev s))"

definition validate_base_url :: "string option \<Rightarrow> git_error + string option" where
  "validate_base_url base_url =
    (let v = rstrip_char (CHR ''/'') (strip (or_empty base_url))
     in if v = [] then Inr None
        else if startswith v ''http://'' \<or> startswith v ''https://'' then Inr (Some v)
        else Inl (GitConfigError BadBaseUrl))"

definition validate_labels :: "string list \<Rightarrow> git_error + string list" where
  "validate_labels labels =
    (let cleaned = map strip (filter (\<lambda>l. l \<noteq> [] \<and> strip l \<noteq> []) labels);
         intake = filter (\<lambda>l. startswith (lower l) ''factory:'') cleaned
     in case intake of [] \<Rightarrow> Inr cleaned | l # _ \<Rightarrow> Inl (GitConfigError (IntakeLabel l)))"

definition validate_label :: "string option \<Rightarrow> string \<Rightarrow> git_error + string" where
  "validate_label label provider =
    (let v = strip (or_empty label)
     in if length v > 128 then Inl (GitConfigError LabelTooLong) else Inr (if v = [] then provider else v))"

record config_update =
  cu_provider :: string
  cu_base_url :: "string option"
  cu_project :: "string option"
  cu_intake_project :: "string option"
  cu_aifactory_project_id :: "string option"
  cu_default_labels :: "string list"

text \<open>The stored columns of a configuration write.  The verification columns, which every write
  clears, are kept in the record so that the clearing is visible.\<close>

record config_fields = config_update +
  cf_verified_at :: "int option"
  cf_verify_error :: "string option"
  cf_credential_rejected :: "bool option"

definition validated_fields :: "config_update \<Rightarrow> git_error + config_fields" where
  "validated_fields u =
    res_bind (validate_provider (Some (cu_provider u))) (\<lambda>provider.
    res_bind (validate_base_url (cu_base_url u)) (\<lambda>base_url.
    res_bind (validate_project (cu_project u) provider ''project'') (\<lambda>project.
    res_bind (validate_project (cu_intake_project u) provider ''intake_project'') (\<lambda>intake.
    res_bind (validate_labels (cu_default_labels u)) (\<lambda>labels.
      Inr \<lparr>cu_provider = provider, cu_base_url = base_url, cu_project = project, cu_intake_project = intake,
           cu_aifactory_project_id = blank_none (or_empty (cu_aifactory_project_id u)), cu_default_labels = labels,
           cf_verified_at = None, cf_verify_error = None, cf_credential_rejected = None\<rparr>)))))"

section \<open>Repository references\<close>

definition qualify_repo :: "string option \<Rightarrow> string option \<Rightarrow> string option" where
  "qualify_repo provider project =
    (if \<not> truthy project then None
     else (let kind = lower (strip (or_empty (py_or provider (Some GITHUB))))
           in Some (if kind = GITHUB then the project else kind @ '':'' @ the project)))"

definition parse_repo_ref :: "string option \<Rightarrow> (string \<times> string) option" where
  "parse_repo_ref ref =
    (let v = strip (or_empty ref); head = lower (strip (before_char (CHR '':'') v));
         tail = strip (after_char (CHR '':'') v)
     in if v = [] then None
        else if CHR '':'' \<in> set v \<and> head \<in> set SUPPORTED_PROVIDERS \<and> tail \<noteq> [] then Some (head, tail)
        else Some (GITHUB, v))"

section \<open>Status and targets\<close>

datatype git_status = UNCONFIGURED | CONFIGURED | CREDENTIAL_MISSING | VERIFIED

definition derive_status :: "string option \<Rightarrow> bool \<Rightarrow> int option \<Rightarrow> bool option \<Rightarrow> git_status" where
  "derive_status project has_credential verified_at rejected =
    (if \<not> truthy project then UNCONFIGURED
     else if \<not> has_credential \<or> rejected = Some True then CREDENTIAL_MISSING
     else if verified_at \<noteq> None then VERIFIED else CONFIGURED)"

record git_target =
  gt_tenant :: string
  gt_provider :: string
  gt_base_url :: string
  gt_project :: "string option"
  gt_import_project :: "string option"
  gt_aifactory_project_id :: "string option"
  gt_default_labels :: "string list"
  gt_credential :: cred_info
  gt_stored :: bool
  gt_verified_at :: "int option"
  gt_verify_error :: "string option"
  gt_credential_rejected :: "bool option"
  gt_connection_id :: "nat option"
  gt_repository_id :: "nat option"

definition target_status :: "git_target \<Rightarrow> git_status" where
  "target_status t = derive_status (gt_project t) (ci_configured (gt_credential t)) (gt_verified_at t) (gt_credential_rejected t)"

definition default_base_url :: "string \<Rightarrow> string" where
  "default_base_url provider = or_empty (dget PROVIDER_DEFAULT_BASE_URL provider)"

definition resolved_base_url :: "string \<Rightarrow> string \<Rightarrow> string" where
  "resolved_base_url provider base_url = (if base_url = [] then default_base_url provider else base_url)"

text \<open>\<open>(provider or GITHUB).strip().lower()\<close>.\<close>

definition provider_kind :: "string \<Rightarrow> string" where
  "provider_kind provider = lower (strip (if provider = [] then GITHUB else provider))"

text \<open>The labels of a JSON column that are strings.\<close>

fun str_labels :: "json list \<Rightarrow> string list" where
  "str_labels [] = []"
| "str_labels (JStr s # ls) = s # str_labels ls"
| "str_labels (_ # ls) = str_labels ls"

definition target_from_settings :: "git_settings \<Rightarrow> string \<Rightarrow> cred_info option \<Rightarrow> git_target" where
  "target_from_settings st tenant credential =
    (let provider = provider_kind (st_git_provider st);
         project = blank_none (or_empty (st_github_repo st))
     in \<lparr>gt_tenant = tenant, gt_provider = provider,
         gt_base_url = (if truthy (st_git_provider_url st) then the (st_git_provider_url st)
           else if provider = GITHUB \<and> st_github_api_url st \<noteq> [] then st_github_api_url st
           else default_base_url provider),
         gt_project = project, gt_import_project = project,
         gt_aifactory_project_id = blank_none (or_empty (st_intake_project_id st)), gt_default_labels = [],
         gt_credential = (case credential of Some c \<Rightarrow> c | None \<Rightarrow> env_credential (provider_token st)),
         gt_stored = False, gt_verified_at = None, gt_verify_error = None, gt_credential_rejected = None,
         gt_connection_id = None, gt_repository_id = None\<rparr>)"

record config_row =
  cr_tenant :: string
  cr_provider :: string
  cr_base_url :: "string option"
  cr_project :: "string option"
  cr_intake_project :: "string option"
  cr_aifactory_project_id :: "string option"
  cr_default_labels :: "json list"
  cr_verified_at :: "int option"
  cr_verify_error :: "string option"
  cr_credential_rejected :: "bool option"

definition target_from_row :: "config_row \<Rightarrow> git_settings \<Rightarrow> cred_info option \<Rightarrow> git_target" where
  "target_from_row row st credential =
    (let provider = provider_kind (cr_provider row)
     in \<lparr>gt_tenant = cr_tenant row, gt_provider = provider,
         gt_base_url = resolved_base_url provider (or_empty (cr_base_url row)),
         gt_project = cr_project row, gt_import_project = py_or (cr_intake_project row) (cr_project row),
         gt_aifactory_project_id = cr_aifactory_project_id row, gt_default_labels = str_labels (cr_default_labels row),
         gt_credential = (case credential of Some c \<Rightarrow> c | None \<Rightarrow> env_credential (provider_token st)),
         gt_stored = True, gt_verified_at = cr_verified_at row, gt_verify_error = cr_verify_error row,
         gt_credential_rejected = cr_credential_rejected row, gt_connection_id = None, gt_repository_id = None\<rparr>)"

record git_config =
  gg_tenant :: string
  gg_provider :: string
  gg_base_url :: string
  gg_project :: "string option"
  gg_intake_project :: "string option"
  gg_aifactory_project_id :: "string option"
  gg_default_labels :: "string list"
  gg_status :: git_status
  gg_credential :: cred_info
  gg_verified_at :: "int option"
  gg_verify_error :: "string option"
  gg_stored :: bool

definition config_view :: "git_target \<Rightarrow> git_config" where
  "config_view t = \<lparr>gg_tenant = gt_tenant t, gg_provider = gt_provider t, gg_base_url = gt_base_url t, gg_project = gt_project t,
     gg_intake_project = (if gt_import_project t \<noteq> gt_project t then gt_import_project t else None),
     gg_aifactory_project_id = gt_aifactory_project_id t, gg_default_labels = gt_default_labels t,
     gg_status = target_status t, gg_credential = gt_credential t, gg_verified_at = gt_verified_at t,
     gg_verify_error = gt_verify_error t, gg_stored = gt_stored t\<rparr>"

section \<open>Properties\<close>

lemma dropWhile_none: "\<forall>c\<in>set s. \<not> p c \<Longrightarrow> dropWhile p s = s"
  by (cases s) auto

lemma strip_id: "\<forall>c\<in>set s. \<not> isspace c \<Longrightarrow> strip s = s"
  by (simp add: strip_def strip_by_def dropWhile_none)

lemma split_on_pieces: "c \<in> set s \<Longrightarrow> \<not> p c \<Longrightarrow> \<exists>w\<in>set (split_on p s). c \<in> set w"
proof (induction s)
  case (Cons a s)
  obtain w ws where "split_on p s = w # ws" by (rule split_on_ConsE)
  then show ?case using Cons by (auto split: if_splits)
qed simp

lemma seg_char_not: "seg_char c \<Longrightarrow> \<not> isspace c \<and> c \<noteq> CHR '':'' \<and> c \<noteq> CHR ''/''"
  by (auto simp: seg_char_def alnum_def isspace_def Let_def)

text \<open>Every character of an accepted project path is of the class or a slash, so there is no space
  to strip and no colon to read as a qualification.\<close>

lemma project_re_chars:
  assumes "project_re v" "c \<in> set v"
  shows "\<not> isspace c \<and> c \<noteq> CHR '':''"
proof (cases "c = CHR ''/''")
  case True
  then show ?thesis by (simp add: isspace_def Let_def)
next
  case False
  then obtain w where "w \<in> set (path_parts v)" "c \<in> set w"
    using split_on_pieces [of c v "\<lambda>c. c = CHR ''/''"] assms(2) by (auto simp: path_parts_def)
  then show ?thesis using assms(1) seg_char_not
    by (auto simp: project_re_def path_segment_def list_all_iff)
qed

lemma validate_project_Some:
  assumes "validate_project p prov f = Inr (Some v)"
  shows "project_re v" "v \<noteq> []" "strip v = v" "prov = AZURE_DEVOPS \<longrightarrow> length (path_parts v) = 3"
proof -
  show re: "project_re v" and "v \<noteq> []" "prov = AZURE_DEVOPS \<longrightarrow> length (path_parts v) = 3"
    using assms by (auto simp: validate_project_def Let_def split: if_splits)
  show "strip v = v" using project_re_chars [OF re] by (intro strip_id) blast
qed

lemma before_after_char: "\<forall>x\<in>set a. x \<noteq> c \<Longrightarrow> before_char c (a @ c # b) = a \<and> after_char c (a @ c # b) = b"
  by (simp add: before_char_def after_char_def takeWhile_append2 dropWhile_append2)

lemma supported_kind:
  "prov \<in> set SUPPORTED_PROVIDERS \<Longrightarrow> lower (strip prov) = prov \<and> (\<forall>c\<in>set prov. c \<noteq> CHR '':'' \<and> \<not> isspace c) \<and> prov \<noteq> []"
  by (auto simp: SUPPORTED_PROVIDERS_def GITHUB_def GITLAB_def AZURE_DEVOPS_def eval_str)

text \<open>A project path a configuration write accepts is one every consumer reads back.  Accepting
  it again changes nothing; it has at least two segments and none is empty or a dot path, so
  it cannot climb out of a request path; and qualified with the provider for a contract it
  parses to that provider and that path.\<close>

theorem accepted_project_roundtrips:
  assumes "validate_project p prov f = Inr (Some v)" "prov \<in> set SUPPORTED_PROVIDERS"
  shows "validate_project (Some v) prov f = Inr (Some v)
    \<and> 2 \<le> length (path_parts v) \<and> {[], ''.'', ''..''} \<inter> set (path_parts v) = {}
    \<and> parse_repo_ref (qualify_repo (Some prov) (Some v)) = Some (prov, v)"
proof -
  note v = validate_project_Some [OF assms(1)]
  note k = supported_kind [OF assms(2)]
  have again: "validate_project (Some v) prov f = Inr (Some v)" using v by (simp add: validate_project_def)
  have segs: "2 \<le> length (path_parts v)" "\<And>w. w \<in> set (path_parts v) \<Longrightarrow> list_ex alnum w"
    using v(1) by (auto simp: project_re_def list_all_iff path_segment_def)
  have "\<not> list_ex alnum w" if "w \<in> {[], ''.'', ''..''}" for w using that by (auto simp: alnum_def)
  then have dots: "{[], ''.'', ''..''} \<inter> set (path_parts v) = {}" using segs(2) by blast
  have "parse_repo_ref (qualify_repo (Some prov) (Some v)) = Some (prov, v)"
  proof (cases "prov = GITHUB")
    case True
    have "CHR '':'' \<notin> set v" using project_re_chars [OF v(1)] by blast
    then show ?thesis using True v k by (simp add: qualify_repo_def parse_repo_ref_def)
  next
    case False
    have q: "qualify_repo (Some prov) (Some v) = Some (prov @ CHR '':'' # v)"
      using False v k by (simp add: qualify_repo_def)
    have "strip (prov @ CHR '':'' # v) = prov @ CHR '':'' # v"
      using k project_re_chars [OF v(1)] by (intro strip_id) (auto simp: isspace_def)
    then show ?thesis unfolding q using before_after_char [of prov "CHR '':''" v] k v assms(2)
      by (simp add: parse_repo_ref_def)
  qed
  then show ?thesis using again segs(1) dots by blast
qed

theorem accepted_project_roundtrips_witness:
  "parse_repo_ref (qualify_repo (Some ''gitlab'') (Some ''acme/web-app'')) = Some (''gitlab'', ''acme/web-app'')"
proof -
  have "validate_project (Some ''acme/web-app'') ''gitlab'' ''project'' = Inr (Some ''acme/web-app'')"
    by (simp add: validate_project_def project_re_def path_parts_def path_segment_def seg_char_def alnum_def
        eval_str AZURE_DEVOPS_def)
  from accepted_project_roundtrips [OF this] show ?thesis by (simp add: SUPPORTED_PROVIDERS_def GITLAB_def)
qed

end
