(* ===== verification/Vault.thy ===== *)
theory Vault
  imports Prelude
begin

text \<open>
  Sealed git credentials, \<open>credentials.py\<close>: the key ring read from the environment and the
  envelope encryption of one credential per connection.  Bytes are characters.  \<open>AESGCM\<close> is a
  pair of functions: \<open>enc key nonce plaintext aad\<close>, and \<open>dec key nonce ciphertext aad\<close>, which
  is \<open>None\<close> for \<open>InvalidTag\<close>; \<open>aead_ok\<close> states what the cipher documents.  The random nonces
  and the data key are arguments.
\<close>

datatype credential_error =
    BadKeyId nat
  | BadBase64 nat
  | BadKeyLength nat nat
  | DuplicateKeyId
  | NoKeyConfigured
  | Truncated string
  | DidNotDecrypt string
  | KeyNotHeld string
  | NotUtf8

type_synonym aead_enc = "string \<Rightarrow> string \<Rightarrow> string \<Rightarrow> string \<Rightarrow> string"
type_synonym aead_dec = "string \<Rightarrow> string \<Rightarrow> string \<Rightarrow> string \<Rightarrow> string option"

section \<open>Encodings\<close>

fun utf8_encode :: "string \<Rightarrow> string" where
  "utf8_encode [] = []"
| "utf8_encode (c # cs) = (let n = (of_char c :: nat) in
     if n < 128 then c # utf8_encode cs
     else char_of (192 + n div 64) # char_of (128 + n mod 64) # utf8_encode cs)"

text \<open>The inverse on one- and two-byte sequences, the ones \<open>utf8_encode\<close> produces.\<close>

fun utf8_decode :: "string \<Rightarrow> string option" where
  "utf8_decode [] = Some []"
| "utf8_decode (c # cs) = (let n = (of_char c :: nat) in
     if n < 128 then map_option (\<lambda>r. c # r) (utf8_decode cs)
     else if 194 \<le> n \<and> n < 196 then
       (case cs of [] \<Rightarrow> None
        | d # ds \<Rightarrow> (let m = (of_char d :: nat) in
            if 128 \<le> m \<and> m < 192
            then map_option (\<lambda>r. char_of ((n - 192) * 64 + (m - 128)) # r) (utf8_decode ds)
            else None))
     else None)"

definition b64_val :: "char \<Rightarrow> nat option" where
  "b64_val c = (let n = (of_char c :: nat) in
     if 65 \<le> n \<and> n \<le> 90 then Some (n - 65)
     else if 97 \<le> n \<and> n \<le> 122 then Some (n - 71)
     else if 48 \<le> n \<and> n \<le> 57 then Some (n + 4)
     else if n = 43 then Some 62 else if n = 47 then Some 63 else None)"

fun b64_decode :: "string \<Rightarrow> string option" where
  "b64_decode [] = Some []"
| "b64_decode (a # b # c # d # rest) =
     (case (b64_val a, b64_val b) of
        (Some x, Some y) \<Rightarrow>
          if c = CHR ''='' \<and> d = CHR ''='' then
            (if rest = [] then Some [char_of (x * 4 + y div 16)] else None)
          else (case b64_val c of
             None \<Rightarrow> None
           | Some z \<Rightarrow>
               if d = CHR ''='' then
                 (if rest = [] then Some [char_of (x * 4 + y div 16), char_of (y mod 16 * 16 + z div 4)] else None)
               else (case b64_val d of
                  None \<Rightarrow> None
                | Some w \<Rightarrow> map_option (\<lambda>r. [char_of (x * 4 + y div 16), char_of (y mod 16 * 16 + z div 4),
                    char_of (z mod 4 * 64 + w)] @ r) (b64_decode rest)))
      | _ \<Rightarrow> None)"
| "b64_decode _ = None"

section \<open>The key ring\<close>

type_synonym keyring = "(string \<times> string) list"

definition active_key :: "keyring \<Rightarrow> string \<times> string" where
  "active_key ring = hd ring"

definition find_key :: "keyring \<Rightarrow> string \<Rightarrow> string option" where
  "find_key ring key_id = map_option snd (List.find (\<lambda>p. fst p = key_id) ring)"

definition decode_key :: "string \<Rightarrow> nat \<Rightarrow> credential_error + (string \<times> string)" where
  "decode_key spec position =
    (let has = (CHR '':'' \<in> set spec);
         key_id = strip (if has then takeWhile (\<lambda>c. c \<noteq> CHR '':'') spec else ''v1'');
         material = (if has then drop 1 (dropWhile (\<lambda>c. c \<noteq> CHR '':'') spec) else spec)
     in if key_id = [] \<or> length key_id > 32 then Inl (BadKeyId position)
        else (case b64_decode (strip material) of
            None \<Rightarrow> Inl (BadBase64 position)
          | Some raw \<Rightarrow> if length raw \<noteq> 32 then Inl (BadKeyLength position (length raw))
                        else Inr (key_id, raw)))"

fun decode_keys :: "string list \<Rightarrow> nat \<Rightarrow> credential_error + keyring" where
  "decode_keys [] position = Inr []"
| "decode_keys (e # es) position = res_bind (decode_key e position) (\<lambda>k.
     res_bind (decode_keys es (position + 1)) (\<lambda>ks. Inr (k # ks)))"

definition load_keyring :: "string option \<Rightarrow> credential_error + keyring option" where
  "load_keyring credential_key =
    (let spec = strip (case credential_key of None \<Rightarrow> [] | Some s \<Rightarrow> s);
         entries = filter (\<lambda>p. p \<noteq> []) (map strip (split_on (\<lambda>c. c = CHR '','') spec))
     in if spec = [] then Inr None
        else res_bind (decode_keys entries 1) (\<lambda>keys.
          if keys = [] then Inr None
          else if \<not> distinct (map fst keys) then Inl DuplicateKeyId
          else Inr (Some keys)))"

definition require_keyring :: "string option \<Rightarrow> credential_error + keyring" where
  "require_keyring credential_key = res_bind (load_keyring credential_key) (\<lambda>k.
     case k of None \<Rightarrow> Inl NoKeyConfigured | Some ring \<Rightarrow> Inr ring)"

section \<open>Sealing\<close>

record sealed =
  sl_key_version :: string
  sl_wrapped_key :: string
  sl_ciphertext :: string
  sl_aad_version :: nat

definition aad_scope :: "string \<Rightarrow> nat option \<Rightarrow> string" where
  "aad_scope tenant connection = (case connection of
     None \<Rightarrow> tenant
   | Some c \<Rightarrow> digits_of_nat (length tenant) @ '':'' @ tenant @ ''/'' @ digits_of_nat c)"

definition kek_aad :: "string \<Rightarrow> string \<Rightarrow> nat option \<Rightarrow> string" where
  "kek_aad tenant key_version connection =
     utf8_encode (''cfactory/git-credential/kek/'' @ aad_scope tenant connection @ ''/'' @ key_version)"

definition dek_aad :: "string \<Rightarrow> nat option \<Rightarrow> string" where
  "dek_aad tenant connection = utf8_encode (''cfactory/git-credential/dek/'' @ aad_scope tenant connection)"

definition encrypt_blob :: "aead_enc \<Rightarrow> string \<Rightarrow> string \<Rightarrow> string \<Rightarrow> string \<Rightarrow> string" where
  "encrypt_blob enc nonce key plaintext aad = nonce @ enc key nonce plaintext aad"

definition decrypt_blob :: "aead_dec \<Rightarrow> string \<Rightarrow> string \<Rightarrow> string \<Rightarrow> string \<Rightarrow> credential_error + string" where
  "decrypt_blob dec key blob aad what =
    (if length blob \<le> 12 then Inl (Truncated what)
     else (case dec key (take 12 blob) (drop 12 blob) aad of
             None \<Rightarrow> Inl (DidNotDecrypt what) | Some p \<Rightarrow> Inr p))"

text \<open>The randomness of one seal: the data key and the two nonces.\<close>

record seal_random =
  sr_dek :: string
  sr_nonce_kek :: string
  sr_nonce_dek :: string

definition seal :: "aead_enc \<Rightarrow> seal_random \<Rightarrow> string \<Rightarrow> string \<Rightarrow> nat \<Rightarrow> keyring \<Rightarrow> sealed" where
  "seal enc rnd secret tenant connection ring =
    (let (key_version, kek) = active_key ring
     in \<lparr>sl_key_version = key_version,
         sl_wrapped_key = encrypt_blob enc (sr_nonce_kek rnd) kek (sr_dek rnd)
           (kek_aad tenant key_version (Some connection)),
         sl_ciphertext = encrypt_blob enc (sr_nonce_dek rnd) (sr_dek rnd) (utf8_encode secret)
           (dek_aad tenant (Some connection)),
         sl_aad_version = 2\<rparr>)"

definition binding :: "sealed \<Rightarrow> nat \<Rightarrow> nat option" where
  "binding s connection = (if sl_aad_version s = 1 then None else Some connection)"

definition unwrap_dek :: "aead_dec \<Rightarrow> sealed \<Rightarrow> string \<Rightarrow> nat \<Rightarrow> keyring \<Rightarrow> credential_error + string" where
  "unwrap_dek dec s tenant connection ring = (case find_key ring (sl_key_version s) of
     None \<Rightarrow> Inl (KeyNotHeld (sl_key_version s))
   | Some kek \<Rightarrow> decrypt_blob dec kek (sl_wrapped_key s)
       (kek_aad tenant (sl_key_version s) (binding s connection)) ''data key'')"

definition unseal :: "aead_dec \<Rightarrow> sealed \<Rightarrow> string \<Rightarrow> nat \<Rightarrow> keyring \<Rightarrow> credential_error + string" where
  "unseal dec s tenant connection ring = res_bind (unwrap_dek dec s tenant connection ring) (\<lambda>dek.
     res_bind (decrypt_blob dec dek (sl_ciphertext s) (dek_aad tenant (binding s connection)) ''credential'') (\<lambda>p.
       case utf8_decode p of None \<Rightarrow> Inl NotUtf8 | Some t \<Rightarrow> Inr t))"

definition rewrap :: "aead_enc \<Rightarrow> aead_dec \<Rightarrow> string \<Rightarrow> sealed \<Rightarrow> string \<Rightarrow> nat \<Rightarrow> keyring
    \<Rightarrow> credential_error + sealed option" where
  "rewrap enc dec nonce s tenant connection ring =
    (let (active_id, active_kek) = active_key ring
     in if sl_key_version s = active_id then Inr None
        else res_bind (unwrap_dek dec s tenant connection ring) (\<lambda>dek.
          Inr (Some \<lparr>sl_key_version = active_id,
            sl_wrapped_key = encrypt_blob enc nonce active_kek dek
              (kek_aad tenant active_id (binding s connection)),
            sl_ciphertext = sl_ciphertext s, sl_aad_version = sl_aad_version s\<rparr>)))"

definition reseal :: "aead_enc \<Rightarrow> aead_dec \<Rightarrow> seal_random \<Rightarrow> sealed \<Rightarrow> string \<Rightarrow> nat \<Rightarrow> keyring
    \<Rightarrow> credential_error + sealed option" where
  "reseal enc dec rnd s tenant connection ring =
    (if sl_aad_version s = 2 then Inr None
     else res_bind (unseal dec s tenant connection ring) (\<lambda>secret.
       Inr (Some (seal enc rnd secret tenant connection ring))))"

section \<open>What the cipher documents\<close>

text \<open>Decryption inverts encryption; another key or other associated data fails the tag; and a
  ciphertext with its tag is never empty.\<close>

definition aead_ok :: "aead_enc \<Rightarrow> aead_dec \<Rightarrow> bool" where
  "aead_ok enc dec = ((\<forall>k n p a. dec k n (enc k n p a) a = Some p) \<and>
     (\<forall>k n p a k' a'. k \<noteq> k' \<or> a \<noteq> a' \<longrightarrow> dec k' n (enc k n p a) a' = None) \<and>
     (\<forall>k n p a. enc k n p a \<noteq> []))"

definition random_ok :: "seal_random \<Rightarrow> bool" where
  "random_ok r = (length (sr_nonce_kek r) = 12 \<and> length (sr_nonce_dek r) = 12)"

lemma utf8_roundtrip: "utf8_decode (utf8_encode s) = Some s"
proof (induction s)
  case (Cons c s)
  have lt: "(of_char c :: nat) < 256" by simp
  show ?case
  proof (cases "(of_char c :: nat) < 128")
    case True
    then show ?thesis using Cons by (simp add: Let_def)
  next
    case False
    let ?n = "of_char c :: nat"
    have q: "?n div 64 = 2 \<or> ?n div 64 = 3" using False lt by linarith
    have d: "of_char (char_of (192 + ?n div 64) :: char) = (192 + ?n div 64)"
      "of_char (char_of (128 + ?n mod 64) :: char) = (128 + ?n mod 64)"
      using q by auto
    have "?n div 64 * 64 + ?n mod 64 = ?n" by simp
    then show ?thesis using False Cons d q by (elim disjE) (simp_all add: Let_def)
  qed
qed simp

lemma utf8_inj: "utf8_encode s = utf8_encode t \<longleftrightarrow> s = t"
  by (metis utf8_roundtrip option.inject)

lemma aad_scope_inj:
  "aad_scope t (Some c) = aad_scope t' (Some c') \<longleftrightarrow> t = t' \<and> c = c'"
proof
  assume eq: "aad_scope t (Some c) = aad_scope t' (Some c')"
  have colon: "CHR '':'' \<notin> set (digits_of_nat n)" for n
    by (rule digits_no_char) (simp add: ascii_digit_def)
  have tw: "takeWhile (\<lambda>x. x \<noteq> CHR '':'') (digits_of_nat n @ CHR '':'' # r) = digits_of_nat n" for n r
    using colon [of n] by (subst takeWhile_append2) auto
  have "takeWhile (\<lambda>x. x \<noteq> CHR '':'') (aad_scope t (Some c)) = takeWhile (\<lambda>x. x \<noteq> CHR '':'') (aad_scope t' (Some c'))"
    using eq by simp
  then have "digits_of_nat (length t) = digits_of_nat (length t')" by (simp add: aad_scope_def tw)
  then have len: "length t = length t'" by (simp add: digits_of_nat_inj)
  then show "t = t' \<and> c = c'" using eq by (simp add: aad_scope_def digits_of_nat_inj)
qed simp

lemma kek_aad_inj: "kek_aad t v (Some c) = kek_aad t' v (Some c') \<longleftrightarrow> t = t' \<and> c = c'"
  by (simp add: kek_aad_def utf8_inj aad_scope_inj)

lemma decrypt_encrypt:
  assumes "aead_ok enc dec" "length n = 12"
  shows "decrypt_blob dec k (encrypt_blob enc n k p a) a w = Inr p"
    "k \<noteq> k' \<or> a \<noteq> a' \<Longrightarrow> decrypt_blob dec k' (encrypt_blob enc n k p a) a' w = Inl (DidNotDecrypt w)"
proof -
  have "enc k n p a \<noteq> []" using assms(1) by (simp add: aead_ok_def)
  then have len: "\<not> length (encrypt_blob enc n k p a) \<le> 12" using assms(2) by (simp add: encrypt_blob_def)
  show "decrypt_blob dec k (encrypt_blob enc n k p a) a w = Inr p"
    using len assms by (simp add: decrypt_blob_def encrypt_blob_def aead_ok_def)
  show "decrypt_blob dec k' (encrypt_blob enc n k p a) a' w = Inl (DidNotDecrypt w)" if "k \<noteq> k' \<or> a \<noteq> a'"
    using len assms that unfolding decrypt_blob_def encrypt_blob_def aead_ok_def by auto
qed

lemma find_active: "ring \<noteq> [] \<Longrightarrow> find_key ring (fst (active_key ring)) = Some (snd (active_key ring))"
  by (cases ring) (auto simp: find_key_def active_key_def)

lemma seal_simps [simp]:
  "sl_key_version (seal enc rnd secret t c ring) = fst (active_key ring)"
  "sl_aad_version (seal enc rnd secret t c ring) = 2"
  "sl_wrapped_key (seal enc rnd secret t c ring) = encrypt_blob enc (sr_nonce_kek rnd) (snd (active_key ring))
     (sr_dek rnd) (kek_aad t (fst (active_key ring)) (Some c))"
  "sl_ciphertext (seal enc rnd secret t c ring) = encrypt_blob enc (sr_nonce_dek rnd) (sr_dek rnd)
     (utf8_encode secret) (dek_aad t (Some c))"
  by (simp_all add: seal_def split_beta)

lemma binding_seal [simp]: "binding (seal enc rnd secret t c ring) d = Some d"
  by (simp add: binding_def)

section \<open>Properties\<close>

text \<open>A record from before connections: associated-data version 1, bound to the tenant alone.\<close>

definition legacy_sealed :: "aead_enc \<Rightarrow> seal_random \<Rightarrow> string \<Rightarrow> string \<Rightarrow> keyring \<Rightarrow> sealed" where
  "legacy_sealed enc rnd secret tenant ring = (let (key_version, kek) = active_key ring
     in \<lparr>sl_key_version = key_version,
         sl_wrapped_key = encrypt_blob enc (sr_nonce_kek rnd) kek (sr_dek rnd) (kek_aad tenant key_version None),
         sl_ciphertext = encrypt_blob enc (sr_nonce_dek rnd) (sr_dek rnd) (utf8_encode secret) (dek_aad tenant None),
         sl_aad_version = 1\<rparr>)"

lemma unseal_seal:
  assumes "aead_ok enc dec" "random_ok rnd" "find_key ring' (fst (active_key ring)) = Some (snd (active_key ring))"
  shows "unseal dec (seal enc rnd secret t c ring) t c ring' = Inr secret"
  using assms decrypt_encrypt(1) [OF assms(1)]
  by (simp add: unseal_def unwrap_dek_def random_ok_def utf8_roundtrip)

lemma unseal_legacy:
  assumes "aead_ok enc dec" "random_ok rnd" "find_key ring' (fst (active_key ring)) = Some (snd (active_key ring))"
  shows "unseal dec (legacy_sealed enc rnd secret t ring) t c ring' = Inr secret"
  using assms decrypt_encrypt(1) [OF assms(1)]
  by (simp add: legacy_sealed_def split_beta unseal_def unwrap_dek_def binding_def random_ok_def utf8_roundtrip)

text \<open>C22: sealing and unsealing round-trip, across a key rotation and across the move to the current
  format.  What was sealed for a tenant's connection unseals to the same secret there; after the ring
  gets a new first key the record can still be read, re-wrapping it keeps the ciphertext byte for byte
  and needs to run only once, and the re-wrapped record is readable by a ring that holds the new key
  alone.  A record of the old format, bound to its tenant only, is readable there, and re-sealing it,
  once, gives what sealing its secret for the connection gives, so the secret survives that too.\<close>

theorem seal_rotate_unseal:
  fixes t secret :: string and c :: nat
  assumes "aead_ok enc dec" "random_ok rnd" "length nonce = 12" "ring \<noteq> []" "new_id \<notin> fst ` set ring" "random_ok rnd'"
  defines "s \<equiv> seal enc rnd secret t c ring" and "v \<equiv> legacy_sealed enc rnd secret t ring"
  shows "unseal dec s t c ring = Inr secret
    \<and> unseal dec s t c ((new_id, new_kek) # ring) = Inr secret
    \<and> (\<exists>s'. rewrap enc dec nonce s t c ((new_id, new_kek) # ring) = Inr (Some s')
        \<and> sl_ciphertext s' = sl_ciphertext s
        \<and> unseal dec s' t c [(new_id, new_kek)] = Inr secret
        \<and> rewrap enc dec nonce s' t c ((new_id, new_kek) # ring) = Inr None)
    \<and> unseal dec v t c ring = Inr secret
    \<and> (\<exists>v'. reseal enc dec rnd' v t c ((new_id, new_kek) # ring) = Inr (Some v')
        \<and> v' = seal enc rnd' secret t c ((new_id, new_kek) # ring)
        \<and> unseal dec v' t c [(new_id, new_kek)] = Inr secret
        \<and> reseal enc dec rnd' v' t c ((new_id, new_kek) # ring) = Inr None)"
proof -
  let ?ring = "(new_id, new_kek) # ring"
  have n: "length (sr_nonce_kek rnd) = 12" "length (sr_nonce_dek rnd) = 12"
    using assms(2) by (simp_all add: random_ok_def)
  have ne: "new_id \<noteq> fst (active_key ring)" using assms(4,5) by (cases ring) (auto simp: active_key_def)
  have find: "find_key ring (fst (active_key ring)) = Some (snd (active_key ring))"
    using assms(4) by (rule find_active)
  then have find': "find_key ?ring (fst (active_key ring)) = Some (snd (active_key ring))"
    using ne by (simp add: find_key_def)
  note de = decrypt_encrypt(1) [OF assms(1)]
  have u: "unwrap_dek dec s t c r = Inr (sr_dek rnd)" if "find_key r (fst (active_key ring)) = Some (snd (active_key ring))" for r
    using that n by (simp add: unwrap_dek_def s_def de)
  have un: "unseal dec s t c r = Inr secret" if "find_key r (fst (active_key ring)) = Some (snd (active_key ring))" for r
    using u [OF that] n unfolding unseal_def by (simp add: s_def de utf8_roundtrip)
  let ?s' = "\<lparr>sl_key_version = new_id, sl_wrapped_key = encrypt_blob enc nonce new_kek (sr_dek rnd)
      (kek_aad t new_id (Some c)), sl_ciphertext = sl_ciphertext s, sl_aad_version = 2\<rparr>"
  have rw: "rewrap enc dec nonce s t c ?ring = Inr (Some ?s')"
    using u [OF find'] ne unfolding rewrap_def by (simp add: active_key_def s_def)
  have "unseal dec ?s' t c [(new_id, new_kek)] = Inr secret"
    using n assms(3) by (simp add: unseal_def unwrap_dek_def find_key_def binding_def de s_def utf8_roundtrip)
  moreover have "rewrap enc dec nonce ?s' t c ?ring = Inr None" by (simp add: rewrap_def active_key_def)
  moreover have "unseal dec v t c ring = Inr secret" "unseal dec v t c ?ring = Inr secret"
    unfolding v_def by (rule unseal_legacy [OF assms(1,2) find], rule unseal_legacy [OF assms(1,2) find'])
  moreover have "sl_aad_version v = 1" by (simp add: v_def legacy_sealed_def split_beta)
  moreover have "unseal dec (seal enc rnd' secret t c ?ring) t c [(new_id, new_kek)] = Inr secret"
    by (rule unseal_seal [OF assms(1,6)]) (simp add: find_key_def active_key_def)
  ultimately show ?thesis using un [OF find] un [OF find'] rw by (auto simp: reseal_def)
qed

text \<open>A cipher with the documented laws: it carries key and associated data in the ciphertext.\<close>

definition ex_enc :: aead_enc where
  "ex_enc k n p a = replicate (length k) (CHR ''k'') @ ''.'' @ replicate (length a) (CHR ''k'') @ ''.'' @ k @ a @ p"

definition ex_dec :: aead_dec where
  "ex_dec k n c a =
    (let h = replicate (length k) (CHR ''k'') @ ''.'' @ replicate (length a) (CHR ''k'') @ ''.'' @ k @ a
     in if take (length h) c = h then Some (drop (length h) c) else None)"

lemma replicate_dot: "replicate m x @ y # r = replicate n x @ y # r' \<Longrightarrow> x \<noteq> y \<Longrightarrow> m = n \<and> r = r'"
proof (induction m arbitrary: n)
  case 0
  then show ?case by (cases n) auto
next
  case (Suc m)
  then show ?case by (cases n) auto
qed

lemma ex_aead_ok: "aead_ok ex_enc ex_dec"
proof -
  have "ex_dec k n (ex_enc k n p a) a = Some p" for k n p a
    by (simp add: ex_dec_def ex_enc_def Let_def)
  moreover have "ex_dec k' n (ex_enc k n p a) a' = None" if "k \<noteq> k' \<or> a \<noteq> a'" for k n p a k' a'
  proof (rule ccontr)
    assume "ex_dec k' n (ex_enc k n p a) a' \<noteq> None"
    moreover define h where "h = replicate (length k') (CHR ''k'') @ ''.'' @ replicate (length a') (CHR ''k'') @ ''.'' @ k' @ a'"
    ultimately have tk: "take (length h) (ex_enc k n p a) = h"
      unfolding ex_dec_def Let_def h_def [symmetric] by (simp split: if_splits)
    have "ex_enc k n p a = take (length h) (ex_enc k n p a) @ drop (length h) (ex_enc k n p a)" by simp
    then have "ex_enc k n p a = h @ drop (length h) (ex_enc k n p a)" unfolding tk .
    then obtain q where q: "ex_enc k n p a = h @ q" by blast
    then have "replicate (length k) (CHR ''k'') @ CHR ''.'' # (replicate (length a) (CHR ''k'') @ CHR ''.'' # k @ a @ p)
        = replicate (length k') (CHR ''k'') @ CHR ''.'' # (replicate (length a') (CHR ''k'') @ CHR ''.'' # k' @ a' @ q)"
      by (simp add: ex_enc_def h_def)
    from replicate_dot [OF this] have 1: "length k = length k'"
      "replicate (length a) (CHR ''k'') @ CHR ''.'' # k @ a @ p = replicate (length a') (CHR ''k'') @ CHR ''.'' # k' @ a' @ q"
      by simp_all
    from replicate_dot [OF 1(2)] have "k @ a @ p = k' @ a' @ q" "length a = length a'" by simp_all
    with 1(1) have "k = k' \<and> a = a'" by simp
    then show False using that by auto
  qed
  moreover have "ex_enc k n p a \<noteq> []" for k n p a by (simp add: ex_enc_def)
  ultimately show ?thesis unfolding aead_ok_def by blast
qed

definition ex_random :: seal_random where
  "ex_random = \<lparr>sr_dek = ''dek'', sr_nonce_kek = ''012345678901'', sr_nonce_dek = ''abcdefabcdef''\<rparr>"

theorem seal_rotate_unseal_witness:
  "unseal ex_dec (seal ex_enc ex_random ''token'' ''acme'' 7 [(''v1'', ''kek'')]) ''acme'' 7 [(''v1'', ''kek'')] = Inr ''token''
   \<and> (\<exists>v'. reseal ex_enc ex_dec ex_random (legacy_sealed ex_enc ex_random ''token'' ''acme'' [(''v1'', ''kek'')]) ''acme'' 7
         [(''v2'', ''k2''), (''v1'', ''kek'')] = Inr (Some v')
       \<and> unseal ex_dec v' ''acme'' 7 [(''v2'', ''k2'')] = Inr ''token'')"
  using seal_rotate_unseal [of ex_enc ex_dec ex_random "''012345678901''" "[(''v1'', ''kek'')]" "''v2''" ex_random
      "''token''" "''acme''" 7 "''k2''"]
    ex_aead_ok by (auto simp: ex_random_def random_ok_def)

text \<open>C23: a sealed record is worthless anywhere else: for any other tenant or any other connection of
  the same tenant, whatever keys the ring holds, unsealing and re-wrapping it fail, and so
  does unsealing it at home with a ring whose key of that name is a different one or missing.\<close>

theorem seal_bound_to_owner:
  fixes t secret :: string and c :: nat
  assumes "aead_ok enc dec" "random_ok rnd" "ring \<noteq> []"
  defines "s \<equiv> seal enc rnd secret t c ring"
  shows "((t', c') \<noteq> (t, c) \<longrightarrow> \<not> is_ok (unseal dec s t' c' ring')
      \<and> (sl_key_version s \<noteq> fst (active_key ring') \<longrightarrow> \<not> is_ok (rewrap enc dec nonce s t' c' ring')))
    \<and> (find_key ring' (fst (active_key ring)) \<noteq> Some (snd (active_key ring)) \<longrightarrow> \<not> is_ok (unseal dec s t' c' ring'))"
proof -
  have n: "length (sr_nonce_kek rnd) = 12" using assms(2) by (simp add: random_ok_def)
  have bad: "\<not> is_ok (unwrap_dek dec s t' c' ring')"
    if "(t', c') \<noteq> (t, c) \<or> find_key ring' (fst (active_key ring)) \<noteq> Some (snd (active_key ring))"
  proof (cases "find_key ring' (fst (active_key ring))")
    case None
    then show ?thesis by (simp add: unwrap_dek_def s_def)
  next
    case (Some kek)
    then have "snd (active_key ring) \<noteq> kek \<or> kek_aad t (fst (active_key ring)) (Some c) \<noteq> kek_aad t' (fst (active_key ring)) (Some c')"
      using that by (auto simp: kek_aad_inj)
    then show ?thesis using Some decrypt_encrypt(2) [OF assms(1) n] by (simp add: unwrap_dek_def s_def)
  qed
  have un: "\<not> is_ok (unseal dec s t' c' ring')" and rw: "sl_key_version s \<noteq> fst (active_key ring') \<Longrightarrow>
      \<not> is_ok (rewrap enc dec nonce s t' c' ring')" if "\<not> is_ok (unwrap_dek dec s t' c' ring')"
    using that by (cases "unwrap_dek dec s t' c' ring'"; simp add: unseal_def rewrap_def split_beta)+
  show ?thesis using bad un rw by blast
qed

theorem seal_bound_to_owner_witness:
  "\<not> is_ok (unseal ex_dec (seal ex_enc ex_random ''token'' ''acme'' 7 [(''v1'', ''kek'')]) ''acme'' 8 [(''v1'', ''kek'')])"
  using seal_bound_to_owner [of ex_enc ex_dec ex_random "[(''v1'', ''kek'')]" "''acme''" 8 "''acme''" 7 "''token''" "[(''v1'', ''kek'')]"]
    ex_aead_ok by (simp add: ex_random_def random_ok_def)

end
