(* ===== verification/Gitstore.thy ===== *)
theory Gitstore
  imports GitConfig Vault
begin

text \<open>
  Git connections and repositories: the tables of \<open>git_connections.py\<close>, the credential and
  install tables, and the part of \<open>CardStore\<close> (\<open>cards.py\<close>) that keeps them.  Every operation
  is scoped by the store's tenant \<open>t\<close>; a primary key is an argument, chosen by the database,
  and one that is already used is refused like any other unique index.  Times are arguments.
\<close>

section \<open>Rows\<close>

record git_conn =
  gc_id :: nat
  gc_tenant :: string
  gc_provider :: string
  gc_base_url :: string
  gc_label :: string
  gc_verified_at :: "int option"
  gc_verify_error :: "string option"
  gc_credential_rejected :: "bool option"
  gc_created_at :: int
  gc_updated_at :: int

record git_repo =
  gr_id :: nat
  gr_tenant :: string
  gr_connection :: nat
  gr_project :: string
  gr_intake_project :: "string option"
  gr_aifactory_project_id :: "string option"
  gr_default_labels :: "json list"
  gr_default_for :: "string option"
  gr_created_at :: int
  gr_updated_at :: int

record git_cred =
  gk_tenant :: string
  gk_connection :: "nat option"
  gk_sealed :: sealed
  gk_updated_at :: int

datatype install_status = INSTALLED | INSTALL_DEGRADED

record git_install =
  gi_tenant :: string
  gi_connection :: nat
  gi_provider :: string
  gi_installation_id :: "string option"
  gi_account :: "string option"
  gi_status :: install_status
  gi_error :: "string option"
  gi_created_at :: int
  gi_updated_at :: int

record install_state =
  is_hash :: string
  is_tenant :: string
  is_connection :: nat
  is_provider :: string
  is_redirect_uri :: string
  is_expires_at :: int

text \<open>The database and the process-wide cache of minted tokens, of which only the keys matter here.\<close>

record git_db =
  gd_conns :: "git_conn list"
  gd_repos :: "git_repo list"
  gd_creds :: "git_cred list"
  gd_installs :: "git_install list"
  gd_states :: "install_state list"
  gd_tokens :: "(string \<times> nat) list"

definition is_default :: "git_repo \<Rightarrow> bool" where
  "is_default r = (gr_default_for r \<noteq> None)"

definition conn_key :: "git_conn \<Rightarrow> (string \<times> string \<times> string) option" where
  "conn_key c = Some (gc_tenant c, gc_provider c, gc_base_url c)"

definition repo_key :: "git_repo \<Rightarrow> (nat \<times> string) option" where
  "repo_key r = Some (gr_connection r, gr_project r)"

section \<open>Bodies and their stored columns\<close>

record conn_create =
  nc_provider :: string
  nc_base_url :: "string option"
  nc_label :: "string option"

text \<open>A patch field is \<open>None\<close> when it was not sent.\<close>

record conn_update =
  uc_provider :: "string option option"
  uc_base_url :: "string option option"
  uc_label :: "string option option"

record repo_create =
  nr_project :: string
  nr_intake_project :: "string option"
  nr_aifactory_project_id :: "string option"
  nr_default_labels :: "string list"
  nr_make_default :: bool

record repo_update =
  ur_project :: "string option option"
  ur_intake_project :: "string option option"
  ur_aifactory_project_id :: "string option option"
  ur_default_labels :: "string list option option"

definition connection_fields :: "string option \<Rightarrow> string option \<Rightarrow> string option \<Rightarrow> git_error + string \<times> string \<times> string" where
  "connection_fields provider base_url label =
    res_bind (validate_provider provider) (\<lambda>kind.
    res_bind (validate_base_url base_url) (\<lambda>url.
    res_bind (validate_label label kind) (\<lambda>l. Inr (kind, or_empty url, l))))"

definition repository_fields ::
  "repo_create \<Rightarrow> string \<Rightarrow> git_error + string \<times> string option \<times> string option \<times> json list" where
  "repository_fields body provider =
    res_bind (validate_project (Some (nr_project body)) provider ''project'') (\<lambda>project.
      case project of None \<Rightarrow> Inl (GitConfigError ProjectRequired)
      | Some p \<Rightarrow>
        res_bind (validate_project (nr_intake_project body) provider ''intake_project'') (\<lambda>intake.
        res_bind (validate_labels (nr_default_labels body)) (\<lambda>labels.
          Inr (p, intake, blank_none (or_empty (nr_aifactory_project_id body)), map JStr labels))))"

text \<open>The validated subset of a patch: each column with its new value if it was sent.\<close>

record repo_patch =
  rp_project :: "string option"
  rp_intake_project :: "string option option"
  rp_aifactory_project_id :: "string option option"
  rp_default_labels :: "string list option"

definition opt_validate :: "('a \<Rightarrow> git_error + 'b) \<Rightarrow> 'a option \<Rightarrow> git_error + 'b option" where
  "opt_validate f x = (case x of None \<Rightarrow> Inr None | Some a \<Rightarrow> res_bind (f a) (\<lambda>b. Inr (Some b)))"

definition repository_patch :: "repo_update \<Rightarrow> string \<Rightarrow> git_error + repo_patch" where
  "repository_patch body provider =
    res_bind (opt_validate (\<lambda>p. res_bind (validate_project p provider ''project'') (\<lambda>v.
        case v of None \<Rightarrow> Inl (GitConfigError ProjectCleared) | Some q \<Rightarrow> Inr q)) (ur_project body)) (\<lambda>project.
    res_bind (opt_validate (\<lambda>p. validate_project p provider ''intake_project'') (ur_intake_project body)) (\<lambda>intake.
    res_bind (opt_validate (\<lambda>ls. validate_labels (case ls of None \<Rightarrow> [] | Some l \<Rightarrow> l)) (ur_default_labels body)) (\<lambda>labels.
      Inr \<lparr>rp_project = project, rp_intake_project = intake,
           rp_aifactory_project_id = map_option (\<lambda>a. blank_none (or_empty a)) (ur_aifactory_project_id body),
           rp_default_labels = labels\<rparr>)))"

definition patch_empty :: "repo_patch \<Rightarrow> bool" where
  "patch_empty f = (rp_project f = None \<and> rp_intake_project f = None \<and> rp_aifactory_project_id f = None \<and> rp_default_labels f = None)"

definition apply_patch :: "repo_patch \<Rightarrow> int \<Rightarrow> git_repo \<Rightarrow> git_repo" where
  "apply_patch f now r = r\<lparr>
     gr_project := (case rp_project f of None \<Rightarrow> gr_project r | Some p \<Rightarrow> p),
     gr_intake_project := (case rp_intake_project f of None \<Rightarrow> gr_intake_project r | Some p \<Rightarrow> p),
     gr_aifactory_project_id := (case rp_aifactory_project_id f of None \<Rightarrow> gr_aifactory_project_id r | Some p \<Rightarrow> p),
     gr_default_labels := (case rp_default_labels f of None \<Rightarrow> gr_default_labels r | Some l \<Rightarrow> map JStr l),
     gr_updated_at := now\<rparr>"

section \<open>Reads\<close>

definition connections :: "string \<Rightarrow> git_db \<Rightarrow> git_conn list" where
  "connections t s = sort_key gc_id (filter (\<lambda>c. gc_tenant c = t) (gd_conns s))"

definition connection_or_none :: "string \<Rightarrow> nat \<Rightarrow> git_db \<Rightarrow> git_conn option" where
  "connection_or_none t cid s = List.find (\<lambda>c. gc_id c = cid \<and> gc_tenant c = t) (gd_conns s)"

definition connection :: "string \<Rightarrow> nat \<Rightarrow> git_db \<Rightarrow> git_error + git_conn" where
  "connection t cid s = (case connection_or_none t cid s of None \<Rightarrow> Inl GitResourceNotFoundError | Some c \<Rightarrow> Inr c)"

definition repositories :: "string \<Rightarrow> nat option \<Rightarrow> git_db \<Rightarrow> git_repo list" where
  "repositories t cid s = sort_key gr_id
     (filter (\<lambda>r. gr_tenant r = t \<and> (cid = None \<or> Some (gr_connection r) = cid)) (gd_repos s))"

definition repository :: "string \<Rightarrow> nat \<Rightarrow> git_db \<Rightarrow> git_error + git_repo" where
  "repository t rid s = (case List.find (\<lambda>r. gr_id r = rid \<and> gr_tenant r = t) (gd_repos s) of
     None \<Rightarrow> Inl GitResourceNotFoundError | Some r \<Rightarrow> Inr r)"

definition default_repository :: "string \<Rightarrow> git_db \<Rightarrow> (git_conn \<times> git_repo) option" where
  "default_repository t s = (case List.find (\<lambda>r. gr_default_for r = Some t) (gd_repos s) of
     None \<Rightarrow> None
   | Some r \<Rightarrow> map_option (\<lambda>c. (c, r)) (connection_or_none t (gr_connection r) s))"

text \<open>\<open>resolve_repository\<close>: an explicit id, else the repository of the project path (the default
  wins a tie), else the default.  A stage that finds no connection falls through to the next.\<close>

definition chosen_for :: "string \<Rightarrow> string \<Rightarrow> git_db \<Rightarrow> git_repo option" where
  "chosen_for t wanted s =
    (let matches = filter (\<lambda>r. gr_project r = wanted) (repositories t None s)
     in case List.find is_default matches of Some r \<Rightarrow> Some r
        | None \<Rightarrow> (case matches of [] \<Rightarrow> None | r # _ \<Rightarrow> Some r))"

definition resolve_project :: "string \<Rightarrow> string option \<Rightarrow> git_db \<Rightarrow> (git_conn \<times> git_repo) option" where
  "resolve_project t project s =
    (let wanted = strip (or_empty project);
         hit = (if wanted = [] then None else
           (case chosen_for t wanted s of None \<Rightarrow> None
            | Some r \<Rightarrow> map_option (\<lambda>c. (c, r)) (connection_or_none t (gr_connection r) s)))
     in case hit of Some x \<Rightarrow> Some x | None \<Rightarrow> default_repository t s)"

definition resolve_repository ::
  "string \<Rightarrow> nat option \<Rightarrow> string option \<Rightarrow> git_db \<Rightarrow> git_error + (git_conn \<times> git_repo) option" where
  "resolve_repository t repository_id project s = (case repository_id of
     None \<Rightarrow> Inr (resolve_project t project s)
   | Some rid \<Rightarrow> res_bind (repository t rid s) (\<lambda>r.
       case connection_or_none t (gr_connection r) s of
         Some c \<Rightarrow> Inr (Some (c, r))
       | None \<Rightarrow> Inr (resolve_project t project s)))"

section \<open>Writes\<close>

text \<open>An insert is refused with \<open>IntegrityError\<close> when the primary key or the unique index is taken;
  an update when another row holds the new key.\<close>

definition insert_conn :: "git_conn \<Rightarrow> git_db \<Rightarrow> db_error + git_db" where
  "insert_conn c s = (if key_used (Some \<circ> gc_id) c (gd_conns s) \<or> key_used conn_key c (gd_conns s)
     then Inl IntegrityError else Inr (s\<lparr>gd_conns := gd_conns s @ [c]\<rparr>))"

definition insert_repo :: "git_repo \<Rightarrow> git_db \<Rightarrow> db_error + git_db" where
  "insert_repo r s = (if key_used (Some \<circ> gr_id) r (gd_repos s) \<or> key_used repo_key r (gd_repos s)
     then Inl IntegrityError else Inr (s\<lparr>gd_repos := gd_repos s @ [r]\<rparr>))"

definition update_conn :: "git_conn \<Rightarrow> git_db \<Rightarrow> db_error + git_db" where
  "update_conn c s = (if key_used conn_key c (filter (\<lambda>d. gc_id d \<noteq> gc_id c) (gd_conns s))
     then Inl IntegrityError else Inr (s\<lparr>gd_conns := update_where (\<lambda>d. gc_id d = gc_id c) (\<lambda>_. c) (gd_conns s)\<rparr>))"

definition update_repo :: "git_repo \<Rightarrow> git_db \<Rightarrow> db_error + git_db" where
  "update_repo r s = (if key_used repo_key r (filter (\<lambda>d. gr_id d \<noteq> gr_id r) (gd_repos s))
     then Inl IntegrityError else Inr (s\<lparr>gd_repos := update_where (\<lambda>d. gr_id d = gr_id r) (\<lambda>_. r) (gd_repos s)\<rparr>))"

text \<open>\<open>except IntegrityError: raise GitConfigError(...)\<close>.\<close>

definition on_integrity :: "config_reason \<Rightarrow> db_error + 'a \<Rightarrow> git_error + 'a" where
  "on_integrity reason r = (case r of Inl _ \<Rightarrow> Inl (GitConfigError reason) | Inr x \<Rightarrow> Inr x)"

definition create_connection :: "string \<Rightarrow> nat \<Rightarrow> int \<Rightarrow> conn_create \<Rightarrow> git_db \<Rightarrow> git_error + git_conn \<times> git_db" where
  "create_connection t new_id now body s =
    res_bind (connection_fields (Some (nc_provider body)) (nc_base_url body) (nc_label body)) (\<lambda>(kind, url, label).
      let row = \<lparr>gc_id = new_id, gc_tenant = t, gc_provider = kind, gc_base_url = url, gc_label = label,
                 gc_verified_at = None, gc_verify_error = None, gc_credential_rejected = None,
                 gc_created_at = now, gc_updated_at = now\<rparr>
      in res_bind (on_integrity (DuplicateConnection kind url) (insert_conn row s)) (\<lambda>s'. Inr (row, s')))"

fun sent_or :: "'a option \<Rightarrow> 'a \<Rightarrow> 'a" where
  "sent_or None d = d"
| "sent_or (Some a) d = a"

definition update_connection :: "string \<Rightarrow> nat \<Rightarrow> int \<Rightarrow> conn_update \<Rightarrow> git_db \<Rightarrow> git_error + git_conn \<times> git_db" where
  "update_connection t cid now body s =
    res_bind (connection t cid s) (\<lambda>cur.
    res_bind (connection_fields (sent_or (uc_provider body) (Some (gc_provider cur)))
        (sent_or (uc_base_url body) (Some (gc_base_url cur))) (sent_or (uc_label body) (Some (gc_label cur))))
      (\<lambda>(kind, url, label).
      let moved = ((kind, url) \<noteq> (gc_provider cur, gc_base_url cur));
          row = cur\<lparr>gc_provider := kind, gc_base_url := url, gc_label := label,
            gc_verified_at := (if moved then None else gc_verified_at cur),
            gc_verify_error := (if moved then None else gc_verify_error cur),
            gc_credential_rejected := (if moved then None else gc_credential_rejected cur),
            gc_updated_at := now\<rparr>
      in res_bind (on_integrity (DuplicateConnection kind url) (update_conn row s)) (\<lambda>s'. Inr (row, s'))))"

text \<open>\<open>set_default_repository\<close>: the previous default is cleared and the new one set in one
  transaction; a row that changes is stamped.\<close>

definition clear_defaults :: "string \<Rightarrow> nat option \<Rightarrow> int \<Rightarrow> git_db \<Rightarrow> git_db" where
  "clear_defaults t keep now s = s\<lparr>gd_repos :=
     update_where (\<lambda>r. gr_default_for r = Some t \<and> Some (gr_id r) \<noteq> keep)
       (\<lambda>r. r\<lparr>gr_default_for := None, gr_updated_at := now\<rparr>) (gd_repos s)\<rparr>"

definition mark_default :: "string \<Rightarrow> int \<Rightarrow> git_repo \<Rightarrow> git_repo" where
  "mark_default t now r = (if gr_default_for r = Some t then r else r\<lparr>gr_default_for := Some t, gr_updated_at := now\<rparr>)"

definition set_default_repository :: "string \<Rightarrow> nat \<Rightarrow> int \<Rightarrow> git_db \<Rightarrow> git_error + git_repo \<times> git_db" where
  "set_default_repository t rid now s =
    res_bind (repository t rid s) (\<lambda>r.
      let s1 = clear_defaults t (Some rid) now s
      in Inr (mark_default t now r,
              s1\<lparr>gd_repos := update_where (\<lambda>r. gr_id r = rid) (mark_default t now) (gd_repos s1)\<rparr>))"

text \<open>\<open>_ensure_default_repository\<close>: the oldest repository is promoted when none is a default.\<close>

definition ensure_default :: "string \<Rightarrow> int \<Rightarrow> git_db \<Rightarrow> git_error + git_db" where
  "ensure_default t now s = (case repositories t None s of
     [] \<Rightarrow> Inr s
   | r # rs \<Rightarrow> if list_ex is_default (r # rs) then Inr s
       else res_bind (set_default_repository t (gr_id r) now s) (\<lambda>(_, s'). Inr s'))"

definition create_repository ::
  "string \<Rightarrow> nat \<Rightarrow> int \<Rightarrow> nat \<Rightarrow> repo_create \<Rightarrow> git_db \<Rightarrow> git_error + git_repo \<times> git_db" where
  "create_repository t new_id now cid body s =
    res_bind (connection t cid s) (\<lambda>c.
    res_bind (repository_fields body (gc_provider c)) (\<lambda>(project, intake, aifactory, labels).
      let make_default = (nr_make_default body \<or> default_repository t s = None);
          row = \<lparr>gr_id = new_id, gr_tenant = t, gr_connection = cid, gr_project = project, gr_intake_project = intake,
                 gr_aifactory_project_id = aifactory, gr_default_labels = labels, gr_default_for = None,
                 gr_created_at = now, gr_updated_at = now\<rparr>
      in res_bind (on_integrity (DuplicateRepository (Some project)) (insert_repo row s)) (\<lambda>s1.
         if make_default then set_default_repository t new_id now s1
         else res_bind (repository t new_id s1) (\<lambda>r. Inr (r, s1)))))"

definition update_repository :: "string \<Rightarrow> nat \<Rightarrow> int \<Rightarrow> repo_update \<Rightarrow> git_db \<Rightarrow> git_error + git_repo \<times> git_db" where
  "update_repository t rid now body s =
    res_bind (repository t rid s) (\<lambda>cur.
    res_bind (connection t (gr_connection cur) s) (\<lambda>c.
    res_bind (repository_patch body (gc_provider c)) (\<lambda>f.
      if patch_empty f then Inr (cur, s)
      else (let row = apply_patch f now cur
            in res_bind (on_integrity (DuplicateRepository (rp_project f)) (update_repo row s)) (\<lambda>s'. Inr (row, s'))))))"

definition delete_repository :: "string \<Rightarrow> nat \<Rightarrow> int \<Rightarrow> git_db \<Rightarrow> git_error + git_db" where
  "delete_repository t rid now s =
    res_bind (repository t rid s) (\<lambda>_.
      ensure_default t now (s\<lparr>gd_repos := filter (\<lambda>r. gr_id r \<noteq> rid) (gd_repos s)\<rparr>))"

definition forget_token :: "string \<Rightarrow> nat \<Rightarrow> git_db \<Rightarrow> git_db" where
  "forget_token t cid s = s\<lparr>gd_tokens := filter (\<lambda>k. k \<noteq> (t, cid)) (gd_tokens s)\<rparr>"

definition delete_connection :: "string \<Rightarrow> nat \<Rightarrow> int \<Rightarrow> git_db \<Rightarrow> git_error + git_db" where
  "delete_connection t cid now s =
    res_bind (connection t cid s) (\<lambda>_.
      let s0 = forget_token t cid s
      in ensure_default t now (s0\<lparr>
           gd_repos := filter (\<lambda>r. gr_connection r \<noteq> cid) (gd_repos s0),
           gd_creds := filter (\<lambda>k. gk_connection k \<noteq> Some cid) (gd_creds s0),
           gd_installs := filter (\<lambda>i. gi_connection i \<noteq> cid) (gd_installs s0),
           gd_states := filter (\<lambda>i. is_connection i \<noteq> cid) (gd_states s0),
           gd_conns := filter (\<lambda>c. gc_id c \<noteq> cid) (gd_conns s0)\<rparr>))"

text \<open>\<open>_patch_connection\<close> with the verification columns it is used for; a \<open>None\<close> leaves a column
  alone.\<close>

record conn_marks =
  cm_verified_at :: "int option option"
  cm_verify_error :: "string option option"
  cm_credential_rejected :: "bool option option"

definition patch_connection :: "string \<Rightarrow> nat \<Rightarrow> int \<Rightarrow> conn_marks \<Rightarrow> git_db \<Rightarrow> git_error + git_db" where
  "patch_connection t cid now m s = (case List.find (\<lambda>c. gc_id c = cid) (gd_conns s) of
     None \<Rightarrow> Inl GitResourceNotFoundError
   | Some c \<Rightarrow> if gc_tenant c \<noteq> t then Inl GitResourceNotFoundError
       else Inr (s\<lparr>gd_conns := update_where (\<lambda>d. gc_id d = cid)
         (\<lambda>d. d\<lparr>gc_verified_at := sent_or (cm_verified_at m) (gc_verified_at d),
                gc_verify_error := sent_or (cm_verify_error m) (gc_verify_error d),
                gc_credential_rejected := sent_or (cm_credential_rejected m) (gc_credential_rejected d),
                gc_updated_at := now\<rparr>) (gd_conns s)\<rparr>))"

definition record_connection_verification ::
  "string \<Rightarrow> nat \<Rightarrow> int \<Rightarrow> string option \<Rightarrow> bool option \<Rightarrow> git_db \<Rightarrow> git_error + git_db" where
  "record_connection_verification t cid now err rejected s = patch_connection t cid now
     \<lparr>cm_verified_at = Some (if truthy err then None else Some now), cm_verify_error = Some err,
      cm_credential_rejected = Some (if truthy err then Some (rejected = Some True) else None)\<rparr> s"

section \<open>The single-configuration shim\<close>

definition find_host :: "string \<Rightarrow> string \<Rightarrow> string \<Rightarrow> git_db \<Rightarrow> git_conn option" where
  "find_host t kind url s = List.find (\<lambda>c. gc_provider c = kind \<and> gc_base_url c = url) (connections t s)"

definition connection_for :: "string \<Rightarrow> nat \<Rightarrow> int \<Rightarrow> string \<Rightarrow> string option \<Rightarrow> git_db \<Rightarrow> git_error + git_conn \<times> git_db" where
  "connection_for t new_id now provider base_url s =
    (let url = (if truthy base_url then base_url else None)
     in case create_connection t new_id now \<lparr>nc_provider = provider, nc_base_url = url, nc_label = None\<rparr> s of
          Inr r \<Rightarrow> Inr r
        | Inl GitResourceNotFoundError \<Rightarrow> Inl GitResourceNotFoundError
        | Inl (GitConfigError e) \<Rightarrow>
            res_bind (connection_fields (Some provider) url None) (\<lambda>(kind, u, _).
              case find_host t kind u s of None \<Rightarrow> Inl (GitConfigError e) | Some c \<Rightarrow> Inr (c, s)))"

definition editable_connection :: "string \<Rightarrow> git_db \<Rightarrow> git_conn option" where
  "editable_connection t s = (case default_repository t s of
     Some (c, _) \<Rightarrow> Some c
   | None \<Rightarrow> (case connections t s of [c] \<Rightarrow> Some c | _ \<Rightarrow> None))"

definition shim_connection :: "string \<Rightarrow> nat \<Rightarrow> int \<Rightarrow> string \<Rightarrow> string option \<Rightarrow> git_db \<Rightarrow> git_error + git_conn \<times> git_db" where
  "shim_connection t new_id now provider base_url s =
    res_bind (connection_fields (Some provider) base_url None) (\<lambda>(kind, url, _).
      case find_host t kind url s of
        Some c \<Rightarrow> Inr (c, s)
      | None \<Rightarrow> (case editable_connection t s of
            None \<Rightarrow> connection_for t new_id now provider base_url s
          | Some c \<Rightarrow> (case update_connection t (gc_id c) now
                \<lparr>uc_provider = Some (Some kind), uc_base_url = Some (Some url), uc_label = None\<rparr> s of
                Inl (GitConfigError _) \<Rightarrow> connection_for t new_id now provider base_url s
              | r \<Rightarrow> r)))"

definition set_git_config :: "string \<Rightarrow> nat \<Rightarrow> nat \<Rightarrow> int \<Rightarrow> config_update \<Rightarrow> git_db \<Rightarrow> git_error + git_db" where
  "set_git_config t new_conn new_repo now u s =
    res_bind (validated_fields u) (\<lambda>f.
    res_bind (shim_connection t new_conn now (cu_provider f) (cu_base_url f) s) (\<lambda>(c, s1).
    res_bind (patch_connection t (gc_id c) now
        \<lparr>cm_verified_at = Some None, cm_verify_error = Some None, cm_credential_rejected = Some None\<rparr> s1) (\<lambda>s2.
      case cu_project f of
        None \<Rightarrow> Inr (clear_defaults t None now s2)
      | Some project \<Rightarrow>
          (case List.find (\<lambda>r. gr_project r = project) (repositories t (Some (gc_id c)) s2) of
             None \<Rightarrow> res_bind (create_repository t new_repo now (gc_id c)
                 \<lparr>nr_project = project, nr_intake_project = cu_intake_project f,
                  nr_aifactory_project_id = cu_aifactory_project_id f, nr_default_labels = cu_default_labels f,
                  nr_make_default = True\<rparr> s2) (\<lambda>(_, s3). Inr s3)
           | Some r \<Rightarrow> res_bind (update_repository t (gr_id r) now
                 \<lparr>ur_project = Some (Some project), ur_intake_project = Some (cu_intake_project f),
                  ur_aifactory_project_id = Some (cu_aifactory_project_id f),
                  ur_default_labels = Some (Some (cu_default_labels f))\<rparr> s2) (\<lambda>(_, s3).
               res_bind (set_default_repository t (gr_id r) now s3) (\<lambda>(_, s4). Inr s4))))))"

text \<open>\<open>_default_connection\<close>: the default repository's, else the oldest, else one for the
  environment's provider.\<close>

definition default_connection :: "string \<Rightarrow> nat \<Rightarrow> int \<Rightarrow> git_settings \<Rightarrow> git_db \<Rightarrow> git_error + git_conn \<times> git_db" where
  "default_connection t new_id now st s = (case default_repository t s of
     Some (c, _) \<Rightarrow> Inr (c, s)
   | None \<Rightarrow> (case connections t s of
        c # _ \<Rightarrow> Inr (c, s)
      | [] \<Rightarrow> (let env = target_from_settings st t None
               in connection_for t new_id now (gt_provider env) (Some (gt_base_url env)) s)))"

text \<open>\<open>seed_git_config_from_env\<close>: nothing for a tenant with a connection, nor when there is nothing to
  seed.\<close>

definition seed_git_config_from_env :: "string \<Rightarrow> nat \<Rightarrow> nat \<Rightarrow> int \<Rightarrow> git_settings \<Rightarrow> git_db \<Rightarrow> git_error + bool \<times> git_db" where
  "seed_git_config_from_env t new_conn new_repo now st s =
    (let env = target_from_settings st t None
     in if connections t s \<noteq> [] \<or> \<not> (truthy (gt_project env) \<or> truthy (gt_aifactory_project_id env)) then Inr (False, s)
        else res_bind (set_git_config t new_conn new_repo now
          \<lparr>cu_provider = gt_provider env, cu_base_url = Some (gt_base_url env), cu_project = gt_project env,
           cu_intake_project = None, cu_aifactory_project_id = gt_aifactory_project_id env, cu_default_labels = []\<rparr> s)
          (\<lambda>s'. Inr (True, s')))"

section \<open>Credentials\<close>

datatype store_error = GitErr git_error | CredErr credential_error | EmptyCredential | DbErr db_error

definition lift_err :: "('e \<Rightarrow> 'f) \<Rightarrow> 'e + 'a \<Rightarrow> 'f + 'a" where
  "lift_err f r = (case r of Inl e \<Rightarrow> Inl (f e) | Inr a \<Rightarrow> Inr a)"

definition cred_match :: "string \<Rightarrow> nat \<Rightarrow> git_cred \<Rightarrow> bool" where
  "cred_match t cid k = (gk_connection k = Some cid \<and> gk_tenant k = t)"

definition credential_row :: "string \<Rightarrow> nat \<Rightarrow> git_db \<Rightarrow> git_cred option" where
  "credential_row t cid s = List.find (cred_match t cid) (gd_creds s)"

text \<open>\<open>_store_sealed\<close>: update the tenant's row or insert one; the unique index on the connection
  refuses a second row, and the one retry finds the same rows when nothing ran between.\<close>

definition store_sealed :: "string \<Rightarrow> nat \<Rightarrow> sealed \<Rightarrow> int \<Rightarrow> git_db \<Rightarrow> db_error + git_db" where
  "store_sealed t cid sl now s =
    (if credential_row t cid s \<noteq> None
     then Inr (s\<lparr>gd_creds := update_where (cred_match t cid) (\<lambda>k. k\<lparr>gk_sealed := sl, gk_updated_at := now\<rparr>) (gd_creds s)\<rparr>)
     else if list_ex (\<lambda>k. gk_connection k = Some cid) (gd_creds s) then Inl IntegrityError
     else Inr (s\<lparr>gd_creds := gd_creds s @ [\<lparr>gk_tenant = t, gk_connection = Some cid, gk_sealed = sl, gk_updated_at = now\<rparr>]\<rparr>))"

definition set_connection_credential ::
  "aead_enc \<Rightarrow> seal_random \<Rightarrow> string option \<Rightarrow> string \<Rightarrow> nat \<Rightarrow> string option \<Rightarrow> int \<Rightarrow> git_db \<Rightarrow> store_error + cred_info \<times> git_db" where
  "set_connection_credential enc rnd spec t cid secret now s =
    res_bind (lift_err GitErr (connection t cid s)) (\<lambda>c.
      let v = strip (or_empty secret)
      in if v = [] then Inl EmptyCredential
         else res_bind (lift_err CredErr (require_keyring spec)) (\<lambda>ring.
           let sl = seal enc rnd v t cid ring
           in res_bind (lift_err DbErr (store_sealed t cid sl now s)) (\<lambda>s1.
              res_bind (lift_err GitErr (patch_connection t cid now
                  \<lparr>cm_verified_at = None, cm_verify_error = None, cm_credential_rejected = Some None\<rparr> s1)) (\<lambda>s2.
                Inr (\<lparr>ci_configured = True, ci_source = SrcTenant, ci_updated_at = Some now,
                      ci_key_version = Some (sl_key_version sl)\<rparr>, s2)))))"

definition clear_connection_credential :: "string \<Rightarrow> nat \<Rightarrow> git_db \<Rightarrow> git_error + bool \<times> git_db" where
  "clear_connection_credential t cid s =
    res_bind (connection t cid s) (\<lambda>_.
      if credential_row t cid s = None then Inr (False, s)
      else Inr (True, s\<lparr>gd_creds := filter (\<lambda>k. \<not> cred_match t cid k) (gd_creds s)\<rparr>))"

text \<open>\<open>_migrate_sealed\<close>: re-wrap onto the active key, then re-seal onto the current binding; each
  result is stored, and a credential error stops without raising.\<close>

definition migrate_sealed ::
  "aead_enc \<Rightarrow> aead_dec \<Rightarrow> seal_random \<Rightarrow> sealed \<Rightarrow> string \<Rightarrow> nat \<Rightarrow> keyring \<Rightarrow> int \<Rightarrow> git_db \<Rightarrow> db_error + git_db" where
  "migrate_sealed enc dec rnd cur t cid ring now s = (case rewrap enc dec (sr_nonce_kek rnd) cur t cid ring of
     Inl _ \<Rightarrow> Inr s
   | Inr w \<Rightarrow>
      (let cur' = (case w of None \<Rightarrow> cur | Some x \<Rightarrow> x)
       in res_bind (case w of None \<Rightarrow> Inr s | Some x \<Rightarrow> store_sealed t cid x now s) (\<lambda>s1.
          case reseal enc dec rnd cur' t cid ring of
            Inl _ \<Rightarrow> Inr s1 | Inr None \<Rightarrow> Inr s1 | Inr (Some y) \<Rightarrow> store_sealed t cid y now s1)))"

text \<open>\<open>_fetch_credential\<close> gives the secret, whether an audit entry is appended and with which
  outcome, and the store after the lazy migration.\<close>

definition fetch_credential ::
  "aead_enc \<Rightarrow> aead_dec \<Rightarrow> seal_random \<Rightarrow> string option \<Rightarrow> string \<Rightarrow> nat \<Rightarrow> int \<Rightarrow> git_db
    \<Rightarrow> db_error + string option \<times> bool option \<times> git_db" where
  "fetch_credential enc dec rnd spec t cid now s = (case credential_row t cid s of
     None \<Rightarrow> Inr (None, None, s)
   | Some k \<Rightarrow>
      (case res_bind (require_keyring spec) (\<lambda>ring. res_bind (unseal dec (gk_sealed k) t cid ring) (\<lambda>v. Inr (ring, v))) of
         Inl _ \<Rightarrow> Inr (None, Some False, s)
       | Inr (ring, v) \<Rightarrow> res_bind (migrate_sealed enc dec rnd (gk_sealed k) t cid ring now s) (\<lambda>s'.
           Inr (Some v, Some True, s'))))"

definition holds_key :: "string option \<Rightarrow> string \<Rightarrow> bool" where
  "holds_key spec key_version = (case load_keyring spec of
     Inr (Some ring) \<Rightarrow> find_key ring key_version \<noteq> None | _ \<Rightarrow> False)"

definition install_match :: "string \<Rightarrow> nat \<Rightarrow> git_install \<Rightarrow> bool" where
  "install_match t cid i = (gi_connection i = cid \<and> gi_tenant i = t)"

definition install_row :: "string \<Rightarrow> nat \<Rightarrow> git_db \<Rightarrow> git_install option" where
  "install_row t cid s = List.find (install_match t cid) (gd_installs s)"

definition install_credential :: "git_install \<Rightarrow> cred_info" where
  "install_credential i = \<lparr>ci_configured = (gi_status i = INSTALLED), ci_source = SrcInstall,
     ci_updated_at = Some (gi_updated_at i), ci_key_version = None\<rparr>"

definition connection_credential :: "string \<Rightarrow> nat \<Rightarrow> git_settings \<Rightarrow> string option \<Rightarrow> git_db \<Rightarrow> cred_info" where
  "connection_credential t cid st spec s = (case install_row t cid s of
     Some i \<Rightarrow> install_credential i
   | None \<Rightarrow> (case credential_row t cid s of
        None \<Rightarrow> env_credential (provider_token st)
      | Some k \<Rightarrow> \<lparr>ci_configured = holds_key spec (sl_key_version (gk_sealed k)), ci_source = SrcTenant,
          ci_updated_at = Some (gk_updated_at k), ci_key_version = Some (sl_key_version (gk_sealed k))\<rparr>))"

definition tenant_credential :: "string \<Rightarrow> git_settings \<Rightarrow> string option \<Rightarrow> git_db \<Rightarrow> cred_info" where
  "tenant_credential t st spec s =
    (case (case default_repository t s of Some (c, _) \<Rightarrow> Some c
           | None \<Rightarrow> (case connections t s of [] \<Rightarrow> None | c # _ \<Rightarrow> Some c)) of
       None \<Rightarrow> env_credential (provider_token st)
     | Some c \<Rightarrow> connection_credential t (gc_id c) st spec s)"

section \<open>Targets and views\<close>

definition target_from_repository :: "git_conn \<times> git_repo \<Rightarrow> git_settings \<Rightarrow> cred_info option \<Rightarrow> git_target" where
  "target_from_repository resolved st credential =
    (let (c, r) = resolved; provider = provider_kind (gc_provider c)
     in \<lparr>gt_tenant = gc_tenant c, gt_provider = provider, gt_base_url = resolved_base_url provider (gc_base_url c),
         gt_project = Some (gr_project r),
         gt_import_project = py_or (gr_intake_project r) (Some (gr_project r)),
         gt_aifactory_project_id = gr_aifactory_project_id r, gt_default_labels = str_labels (gr_default_labels r),
         gt_credential = (case credential of Some x \<Rightarrow> x | None \<Rightarrow> env_credential (provider_token st)),
         gt_stored = True, gt_verified_at = gc_verified_at c, gt_verify_error = gc_verify_error c,
         gt_credential_rejected = gc_credential_rejected c,
         gt_connection_id = Some (gc_id c), gt_repository_id = Some (gr_id r)\<rparr>)"

definition git_target_for ::
  "string \<Rightarrow> git_settings \<Rightarrow> string option \<Rightarrow> nat option \<Rightarrow> string option \<Rightarrow> git_db \<Rightarrow> git_error + git_target" where
  "git_target_for t st spec repository_id project s =
    res_bind (resolve_repository t repository_id project s) (\<lambda>resolved. case resolved of
       None \<Rightarrow> Inr (target_from_settings st t (Some (tenant_credential t st spec s)))
     | Some (c, r) \<Rightarrow> Inr (target_from_repository (c, r) st (Some (connection_credential t (gc_id c) st spec s))))"

record repo_view =
  rv_id :: nat
  rv_connection :: nat
  rv_tenant :: string
  rv_project :: string
  rv_intake_project :: "string option"
  rv_aifactory_project_id :: "string option"
  rv_default_labels :: "string list"
  rv_is_default :: bool

definition repository_view :: "git_repo \<Rightarrow> repo_view" where
  "repository_view r = \<lparr>rv_id = gr_id r, rv_connection = gr_connection r, rv_tenant = gr_tenant r, rv_project = gr_project r,
     rv_intake_project = gr_intake_project r, rv_aifactory_project_id = gr_aifactory_project_id r,
     rv_default_labels = str_labels (gr_default_labels r), rv_is_default = is_default r\<rparr>"

record conn_view =
  cv_id :: nat
  cv_tenant :: string
  cv_provider :: string
  cv_base_url :: string
  cv_label :: string
  cv_status :: git_status
  cv_credential :: cred_info
  cv_install :: "git_install option"
  cv_verified_at :: "int option"
  cv_verify_error :: "string option"
  cv_repositories :: "repo_view list"

definition connection_view :: "git_conn \<Rightarrow> git_repo list \<Rightarrow> cred_info \<Rightarrow> git_install option \<Rightarrow> conn_view" where
  "connection_view c repos credential install =
    (let provider = provider_kind (gc_provider c)
     in \<lparr>cv_id = gc_id c, cv_tenant = gc_tenant c, cv_provider = provider,
         cv_base_url = resolved_base_url provider (gc_base_url c),
         cv_label = (if gc_label c = [] then provider else gc_label c),
         cv_status = derive_status (case repos of [] \<Rightarrow> None | r # _ \<Rightarrow> Some (gr_project r)) (ci_configured credential)
           (gc_verified_at c) (gc_credential_rejected c),
         cv_credential = credential, cv_install = install, cv_verified_at = gc_verified_at c,
         cv_verify_error = gc_verify_error c, cv_repositories = map repository_view repos\<rparr>)"

section \<open>Installs\<close>

text \<open>\<open>digest\<close> is the hash of a state token, which is drawn outside.\<close>

definition start_install :: "(string \<Rightarrow> string) \<Rightarrow> string \<Rightarrow> string \<Rightarrow> nat \<Rightarrow> string \<Rightarrow> int \<Rightarrow> git_db \<Rightarrow> store_error + string \<times> git_db" where
  "start_install digest token t cid redirect_uri now s =
    res_bind (lift_err GitErr (connection t cid s)) (\<lambda>c.
      if digest token \<in> is_hash ` set (gd_states s) then Inl (DbErr IntegrityError)
      else Inr (token, s\<lparr>gd_states := gd_states s @ [\<lparr>is_hash = digest token, is_tenant = t, is_connection = gc_id c,
        is_provider = gc_provider c, is_redirect_uri = redirect_uri, is_expires_at = now + 600 * 1000000\<rparr>]\<rparr>))"

text \<open>\<open>consume_install_state\<close> reads the row and deletes it by its primary key; the delete does not
  check that the row was still there.  The two statements are kept apart so that two
  callbacks can interleave.\<close>

definition read_state :: "(string \<Rightarrow> string) \<Rightarrow> string \<Rightarrow> git_db \<Rightarrow> install_state option" where
  "read_state digest token s = (if strip token = [] then None
     else List.find (\<lambda>i. is_hash i = digest token) (gd_states s))"

definition drop_state :: "install_state \<Rightarrow> git_db \<Rightarrow> git_db" where
  "drop_state i s = s\<lparr>gd_states := filter (\<lambda>j. is_hash j \<noteq> is_hash i) (gd_states s)\<rparr>"

definition live_state :: "int \<Rightarrow> install_state \<Rightarrow> install_state option" where
  "live_state now i = (if is_expires_at i < now then None else Some i)"

definition consume_install_state :: "(string \<Rightarrow> string) \<Rightarrow> string \<Rightarrow> int \<Rightarrow> git_db \<Rightarrow> install_state option \<times> git_db" where
  "consume_install_state digest token now s = (case read_state digest token s of
     None \<Rightarrow> (None, s)
   | Some i \<Rightarrow> (live_state now i, drop_state i s))"

definition record_install ::
  "string \<Rightarrow> nat \<Rightarrow> string \<Rightarrow> string option \<Rightarrow> string option \<Rightarrow> int \<Rightarrow> git_db \<Rightarrow> store_error + git_install \<times> git_db" where
  "record_install t cid provider installation_id account now s =
    res_bind (lift_err GitErr (connection t cid s)) (\<lambda>c.
      let s0 = forget_token t cid s;
          fill = (\<lambda>i. i\<lparr>gi_provider := provider, gi_installation_id := installation_id, gi_account := account,
            gi_status := INSTALLED, gi_error := None, gi_updated_at := now\<rparr>)
      in case install_row t cid s0 of
           Some i \<Rightarrow> Inr (fill i, s0\<lparr>gd_installs := update_where (install_match t cid) fill (gd_installs s0)\<rparr>)
         | None \<Rightarrow>
             (let i = fill \<lparr>gi_tenant = t, gi_connection = gc_id c, gi_provider = GITHUB, gi_installation_id = None,
                gi_account = None, gi_status = INSTALLED, gi_error = None, gi_created_at = now, gi_updated_at = now\<rparr>
              in if list_ex (\<lambda>j. gi_connection j = cid) (gd_installs s0) then Inl (DbErr IntegrityError)
                 else Inr (i, s0\<lparr>gd_installs := gd_installs s0 @ [i]\<rparr>)))"

definition delete_install :: "string \<Rightarrow> nat \<Rightarrow> git_db \<Rightarrow> git_error + bool \<times> git_db" where
  "delete_install t cid s =
    res_bind (connection t cid s) (\<lambda>_.
      let s0 = forget_token t cid s
      in if install_row t cid s0 = None then Inr (False, s0)
         else (let s1 = s0\<lparr>gd_installs := filter (\<lambda>i. \<not> install_match t cid i) (gd_installs s0)\<rparr>
               in res_bind (clear_connection_credential t cid s1) (\<lambda>(_, s2). Inr (True, s2))))"

definition patch_install :: "string \<Rightarrow> nat \<Rightarrow> install_status \<Rightarrow> string option \<Rightarrow> int \<Rightarrow> git_db \<Rightarrow> git_db" where
  "patch_install t cid status err now s = s\<lparr>gd_installs := update_where (install_match t cid)
     (\<lambda>i. i\<lparr>gi_status := status, gi_error := err, gi_updated_at := now\<rparr>) (gd_installs s)\<rparr>"

definition degrade_install :: "string \<Rightarrow> nat \<Rightarrow> string \<Rightarrow> int \<Rightarrow> git_db \<Rightarrow> git_db" where
  "degrade_install t cid reason now s = patch_install t cid INSTALL_DEGRADED (Some (take 512 reason)) now s"

definition recover_install :: "string \<Rightarrow> nat \<Rightarrow> int \<Rightarrow> git_db \<Rightarrow> git_db" where
  "recover_install t cid now s = (case install_row t cid s of
     Some i \<Rightarrow> if gi_status i \<noteq> INSTALLED then patch_install t cid INSTALLED None now s else s
   | None \<Rightarrow> s)"

end
