(* ===== verification/GitSafety.thy ===== *)
theory GitSafety
  imports Gitstore
begin

text \<open>
  The git configuration store is safe to share: one preservation lemma per operation of
  \<open>Gitstore\<close>, the interpretation of \<open>tenant_store\<close> on all of them, and the properties of the
  default repository, of a deleted repository, and of a pending install.
\<close>

section \<open>Well-formed stores\<close>

definition owned :: "string \<Rightarrow> nat \<Rightarrow> git_db \<Rightarrow> bool" where
  "owned t cid s = ((t, cid) \<in> (\<lambda>c. (gc_tenant c, gc_id c)) ` set (gd_conns s))"

definition cred_owned :: "git_db \<Rightarrow> git_cred \<Rightarrow> bool" where
  "cred_owned s k = (case gk_connection k of None \<Rightarrow> True | Some c \<Rightarrow> owned (gk_tenant k) c s)"

text \<open>Ids and the unique indexes; a default marker names the row's own tenant; and everything that
  hangs off a connection belongs to a connection of its tenant.\<close>

definition git_ok :: "git_db \<Rightarrow> bool" where
  "git_ok s = (distinct (map gc_id (gd_conns s)) \<and> keys_unique conn_key (gd_conns s)
     \<and> distinct (map gr_id (gd_repos s)) \<and> keys_unique repo_key (gd_repos s) \<and> keys_unique gr_default_for (gd_repos s)
     \<and> list_all (\<lambda>r. gr_default_for r \<in> {None, Some (gr_tenant r)} \<and> owned (gr_tenant r) (gr_connection r) s) (gd_repos s)
     \<and> list_all (cred_owned s) (gd_creds s)
     \<and> list_all (\<lambda>i. owned (gi_tenant i) (gi_connection i) s) (gd_installs s)
     \<and> list_all (\<lambda>i. owned (is_tenant i) (is_connection i) s) (gd_states s))"

text \<open>What a tenant can see.\<close>

definition git_view :: "string \<Rightarrow> git_db \<Rightarrow> git_conn list \<times> git_repo list \<times> git_cred list \<times> git_install list \<times> install_state list" where
  "git_view t s = (tenant_rows gc_tenant t (gd_conns s), tenant_rows gr_tenant t (gd_repos s),
     tenant_rows gk_tenant t (gd_creds s), tenant_rows gi_tenant t (gd_installs s), tenant_rows is_tenant t (gd_states s))"

definition step_ok :: "string \<Rightarrow> git_db \<Rightarrow> git_db \<Rightarrow> bool" where
  "step_ok t s s' = (git_ok s \<longrightarrow> git_ok s' \<and> (\<forall>t'. t' \<noteq> t \<longrightarrow> git_view t' s' = git_view t' s))"

lemma step_ok_refl [simp, intro]: "step_ok t s s"
  by (simp add: step_ok_def)

lemma step_ok_trans: "step_ok t s s1 \<Longrightarrow> step_ok t s1 s2 \<Longrightarrow> step_ok t s s2"
  by (simp add: step_ok_def)

lemma owned_simps [simp]:
  "owned t cid (s\<lparr>gd_repos := a\<rparr>) = owned t cid s" "owned t cid (s\<lparr>gd_creds := b\<rparr>) = owned t cid s"
  "owned t cid (s\<lparr>gd_installs := d\<rparr>) = owned t cid s" "owned t cid (s\<lparr>gd_states := e\<rparr>) = owned t cid s"
  "owned t cid (s\<lparr>gd_tokens := f\<rparr>) = owned t cid s"
  by (simp_all add: owned_def)

lemma owned_append [simp]:
  "owned t cid (s\<lparr>gd_conns := gd_conns s @ [c]\<rparr>) \<longleftrightarrow> owned t cid s \<or> (t = gc_tenant c \<and> cid = gc_id c)"
  by (auto simp: owned_def)

lemma cred_owned_iff: "cred_owned s k \<longleftrightarrow> (\<forall>c. gk_connection k = Some c \<longrightarrow> owned (gk_tenant k) c s)"
  by (simp add: cred_owned_def split: option.splits)

lemma cred_owned_simps [simp]:
  "cred_owned (s\<lparr>gd_repos := a\<rparr>) = cred_owned s" "cred_owned (s\<lparr>gd_creds := b\<rparr>) = cred_owned s"
  "cred_owned (s\<lparr>gd_installs := d\<rparr>) = cred_owned s" "cred_owned (s\<lparr>gd_states := e\<rparr>) = cred_owned s"
  "cred_owned (s\<lparr>gd_tokens := f\<rparr>) = cred_owned s"
  by (simp_all add: fun_eq_iff cred_owned_iff)

lemma owned_unique: "git_ok s \<Longrightarrow> owned t cid s \<Longrightarrow> owned t' cid s \<Longrightarrow> t = t'"
  by (auto simp: owned_def git_ok_def distinct_map inj_on_def)

lemma connection_or_none_Some:
  "connection_or_none t cid s = Some c \<Longrightarrow> c \<in> set (gd_conns s) \<and> gc_id c = cid \<and> gc_tenant c = t \<and> owned t cid s"
  unfolding connection_or_none_def owned_def by (drule find_SomeD) auto

lemma connection_Inr: "connection t cid s = Inr c \<longleftrightarrow> connection_or_none t cid s = Some c"
  by (simp add: connection_def split: option.splits)

lemma connection_owned: "owned t cid s \<longleftrightarrow> (\<exists>c. connection_or_none t cid s = Some c)"
  by (auto simp: connection_or_none_def owned_def find_exists)

lemma repository_Inr: "repository t rid s = Inr r \<Longrightarrow> r \<in> set (gd_repos s) \<and> gr_id r = rid \<and> gr_tenant r = t"
  by (auto simp: repository_def split: option.splits dest!: find_SomeD)

lemma insert_conn_ok: "insert_conn c s = Inr s' \<Longrightarrow> step_ok (gc_tenant c) s s'"
  by (auto simp: step_ok_def insert_conn_def git_ok_def keys_unique_snoc list_all_iff git_view_def
      tenant_rows_def cred_owned_iff split: if_splits)

lemma update_conns_ok:
  assumes t: "\<And>c. c \<in> set (gd_conns s) \<Longrightarrow> gc_id c = cid \<Longrightarrow> gc_tenant c = t \<and> gc_tenant (f c) = t \<and> gc_id (f c) = cid"
    and key: "git_ok s \<Longrightarrow> keys_unique conn_key (update_where (\<lambda>c. gc_id c = cid) f (gd_conns s))"
  shows "step_ok t s (s\<lparr>gd_conns := update_where (\<lambda>c. gc_id c = cid) f (gd_conns s)\<rparr>)"
proof -
  let ?s' = "s\<lparr>gd_conns := update_where (\<lambda>c. gc_id c = cid) f (gd_conns s)\<rparr>"
  have "map (\<lambda>c. (gc_tenant c, gc_id c)) (update_where (\<lambda>c. gc_id c = cid) f (gd_conns s)) = map (\<lambda>c. (gc_tenant c, gc_id c)) (gd_conns s)"
    using t by (intro map_update_where) auto
  then have "set (map (\<lambda>c. (gc_tenant c, gc_id c)) (update_where (\<lambda>c. gc_id c = cid) f (gd_conns s)))
      = set (map (\<lambda>c. (gc_tenant c, gc_id c)) (gd_conns s))" by (rule arg_cong)
  then have o: "owned a c ?s' = owned a c s" for a c by (simp add: owned_def)
  have ids: "map gc_id (update_where (\<lambda>c. gc_id c = cid) f (gd_conns s)) = map gc_id (gd_conns s)"
    using t by (intro map_update_where) auto
  have "tenant_rows gc_tenant t' (update_where (\<lambda>c. gc_id c = cid) f (gd_conns s)) = tenant_rows gc_tenant t' (gd_conns s)"
    if "t' \<noteq> t" for t' using t that by (intro tenant_rows_update_other) auto
  then show ?thesis using key by (simp add: step_ok_def git_ok_def o ids git_view_def cred_owned_iff list_all_iff)
qed

lemma update_repos_ok:
  assumes t: "\<And>r. r \<in> set (gd_repos s) \<Longrightarrow> p r \<Longrightarrow> gr_tenant r = t \<and> gr_tenant (f r) = t
      \<and> gr_id (f r) = gr_id r \<and> gr_connection (f r) = gr_connection r"
    and marks: "\<And>r. r \<in> set (gd_repos s) \<Longrightarrow> p r \<Longrightarrow> gr_default_for (f r) \<in> {None, Some t}
      \<or> gr_default_for (f r) = gr_default_for r"
    and key: "git_ok s \<Longrightarrow> keys_unique repo_key (update_where p f (gd_repos s))"
    and dfl: "git_ok s \<Longrightarrow> keys_unique gr_default_for (update_where p f (gd_repos s))"
  shows "step_ok t s (s\<lparr>gd_repos := update_where p f (gd_repos s)\<rparr>)"
proof -
  let ?s' = "s\<lparr>gd_repos := update_where p f (gd_repos s)\<rparr>"
  have ids: "map gr_id (update_where p f (gd_repos s)) = map gr_id (gd_repos s)"
    using t by (intro map_update_where) auto
  have v: "tenant_rows gr_tenant t' (update_where p f (gd_repos s)) = tenant_rows gr_tenant t' (gd_repos s)"
    if "t' \<noteq> t" for t' using t that by (intro tenant_rows_update_other) auto
  have "gr_default_for r \<in> {None, Some (gr_tenant r)} \<and> owned (gr_tenant r) (gr_connection r) s"
    if ok: "git_ok s" and r: "r \<in> set (update_where p f (gd_repos s))" for r
  proof -
    obtain r0 where r0: "r0 \<in> set (gd_repos s)" "r = (if p r0 then f r0 else r0)" using r by (auto simp: in_update_where)
    have "gr_default_for r0 \<in> {None, Some (gr_tenant r0)} \<and> owned (gr_tenant r0) (gr_connection r0) s"
      using ok r0(1) by (auto simp: git_ok_def list_all_iff)
    then show ?thesis using r0 t [OF r0(1)] marks [OF r0(1)] by (cases "p r0") auto
  qed
  then have rows: "git_ok s \<Longrightarrow> list_all (\<lambda>r. gr_default_for r \<in> {None, Some (gr_tenant r)} \<and> owned (gr_tenant r) (gr_connection r) ?s')
      (update_where p f (gd_repos s))" unfolding list_all_iff owned_simps by blast
  have "git_ok ?s'" if ok: "git_ok s"
    using ok rows [OF ok] key [OF ok] dfl [OF ok] unfolding git_ok_def by (simp add: ids)
  moreover have "git_view t' ?s' = git_view t' s" if "t' \<noteq> t" for t' using v [OF that] by (simp add: git_view_def)
  ultimately show ?thesis by (simp add: step_ok_def)
qed

lemma insert_repo_ok:
  assumes "insert_repo r s = Inr s'" "gr_default_for r = None" "owned (gr_tenant r) (gr_connection r) s"
  shows "step_ok (gr_tenant r) s s'"
proof -
  have s': "s' = s\<lparr>gd_repos := gd_repos s @ [r]\<rparr>" "gr_id r \<notin> gr_id ` set (gd_repos s)" "\<not> key_used repo_key r (gd_repos s)"
    using assms(1) by (simp_all add: insert_repo_def split: if_splits)
  have "git_ok s'" if ok: "git_ok s"
  proof -
    note ok' = ok [unfolded git_ok_def list_all_iff]
    have "keys_unique repo_key (gd_repos s')" "keys_unique gr_default_for (gd_repos s')" "distinct (map gr_id (gd_repos s'))"
      using ok' s' assms(2) by (simp_all add: keys_unique_snoc)
    moreover have "list_all (\<lambda>r. gr_default_for r \<in> {None, Some (gr_tenant r)} \<and> owned (gr_tenant r) (gr_connection r) s') (gd_repos s')"
      using ok' assms(2,3) by (simp add: s'(1) list_all_iff)
    moreover have "list_all (cred_owned s') (gd_creds s')" using ok' by (simp add: s'(1) list_all_iff cred_owned_iff)
    moreover have "list_all (\<lambda>i. owned (gi_tenant i) (gi_connection i) s') (gd_installs s')"
      "list_all (\<lambda>i. owned (is_tenant i) (is_connection i) s') (gd_states s')"
      using ok' by (simp_all add: s'(1) list_all_iff)
    ultimately show ?thesis using ok' unfolding git_ok_def by (simp add: s'(1))
  qed
  moreover have "git_view t' s' = git_view t' s" if "t' \<noteq> gr_tenant r" for t'
    using that by (simp add: s'(1) git_view_def tenant_rows_def)
  ultimately show ?thesis by (simp add: step_ok_def)
qed

lemma delete_repos_ok:
  assumes "\<And>r. git_ok s \<Longrightarrow> r \<in> set (gd_repos s) \<Longrightarrow> \<not> p r \<Longrightarrow> gr_tenant r = t"
  shows "step_ok t s (s\<lparr>gd_repos := filter p (gd_repos s)\<rparr>)"
proof -
  have "tenant_rows gr_tenant t' (filter p (gd_repos s)) = tenant_rows gr_tenant t' (gd_repos s)"
    if "git_ok s" "t' \<noteq> t" for t' using assms that by (intro tenant_rows_filter_other) blast
  then show ?thesis
    by (simp add: step_ok_def git_ok_def git_view_def distinct_map_filter list_all_iff cred_owned_iff keys_unique_filter)
qed

lemma step_okI: "(git_ok s \<Longrightarrow> step_ok t s s') \<Longrightarrow> step_ok t s s'"
  by (auto simp: step_ok_def)

lemma git_ok_repo:
  assumes "git_ok s" "r \<in> set (gd_repos s)"
  shows "gr_default_for r \<in> {None, Some (gr_tenant r)}" "owned (gr_tenant r) (gr_connection r) s"
  using assms by (auto simp: git_ok_def list_all_iff)

lemma git_okD:
  assumes "git_ok s"
  shows "distinct (map gc_id (gd_conns s))" "keys_unique conn_key (gd_conns s)" "distinct (map gr_id (gd_repos s))"
    "keys_unique repo_key (gd_repos s)" "keys_unique gr_default_for (gd_repos s)"
  using assms by (simp_all add: git_ok_def)

lemma git_ok_default: "git_ok s \<Longrightarrow> r \<in> set (gd_repos s) \<Longrightarrow> gr_default_for r = Some t \<Longrightarrow> gr_tenant r = t"
  using git_ok_repo(1) by force

lemma git_ok_ids: "git_ok s \<Longrightarrow> r \<in> set (gd_repos s) \<Longrightarrow> r' \<in> set (gd_repos s) \<Longrightarrow> gr_id r = gr_id r' \<Longrightarrow> r = r'"
  by (auto simp: git_ok_def distinct_map inj_on_def)

lemma git_ok_conn_ids: "git_ok s \<Longrightarrow> c \<in> set (gd_conns s) \<Longrightarrow> c' \<in> set (gd_conns s) \<Longrightarrow> gc_id c = gc_id c' \<Longrightarrow> c = c'"
  by (auto simp: git_ok_def distinct_map inj_on_def)

lemma on_integrity_Inr: "on_integrity e r = Inr x \<longleftrightarrow> r = Inr x"
  by (simp add: on_integrity_def split: sum.splits)

lemma lift_err_Inr: "lift_err f r = Inr x \<longleftrightarrow> r = Inr x"
  by (simp add: lift_err_def split: sum.splits)

lemma create_connection_ok: "create_connection t i now body s = Inr (c, s') \<Longrightarrow> step_ok t s s' \<and> gc_id c = i \<and> gc_tenant c = t"
  by (auto simp: create_connection_def res_bind_Inr_iff on_integrity_Inr Let_def dest!: insert_conn_ok)

lemma update_conn_ok:
  assumes "update_conn c s = Inr s'" "cur \<in> set (gd_conns s)" "gc_id cur = gc_id c" "gc_tenant cur = gc_tenant c"
  shows "step_ok (gc_tenant c) s s'"
proof (rule step_okI)
  assume ok: "git_ok s"
  have s': "s' = s\<lparr>gd_conns := update_where (\<lambda>d. gc_id d = gc_id c) (\<lambda>_. c) (gd_conns s)\<rparr>"
    and free: "\<not> key_used conn_key c (filter (\<lambda>d. gc_id d \<noteq> gc_id c) (gd_conns s))"
    using assms(1) by (simp_all add: update_conn_def split: if_splits)
  show "step_ok (gc_tenant c) s s'" unfolding s'
  proof (rule update_conns_ok)
    show "gc_tenant d = gc_tenant c \<and> gc_tenant c = gc_tenant c \<and> gc_id c = gc_id c"
      if "d \<in> set (gd_conns s)" "gc_id d = gc_id c" for d
      using git_ok_conn_ids [OF ok that(1) assms(2)] that assms by simp
    show "keys_unique conn_key (update_where (\<lambda>d. gc_id d = gc_id c) (\<lambda>_. c) (gd_conns s))"
      using ok free by (intro keys_unique_update_id) (auto simp: git_ok_def)
  qed
qed

lemma update_connection_ok:
  assumes "update_connection t cid now body s = Inr (c, s')"
  shows "step_ok t s s' \<and> gc_id c = cid \<and> gc_tenant c = t"
proof -
  obtain cur c' where cur: "connection t cid s = Inr cur" and c: "c = c'" "update_conn c' s = Inr s'"
      "gc_id c' = gc_id cur" "gc_tenant c' = gc_tenant cur"
    using assms by (auto simp: update_connection_def res_bind_Inr_iff on_integrity_Inr Let_def)
  have "cur \<in> set (gd_conns s) \<and> gc_id cur = cid \<and> gc_tenant cur = t"
    using cur connection_or_none_Some by (auto simp: connection_Inr)
  then show ?thesis using update_conn_ok [OF c(2), of cur] c by auto
qed

lemma patch_connection_ok:
  assumes "patch_connection t cid now m s = Inr s'" shows "step_ok t s s'"
proof (rule step_okI)
  assume ok: "git_ok s"
  obtain c where c: "List.find (\<lambda>c. gc_id c = cid) (gd_conns s) = Some c" "gc_tenant c = t"
    using assms by (auto simp: patch_connection_def split: option.splits if_splits)
  have mem: "c \<in> set (gd_conns s)" "gc_id c = cid" using find_SomeD [OF c(1)] by simp_all
  have s': "s' = s\<lparr>gd_conns := update_where (\<lambda>d. gc_id d = cid)
         (\<lambda>d. d\<lparr>gc_verified_at := sent_or (cm_verified_at m) (gc_verified_at d),
                gc_verify_error := sent_or (cm_verify_error m) (gc_verify_error d),
                gc_credential_rejected := sent_or (cm_credential_rejected m) (gc_credential_rejected d),
                gc_updated_at := now\<rparr>) (gd_conns s)\<rparr>"
    using assms c by (simp add: patch_connection_def)
  show "step_ok t s s'" unfolding s'
  proof (rule update_conns_ok)
    show "keys_unique conn_key (update_where (\<lambda>d. gc_id d = cid)
         (\<lambda>d. d\<lparr>gc_verified_at := sent_or (cm_verified_at m) (gc_verified_at d),
                gc_verify_error := sent_or (cm_verify_error m) (gc_verify_error d),
                gc_credential_rejected := sent_or (cm_credential_rejected m) (gc_credential_rejected d),
                gc_updated_at := now\<rparr>) (gd_conns s))"
      using git_okD(2) [OF ok] by (subst keys_unique_update_same) (simp_all add: conn_key_def)
  qed (use git_ok_conn_ids [OF ok _ mem(1)] mem c(2) in auto)
qed

lemma clear_defaults_ok [simp, intro]: "step_ok t s (clear_defaults t keep now s)"
proof (rule step_okI)
  assume ok: "git_ok s"
  show "step_ok t s (clear_defaults t keep now s)" unfolding clear_defaults_def
  proof (rule update_repos_ok)
    let ?p = "\<lambda>r. gr_default_for r = Some t \<and> Some (gr_id r) \<noteq> keep"
    let ?f = "\<lambda>r. r\<lparr>gr_default_for := None, gr_updated_at := now\<rparr>"
    show "keys_unique repo_key (update_where ?p ?f (gd_repos s))"
      using git_okD(4) [OF ok] by (subst keys_unique_update_same) (simp_all add: repo_key_def)
    show "keys_unique gr_default_for (update_where ?p ?f (gd_repos s))"
      using git_okD(5) [OF ok] by (rule keys_unique_clear) simp
  qed (use git_ok_default [OF ok] in auto)
qed

lemma update_one_repo_ok:
  assumes "r \<in> set (gd_repos s)" "gr_tenant r = t"
    and same: "gr_tenant (f r) = t \<and> gr_id (f r) = gr_id r \<and> gr_connection (f r) = gr_connection r
      \<and> gr_default_for (f r) \<in> {Some t, gr_default_for r}"
    and free: "\<not> key_used repo_key (f r) (filter (\<lambda>d. gr_id d \<noteq> gr_id r) (gd_repos s))"
      "\<not> key_used gr_default_for (f r) (filter (\<lambda>d. gr_id d \<noteq> gr_id r) (gd_repos s))"
  shows "step_ok t s (s\<lparr>gd_repos := update_where (\<lambda>d. gr_id d = gr_id r) f (gd_repos s)\<rparr>)"
proof (rule step_okI)
  assume ok: "git_ok s"
  have one: "d = r" if "d \<in> set (gd_repos s)" "gr_id d = gr_id r" for d using git_ok_ids [OF ok that(1) assms(1) that(2)] .
  have ids: "distinct (map gr_id (gd_repos s))" using ok by (simp add: git_ok_def)
  show "step_ok t s (s\<lparr>gd_repos := update_where (\<lambda>d. gr_id d = gr_id r) f (gd_repos s)\<rparr>)"
  proof (rule update_repos_ok)
    show "keys_unique repo_key (update_where (\<lambda>d. gr_id d = gr_id r) f (gd_repos s))"
      using ok free(1) one ids by (intro keys_unique_update_id) (auto simp: git_ok_def)
    show "keys_unique gr_default_for (update_where (\<lambda>d. gr_id d = gr_id r) f (gd_repos s))"
      using ok free(2) one ids by (intro keys_unique_update_id) (auto simp: git_ok_def)
  qed (use one assms(2) same in auto)
qed

lemma set_default_repository_ok:
  assumes "set_default_repository t rid now s = Inr (r, s')" shows "step_ok t s s'"
proof (rule step_okI)
  assume ok: "git_ok s"
  let ?s1 = "clear_defaults t (Some rid) now s"
  obtain r0 where r0: "repository t rid s = Inr r0" using assms by (auto simp: set_default_repository_def res_bind_Inr_iff)
  note r = repository_Inr [OF r0]
  have s': "s' = ?s1\<lparr>gd_repos := update_where (\<lambda>d. gr_id d = gr_id r0) (mark_default t now) (gd_repos ?s1)\<rparr>"
    using assms r by (auto simp: set_default_repository_def r0 Let_def)
  have ok1: "git_ok ?s1" using clear_defaults_ok ok by (simp add: step_ok_def)
  have mem: "r0 \<in> set (gd_repos ?s1)" using r by (auto simp: clear_defaults_def in_update_where)
  have none: "gr_default_for d \<noteq> Some t" if d1: "d \<in> set (gd_repos ?s1)" and d2: "gr_id d \<noteq> rid" for d
  proof
    assume d: "gr_default_for d = Some t"
    obtain e where "d = (if gr_default_for e = Some t \<and> Some (gr_id e) \<noteq> Some rid
        then e\<lparr>gr_default_for := None, gr_updated_at := now\<rparr> else e)"
      using d1 by (auto simp: clear_defaults_def in_update_where simp del: if_split_asm)
    then show False using d d2 by (auto split: if_splits)
  qed
  have key: "\<not> key_used repo_key r0 (filter (\<lambda>d. gr_id d \<noteq> gr_id r0) (gd_repos ?s1))"
    using mem by (intro keys_unique_others git_okD(4) [OF ok1]) simp_all
  have "step_ok t ?s1 s'" unfolding s'
    using mem r none key by (intro update_one_repo_ok) (auto simp: mark_default_def key_used_def repo_key_def list_ex_iff)
  then show "step_ok t s s'" using step_ok_trans clear_defaults_ok by blast
qed

lemma ensure_default_ok: "ensure_default t now s = Inr s' \<Longrightarrow> step_ok t s s'"
  by (auto simp: ensure_default_def res_bind_Inr_iff split: list.splits if_splits dest: set_default_repository_ok)

lemma set_default_ids: "set_default_repository t rid now s = Inr (r, s') \<Longrightarrow> map gr_id (gd_repos s') = map gr_id (gd_repos s)"
  by (auto simp: set_default_repository_def res_bind_Inr_iff Let_def clear_defaults_def mark_default_def update_where_def)

lemma ensure_default_ids: "ensure_default t now s = Inr s' \<Longrightarrow> map gr_id (gd_repos s') = map gr_id (gd_repos s)"
  by (auto simp: ensure_default_def res_bind_Inr_iff split: list.splits if_splits dest: set_default_ids)

lemma create_repository_ok:
  assumes "create_repository t i now cid body s = Inr (r, s')" shows "step_ok t s s'"
proof -
  obtain c p n a l where c: "connection t cid s = Inr c" "repository_fields body (gc_provider c) = Inr (p, n, a, l)"
    using assms by (auto simp: create_repository_def res_bind_Inr_iff)
  let ?row = "\<lparr>gr_id = i, gr_tenant = t, gr_connection = cid, gr_project = p, gr_intake_project = n,
    gr_aifactory_project_id = a, gr_default_labels = l, gr_default_for = None, gr_created_at = now, gr_updated_at = now\<rparr>"
  obtain s1 where s1: "insert_repo ?row s = Inr s1" and rest: "set_default_repository t i now s1 = Inr (r, s') \<or> s' = s1"
    using assms c by (auto simp: create_repository_def res_bind_Inr_iff on_integrity_Inr Let_def split: if_splits)
  have "step_ok t s s1"
    using insert_repo_ok [OF s1] c(1) connection_or_none_Some by (auto simp: connection_Inr)
  then show ?thesis using rest set_default_repository_ok step_ok_trans by blast
qed

lemma update_repo_ok:
  assumes "update_repo r s = Inr s'" "cur \<in> set (gd_repos s)" "gr_id cur = gr_id r" "gr_tenant cur = gr_tenant r"
    "gr_connection cur = gr_connection r" "gr_default_for cur = gr_default_for r"
  shows "step_ok (gr_tenant r) s s'"
proof (rule step_okI)
  assume ok: "git_ok s"
  have s': "s' = s\<lparr>gd_repos := update_where (\<lambda>d. gr_id d = gr_id cur) (\<lambda>_. r) (gd_repos s)\<rparr>"
    "\<not> key_used repo_key r (filter (\<lambda>d. gr_id d \<noteq> gr_id cur) (gd_repos s))"
    using assms(1,3) by (simp_all add: update_repo_def split: if_splits)
  have "\<not> key_used gr_default_for r (filter (\<lambda>d. gr_id d \<noteq> gr_id cur) (gd_repos s))"
    using assms(2,6) by (intro keys_unique_others git_okD(5) [OF ok]) simp_all
  then show "step_ok (gr_tenant r) s s'" unfolding s'(1) using s'(2) assms by (intro update_one_repo_ok) auto
qed

lemma update_repository_ok:
  assumes "update_repository t rid now body s = Inr (r, s')" shows "step_ok t s s'"
proof -
  obtain cur f where cur: "repository t rid s = Inr cur" and f: "s' = s \<or> update_repo (apply_patch f now cur) s = Inr s'"
    using assms by (auto simp: update_repository_def res_bind_Inr_iff on_integrity_Inr Let_def split: if_splits)
  then show ?thesis using update_repo_ok [of "apply_patch f now cur" s s' cur] repository_Inr [OF cur]
    by (auto simp: apply_patch_def)
qed

lemma delete_repository_split:
  assumes "delete_repository t rid now s = Inr s'"
  shows "\<exists>s1. step_ok t s s1 \<and> ensure_default t now s1 = Inr s'"
proof -
  obtain r where r: "repository t rid s = Inr r" "ensure_default t now (s\<lparr>gd_repos := filter (\<lambda>r. gr_id r \<noteq> rid) (gd_repos s)\<rparr>) = Inr s'"
    using assms by (auto simp: delete_repository_def res_bind_Inr_iff)
  have "step_ok t s (s\<lparr>gd_repos := filter (\<lambda>r. gr_id r \<noteq> rid) (gd_repos s)\<rparr>)"
    using repository_Inr [OF r(1)] git_ok_ids by (intro delete_repos_ok) blast
  then show ?thesis using r(2) by blast
qed

lemma delete_repository_ok: "delete_repository t rid now s = Inr s' \<Longrightarrow> step_ok t s s'"
  using delete_repository_split ensure_default_ok step_ok_trans by blast

lemma owned_filter:
  "gd_conns s' = filter (\<lambda>c. gc_id c \<noteq> cid) (gd_conns s) \<Longrightarrow> owned t c s' \<longleftrightarrow> owned t c s \<and> c \<noteq> cid"
  by (auto simp: owned_def)

lemma drop_connection_ok:
  assumes own: "owned t cid s"
    and s': "gd_conns s' = filter (\<lambda>c. gc_id c \<noteq> cid) (gd_conns s)" "gd_repos s' = filter (\<lambda>r. gr_connection r \<noteq> cid) (gd_repos s)"
      "gd_creds s' = filter (\<lambda>k. gk_connection k \<noteq> Some cid) (gd_creds s)"
      "gd_installs s' = filter (\<lambda>i. gi_connection i \<noteq> cid) (gd_installs s)"
      "gd_states s' = filter (\<lambda>i. is_connection i \<noteq> cid) (gd_states s)"
  shows "step_ok t s s'"
proof (rule step_okI)
  assume ok: "git_ok s"
  note o = owned_filter [OF s'(1)]
  have mine: "tn = t" if "owned tn cid s" for tn using owned_unique [OF ok own that] by simp
  note d = ok [unfolded git_ok_def list_all_iff]
  have "git_ok s'" using d unfolding git_ok_def s' list_all_iff cred_owned_iff o
    by (auto simp: distinct_map_filter keys_unique_filter)
  moreover have "git_view t' s' = git_view t' s" if t': "t' \<noteq> t" for t'
  proof -
    have "tenant_rows gc_tenant t' (gd_conns s') = tenant_rows gc_tenant t' (gd_conns s)"
      unfolding s' using mine t' by (intro tenant_rows_filter_other) (force simp: owned_def)
    moreover have "tenant_rows gr_tenant t' (gd_repos s') = tenant_rows gr_tenant t' (gd_repos s)"
      unfolding s' using mine t' d by (intro tenant_rows_filter_other) force
    moreover have "tenant_rows gk_tenant t' (gd_creds s') = tenant_rows gk_tenant t' (gd_creds s)"
      unfolding s' using mine t' d by (intro tenant_rows_filter_other) (force simp: cred_owned_iff)
    moreover have "tenant_rows gi_tenant t' (gd_installs s') = tenant_rows gi_tenant t' (gd_installs s)"
      unfolding s' using mine t' d by (intro tenant_rows_filter_other) force
    moreover have "tenant_rows is_tenant t' (gd_states s') = tenant_rows is_tenant t' (gd_states s)"
      unfolding s' using mine t' d by (intro tenant_rows_filter_other) force
    ultimately show ?thesis by (simp add: git_view_def)
  qed
  ultimately show "step_ok t s s'" by (simp add: step_ok_def)
qed

lemma forget_token_ok [simp, intro]: "step_ok t s (forget_token t' cid s)"
  by (simp add: step_ok_def git_ok_def forget_token_def git_view_def)

lemma forget_token_sel [simp]: "gd_conns (forget_token t cid s) = gd_conns s" "gd_repos (forget_token t cid s) = gd_repos s"
  "gd_creds (forget_token t cid s) = gd_creds s" "gd_installs (forget_token t cid s) = gd_installs s"
  "gd_states (forget_token t cid s) = gd_states s"
  by (simp_all add: forget_token_def)

lemma delete_connection_split:
  assumes "delete_connection t cid now s = Inr s'"
  shows "\<exists>s1. step_ok t s s1 \<and> ensure_default t now s1 = Inr s'"
proof -
  obtain c s1 where c: "connection t cid s = Inr c" and e: "ensure_default t now s1 = Inr s'"
    and s1: "gd_conns s1 = filter (\<lambda>c. gc_id c \<noteq> cid) (gd_conns s)" "gd_repos s1 = filter (\<lambda>r. gr_connection r \<noteq> cid) (gd_repos s)"
      "gd_creds s1 = filter (\<lambda>k. gk_connection k \<noteq> Some cid) (gd_creds s)"
      "gd_installs s1 = filter (\<lambda>i. gi_connection i \<noteq> cid) (gd_installs s)"
      "gd_states s1 = filter (\<lambda>i. is_connection i \<noteq> cid) (gd_states s)"
    using assms by (auto simp: delete_connection_def res_bind_Inr_iff Let_def)
  have "owned t cid s" using c connection_or_none_Some by (auto simp: connection_Inr)
  then show ?thesis using drop_connection_ok [OF _ s1] e by blast
qed

lemma delete_connection_ok: "delete_connection t cid now s = Inr s' \<Longrightarrow> step_ok t s s'"
  using delete_connection_split ensure_default_ok step_ok_trans by blast

lemma record_connection_verification_ok:
  "record_connection_verification t cid now err rejected s = Inr s' \<Longrightarrow> step_ok t s s'"
  unfolding record_connection_verification_def by (rule patch_connection_ok)

lemma connection_for_ok: "connection_for t i now p b s = Inr (c, s') \<Longrightarrow> step_ok t s s'"
  by (auto simp: connection_for_def Let_def res_bind_Inr_iff split: sum.splits git_error.splits option.splits
      dest: create_connection_ok)

lemma shim_connection_ok: "shim_connection t i now p b s = Inr (c, s') \<Longrightarrow> step_ok t s s'"
  by (auto simp: shim_connection_def res_bind_Inr_iff split: sum.splits git_error.splits option.splits
      dest: connection_for_ok update_connection_ok)

lemma set_git_config_ok:
  assumes "set_git_config t i j now u s = Inr s'" shows "step_ok t s s'"
proof -
  obtain f c s1 s2 where f: "validated_fields u = Inr f"
    and s1: "shim_connection t i now (cu_provider f) (cu_base_url f) s = Inr (c, s1)"
    and s2: "patch_connection t (gc_id c) now
        \<lparr>cm_verified_at = Some None, cm_verify_error = Some None, cm_credential_rejected = Some None\<rparr> s1 = Inr s2"
    using assms by (auto simp: set_git_config_def res_bind_Inr_iff)
  have "step_ok t s2 s'"
  proof (cases "cu_project f")
    case None
    then have "s' = clear_defaults t None now s2" using assms f s1 s2 by (simp add: set_git_config_def)
    then show ?thesis by simp
  next
    case (Some p)
    show ?thesis
    proof (cases "List.find (\<lambda>r. gr_project r = p) (repositories t (Some (gc_id c)) s2)")
      case None
      then show ?thesis using Some assms f s1 s2
        by (auto simp: set_git_config_def res_bind_Inr_iff dest: create_repository_ok)
    next
      case (Some r)
      then show ?thesis using \<open>cu_project f = Some p\<close> assms f s1 s2
        by (auto simp: set_git_config_def res_bind_Inr_iff
            dest!: update_repository_ok set_default_repository_ok intro: step_ok_trans)
    qed
  qed
  then show ?thesis using shim_connection_ok [OF s1] patch_connection_ok [OF s2] step_ok_trans by blast
qed

lemma set_creds_ok:
  assumes "git_ok s \<Longrightarrow> list_all (cred_owned s) ks" "\<And>t'. t' \<noteq> t \<Longrightarrow> tenant_rows gk_tenant t' ks = tenant_rows gk_tenant t' (gd_creds s)"
  shows "step_ok t s (s\<lparr>gd_creds := ks\<rparr>)"
  using assms by (simp add: step_ok_def git_ok_def git_view_def)

lemma set_installs_ok:
  assumes "git_ok s \<Longrightarrow> list_all (\<lambda>i. owned (gi_tenant i) (gi_connection i) s) is"
    "\<And>t'. t' \<noteq> t \<Longrightarrow> tenant_rows gi_tenant t' is = tenant_rows gi_tenant t' (gd_installs s)"
  shows "step_ok t s (s\<lparr>gd_installs := is\<rparr>)"
  using assms by (simp add: step_ok_def git_ok_def git_view_def)

lemma list_all_update_where:
  "list_all q rows \<Longrightarrow> (\<And>r. q r \<Longrightarrow> p r \<Longrightarrow> q (f r)) \<Longrightarrow> list_all q (update_where p f rows)"
  by (auto simp: list_all_iff update_where_def)

lemma credential_row_Some: "credential_row t cid s = Some k \<Longrightarrow> k \<in> set (gd_creds s) \<and> cred_match t cid k"
  by (simp add: credential_row_def find_SomeD)

lemma store_sealed_ok:
  assumes "store_sealed t cid sl now s = Inr s'" "credential_row t cid s = None \<Longrightarrow> owned t cid s"
  shows "step_ok t s s' \<and> credential_row t cid s' \<noteq> None"
proof (cases "credential_row t cid s")
  case None
  let ?k = "\<lparr>gk_tenant = t, gk_connection = Some cid, gk_sealed = sl, gk_updated_at = now\<rparr>"
  have s': "s' = s\<lparr>gd_creds := gd_creds s @ [?k]\<rparr>"
    using assms(1) None by (simp add: store_sealed_def split: if_splits)
  have "step_ok t s s'" unfolding s' using assms(2) [OF None]
    by (intro set_creds_ok) (auto simp: git_ok_def tenant_rows_def cred_owned_def)
  moreover have "\<exists>k. credential_row t cid s' = Some k"
    unfolding credential_row_def find_exists s' by (auto simp: cred_match_def)
  ultimately show ?thesis by auto
next
  case (Some k)
  let ?f = "\<lambda>k. k\<lparr>gk_sealed := sl, gk_updated_at := now\<rparr>"
  have s': "s' = s\<lparr>gd_creds := update_where (cred_match t cid) ?f (gd_creds s)\<rparr>"
    using assms(1) Some by (simp add: store_sealed_def)
  have "step_ok t s s'" unfolding s'
    by (intro set_creds_ok list_all_update_where tenant_rows_update_other) (auto simp: git_ok_def cred_owned_def cred_match_def)
  moreover have "?f k \<in> set (gd_creds s') \<and> cred_match t cid (?f k)"
    using credential_row_Some [OF Some] unfolding s' by (force simp: in_update_where cred_match_def)
  then have "\<exists>k. credential_row t cid s' = Some k" unfolding credential_row_def find_exists by blast
  ultimately show ?thesis by auto
qed

lemma set_connection_credential_ok:
  assumes "set_connection_credential enc rnd spec t cid secret now s = Inr (i, s')" shows "step_ok t s s'"
proof -
  obtain c sl s1 m where c: "connection t cid s = Inr c" "store_sealed t cid sl now s = Inr s1" "patch_connection t cid now m s1 = Inr s'"
    using assms by (auto simp: set_connection_credential_def res_bind_Inr_iff lift_err_Inr Let_def split: if_splits)
  have "owned t cid s" using c(1) connection_or_none_Some by (auto simp: connection_Inr)
  then have "step_ok t s s1" using store_sealed_ok [OF c(2)] by blast
  then show ?thesis using patch_connection_ok [OF c(3)] step_ok_trans by blast
qed

lemma clear_connection_credential_ok: "clear_connection_credential t cid s = Inr (b, s') \<Longrightarrow> step_ok t s s'"
  by (auto simp: clear_connection_credential_def res_bind_Inr_iff git_ok_def list_all_iff cred_match_def
      split: if_splits intro!: set_creds_ok tenant_rows_filter_other)

lemma fetch_credential_ok:
  assumes "fetch_credential enc dec rnd spec t cid now s = Inr (v, a, s')" shows "step_ok t s s'"
proof (cases "credential_row t cid s")
  case None
  then show ?thesis using assms by (simp add: fetch_credential_def)
next
  case (Some k)
  have store: "step_ok t s1 s2 \<and> credential_row t cid s2 \<noteq> None"
    if "store_sealed t cid x now s1 = Inr s2" "credential_row t cid s1 \<noteq> None" for x s1 s2
    using store_sealed_ok [OF that(1)] that(2) by simp
  have migr: "step_ok t s s2" if mg: "migrate_sealed enc dec rnd cur t cid ring now s = Inr s2" for cur ring s2
  proof -
    show ?thesis
    proof (cases "rewrap enc dec (sr_nonce_kek rnd) cur t cid ring")
      case (Inl e)
      then show ?thesis using mg by (simp add: migrate_sealed_def)
    next
      case (Inr w)
      show ?thesis
      proof (cases w)
        case None
        then show ?thesis using mg Inr store [of _ s s2] Some
          by (auto simp: migrate_sealed_def split: sum.splits option.splits)
      next
        case (Some x)
        then obtain s1 where s1: "store_sealed t cid x now s = Inr s1"
          and r: "(case reseal enc dec rnd x t cid ring of Inl _ \<Rightarrow> Inr s1 | Inr None \<Rightarrow> Inr s1
            | Inr (Some y) \<Rightarrow> store_sealed t cid y now s1) = Inr s2"
          using mg Inr by (auto simp: migrate_sealed_def res_bind_Inr_iff)
        have r': "s2 = s1 \<or> (\<exists>y. store_sealed t cid y now s1 = Inr s2)"
          using r by (cases "reseal enc dec rnd x t cid ring") (auto split: option.splits)
        have "step_ok t s s1 \<and> credential_row t cid s1 \<noteq> None"
          using store [OF s1] \<open>credential_row t cid s = Some k\<close> by simp
        then show ?thesis using r' store step_ok_trans by blast
      qed
    qed
  qed
  then show ?thesis using assms Some
    by (auto simp: fetch_credential_def res_bind_Inr_iff split: sum.splits)
qed

lemma start_install_ok:
  assumes "start_install digest token t cid uri now s = Inr (x, s')" shows "step_ok t s s'"
proof -
  obtain c where c: "connection t cid s = Inr c" and s': "s' = s\<lparr>gd_states := gd_states s @
      [\<lparr>is_hash = digest token, is_tenant = t, is_connection = gc_id c, is_provider = gc_provider c,
        is_redirect_uri = uri, is_expires_at = now + 600 * 1000000\<rparr>]\<rparr>"
    using assms by (auto simp: start_install_def res_bind_Inr_iff lift_err_Inr split: if_splits)
  have "owned t (gc_id c) s" using c connection_or_none_Some by (auto simp: connection_Inr)
  then show ?thesis unfolding s' by (simp add: step_ok_def git_ok_def git_view_def tenant_rows_def)
qed

lemma record_install_ok:
  assumes "record_install t cid p iid acc now s = Inr (i, s')" shows "step_ok t s s'"
proof -
  let ?s0 = "forget_token t cid s"
  obtain c where c: "connection t cid s = Inr c" using assms by (auto simp: record_install_def res_bind_Inr_iff lift_err_Inr)
  then have own: "owned t (gc_id c) ?s0" "gc_id c = cid" using connection_or_none_Some by (auto simp: connection_Inr owned_def)
  have "step_ok t ?s0 s'"
  proof (cases "install_row t cid ?s0")
    case None
    then show ?thesis using assms c own
      by (auto simp: record_install_def lift_err_def Let_def git_ok_def tenant_rows_def simp del: forget_token_sel
          split: if_splits intro!: set_installs_ok)
  next
    case (Some j)
    then show ?thesis using assms c
      by (auto simp: record_install_def lift_err_def Let_def git_ok_def install_match_def simp del: forget_token_sel
          intro!: set_installs_ok list_all_update_where tenant_rows_update_other)
  qed
  then show ?thesis using step_ok_trans forget_token_ok by blast
qed

lemma delete_install_ok:
  assumes "delete_install t cid s = Inr (b, s')" shows "step_ok t s s'"
proof -
  let ?s0 = "forget_token t cid s"
  have drop: "step_ok t ?s0 (?s0\<lparr>gd_installs := filter (\<lambda>i. \<not> install_match t cid i) (gd_installs ?s0)\<rparr>)"
    by (intro set_installs_ok tenant_rows_filter_other) (auto simp: git_ok_def list_all_iff install_match_def)
  have "step_ok t ?s0 s'"
    using assms drop by (auto simp: delete_install_def res_bind_Inr_iff Let_def split: if_splits
        dest!: clear_connection_credential_ok intro: step_ok_trans)
  then show ?thesis using step_ok_trans forget_token_ok by blast
qed

lemma patch_install_ok [simp, intro]: "step_ok t s (patch_install t cid st err now s)"
  unfolding patch_install_def
  by (intro set_installs_ok list_all_update_where tenant_rows_update_other) (auto simp: git_ok_def install_match_def)

section \<open>Runs\<close>

datatype git_op =
    CreateConnection nat int conn_create
  | UpdateConnection nat int conn_update
  | DeleteConnection nat int
  | VerifyConnection nat int "string option" "bool option"
  | CreateRepository nat int nat repo_create
  | UpdateRepository nat int repo_update
  | DeleteRepository nat int
  | SetDefault nat int
  | SetGitConfig nat nat int config_update
  | SeedFromEnv nat nat int git_settings
  | SetCredential aead_enc seal_random "string option" nat "string option" int
  | ClearCredential nat
  | FetchCredential aead_enc aead_dec seal_random "string option" nat int
  | StartInstall "string \<Rightarrow> string" string nat string int
  | RecordInstall nat string "string option" "string option" int
  | DeleteInstall nat
  | DegradeInstall nat string int
  | RecoverInstall nat int

definition out :: "'a + 'b \<times> git_db \<Rightarrow> 'a + git_db" where
  "out r = res_bind r (\<lambda>(_, s). Inr s)"

fun git_exec :: "string \<Rightarrow> git_op \<Rightarrow> git_db \<Rightarrow> store_error + git_db" where
  "git_exec t (CreateConnection i now b) s = lift_err GitErr (out (create_connection t i now b s))"
| "git_exec t (UpdateConnection c now b) s = lift_err GitErr (out (update_connection t c now b s))"
| "git_exec t (DeleteConnection c now) s = lift_err GitErr (delete_connection t c now s)"
| "git_exec t (VerifyConnection c now e r) s = lift_err GitErr (record_connection_verification t c now e r s)"
| "git_exec t (CreateRepository i now c b) s = lift_err GitErr (out (create_repository t i now c b s))"
| "git_exec t (UpdateRepository r now b) s = lift_err GitErr (out (update_repository t r now b s))"
| "git_exec t (DeleteRepository r now) s = lift_err GitErr (delete_repository t r now s)"
| "git_exec t (SetDefault r now) s = lift_err GitErr (out (set_default_repository t r now s))"
| "git_exec t (SetGitConfig i j now u) s = lift_err GitErr (set_git_config t i j now u s)"
| "git_exec t (SeedFromEnv i j now st) s = lift_err GitErr (out (seed_git_config_from_env t i j now st s))"
| "git_exec t (SetCredential enc rnd spec c v now) s = out (set_connection_credential enc rnd spec t c v now s)"
| "git_exec t (ClearCredential c) s = lift_err GitErr (out (clear_connection_credential t c s))"
| "git_exec t (FetchCredential enc dec rnd spec c now) s =
     lift_err DbErr (res_bind (fetch_credential enc dec rnd spec t c now s) (\<lambda>(_, _, s'). Inr s'))"
| "git_exec t (StartInstall digest token c uri now) s = out (start_install digest token t c uri now s)"
| "git_exec t (RecordInstall c p i a now) s = out (record_install t c p i a now s)"
| "git_exec t (DeleteInstall c) s = lift_err GitErr (out (delete_install t c s))"
| "git_exec t (DegradeInstall c e now) s = Inr (degrade_install t c e now s)"
| "git_exec t (RecoverInstall c now) s = Inr (recover_install t c now s)"

lemma out_Inr: "out r = Inr s \<longleftrightarrow> (\<exists>x. r = Inr (x, s))"
  by (auto simp: out_def res_bind_Inr_iff)

lemma seed_ok: "seed_git_config_from_env t i j now st s = Inr (b, s') \<Longrightarrow> step_ok t s s'"
  by (auto simp: seed_git_config_from_env_def Let_def res_bind_Inr_iff split: if_splits dest: set_git_config_ok)

lemma recover_install_ok: "step_ok t s (recover_install t c now s)"
  by (simp add: recover_install_def split: option.splits)

lemmas git_ops_ok = create_connection_ok update_connection_ok delete_connection_ok record_connection_verification_ok
  create_repository_ok update_repository_ok delete_repository_ok set_default_repository_ok set_git_config_ok seed_ok
  set_connection_credential_ok clear_connection_credential_ok fetch_credential_ok start_install_ok record_install_ok
  delete_install_ok

lemma git_exec_ok: "git_exec t op s = Inr s' \<Longrightarrow> step_ok t s s'"
  by (cases op) (auto simp: lift_err_Inr out_Inr res_bind_Inr_iff degrade_install_def recover_install_ok dest: git_ops_ok)

interpretation git: tenant_store git_exec "\<lambda>_. True" git_ok git_view
  using git_exec_ok by unfold_locales (simp_all add: step_ok_def)

definition git_empty :: git_db where
  "git_empty = \<lparr>gd_conns = [], gd_repos = [], gd_creds = [], gd_installs = [], gd_states = [], gd_tokens = []\<rparr>"

lemma git_empty_ok [simp]: "git_ok git_empty"
  by (simp add: git_ok_def git_empty_def)

section \<open>Properties\<close>

text \<open>C21: whatever the tenants do, in any order, the stored git configuration stays well-formed: no
  tenant has a host twice under one stored name or two default repositories, a default marker
  names its row's own tenant, and every repository, credential, install and pending install
  hangs off an existing connection of its own tenant.  And what one tenant stored is exactly
  what it was before, as long as only other tenants acted: a foreign connection id is not
  found, whether it exists or not.\<close>

theorem git_store_isolated:
  fixes ops ops0 :: "(string \<times> git_op) list"
  assumes "t \<notin> fst ` set ops"
  defines "s \<equiv> run_ops git_exec ops0 git_empty"
  shows "git_ok (run_ops git_exec ops s) \<and> git_view t (run_ops git_exec ops s) = git_view t s
    \<and> (\<forall>t' cid. owned t' cid s \<and> t' \<noteq> t \<longrightarrow> connection t cid s = Inl GitResourceNotFoundError)"
proof -
  have ok: "git_ok s" unfolding s_def by (intro git.run_ok git_empty_ok)
  have "connection t cid s = Inl GitResourceNotFoundError" if "owned t' cid s" "t' \<noteq> t" for t' cid
  proof (cases "connection_or_none t cid s")
    case (Some c)
    then show ?thesis using that owned_unique [OF ok that(1), of t] connection_or_none_Some by metis
  qed (simp add: connection_def)
  then have "\<forall>t' cid. owned t' cid s \<and> t' \<noteq> t \<longrightarrow> connection t cid s = Inl GitResourceNotFoundError" by blast
  then show ?thesis using git.run_ok [OF ok] git.run_view [OF ok assms(1)] by (simp add: list_all_iff)
qed

definition ex_body :: conn_create where
  "ex_body = \<lparr>nc_provider = ''github'', nc_base_url = None, nc_label = None\<rparr>"

theorem git_store_isolated_witness:
  "git_view ''acme'' (run_ops git_exec [(''globex'', DeleteConnection 1 9)]
      (run_ops git_exec [(''acme'', CreateConnection 1 5 ex_body)] git_empty))
   = git_view ''acme'' (run_ops git_exec [(''acme'', CreateConnection 1 5 ex_body)] git_empty)"
  using git_store_isolated [of "''acme''" "[(''globex'', DeleteConnection 1 9)]" "[(''acme'', CreateConnection 1 5 ex_body)]"]
  by simp

lemma default_found: "git_ok s \<Longrightarrow> default_repository t s \<noteq> None \<longleftrightarrow> (\<exists>r\<in>set (gd_repos s). gr_default_for r = Some t)"
proof -
  assume ok: "git_ok s"
  show ?thesis
  proof (cases "List.find (\<lambda>r. gr_default_for r = Some t) (gd_repos s)")
    case None
    then have "default_repository t s = None" by (simp add: default_repository_def)
    then show ?thesis using None [unfolded find_None_iff] by blast
  next
    case (Some r)
    note r = find_SomeD [OF Some]
    have "owned t (gr_connection r) s" using git_ok_repo(2) [OF ok] git_ok_default [OF ok] r by metis
    then show ?thesis using Some r by (auto simp: default_repository_def connection_owned)
  qed
qed

lemma default_unique: "git_ok s \<Longrightarrow> length (filter (\<lambda>r. gr_default_for r = Some t) (gd_repos s)) \<le> 1"
proof -
  have "keys_unique gr_default_for rows \<Longrightarrow> length (filter (\<lambda>r. gr_default_for r = Some t) rows) \<le> 1" for rows
    by (induction rows) (auto simp: keys_unique_def filter_empty_conv)
  then show "git_ok s \<Longrightarrow> ?thesis" using git_okD(5) by blast
qed

lemma set_default_sets:
  assumes "set_default_repository t rid now s = Inr (r, s')"
  shows "r \<in> set (gd_repos s') \<and> gr_id r = rid \<and> gr_default_for r = Some t"
proof -
  obtain r0 where r0: "repository t rid s = Inr r0" using assms by (auto simp: set_default_repository_def res_bind_Inr_iff)
  note m = repository_Inr [OF r0]
  have "r0 \<in> set (gd_repos (clear_defaults t (Some rid) now s))" using m by (auto simp: clear_defaults_def in_update_where)
  then have "mark_default t now r0 \<in> set (gd_repos s')"
    using assms(1) m unfolding set_default_repository_def r0 by (auto simp: Let_def in_update_where)
  moreover have "r = mark_default t now r0" using assms(1) by (simp add: set_default_repository_def r0 Let_def)
  ultimately show ?thesis using m by (simp add: mark_default_def)
qed

lemma ensure_default_has:
  assumes "ensure_default t now s = Inr s'" "git_ok s" "r \<in> set (gd_repos s')" "gr_tenant r = t"
  shows "\<exists>r\<in>set (gd_repos s'). gr_default_for r = Some t"
proof (cases "repositories t None s")
  case Nil
  then have s: "s' = s" using assms(1) by (simp add: ensure_default_def)
  have "filter (\<lambda>r. gr_tenant r = t) (gd_repos s) = []"
    using arg_cong [OF Nil, of set] by (simp add: repositories_def)
  then show ?thesis using assms(3,4) s by (simp add: filter_empty_conv)
next
  case (Cons a as)
  show ?thesis
  proof (cases "list_ex is_default (a # as)")
    case True
    then have s: "s' = s" using assms(1) Cons by (simp add: ensure_default_def)
    obtain d where "d \<in> set (repositories t None s)" "is_default d" using True Cons by (auto simp: list_ex_iff)
    then have "d \<in> set (gd_repos s) \<and> gr_tenant d = t \<and> gr_default_for d \<noteq> None" by (simp add: repositories_def is_default_def)
    then show ?thesis using git_ok_repo(1) [OF assms(2), of d] s by auto
  next
    case False
    then obtain x where "set_default_repository t (gr_id a) now s = Inr (x, s')"
      using assms(1) Cons by (auto simp: ensure_default_def res_bind_Inr_iff)
    then show ?thesis using set_default_sets by blast
  qed
qed

definition one_default :: "string \<Rightarrow> git_db \<Rightarrow> bool" where
  "one_default t s = (default_repository t s \<noteq> None \<and> length (filter (\<lambda>r. gr_default_for r = Some t) (gd_repos s)) = 1)"

lemma one_defaultI:
  assumes "git_ok s" "r \<in> set (gd_repos s)" "gr_default_for r = Some t"
  shows "one_default t s"
proof -
  have "filter (\<lambda>r. gr_default_for r = Some t) (gd_repos s) \<noteq> []" using assms(2,3) by (auto simp: filter_empty_conv)
  then show ?thesis using default_unique [OF assms(1), of t] default_found [OF assms(1), of t] assms(2,3)
    unfolding one_default_def by (metis One_nat_def Suc_leI le_antisym length_greater_0_conv)
qed

lemma default_is:
  assumes "git_ok s" "r \<in> set (gd_repos s)" "gr_default_for r = Some t"
  shows "\<exists>c. default_repository t s = Some (c, r)"
proof -
  obtain c r' where d: "default_repository t s = Some (c, r')"
    using default_found [OF assms(1), of t] assms(2,3) by (metis not_None_eq old.prod.exhaust)
  then have "r' \<in> set (gd_repos s) \<and> gr_default_for r' = Some t"
    by (auto simp: default_repository_def split: option.splits dest!: find_SomeD)
  then have "r' = r" using keys_unique_inj [OF git_okD(5) [OF assms(1)] _ assms(2)] assms(3) by simp
  then show ?thesis using d by blast
qed

lemma set_default_one:
  assumes c: "set_default_repository t rid now s = Inr (r, s')" and ok: "git_ok s'"
  shows "one_default t s' \<and> (\<exists>c. default_repository t s' = Some (c, r)) \<and> gr_id r = rid"
  using set_default_sets [OF c] one_defaultI [OF ok] default_is [OF ok] by blast

lemma create_repository_one:
  assumes c: "create_repository t i now cid b s = Inr (r, s')" and ok: "git_ok s"
  shows "one_default t s'"
proof -
  have o: "git_ok s'" using create_repository_ok [OF c] ok by (simp add: step_ok_def)
  show ?thesis
  proof (cases "nr_make_default b \<or> default_repository t s = None")
    case True
    then obtain s1 where "set_default_repository t i now s1 = Inr (r, s')"
      using c by (auto simp: create_repository_def res_bind_Inr_iff on_integrity_Inr Let_def split: if_splits)
    then show ?thesis using set_default_one [OF _ o] by blast
  next
    case False
    then obtain row where "insert_repo row s = Inr s'"
      using c by (auto simp: create_repository_def res_bind_Inr_iff on_integrity_Inr Let_def split: if_splits)
    then have "set (gd_repos s) \<subseteq> set (gd_repos s')" by (auto simp: insert_repo_def split: if_splits)
    moreover obtain d where "d \<in> set (gd_repos s)" "gr_default_for d = Some t" using default_found [OF ok, of t] False by blast
    ultimately show ?thesis using one_defaultI [OF o] by blast
  qed
qed

lemma ensure_default_one:
  assumes e: "ensure_default t now s = Inr s'" and ok: "git_ok s" and ne: "repositories t None s' \<noteq> []"
  shows "one_default t s'"
proof -
  have "set (repositories t None s') \<noteq> {}" using ne by simp
  then obtain r where "r \<in> set (gd_repos s')" "gr_tenant r = t" by (auto simp: repositories_def)
  then obtain d where d: "d \<in> set (gd_repos s')" "gr_default_for d = Some t" using ensure_default_has [OF e ok] by blast
  have "git_ok s'" using ensure_default_ok [OF e] ok by (simp add: step_ok_def)
  then show ?thesis using d by (rule one_defaultI)
qed

lemma delete_one:
  assumes d: "delete_repository t rid now s = Inr s' \<or> delete_connection t cid now s = Inr s'"
    and ok: "git_ok s" and ne: "repositories t None s' \<noteq> []"
  shows "one_default t s'"
proof -
  obtain s1 where "step_ok t s s1" "ensure_default t now s1 = Inr s'"
    using d delete_repository_split delete_connection_split by blast
  then show ?thesis using ensure_default_one ok ne by (auto simp: step_ok_def)
qed

text \<open>The single default.  In a well-formed store, creating a repository leaves its tenant with
  exactly one default repository and a connection to reach it; deleting a repository or a
  whole connection leaves a tenant that still has a repository with exactly one; and setting a
  default makes it the one a card that names nothing resolves to, with no second one.\<close>

theorem default_repository_kept:
  assumes "git_ok s"
  shows "(\<forall>i now cid b r s'. create_repository t i now cid b s = Inr (r, s') \<longrightarrow> one_default t s')
    \<and> (\<forall>x now s'. (delete_repository t x now s = Inr s' \<or> delete_connection t x now s = Inr s')
        \<and> repositories t None s' \<noteq> [] \<longrightarrow> one_default t s')
    \<and> (\<forall>rid now r s'. set_default_repository t rid now s = Inr (r, s') \<longrightarrow> one_default t s'
        \<and> (\<exists>c. resolve_repository t None None s' = Inr (Some (c, r)) \<and> gr_id r = rid))"
proof -
  have "one_default t s' \<and> (\<exists>c. resolve_repository t None None s' = Inr (Some (c, r)) \<and> gr_id r = rid)"
    if c: "set_default_repository t rid now s = Inr (r, s')" for rid now r s'
  proof -
    have "git_ok s'" using set_default_repository_ok [OF c] assms by (simp add: step_ok_def)
    then show ?thesis using set_default_one [OF c] by (auto simp: resolve_repository_def resolve_project_def eval_str)
  qed
  then show ?thesis using create_repository_one [OF _ assms] delete_one [OF _ assms] by blast
qed

text \<open>A store to evaluate: one connection with two repositories, the second the default.\<close>

definition ex_conn :: git_conn where
  "ex_conn = \<lparr>gc_id = 1, gc_tenant = ''acme'', gc_provider = ''github'', gc_base_url = [], gc_label = ''github'',
     gc_verified_at = None, gc_verify_error = None, gc_credential_rejected = None, gc_created_at = 0, gc_updated_at = 0\<rparr>"

definition ex_repo :: "nat \<Rightarrow> string \<Rightarrow> string option \<Rightarrow> git_repo" where
  "ex_repo i p d = \<lparr>gr_id = i, gr_tenant = ''acme'', gr_connection = 1, gr_project = p, gr_intake_project = None,
     gr_aifactory_project_id = None, gr_default_labels = [], gr_default_for = d, gr_created_at = 0, gr_updated_at = 0\<rparr>"

definition ex_git :: git_db where
  "ex_git = git_empty\<lparr>gd_conns := [ex_conn], gd_repos := [ex_repo 1 ''a/b'' None, ex_repo 2 ''a/c'' (Some ''acme'')]\<rparr>"

lemma ex_git_ok: "git_ok ex_git"
  by (simp add: git_ok_def ex_git_def git_empty_def ex_conn_def ex_repo_def keys_unique_def repo_key_def owned_def)

lemmas ex_git_simps = ex_git_def git_empty_def ex_conn_def ex_repo_def

theorem default_repository_kept_witness:
  "map_sum id (one_default ''acme'') (delete_repository ''acme'' 2 9 ex_git) = Inr True"
proof -
  obtain s' where s': "delete_repository ''acme'' 2 9 ex_git = Inr s'" "repositories ''acme'' None s' \<noteq> []"
    by (simp add: delete_repository_def repository_def ensure_default_def repositories_def is_default_def
        set_default_repository_def clear_defaults_def update_where_def mark_default_def ex_git_simps)
  then have "one_default ''acme'' s'" using default_repository_kept [OF ex_git_ok, of "''acme''"] by blast
  then show ?thesis using s'(1) by simp
qed

text \<open>A card that names a repository which was deleted does not fall back to its tenant's default:
  resolving it, and with it the git target every dispatch and every sync of that card asks
  for, fails with not found, for as long as the id is not used again, although a default is
  there and is what the same card without the stale id resolves to.\<close>

theorem deleted_repository_does_not_fall_back:
  assumes ok: "git_ok s" and del: "delete_repository t rid now s = Inr s'" and ne: "repositories t None s' \<noteq> []"
  shows "resolve_repository t (Some rid) project s' = Inl GitResourceNotFoundError
    \<and> git_target_for t st spec (Some rid) project s' = Inl GitResourceNotFoundError
    \<and> (\<exists>x. resolve_repository t None None s' = Inr (Some x))"
proof -
  have "ensure_default t now (s\<lparr>gd_repos := filter (\<lambda>r. gr_id r \<noteq> rid) (gd_repos s)\<rparr>) = Inr s'"
    using del by (auto simp: delete_repository_def res_bind_Inr_iff)
  from arg_cong [OF ensure_default_ids [OF this], of set]
  have "gr_id ` set (gd_repos s') = gr_id ` {r \<in> set (gd_repos s). gr_id r \<noteq> rid}" by simp
  then have "rid \<notin> gr_id ` set (gd_repos s')" by auto
  then have "List.find (\<lambda>r. gr_id r = rid \<and> gr_tenant r = t) (gd_repos s') = None"
    unfolding find_None_iff by blast
  then have "repository t rid s' = Inl GitResourceNotFoundError" by (simp add: repository_def)
  moreover have "one_default t s'" using delete_one [OF _ ok ne, of rid now] del by blast
  ultimately show ?thesis
    by (auto simp: resolve_repository_def git_target_for_def one_default_def resolve_project_def eval_str)
qed

theorem deleted_repository_does_not_fall_back_witness:
  "map_sum id (\<lambda>s. resolve_repository ''acme'' (Some 1) None s) (delete_repository ''acme'' 1 9 ex_git)
   = Inr (Inl GitResourceNotFoundError)"
proof -
  obtain s' where s': "delete_repository ''acme'' 1 9 ex_git = Inr s'" "repositories ''acme'' None s' \<noteq> []"
    by (simp add: delete_repository_def repository_def ensure_default_def repositories_def is_default_def
        ex_git_simps)
  then show ?thesis using deleted_repository_does_not_fall_back [OF ex_git_ok s'] by simp
qed

text \<open>Two callbacks carrying one state, each transaction a read and a delete: both reads come first.\<close>

definition race_callbacks ::
  "(string \<Rightarrow> string) \<Rightarrow> string \<Rightarrow> int \<Rightarrow> git_db \<Rightarrow> install_state option \<times> install_state option \<times> git_db" where
  "race_callbacks digest token w s =
    (let a = read_state digest token s; b = read_state digest token s;
         delete = (\<lambda>r s. case r of None \<Rightarrow> s | Some i \<Rightarrow> drop_state i s);
         claim = (\<lambda>r. case r of None \<Rightarrow> None | Some i \<Rightarrow> live_state w i)
     in (claim a, claim b, delete b (delete a s)))"

text \<open>An install is claimed by the state it was started with.  A state started for a tenant's
  connection, presented before it expires, gives back that tenant and connection whoever
  presents it, and not a second time; one presented too late gives nothing and is used up.
  But two callbacks that read the row before either deleted it both get it: the delete does
  not check that it removed anything.\<close>

theorem install_state_claimed:
  assumes started: "start_install digest token t cid uri now s = Inr (token', s1)" and "strip token \<noteq> []"
  shows "\<exists>i. is_tenant i = t \<and> is_connection i = cid
    \<and> fst (consume_install_state digest token w s1) = (if w \<le> now + 600 * 1000000 then Some i else None)
    \<and> (\<forall>w'. fst (consume_install_state digest token w' (snd (consume_install_state digest token w s1))) = None)
    \<and> (w \<le> now + 600 * 1000000 \<longrightarrow> (\<exists>s'. race_callbacks digest token w s1 = (Some i, Some i, s')))"
proof -
  obtain c where c: "connection t cid s = Inr c" and new: "digest token \<notin> is_hash ` set (gd_states s)"
    and s1: "s1 = s\<lparr>gd_states := gd_states s @ [\<lparr>is_hash = digest token, is_tenant = t, is_connection = gc_id c,
        is_provider = gc_provider c, is_redirect_uri = uri, is_expires_at = now + 600 * 1000000\<rparr>]\<rparr>"
    using started by (auto simp: start_install_def res_bind_Inr_iff lift_err_Inr split: if_splits)
  let ?i = "\<lparr>is_hash = digest token, is_tenant = t, is_connection = gc_id c,
        is_provider = gc_provider c, is_redirect_uri = uri, is_expires_at = now + 600 * 1000000\<rparr>"
  have "List.find (\<lambda>i. is_hash i = digest token) (xs @ [?i]) = Some ?i" if "digest token \<notin> is_hash ` set xs" for xs
    using that by (induction xs) auto
  then have read: "read_state digest token s1 = Some ?i" using new assms(2) by (simp add: read_state_def s1)
  have gone: "read_state digest token (drop_state ?i s1) = None"
    by (auto simp: read_state_def drop_state_def find_None_iff)
  have "gc_id c = cid" using c connection_or_none_Some by (auto simp: connection_Inr)
  then show ?thesis using read gone
    by (intro exI [of _ ?i]) (simp add: consume_install_state_def live_state_def race_callbacks_def Let_def)
qed

theorem install_state_claimed_witness:
  "\<exists>s1. start_install (\<lambda>x. x) ''tok'' ''acme'' 1 [] 0 ex_git = Inr (''tok'', s1)
    \<and> (\<exists>i s'. is_tenant i = ''acme'' \<and> race_callbacks (\<lambda>x. x) ''tok'' 5 s1 = (Some i, Some i, s'))"
proof -
  obtain s1 where s1: "start_install (\<lambda>x. x) ''tok'' ''acme'' 1 [] 0 ex_git = Inr (''tok'', s1)"
    by (simp add: start_install_def connection_def connection_or_none_def lift_err_def ex_git_simps)
  then show ?thesis using install_state_claimed [OF s1, of 5] by (auto simp: eval_str)
qed

text \<open>One host under two stored names: the public default is stored as the empty string, so naming it
  explicitly passes the unique index, and the two connections call the same host.\<close>

lemma same_host_twice:
  "\<exists>c1 c2 s1 s2. create_connection ''acme'' 1 0 ex_body git_empty = Inr (c1, s1)
    \<and> create_connection ''acme'' 2 0 (ex_body\<lparr>nc_base_url := Some ''https://api.github.com''\<rparr>) s1 = Inr (c2, s2)
    \<and> gc_provider c1 = gc_provider c2
    \<and> resolved_base_url (gc_provider c1) (gc_base_url c1) = resolved_base_url (gc_provider c2) (gc_base_url c2)"
  by (simp add: create_connection_def connection_fields_def validate_provider_def validate_base_url_def validate_label_def
      ex_body_def git_empty_def insert_conn_def key_used_def conn_key_def on_integrity_def eval_str rstrip_char_def
      SUPPORTED_PROVIDERS_def GITHUB_def GITLAB_def AZURE_DEVOPS_def resolved_base_url_def default_base_url_def
      PROVIDER_DEFAULT_BASE_URL_def dget_def Let_def)

end
