(* ===== verification/Cards.thy ===== *)
theory Cards
  imports Models Table
begin

text \<open>
  Planning cards, \<open>cards.py\<close>: the card, comment and import-state tables and the operations of
  \<open>CardStore\<close> on them.  \<open>scope\<close> is the store's \<open>_tenant\<close> (\<open>None\<close> in single-tenant mode).  An
  insert is planned from the rows its transaction read and committed to the rows present at
  its flush, so that two of them can overlap; run alone the two are the same.  A table is in
  insertion order, which is also what breaks the ties of a sort.
\<close>

section \<open>Rows\<close>

datatype card_status = Backlog | Ready | In_progress | Blocked | Card_done
datatype card_tier = Low | Medium | Hard
datatype run_status = QUEUED | DISPATCHED | DONE | FAILED

text \<open>One entry of \<open>stage_runs\<close>; a key the JSON object lacks reads as \<open>None\<close>.\<close>

record stage_run =
  sr_service :: service
  sr_status :: run_status
  sr_dispatched_at :: "int option"
  sr_ref :: "string option"
  sr_detail :: "string option"

record card =
  cd_key :: string
  cd_tenant :: string
  cd_title :: string
  cd_description :: "string option"
  cd_criteria :: "string list"
  cd_status :: card_status
  cd_priority :: int
  cd_tier :: "card_tier option"
  cd_assignee :: "string option"
  cd_milestone :: "string option"
  cd_correlation_key :: "string option"
  cd_stage_runs :: "(stage, stage_run) dict"
  cd_issue_ref :: "string option"
  cd_repository_id :: "nat option"
  cd_issue_state :: "string option"
  cd_labels :: "string list"
  cd_sync_error :: "string option"
  cd_comments_synced_at :: "int option"
  cd_deleted_at :: "int option"
  cd_created_at :: int
  cd_updated_at :: int

text \<open>A comment as the provider gives it, and as stored for a card.\<close>

record comment =
  co_id :: string
  co_author :: string
  co_body :: string
  co_url :: string
  co_created_at :: int
  co_updated_at :: int

record comment_row = comment +
  cc_tenant :: string
  cc_card :: string

record import_state =
  im_tenant :: string
  im_project :: string
  im_last_synced_at :: "int option"
  im_last_polled_at :: "int option"
  im_leased_until :: "int option"

record card_store =
  cs_cards :: "card list"
  cs_comments :: "comment_row list"
  cs_imports :: "import_state list"

definition card_key_of :: "card \<Rightarrow> (string \<times> string) option" where
  "card_key_of c = Some (cd_tenant c, cd_key c)"

definition issue_key_of :: "card \<Rightarrow> (string \<times> string) option" where
  "issue_key_of c = map_option (\<lambda>r. (cd_tenant c, r)) (cd_issue_ref c)"

definition comment_key :: "comment_row \<Rightarrow> (string \<times> string \<times> string) option" where
  "comment_key c = Some (cc_tenant c, cc_card c, co_id c)"

definition import_key :: "import_state \<Rightarrow> (string \<times> string) option" where
  "import_key i = Some (im_tenant i, im_project i)"

datatype card_error =
    DuplicateCardKey string
  | DuplicateIssueRef "string option"
  | CardValidation
  | BadKeySuffix
  | CommentIntegrity

record card_create =
  cn_key :: "string option"
  cn_title :: string
  cn_description :: "string option"
  cn_criteria :: "string list"
  cn_status :: card_status
  cn_priority :: int
  cn_tier :: "card_tier option"
  cn_assignee :: "string option"
  cn_milestone :: "string option"
  cn_correlation_key :: "string option"
  cn_issue_ref :: "string option"
  cn_repository_id :: "nat option"

text \<open>One entry of the \<open>changes\<close> dictionary of an update, from a PATCH body (where any value may be
  null) or from one of the store's other callers.\<close>

datatype card_field =
    F_title "string option"
  | F_description "string option"
  | F_criteria "string list option"
  | F_status "card_status option"
  | F_priority "int option"
  | F_tier "card_tier option"
  | F_assignee "string option"
  | F_milestone "string option"
  | F_correlation_key "string option"
  | F_issue_ref "string option"
  | F_repository_id "nat option"
  | F_issue_state "string option"
  | F_labels "string list"
  | F_sync_error "string option"
  | F_stage_runs "(stage, stage_run) dict"

section \<open>Reads\<close>

definition tenant_of :: "string option \<Rightarrow> string" where
  "tenant_of scope = (case scope of None \<Rightarrow> DEFAULT_TENANT | Some t \<Rightarrow> if t = [] then DEFAULT_TENANT else t)"

definition live_cards :: "card_store \<Rightarrow> card list" where
  "live_cards s = filter (\<lambda>c. cd_deleted_at c = None) (cs_cards s)"

definition select_cards :: "bool \<Rightarrow> string option \<Rightarrow> card_store \<Rightarrow> card list" where
  "select_cards include_deleted scope s =
    filter (\<lambda>c. include_deleted \<or> cd_deleted_at c = None)
      (case scope of None \<Rightarrow> cs_cards s | Some t \<Rightarrow> filter (\<lambda>c. cd_tenant c = t) (cs_cards s))"

definition get_card :: "string option \<Rightarrow> string \<Rightarrow> card_store \<Rightarrow> card option" where
  "get_card scope key s = List.find (\<lambda>c. cd_key c = key) (select_cards False scope s)"

text \<open>A filter that was not given selects everything; highest priority first, then oldest.\<close>

record card_filter =
  cf_status :: "card_status option"
  cf_milestone :: "string option"
  cf_assignee :: "string option"
  cf_tier :: "card_tier option"

definition matches_filter :: "card_filter \<Rightarrow> card \<Rightarrow> bool" where
  "matches_filter f c = ((cf_status f \<noteq> None \<longrightarrow> cf_status f = Some (cd_status c))
     \<and> (cf_milestone f \<noteq> None \<longrightarrow> cf_milestone f = cd_milestone c)
     \<and> (cf_assignee f \<noteq> None \<longrightarrow> cf_assignee f = cd_assignee c)
     \<and> (cf_tier f \<noteq> None \<longrightarrow> cf_tier f = cd_tier c))"

definition list_cards :: "string option \<Rightarrow> card_filter \<Rightarrow> card_store \<Rightarrow> card list" where
  "list_cards scope f s =
    sort_key cd_priority (sort_key cd_created_at (filter (matches_filter f) (select_cards False scope s)))"

definition get_by_correlation_key :: "string option \<Rightarrow> string \<Rightarrow> card_store \<Rightarrow> card option" where
  "get_by_correlation_key scope k s =
    (case sort_key cd_created_at (filter (\<lambda>c. cd_correlation_key c = Some k) (select_cards False scope s)) of
       [] \<Rightarrow> None | c # _ \<Rightarrow> Some c)"

definition get_by_issue_ref :: "string option \<Rightarrow> string \<Rightarrow> card_store \<Rightarrow> card option" where
  "get_by_issue_ref scope ref s = List.find (\<lambda>c. cd_issue_ref c = Some ref) (select_cards True scope s)"

text \<open>\<open>column.startswith(p)\<close> is \<open>column LIKE p || '%'\<close> without escaping: a percent sign in \<open>p\<close>
  matches any run of characters and an underscore any one.  \<open>eq\<close> compares two characters
  (PostgreSQL exactly, SQLite up to ASCII case).\<close>

fun like_prefix :: "(char \<Rightarrow> char \<Rightarrow> bool) \<Rightarrow> string \<Rightarrow> string \<Rightarrow> bool" where
  "like_prefix eq [] s = True"
| "like_prefix eq (p # ps) [] = (p = CHR ''%'' \<and> like_prefix eq ps [])"
| "like_prefix eq (p # ps) (c # cs) =
     (if p = CHR ''%'' then like_prefix eq ps (c # cs) \<or> like_prefix eq (p # ps) cs
      else (p = CHR ''_'' \<or> eq p c) \<and> like_prefix eq ps cs)"

definition cards_for_project :: "(char \<Rightarrow> char \<Rightarrow> bool) \<Rightarrow> string option \<Rightarrow> string \<Rightarrow> card_store \<Rightarrow> card list" where
  "cards_for_project eq scope project s =
    (if strip project = [] then []
     else sort_key cd_created_at (filter (\<lambda>c. case cd_issue_ref c of None \<Rightarrow> False
       | Some r \<Rightarrow> like_prefix eq (strip project @ ''#'') r) (select_cards False scope s)))"

section \<open>Creating, changing and deleting a card\<close>

text \<open>\<open>_next_card_key\<close> reads every key of the scope, tombstones included.\<close>

fun highest_suffix :: "nat \<Rightarrow> string list \<Rightarrow> card_error + nat" where
  "highest_suffix h [] = Inr h"
| "highest_suffix h (k # ks) =
     (if startswith k ''FCT-'' \<and> isdigit (drop 4 k)
      then (case py_int (drop 4 k) of None \<Rightarrow> Inl BadKeySuffix | Some n \<Rightarrow> highest_suffix (max h n) ks)
      else highest_suffix h ks)"

definition next_card_key :: "string option \<Rightarrow> card_store \<Rightarrow> card_error + string" where
  "next_card_key scope s =
    res_bind (highest_suffix 0 (map cd_key (select_cards True scope s))) (\<lambda>h. Inr (''FCT-'' @ digits_of_nat (h + 1)))"

definition plan_card :: "string option \<Rightarrow> int \<Rightarrow> card_create \<Rightarrow> card_store \<Rightarrow> card_error + card" where
  "plan_card scope now d s =
    res_bind (if truthy (cn_key d) then Inr (the (cn_key d)) else next_card_key scope s) (\<lambda>key.
      Inr \<lparr>cd_key = key, cd_tenant = tenant_of scope, cd_title = cn_title d, cd_description = cn_description d,
           cd_criteria = cn_criteria d, cd_status = cn_status d, cd_priority = cn_priority d, cd_tier = cn_tier d,
           cd_assignee = cn_assignee d, cd_milestone = cn_milestone d, cd_correlation_key = cn_correlation_key d,
           cd_stage_runs = [], cd_issue_ref = cn_issue_ref d, cd_repository_id = cn_repository_id d,
           cd_issue_state = None, cd_labels = [], cd_sync_error = None, cd_comments_synced_at = None,
           cd_deleted_at = None, cd_created_at = now, cd_updated_at = now\<rparr>)"

definition insert_card :: "card \<Rightarrow> card_store \<Rightarrow> db_error + card_store" where
  "insert_card c s = (if key_used card_key_of c (cs_cards s) \<or> key_used issue_key_of c (cs_cards s)
     then Inl IntegrityError else Inr (s\<lparr>cs_cards := cs_cards s @ [c]\<rparr>))"

text \<open>The insert and, when it is refused, the question which index fired, asked of the database.\<close>

definition commit_card :: "string option \<Rightarrow> card \<Rightarrow> card_store \<Rightarrow> card_error + card \<times> card_store" where
  "commit_card scope c s = (case insert_card c s of
     Inr s' \<Rightarrow> Inr (c, s')
   | Inl _ \<Rightarrow>
       (if truthy (cd_issue_ref c) \<and> get_by_issue_ref scope (the (cd_issue_ref c)) s \<noteq> None
        then Inl (DuplicateIssueRef (cd_issue_ref c)) else Inl (DuplicateCardKey (cd_key c))))"

definition create_card :: "string option \<Rightarrow> int \<Rightarrow> card_create \<Rightarrow> card_store \<Rightarrow> card_error + card \<times> card_store" where
  "create_card scope now d s = res_bind (plan_card scope now d s) (\<lambda>c. commit_card scope c s)"

text \<open>\<open>setattr\<close> of one field.  A null in a \<open>NOT NULL\<close> column is refused by the flush; a null criteria
  list is stored as JSON null and refused when the row is read back.\<close>

fun set_field :: "card_field \<Rightarrow> card \<Rightarrow> card" where
  "set_field (F_title v) c = (case v of None \<Rightarrow> c | Some x \<Rightarrow> c\<lparr>cd_title := x\<rparr>)"
| "set_field (F_description v) c = c\<lparr>cd_description := v\<rparr>"
| "set_field (F_criteria v) c = (case v of None \<Rightarrow> c | Some x \<Rightarrow> c\<lparr>cd_criteria := x\<rparr>)"
| "set_field (F_status v) c = (case v of None \<Rightarrow> c | Some x \<Rightarrow> c\<lparr>cd_status := x\<rparr>)"
| "set_field (F_priority v) c = (case v of None \<Rightarrow> c | Some x \<Rightarrow> c\<lparr>cd_priority := x\<rparr>)"
| "set_field (F_tier v) c = c\<lparr>cd_tier := v\<rparr>"
| "set_field (F_assignee v) c = c\<lparr>cd_assignee := v\<rparr>"
| "set_field (F_milestone v) c = c\<lparr>cd_milestone := v\<rparr>"
| "set_field (F_correlation_key v) c = c\<lparr>cd_correlation_key := v\<rparr>"
| "set_field (F_issue_ref v) c = c\<lparr>cd_issue_ref := v\<rparr>"
| "set_field (F_repository_id v) c = c\<lparr>cd_repository_id := v\<rparr>"
| "set_field (F_issue_state v) c = c\<lparr>cd_issue_state := v\<rparr>"
| "set_field (F_labels v) c = c\<lparr>cd_labels := v\<rparr>"
| "set_field (F_sync_error v) c = c\<lparr>cd_sync_error := v\<rparr>"
| "set_field (F_stage_runs v) c = c\<lparr>cd_stage_runs := v\<rparr>"

fun null_violation :: "card_field \<Rightarrow> bool" where
  "null_violation (F_title None) = True"
| "null_violation (F_status None) = True"
| "null_violation (F_priority None) = True"
| "null_violation _ = False"

definition sent_issue_ref :: "card_field list \<Rightarrow> string option" where
  "sent_issue_ref fs = (case List.find (\<lambda>f. case f of F_issue_ref _ \<Rightarrow> True | _ \<Rightarrow> False) fs of
     Some (F_issue_ref v) \<Rightarrow> v | _ \<Rightarrow> None)"

definition same_card :: "card \<Rightarrow> card \<Rightarrow> bool" where
  "same_card a b = (cd_tenant a = cd_tenant b \<and> cd_key a = cd_key b)"

definition update_card ::
  "string option \<Rightarrow> string \<Rightarrow> card_field list \<Rightarrow> int \<Rightarrow> card_store \<Rightarrow> card_error + card option \<times> card_store" where
  "update_card scope key fs now s = (case get_card scope key s of
     None \<Rightarrow> Inr (None, s)
   | Some c \<Rightarrow>
      (let c' = (fold set_field fs c)\<lparr>cd_updated_at := now\<rparr>
       in if list_ex null_violation fs \<or> key_used issue_key_of c' (filter (\<lambda>d. \<not> same_card c d) (cs_cards s))
          then Inl (DuplicateIssueRef (sent_issue_ref fs))
          else if F_criteria None \<in> set fs then Inl CardValidation
          else Inr (Some c', s\<lparr>cs_cards := update_where (same_card c) (\<lambda>_. c') (cs_cards s)\<rparr>)))"

definition delete_card :: "string option \<Rightarrow> string \<Rightarrow> int \<Rightarrow> card_store \<Rightarrow> bool \<times> card_store" where
  "delete_card scope key now s = (case get_card scope key s of
     None \<Rightarrow> (False, s)
   | Some c \<Rightarrow> (True, s\<lparr>cs_cards := update_where (same_card c)
       (\<lambda>d. d\<lparr>cd_deleted_at := Some now, cd_updated_at := now\<rparr>) (cs_cards s)\<rparr>))"

section \<open>Comments\<close>

definition comments_of :: "string option \<Rightarrow> string \<Rightarrow> card_store \<Rightarrow> comment_row list" where
  "comments_of scope key s = sort_key co_created_at (filter (in_scope cc_tenant scope)
     (filter (\<lambda>c. cc_card c = key) (cs_comments s)))"

definition comment_count :: "card \<Rightarrow> card_store \<Rightarrow> nat" where
  "comment_count c s = length (filter (\<lambda>r. cc_tenant r = cd_tenant c \<and> cc_card r = cd_key c) (cs_comments s))"

definition comment_row_of :: "string \<Rightarrow> string \<Rightarrow> comment \<Rightarrow> comment_row" where
  "comment_row_of t key c = \<lparr>co_id = co_id c, co_author = co_author c, co_body = co_body c, co_url = co_url c,
     co_created_at = co_created_at c, co_updated_at = co_updated_at c, cc_tenant = t, cc_card = key\<rparr>"

text \<open>The upsert: a comment that was there before the call is changed in place, any other is
  inserted, which a second comment of the same id in one batch makes the index refuse.\<close>

fun upsert_comments :: "string \<Rightarrow> string \<Rightarrow> string set \<Rightarrow> comment list \<Rightarrow> comment_row list \<Rightarrow> card_error + comment_row list" where
  "upsert_comments t key existing [] rows = Inr rows"
| "upsert_comments t key existing (c # cs) rows =
     (if co_id c \<in> existing
      then upsert_comments t key existing cs
        (update_where (\<lambda>r. comment_key r = Some (t, key, co_id c)) (\<lambda>_. comment_row_of t key c) rows)
      else if key_used comment_key (comment_row_of t key c) rows then Inl CommentIntegrity
      else upsert_comments t key existing cs (rows @ [comment_row_of t key c]))"

definition store_comments ::
  "string option \<Rightarrow> string \<Rightarrow> comment list \<Rightarrow> int \<Rightarrow> card_store \<Rightarrow> card_error + nat \<times> card_store" where
  "store_comments scope key cs synced_at s =
    (let t = tenant_of scope;
         existing = co_id ` set (filter (\<lambda>r. cc_tenant r = t \<and> cc_card r = key) (cs_comments s))
     in res_bind (upsert_comments t key existing cs (cs_comments s)) (\<lambda>rows.
          Inr (length cs, s\<lparr>cs_comments := rows,
            cs_cards := update_where (\<lambda>c. cd_key c = key \<and> in_scope cd_tenant scope c)
              (\<lambda>c. c\<lparr>cd_comments_synced_at := Some synced_at\<rparr>) (cs_cards s)\<rparr>)))"

section \<open>Import state\<close>

definition import_row :: "string option \<Rightarrow> string \<Rightarrow> card_store \<Rightarrow> import_state option" where
  "import_row scope project s =
    List.find (\<lambda>i. im_tenant i = tenant_of scope \<and> im_project i = project) (cs_imports s)"

definition get_watermark :: "string option \<Rightarrow> string \<Rightarrow> card_store \<Rightarrow> int option" where
  "get_watermark scope project s = (case import_row scope project s of None \<Rightarrow> None | Some i \<Rightarrow> im_last_synced_at i)"

definition put_import_row :: "import_state \<Rightarrow> card_store \<Rightarrow> card_store" where
  "put_import_row i s = s\<lparr>cs_imports := update_where (\<lambda>j. import_key j = import_key i) (\<lambda>_. i) (cs_imports s)\<rparr>"

text \<open>\<open>_upsert_import_state\<close>: run alone, the row is updated or inserted on the first attempt.\<close>

definition upsert_import_state ::
  "string option \<Rightarrow> string \<Rightarrow> (import_state \<Rightarrow> import_state) \<Rightarrow> card_store \<Rightarrow> card_store" where
  "upsert_import_state scope project f s = (case import_row scope project s of
     Some i \<Rightarrow> put_import_row (f i) s
   | None \<Rightarrow> s\<lparr>cs_imports := cs_imports s @ [f \<lparr>im_tenant = tenant_of scope, im_project = project,
       im_last_synced_at = None, im_last_polled_at = None, im_leased_until = None\<rparr>]\<rparr>)"

definition set_watermark :: "string option \<Rightarrow> string \<Rightarrow> int \<Rightarrow> card_store \<Rightarrow> card_store" where
  "set_watermark scope project w s = upsert_import_state scope project (\<lambda>i. i\<lparr>im_last_synced_at := Some w\<rparr>) s"

definition mark_polled :: "string option \<Rightarrow> string \<Rightarrow> int \<Rightarrow> card_store \<Rightarrow> card_store" where
  "mark_polled scope project w s = upsert_import_state scope project (\<lambda>i. i\<lparr>im_last_polled_at := Some w\<rparr>) s"

text \<open>\<open>claim_import_lease\<close> in two steps: what it read decides whether to insert, to compare and set,
  or to give up; the statement then runs against the rows present.\<close>

datatype lease_plan = Lease_insert | Lease_cas "int option" | Lease_held

definition plan_lease :: "string option \<Rightarrow> string \<Rightarrow> int \<Rightarrow> card_store \<Rightarrow> lease_plan" where
  "plan_lease scope project now s = (case import_row scope project s of
     None \<Rightarrow> Lease_insert
   | Some i \<Rightarrow> (case im_leased_until i of
        Some u \<Rightarrow> if u > now then Lease_held else Lease_cas (Some u)
      | None \<Rightarrow> Lease_cas None))"

definition commit_lease :: "lease_plan \<Rightarrow> string option \<Rightarrow> string \<Rightarrow> int \<Rightarrow> int \<Rightarrow> card_store \<Rightarrow> bool \<times> card_store" where
  "commit_lease p scope project now ttl s = (case p of
     Lease_held \<Rightarrow> (False, s)
   | Lease_insert \<Rightarrow> (case import_row scope project s of
        Some _ \<Rightarrow> (False, s)
      | None \<Rightarrow> (True, upsert_import_state scope project (\<lambda>i. i\<lparr>im_leased_until := Some (now + ttl)\<rparr>) s))
   | Lease_cas u \<Rightarrow> (case import_row scope project s of
        None \<Rightarrow> (False, s)
      | Some i \<Rightarrow> if im_leased_until i = u then (True, put_import_row (i\<lparr>im_leased_until := Some (now + ttl)\<rparr>) s)
          else (False, s)))"

definition claim_import_lease :: "string option \<Rightarrow> string \<Rightarrow> int \<Rightarrow> int \<Rightarrow> card_store \<Rightarrow> bool \<times> card_store" where
  "claim_import_lease scope project now ttl s = commit_lease (plan_lease scope project now s) scope project now ttl s"

end
