(* ===== verification/CardSafety.thy ===== *)
theory CardSafety
  imports Cards
begin

text \<open>
  The card store is safe to share: its unique indexes hold in every run of every tenant, no
  operation reaches another tenant's cards, comments or import state, and what a create, an
  overlapping create, a delete and a comment upsert do.
\<close>

section \<open>Well-formed stores\<close>

definition cards_ok :: "card_store \<Rightarrow> bool" where
  "cards_ok s = (keys_unique card_key_of (cs_cards s) \<and> keys_unique issue_key_of (cs_cards s)
     \<and> keys_unique comment_key (cs_comments s) \<and> keys_unique import_key (cs_imports s))"

definition card_view :: "string \<Rightarrow> card_store \<Rightarrow> card list \<times> comment_row list \<times> import_state list" where
  "card_view t s = (tenant_rows cd_tenant t (cs_cards s), tenant_rows cc_tenant t (cs_comments s),
     tenant_rows im_tenant t (cs_imports s))"

definition card_step_ok :: "string option \<Rightarrow> card_store \<Rightarrow> card_store \<Rightarrow> bool" where
  "card_step_ok scope s s' = (cards_ok s \<longrightarrow> cards_ok s'
     \<and> (\<forall>t t'. scope = Some t \<and> t \<noteq> [] \<and> t' \<noteq> t \<longrightarrow> card_view t' s' = card_view t' s))"

lemma tenant_of_Some [simp]: "t \<noteq> [] \<Longrightarrow> tenant_of (Some t) = t"
  by (simp add: tenant_of_def)

lemma in_scope_Some [simp]: "in_scope tn (Some t) r \<longleftrightarrow> tn r = t" and in_scope_None [simp]: "in_scope tn None r"
  by (simp_all add: in_scope_def)

interpretation all_cards: scoped_select cd_tenant cs_cards "select_cards True"
  by unfold_locales (simp add: select_cards_def in_scope_def [abs_def] split: option.splits)

interpretation board: scoped_select cd_tenant live_cards "select_cards False"
  by unfold_locales (auto simp: select_cards_def live_cards_def in_scope_def [abs_def] conj_commute split: option.splits)

interpretation card_keys: unique_table cs_cards card_key_of insert_card
  by unfold_locales (auto simp: insert_card_def split: if_splits)

interpretation card_issues: unique_table cs_cards issue_key_of insert_card
  by unfold_locales (auto simp: insert_card_def split: if_splits)

lemma get_card_Some:
  "get_card scope key s = Some c \<Longrightarrow> c \<in> set (cs_cards s) \<and> cd_key c = key \<and> cd_deleted_at c = None \<and> in_scope cd_tenant scope c"
  unfolding get_card_def by (drule find_SomeD) (auto simp: board.sel_eq live_cards_def)

lemma get_by_issue_ref_Some:
  "get_by_issue_ref scope ref s = Some c \<Longrightarrow> c \<in> set (cs_cards s) \<and> cd_issue_ref c = Some ref \<and> in_scope cd_tenant scope c"
  unfolding get_by_issue_ref_def by (drule find_SomeD) (auto simp: all_cards.sel_eq)

lemma same_card_key: "same_card c d \<longleftrightarrow> card_key_of d = card_key_of c"
  by (auto simp: same_card_def card_key_of_def)

lemma cards_ok_same: "cards_ok s \<Longrightarrow> c \<in> set (cs_cards s) \<Longrightarrow> d \<in> set (cs_cards s) \<Longrightarrow> same_card c d \<Longrightarrow> d = c"
  unfolding cards_ok_def same_card_key using keys_unique_inj [of card_key_of "cs_cards s" d c] by (simp add: card_key_of_def)

lemma distinct_card_keys: "cards_ok s \<Longrightarrow> distinct (map card_key_of (cs_cards s))"
  unfolding cards_ok_def by (intro keys_unique_distinct) (auto simp: card_key_of_def)

section \<open>Every operation keeps it\<close>

lemma commit_card_Inr: "commit_card scope c s = Inr (x, s') \<longleftrightarrow> x = c \<and> insert_card c s = Inr s'"
  by (auto simp: commit_card_def split: sum.splits if_splits)

lemma plan_card_Inr:
  "plan_card scope now d s = Inr c \<Longrightarrow> cd_tenant c = tenant_of scope \<and> cd_issue_ref c = cn_issue_ref d \<and> cd_deleted_at c = None
    \<and> (truthy (cn_key d) \<longrightarrow> cn_key d = Some (cd_key c)) \<and> (\<not> truthy (cn_key d) \<longrightarrow> next_card_key scope s = Inr (cd_key c))"
  by (auto simp: plan_card_def res_bind_Inr_iff truthy_iff split: if_splits)

lemma insert_card_Inr: "insert_card c s = Inr s' \<Longrightarrow> s' = s\<lparr>cs_cards := cs_cards s @ [c]\<rparr>"
  by (simp add: insert_card_def split: if_splits)

lemma create_card_ok:
  assumes "create_card scope now d s = Inr (c, s')"
  shows "card_step_ok scope s s'"
proof -
  obtain c where c: "cd_tenant c = tenant_of scope" and ins: "insert_card c s = Inr s'"
    using assms by (auto simp: create_card_def res_bind_Inr_iff commit_card_Inr dest!: plan_card_Inr)
  note s' = insert_card_Inr [OF ins]
  have "keys_unique card_key_of (cs_cards s')" "keys_unique issue_key_of (cs_cards s')" if "cards_ok s"
    using that card_keys.insert_keeps_unique [OF ins] card_issues.insert_keeps_unique [OF ins] by (simp_all add: cards_ok_def)
  then show ?thesis using c by (auto simp: card_step_ok_def cards_ok_def card_view_def s' tenant_rows_def)
qed

lemma change_card_ok:
  assumes c: "get_card scope key s = Some c"
    and f: "cd_tenant (f c) = cd_tenant c" "cd_key (f c) = cd_key c"
    and free: "cards_ok s \<Longrightarrow> \<not> key_used issue_key_of (f c) (filter (\<lambda>d. \<not> same_card c d) (cs_cards s))"
  shows "card_step_ok scope s (s\<lparr>cs_cards := update_where (same_card c) f (cs_cards s)\<rparr>)"
proof -
  note g = get_card_Some [OF c]
  have "cards_ok (s\<lparr>cs_cards := update_where (same_card c) f (cs_cards s)\<rparr>)
      \<and> (\<forall>t'. cd_tenant c \<noteq> t' \<longrightarrow> tenant_rows cd_tenant t' (update_where (same_card c) f (cs_cards s))
          = tenant_rows cd_tenant t' (cs_cards s))" if ok: "cards_ok s"
  proof -
    have one: "d = c" if "d \<in> set (cs_cards s)" "same_card c d" for d using cards_ok_same [OF ok _ that(1)] that g by blast
    have eq: "same_card c = (\<lambda>d. card_key_of d = card_key_of c)" by (simp add: fun_eq_iff same_card_key)
    have "keys_unique card_key_of (update_where (same_card c) f (cs_cards s))"
      using ok one f by (subst keys_unique_update_same) (auto simp: cards_ok_def card_key_of_def)
    moreover have "keys_unique issue_key_of (update_where (same_card c) f (cs_cards s))"
      unfolding eq using ok distinct_card_keys [OF ok] free [OF ok] one
      by (intro keys_unique_update_id) (auto simp: cards_ok_def eq)
    moreover have "tenant_rows cd_tenant t' (update_where (same_card c) f (cs_cards s)) = tenant_rows cd_tenant t' (cs_cards s)"
      if "cd_tenant c \<noteq> t'" for t' using one f that by (intro tenant_rows_update_other) (metis one)
    ultimately show ?thesis using ok by (simp add: cards_ok_def)
  qed
  then show ?thesis using g by (auto simp: card_step_ok_def card_view_def)
qed

lemma set_field_key [simp]: "cd_key (set_field f c) = cd_key c" "cd_tenant (set_field f c) = cd_tenant c"
    "cd_deleted_at (set_field f c) = cd_deleted_at c"
  by (cases f; auto split: option.splits)+

lemma fold_set_field [simp]: "cd_key (fold set_field fs c) = cd_key c" "cd_tenant (fold set_field fs c) = cd_tenant c"
    "cd_deleted_at (fold set_field fs c) = cd_deleted_at c"
  by (induction fs arbitrary: c) auto

lemma update_card_cases:
  assumes "update_card scope key fs now s = Inr (r, s')"
  obtains (none) "r = None" "s' = s" "get_card scope key s = None"
  | (some) c where "get_card scope key s = Some c" "r = Some ((fold set_field fs c)\<lparr>cd_updated_at := now\<rparr>)"
      "s' = s\<lparr>cs_cards := update_where (same_card c) (\<lambda>_. (fold set_field fs c)\<lparr>cd_updated_at := now\<rparr>) (cs_cards s)\<rparr>"
      "\<not> key_used issue_key_of ((fold set_field fs c)\<lparr>cd_updated_at := now\<rparr>) (filter (\<lambda>d. \<not> same_card c d) (cs_cards s))"
  using assms by (auto simp: update_card_def Let_def split: option.splits if_splits)

lemma update_card_ok:
  assumes "update_card scope key fs now s = Inr (r, s')" shows "card_step_ok scope s s'"
  using assms
proof (cases rule: update_card_cases)
  case none
  then show ?thesis by (simp add: card_step_ok_def)
next
  case (some c)
  then show ?thesis using change_card_ok [OF some(1)] by simp
qed

lemma delete_card_ok:
  assumes "delete_card scope key now s = (b, s')" shows "card_step_ok scope s s'"
proof (cases "get_card scope key s")
  case None
  then show ?thesis using assms by (simp add: delete_card_def card_step_ok_def)
next
  case (Some c)
  let ?f = "\<lambda>d. d\<lparr>cd_deleted_at := Some now, cd_updated_at := now\<rparr>"
  have "\<not> key_used issue_key_of (?f c) (filter (\<lambda>d. card_key_of d \<noteq> card_key_of c) (cs_cards s))" if "cards_ok s"
    using get_card_Some [OF Some] that by (intro keys_unique_others) (auto simp: cards_ok_def issue_key_of_def)
  then have "card_step_ok scope s (s\<lparr>cs_cards := update_where (same_card c) ?f (cs_cards s)\<rparr>)"
    by (intro change_card_ok [OF Some]) (simp_all add: same_card_key)
  then show ?thesis using Some assms by (simp add: delete_card_def)
qed

lemma comment_row_of_simps [simp]: "comment_key (comment_row_of t key c) = Some (t, key, co_id c)"
    "cc_tenant (comment_row_of t key c) = t" "cc_card (comment_row_of t key c) = key" "co_id (comment_row_of t key c) = co_id c"
  by (simp_all add: comment_row_of_def comment_key_def)

lemma upsert_comments_ok:
  assumes "upsert_comments t key ex cs rows = Inr rows'" "keys_unique comment_key rows"
  shows "keys_unique comment_key rows' \<and> (\<forall>t'. t' \<noteq> t \<longrightarrow> tenant_rows cc_tenant t' rows' = tenant_rows cc_tenant t' rows)"
  using assms
proof (induction t key ex cs rows rule: upsert_comments.induct)
  case (2 t key ex c cs rows)
  let ?u = "update_where (\<lambda>r. comment_key r = Some (t, key, co_id c)) (\<lambda>_. comment_row_of t key c) rows"
  show ?case
  proof (cases "co_id c \<in> ex")
    case True
    have "keys_unique comment_key ?u" using "2.prems"(2) by (subst keys_unique_update_same) auto
    moreover have "tenant_rows cc_tenant t' ?u = tenant_rows cc_tenant t' rows" if "t' \<noteq> t" for t'
      using that by (intro tenant_rows_update_other) (auto simp: comment_key_def)
    ultimately show ?thesis using "2.IH"(1) [OF True] "2.prems" True by simp
  next
    case False
    then show ?thesis using 2 by (auto simp: keys_unique_snoc tenant_rows_def split: if_splits)
  qed
qed simp

lemma store_comments_ok:
  assumes "store_comments scope key cs now s = Inr (n, s')" shows "card_step_ok scope s s'"
proof -
  let ?p = "\<lambda>c. cd_key c = key \<and> in_scope cd_tenant scope c" and ?f = "\<lambda>c. c\<lparr>cd_comments_synced_at := Some now\<rparr>"
  obtain ex rows where up: "upsert_comments (tenant_of scope) key ex cs (cs_comments s) = Inr rows"
    and s': "s' = s\<lparr>cs_comments := rows, cs_cards := update_where ?p ?f (cs_cards s)\<rparr>"
    using assms by (auto simp: store_comments_def Let_def res_bind_Inr_iff)
  have keys: "keys_unique card_key_of (update_where ?p ?f (cs_cards s)) = keys_unique card_key_of (cs_cards s)"
    "keys_unique issue_key_of (update_where ?p ?f (cs_cards s)) = keys_unique issue_key_of (cs_cards s)"
    by (intro keys_unique_update_same; simp add: card_key_of_def issue_key_of_def)+
  have other: "tenant_rows cd_tenant t' (update_where ?p ?f (cs_cards s)) = tenant_rows cd_tenant t' (cs_cards s)"
    if "scope = Some t" "t' \<noteq> t" for t t' using that by (intro tenant_rows_update_other) auto
  show ?thesis using upsert_comments_ok [OF up] keys other
    by (auto simp: card_step_ok_def cards_ok_def card_view_def s')
qed

lemma import_row_Some:
  "import_row scope p s = Some i \<Longrightarrow> i \<in> set (cs_imports s) \<and> im_tenant i = tenant_of scope \<and> im_project i = p"
  unfolding import_row_def by (drule find_SomeD) simp

lemma put_import_row_ok:
  assumes "im_tenant i = tenant_of scope"
  shows "card_step_ok scope s (put_import_row i s)"
proof -
  have "keys_unique import_key (update_where (\<lambda>j. import_key j = import_key i) (\<lambda>_. i) (cs_imports s)) = keys_unique import_key (cs_imports s)"
    by (intro keys_unique_update_same) simp
  moreover have "tenant_rows im_tenant t' (update_where (\<lambda>j. import_key j = import_key i) (\<lambda>_. i) (cs_imports s))
      = tenant_rows im_tenant t' (cs_imports s)" if "t' \<noteq> tenant_of scope" for t'
    using that assms by (intro tenant_rows_update_other) (auto simp: import_key_def)
  ultimately show ?thesis by (auto simp: card_step_ok_def cards_ok_def card_view_def put_import_row_def)
qed

lemma upsert_import_state_ok:
  assumes "\<And>i. im_tenant (f i) = im_tenant i \<and> im_project (f i) = im_project i"
  shows "card_step_ok scope s (upsert_import_state scope p f s)"
proof (cases "import_row scope p s")
  case None
  let ?i = "f \<lparr>im_tenant = tenant_of scope, im_project = p, im_last_synced_at = None, im_last_polled_at = None, im_leased_until = None\<rparr>"
  have "\<not> key_used import_key ?i (cs_imports s)"
    using None assms unfolding import_row_def find_None_iff by (auto simp: key_used_def list_ex_iff import_key_def)
  then show ?thesis using None assms
    by (auto simp: upsert_import_state_def card_step_ok_def cards_ok_def card_view_def keys_unique_snoc tenant_rows_def)
next
  case (Some i)
  then show ?thesis using put_import_row_ok [of "f i" scope] assms import_row_Some [OF Some]
    by (simp add: upsert_import_state_def)
qed

lemma commit_lease_ok: "commit_lease pl scope p now ttl s = (b, s') \<Longrightarrow> card_step_ok scope s s'"
  by (auto simp: commit_lease_def card_step_ok_def split: lease_plan.splits option.splits if_splits
      dest: import_row_Some intro!: upsert_import_state_ok [unfolded card_step_ok_def, rule_format]
        put_import_row_ok [unfolded card_step_ok_def, rule_format])

section \<open>Runs\<close>

datatype card_op =
    CreateCard int card_create
  | UpdateCard string "card_field list" int
  | DeleteCard string int
  | StoreComments string "comment list" int
  | SetWatermark string int
  | MarkPolled string int
  | ClaimLease string int int

fun card_exec :: "string \<Rightarrow> card_op \<Rightarrow> card_store \<Rightarrow> card_error + card_store" where
  "card_exec t (CreateCard now d) s = res_bind (create_card (Some t) now d s) (\<lambda>(_, s'). Inr s')"
| "card_exec t (UpdateCard k fs now) s = res_bind (update_card (Some t) k fs now s) (\<lambda>(_, s'). Inr s')"
| "card_exec t (DeleteCard k now) s = Inr (snd (delete_card (Some t) k now s))"
| "card_exec t (StoreComments k cs now) s = res_bind (store_comments (Some t) k cs now s) (\<lambda>(_, s'). Inr s')"
| "card_exec t (SetWatermark p w) s = Inr (set_watermark (Some t) p w s)"
| "card_exec t (MarkPolled p w) s = Inr (mark_polled (Some t) p w s)"
| "card_exec t (ClaimLease p now ttl) s = Inr (snd (claim_import_lease (Some t) p now ttl s))"

lemma card_exec_ok: "card_exec t op s = Inr s' \<Longrightarrow> card_step_ok (Some t) s s'"
proof (cases op)
  case (DeleteCard k now)
  then show "card_exec t op s = Inr s' \<Longrightarrow> ?thesis"
    using delete_card_ok [of "Some t" k now s] by (cases "delete_card (Some t) k now s") auto
next
  case (ClaimLease p now ttl)
  then show "card_exec t op s = Inr s' \<Longrightarrow> ?thesis"
    using commit_lease_ok [of _ "Some t" p now ttl s] unfolding claim_import_lease_def
    by (cases "claim_import_lease (Some t) p now ttl s") (auto simp: claim_import_lease_def)
qed (auto simp: res_bind_Inr_iff set_watermark_def mark_polled_def
    dest: create_card_ok update_card_ok store_comments_ok intro: upsert_import_state_ok)

interpretation cards: tenant_store card_exec "\<lambda>t. t \<noteq> []" cards_ok card_view
  using card_exec_ok by unfold_locales (auto simp: card_step_ok_def)

definition cards_empty :: card_store where
  "cards_empty = \<lparr>cs_cards = [], cs_comments = [], cs_imports = []\<rparr>"

lemma cards_empty_ok [simp]: "cards_ok cards_empty"
  by (simp add: cards_ok_def cards_empty_def)

section \<open>Properties\<close>

text \<open>C17: in every run of every tenant the card store keeps its four unique indexes, so no tenant has
  two cards with one key, two cards, deleted ones included, for one issue, two copies of one
  comment or two import cursors for one project; and a tenant that did not act finds its
  cards, comments and import state exactly as they were.\<close>

theorem card_store_isolated:
  assumes "t \<notin> fst ` set ops" "[] \<notin> fst ` set ops"
  shows "cards_ok (run_ops card_exec (ops0 @ ops) cards_empty)
    \<and> card_view t (run_ops card_exec ops (run_ops card_exec ops0 cards_empty)) = card_view t (run_ops card_exec ops0 cards_empty)"
proof -
  have "list_all (\<lambda>a. fst a \<noteq> []) ops" using assms(2) by (force simp: list_all_iff)
  then show ?thesis using cards.run_ok [OF cards_empty_ok] cards.run_view [OF cards.run_ok [OF cards_empty_ok] assms(1)] by blast
qed

definition ex_create :: card_create where
  "ex_create = \<lparr>cn_key = None, cn_title = ''t'', cn_description = None, cn_criteria = [], cn_status = Backlog, cn_priority = 0,
     cn_tier = None, cn_assignee = None, cn_milestone = None, cn_correlation_key = None,
     cn_issue_ref = Some ''a/b#1'', cn_repository_id = None\<rparr>"

theorem card_store_isolated_witness:
  "card_view ''acme'' (run_ops card_exec [(''globex'', DeleteCard ''FCT-1'' 9)]
      (run_ops card_exec [(''acme'', CreateCard 5 ex_create)] cards_empty))
   = card_view ''acme'' (run_ops card_exec [(''acme'', CreateCard 5 ex_create)] cards_empty)"
  using card_store_isolated [of "''acme''" "[(''globex'', DeleteCard ''FCT-1'' 9)]" "[(''acme'', CreateCard 5 ex_create)]"]
  by simp

lemma highest_suffix_mono: "highest_suffix h ks = Inr m \<Longrightarrow> h \<le> m"
  by (induction h ks rule: highest_suffix.induct) (auto split: if_splits option.splits)

lemma highest_suffix_bound:
  "highest_suffix h ks = Inr m \<Longrightarrow> k \<in> set ks \<Longrightarrow> startswith k ''FCT-'' \<Longrightarrow> isdigit (drop 4 k) \<Longrightarrow> py_int (drop 4 k) = Some n \<Longrightarrow> n \<le> m"
  by (induction h ks rule: highest_suffix.induct) (auto split: if_splits option.splits dest: highest_suffix_mono)

lemma isdigit_digits: "isdigit (digits_of_nat n)"
  using digits_of_nat_ascii [of n] by (auto simp: isdigit_def list_all_iff isdigit_char_def)

lemma next_card_key_fresh:
  assumes "next_card_key scope s = Inr k" "c \<in> set (cs_cards s)" "in_scope cd_tenant scope c"
  shows "cd_key c \<noteq> k"
proof
  assume eq: "cd_key c = k"
  obtain m where m: "highest_suffix 0 (map cd_key (select_cards True scope s)) = Inr m" and k: "k = ''FCT-'' @ digits_of_nat (m + 1)"
    using assms(1) by (auto simp: next_card_key_def res_bind_Inr_iff)
  have "k \<in> set (map cd_key (select_cards True scope s))" using assms(2,3) eq by (auto simp: all_cards.sel_eq)
  moreover have "startswith k ''FCT-''" unfolding k startswith_append by blast
  ultimately have "m + 1 \<le> m" using highest_suffix_bound [OF m, of k "m + 1"] isdigit_digits [of "m + 1"] py_int_digits [of "m + 1"]
    by (simp add: k)
  then show False by simp
qed

lemma tenant_cards: "c \<in> set (tenant_rows cd_tenant t (cs_cards s)) \<longleftrightarrow> c \<in> set (cs_cards s) \<and> cd_tenant c = t"
  by (auto simp: tenant_rows_def)

text \<open>What refuses an insert: a card of the same tenant, on the board or deleted, with the key or
  with the issue.\<close>

definition taken_key :: "string \<Rightarrow> string \<Rightarrow> card_store \<Rightarrow> bool" where
  "taken_key t key s = list_ex (\<lambda>c. cd_key c = key) (tenant_rows cd_tenant t (cs_cards s))"

definition taken_ref :: "string \<Rightarrow> string option \<Rightarrow> card_store \<Rightarrow> bool" where
  "taken_ref t ref s = (ref \<noteq> None \<and> list_ex (\<lambda>c. cd_issue_ref c = ref) (tenant_rows cd_tenant t (cs_cards s)))"

lemma key_used_taken: "key_used card_key_of c (cs_cards s) \<longleftrightarrow> taken_key (cd_tenant c) (cd_key c) s"
  by (auto simp: key_used_def card_key_of_def taken_key_def list_ex_iff tenant_cards)

lemma issue_used_taken: "key_used issue_key_of c (cs_cards s) \<longleftrightarrow> taken_ref (cd_tenant c) (cd_issue_ref c) s"
  by (cases "cd_issue_ref c") (auto simp: key_used_def issue_key_of_def taken_ref_def list_ex_iff tenant_cards)

lemma found_ref:
  assumes "t \<noteq> []"
  shows "get_by_issue_ref (Some t) r s \<noteq> None \<longleftrightarrow> taken_ref t (Some r) s"
proof -
  have "get_by_issue_ref (Some t) r s \<noteq> None \<longleftrightarrow> (\<exists>c. get_by_issue_ref (Some t) r s = Some c)" by auto
  then show ?thesis unfolding get_by_issue_ref_def find_exists taken_ref_def list_ex_iff
    by (auto simp: all_cards.sel_eq tenant_cards)
qed

lemma commit_card_exact:
  assumes "t \<noteq> []" "cd_tenant c = t"
  shows "commit_card (Some t) c s =
    (if taken_ref t (cd_issue_ref c) s \<and> truthy (cd_issue_ref c) then Inl (DuplicateIssueRef (cd_issue_ref c))
     else if taken_key t (cd_key c) s \<or> taken_ref t (cd_issue_ref c) s then Inl (DuplicateCardKey (cd_key c))
     else Inr (c, s\<lparr>cs_cards := cs_cards s @ [c]\<rparr>))"
  using assms found_ref [OF assms(1), of "the (cd_issue_ref c)" s]
  by (auto simp: commit_card_def insert_card_def key_used_taken issue_used_taken truthy_iff)

text \<open>When a create succeeds and what it says when it does not.  A card whose issue a card of the
  tenant already stands for, even a deleted one, is refused as a duplicate issue; one whose
  key is taken as a duplicate key; any other is appended, and is then what a read of its key
  gives.  A key the store chose itself is never the one that is taken.\<close>

theorem create_card_exact:
  assumes t: "t \<noteq> []" and plan: "plan_card (Some t) now d s = Inr c"
  shows "create_card (Some t) now d s =
      (if taken_ref t (cn_issue_ref d) s \<and> truthy (cn_issue_ref d) then Inl (DuplicateIssueRef (cn_issue_ref d))
       else if taken_key t (cd_key c) s \<or> taken_ref t (cn_issue_ref d) s then Inl (DuplicateCardKey (cd_key c))
       else Inr (c, s\<lparr>cs_cards := cs_cards s @ [c]\<rparr>))
    \<and> (\<not> truthy (cn_key d) \<longrightarrow> \<not> taken_key t (cd_key c) s)
    \<and> (\<forall>s'. create_card (Some t) now d s = Inr (c, s') \<longrightarrow> get_card (Some t) (cd_key c) s' = Some c)"
proof -
  note p = plan_card_Inr [OF plan]
  have exact: "create_card (Some t) now d s = commit_card (Some t) c s" by (simp add: create_card_def plan)
  have "get_card (Some t) (cd_key c) s' = Some c" if s': "create_card (Some t) now d s = Inr (c, s')" for s'
  proof -
    have ins: "insert_card c s = Inr s'" using s' exact by (simp add: commit_card_Inr)
    note eq = insert_card_Inr [OF ins]
    have "\<not> taken_key t (cd_key c) s" using ins p t by (auto simp: insert_card_def key_used_taken split: if_splits)
    then have "List.find (\<lambda>x. cd_key x = cd_key c) (select_cards False (Some t) s) = None"
      unfolding find_None_iff by (auto simp: taken_key_def list_ex_iff tenant_cards board.sel_eq live_cards_def)
    moreover have "select_cards False (Some t) s' = select_cards False (Some t) s @ [c]"
      using p t by (simp add: eq select_cards_def)
    moreover have "List.find q (xs @ [y]) = (case List.find q xs of None \<Rightarrow> if q y then Some y else None | Some z \<Rightarrow> Some z)"
      for q :: "card \<Rightarrow> bool" and xs y by (induction xs) auto
    ultimately show ?thesis by (simp add: get_card_def)
  qed
  moreover have "\<not> taken_key t (cd_key c) s" if "\<not> truthy (cn_key d)"
    using next_card_key_fresh [of "Some t" s "cd_key c"] p that by (auto simp: taken_key_def list_ex_iff tenant_cards)
  ultimately show ?thesis using exact commit_card_exact [of t c s] p t by simp
qed

lemma ex_plan: "\<exists>c. plan_card (Some ''acme'') 5 ex_create cards_empty = Inr c"
  by (simp add: plan_card_def next_card_key_def select_cards_def cards_empty_def ex_create_def)

theorem create_card_exact_witness:
  "\<exists>c s'. create_card (Some ''acme'') 5 ex_create cards_empty = Inr (c, s') \<and> get_card (Some ''acme'') (cd_key c) s' = Some c"
proof -
  obtain c where c: "plan_card (Some ''acme'') 5 ex_create cards_empty = Inr c" using ex_plan by blast
  show ?thesis using create_card_exact [OF _ c]
    by (auto simp: taken_ref_def taken_key_def tenant_rows_def cards_empty_def)
qed

text \<open>Creates that overlap.  Two cards planned from one reading of the board without keys of their
  own, or for one issue, cannot both be stored: once the first is committed the second is
  refused, as a duplicate issue when they share one and as a duplicate key when not, and the
  board holds just the first.  Asked again, the second gets the next key.\<close>

theorem overlapping_creates:
  assumes t: "t \<noteq> []" and p1: "plan_card (Some t) n1 d1 s = Inr c1" and p2: "plan_card (Some t) n2 d2 s = Inr c2"
    and keys: "\<not> truthy (cn_key d1)" "\<not> truthy (cn_key d2)"
    and first: "commit_card (Some t) c1 s = Inr (c1, s1)"
  shows "commit_card (Some t) c2 s1 = (if truthy (cn_issue_ref d2) \<and> taken_ref t (cn_issue_ref d2) s1
      then Inl (DuplicateIssueRef (cn_issue_ref d2)) else Inl (DuplicateCardKey (cd_key c1)))
    \<and> (\<forall>c3. plan_card (Some t) n2 d2 s1 = Inr c3 \<and> \<not> taken_ref t (cn_issue_ref d2) s1
        \<longrightarrow> create_card (Some t) n2 d2 s1 = Inr (c3, s1\<lparr>cs_cards := cs_cards s1 @ [c3]\<rparr>))"
proof -
  note q = plan_card_Inr [OF p1] plan_card_Inr [OF p2]
  have same: "cd_key c2 = cd_key c1" using q keys by simp
  have s1: "s1 = s\<lparr>cs_cards := cs_cards s @ [c1]\<rparr>" using first insert_card_Inr by (simp add: commit_card_Inr)
  have "taken_key t (cd_key c1) s1" using q t by (simp add: taken_key_def s1 tenant_rows_def)
  then have "commit_card (Some t) c2 s1 = (if truthy (cn_issue_ref d2) \<and> taken_ref t (cn_issue_ref d2) s1
      then Inl (DuplicateIssueRef (cn_issue_ref d2)) else Inl (DuplicateCardKey (cd_key c1)))"
    using commit_card_exact [OF t, of c2 s1] q t same by simp
  moreover have "create_card (Some t) n2 d2 s1 = Inr (c3, s1\<lparr>cs_cards := cs_cards s1 @ [c3]\<rparr>)"
    if c3: "plan_card (Some t) n2 d2 s1 = Inr c3" and free: "\<not> taken_ref t (cn_issue_ref d2) s1" for c3
  proof -
    note r = plan_card_Inr [OF c3]
    have "\<not> taken_key t (cd_key c3) s1"
      using next_card_key_fresh [of "Some t" s1 "cd_key c3"] r keys by (auto simp: taken_key_def list_ex_iff tenant_cards)
    then show ?thesis using commit_card_exact [OF t, of c3 s1] r t free by (simp add: create_card_def c3)
  qed
  ultimately show ?thesis by blast
qed

theorem overlapping_creates_witness:
  "\<exists>c1 c2 s1. plan_card (Some ''acme'') 5 ex_create cards_empty = Inr c1
    \<and> plan_card (Some ''acme'') 6 (ex_create\<lparr>cn_issue_ref := None\<rparr>) cards_empty = Inr c2
    \<and> commit_card (Some ''acme'') c1 cards_empty = Inr (c1, s1)
    \<and> commit_card (Some ''acme'') c2 s1 = Inl (DuplicateCardKey (cd_key c1))"
proof -
  obtain c1 where c1: "plan_card (Some ''acme'') 5 ex_create cards_empty = Inr c1" using ex_plan by blast
  obtain c2 where c2: "plan_card (Some ''acme'') 6 (ex_create\<lparr>cn_issue_ref := None\<rparr>) cards_empty = Inr c2"
    by (simp add: plan_card_def next_card_key_def select_cards_def cards_empty_def ex_create_def)
  obtain s1 where s1: "commit_card (Some ''acme'') c1 cards_empty = Inr (c1, s1)"
    using plan_card_Inr [OF c1] commit_card_exact [of "''acme''" c1 cards_empty]
    by (simp add: taken_ref_def taken_key_def tenant_rows_def cards_empty_def)
  show ?thesis using overlapping_creates [OF _ c1 c2 _ _ s1] c1 c2 s1 by (auto simp: ex_create_def)
qed

lemma highest_suffix_bad:
  assumes "k \<in> set ks" "startswith k ''FCT-''" "isdigit (drop 4 k)" "py_int (drop 4 k) = None"
  shows "highest_suffix h ks = Inl BadKeySuffix"
  using assms by (induction h ks rule: highest_suffix.induct) (auto split: option.splits)

text \<open>One card can end automatic keys.  A key is free text, and \<open>isdigit\<close> accepts the superscript
  digits that \<open>int\<close> rejects: once a tenant holds a card, deleted or not, keyed \<open>FCT-\<close> and a
  suffix of that kind, every create that leaves the key to the store raises.\<close>

theorem superscript_key_ends_auto_keys:
  assumes "c \<in> set (cs_cards s)" "in_scope cd_tenant scope c" "cd_key c = ''FCT-'' @ d"
    and "isdigit d" "py_int d = None"
  shows "\<forall>now b. \<not> truthy (cn_key b) \<longrightarrow> create_card scope now b s = Inl BadKeySuffix"
proof -
  have "cd_key c \<in> set (map cd_key (select_cards True scope s))" using assms(1,2) by (auto simp: all_cards.sel_eq)
  then have "next_card_key scope s = Inl BadKeySuffix"
    using highest_suffix_bad [of "cd_key c" _ 0] assms(3-5) unfolding next_card_key_def by (simp add: startswith_append)
  then show ?thesis by (simp add: create_card_def plan_card_def)
qed

definition ex_card :: "string \<Rightarrow> string option \<Rightarrow> card" where
  "ex_card key ref = \<lparr>cd_key = key, cd_tenant = ''acme'', cd_title = ''t'', cd_description = None, cd_criteria = [],
     cd_status = Backlog, cd_priority = 0, cd_tier = None, cd_assignee = None, cd_milestone = None, cd_correlation_key = None,
     cd_stage_runs = [], cd_issue_ref = ref, cd_repository_id = None, cd_issue_state = None, cd_labels = [],
     cd_sync_error = None, cd_comments_synced_at = None, cd_deleted_at = None, cd_created_at = 0, cd_updated_at = 0\<rparr>"

theorem superscript_key_ends_auto_keys_witness:
  "create_card (Some ''acme'') 5 ex_create (cards_empty\<lparr>cs_cards := [ex_card (''FCT-'' @ [char_of (178::nat)]) None]\<rparr>) = Inl BadKeySuffix"
  using superscript_key_ends_auto_keys [of "ex_card (''FCT-'' @ [char_of (178::nat)]) None"
      "cards_empty\<lparr>cs_cards := [ex_card (''FCT-'' @ [char_of (178::nat)]) None]\<rparr>" "Some ''acme''" "[char_of (178::nat)]"]
  by (simp add: ex_card_def ex_create_def isdigit_def isdigit_char_def py_int_def ascii_digit_def)

text \<open>An update that violates a \<open>NOT NULL\<close> column is answered as a duplicate issue.  The flush
  refuses a null title, status or priority with the same exception as the unique index, and
  the handler names no issue at all; nothing is stored.\<close>

theorem null_title_reported_as_duplicate:
  assumes "get_card scope key s = Some c"
  shows "update_card scope key [F_title None] now s = Inl (DuplicateIssueRef None)
    \<and> update_card scope key [F_status None] now s = Inl (DuplicateIssueRef None)"
  using assms by (simp add: update_card_def sent_issue_ref_def)

theorem null_title_reported_as_duplicate_witness:
  "update_card (Some ''acme'') ''FCT-1'' [F_title None] 5 (cards_empty\<lparr>cs_cards := [ex_card ''FCT-1'' None]\<rparr>) = Inl (DuplicateIssueRef None)"
  using null_title_reported_as_duplicate [of "Some ''acme''" "''FCT-1''" "cards_empty\<lparr>cs_cards := [ex_card ''FCT-1'' None]\<rparr>" "ex_card ''FCT-1'' None" 5]
  by (simp add: get_card_def select_cards_def ex_card_def cards_empty_def)

section \<open>Which cards a project's comment pass selects\<close>

lemma like_prefix_plain: "\<forall>x\<in>set p. x \<noteq> CHR ''%'' \<and> x \<noteq> CHR ''_'' \<Longrightarrow> like_prefix (=) p s \<longleftrightarrow> startswith s p"
  by (induction "(=) :: char \<Rightarrow> char \<Rightarrow> bool" p s rule: like_prefix.induct) auto

text \<open>The cards a project's comment pass reads are those whose issue reference matches the
  project as a \<open>LIKE\<close> pattern.  For a project path without an underscore or percent sign they
  are exactly the live cards of that project's issues; for one with an underscore, which
  project paths may have, they include another project's: reading \<open>acme/my_repo\<close> visits the
  card of \<open>acme/my-repo#5\<close>.\<close>

theorem project_is_a_like_pattern:
  "(\<forall>c. strip project \<noteq> [] \<and> CHR ''%'' \<notin> set (strip project) \<and> CHR ''_'' \<notin> set (strip project) \<longrightarrow>
      (c \<in> set (cards_for_project (=) scope project s) \<longleftrightarrow>
        c \<in> set (select_cards False scope s) \<and> (\<exists>n. cd_issue_ref c = Some (strip project @ ''#'' @ n))))
    \<and> (\<forall>c. c \<in> set (select_cards False scope s) \<and> cd_issue_ref c = Some ''acme/my-repo#5''
        \<longrightarrow> c \<in> set (cards_for_project (=) scope ''acme/my_repo'' s))"
proof -
  have "like_prefix (=) (strip project @ ''#'') r \<longleftrightarrow> (\<exists>n. r = strip project @ ''#'' @ n)"
    if "CHR ''%'' \<notin> set (strip project)" "CHR ''_'' \<notin> set (strip project)" for r
    using that by (subst like_prefix_plain) (auto simp: startswith_append)
  then show ?thesis by (auto simp: cards_for_project_def eval_str split: option.splits)
qed

theorem project_is_a_like_pattern_witness:
  "ex_card ''FCT-1'' (Some ''acme/my-repo#5'')
    \<in> set (cards_for_project (=) (Some ''acme'') ''acme/my_repo'' (cards_empty\<lparr>cs_cards := [ex_card ''FCT-1'' (Some ''acme/my-repo#5'')]\<rparr>))"
  using project_is_a_like_pattern [of "[]" "Some ''acme''" "cards_empty\<lparr>cs_cards := [ex_card ''FCT-1'' (Some ''acme/my-repo#5'')]\<rparr>"]
  by (simp add: select_cards_def ex_card_def cards_empty_def)

section \<open>Comments\<close>

definition merged :: "string \<Rightarrow> string \<Rightarrow> comment list \<Rightarrow> comment_row \<Rightarrow> comment_row" where
  "merged t key cs r = (case List.find (\<lambda>c. comment_key r = Some (t, key, co_id c)) cs of
     None \<Rightarrow> r | Some c \<Rightarrow> comment_row_of t key c)"

lemma merged_Nil [simp]: "merged t key [] r = r"
  by (simp add: merged_def)

lemma merged_Cons: "merged t key (c # cs) r =
    (if comment_key r = Some (t, key, co_id c) then comment_row_of t key c else merged t key cs r)"
  by (simp add: merged_def)

lemma merged_own: "co_id c \<notin> co_id ` set cs \<Longrightarrow> merged t key cs (comment_row_of t key c) = comment_row_of t key c"
  by (induction cs) (auto simp: merged_Cons)

lemma upsert_exact:
  assumes "distinct (map co_id cs)" "\<And>c. c \<in> set cs \<Longrightarrow> co_id c \<notin> ex \<Longrightarrow> \<not> key_used comment_key (comment_row_of t key c) rows"
  shows "upsert_comments t key ex cs rows =
    Inr (map (merged t key cs) rows @ map (comment_row_of t key) (filter (\<lambda>c. co_id c \<notin> ex) cs))"
  using assms
proof (induction cs arbitrary: rows)
  case (Cons c cs)
  let ?n = "comment_row_of t key c"
  show ?case
  proof (cases "co_id c \<in> ex")
    case True
    let ?u = "update_where (\<lambda>r. comment_key r = Some (t, key, co_id c)) (\<lambda>_. ?n) rows"
    have "\<not> key_used comment_key (comment_row_of t key d) ?u" if "d \<in> set cs" "co_id d \<notin> ex" for d
      using Cons.prems that True by (fastforce simp: key_used_def list_ex_iff in_update_where split: if_splits)
    moreover have "map (merged t key cs) ?u = map (merged t key (c # cs)) rows"
      using merged_own [of c cs t key] Cons.prems(1) by (simp add: update_where_def merged_Cons)
    ultimately show ?thesis using Cons.IH [of ?u] Cons.prems(1) True by simp
  next
    case False
    then have new: "\<not> key_used comment_key ?n rows" using Cons.prems(2) by simp
    then have "\<forall>r\<in>set rows. comment_key r \<noteq> Some (t, key, co_id c)" by (auto simp: key_used_def list_ex_iff)
    then have "map (merged t key cs) rows = map (merged t key (c # cs)) rows" by (simp add: merged_Cons)
    moreover have "\<not> key_used comment_key (comment_row_of t key d) (rows @ [?n])" if "d \<in> set cs" "co_id d \<notin> ex" for d
      using Cons.prems that by (force simp: key_used_def)
    ultimately show ?thesis using Cons.IH [of "rows @ [?n]"] Cons.prems(1) False new merged_own [of c cs t key] by simp
  qed
qed (simp add: map_idI)

text \<open>Storing a card's comments is an upsert on the provider's id.  With no id twice in the batch it
  always succeeds: the rows that were there keep their place, one of the batch's ids with the
  batch's content, every other as it was, and the ids that were new are appended in order.
  Storing the same batch again changes no row.\<close>

theorem store_comments_exact:
  assumes "distinct (map co_id cs)" "scope = Some t" "t \<noteq> []"
  shows "\<exists>s'. store_comments scope key cs now s = Inr (length cs, s')
    \<and> cs_comments s' = map (merged t key cs) (cs_comments s)
        @ map (comment_row_of t key) (filter (\<lambda>c. \<forall>r\<in>set (cs_comments s). comment_key r \<noteq> Some (t, key, co_id c)) cs)
    \<and> (\<exists>s''. store_comments scope key cs now' s' = Inr (length cs, s'') \<and> cs_comments s'' = cs_comments s')"
proof -
  let ?ex = "\<lambda>s. co_id ` set (filter (\<lambda>r. cc_tenant r = t \<and> cc_card r = key) (cs_comments s))"
  have mem: "i \<in> ?ex s \<longleftrightarrow> (\<exists>r\<in>set (cs_comments s). comment_key r = Some (t, key, i))" for i s
    by (force simp: comment_key_def)
  have up: "\<exists>s'. store_comments scope key cs w s = Inr (length cs, s') \<and> cs_comments s' = map (merged t key cs) (cs_comments s)
        @ map (comment_row_of t key) (filter (\<lambda>c. \<forall>r\<in>set (cs_comments s). comment_key r \<noteq> Some (t, key, co_id c)) cs)" for w s
  proof -
    have "upsert_comments t key (?ex s) cs (cs_comments s) = Inr (map (merged t key cs) (cs_comments s)
        @ map (comment_row_of t key) (filter (\<lambda>c. co_id c \<notin> ?ex s) cs))"
      using mem by (intro upsert_exact assms(1)) (auto simp: key_used_def list_ex_iff)
    moreover have "filter (\<lambda>c. co_id c \<notin> ?ex s) cs = filter (\<lambda>c. \<forall>r\<in>set (cs_comments s). comment_key r \<noteq> Some (t, key, co_id c)) cs"
      by (intro filter_cong refl) (simp only: mem, blast)
    ultimately show ?thesis using assms(2,3) by (simp add: store_comments_def)
  qed
  obtain s' where s': "store_comments scope key cs now s = Inr (length cs, s')"
    "cs_comments s' = map (merged t key cs) (cs_comments s)
        @ map (comment_row_of t key) (filter (\<lambda>c. \<forall>r\<in>set (cs_comments s). comment_key r \<noteq> Some (t, key, co_id c)) cs)"
    using up by blast
  have key_merged: "comment_key (merged t key cs r) = comment_key r" for r
    by (auto simp: merged_def split: option.splits dest!: find_SomeD)
  have all: "\<exists>r\<in>set (cs_comments s'). comment_key r = Some (t, key, co_id c)" if "c \<in> set cs" for c
  proof (cases "\<exists>r\<in>set (cs_comments s). comment_key r = Some (t, key, co_id c)")
    case True
    then obtain r where "r \<in> set (cs_comments s)" "comment_key (merged t key cs r) = Some (t, key, co_id c)"
      using key_merged by auto
    then show ?thesis by (auto simp: s'(2))
  next
    case False
    then have "comment_row_of t key c \<in> set (cs_comments s')" using that by (auto simp: s'(2))
    then show ?thesis by (rule rev_bexI) (simp add: comment_key_def comment_row_of_def)
  qed
  have own: "merged t key cs (comment_row_of t key c) = comment_row_of t key c" if "c \<in> set cs" for c
    using that assms(1)
  proof (induction cs)
    case (Cons d ds)
    then show ?case by (auto simp: merged_Cons) (metis image_eqI)
  qed simp
  have "merged t key cs (merged t key cs r) = merged t key cs r" for r
    using own by (auto simp: merged_def [of t key cs r] split: option.splits dest!: find_SomeD)
  then have "map (merged t key cs) (cs_comments s') = cs_comments s'" using own by (auto simp: s'(2))
  moreover have "filter (\<lambda>c. \<forall>r\<in>set (cs_comments s'). comment_key r \<noteq> Some (t, key, co_id c)) cs = []"
    using all by (force simp: filter_empty_conv)
  ultimately show ?thesis using s' up [of now' s'] by auto
qed

definition ex_comment :: "string \<Rightarrow> string \<Rightarrow> comment" where
  "ex_comment i b = \<lparr>co_id = i, co_author = ''ann'', co_body = b, co_url = [], co_created_at = 1, co_updated_at = 1\<rparr>"

theorem store_comments_exact_witness:
  "\<exists>s'. store_comments (Some ''acme'') ''FCT-1'' [ex_comment ''7'' ''new'', ex_comment ''8'' ''b''] 5
       (cards_empty\<lparr>cs_comments := [comment_row_of ''acme'' ''FCT-1'' (ex_comment ''7'' ''old'')]\<rparr>) = Inr (2, s')
     \<and> cs_comments s' = [comment_row_of ''acme'' ''FCT-1'' (ex_comment ''7'' ''new''), comment_row_of ''acme'' ''FCT-1'' (ex_comment ''8'' ''b'')]"
  using store_comments_exact [of "[ex_comment ''7'' ''new'', ex_comment ''8'' ''b'']" "Some ''acme''" "''acme''" "''FCT-1''" 5
      "cards_empty\<lparr>cs_comments := [comment_row_of ''acme'' ''FCT-1'' (ex_comment ''7'' ''old'')]\<rparr>" 6]
  by (auto simp: ex_comment_def comment_row_of_def merged_def comment_key_def)

section \<open>Rows by key\<close>

lemma find_snoc: "List.find q (xs @ [y]) = (case List.find q xs of None \<Rightarrow> if q y then Some y else None | Some z \<Rightarrow> Some z)"
  by (induction xs) auto

lemma found_key: "get_by_issue_ref (Some t) ref s = List.find (\<lambda>c. issue_key_of c = Some (t, ref)) (cs_cards s)"
proof -
  have "List.find (\<lambda>c. cd_issue_ref c = Some ref) (filter (\<lambda>c. cd_tenant c = t) xs) = List.find (\<lambda>c. issue_key_of c = Some (t, ref)) xs" for xs
    by (induction xs) (auto simp: issue_key_of_def)
  then show ?thesis by (simp add: get_by_issue_ref_def select_cards_def)
qed

lemma found_iff:
  assumes "cards_ok s"
  shows "get_by_issue_ref (Some t) ref s = Some c \<longleftrightarrow> c \<in> set (cs_cards s) \<and> issue_key_of c = Some (t, ref)"
  using find_unique [of issue_key_of "cs_cards s" c "(t, ref)"] assms unfolding found_key
  by (auto simp: cards_ok_def dest: find_SomeD)

lemma found_None:
  "get_by_issue_ref (Some t) ref s = None \<longleftrightarrow> (\<forall>c\<in>set (cs_cards s). issue_key_of c \<noteq> Some (t, ref))"
  unfolding found_key find_None_iff by blast

lemma got_iff:
  assumes "cards_ok s"
  shows "get_card (Some t) k s = Some c \<longleftrightarrow> c \<in> set (cs_cards s) \<and> card_key_of c = Some (t, k) \<and> cd_deleted_at c = None"
proof -
  have "get_card (Some t) k s = List.find (\<lambda>c. card_key_of c = Some (t, k)) (live_cards s)"
  proof -
    have "List.find (\<lambda>c. cd_key c = k) (filter (\<lambda>c. cd_tenant c = t) xs) = List.find (\<lambda>c. card_key_of c = Some (t, k)) xs" for xs
      by (induction xs) (auto simp: card_key_of_def)
    then show ?thesis by (simp add: get_card_def board.sel_scoped tenant_rows_def)
  qed
  moreover have "keys_unique card_key_of (live_cards s)" using assms by (auto simp: cards_ok_def live_cards_def)
  ultimately show ?thesis using find_unique [of card_key_of "live_cards s" c "(t, k)"]
    by (auto simp: live_cards_def dest: find_SomeD)
qed

text \<open>Replacing the one row of a card, and appending one.\<close>

definition put_card :: "card \<Rightarrow> card \<Rightarrow> card_store \<Rightarrow> card_store" where
  "put_card c c' s = s\<lparr>cs_cards := update_where (same_card c) (\<lambda>_. c') (cs_cards s)\<rparr>"

lemma in_put_card:
  assumes "cards_ok s" "c \<in> set (cs_cards s)"
  shows "x \<in> set (cs_cards (put_card c c' s)) \<longleftrightarrow> x = c' \<or> (x \<in> set (cs_cards s) \<and> x \<noteq> c)"
  using cards_ok_same [OF assms] assms(2) unfolding put_card_def
  by (auto simp: in_update_where same_card_def split: if_splits)

lemma found_put:
  assumes "cards_ok s" "cards_ok (put_card c c' s)" "c \<in> set (cs_cards s)" "issue_key_of c' = issue_key_of c"
  shows "get_by_issue_ref (Some t) r (put_card c c' s) =
    (if issue_key_of c = Some (t, r) then Some c' else get_by_issue_ref (Some t) r s)"
proof (cases "issue_key_of c = Some (t, r)")
  case True
  then show ?thesis using assms(4) by (simp add: found_iff [OF assms(2)] in_put_card [OF assms(1,3)])
next
  case False
  have "get_by_issue_ref (Some t) r (put_card c c' s) = Some x \<longleftrightarrow> get_by_issue_ref (Some t) r s = Some x" for x
    using False assms(4) by (auto simp: found_iff [OF assms(1)] found_iff [OF assms(2)] in_put_card [OF assms(1,3)])
  then show ?thesis using False by (metis not_Some_eq)
qed

lemma update_card_puts:
  assumes ok: "cards_ok s" and c: "c \<in> set (cs_cards s)" "cd_tenant c = t" "cd_deleted_at c = None"
    and fs: "\<not> list_ex null_violation fs" "F_criteria None \<notin> set fs"
    and ref: "cd_issue_ref (fold set_field fs c) = cd_issue_ref c"
  shows "update_card (Some t) (cd_key c) fs now s =
      Inr (Some ((fold set_field fs c)\<lparr>cd_updated_at := now\<rparr>), put_card c ((fold set_field fs c)\<lparr>cd_updated_at := now\<rparr>) s)"
proof -
  let ?c = "(fold set_field fs c)\<lparr>cd_updated_at := now\<rparr>"
  have got: "get_card (Some t) (cd_key c) s = Some c" using c by (simp add: got_iff [OF ok] card_key_of_def)
  have "\<not> key_used issue_key_of ?c (filter (\<lambda>d. card_key_of d \<noteq> card_key_of c) (cs_cards s))"
    using ok c ref by (intro keys_unique_others) (auto simp: cards_ok_def issue_key_of_def)
  then show ?thesis using fs by (simp add: update_card_def got Let_def put_card_def same_card_key)
qed

lemma update_ok_put:
  assumes "update_card scope key fs now s = Inr (r, put_card c c' s)" "cards_ok s"
  shows "cards_ok (put_card c c' s)"
  using update_card_ok [OF assms(1)] assms(2) by (simp add: card_step_ok_def)

end
