(* ===== verification/IssueImport.thy ===== *)
theory IssueImport
  imports Cards Gitstore
begin

text \<open>
  Importing a repository's issues as cards, \<open>issue_import.py\<close>, with the issue references of
  \<open>github_sync.py\<close>: what an issue writes on its card, one issue, one pass over a repository, the
  comment pass, and the poll with its backoff and its leases.  The git provider is a pair of
  functions of \<open>import_env\<close>: the answer to \<open>fetch_issues\<close> (or whether the failure was a rate
  limit) and the answer to \<open>fetch_comments_bulk\<close>.  Times are microseconds.
\<close>

section \<open>Issue references\<close>

definition issue_ref :: "string \<Rightarrow> nat \<Rightarrow> string" where
  "issue_ref project n = project @ ''#'' @ digits_of_nat n"

definition parse_issue_ref :: "string option \<Rightarrow> (string \<times> nat) option" where
  "parse_issue_ref text = (let v = strip (or_empty text); p = before_char (CHR ''#'') v in
     if CHR ''#'' \<in> set v \<and> project_re p then map_option (Pair p) (py_int (after_char (CHR ''#'') v)) else None)"

section \<open>What an issue says\<close>

definition IMPORT_PRIORITY :: int where "IMPORT_PRIORITY = 100"
definition OVERLAP :: int where "OVERLAP = 60 * 1000000"
definition COMMENT_OVERLAP :: int where "COMMENT_OVERLAP = 300 * 1000000"
definition MAX_BACKOFF_CYCLES :: nat where "MAX_BACKOFF_CYCLES = 8"
definition RATE_LIMIT_FAILURES :: nat where "RATE_LIMIT_FAILURES = 3"

definition PR_KEYS :: "string list" where
  "PR_KEYS = [''pull_request'', ''merge_request'', ''merge_requests_count'']"

record issue_data =
  is_number :: nat
  is_title :: string
  is_body :: string
  is_state :: string
  is_labels :: "string list"
  is_updated_at :: "int option"
  is_assignees :: "string list"
  is_milestone :: "string option"
  is_raw_keys :: "string list"

definition is_pull_request :: "issue_data \<Rightarrow> bool" where
  "is_pull_request i = list_ex (\<lambda>k. List.member (is_raw_keys i) k) PR_KEYS"

definition tier_named :: "string \<Rightarrow> card_tier option" where
  "tier_named w = map_of [(''low'', Low), (''medium'', Medium), (''hard'', Hard)] w"

fun tier_of :: "string list \<Rightarrow> card_tier option" where
  "tier_of [] = None"
| "tier_of (l # ls) =
     (if startswith (lower l) ''factory:''
      then (case tier_named (strip (drop 8 (lower l))) of Some t \<Rightarrow> Some t | None \<Rightarrow> tier_of ls)
      else tier_of ls)"

definition status_for :: "string \<Rightarrow> card_status" where
  "status_for state = (if state = ''closed'' then Card_done else Backlog)"

definition issue_title :: "issue_data \<Rightarrow> string" where
  "issue_title i = (if is_title i = [] then ''(untitled issue)'' else is_title i)"

definition none_if_empty :: "string \<Rightarrow> string option" where
  "none_if_empty s = (if s = [] then None else Some s)"

definition first_assignee :: "issue_data \<Rightarrow> string option" where
  "first_assignee i = (case is_assignees i of [] \<Rightarrow> None | a # _ \<Rightarrow> Some a)"

definition mapping :: "issue_data \<Rightarrow> card_field list" where
  "mapping i = [F_title (Some (issue_title i)), F_description (none_if_empty (is_body i)), F_labels (is_labels i),
     F_tier (tier_of (is_labels i)), F_assignee (first_assignee i), F_milestone (is_milestone i),
     F_issue_state (none_if_empty (is_state i)), F_sync_error None]"

definition entered_the_factory :: "card \<Rightarrow> bool" where
  "entered_the_factory c = (cd_correlation_key c \<noteq> None \<or> cd_stage_runs c \<noteq> [])"

text \<open>Only the fields whose value differs are sent: those that setting would change.\<close>

definition changes_for :: "card \<Rightarrow> issue_data \<Rightarrow> card_field list" where
  "changes_for c i = filter (\<lambda>f. set_field f c \<noteq> c)
     (mapping i @ (if entered_the_factory c then [] else [F_status (Some (status_for (is_state i)))]))"

section \<open>One issue\<close>

text \<open>What \<open>CardCreate\<close> validates: the lengths of its columns.\<close>

definition at_most :: "nat \<Rightarrow> string option \<Rightarrow> bool" where
  "at_most n v = (case v of None \<Rightarrow> True | Some s \<Rightarrow> length s \<le> n)"

definition valid_create :: "card_create \<Rightarrow> bool" where
  "valid_create d = (at_most 128 (cn_key d) \<and> cn_title d \<noteq> [] \<and> length (cn_title d) \<le> 512
     \<and> list_all (\<lambda>c. strip c \<noteq> []) (cn_criteria d) \<and> at_most 128 (cn_assignee d) \<and> at_most 128 (cn_milestone d)
     \<and> at_most 128 (cn_correlation_key d) \<and> at_most 256 (cn_issue_ref d))"

definition import_create :: "string \<Rightarrow> issue_data \<Rightarrow> nat option \<Rightarrow> card_create" where
  "import_create ref i repo = \<lparr>cn_key = None, cn_title = issue_title i, cn_description = none_if_empty (is_body i),
     cn_criteria = [], cn_status = status_for (is_state i), cn_priority = IMPORT_PRIORITY, cn_tier = tier_of (is_labels i),
     cn_assignee = first_assignee i, cn_milestone = is_milestone i, cn_correlation_key = None,
     cn_issue_ref = Some ref, cn_repository_id = repo\<rparr>"

datatype tally = Imported | Updated | Skipped

definition import_existing ::
  "string option \<Rightarrow> int \<Rightarrow> card \<Rightarrow> issue_data \<Rightarrow> card_store \<Rightarrow> (card_error + tally) \<times> card_store" where
  "import_existing scope now c i s =
    (if cd_deleted_at c \<noteq> None then (Inr Skipped, s)
     else if changes_for c i = [] then (Inr Updated, s)
     else (case update_card scope (cd_key c) (changes_for c i) now s of
        Inl e \<Rightarrow> (Inl e, s) | Inr (_, s') \<Rightarrow> (Inr Updated, s')))"

text \<open>\<open>_import_one\<close> makes three transactions another writer can come between: \<open>s0\<close> is the store
  its lookup reads, \<open>s1\<close> the one in which its create reads the keys, \<open>s\<close> the one its insert
  and everything after it meets.\<close>

definition import_one ::
  "string option \<Rightarrow> int \<Rightarrow> string \<Rightarrow> issue_data \<Rightarrow> nat option \<Rightarrow> card_store \<Rightarrow> card_store \<Rightarrow> card_store
    \<Rightarrow> (card_error + tally) \<times> card_store" where
  "import_one scope now ref i repo s0 s1 s = (case get_by_issue_ref scope ref s0 of
     Some c \<Rightarrow> import_existing scope now c i s
   | None \<Rightarrow>
      (if \<not> valid_create (import_create ref i repo) then (Inl CardValidation, s)
       else (case plan_card scope now (import_create ref i repo) s1 of
          Inl e \<Rightarrow> (Inl e, s)
        | Inr p \<Rightarrow> (case commit_card scope p s of
             Inr (c, s') \<Rightarrow> (case update_card scope (cd_key c)
                 [F_labels (is_labels i), F_issue_state (none_if_empty (is_state i))] now s' of
               Inl e \<Rightarrow> (Inl e, s') | Inr (_, s'') \<Rightarrow> (Inr Imported, s''))
           | Inl (DuplicateIssueRef _) \<Rightarrow> (case get_by_issue_ref scope ref s of
               None \<Rightarrow> (Inr Skipped, s) | Some c \<Rightarrow> import_existing scope now c i s)
           | Inl e \<Rightarrow> (Inl e, s)))))"

record counts =
  n_imported :: nat
  n_updated :: nat
  n_skipped :: nat

fun count_one :: "card_error + tally \<Rightarrow> counts \<Rightarrow> counts" where
  "count_one (Inr Imported) n = n\<lparr>n_imported := n_imported n + 1\<rparr>"
| "count_one (Inr Updated) n = n\<lparr>n_updated := n_updated n + 1\<rparr>"
| "count_one _ n = n\<lparr>n_skipped := n_skipped n + 1\<rparr>"

fun import_all ::
  "string option \<Rightarrow> int \<Rightarrow> string \<Rightarrow> nat option \<Rightarrow> issue_data list \<Rightarrow> counts \<Rightarrow> card_store \<Rightarrow> counts \<times> card_store" where
  "import_all scope now project repo [] n s = (n, s)"
| "import_all scope now project repo (i # is) n s =
     (let (r, s') = import_one scope now (issue_ref project (is_number i)) i repo s s s
      in import_all scope now project repo is (count_one r n) s')"

section \<open>Comments of a project's cards\<close>

datatype comment_failure = Threads_failed | Store_failed string

record comment_report =
  cr_reasons :: "comment_failure list"
  cr_cards :: nat
  cr_comments :: nat
  cr_backfilled :: nat
  cr_refreshed :: nat
  cr_pending :: nat

definition empty_report :: comment_report where
  "empty_report = \<lparr>cr_reasons = [], cr_cards = 0, cr_comments = 0, cr_backfilled = 0, cr_refreshed = 0, cr_pending = 0\<rparr>"

fun by_number :: "card list \<Rightarrow> (nat, card) dict \<Rightarrow> (nat, card) dict" where
  "by_number [] d = d"
| "by_number (c # cs) d = (case parse_issue_ref (cd_issue_ref c) of
     None \<Rightarrow> by_number cs d | Some (_, n) \<Rightarrow> by_number cs (dset n c d))"

fun store_threads ::
  "string option \<Rightarrow> (nat, card) dict \<Rightarrow> int \<Rightarrow> (nat \<times> comment list) list \<Rightarrow> nat \<Rightarrow> comment_failure list \<Rightarrow> card_store
    \<Rightarrow> nat \<times> comment_failure list \<times> card_store" where
  "store_threads scope d now [] n rs s = (n, rs, s)"
| "store_threads scope d now ((k, cs) # ts) n rs s = (case dget d k of
     None \<Rightarrow> store_threads scope d now ts n rs s
   | Some c \<Rightarrow> (case store_comments scope (cd_key c) cs now s of
        Inl _ \<Rightarrow> store_threads scope d now ts n (rs @ [Store_failed (cd_key c)]) s
      | Inr (m, s') \<Rightarrow> store_threads scope d now ts (n + m) rs s'))"

definition read_group ::
  "string option \<Rightarrow> (nat list \<Rightarrow> int option \<Rightarrow> (nat \<times> comment list) list option) \<Rightarrow> (nat, card) dict \<Rightarrow> int \<Rightarrow> nat list \<Rightarrow> int option
    \<Rightarrow> nat \<times> comment_failure list \<times> card_store \<Rightarrow> nat \<times> comment_failure list \<times> card_store" where
  "read_group scope threads d now numbers window = (\<lambda>(n, rs, s).
     if numbers = [] then (n, rs, s)
     else (case threads (sort numbers) window of
        None \<Rightarrow> (n, rs @ [Threads_failed], s)
      | Some ts \<Rightarrow> store_threads scope d now ts n rs s))"

text \<open>The threads read in full before, in one request from the oldest of them; and the first few
  never read, each whole.\<close>

definition warm_cards :: "(nat, card) dict \<Rightarrow> (nat, card) dict" where
  "warm_cards d = filter (\<lambda>(n, c). cd_comments_synced_at c \<noteq> None) d"

definition cold_numbers :: "nat \<Rightarrow> (nat, card) dict \<Rightarrow> nat list" where
  "cold_numbers backfill_max d = take backfill_max (sort (dkeys (filter (\<lambda>(n, c). cd_comments_synced_at c = None) d)))"

definition warm_window :: "(nat, card) dict \<Rightarrow> int option" where
  "warm_window d = (if warm_cards d = [] then None
     else Some (Min (set (map (\<lambda>c. the (cd_comments_synced_at c)) (dvalues (warm_cards d)))) - COMMENT_OVERLAP))"

definition read_threads ::
  "string option \<Rightarrow> (nat list \<Rightarrow> int option \<Rightarrow> (nat \<times> comment list) list option) \<Rightarrow> (nat, card) dict \<Rightarrow> nat \<Rightarrow> int
    \<Rightarrow> card_store \<Rightarrow> nat \<times> comment_failure list \<times> card_store" where
  "read_threads scope threads d backfill_max now s =
     read_group scope threads d now (cold_numbers backfill_max d) None
       (read_group scope threads d now (dkeys (warm_cards d)) (warm_window d) (0, [], s))"

definition sync_comments ::
  "(char \<Rightarrow> char \<Rightarrow> bool) \<Rightarrow> string option \<Rightarrow> (nat list \<Rightarrow> int option \<Rightarrow> (nat \<times> comment list) list option) \<Rightarrow> string \<Rightarrow> nat \<Rightarrow> int
    \<Rightarrow> card_store \<Rightarrow> comment_report \<times> card_store" where
  "sync_comments eq scope threads project backfill_max now s =
    (let cards = filter (\<lambda>c. truthy (cd_issue_ref c)) (cards_for_project eq scope project s);
         d = by_number cards [];
         warm = length (warm_cards d);
         cold = length (cold_numbers backfill_max d)
     in if cards = [] then (empty_report, s)
        else (case read_threads scope threads d backfill_max now s of (stored, reasons, s') \<Rightarrow>
          (\<lparr>cr_reasons = reasons, cr_cards = warm + cold, cr_comments = stored, cr_backfilled = cold,
             cr_refreshed = warm, cr_pending = length d - warm - cold\<rparr>, s')))"

section \<open>One repository\<close>

record issue_filters =
  if_state :: string
  if_labels :: "string list"
  if_since :: "int option"
  if_limit :: nat
  if_include_prs :: bool

text \<open>The settings an import reads, the git tables, and the provider behind \<open>build_provider\<close>.\<close>

record import_env =
  ie_state :: string
  ie_labels :: string
  ie_max :: int
  ie_comments :: bool
  ie_backfill_max :: int
  ie_poll_seconds :: rat
  ie_git :: git_settings
  ie_credentials :: "string option"
  ie_db :: git_db
  ie_like :: "char \<Rightarrow> char \<Rightarrow> bool"
  ie_fetch :: "git_target \<Rightarrow> string \<Rightarrow> issue_filters \<Rightarrow> bool + issue_data list"
  ie_threads :: "git_target \<Rightarrow> string \<Rightarrow> nat list \<Rightarrow> int option \<Rightarrow> (nat \<times> comment list) list option"

definition sync_enabled :: "git_target \<Rightarrow> bool" where
  "sync_enabled g = (ci_configured (gt_credential g) \<or> ci_source (gt_credential g) = SrcInstall)"

definition filters :: "import_env \<Rightarrow> int option \<Rightarrow> issue_filters" where
  "filters env since = \<lparr>if_state = (if since \<noteq> None then ''all'' else ie_state env),
     if_labels = filter (\<lambda>l. strip l \<noteq> []) (split_on (\<lambda>c. c = CHR '','') (ie_labels env)),
     if_since = since, if_limit = nat (max 1 (ie_max env)), if_include_prs = False\<rparr>"

definition next_watermark :: "issue_data list \<Rightarrow> int option \<Rightarrow> int option" where
  "next_watermark is previous =
    (let seen = map (\<lambda>i. the (is_updated_at i)) (filter (\<lambda>i. is_updated_at i \<noteq> None) is)
     in if seen = [] then previous else Some (Max (set seen) - OVERLAP))"

datatype import_reason = Not_configured | No_project | Provider_failed

record import_result =
  ir_ok :: bool
  ir_project :: string
  ir_reason :: "import_reason option"
  ir_counts :: counts
  ir_seen :: nat
  ir_truncated :: bool
  ir_incremental :: bool
  ir_last_synced_at :: "int option"
  ir_polled_at :: "int option"
  ir_comments :: comment_report
  ir_rate_limited :: bool

definition import_result :: "string \<Rightarrow> bool \<Rightarrow> import_reason option \<Rightarrow> bool \<Rightarrow> import_result" where
  "import_result project ok reason limited = \<lparr>ir_ok = ok, ir_project = project, ir_reason = reason,
     ir_counts = \<lparr>n_imported = 0, n_updated = 0, n_skipped = 0\<rparr>, ir_seen = 0, ir_truncated = False, ir_incremental = False,
     ir_last_synced_at = None, ir_polled_at = None, ir_comments = empty_report, ir_rate_limited = limited\<rparr>"

definition import_fetched ::
  "import_env \<Rightarrow> string option \<Rightarrow> int \<Rightarrow> git_target \<Rightarrow> string \<Rightarrow> int option \<Rightarrow> issue_data list \<Rightarrow> card_store \<Rightarrow> import_result \<times> card_store" where
  "import_fetched env scope now git target since fetched s =
    (let issues = filter (\<lambda>i. \<not> is_pull_request i) fetched;
         (n, s1) = import_all scope now target (gt_repository_id git) issues
           \<lparr>n_imported = 0, n_updated = 0, n_skipped = 0\<rparr> s;
         (report, s2) = (if ie_comments env
           then sync_comments (ie_like env) scope (ie_threads env git target) target (nat (max 0 (ie_backfill_max env))) now s1
           else (empty_report, s1));
         watermark = next_watermark issues since;
         s3 = (case watermark of None \<Rightarrow> s2 | Some w \<Rightarrow> set_watermark scope target w s2)
     in (\<lparr>ir_ok = True, ir_project = target, ir_reason = None, ir_counts = n, ir_seen = length issues,
          ir_truncated = (if_limit (filters env since) \<le> length issues), ir_incremental = (since \<noteq> None),
          ir_last_synced_at = watermark, ir_polled_at = Some now, ir_comments = report, ir_rate_limited = False\<rparr>,
         mark_polled scope target now s3))"

text \<open>Resolving the target is outside the \<open>try\<close>: its error is the function's own.\<close>

definition import_issues ::
  "import_env \<Rightarrow> string option \<Rightarrow> int \<Rightarrow> nat option \<Rightarrow> string option \<Rightarrow> bool \<Rightarrow> card_store \<Rightarrow> git_error + import_result \<times> card_store" where
  "import_issues env scope now repository_id project full s =
    res_bind (git_target_for (tenant_of scope) (ie_git env) (ie_credentials env) repository_id project (ie_db env)) (\<lambda>git.
      if \<not> sync_enabled git then Inr (import_result (or_empty project) True (Some Not_configured) False, s)
      else let target = strip (or_empty (py_or project (gt_import_project git))) in
        if \<not> project_re target then Inr (import_result target False (Some No_project) False, s)
        else let since = (if full then None else get_watermark scope target s) in
          (case ie_fetch env git target (filters env since) of
             Inl limited \<Rightarrow> Inr (import_result target False (Some Provider_failed) limited, s)
           | Inr fetched \<Rightarrow> Inr (import_fetched env scope now git target since fetched s)))"

section \<open>The poll\<close>

record poll_backoff =
  bo_failures :: "(string, nat) dict"
  bo_skip :: "(string, nat) dict"

fun or_zero :: "nat option \<Rightarrow> nat" where
  "or_zero None = 0"
| "or_zero (Some n) = n"

definition due :: "string \<Rightarrow> poll_backoff \<Rightarrow> bool \<times> poll_backoff" where
  "due key b = (let remaining = or_zero (dget (bo_skip b) key) in
     if remaining > 0 then (False, b\<lparr>bo_skip := dset key (remaining - 1) (bo_skip b)\<rparr>) else (True, b))"

definition record_result :: "string \<Rightarrow> import_result \<Rightarrow> poll_backoff \<Rightarrow> poll_backoff" where
  "record_result key r b =
    (if ir_ok r then b\<lparr>bo_failures := dpop key (bo_failures b), bo_skip := dpop key (bo_skip b)\<rparr>
     else let n = or_zero (dget (bo_failures b) key) + 1;
              failures = (if ir_rate_limited r then max n RATE_LIMIT_FAILURES else n)
          in b\<lparr>bo_failures := dset key failures (bo_failures b),
               bo_skip := dset key (min (2 ^ (failures - 1)) MAX_BACKOFF_CYCLES) (bo_skip b)\<rparr>)"

definition lease_key :: "string option \<Rightarrow> string" where
  "lease_key project = strip (or_empty project)"

definition lease_seconds :: "import_env \<Rightarrow> rat" where
  "lease_seconds env = max 1 (ie_poll_seconds env) / 2"

definition poll_targets :: "import_env \<Rightarrow> string option \<Rightarrow> (nat option \<times> string) list" where
  "poll_targets env scope =
    (let rs = repositories (tenant_of scope) None (ie_db env)
     in if rs = [] then [(None, lease_key (st_github_repo (ie_git env)))]
        else map (\<lambda>r. (Some (gr_id r), lease_key (py_or (gr_intake_project r) (Some (gr_project r))))) rs)"

text \<open>The targets in turn, the \<open>i\<close>-th at \<open>clock i\<close>.  The first component is the error that ended the
  cycle; the targets after it are not visited.\<close>

fun poll_cycle ::
  "import_env \<Rightarrow> string option \<Rightarrow> int \<Rightarrow> (nat \<Rightarrow> int) \<Rightarrow> nat \<Rightarrow> (nat option \<times> string) list \<Rightarrow> poll_backoff \<Rightarrow> card_store
    \<Rightarrow> git_error option \<times> import_result list \<times> poll_backoff \<times> card_store" where
  "poll_cycle env scope lease clock i [] b s = (None, [], b, s)"
| "poll_cycle env scope lease clock i ((repo, key) # ts) b s =
     (let (is_due, b1) = due key b in
      if \<not> is_due then poll_cycle env scope lease clock (Suc i) ts b1 s
      else let (won, s1) = (if key = [] then (True, s) else claim_import_lease scope key (clock i) lease s) in
        if \<not> won then poll_cycle env scope lease clock (Suc i) ts b1 s1
        else (case import_issues env scope (clock i) repo None False s1 of
           Inl e \<Rightarrow> (Some e, [], b1, s1)
         | Inr (r, s2) \<Rightarrow>
             (let (e, rs, b', s') = poll_cycle env scope lease clock (Suc i) ts (record_result key r b1) s2
              in (e, r # rs, b', s'))))"

definition poll_once ::
  "import_env \<Rightarrow> string option \<Rightarrow> rat option \<Rightarrow> (nat \<Rightarrow> int) \<Rightarrow> poll_backoff \<Rightarrow> card_store
    \<Rightarrow> git_error option \<times> import_result list \<times> poll_backoff \<times> card_store" where
  "poll_once env scope lease clock b s =
    poll_cycle env scope (round (1000000 * (case lease of None \<Rightarrow> lease_seconds env | Some l \<Rightarrow> l))) clock 0
      (poll_targets env scope) b s"

end
