(* ===== verification/ImportSafety.thy ===== *)
theory ImportSafety
  imports IssueImport CardSafety GitSafety
begin

text \<open>
  What an import does to a board: it implements a map from issue references to mirrored
  fields, it never starts work, and a second pass changes nothing; when a failing repository
  is asked again, and that one poller at a time holds a repository's lease.
\<close>

section \<open>Steps of the card store\<close>

lemma card_step_refl [simp]: "card_step_ok scope s s"
  by (simp add: card_step_ok_def)

lemma card_step_trans: "card_step_ok scope s s' \<Longrightarrow> card_step_ok scope s' s'' \<Longrightarrow> card_step_ok scope s s''"
  by (auto simp: card_step_ok_def)

lemma import_existing_ok: "import_existing scope now c i s = (r, s') \<Longrightarrow> card_step_ok scope s s'"
  by (auto simp: import_existing_def split: if_splits sum.splits prod.splits dest: update_card_ok)

lemma commit_card_ok:
  assumes "commit_card scope p s = Inr (c, s')" "cd_tenant p = tenant_of scope"
  shows "card_step_ok scope s s'"
proof -
  have ins: "insert_card p s = Inr s'" using assms(1) by (simp add: commit_card_Inr)
  note s' = insert_card_Inr [OF ins]
  have "keys_unique card_key_of (cs_cards s')" "keys_unique issue_key_of (cs_cards s')" if "cards_ok s"
    using that card_keys.insert_keeps_unique [OF ins] card_issues.insert_keeps_unique [OF ins] by (simp_all add: cards_ok_def)
  then show ?thesis using assms(2) by (auto simp: card_step_ok_def cards_ok_def card_view_def s' tenant_rows_def)
qed

lemma import_create_ok:
  assumes "plan_card scope now d s1 = Inr p" "commit_card scope p s = Inr (c, s')"
  shows "card_step_ok scope s s'"
  using assms plan_card_Inr [OF assms(1)] by (auto intro: commit_card_ok)

lemma import_one_ok:
  assumes "import_one scope now ref i repo s0 s1 s = (r, s')" shows "card_step_ok scope s s'"
proof (cases "get_by_issue_ref scope ref s0")
  case (Some c)
  then show ?thesis using assms by (simp add: import_one_def import_existing_ok)
next
  case None
  let ?d = "import_create ref i repo"
  show ?thesis
  proof (cases "\<not> valid_create ?d \<or> (\<exists>e. plan_card scope now ?d s1 = Inl e)")
    case True
    then show ?thesis using assms None by (auto simp: import_one_def split: if_splits)
  next
    case False
    then obtain p where p: "plan_card scope now ?d s1 = Inr p" and v: "valid_create ?d" by (cases "plan_card scope now ?d s1") auto
    show ?thesis
    proof (cases "commit_card scope p s")
      case (Inl e)
      then show ?thesis using assms None p v
        by (cases e) (auto simp: import_one_def split: option.splits dest: import_existing_ok)
    next
      case (Inr x)
      obtain c s2 where x: "x = (c, s2)" by force
      note a = import_create_ok [OF p Inr [unfolded x]]
      show ?thesis
      proof (cases "update_card scope (cd_key c) [F_labels (is_labels i), F_issue_state (none_if_empty (is_state i))] now s2")
        case (Inr y)
        then show ?thesis using assms None p v \<open>commit_card scope p s = Inr x\<close> card_step_trans [OF a update_card_ok, of _ _ _ "fst y" "snd y"]
          by (cases y) (simp add: import_one_def x)
      qed (use assms None p v Inr a in \<open>simp add: import_one_def x\<close>)
    qed
  qed
qed

lemma import_all_ok: "import_all scope now project repo is n s = (n', s') \<Longrightarrow> card_step_ok scope s s'"
proof (induction "is" arbitrary: n s)
  case (Cons i "is")
  then show ?case using card_step_trans [OF import_one_ok] by (auto split: prod.splits)
qed simp

lemma store_threads_ok: "store_threads scope d now ts n rs s = (n', rs', s') \<Longrightarrow> card_step_ok scope s s'"
proof (induction ts arbitrary: n rs s)
  case (Cons a ts)
  obtain k cs where a: "a = (k, cs)" by force
  show ?case using Cons.prems
    by (auto simp: a split: option.splits sum.splits prod.splits dest: Cons.IH store_comments_ok intro: card_step_trans)
qed simp

lemma read_group_ok: "card_step_ok scope (snd (snd x)) (snd (snd (read_group scope th d now ns w x)))"
proof -
  obtain n rs s where x: "x = (n, rs, s)" by (cases x)
  have "card_step_ok scope s (snd (snd (store_threads scope d now ts n rs s)))" for ts
    using store_threads_ok by (metis prod.collapse)
  then show ?thesis by (simp add: x read_group_def split: option.splits)
qed

lemma read_threads_ok: "read_threads scope th d m now s = (n, rs, s') \<Longrightarrow> card_step_ok scope s s'"
  using card_step_trans [OF read_group_ok read_group_ok, of scope "(0, [], s)"]
  unfolding read_threads_def by (metis snd_conv)

lemma sync_comments_ok: "sync_comments eq scope th p m now s = (r, s') \<Longrightarrow> card_step_ok scope s s'"
  by (auto simp: sync_comments_def Let_def split: if_splits prod.splits dest: read_threads_ok)

lemma mark_polled_ok [simp]: "card_step_ok scope s (mark_polled scope p w s)"
  and set_watermark_ok [simp]: "card_step_ok scope s (set_watermark scope p w s)"
  by (simp_all add: mark_polled_def set_watermark_def upsert_import_state_ok)

text \<open>A successful pass is its issues, then its comments, then its cursors.\<close>

lemma import_fetched_steps:
  assumes "import_fetched env scope now git target since fetched s = (r, s')"
  obtains s1 s2 where
    "import_all scope now target (gt_repository_id git) (filter (\<lambda>i. \<not> is_pull_request i) fetched)
       \<lparr>n_imported = 0, n_updated = 0, n_skipped = 0\<rparr> s = (ir_counts r, s1)"
    "(if ie_comments env
      then sync_comments (ie_like env) scope (ie_threads env git target) target (nat (max 0 (ie_backfill_max env))) now s1
      else (empty_report, s1)) = (ir_comments r, s2)"
    "s' = mark_polled scope target now (case next_watermark (filter (\<lambda>i. \<not> is_pull_request i) fetched) since of
       None \<Rightarrow> s2 | Some w \<Rightarrow> set_watermark scope target w s2)"
    "ir_ok r" "ir_truncated r = (if_limit (filters env since) \<le> length (filter (\<lambda>i. \<not> is_pull_request i) fetched))"
    "ir_last_synced_at r = next_watermark (filter (\<lambda>i. \<not> is_pull_request i) fetched) since"
  using assms unfolding import_fetched_def Let_def by (auto split: prod.splits)

lemma import_fetched_ok:
  assumes "import_fetched env scope now git target since fetched s = (r, s')" shows "card_step_ok scope s s'"
proof -
  obtain s1 s2 where 1: "card_step_ok scope s s1" and 2: "card_step_ok scope s1 s2"
    and s': "s' = mark_polled scope target now (case next_watermark (filter (\<lambda>i. \<not> is_pull_request i) fetched) since of
       None \<Rightarrow> s2 | Some w \<Rightarrow> set_watermark scope target w s2)"
    using assms by (elim import_fetched_steps) (metis card_step_refl import_all_ok sync_comments_ok prod.inject)
  have "card_step_ok scope s2 s'" unfolding s'
    using card_step_trans [OF set_watermark_ok mark_polled_ok] by (cases "next_watermark (filter (\<lambda>i. \<not> is_pull_request i) fetched) since") simp_all
  then show ?thesis using card_step_trans [OF 1 2] by (rule card_step_trans [rotated])
qed

lemma import_issues_ok: "import_issues env scope now repo p full s = Inr (r, s') \<Longrightarrow> card_step_ok scope s s'"
  by (auto simp: import_issues_def res_bind_Inr_iff Let_def split: if_splits sum.splits dest: import_fetched_ok)

section \<open>Who holds a repository's lease\<close>

definition leased_until :: "string option \<Rightarrow> string \<Rightarrow> card_store \<Rightarrow> int option" where
  "leased_until scope p s = (case import_row scope p s of None \<Rightarrow> None | Some i \<Rightarrow> im_leased_until i)"

lemma import_row_key: "import_row scope p s = List.find (\<lambda>i. import_key i = Some (tenant_of scope, p)) (cs_imports s)"
  unfolding import_row_def by (intro arg_cong2 [where f = List.find]) (auto simp: import_key_def)

lemma find_update_same:
  "List.find (\<lambda>r. key r = Some k) (update_where (\<lambda>r. key r = Some k) (\<lambda>_. n) rows)
    = (if List.find (\<lambda>r. key r = Some k) rows = None then None else if key n = Some k then Some n else None)"
  by (induction rows) (auto simp: update_where_def)

lemma find_update_other:
  "k \<noteq> k' \<Longrightarrow> key n = Some k' \<Longrightarrow>
    List.find (\<lambda>r. key r = Some k) (update_where (\<lambda>r. key r = Some k') (\<lambda>_. n) rows) = List.find (\<lambda>r. key r = Some k) rows"
  by (induction rows) (auto simp: update_where_def)

lemma import_row_put:
  "import_row scope p (put_import_row n s) =
    (if import_key n = Some (tenant_of scope, p) then if import_row scope p s = None then None else Some n
     else import_row scope p s)"
proof (cases "import_key n = Some (tenant_of scope, p)")
  case True
  then show ?thesis by (simp add: import_row_key put_import_row_def find_update_same)
next
  case False
  then show ?thesis using find_update_other [of "(tenant_of scope, p)" "(im_tenant n, im_project n)" import_key n]
    by (auto simp: import_row_key put_import_row_def import_key_def)
qed

lemma import_row_upsert:
  assumes "\<And>i. im_tenant (f i) = im_tenant i \<and> im_project (f i) = im_project i"
  shows "import_row scope p (upsert_import_state scope' p' f s) =
    (if tenant_of scope' = tenant_of scope \<and> p' = p
     then Some (f (case import_row scope p s of Some i \<Rightarrow> i | None \<Rightarrow> \<lparr>im_tenant = tenant_of scope, im_project = p,
       im_last_synced_at = None, im_last_polled_at = None, im_leased_until = None\<rparr>))
     else import_row scope p s)"
proof (cases "import_row scope' p' s")
  case None
  then show ?thesis using assms
    by (auto simp: upsert_import_state_def import_row_def find_snoc split: option.splits)
next
  case (Some i)
  have k: "import_key (f i) = Some (tenant_of scope', p')" using assms import_row_Some [OF Some] by (simp add: import_key_def)
  have "import_row scope p s = Some i" if "tenant_of scope' = tenant_of scope" "p' = p"
    using Some that by (simp add: import_row_def)
  then show ?thesis using Some k by (auto simp: upsert_import_state_def import_row_put)
qed

lemma leased_upsert:
  assumes "\<And>i. im_tenant (f i) = im_tenant i \<and> im_project (f i) = im_project i" "\<And>i. im_leased_until (f i) = im_leased_until i"
  shows "leased_until scope p (upsert_import_state scope' p' f s) = leased_until scope p s"
  using assms by (auto simp: leased_until_def import_row_upsert split: option.splits)

lemma import_row_update [simp]: "import_row scope p (cs_cards_update f s) = import_row scope p s"
    "import_row scope p (cs_comments_update g s) = import_row scope p s"
  by (simp_all add: import_row_def)

lemma commit_lease_leased:
  assumes "commit_lease pl scope p now ttl s = (won, s')"
  shows "leased_until scope p s' = (if won then Some (now + ttl) else leased_until scope p s)
    \<and> (won \<longrightarrow> (case pl of Lease_held \<Rightarrow> False | Lease_insert \<Rightarrow> leased_until scope p s = None | Lease_cas u \<Rightarrow> leased_until scope p s = u))
    \<and> (\<not> won \<longrightarrow> s' = s)"
proof (cases pl)
  case Lease_insert
  then show ?thesis using assms
    by (auto simp: commit_lease_def leased_until_def import_row_upsert split: option.splits)
next
  case (Lease_cas u)
  show ?thesis
  proof (cases "import_row scope p s")
    case None
    then show ?thesis using assms Lease_cas by (simp add: commit_lease_def)
  next
    case (Some i)
    then show ?thesis using assms Lease_cas import_row_Some [OF Some]
      by (auto simp: commit_lease_def leased_until_def import_row_put import_key_def split: if_splits)
  qed
qed (use assms in \<open>simp add: commit_lease_def\<close>)

lemma commit_lease_other:
  assumes "commit_lease pl scope' p' now ttl s = (won, s')" "tenant_of scope' \<noteq> tenant_of scope \<or> p' \<noteq> p"
  shows "leased_until scope p s' = leased_until scope p s"
proof -
  have "import_row scope p s' = import_row scope p s"
  proof (cases pl)
    case (Lease_cas u)
    show ?thesis
    proof (cases "import_row scope' p' s")
      case (Some i)
      then show ?thesis using assms Lease_cas import_row_Some [OF Some]
        by (auto simp: commit_lease_def import_row_put import_key_def split: if_splits)
    qed (use assms Lease_cas in \<open>simp add: commit_lease_def\<close>)
  qed (use assms in \<open>auto simp: commit_lease_def import_row_upsert split: option.splits\<close>)
  then show ?thesis by (simp add: leased_until_def)
qed

lemma card_exec_leased:
  assumes "card_exec t op s = Inr s'" "\<And>now ttl. op \<noteq> ClaimLease p now ttl \<or> tenant_of (Some t) \<noteq> tenant_of scope"
  shows "leased_until scope p s' = leased_until scope p s"
proof (cases op)
  case (CreateCard now d)
  then show ?thesis using assms(1)
    by (auto simp: res_bind_Inr_iff create_card_def commit_card_Inr leased_until_def dest!: insert_card_Inr)
next
  case (UpdateCard k fs now)
  then obtain r where "update_card (Some t) k fs now s = Inr (r, s')" using assms(1) by (auto simp: res_bind_Inr_iff)
  then show ?thesis by (cases rule: update_card_cases) (simp_all add: leased_until_def)
next
  case (ClaimLease q now ttl)
  obtain won where "commit_lease (plan_lease (Some t) q now s) (Some t) q now ttl s = (won, s')"
    using assms(1) ClaimLease by (cases "claim_import_lease (Some t) q now ttl s") (auto simp: claim_import_lease_def)
  then show ?thesis using assms(2) ClaimLease by (auto elim!: commit_lease_other)
next
  case (SetWatermark q w)
  then show ?thesis using assms(1) by (auto simp: set_watermark_def intro!: leased_upsert)
next
  case (MarkPolled q w)
  then show ?thesis using assms(1) by (auto simp: mark_polled_def intro!: leased_upsert)
qed (use assms(1) in \<open>auto simp: leased_until_def delete_card_def store_comments_def Let_def res_bind_Inr_iff split: option.splits\<close>)

text \<open>The pollers of one project of a tenant: each claim reads, and later writes, against whatever the
  store is by then; any operation may come between, of this tenant or another.  The list is
  what the successful claims took, in the order they were committed.\<close>

inductive lease_run ::
  "string option \<Rightarrow> string \<Rightarrow> card_store \<Rightarrow> (lease_plan \<times> int \<times> int) list \<Rightarrow> (int \<times> int) list \<Rightarrow> bool" for scope p where
  Lease_init: "lease_run scope p cards_empty [] []"
| Lease_read: "lease_run scope p s pending won \<Longrightarrow> 0 \<le> ttl \<Longrightarrow>
    lease_run scope p s ((plan_lease scope p now s, now, ttl) # pending) won"
| Lease_write: "lease_run scope p s pending won \<Longrightarrow> (pl, now, ttl) \<in> set pending \<Longrightarrow>
    commit_lease pl scope p now ttl s = (ok, s') \<Longrightarrow>
    lease_run scope p s' (remove1 (pl, now, ttl) pending) (if ok then won @ [(now, ttl)] else won)"
| Lease_other: "lease_run scope p s pending won \<Longrightarrow> card_exec t op s = Inr s' \<Longrightarrow>
    (\<forall>now ttl. op \<noteq> ClaimLease p now ttl) \<or> tenant_of (Some t) \<noteq> tenant_of scope \<Longrightarrow> lease_run scope p s' pending won"

definition lease_inv :: "string option \<Rightarrow> string \<Rightarrow> card_store \<Rightarrow> (lease_plan \<times> int \<times> int) list \<Rightarrow> (int \<times> int) list \<Rightarrow> bool" where
  "lease_inv scope p s pending won = (leased_until scope p s = (if won = [] then None else Some (fst (last won) + snd (last won)))
     \<and> (\<forall>(pl, now, ttl) \<in> set pending. 0 \<le> ttl \<and> (\<forall>u. pl = Lease_cas (Some u) \<longrightarrow> u \<le> now))
     \<and> sorted_wrt (\<lambda>a b. fst a + snd a \<le> fst b) won \<and> (\<forall>(now, ttl) \<in> set won. 0 \<le> ttl))"

lemma sorted_last:
  assumes "sorted_wrt (\<lambda>a b. fst a + snd a \<le> fst b) xs" "\<forall>(n, w) \<in> set xs. (0::int) \<le> w" "x \<in> set xs"
  shows "fst x + snd x \<le> fst (last xs) + snd (last xs)"
  using assms
proof (induction xs)
  case (Cons a xs)
  show ?case
  proof (cases "xs = []")
    case False
    then have "last xs \<in> set xs" by simp
    then have "fst a + snd a \<le> fst (last xs) + snd (last xs)" using Cons.prems by (fastforce simp: case_prod_beta)
    then show ?thesis using Cons False by auto
  qed (use Cons in auto)
qed simp

lemma lease_run_inv: "lease_run scope p s pending won \<Longrightarrow> lease_inv scope p s pending won"
proof (induction rule: lease_run.induct)
  case Lease_init
  show ?case by (simp add: lease_inv_def leased_until_def import_row_def cards_empty_def)
next
  case (Lease_read s pending won ttl now)
  then show ?case by (auto simp: lease_inv_def plan_lease_def split: option.splits if_splits)
next
  case (Lease_write s pending won pl now ttl ok s')
  note inv = Lease_write.IH [unfolded lease_inv_def] and c = commit_lease_leased [OF Lease_write.hyps(3)]
  have p: "0 \<le> ttl" "\<And>u. pl = Lease_cas (Some u) \<Longrightarrow> u \<le> now" using inv Lease_write.hyps(2) by auto
  have "set (remove1 (pl, now, ttl) pending) \<subseteq> set pending" by (rule set_remove1_subset)
  then have sub: "\<forall>(pl, now, ttl) \<in> set (remove1 (pl, now, ttl) pending). 0 \<le> ttl \<and> (\<forall>u. pl = Lease_cas (Some u) \<longrightarrow> u \<le> now)"
    using inv by blast
  show ?case
  proof (cases ok)
    case True
    have "fst a + snd a \<le> now" if "a \<in> set won" for a
    proof -
      have "won \<noteq> []" using that by auto
      then have "leased_until scope p s = Some (fst (last won) + snd (last won))" using inv by simp
      moreover have "pl = Lease_cas (leased_until scope p s)" using c True calculation by (auto split: lease_plan.splits)
      ultimately have "fst (last won) + snd (last won) \<le> now" using p(2) by simp
      then show ?thesis using sorted_last [of won a] inv that by auto
    qed
    then show ?thesis using True inv c p(1) sub by (simp add: lease_inv_def sorted_wrt_append)
  next
    case False
    then show ?thesis using inv c sub by (simp add: lease_inv_def)
  qed
next
  case (Lease_other s pending won t op s')
  then have "leased_until scope p s' = leased_until scope p s" by (intro card_exec_leased) auto
  then show ?case using Lease_other.IH by (simp add: lease_inv_def)
qed

text \<open>C14: two pollers never hold one repository at the same time.  Whatever the replicas of a
  deployment do and however their claims overlap, the spans of the successful ones, from the
  time a claim read the lease to the end it wrote, follow one another without overlap; and
  what the table says is the end of the last of them.\<close>

theorem one_poller_per_lease:
  assumes "lease_run scope p s pending won"
  shows "sorted_wrt (\<lambda>a b. fst a + snd a \<le> fst b) won
    \<and> leased_until scope p s = (if won = [] then None else Some (fst (last won) + snd (last won)))"
  using lease_run_inv [OF assms] by (simp add: lease_inv_def)

text \<open>Two replicas that read an expired lease together, and then write: the second loses.\<close>

theorem one_poller_per_lease_witness:
  "\<exists>s. lease_run None ''a/b'' s [] [(0, 10)] \<and> leased_until None ''a/b'' s = Some 10"
proof -
  define s where "s = snd (commit_lease Lease_insert None ''a/b'' 0 10 cards_empty)"
  have 0: "lease_run None ''a/b'' cards_empty [(Lease_insert, 0, 10)] []"
    using Lease_read [OF Lease_init, of 10 None "''a/b''" 0] by (simp add: plan_lease_def import_row_def cards_empty_def)
  have 1: "lease_run None ''a/b'' cards_empty [(Lease_insert, 3, 10), (Lease_insert, 0, 10)] []"
    using Lease_read [OF 0, of 10 3] by (simp add: plan_lease_def import_row_def cards_empty_def)
  have c: "commit_lease Lease_insert None ''a/b'' 0 10 cards_empty = (True, s)"
    by (simp add: commit_lease_def s_def import_row_def cards_empty_def)
  have 2: "lease_run None ''a/b'' s [(Lease_insert, 3, 10)] [(0, 10)]"
    using Lease_write [OF 1 _ c] by simp
  have "commit_lease Lease_insert None ''a/b'' 3 10 s = (False, s)"
    by (simp add: commit_lease_def s_def upsert_import_state_def import_row_def cards_empty_def)
  then have "lease_run None ''a/b'' s [] [(0, 10)]" using Lease_write [OF 2, of Lease_insert 3 10 False s] by simp
  then show ?thesis using one_poller_per_lease by fastforce
qed

section \<open>When a failing repository is asked again\<close>

datatype backoff_op = Ask string | Fold string import_result

fun backoff_do :: "backoff_op \<Rightarrow> poll_backoff \<Rightarrow> poll_backoff" where
  "backoff_do (Ask key) b = snd (due key b)"
| "backoff_do (Fold key r) b = record_result key r b"

definition fresh_backoff :: poll_backoff where
  "fresh_backoff = \<lparr>bo_failures = [], bo_skip = []\<rparr>"

definition wait_of :: "string \<Rightarrow> poll_backoff \<Rightarrow> nat" where
  "wait_of key b = or_zero (dget (bo_skip b) key)"

definition strikes :: "string \<Rightarrow> poll_backoff \<Rightarrow> nat" where
  "strikes key b = or_zero (dget (bo_failures b) key)"

lemma due_wait: "fst (due key b) \<longleftrightarrow> wait_of key b = 0"
    "wait_of k (snd (due key b)) = (if k = key then wait_of k b - 1 else wait_of k b)"
  by (auto simp: due_def wait_of_def Let_def)

lemma due_iterated: "wait_of key (((\<lambda>b. snd (due key b)) ^^ m) b) = wait_of key b - m"
  by (induction m) (auto simp: due_wait)

lemma wait_bounded: "wait_of key b \<le> MAX_BACKOFF_CYCLES \<Longrightarrow> wait_of key (backoff_do op b) \<le> MAX_BACKOFF_CYCLES"
  using due_wait(2) [of key] by (cases op) (force, auto simp: record_result_def wait_of_def Let_def)

text \<open>After any history of polls a repository is asked again after at most eight cycles, however
  often it failed: of the cycles that consult the backoff, the first \<open>w\<close> skip it and every
  later one polls it.  A success clears the wait; a failure after \<open>n\<close> in a row waits twice as
  long as the one before, one cycle for the first and at least four for a rate limit, never
  more than eight; and what happens to one repository is nothing to another.\<close>

theorem backoff_bounded:
  fixes ops :: "backoff_op list"
  defines "b \<equiv> fold backoff_do ops fresh_backoff"
    and "polled \<equiv> \<lambda>key b m. fst (due key (((\<lambda>b. snd (due key b)) ^^ m) b))"
  shows "\<exists>w \<le> 8. (\<forall>m. polled key b m \<longleftrightarrow> w \<le> m)
    \<and> (\<forall>m r. ir_ok r \<longrightarrow> polled key (record_result key r b) m)
    \<and> (\<forall>m r. \<not> ir_ok r \<longrightarrow> (polled key (record_result key r b) m \<longleftrightarrow>
        min (2 ^ ((if ir_rate_limited r then max (strikes key b) 2 else strikes key b))) 8 \<le> m))
    \<and> (\<forall>m r other. other \<noteq> key \<longrightarrow> (polled key (record_result other r b) m \<longleftrightarrow> w \<le> m))"
proof -
  have "wait_of key (fold backoff_do ops b0) \<le> MAX_BACKOFF_CYCLES" if "wait_of key b0 \<le> MAX_BACKOFF_CYCLES" for b0
    using that by (induction ops arbitrary: b0) (auto intro: wait_bounded)
  then have "wait_of key b \<le> 8" by (simp add: b_def fresh_backoff_def wait_of_def MAX_BACKOFF_CYCLES_def)
  moreover have "polled key b' m \<longleftrightarrow> wait_of key b' \<le> m" for b' m
    by (simp add: polled_def due_wait due_iterated)
  moreover have "wait_of key (record_result other r b) = (if other \<noteq> key then wait_of key b else if ir_ok r then 0
      else min (2 ^ (if ir_rate_limited r then max (strikes key b) 2 else strikes key b)) 8)" for other r
    by (auto simp: record_result_def wait_of_def strikes_def Let_def MAX_BACKOFF_CYCLES_def RATE_LIMIT_FAILURES_def max_def)
  ultimately show ?thesis by (intro exI [of _ "wait_of key b"]) auto
qed

theorem backoff_bounded_witness:
  "\<not> fst (due ''a/b'' (record_result ''a/b'' (import_result ''a/b'' False (Some Provider_failed) False) fresh_backoff))
    \<and> fst (due ''a/b'' (snd (due ''a/b'' (record_result ''a/b'' (import_result ''a/b'' False (Some Provider_failed) False) fresh_backoff))))"
proof -
  let ?r = "import_result ''a/b'' False (Some Provider_failed) False"
  have s: "strikes ''a/b'' (fold backoff_do [] fresh_backoff) = 0" by (simp add: strikes_def fresh_backoff_def)
  have p: "fst (due ''a/b'' (((\<lambda>b. snd (due ''a/b'' b)) ^^ m) (record_result ''a/b'' ?r fresh_backoff))) \<longleftrightarrow> 1 \<le> m" for m
    using backoff_bounded [of "''a/b''" "[]"] s by (auto simp: import_result_def)
  show ?thesis using p [of 0] p [of 1] by simp
qed

section \<open>What an issue's fields do to a card\<close>

fun field_tag :: "card_field \<Rightarrow> nat" where
  "field_tag (F_title _) = 0" | "field_tag (F_description _) = 1" | "field_tag (F_criteria _) = 2"
| "field_tag (F_status _) = 3" | "field_tag (F_priority _) = 4" | "field_tag (F_tier _) = 5"
| "field_tag (F_assignee _) = 6" | "field_tag (F_milestone _) = 7" | "field_tag (F_correlation_key _) = 8"
| "field_tag (F_issue_ref _) = 9" | "field_tag (F_repository_id _) = 10" | "field_tag (F_issue_state _) = 11"
| "field_tag (F_labels _) = 12" | "field_tag (F_sync_error _) = 13" | "field_tag (F_stage_runs _) = 14"

lemma set_field_commute: "field_tag f \<noteq> field_tag g \<Longrightarrow> set_field f (set_field g c) = set_field g (set_field f c)"
  by (cases f; cases g) (auto split: option.splits)

lemma fold_changed:
  assumes "distinct (map field_tag fs)" "\<And>f. f \<in> set fs \<Longrightarrow> set_field f c0 = c0 \<Longrightarrow> set_field f c = c"
  shows "fold set_field (filter (\<lambda>f. set_field f c0 \<noteq> c0) fs) c = fold set_field fs c"
  using assms
proof (induction fs arbitrary: c)
  case (Cons f fs)
  have "set_field g (set_field f c) = set_field f c" if "g \<in> set fs" "set_field g c0 = c0" for g
  proof -
    have "field_tag g \<noteq> field_tag f" using that(1) Cons.prems(1) by (metis distinct.simps(2) imageI list.set_map list.simps(9))
    then show ?thesis using Cons.prems(2) that by (simp add: set_field_commute)
  qed
  then show ?case using Cons by (cases "set_field f c0 = c0") auto
qed simp

definition wanted :: "bool \<Rightarrow> issue_data \<Rightarrow> card_field list" where
  "wanted touched i = mapping i @ (if touched then [] else [F_status (Some (status_for (is_state i)))])"

lemma changes_for_wanted: "changes_for c i = filter (\<lambda>f. set_field f c \<noteq> c) (wanted (entered_the_factory c) i)"
  by (simp add: changes_for_def wanted_def)

lemma fold_changes: "fold set_field (changes_for c i) c = fold set_field (wanted (entered_the_factory c) i) c"
  unfolding changes_for_wanted by (intro fold_changed) (auto simp: wanted_def mapping_def)

lemma fold_wanted: "fold set_field (wanted touched i) c = c\<lparr>cd_title := issue_title i, cd_description := none_if_empty (is_body i),
    cd_labels := is_labels i, cd_tier := tier_of (is_labels i), cd_assignee := first_assignee i, cd_milestone := is_milestone i,
    cd_issue_state := none_if_empty (is_state i), cd_sync_error := None,
    cd_status := (if touched then cd_status c else status_for (is_state i))\<rparr>"
  by (cases c) (simp add: wanted_def mapping_def)

lemma changes_sound: "\<not> list_ex null_violation (changes_for c i) \<and> F_criteria None \<notin> set (changes_for c i)"
proof -
  have "set (changes_for c i) \<subseteq> set (wanted (entered_the_factory c) i)" unfolding changes_for_wanted by (rule filter_is_subset)
  moreover have "\<forall>f\<in>set (wanted touched i). \<not> null_violation f \<and> f \<noteq> F_criteria None" for touched
    by (simp add: wanted_def mapping_def)
  ultimately show ?thesis unfolding list_ex_iff by blast
qed

section \<open>One issue, exactly\<close>

definition imported_row :: "issue_data \<Rightarrow> int \<Rightarrow> card \<Rightarrow> card" where
  "imported_row i now c = (fold set_field (changes_for c i) c)\<lparr>cd_updated_at := now\<rparr>"

lemma imported_row_eq: "imported_row i now c = c\<lparr>cd_title := issue_title i, cd_description := none_if_empty (is_body i),
    cd_labels := is_labels i, cd_tier := tier_of (is_labels i), cd_assignee := first_assignee i, cd_milestone := is_milestone i,
    cd_issue_state := none_if_empty (is_state i), cd_sync_error := None,
    cd_status := (if entered_the_factory c then cd_status c else status_for (is_state i)), cd_updated_at := now\<rparr>"
  unfolding imported_row_def fold_changes fold_wanted by (rule refl)

lemma imported_row_keys [simp]: "card_key_of (imported_row i now c) = card_key_of c"
    "issue_key_of (imported_row i now c) = issue_key_of c" "cd_deleted_at (imported_row i now c) = cd_deleted_at c"
    "entered_the_factory (imported_row i now c) = entered_the_factory c"
  by (simp_all add: imported_row_eq card_key_of_def issue_key_of_def entered_the_factory_def)

lemma changes_imported: "changes_for (imported_row i now c) i = []"
proof -
  let ?r = "imported_row i now c"
  have "\<forall>f\<in>set (wanted (entered_the_factory c) i). set_field f ?r = ?r"
    by (cases c) (simp add: imported_row_eq wanted_def mapping_def)
  then show ?thesis unfolding changes_for_wanted filter_empty_conv by simp
qed

definition keys_readable :: "string \<Rightarrow> card_store \<Rightarrow> bool" where
  "keys_readable t s = (\<exists>k. next_card_key (Some t) s = Inr k)"

text \<open>The three things one issue can do when nobody comes between.\<close>

lemma import_known:
  assumes ok: "cards_ok s" and c: "get_by_issue_ref (Some t) ref s = Some c"
  shows "import_one (Some t) now ref i repo s s s =
    (if cd_deleted_at c \<noteq> None then (Inr Skipped, s)
     else if changes_for c i = [] then (Inr Updated, s) else (Inr Updated, put_card c (imported_row i now c) s))"
proof -
  have m: "c \<in> set (cs_cards s)" "issue_key_of c = Some (t, ref)" using c by (simp_all add: found_iff [OF ok])
  then have t: "cd_tenant c = t" by (auto simp: issue_key_of_def)
  have ref: "cd_issue_ref (fold set_field (changes_for c i) c) = cd_issue_ref c"
    unfolding fold_changes fold_wanted by simp
  show ?thesis
    using c update_card_puts [OF ok m(1) t _ _ _ ref, of now] changes_sound [of c i]
    by (simp add: import_one_def import_existing_def imported_row_def)
qed

lemma import_new:
  assumes ok: "cards_ok s" and t: "t \<noteq> []" and ref: "ref \<noteq> []" and none: "get_by_issue_ref (Some t) ref s = None"
    and v: "valid_create (import_create ref i repo)" and k: "keys_readable t s"
  obtains p where "import_one (Some t) now ref i repo s s s =
      (Inr Imported, put_card p (p\<lparr>cd_labels := is_labels i, cd_issue_state := none_if_empty (is_state i), cd_updated_at := now\<rparr>)
         (s\<lparr>cs_cards := cs_cards s @ [p]\<rparr>))"
    "plan_card (Some t) now (import_create ref i repo) s = Inr p" "cards_ok (s\<lparr>cs_cards := cs_cards s @ [p]\<rparr>)"
proof -
  let ?d = "import_create ref i repo"
  obtain p where p: "plan_card (Some t) now ?d s = Inr p"
    using k by (auto simp: keys_readable_def plan_card_def import_create_def)
  note q = plan_card_Inr [OF p]
  have free: "\<not> taken_ref t (Some ref) s" "\<not> taken_key t (cd_key p) s"
  proof -
    show "\<not> taken_ref t (Some ref) s" using none t by (simp flip: found_ref)
    have "next_card_key (Some t) s = Inr (cd_key p)" using q by (simp add: import_create_def)
    then show "\<not> taken_key t (cd_key p) s"
      using next_card_key_fresh by (fastforce simp: taken_key_def list_ex_iff tenant_cards)
  qed
  let ?s = "s\<lparr>cs_cards := cs_cards s @ [p]\<rparr>"
  have com: "commit_card (Some t) p s = Inr (p, ?s)"
    using commit_card_exact [of t p s] t q free by (simp add: import_create_def)
  have ok': "cards_ok ?s" using import_create_ok [OF p com] ok by (simp add: card_step_ok_def)
  have "update_card (Some t) (cd_key p) [F_labels (is_labels i), F_issue_state (none_if_empty (is_state i))] now ?s
      = Inr (Some (p\<lparr>cd_labels := is_labels i, cd_issue_state := none_if_empty (is_state i), cd_updated_at := now\<rparr>),
          put_card p (p\<lparr>cd_labels := is_labels i, cd_issue_state := none_if_empty (is_state i), cd_updated_at := now\<rparr>) ?s)"
    using update_card_puts [OF ok', of p t "[F_labels (is_labels i), F_issue_state (none_if_empty (is_state i))]" now] q t by simp
  then have "import_one (Some t) now ref i repo s s s =
      (Inr Imported, put_card p (p\<lparr>cd_labels := is_labels i, cd_issue_state := none_if_empty (is_state i), cd_updated_at := now\<rparr>) ?s)"
    using none v p com by (simp add: import_one_def)
  then show thesis using that p ok' by blast
qed

lemma highest_suffix_ok: "(\<exists>m. highest_suffix h ks = Inr m) \<longleftrightarrow>
    (\<forall>k\<in>set ks. startswith k ''FCT-'' \<and> isdigit (drop 4 k) \<longrightarrow> py_int (drop 4 k) \<noteq> None)"
  by (induction h ks rule: highest_suffix.induct) (auto split: option.splits)

lemma keys_readable_iff: "keys_readable t s \<longleftrightarrow> (\<forall>c\<in>set (cs_cards s). cd_tenant c = t \<longrightarrow>
    startswith (cd_key c) ''FCT-'' \<and> isdigit (drop 4 (cd_key c)) \<longrightarrow> py_int (drop 4 (cd_key c)) \<noteq> None)"
  using highest_suffix_ok [of 0 "map cd_key (select_cards True (Some t) s)"]
  by (auto simp: keys_readable_def next_card_key_def res_bind_Inr_iff all_cards.sel_eq)

lemma keys_readable_put:
  assumes "cards_ok s" "c \<in> set (cs_cards s)" "card_key_of c' = card_key_of c"
  shows "keys_readable t (put_card c c' s) = keys_readable t s"
proof -
  have "cd_tenant c' = cd_tenant c" "cd_key c' = cd_key c" using assms(3) by (simp_all add: card_key_of_def)
  then show ?thesis using assms(2) unfolding keys_readable_iff Ball_def in_put_card [OF assms(1,2)] by auto
qed

lemma auto_key_readable: "py_int (drop 4 (''FCT-'' @ digits_of_nat n)) \<noteq> None"
  by (simp add: py_int_digits)

section \<open>What an import does to the board\<close>

text \<open>The board of a tenant as an import sees it: by issue reference, either a card a human deleted
  or the fields the issue owns.  Importing an issue sets them, unless the card was deleted.\<close>

datatype mirror = Gone
  | Mirror string "string option" "string list" "card_tier option" "string option" "string option" "string option"

definition mirror_of :: "card \<Rightarrow> mirror" where
  "mirror_of c = (if cd_deleted_at c \<noteq> None then Gone
     else Mirror (cd_title c) (cd_description c) (cd_labels c) (cd_tier c) (cd_assignee c) (cd_milestone c) (cd_issue_state c))"

definition mirror_of_issue :: "issue_data \<Rightarrow> mirror" where
  "mirror_of_issue i = Mirror (issue_title i) (none_if_empty (is_body i)) (is_labels i) (tier_of (is_labels i))
     (first_assignee i) (is_milestone i) (none_if_empty (is_state i))"

definition mirror_board :: "string \<Rightarrow> card_store \<Rightarrow> string \<Rightarrow> mirror option" where
  "mirror_board t s ref = map_option mirror_of (get_by_issue_ref (Some t) ref s)"

definition mirror_issue :: "string \<Rightarrow> issue_data \<Rightarrow> (string \<Rightarrow> mirror option) \<Rightarrow> string \<Rightarrow> mirror option" where
  "mirror_issue ref i b = (if b ref = Some Gone then b else b(ref \<mapsto> mirror_of_issue i))"

lemma mirror_imported: "cd_deleted_at c = None \<Longrightarrow> mirror_of (imported_row i now c) = mirror_of_issue i"
  by (simp add: imported_row_eq mirror_of_def mirror_of_issue_def)

lemma mirror_unchanged: "changes_for c i = [] \<Longrightarrow> cd_deleted_at c = None \<Longrightarrow> mirror_of c = mirror_of_issue i"
  using fold_changes [of c i] mirror_imported [of c i 0]
  by (simp add: imported_row_def) (cases c; simp add: mirror_of_def)

lemma imported_row_ok:
  assumes ok: "cards_ok s" and c: "get_by_issue_ref (Some t) ref s = Some c" "cd_deleted_at c = None" "changes_for c i \<noteq> []"
  shows "cards_ok (put_card c (imported_row i now c) s)"
proof -
  have "import_one (Some t) now ref i repo s s s = (Inr Updated, put_card c (imported_row i now c) s)"
    using import_known [OF ok c(1)] c by simp
  then show ?thesis using import_one_ok ok unfolding card_step_ok_def by blast
qed

lemma mirror_board_put:
  assumes "cards_ok s" "cards_ok (put_card c c' s)" "c \<in> set (cs_cards s)" "issue_key_of c' = issue_key_of c"
    "issue_key_of c = Some (t, ref)"
  shows "mirror_board t (put_card c c' s) = (mirror_board t s)(ref \<mapsto> mirror_of c')"
  using assms(5) by (auto simp: mirror_board_def fun_eq_iff found_put [OF assms(1-4)])

lemma plan_import:
  assumes "plan_card (Some t) now (import_create ref i repo) s = Inr p" "t \<noteq> []"
  defines "p' \<equiv> p\<lparr>cd_labels := is_labels i, cd_issue_state := none_if_empty (is_state i), cd_updated_at := now\<rparr>"
  shows "issue_key_of p = Some (t, ref)" "cd_tenant p = t" "next_card_key (Some t) s = Inr (cd_key p)"
    "mirror_of p' = mirror_of_issue i" "cd_status p' = status_for (is_state i)" "\<not> entered_the_factory p'" "cd_sync_error p' = None"
    "cd_title p' = issue_title i" "cd_description p' = none_if_empty (is_body i)" "cd_tier p' = tier_of (is_labels i)"
    "cd_assignee p' = first_assignee i" "cd_milestone p' = is_milestone i" "cd_priority p' = IMPORT_PRIORITY" "cd_deleted_at p' = None"
  using assms by (auto simp: plan_card_def import_create_def res_bind_Inr_iff issue_key_of_def mirror_of_def mirror_of_issue_def
      entered_the_factory_def)

lemma plan_import_settled:
  assumes "plan_card (Some t) now (import_create ref i repo) s = Inr p" "t \<noteq> []"
  defines "p' \<equiv> p\<lparr>cd_labels := is_labels i, cd_issue_state := none_if_empty (is_state i), cd_updated_at := now\<rparr>"
  shows "changes_for p' i = []"
proof -
  note q = plan_import [OF assms(1,2), folded p'_def]
  have "cd_labels p' = is_labels i" "cd_issue_state p' = none_if_empty (is_state i)" by (simp_all add: p'_def)
  then have "set_field f p' = p'" if "f \<in> set (wanted (entered_the_factory p') i)" for f
    using that q unfolding wanted_def mapping_def
    by (cases p') (auto simp: entered_the_factory_def)
  then show ?thesis unfolding changes_for_wanted filter_empty_conv by simp
qed

lemma import_one_refines:
  assumes ok: "cards_ok s" and t: "t \<noteq> []" and ref: "ref \<noteq> []"
    and v: "valid_create (import_create ref i repo)" and k: "keys_readable t s"
    and run: "import_one (Some t) now ref i repo s s s = (r, s')"
  shows "mirror_board t s' = mirror_issue ref i (mirror_board t s) \<and> cards_ok s' \<and> keys_readable t s'
    \<and> r \<in> {Inr Imported, Inr Updated, Inr Skipped}
    \<and> (\<exists>c. get_by_issue_ref (Some t) ref s' = Some c \<and> (cd_deleted_at c \<noteq> None \<or> changes_for c i = []))
    \<and> (\<forall>ref'. ref' \<noteq> ref \<longrightarrow> get_by_issue_ref (Some t) ref' s' = get_by_issue_ref (Some t) ref' s)"
proof (cases "get_by_issue_ref (Some t) ref s")
  case (Some c)
  note m = Some [unfolded found_iff [OF ok]]
  consider "cd_deleted_at c \<noteq> None" "s' = s" | "cd_deleted_at c = None" "changes_for c i = []" "s' = s"
    | "cd_deleted_at c = None" "changes_for c i \<noteq> []" "s' = put_card c (imported_row i now c) s"
    using import_known [OF ok Some] run by (auto split: if_splits)
  then have "mirror_board t s' = mirror_issue ref i (mirror_board t s) \<and> cards_ok s' \<and> keys_readable t s'
      \<and> (\<exists>c. get_by_issue_ref (Some t) ref s' = Some c \<and> (cd_deleted_at c \<noteq> None \<or> changes_for c i = []))
      \<and> (\<forall>ref'. ref' \<noteq> ref \<longrightarrow> get_by_issue_ref (Some t) ref' s' = get_by_issue_ref (Some t) ref' s)"
  proof cases
    case 1
    then show ?thesis using Some ok k by (simp add: mirror_board_def mirror_issue_def mirror_of_def)
  next
    case 2
    have "mirror_of c = mirror_of_issue i" using mirror_unchanged 2 by blast
    then show ?thesis using 2 Some ok k by (auto simp: mirror_board_def mirror_issue_def fun_eq_iff)
  next
    case 3
    note ok' = imported_row_ok [OF ok Some 3(1,2), of now]
    show ?thesis using 3 ok ok' k m mirror_board_put [OF ok ok', of t ref] mirror_imported [OF 3(1), of i now] Some
        found_put [OF ok ok' _ imported_row_keys(2)] keys_readable_put [OF ok, of c] changes_imported [of i now c]
      by (auto simp: mirror_issue_def mirror_board_def mirror_of_def mirror_of_issue_def)
  qed
  then show ?thesis using import_known [OF ok Some] run by (auto split: if_splits)
next
  case None
  obtain p where p: "import_one (Some t) now ref i repo s s s =
      (Inr Imported, put_card p (p\<lparr>cd_labels := is_labels i, cd_issue_state := none_if_empty (is_state i), cd_updated_at := now\<rparr>)
         (s\<lparr>cs_cards := cs_cards s @ [p]\<rparr>))"
    "plan_card (Some t) now (import_create ref i repo) s = Inr p" "cards_ok (s\<lparr>cs_cards := cs_cards s @ [p]\<rparr>)"
    using import_new [OF ok t ref None v k] by blast
  let ?p = "p\<lparr>cd_labels := is_labels i, cd_issue_state := none_if_empty (is_state i), cd_updated_at := now\<rparr>"
    and ?s = "s\<lparr>cs_cards := cs_cards s @ [p]\<rparr>"
  note q = plan_import [OF p(2) t]
  have s': "r = Inr Imported" "s' = put_card p ?p ?s" using p(1) run by simp_all
  have ok': "cards_ok s'" using import_one_ok [OF run] ok by (simp add: card_step_ok_def)
  have same: "issue_key_of ?p = issue_key_of p" "card_key_of ?p = card_key_of p" by (simp_all add: issue_key_of_def card_key_of_def)
  have got: "get_by_issue_ref (Some t) r' s' = (if r' = ref then Some ?p else get_by_issue_ref (Some t) r' s)" for r'
    using found_put [OF p(3) ok' [unfolded s'(2)] _ same(1), of t r'] q(1)
    by (auto simp: s'(2) found_key find_snoc split: option.splits)
  obtain n where "cd_key p = ''FCT-'' @ digits_of_nat n" using q(3) unfolding next_card_key_def res_bind_Inr_iff sum.inject
    by (metis (no_types))
  then have "py_int (drop 4 (cd_key p)) \<noteq> None" using auto_key_readable by simp
  then have "keys_readable t ?s" using k by (auto simp: keys_readable_iff)
  then have "keys_readable t s'" unfolding s'(2) by (subst keys_readable_put [OF p(3) _ same(2)]) simp_all
  moreover have "mirror_board t s' = (mirror_board t s)(ref \<mapsto> mirror_of_issue i)"
    using q(4) by (simp add: mirror_board_def fun_eq_iff got)
  ultimately show ?thesis using None ok' got plan_import_settled [OF p(2) t] s'(1)
    by (auto simp: mirror_issue_def mirror_board_def)
qed

text \<open>C11: a pass over a repository implements the abstract board.  For a tenant whose keys are readable,
  and issues the board can hold, importing them one after the other is the fold of one map
  update per issue: the issue's fields, unless a human deleted the card.  Nothing is left out,
  no other reference is touched, and the store stays well-formed.\<close>

theorem import_refines_board:
  assumes "cards_ok s" "t \<noteq> []" "keys_readable t s"
    and "list_all (\<lambda>i. valid_create (import_create (issue_ref project (is_number i)) i repo)) is"
    and "import_all (Some t) now project repo is n s = (n', s')"
  shows "mirror_board t s' = fold (\<lambda>i. mirror_issue (issue_ref project (is_number i)) i) is (mirror_board t s)
    \<and> cards_ok s' \<and> keys_readable t s'"
  using assms
proof (induction "is" arbitrary: n s)
  case (Cons i "is")
  let ?ref = "issue_ref project (is_number i)"
  obtain r s1 where r: "import_one (Some t) now ?ref i repo s s s = (r, s1)" by force
  have "?ref \<noteq> []" by (simp add: issue_ref_def)
  note one = import_one_refines [OF Cons.prems(1,2) this _ Cons.prems(3) r]
  have v: "valid_create (import_create ?ref i repo)" using Cons.prems(4) by simp
  have "import_all (Some t) now project repo is (count_one r n) s1 = (n', s')" using Cons.prems(5) r by simp
  then show ?case using Cons.IH [of s1] one [OF v] Cons.prems(2,4) by simp
qed simp

definition ex_issue :: "nat \<Rightarrow> string \<Rightarrow> issue_data" where
  "ex_issue n title = \<lparr>is_number = n, is_title = title, is_body = [], is_state = ''open'', is_labels = [''factory:low''],
     is_updated_at = Some 100000000, is_assignees = [], is_milestone = None, is_raw_keys = []\<rparr>"

lemma ex_valid: "valid_create (import_create (issue_ref ''a/b'' 1) (ex_issue 1 ''t'') None)"
  by (simp add: valid_create_def import_create_def at_most_def issue_ref_def ex_issue_def issue_title_def first_assignee_def
      digits_of_nat.simps)

lemma readable_empty: "keys_readable t cards_empty"
  by (simp add: keys_readable_iff cards_empty_def)

definition no_counts :: counts where
  "no_counts = \<lparr>n_imported = 0, n_updated = 0, n_skipped = 0\<rparr>"

theorem import_refines_board_witness:
  "mirror_board ''acme'' (snd (import_all (Some ''acme'') 7 ''a/b'' None [ex_issue 1 ''t''] no_counts cards_empty)) (issue_ref ''a/b'' 1)
    = Some (mirror_of_issue (ex_issue 1 ''t''))"
proof -
  obtain n' s' where e: "import_all (Some ''acme'') 7 ''a/b'' None [ex_issue 1 ''t''] no_counts cards_empty = (n', s')" by force
  have "mirror_board ''acme'' s' = fold (\<lambda>i. mirror_issue (issue_ref ''a/b'' (is_number i)) i) [ex_issue 1 ''t'']
      (mirror_board ''acme'' cards_empty)"
    using import_refines_board [OF cards_empty_ok _ readable_empty _ e] ex_valid by (simp add: ex_issue_def)
  then show ?thesis using e
    by (simp add: mirror_issue_def mirror_board_def found_key cards_empty_def) (simp add: ex_issue_def)
qed

definition settled :: "string \<Rightarrow> string \<Rightarrow> issue_data \<Rightarrow> card_store \<Rightarrow> bool" where
  "settled t ref i s = (\<exists>c. get_by_issue_ref (Some t) ref s = Some c \<and> (cd_deleted_at c \<noteq> None \<or> changes_for c i = []))"

lemma settled_skips: "cards_ok s \<Longrightarrow> settled t ref i s \<Longrightarrow> snd (import_one (Some t) now ref i repo s s s) = s"
  by (auto simp: settled_def import_known)

lemma issue_ref_inj: "issue_ref p m = issue_ref p n \<longleftrightarrow> m = n"
  by (simp add: issue_ref_def digits_of_nat_inj)

lemma import_all_settles:
  assumes "cards_ok s" "t \<noteq> []" "keys_readable t s"
    and "list_all (\<lambda>i. valid_create (import_create (issue_ref project (is_number i)) i repo)) is"
    and "import_all (Some t) now project repo is n s = (n', s')" "distinct (map is_number is)"
  shows "(\<forall>i\<in>set is. settled t (issue_ref project (is_number i)) i s')
    \<and> (\<forall>ref. ref \<notin> (\<lambda>i. issue_ref project (is_number i)) ` set is \<longrightarrow>
        get_by_issue_ref (Some t) ref s' = get_by_issue_ref (Some t) ref s)"
  using assms
proof (induction "is" arbitrary: n s)
  case (Cons i "is")
  let ?ref = "issue_ref project (is_number i)"
  obtain r s1 where r: "import_one (Some t) now ?ref i repo s s s = (r, s1)" by force
  have ne: "?ref \<noteq> []" by (simp add: issue_ref_def)
  have v: "valid_create (import_create ?ref i repo)" using Cons.prems(4) by simp
  note one = import_one_refines [OF Cons.prems(1,2) ne v Cons.prems(3) r]
  have rest: "import_all (Some t) now project repo is (count_one r n) s1 = (n', s')" using Cons.prems(5) r by simp
  have all: "list_all (\<lambda>i. valid_create (import_create (issue_ref project (is_number i)) i repo)) is" using Cons.prems(4) by simp
  have "distinct (map is_number is)" using Cons.prems(6) by simp
  note ih = Cons.IH [OF _ Cons.prems(2) _ all rest this]
  have "?ref \<notin> (\<lambda>i. issue_ref project (is_number i)) ` set is" using Cons.prems(6) by (auto simp: issue_ref_inj)
  then have "settled t ?ref i s'" using ih one by (auto simp: settled_def)
  then show ?case using ih one by auto
qed simp

lemma import_all_settled:
  assumes "cards_ok s" "\<forall>i\<in>set is. settled t (issue_ref project (is_number i)) i s"
  shows "snd (import_all (Some t) now project repo is n s) = s"
  using assms(2)
proof (induction "is" arbitrary: n)
  case (Cons i "is")
  then show ?case using settled_skips [OF assms(1), of t "issue_ref project (is_number i)" i now repo]
    by (auto split: prod.splits)
qed simp

text \<open>C13: importing is idempotent.  Once a pass has run, running it again on the same issues, at any
  later time and however the tally stands, changes no row at all, not even a timestamp.\<close>

theorem import_is_idempotent:
  assumes "cards_ok s" "t \<noteq> []" "keys_readable t s" "distinct (map is_number is)"
    and "list_all (\<lambda>i. valid_create (import_create (issue_ref project (is_number i)) i repo)) is"
    and e: "import_all (Some t) now project repo is n s = (n', s')"
  shows "snd (import_all (Some t) later project repo is m s') = s'"
proof -
  have "cards_ok s'" using import_all_ok [OF e] assms(1) by (simp add: card_step_ok_def)
  then show ?thesis using import_all_settles [OF assms(1-3,5) e assms(4)] by (intro import_all_settled) auto
qed

theorem import_is_idempotent_witness:
  "\<exists>n' s'. import_all (Some ''acme'') 7 ''a/b'' None [ex_issue 1 ''t''] no_counts cards_empty = (n', s')
    \<and> snd (import_all (Some ''acme'') 8 ''a/b'' None [ex_issue 1 ''t''] no_counts s') = s'"
proof -
  obtain n' s' where e: "import_all (Some ''acme'') 7 ''a/b'' None [ex_issue 1 ''t''] no_counts cards_empty = (n', s')" by force
  then show ?thesis using import_is_idempotent [OF cards_empty_ok _ readable_empty _ _ e, of 8 no_counts] ex_valid
    by (simp add: ex_issue_def)
qed

section \<open>What an import leaves alone\<close>

text \<open>What may happen to a card that is on the board: the fields of the issue, and a status that is
  the one it had or one an issue's state means.  A deleted card keeps every field.\<close>

definition kept_fields :: "card \<Rightarrow> card \<Rightarrow> bool" where
  "kept_fields c c' = (card_key_of c' = card_key_of c \<and> cd_issue_ref c' = cd_issue_ref c \<and> cd_repository_id c' = cd_repository_id c
     \<and> cd_priority c' = cd_priority c \<and> cd_criteria c' = cd_criteria c \<and> cd_correlation_key c' = cd_correlation_key c
     \<and> cd_stage_runs c' = cd_stage_runs c \<and> cd_deleted_at c' = cd_deleted_at c \<and> cd_created_at c' = cd_created_at c
     \<and> cd_comments_synced_at c' = cd_comments_synced_at c \<and> cd_status c' \<in> {cd_status c, Backlog, Card_done})"

definition spared :: "card \<Rightarrow> card \<Rightarrow> bool" where
  "spared c c' = (kept_fields c c' \<and> (cd_deleted_at c \<noteq> None \<longrightarrow> c' = c))"

lemma kept_refl [simp]: "kept_fields c c" and kept_trans: "kept_fields a b \<Longrightarrow> kept_fields b c \<Longrightarrow> kept_fields a c"
  by (auto simp: kept_fields_def)

lemma spared_refl [simp]: "spared c c"
  by (simp add: spared_def)

lemma wanted_keeps: "f \<in> set (wanted b i) \<Longrightarrow> kept_fields c (set_field f c)"
  by (auto simp: wanted_def mapping_def kept_fields_def card_key_of_def status_for_def split: if_splits)

lemma fold_keeps: "set fs \<subseteq> set (wanted b i) \<Longrightarrow> kept_fields c (fold set_field fs c)"
proof (induction fs arbitrary: c)
  case (Cons f fs)
  then show ?case using wanted_keeps [of f b i c] kept_trans by fastforce
qed simp

definition import_effect :: "bool \<Rightarrow> card_store \<Rightarrow> card_store \<Rightarrow> bool" where
  "import_effect current s s' = (\<exists>f new. cs_cards s' = map f (cs_cards s) @ new
     \<and> (\<forall>c\<in>set (cs_cards s). spared c (f c) \<and> (current \<and> entered_the_factory c \<longrightarrow> cd_status (f c) = cd_status c))
     \<and> (\<forall>c\<in>set new. cd_status c \<in> {Backlog, Card_done} \<and> \<not> entered_the_factory c \<and> cd_priority c = IMPORT_PRIORITY))"

lemma import_effect_refl [simp]: "import_effect b s s"
  unfolding import_effect_def by (intro exI [of _ "\<lambda>c. c"] exI [of _ "[]"]) simp

lemma import_existing_effect:
  assumes ok: "cards_ok s" and run: "import_existing (Some t) now c i s = (r, s')"
    and cur: "b \<Longrightarrow> get_by_issue_ref (Some t) ref s = Some c"
  shows "import_effect b s s'"
proof -
  have "s' = s \<or> (\<exists>x. update_card (Some t) (cd_key c) (changes_for c i) now s = Inr (x, s'))"
    using run by (auto simp: import_existing_def split: if_splits sum.splits prod.splits)
  then show ?thesis
  proof (elim disjE exE)
    fix x assume "update_card (Some t) (cd_key c) (changes_for c i) now s = Inr (x, s')"
    then show ?thesis
    proof (cases rule: update_card_cases)
      case (some d)
      let ?d = "(fold set_field (changes_for c i) d)\<lparr>cd_updated_at := now\<rparr>"
      note d = some(1) [unfolded got_iff [OF ok]]
      have one: "x = d" if "x \<in> set (cs_cards s)" "same_card d x" for x using cards_ok_same [OF ok _ that(1)] d that(2) by blast
      have "set (changes_for c i) \<subseteq> set (wanted (entered_the_factory c) i)" unfolding changes_for_wanted by (rule filter_is_subset)
      note fold_keeps [OF this, of d]
      then have k: "spared d ?d" using d by (simp add: spared_def kept_fields_def card_key_of_def)
      have "cd_status ?d = cd_status d" if b: b "entered_the_factory d"
      proof -
        have "c \<in> set (cs_cards s)" "cd_tenant c = t" using cur [OF b(1)] by (auto simp: found_iff [OF ok] issue_key_of_def)
        then have "c = d" using d by (intro one) (auto simp: same_card_def card_key_of_def)
        then show ?thesis using b(2) by (simp add: fold_changes fold_wanted)
      qed
      then show ?thesis unfolding import_effect_def
        using k one by (intro exI [of _ "\<lambda>x. if same_card d x then ?d else x"] exI [of _ "[]"]) (auto simp: some(3) update_where_def)
    qed simp
  qed simp
qed

lemma import_created_effect:
  assumes ok: "cards_ok s" and t: "t \<noteq> []" and p: "plan_card (Some t) now (import_create ref i repo) s1 = Inr p"
    and com: "commit_card (Some t) p s = Inr (c, s2)"
    and up: "update_card (Some t) (cd_key c) [F_labels (is_labels i), F_issue_state (none_if_empty (is_state i))] now s2 = Inr (x, s')"
  shows "import_effect b s s'"
proof -
  note q = plan_import [OF p t]
  have c: "c = p" "insert_card p s = Inr s2" using com by (simp_all add: commit_card_Inr)
  have s2: "s2 = s\<lparr>cs_cards := cs_cards s @ [p]\<rparr>" by (rule insert_card_Inr [OF c(2)])
  have ok2: "cards_ok s2" using import_create_ok [OF p com] ok by (simp add: card_step_ok_def)
  let ?p = "p\<lparr>cd_labels := is_labels i, cd_issue_state := none_if_empty (is_state i), cd_updated_at := now\<rparr>"
  have "s' = put_card p ?p s2"
    using up update_card_puts [OF ok2, of p t "[F_labels (is_labels i), F_issue_state (none_if_empty (is_state i))]" now] q(2,14)
    by (simp add: c s2)
  moreover have "\<not> same_card p x" if "x \<in> set (cs_cards s)" for x
    using c(2) that by (auto simp: insert_card_def key_used_def list_ex_iff same_card_key card_key_of_def split: if_splits)
  then have "update_where (same_card p) (\<lambda>_. ?p) (cs_cards s) = cs_cards s" by (intro update_where_id)
  ultimately have "cs_cards s' = cs_cards s @ [?p]" by (simp add: put_card_def s2 update_where_def same_card_def)
  then show ?thesis unfolding import_effect_def using q
    by (intro exI [of _ "\<lambda>c. c"] exI [of _ "[?p]"]) (auto simp: status_for_def entered_the_factory_def)
qed

text \<open>C12: an import starts no work and undoes none, whatever comes between its reads and its writes.
  A new card is in the backlog or done, never ready, and has not entered the factory; a card
  that was there keeps its key, its plan and the record of its runs, and its status changes at
  most to one an issue's state means; a deleted card is not touched.  If the card the import
  looked up is the one it writes, a card the factory has touched keeps its status.\<close>

theorem import_never_dispatches:
  assumes "cards_ok s" "t \<noteq> []" "import_one (Some t) now ref i repo s0 s1 s = (r, s')"
  shows "import_effect (get_by_issue_ref (Some t) ref s0 = get_by_issue_ref (Some t) ref s) s s'"
proof (cases "get_by_issue_ref (Some t) ref s0")
  case (Some c)
  then have "import_existing (Some t) now c i s = (r, s')" using assms(3) by (simp add: import_one_def)
  then show ?thesis using Some by (intro import_existing_effect [OF assms(1)]) auto
next
  case None
  let ?d = "import_create ref i repo" and ?fs = "[F_labels (is_labels i), F_issue_state (none_if_empty (is_state i))]"
  show ?thesis
  proof (cases "valid_create ?d \<and> (\<exists>p. plan_card (Some t) now ?d s1 = Inr p)")
    case False
    then have "s' = s" using assms(3) None by (auto simp: import_one_def split: if_splits sum.splits)
    then show ?thesis by simp
  next
    case True
    then obtain p where p: "plan_card (Some t) now ?d s1 = Inr p" and v: "valid_create ?d" by blast
    show ?thesis
    proof (cases "commit_card (Some t) p s")
      case (Inl e)
      then have "s' = s \<or> (\<exists>c. get_by_issue_ref (Some t) ref s = Some c \<and> import_existing (Some t) now c i s = (r, s'))"
        using assms(3) None p v by (cases e) (auto simp: import_one_def split: option.splits)
      then show ?thesis using import_existing_effect [OF assms(1)] by auto
    next
      case (Inr x)
      obtain c s2 where x: "x = (c, s2)" by force
      have ok2: "cards_ok s2" using import_create_ok [OF p Inr [unfolded x]] assms(1) by (simp add: card_step_ok_def)
      have "c = p" "p \<in> set (cs_cards s2)" using Inr x insert_card_Inr by (fastforce simp: commit_card_Inr)+
      then obtain y where y: "update_card (Some t) (cd_key c) ?fs now s2 = Inr (y, s')"
        using update_card_puts [OF ok2, of p t ?fs now] plan_import(2,14) [OF p assms(2)] assms(3) None p v Inr
        by (auto simp: import_one_def x)
      show ?thesis by (rule import_created_effect [OF assms(1,2) p Inr [unfolded x] y])
    qed
  qed
qed

theorem import_never_dispatches_witness:
  "\<exists>r s'. import_one (Some ''acme'') 7 ''a/b#1'' (ex_issue 1 ''t'') None cards_empty cards_empty cards_empty = (r, s')
    \<and> import_effect True cards_empty s'"
proof -
  obtain r s' where e: "import_one (Some ''acme'') 7 ''a/b#1'' (ex_issue 1 ''t'') None cards_empty cards_empty cards_empty = (r, s')" by force
  then show ?thesis using import_never_dispatches [OF cards_empty_ok _ e] by simp
qed

section \<open>Cursors and leases of a pass\<close>

lemma update_card_imports: "update_card scope k fs now s = Inr (x, s') \<Longrightarrow> cs_imports s' = cs_imports s"
  by (erule update_card_cases) auto

lemma import_existing_imports: "import_existing scope now c i s = (r, s') \<Longrightarrow> cs_imports s' = cs_imports s"
  by (auto simp: import_existing_def split: if_splits sum.splits prod.splits dest: update_card_imports)

lemma import_one_imports:
  assumes "import_one scope now ref i repo s0 s1 s = (r, s')" shows "cs_imports s' = cs_imports s"
proof (cases "get_by_issue_ref scope ref s0")
  case (Some c)
  then show ?thesis using assms import_existing_imports by (simp add: import_one_def)
next
  case None
  show ?thesis
  proof (cases "\<exists>p x. valid_create (import_create ref i repo) \<and> plan_card scope now (import_create ref i repo) s1 = Inr p \<and> commit_card scope p s = Inr x")
    case True
    then obtain p c s2 where p: "valid_create (import_create ref i repo)" "plan_card scope now (import_create ref i repo) s1 = Inr p"
      "commit_card scope p s = Inr (c, s2)" by force
    have "cs_imports s2 = cs_imports s" using p(3) insert_card_Inr by (fastforce simp: commit_card_Inr)
    then show ?thesis using assms None p
      by (auto simp: import_one_def split: sum.splits prod.splits dest: update_card_imports)
  next
    case False
    then have "s' = s \<or> (\<exists>c. import_existing scope now c i s = (r, s'))"
      using assms None by (auto simp: import_one_def split: if_splits sum.splits card_error.splits option.splits)
    then show ?thesis using import_existing_imports by blast
  qed
qed

lemma import_all_imports: "import_all scope now project repo is n s = (n', s') \<Longrightarrow> cs_imports s' = cs_imports s"
proof (induction "is" arbitrary: n s)
  case (Cons i "is")
  then show ?case using import_one_imports by (fastforce split: prod.splits)
qed simp

lemma store_comments_imports: "store_comments scope k cs now s = Inr (n, s') \<Longrightarrow> cs_imports s' = cs_imports s"
  by (auto simp: store_comments_def Let_def res_bind_Inr_iff)

lemma store_threads_imports: "store_threads scope d now ts n rs s = (n', rs', s') \<Longrightarrow> cs_imports s' = cs_imports s"
proof (induction ts arbitrary: n rs s)
  case (Cons a ts)
  obtain k cs where a: "a = (k, cs)" by force
  show ?case
  proof (cases "\<exists>c m s2. dget d k = Some c \<and> store_comments scope (cd_key c) cs now s = Inr (m, s2)")
    case True
    then obtain c m s2 where c: "dget d k = Some c" "store_comments scope (cd_key c) cs now s = Inr (m, s2)" by blast
    then show ?thesis using Cons.IH [of "n + m" rs s2] Cons.prems store_comments_imports [OF c(2)] by (simp add: a)
  next
    case False
    then show ?thesis using Cons.prems Cons.IH by (auto simp: a split: option.splits sum.splits)
  qed
qed simp

lemma read_group_imports: "cs_imports (snd (snd (read_group scope th d now ns w x))) = cs_imports (snd (snd x))"
proof -
  obtain n rs s where x: "x = (n, rs, s)" by (cases x)
  have "cs_imports (snd (snd (store_threads scope d now ts n rs s))) = cs_imports s" for ts
    using store_threads_imports by (metis prod.collapse)
  then show ?thesis by (simp add: x read_group_def split: option.splits)
qed

lemma sync_comments_imports: "sync_comments eq scope th p m now s = (r, s') \<Longrightarrow> cs_imports s' = cs_imports s"
proof -
  have "read_threads scope th d m now s = (n, rs, s') \<Longrightarrow> cs_imports s' = cs_imports s" for d n rs
    using read_group_imports by (metis read_threads_def snd_conv)
  then show "sync_comments eq scope th p m now s = (r, s') \<Longrightarrow> ?thesis"
    by (auto simp: sync_comments_def Let_def split: if_splits prod.splits)
qed

lemma import_fetched_cursors:
  assumes "import_fetched env scope now git target since fetched s = (r, s')"
  shows "leased_until scope p s' = leased_until scope p s
    \<and> (\<forall>w. next_watermark (filter (\<lambda>i. \<not> is_pull_request i) fetched) since = Some w \<longrightarrow> get_watermark scope target s' = Some w)"
proof -
  obtain s2 where s2: "cs_imports s2 = cs_imports s"
    and s': "s' = mark_polled scope target now (case next_watermark (filter (\<lambda>i. \<not> is_pull_request i) fetched) since of
       None \<Rightarrow> s2 | Some w \<Rightarrow> set_watermark scope target w s2)"
    using assms by (elim import_fetched_steps) (metis import_all_imports sync_comments_imports prod.inject)
  have "leased_until scope p s2 = leased_until scope p s" using s2 by (simp add: leased_until_def import_row_def)
  then show ?thesis
    by (auto simp: s' mark_polled_def set_watermark_def leased_upsert get_watermark_def import_row_upsert split: option.splits)
qed

lemma import_issues_leased:
  "import_issues env scope now repo project full s = Inr (r, s') \<Longrightarrow> leased_until scope p s' = leased_until scope p s"
  using import_fetched_cursors by (fastforce simp: import_issues_def res_bind_Inr_iff Let_def split: if_splits sum.splits)

text \<open>The cursor moves past an issue that was not imported.  After a pass the next one asks for
  what changed since the newest issue seen, less a minute, whatever became of the others: an
  issue older than that whose card could not be made, or that the limit cut off behind a newer
  one, is not asked for again until it changes or somebody imports everything.\<close>

theorem cursor_passes_failures:
  assumes "import_fetched env scope now git target since fetched s = (r, s')"
    and "j \<in> set fetched" "\<not> is_pull_request j" "is_updated_at j = Some newer"
  shows "\<exists>w. get_watermark scope target s' = Some w \<and> if_since (filters env (get_watermark scope target s')) = Some w
    \<and> (\<forall>older. older + OVERLAP < newer \<longrightarrow> older < w)"
proof -
  let ?is = "filter (\<lambda>i. \<not> is_pull_request i) fetched"
  let ?seen = "map (\<lambda>i. the (is_updated_at i)) (filter (\<lambda>i. is_updated_at i \<noteq> None) ?is)"
  have mem: "newer \<in> set ?seen" using assms(2-4) by force
  then have "?seen \<noteq> []" by (metis empty_iff list.set(1))
  then have w: "next_watermark ?is since = Some (Max (set ?seen) - OVERLAP)" unfolding next_watermark_def Let_def by (simp only: if_False)
  have "newer \<le> Max (set ?seen)" using mem by (intro Max_ge) auto
  then show ?thesis using import_fetched_cursors [OF assms(1)] w by (auto simp: filters_def)
qed

definition ex_env :: import_env where
  "ex_env = \<lparr>ie_state = ''open'', ie_labels = [], ie_max = 1000, ie_comments = False, ie_backfill_max = 25, ie_poll_seconds = 300,
     ie_git = \<lparr>st_git_provider = GITHUB, st_git_provider_url = None, st_github_api_url = [], st_github_repo = None,
       st_intake_project_id = None, st_git_provider_token = None, st_github_token = None\<rparr>,
     ie_credentials = None, ie_db = git_empty, ie_like = (=), ie_fetch = (\<lambda>_ _ _. Inl False), ie_threads = (\<lambda>_ _ _ _. None)\<rparr>"

text \<open>With a superscript key on the board no issue can be imported, and the cursor moves all the same.\<close>

theorem cursor_passes_failures_witness:
  "\<exists>r s' w. import_fetched ex_env (Some ''acme'') 9 (target_from_settings (ie_git ex_env) ''acme'' None) ''a/b'' None [ex_issue 1 ''t'']
      (cards_empty\<lparr>cs_cards := [ex_card (''FCT-'' @ [char_of (178::nat)]) None]\<rparr>) = (r, s')
    \<and> n_skipped (ir_counts r) = 1 \<and> get_watermark (Some ''acme'') ''a/b'' s' = Some w \<and> 39999999 < w"
proof -
  let ?s = "cards_empty\<lparr>cs_cards := [ex_card (''FCT-'' @ [char_of (178::nat)]) None]\<rparr>"
    and ?g = "target_from_settings (ie_git ex_env) ''acme'' None"
  obtain r s' where e: "import_fetched ex_env (Some ''acme'') 9 ?g ''a/b'' None [ex_issue 1 ''t''] ?s = (r, s')" by force
  have "\<not> is_pull_request (ex_issue 1 ''t'')" by (simp add: is_pull_request_def ex_issue_def PR_KEYS_def)
  note w = cursor_passes_failures [OF e _ this, of 100000000]
  have "get_by_issue_ref (Some ''acme'') (issue_ref ''a/b'' 1) ?s = None"
    by (simp add: found_None ex_card_def issue_key_of_def)
  moreover have "next_card_key (Some ''acme'') ?s = Inl BadKeySuffix"
    using highest_suffix_bad [of "''FCT-'' @ [char_of (178::nat)]" _ 0]
    by (simp add: next_card_key_def select_cards_def ex_card_def isdigit_def isdigit_char_def py_int_def ascii_digit_def)
  ultimately have "import_one (Some ''acme'') 9 (issue_ref ''a/b'' 1) (ex_issue 1 ''t'') repo ?s ?s ?s = (Inl BadKeySuffix, ?s)" for repo
    using ex_valid by (simp add: import_one_def plan_card_def valid_create_def import_create_def)
  then have "import_all (Some ''acme'') 9 ''a/b'' repo [ex_issue 1 ''t''] n ?s = (n\<lparr>n_skipped := n_skipped n + 1\<rparr>, ?s)" for repo n
    by (simp add: ex_issue_def)
  then have "n_skipped (ir_counts r) = 1"
    using e \<open>\<not> is_pull_request (ex_issue 1 ''t'')\<close> by (auto simp: import_fetched_def Let_def split: prod.splits)
  moreover have "is_updated_at (ex_issue 1 ''t'') = Some 100000000" by (simp add: ex_issue_def)
  ultimately show ?thesis using e w by (fastforce simp: OVERLAP_def)
qed

lemma lease_held: "leased_until scope p s = Some u \<Longrightarrow> now < u \<Longrightarrow> claim_import_lease scope p now ttl s = (False, s)"
  by (auto simp: claim_import_lease_def plan_lease_def commit_lease_def leased_until_def split: option.splits)

lemma due_True: "fst (due key b) \<Longrightarrow> due key b = (True, b)"
  by (auto simp: due_def Let_def split: if_splits)

lemma skipped_after_failure: "\<not> ir_ok r \<Longrightarrow> \<not> fst (due key (record_result key r b))"
  by (auto simp: due_wait record_result_def wait_of_def Let_def MAX_BACKOFF_CYCLES_def)

lemma due_after_success: "ir_ok r \<Longrightarrow> due key (record_result key r b) = (True, record_result key r b)"
  by (intro due_True) (simp add: due_wait record_result_def wait_of_def)

text \<open>Two repositories of one tenant with the same path, on two hosts, share one lease, one backoff
  and one cursor, since all three are keyed by the path alone.  In every cycle that polls the
  first of them the second is not polled, as long as the lease outlasts the gap between them:
  a success leaves the lease held, a failure leaves the path backing off.\<close>

theorem same_path_polled_once:
  assumes "key \<noteq> []" "clock (Suc i) < clock i + lease"
    and "poll_cycle env scope lease clock i [(repo1, key), (repo2, key)] b s = (None, rs, b', s')"
    and first: "fst (due key b)" "claim_import_lease scope key (clock i) lease s = (True, s1)"
  shows "\<exists>r s2. import_issues env scope (clock i) repo1 None False s1 = Inr (r, s2) \<and> rs = [r] \<and> s' = s2"
proof -
  have due: "due key b = (True, b)" by (rule due_True [OF first(1)])
  obtain r s2 where r: "import_issues env scope (clock i) repo1 None False s1 = Inr (r, s2)"
    using assms(1,3) first(2) due by (cases "import_issues env scope (clock i) repo1 None False s1") auto
  have "leased_until scope key s1 = Some (clock i + lease)"
    using commit_lease_leased first(2) unfolding claim_import_lease_def by fastforce
  then have held: "claim_import_lease scope key (clock (Suc i)) lease s2 = (False, s2)"
    using import_issues_leased [OF r] assms(2) by (intro lease_held) auto
  have "rs = [r] \<and> s' = s2"
  proof (cases "ir_ok r")
    case True
    then show ?thesis using assms(1,3) due first(2) r held due_after_success [OF True, of key b] by simp
  next
    case False
    then show ?thesis using assms(1,3) due first(2) r skipped_after_failure [OF False, of key b]
      by (auto split: prod.splits)
  qed
  then show ?thesis using r by blast
qed

theorem same_path_polled_once_witness:
  "\<exists>r b' s'. poll_cycle ex_env (Some ''acme'') 150000000 (\<lambda>i. int i * 2000000) 0 [(None, ''a/b''), (None, ''a/b'')] fresh_backoff cards_empty
    = (None, [r], b', s')"
proof -
  let ?c = "poll_cycle ex_env (Some ''acme'') 150000000 (\<lambda>i. int i * 2000000) 0 [(None, ''a/b''), (None, ''a/b'')] fresh_backoff cards_empty"
  have off: "import_issues ex_env (Some ''acme'') now None None False s = Inr (import_result [] True (Some Not_configured) False, s)" for now s
    by (simp add: import_issues_def ex_env_def git_target_for_def resolve_repository_def resolve_project_def default_repository_def
        git_empty_def target_from_settings_def tenant_credential_def sync_enabled_def eval_str env_credential_def provider_token_def
        NO_CREDENTIAL_def connections_def blank_none_def Let_def)
  obtain s1 where c: "claim_import_lease (Some ''acme'') ''a/b'' 0 150000000 cards_empty = (True, s1)"
    by (simp add: claim_import_lease_def plan_lease_def commit_lease_def import_row_def cards_empty_def)
  obtain e rs b' s' where run: "?c = (e, rs, b', s')" by (cases ?c)
  have d: "fst (due ''a/b'' fresh_backoff)" by (simp add: due_wait wait_of_def fresh_backoff_def)
  have "e = None" using run c due_True [OF d] by (auto simp: off split: prod.splits if_splits)
  then show ?thesis
    using same_path_polled_once [of "''a/b''" "\<lambda>i. int i * 2000000" 0 150000000 ex_env "Some ''acme''" None None fresh_backoff cards_empty rs b' s' s1]
      run c d by auto
qed

end
