(* ===== verification/Actions.thy ===== *)
theory Actions
  imports Adapters
begin

text \<open>
  Prepared actions, \<open>actions.py\<close>: what each \<open>propose_*\<close> tool builds for a work item, why it builds
  nothing, and the confirmed execution of the steps.  The service answers a request as in
  \<open>Adapters\<close>: a transport failure, or a status with a body that is JSON or is not.
\<close>

section \<open>Endpoints\<close>

definition ALLOWED_METHODS :: "string list" where
  "ALLOWED_METHODS = [''GET'', ''POST'', ''PUT'', ''PATCH'', ''DELETE'']"

text \<open>\<open>urlsplit\<close> drops tabs and line ends before it looks for an authority, and a path that starts
  with a slash has no scheme.  Where it raises, on an authority it cannot parse, the endpoint
  is refused as well.\<close>

definition url_unsafe :: "char \<Rightarrow> bool" where
  "url_unsafe c = ((of_char c :: nat) \<in> {9, 10, 13})"

definition is_safe_endpoint :: "string \<Rightarrow> bool" where
  "is_safe_endpoint e = (startswith e ''/'' \<and> \<not> startswith e ''//''
     \<and> \<not> startswith (filter (\<lambda>c. \<not> url_unsafe c) e) ''//'')"

section \<open>Actions\<close>

datatype action_kind = Approve_plan | Approve_review | Reject_review | Recover | Delete_task | Dispatch_card

record action_step =
  st_method :: string
  st_endpoint :: string
  st_payload :: jobj

record prepared_action =
  pa_kind :: action_kind
  pa_key :: string
  pa_service :: service
  pa_step :: action_step
  pa_follow_ups :: "action_step list"

text \<open>The validators of the two models.\<close>

definition valid_step :: "action_step \<Rightarrow> bool" where
  "valid_step x = (is_safe_endpoint (st_endpoint x) \<and> List.member ALLOWED_METHODS (st_method x))"

definition steps_of :: "prepared_action \<Rightarrow> action_step list" where
  "steps_of a = pa_step a # pa_follow_ups a"

definition task_endpoint :: "string \<Rightarrow> string \<Rightarrow> string" where
  "task_endpoint tid action = ''/api/tasks/'' @ tid @ action"

definition session_endpoint :: "string \<Rightarrow> string \<Rightarrow> string" where
  "session_endpoint sid action = ''/api/plan/sessions/'' @ sid @ action"

text \<open>The furthest stage that holds a task: the one in flight, or any.\<close>

fun first_target :: "(service_state \<Rightarrow> bool) \<Rightarrow> work_item \<Rightarrow> service list \<Rightarrow> (service \<times> string) option" where
  "first_target p wi [] = None"
| "first_target p wi (svc # svcs) =
     (if truthy (ss_task_id (wi_stage svc wi)) \<and> p (wi_stage svc wi)
      then Some (svc, the (ss_task_id (wi_stage svc wi))) else first_target p wi svcs)"

definition review_target :: "work_item \<Rightarrow> (service \<times> string) option" where
  "review_target wi = first_target (\<lambda>st. \<not> is_terminal (ss_status st)) wi [TFACTORY, AIFACTORY, PFACTORY]"

definition delete_target :: "work_item \<Rightarrow> (service \<times> string) option" where
  "delete_target wi = first_target (\<lambda>st. True) wi [TFACTORY, AIFACTORY, PFACTORY]"

definition mk_action :: "action_kind \<Rightarrow> string \<Rightarrow> service \<Rightarrow> string \<Rightarrow> string \<Rightarrow> jobj \<Rightarrow> action_step list \<Rightarrow> prepared_action" where
  "mk_action k key svc m e p fs = \<lparr>pa_kind = k, pa_key = key, pa_service = svc,
     pa_step = \<lparr>st_method = m, st_endpoint = e, st_payload = p\<rparr>, pa_follow_ups = fs\<rparr>"

definition propose_approve_plan :: "string \<Rightarrow> work_item \<Rightarrow> prepared_action option" where
  "propose_approve_plan key wi = (if \<not> truthy (ss_task_id (wi_pfactory wi)) then None
     else Some (mk_action Approve_plan key PFACTORY ''POST'' (task_endpoint (the (ss_task_id (wi_pfactory wi))) ''/approve-plan'')
       [(''approver'', JStr ''cockpit'')] []))"

definition note_text :: "string option \<Rightarrow> string" where
  "note_text note = (case note of None \<Rightarrow> [] | Some s \<Rightarrow> strip s)"

definition propose_approve_review :: "string \<Rightarrow> string option \<Rightarrow> work_item \<Rightarrow> prepared_action option" where
  "propose_approve_review key note wi = (case review_target wi of
     None \<Rightarrow> None
   | Some (svc, tid) \<Rightarrow> Some (if svc = PFACTORY
       then mk_action Approve_review key svc ''POST'' (session_endpoint tid ''/approve'')
         [(''approver'', JStr ''cockpit''), (''feedback'', JStr (note_text note))] []
       else mk_action Approve_review key svc ''POST'' (task_endpoint tid ''/worktree/create-pr'') []
         [\<lparr>st_method = ''POST'', st_endpoint = task_endpoint tid ''/worktree/merge'', st_payload = []\<rparr>]))"

definition reject_reason :: "string option \<Rightarrow> string" where
  "reject_reason note = (if note_text note = [] then ''Rejected from the cockpit.'' else note_text note)"

definition propose_reject_review :: "string \<Rightarrow> string option \<Rightarrow> work_item \<Rightarrow> prepared_action option" where
  "propose_reject_review key note wi = (case review_target wi of
     None \<Rightarrow> None
   | Some (svc, tid) \<Rightarrow> Some (if svc = PFACTORY
       then mk_action Reject_review key svc ''POST'' (session_endpoint tid ''/reject'')
         [(''approver'', JStr ''cockpit''), (''feedback'', JStr (reject_reason note))] []
       else mk_action Reject_review key svc ''POST'' (task_endpoint tid ''/apply-correction'')
         [(''fix_request_md'', JStr (''# Review rejected from the cockpit'' @ [char_of (10::nat), char_of (10::nat)]
             @ reject_reason note @ [char_of (10::nat)])),
          (''source'', JStr ''cockpit''), (''confirm'', JBool True), (''correlation_key'', JStr key),
          (''reason'', JStr (reject_reason note)),
          (''triage'', JObj [(''source'', JStr ''triage''),
             (''failing_tests'', JArr [JObj [(''test_id'', JStr ''cockpit-review''), (''reason'', JStr (reject_reason note))]]),
             (''correlation_key'', JStr key)])] []))"

definition propose_recover :: "string \<Rightarrow> work_item \<Rightarrow> prepared_action option" where
  "propose_recover key wi = (case review_target wi of
     None \<Rightarrow> None
   | Some (svc, tid) \<Rightarrow> Some (if svc = PFACTORY
       then mk_action Recover key svc ''POST'' (session_endpoint tid ''/process'') [] []
       else mk_action Recover key svc ''POST'' (task_endpoint tid ''/recover'') [(''source'', JStr ''cockpit'')] []))"

definition propose_delete_task :: "string \<Rightarrow> work_item \<Rightarrow> prepared_action option" where
  "propose_delete_task key wi = (case delete_target wi of
     None \<Rightarrow> None
   | Some (svc, tid) \<Rightarrow> if svc = PFACTORY then None
       else Some (mk_action Delete_task key svc ''DELETE'' (task_endpoint tid []) [] []))"

text \<open>\<open>propose\<close> on what the store holds under the key.  The kinds are those of \<open>PROPOSERS\<close>.\<close>

fun propose :: "action_kind \<Rightarrow> string \<Rightarrow> string option \<Rightarrow> work_item option \<Rightarrow> prepared_action option" where
  "propose k key note None = None"
| "propose Approve_plan key note (Some wi) = propose_approve_plan key wi"
| "propose Approve_review key note (Some wi) = propose_approve_review key note wi"
| "propose Reject_review key note (Some wi) = propose_reject_review key note wi"
| "propose Recover key note (Some wi) = propose_recover key wi"
| "propose Delete_task key note (Some wi) = propose_delete_task key wi"
| "propose Dispatch_card key note (Some wi) = None"

datatype nothing_reason =
    No_plan_task
  | Plan_not_removable
  | No_stage_holds_task
  | No_stage_in_flight "(service \<times> string option) list"

definition nothing_to_act_on :: "action_kind \<Rightarrow> work_item \<Rightarrow> nothing_reason" where
  "nothing_to_act_on k wi =
    (if k = Approve_plan then No_plan_task
     else if k = Delete_task then
       (case delete_target wi of Some (svc, _) \<Rightarrow> if svc = PFACTORY then Plan_not_removable else No_stage_holds_task
        | None \<Rightarrow> No_stage_holds_task)
     else (let stages = map (\<lambda>svc. (svc, ss_status (wi_stage svc wi)))
             (filter (\<lambda>svc. truthy (ss_task_id (wi_stage svc wi))) [PFACTORY, AIFACTORY, TFACTORY])
           in if stages = [] then No_stage_holds_task else No_stage_in_flight stages))"

section \<open>Execution\<close>

fun nonempty_str :: "json option \<Rightarrow> string option" where
  "nonempty_str (Some (JStr s)) = (if s = [] then None else Some s)"
| "nonempty_str _ = None"

text \<open>\<open>_refusal_in_body\<close>: a body that says \<open>success: false\<close> is a refusal whatever the status.\<close>

definition refusal_in_body :: "json option \<Rightarrow> string option" where
  "refusal_in_body body = (case body of
     Some (JObj d) \<Rightarrow> if dget d ''success'' \<noteq> Some (JBool False) then None
       else (case nonempty_str (dget d ''error'') of Some e \<Rightarrow> Some e
        | None \<Rightarrow> (case nonempty_str (dget d ''detail'') of Some e \<Rightarrow> Some e
        | None \<Rightarrow> (case nonempty_str (dget d ''message'') of Some e \<Rightarrow> Some e
        | None \<Rightarrow> Some ''upstream reported success=false'')))
   | _ \<Rightarrow> None)"

record step_result =
  rs_step :: action_step
  rs_status :: nat
  rs_ok :: bool
  rs_body :: "json option"
  rs_error :: "string option"

definition is_success :: "nat \<Rightarrow> bool" where
  "is_success code = (200 \<le> code \<and> code \<le> 299)"

definition do_step :: "action_step \<Rightarrow> nat \<Rightarrow> json option \<Rightarrow> step_result" where
  "do_step x code body = \<lparr>rs_step = x, rs_status = code, rs_ok = (is_success code \<and> refusal_in_body body = None),
     rs_body = body, rs_error = refusal_in_body body\<rparr>"

text \<open>The steps in order, up to the first that fails; \<open>True\<close> when the transport gave up.\<close>

fun run_steps :: "(action_step \<Rightarrow> http_outcome) \<Rightarrow> action_step list \<Rightarrow> step_result list \<times> bool" where
  "run_steps http [] = ([], False)"
| "run_steps http (x # xs) = (case http x of
     TransportError \<Rightarrow> ([], True)
   | HttpResponse code body \<Rightarrow>
      (let r = do_step x code body in
       if \<not> rs_ok r then ([r], False)
       else (let (rs, lost) = run_steps http xs in (r # rs, lost))))"

datatype action_error = Unsafe_endpoint | Request_failed | Step_refused string

record action_result =
  ar_status :: nat
  ar_ok :: bool
  ar_body :: "json option"
  ar_steps :: "step_result list"
  ar_error :: "action_error option"

text \<open>The base URL of a service always resolves here, since a service is one of the three.\<close>

definition execute_action :: "(service \<Rightarrow> action_step \<Rightarrow> http_outcome) \<Rightarrow> prepared_action \<Rightarrow> action_result" where
  "execute_action http a =
    (if \<not> list_all (\<lambda>x. is_safe_endpoint (st_endpoint x)) (steps_of a)
     then \<lparr>ar_status = 0, ar_ok = False, ar_body = None, ar_steps = [], ar_error = Some Unsafe_endpoint\<rparr>
     else (let (rs, lost) = run_steps (http (pa_service a)) (steps_of a) in
       if lost then \<lparr>ar_status = 0, ar_ok = False, ar_body = None, ar_steps = rs, ar_error = Some Request_failed\<rparr>
       else \<lparr>ar_status = rs_status (last rs), ar_ok = list_all rs_ok rs, ar_body = rs_body (last rs), ar_steps = rs,
              ar_error = (case List.find (\<lambda>r. \<not> rs_ok r) rs of None \<Rightarrow> None | Some r \<Rightarrow> map_option Step_refused (rs_error r))\<rparr>))"

section \<open>Properties\<close>

lemma first_target_Some:
  "first_target p wi svcs = Some (svc, tid) \<Longrightarrow> svc \<in> set svcs \<and> ss_task_id (wi_stage svc wi) = Some tid \<and> tid \<noteq> []
    \<and> p (wi_stage svc wi)"
  by (induction p wi svcs rule: first_target.induct) (auto simp: truthy_iff split: if_splits)

lemma first_target_None:
  "first_target p wi svcs = None \<longleftrightarrow> (\<forall>svc\<in>set svcs. truthy (ss_task_id (wi_stage svc wi)) \<longrightarrow> \<not> p (wi_stage svc wi))"
  by (induction p wi svcs rule: first_target.induct) auto

lemma api_path_safe: "is_safe_endpoint (''/api/'' @ e)"
  by (simp add: is_safe_endpoint_def url_unsafe_def)

lemma endpoints_safe [simp]: "is_safe_endpoint (task_endpoint tid x)" "is_safe_endpoint (session_endpoint tid x)"
  using api_path_safe [of "''tasks/'' @ tid @ x"] api_path_safe [of "''plan/sessions/'' @ tid @ x"]
  by (simp_all add: task_endpoint_def session_endpoint_def)

lemma propose_steps:
  "propose k key note (Some wi) = Some a \<Longrightarrow> list_all valid_step (steps_of a) \<and> pa_kind a = k \<and> pa_key a = key"
  by (cases k) (auto simp: propose_approve_plan_def propose_approve_review_def propose_reject_review_def propose_recover_def
      propose_delete_task_def mk_action_def steps_of_def valid_step_def ALLOWED_METHODS_def split: option.splits if_splits prod.splits)

lemma review_targetD: "review_target wi = Some (svc, tid) \<Longrightarrow> truthy (ss_task_id (wi_stage svc wi)) \<and> \<not> is_terminal (ss_status (wi_stage svc wi))"
  unfolding review_target_def by (drule first_target_Some) (simp add: truthy_iff)

lemma delete_targetD: "delete_target wi = Some (svc, tid) \<Longrightarrow> truthy (ss_task_id (wi_stage svc wi))"
  unfolding delete_target_def by (drule first_target_Some) (simp add: truthy_iff)

lemma propose_stage:
  "propose k key note (Some wi) = Some a \<Longrightarrow> truthy (ss_task_id (wi_stage (pa_service a) wi))
    \<and> (k \<in> {Approve_review, Reject_review, Recover} \<longrightarrow> \<not> is_terminal (ss_status (wi_stage (pa_service a) wi)))"
  by (cases k) (auto simp: propose_approve_plan_def propose_approve_review_def propose_reject_review_def propose_recover_def
      propose_delete_task_def mk_action_def split: option.splits if_splits prod.splits dest: review_targetD delete_targetD)

text \<open>What the tools propose can always be built, and acts on a stage that is there.  Whatever
  the ids an upstream chose, every step of a proposal passes the endpoint guard; an action on
  work in review goes to a stage that holds a task and has not finished.  When there is
  nothing to act on, the reason given is true of the item.\<close>

theorem proposals_sound:
  "(\<forall>a. propose k key note (Some wi) = Some a \<longrightarrow>
      list_all valid_step (steps_of a) \<and> pa_kind a = k \<and> pa_key a = key \<and> truthy (ss_task_id (wi_stage (pa_service a) wi))
      \<and> (k \<in> {Approve_review, Reject_review, Recover} \<longrightarrow> \<not> is_terminal (ss_status (wi_stage (pa_service a) wi))))
    \<and> (propose k key note (Some wi) = None \<and> k \<noteq> Dispatch_card \<longrightarrow> (case nothing_to_act_on k wi of
        No_plan_task \<Rightarrow> \<not> truthy (ss_task_id (wi_pfactory wi))
      | Plan_not_removable \<Rightarrow> truthy (ss_task_id (wi_pfactory wi)) \<and> (\<forall>svc. truthy (ss_task_id (wi_stage svc wi)) \<longrightarrow> svc = PFACTORY)
      | No_stage_holds_task \<Rightarrow> \<forall>svc. \<not> truthy (ss_task_id (wi_stage svc wi))
      | No_stage_in_flight stages \<Rightarrow> \<forall>svc. truthy (ss_task_id (wi_stage svc wi)) \<longrightarrow>
          (svc, ss_status (wi_stage svc wi)) \<in> set stages \<and> is_terminal (ss_status (wi_stage svc wi))))"
proof -
  have all: "(\<forall>svc. P svc) \<longleftrightarrow> P PFACTORY \<and> P AIFACTORY \<and> P TFACTORY" for P by (metis service.exhaust)
  have r: "review_target wi = None \<longleftrightarrow> (\<forall>svc. truthy (ss_task_id (wi_stage svc wi)) \<longrightarrow> is_terminal (ss_status (wi_stage svc wi)))"
    unfolding review_target_def first_target_None all by auto
  have no: "k \<in> {Approve_review, Reject_review, Recover} \<Longrightarrow> propose k key note (Some wi) = None \<Longrightarrow> review_target wi = None"
    by (cases k) (auto simp: propose_approve_review_def propose_reject_review_def propose_recover_def split: option.splits)
  have "case nothing_to_act_on k wi of
        No_plan_task \<Rightarrow> \<not> truthy (ss_task_id (wi_pfactory wi))
      | Plan_not_removable \<Rightarrow> truthy (ss_task_id (wi_pfactory wi)) \<and> (\<forall>svc. truthy (ss_task_id (wi_stage svc wi)) \<longrightarrow> svc = PFACTORY)
      | No_stage_holds_task \<Rightarrow> \<forall>svc. \<not> truthy (ss_task_id (wi_stage svc wi))
      | No_stage_in_flight stages \<Rightarrow> \<forall>svc. truthy (ss_task_id (wi_stage svc wi)) \<longrightarrow>
          (svc, ss_status (wi_stage svc wi)) \<in> set stages \<and> is_terminal (ss_status (wi_stage svc wi))"
    if none: "propose k key note (Some wi) = None" and k: "k \<noteq> Dispatch_card"
  proof -
    consider "k = Approve_plan" | "k = Delete_task" | "k \<in> {Approve_review, Reject_review, Recover}" using k by (cases k) auto
    then show ?thesis
    proof cases
      case 1
      then show ?thesis using none by (simp add: propose_approve_plan_def nothing_to_act_on_def split: if_splits)
    next
      case 2
      then show ?thesis using none
        by (auto simp: all propose_delete_task_def nothing_to_act_on_def delete_target_def split: if_splits)
    next
      case 3
      then show ?thesis using r [THEN iffD1, OF no [OF 3 none]] by (auto simp: all nothing_to_act_on_def Let_def)
    qed
  qed
  then show ?thesis using propose_steps propose_stage by blast
qed

definition ex_item :: "string \<Rightarrow> string \<Rightarrow> work_item" where
  "ex_item tid st = \<lparr>wi_key = ''FCT-1'', wi_title = None, wi_pfactory = empty_state,
     wi_aifactory = empty_state\<lparr>ss_task_id := Some tid, ss_status := Some st\<rparr>, wi_tfactory = empty_state,
     wi_timeline = [], wi_created_at = None, wi_updated_at = None\<rparr>"

theorem proposals_sound_witness:
  "\<exists>a. propose Delete_task ''FCT-1'' None (Some (ex_item ''//evil'' ''failed'')) = Some a \<and> list_all valid_step (steps_of a)"
proof -
  have "\<exists>a. propose Delete_task ''FCT-1'' None (Some (ex_item ''//evil'' ''failed'')) = Some a"
    by (simp add: propose_delete_task_def delete_target_def ex_item_def empty_state_def)
  then show ?thesis using proposals_sound [of Delete_task "''FCT-1''" None "ex_item ''//evil'' ''failed''"] by blast
qed

lemma run_steps_prefix: "run_steps http xs = (rs, lost) \<Longrightarrow> (\<exists>n. map rs_step rs = take n xs)
    \<and> (\<forall>j. Suc j < length rs \<longrightarrow> rs_ok (rs ! j)) \<and> (lost \<longrightarrow> list_all rs_ok rs)
    \<and> (\<not> lost \<and> list_all rs_ok rs \<longleftrightarrow> (\<forall>x\<in>set xs. \<exists>code body. http x = HttpResponse code body \<and> is_success code \<and> refusal_in_body body = None))"
proof (induction xs arbitrary: rs lost)
  case (Cons x xs)
  show ?case
  proof (cases "http x")
    case TransportError
    then show ?thesis using Cons.prems by (auto intro: exI [of _ 0])
  next
    case (HttpResponse code body)
    let ?r = "do_step x code body"
    have step: "rs_step ?r = x" "rs_ok ?r \<longleftrightarrow> is_success code \<and> refusal_in_body body = None" by (simp_all add: do_step_def)
    show ?thesis
    proof (cases "rs_ok ?r")
      case False
      then show ?thesis using Cons.prems HttpResponse step by (auto simp: Let_def intro!: exI [of _ "1::nat"])
    next
      case True
      obtain rs2 lost2 where rest: "run_steps http xs = (rs2, lost2)" by force
      then have rs: "rs = ?r # rs2" "lost = lost2" using Cons.prems HttpResponse True by (simp_all add: Let_def)
      note ih = Cons.IH [OF rest]
      obtain n where n: "map rs_step rs2 = take n xs" using ih by blast
      then have "map rs_step rs = take (Suc n) (x # xs)" using rs step by simp
      moreover have "rs_ok (rs ! j)" if "Suc j < length rs" for j using that ih rs True by (cases j) auto
      moreover have "lost \<longrightarrow> list_all rs_ok rs" using ih rs True by simp
      moreover have "(\<not> lost \<and> list_all rs_ok rs) = (\<forall>x\<in>set (x # xs). \<exists>code body. http x = HttpResponse code body
          \<and> is_success code \<and> refusal_in_body body = None)"
        using ih rs True step HttpResponse by simp
      ultimately show ?thesis by blast
    qed
  qed
qed simp

text \<open>A confirmed action stops at its first failure, and says so.  The steps sent are the first
  ones of the plan, each sent only after the one before it succeeded, so a pull request that
  did not open is never merged; and the action is reported successful exactly when every step
  was answered with a success that its body does not take back.\<close>

theorem chain_stops_at_first_failure:
  "(\<exists>n. map rs_step (ar_steps (execute_action http a)) = take n (steps_of a))
    \<and> (\<forall>j. Suc j < length (ar_steps (execute_action http a)) \<longrightarrow> rs_ok (ar_steps (execute_action http a) ! j))
    \<and> (ar_ok (execute_action http a) \<longleftrightarrow> (\<forall>x\<in>set (steps_of a). is_safe_endpoint (st_endpoint x)
        \<and> (\<exists>code body. http (pa_service a) x = HttpResponse code body \<and> is_success code \<and> refusal_in_body body = None)))"
proof (cases "list_all (\<lambda>x. is_safe_endpoint (st_endpoint x)) (steps_of a)")
  case True
  obtain rs lost where run: "run_steps (http (pa_service a)) (steps_of a) = (rs, lost)" by force
  have "ar_steps (execute_action http a) = rs" "ar_ok (execute_action http a) \<longleftrightarrow> \<not> lost \<and> list_all rs_ok rs"
    using True run by (auto simp: execute_action_def Let_def)
  then show ?thesis using run_steps_prefix [OF run] True by (auto simp: list_all_iff)
next
  case False
  then show ?thesis by (auto simp: execute_action_def list_all_iff)
qed

theorem chain_stops_at_first_failure_witness:
  "\<exists>a. propose Approve_review ''FCT-1'' None (Some (ex_item ''7'' ''human_review'')) = Some a
    \<and> \<not> ar_ok (execute_action (\<lambda>_ _. HttpResponse 200 (Some (JObj [(''success'', JBool False)]))) a)"
proof -
  let ?http = "\<lambda>_ _. HttpResponse 200 (Some (JObj [(''success'', JBool False)]))"
  have "review_target (ex_item ''7'' ''human_review'') = Some (AIFACTORY, ''7'')"
    by (simp add: review_target_def ex_item_def empty_state_def is_terminal_def is_done_def is_failed_def status_matches_def
        status_tokens_def eval_str status_sep_def DONE_TOKENS_def FAILED_TOKENS_def)
  then obtain a where a: "propose Approve_review ''FCT-1'' None (Some (ex_item ''7'' ''human_review'')) = Some a"
    by (simp add: propose_approve_review_def)
  moreover have "refusal_in_body (Some (JObj [(''success'', JBool False)])) \<noteq> None" by (simp add: refusal_in_body_def)
  ultimately show ?thesis using chain_stops_at_first_failure [of ?http a] by (auto simp: steps_of_def)
qed

end
