(* ===== verification/CardIntake.thy ===== *)
theory CardIntake
  imports Cards Gitstore Actions
begin

text \<open>
  The way of a card into the factory and back, \<open>card_intake.py\<close>: the brief and the payload of a
  stage, the rules that refuse one, the dispatch record on the card, the tier-routed promotion,
  the explicit stage action, the sequence, and the write-back of a work item's state.
  \<open>intake_env\<close> holds the git configuration a dispatch resolves and the service's answers.
\<close>

section \<open>The brief\<close>

definition NL :: string where
  "NL = [CHR 0x0A]"

text \<open>The word characters of the Latin-1 block: letters, digits, the superscripts and fractions.\<close>

definition word_char :: "char \<Rightarrow> bool" where
  "word_char c = (let n = (of_char c :: nat) in alnum c \<or> n = 95 \<or> n \<in> {170, 178, 179, 181, 185, 186, 188, 189, 190}
     \<or> (192 \<le> n \<and> n \<noteq> 215 \<and> n \<noteq> 247))"

fun eat :: "string \<Rightarrow> string \<Rightarrow> string option" where
  "eat [] s = Some s"
| "eat (p # ps) [] = None"
| "eat (p # ps) (c # cs) = (if lower_char c = p then eat ps cs else None)"

text \<open>\<open>^#{1,6}\s*acceptance\s+criteria\b\<close>, without case, at the start of some line.\<close>

definition ac_heading_at :: "string \<Rightarrow> bool" where
  "ac_heading_at s = (let h = takeWhile (\<lambda>c. c = CHR ''#'') s in
     1 \<le> length h \<and> length h \<le> 6 \<and>
     (case eat ''acceptance'' (dropWhile isspace (drop (length h) s)) of
        None \<Rightarrow> False
      | Some r \<Rightarrow> r \<noteq> [] \<and> isspace (hd r) \<and>
         (case eat ''criteria'' (dropWhile isspace r) of None \<Rightarrow> False | Some q \<Rightarrow> q = [] \<or> \<not> word_char (hd q))))"

fun has_own_acs :: "bool \<Rightarrow> string \<Rightarrow> bool" where
  "has_own_acs line_start [] = False"
| "has_own_acs line_start (c # cs) = ((line_start \<and> ac_heading_at (c # cs)) \<or> has_own_acs (c = CHR 0x0A) cs)"

definition brief_head :: "card \<Rightarrow> string list" where
  "brief_head c = (let body = strip (or_empty (cd_description c)) in
     (if startswith body ''#'' then [] else (''# '' @ cd_title c) # (if body \<noteq> [] then [[]] else []))
     @ (if body \<noteq> [] then [body] else []))"

definition brief :: "card \<Rightarrow> string" where
  "brief c = join_with NL (brief_head c @
     (if cd_criteria c \<noteq> [] \<and> \<not> has_own_acs True (strip (or_empty (cd_description c)))
      then (if brief_head c \<noteq> [] then [[]] else []) @ [''## Acceptance Criteria'', []] @ map (\<lambda>a. ''- '' @ a) (cd_criteria c)
      else []))"

section \<open>Stages\<close>

definition SEQUENCE :: "stage list" where
  "SEQUENCE = [PLAN, CODE, TEST]"

fun stage_service :: "stage \<Rightarrow> service" where
  "stage_service PLAN = PFACTORY"
| "stage_service CODE = AIFACTORY"
| "stage_service TEST = TFACTORY"

fun stage_for_service :: "service \<Rightarrow> stage" where
  "stage_for_service PFACTORY = PLAN"
| "stage_for_service AIFACTORY = CODE"
| "stage_for_service TFACTORY = TEST"

definition parse_stage :: "string \<Rightarrow> stage option" where
  "parse_stage v = List.find (\<lambda>s. stage_value s = v) SEQUENCE"

definition default_stage :: "card \<Rightarrow> stage" where
  "default_stage c = (if cd_tier c = Some Hard then PLAN else CODE)"

definition stage_status :: "card \<Rightarrow> stage \<Rightarrow> run_status option" where
  "stage_status c s = map_option sr_status (dget (cd_stage_runs c) s)"

definition pending_stages :: "card \<Rightarrow> stage list" where
  "pending_stages c = filter (\<lambda>s. stage_status c s = Some QUEUED \<or> stage_status c s = Some DISPATCHED) SEQUENCE"

section \<open>Targets\<close>

datatype intake_error = Git_failed git_error | Store_failed_update card_error | Bad_issue_number

definition before_last :: "char \<Rightarrow> string \<Rightarrow> string" where
  "before_last ch s = rev (drop 1 (dropWhile (\<lambda>x. x \<noteq> ch) (rev s)))"

definition after_last :: "char \<Rightarrow> string \<Rightarrow> string" where
  "after_last ch s = rev (takeWhile (\<lambda>x. x \<noteq> ch) (rev s))"

definition issue_project :: "string option \<Rightarrow> string option" where
  "issue_project ref = (case ref of None \<Rightarrow> None
     | Some r \<Rightarrow> if CHR ''#'' \<in> set r then blank_none (before_last (CHR ''#'') r) else None)"

record intake_env =
  en_git :: git_settings
  en_credentials :: "string option"
  en_db :: git_db
  en_repr :: "json \<Rightarrow> string"
  en_http :: "service \<Rightarrow> action_step \<Rightarrow> http_outcome"

definition git_target_for_card :: "intake_env \<Rightarrow> string option \<Rightarrow> card \<Rightarrow> intake_error + git_target" where
  "git_target_for_card env scope c = lift_err Git_failed
     (git_target_for (tenant_of scope) (en_git env) (en_credentials env) (cd_repository_id c) (issue_project (cd_issue_ref c)) (en_db env))"

text \<open>\<open>urlsplit(url).netloc\<close> of a URL whose brackets, if any, are balanced.\<close>

definition url_rest :: "string \<Rightarrow> string" where
  "url_rest url = (let u = filter (\<lambda>c. \<not> url_unsafe c) (dropWhile (\<lambda>c. (of_char c :: nat) \<le> 32) url);
       scheme = before_char (CHR '':'') u
     in if CHR '':'' \<in> set u \<and> scheme \<noteq> [] \<and> alnum (hd scheme) \<and> \<not> ascii_digit (hd scheme)
           \<and> list_all (\<lambda>c. alnum c \<or> c \<in> set ''+-.'') scheme
        then after_char (CHR '':'') u else u)"

definition url_netloc :: "string \<Rightarrow> string" where
  "url_netloc url = (let r = url_rest url in
     if startswith r ''//'' then takeWhile (\<lambda>c. c \<notin> set ''/?#'') (drop 2 r) else [])"

definition clone_url :: "string option \<Rightarrow> string option \<Rightarrow> string option \<Rightarrow> string option" where
  "clone_url provider base_url project =
    (if \<not> truthy project then None
     else let kind = lower (strip (if truthy provider then the provider else GITHUB));
              netloc = url_netloc (strip (or_empty base_url));
              host = (if kind = GITHUB then (if netloc \<noteq> [] \<and> netloc \<noteq> ''api.github.com'' then Some netloc else Some ''github.com'')
                      else if netloc \<noteq> [] then Some netloc else None)
          in map_option (\<lambda>h. ''https://'' @ h @ ''/'' @ strip_by (\<lambda>c. c = CHR ''/'') (the project) @ ''.git'') host)"

section \<open>The payload of a stage\<close>

fun tier_text :: "card_tier option \<Rightarrow> string" where
  "tier_text None = ''None''"
| "tier_text (Some Low) = ''low''"
| "tier_text (Some Medium) = ''medium''"
| "tier_text (Some Hard) = ''hard''"

definition issue_number_payload :: "string option \<Rightarrow> intake_error + jobj" where
  "issue_number_payload ref =
    (if \<not> truthy ref \<or> CHR ''#'' \<notin> set (the ref) then Inr []
     else let tail = strip (after_last (CHR ''#'') (the ref)) in
       if isdigit tail then (case py_int tail of None \<Rightarrow> Inl Bad_issue_number | Some n \<Rightarrow> Inr [(''number'', JInt (int n))])
       else Inr [])"

definition opt_entry :: "string \<Rightarrow> string option \<Rightarrow> jobj" where
  "opt_entry k v = (if truthy v then [(k, JStr (the v))] else [])"

definition dispatch_action :: "card \<Rightarrow> service \<Rightarrow> string \<Rightarrow> jobj \<Rightarrow> prepared_action" where
  "dispatch_action c svc e p = mk_action Dispatch_card (cd_key c) svc ''POST'' e p []"

definition prepare_stage ::
  "card \<Rightarrow> stage \<Rightarrow> string option \<Rightarrow> string option \<Rightarrow> string option \<Rightarrow> intake_error + prepared_action option" where
  "prepare_stage c stage project_id repo git_url =
    (if stage = PLAN then Inr (Some (dispatch_action c PFACTORY ''/api/plan/sessions/ingest-text''
       ([(''title'', JStr (cd_title c)), (''category'', JStr ''software''), (''channel'', JStr ''cfactory''),
         (''text'', JStr (brief c))] @ opt_entry ''repo'' repo)))
     else if \<not> truthy project_id then Inr None
     else if stage = TEST then Inr (Some (dispatch_action c TFACTORY ''/api/specs/ingest''
       ([(''project_id'', JStr (the project_id)), (''spec_id'', JStr (cd_key c)), (''spec_text'', JStr (brief c))]
        @ opt_entry ''git_url'' git_url @ opt_entry ''repo'' repo)))
     else res_bind (issue_number_payload (cd_issue_ref c)) (\<lambda>number. Inr (Some (dispatch_action c AIFACTORY ''/api/tasks/from-issue''
       ([(''project_id'', JStr (the project_id)),
         (''payload'', JObj ([(''title'', JStr (cd_title c)), (''body'', JStr (brief c)),
            (''labels'', JArr [JStr (''factory:'' @ tier_text (cd_tier c))])] @ number)),
         (''auto_continue'', JBool True)] @ opt_entry ''repo'' repo)))))"

definition prepare_dispatch :: "card \<Rightarrow> string option \<Rightarrow> string option \<Rightarrow> intake_error + prepared_action option" where
  "prepare_dispatch c project_id repo = prepare_stage c (default_stage c) project_id repo None"

section \<open>Refusals and warnings\<close>

datatype refusal = No_tier | Stage_already_running stage | No_build_to_verify | No_intake_project stage

fun refusal_code :: "refusal \<Rightarrow> string" where
  "refusal_code No_tier = ''no_tier''"
| "refusal_code (Stage_already_running s) = ''stage_already_running''"
| "refusal_code No_build_to_verify = ''no_build_to_verify''"
| "refusal_code (No_intake_project s) = ''no_intake_project''"

definition refuse_reason :: "card \<Rightarrow> stage \<Rightarrow> string option \<Rightarrow> refusal option" where
  "refuse_reason c stage project_id =
    (if cd_tier c = None then Some No_tier
     else if stage_status c stage = Some DISPATCHED then Some (Stage_already_running stage)
     else if stage = TEST \<and> (\<not> truthy (cd_correlation_key c) \<or> stage_status c CODE \<noteq> Some DONE) then Some No_build_to_verify
     else if stage \<noteq> PLAN \<and> \<not> truthy project_id then Some (No_intake_project stage)
     else None)"

datatype stage_warning = Plan_skipped | Tier_override stage stage

definition stage_warnings :: "card \<Rightarrow> stage \<Rightarrow> stage_warning list" where
  "stage_warnings c stage =
    (if stage = CODE \<and> cd_tier c = Some Hard \<and> stage_status c PLAN \<noteq> Some DONE then [Plan_skipped] else [])
    @ (if stage \<noteq> default_stage c \<and> stage \<noteq> TEST then [Tier_override (default_stage c) stage] else [])"

section \<open>The dispatch record\<close>

text \<open>The dictionaries merged into a stage's record: a failure, a dispatch with what the service
  answered, a place in the queue, and the terminal state of the work item.\<close>

datatype run_patch =
    Patch_failed service string
  | Patch_dispatched service int "string option"
  | Patch_queued service
  | Patch_settled run_status string

fun patch_record :: "run_patch \<Rightarrow> stage_run \<Rightarrow> stage_run" where
  "patch_record (Patch_failed svc d) r = r\<lparr>sr_service := svc, sr_status := FAILED, sr_detail := Some d\<rparr>"
| "patch_record (Patch_dispatched svc now ref) r =
     r\<lparr>sr_service := svc, sr_status := DISPATCHED, sr_dispatched_at := Some now, sr_ref := ref, sr_detail := None\<rparr>"
| "patch_record (Patch_queued svc) r = r\<lparr>sr_service := svc, sr_status := QUEUED, sr_detail := None\<rparr>"
| "patch_record (Patch_settled rs d) r = r\<lparr>sr_status := rs, sr_detail := Some d\<rparr>"

definition patch_run :: "run_patch \<Rightarrow> stage \<Rightarrow> stage_run option \<Rightarrow> stage_run" where
  "patch_run p st r = patch_record p (case r of Some x \<Rightarrow> x | None \<Rightarrow>
     \<lparr>sr_service = stage_service st, sr_status = QUEUED, sr_dispatched_at = None, sr_ref = None, sr_detail = None\<rparr>)"

fun patch_runs :: "(stage \<times> run_patch) list \<Rightarrow> (stage, stage_run) dict \<Rightarrow> (stage, stage_run) dict" where
  "patch_runs [] d = d"
| "patch_runs ((st, p) # ps) d = patch_runs ps (dset st (patch_run p st (dget d st)) d)"

text \<open>\<open>store.update(key, changes) or card\<close>.\<close>

definition update_or ::
  "string option \<Rightarrow> int \<Rightarrow> card \<Rightarrow> card_field list \<Rightarrow> card_store \<Rightarrow> (intake_error + card) \<times> card_store" where
  "update_or scope now c fs s = (case update_card scope (cd_key c) fs now s of
     Inl e \<Rightarrow> (Inl (Store_failed_update e), s)
   | Inr (None, s') \<Rightarrow> (Inr c, s')
   | Inr (Some c', s') \<Rightarrow> (Inr c', s'))"

definition write_runs ::
  "string option \<Rightarrow> int \<Rightarrow> card \<Rightarrow> (stage \<times> run_patch) list \<Rightarrow> card_field list \<Rightarrow> card_store
    \<Rightarrow> (intake_error + card) \<times> card_store" where
  "write_runs scope now c ps fs s = update_or scope now c (F_stage_runs (patch_runs ps (cd_stage_runs c)) # fs) s"

section \<open>Dispatch\<close>

datatype dispatch_outcome =
    Already_dispatched
  | Stage_complete
  | Sequence_complete
  | Refused refusal
  | No_project
  | Send_failed nat
  | Sent string

record dispatch_result =
  dr_outcome :: dispatch_outcome
  dr_stage :: "stage option"
  dr_warnings :: "stage_warning list"
  dr_sequence :: "stage list"
  dr_status :: nat
  dr_key :: "string option"

definition outcome :: "dispatch_outcome \<Rightarrow> stage option \<Rightarrow> dispatch_result" where
  "outcome x st = \<lparr>dr_outcome = x, dr_stage = st, dr_warnings = [], dr_sequence = [], dr_status = 0, dr_key = None\<rparr>"

fun dr_ok :: "dispatch_outcome \<Rightarrow> bool" where
  "dr_ok Already_dispatched = True" | "dr_ok Stage_complete = True" | "dr_ok Sequence_complete = True"
| "dr_ok (Refused r) = False" | "dr_ok No_project = False" | "dr_ok (Send_failed n) = False" | "dr_ok (Sent k) = True"

fun first_truthy :: "jobj \<Rightarrow> string list \<Rightarrow> json option" where
  "first_truthy d [] = None"
| "first_truthy d (k # ks) = (case dget d k of Some v \<Rightarrow> if jtruthy v then Some v else first_truthy d ks
     | None \<Rightarrow> first_truthy d ks)"

definition upstream_key :: "(json \<Rightarrow> string) \<Rightarrow> json option \<Rightarrow> service \<Rightarrow> string option" where
  "upstream_key repr body svc = (case body of
     Some (JObj d) \<Rightarrow>
       (if svc = AIFACTORY \<and> first_truthy d [''correlation_key''] = None \<and> first_truthy d [''spec_id''] \<noteq> None
        then Some (''af-'' @ json_str repr (the (dget d ''spec_id'')))
        else map_option (json_str repr) (first_truthy d [''correlation_key'', ''task_id'', ''session_id'', ''id'', ''spec_id'']))
   | _ \<Rightarrow> None)"

definition send ::
  "intake_env \<Rightarrow> string option \<Rightarrow> int \<Rightarrow> card \<Rightarrow> prepared_action \<Rightarrow> card_store
    \<Rightarrow> (intake_error + dispatch_result) \<times> card_store" where
  "send env scope now c a s =
    (let stage = stage_for_service (pa_service a); r = execute_action (en_http env) a in
     if \<not> ar_ok r then
       (case write_runs scope now c [(stage, Patch_failed (pa_service a) (''dispatch failed: HTTP '' @ digits_of_nat (ar_status r)))]
           [F_status (Some Blocked)] s of
          (Inl e, s') \<Rightarrow> (Inl e, s')
        | (Inr _, s') \<Rightarrow> (Inr ((outcome (Send_failed (ar_status r)) (Some stage))\<lparr>dr_status := ar_status r\<rparr>), s'))
     else
       (let ref = upstream_key (en_repr env) (ar_body r) (pa_service a);
            key = the (py_or (cd_correlation_key c) (py_or ref (Some (cd_key c))))
        in case write_runs scope now c [(stage, Patch_dispatched (pa_service a) now ref)]
             [F_correlation_key (Some key), F_status (Some In_progress)] s of
            (Inl e, s') \<Rightarrow> (Inl e, s')
          | (Inr _, s') \<Rightarrow> (Inr ((outcome (Sent key) (Some stage))\<lparr>dr_status := ar_status r, dr_key := Some key\<rparr>), s')))"

definition dispatch_card ::
  "intake_env \<Rightarrow> string option \<Rightarrow> int \<Rightarrow> card \<Rightarrow> card_store \<Rightarrow> (intake_error + dispatch_result) \<times> card_store" where
  "dispatch_card env scope now c s =
    (let stage = default_stage c in
     if stage_status c stage = Some DISPATCHED \<or> stage_status c stage = Some DONE
     then (Inr ((outcome Already_dispatched (Some stage))\<lparr>dr_key := cd_correlation_key c\<rparr>), s)
     else (case res_bind (git_target_for_card env scope c) (\<lambda>g.
             prepare_dispatch c (gt_aifactory_project_id g) (qualify_repo (Some (gt_provider g)) (gt_project g))) of
        Inl e \<Rightarrow> (Inl e, s)
      | Inr None \<Rightarrow> (case update_or scope now c [F_status (Some Blocked)] s of
          (Inl e, s') \<Rightarrow> (Inl e, s') | (Inr _, s') \<Rightarrow> (Inr (outcome No_project None), s'))
      | Inr (Some a) \<Rightarrow> send env scope now c a s))"

definition maybe_dispatch ::
  "intake_env \<Rightarrow> string option \<Rightarrow> int \<Rightarrow> card \<Rightarrow> card_store \<Rightarrow> (intake_error + dispatch_result option) \<times> card_store" where
  "maybe_dispatch env scope now c s =
    (if cd_status c \<noteq> Ready \<or> cd_tier c = None then (Inr None, s)
     else (case dispatch_card env scope now c s of (Inl e, s') \<Rightarrow> (Inl e, s') | (Inr r, s') \<Rightarrow> (Inr (Some r), s')))"

definition dispatch_stage ::
  "intake_env \<Rightarrow> string option \<Rightarrow> int \<Rightarrow> card \<Rightarrow> stage \<Rightarrow> card_store \<Rightarrow> (intake_error + dispatch_result) \<times> card_store" where
  "dispatch_stage env scope now c stage s =
    (if stage_status c stage = Some DONE then (Inr ((outcome Stage_complete (Some stage))\<lparr>dr_key := cd_correlation_key c\<rparr>), s)
     else (case git_target_for_card env scope c of
        Inl e \<Rightarrow> (Inl e, s)
      | Inr g \<Rightarrow>
         (case refuse_reason c stage (gt_aifactory_project_id g) of
            Some r \<Rightarrow> (Inr (outcome (Refused r) (Some stage)), s)
          | None \<Rightarrow>
             (case prepare_stage c stage (gt_aifactory_project_id g) (qualify_repo (Some (gt_provider g)) (gt_project g))
                 (clone_url (Some (gt_provider g)) (Some (gt_base_url g)) (gt_project g)) of
                Inl e \<Rightarrow> (Inl e, s)
              | Inr None \<Rightarrow> (Inr (outcome (Refused (No_intake_project stage)) (Some stage)), s)
              | Inr (Some a) \<Rightarrow> (case send env scope now c a s of
                  (Inl e, s') \<Rightarrow> (Inl e, s') | (Inr r, s') \<Rightarrow> (Inr (r\<lparr>dr_warnings := stage_warnings c stage\<rparr>), s'))))))"

definition start_sequence ::
  "intake_env \<Rightarrow> string option \<Rightarrow> int \<Rightarrow> card \<Rightarrow> card_store \<Rightarrow> (intake_error + dispatch_result) \<times> card_store" where
  "start_sequence env scope now c s =
    (if cd_tier c = None then (Inr (outcome (Refused No_tier) (Some PLAN)), s)
     else (case List.find (\<lambda>st. stage_status c st = Some DISPATCHED) SEQUENCE of
        Some live \<Rightarrow> (Inr (outcome (Refused (Stage_already_running live)) (Some live)), s)
      | None \<Rightarrow>
         (case filter (\<lambda>st. stage_status c st \<noteq> Some DONE) SEQUENCE of
            [] \<Rightarrow> (Inr (outcome Sequence_complete None), s)
          | st # todo \<Rightarrow>
             (case write_runs scope now c (map (\<lambda>x. (x, Patch_queued (stage_service x))) (st # todo)) [] s of
                (Inl e, s') \<Rightarrow> (Inl e, s')
              | (Inr c', s') \<Rightarrow> (case dispatch_stage env scope now c' st s' of
                  (Inl e, s'') \<Rightarrow> (Inl e, s'')
                | (Inr r, s'') \<Rightarrow> (Inr (r\<lparr>dr_sequence := st # todo\<rparr>), s''))))))"

section \<open>Write-back\<close>

definition settled_patches :: "card \<Rightarrow> work_item \<Rightarrow> (stage \<times> run_patch) list" where
  "settled_patches c item = concat (map (\<lambda>st.
     let status = ss_status (wi_stage (stage_service st) item) in
     if stage_status c st \<noteq> Some DISPATCHED \<or> \<not> truthy status then []
     else if is_failure_or_stuck status then [(st, Patch_settled FAILED (the status))]
     else if is_done status then [(st, Patch_settled DONE (the status))]
     else []) SEQUENCE)"

definition settle ::
  "string option \<Rightarrow> int \<Rightarrow> card \<Rightarrow> work_item \<Rightarrow> card_store \<Rightarrow> (intake_error + card) \<times> card_store" where
  "settle scope now c item s =
    (if settled_patches c item = [] then (Inr c, s) else write_runs scope now c (settled_patches c item) [] s)"

definition advance ::
  "intake_env \<Rightarrow> string option \<Rightarrow> int \<Rightarrow> card \<Rightarrow> card_store
    \<Rightarrow> (intake_error + card) \<times> dispatch_result option \<times> card_store" where
  "advance env scope now c s =
    (if list_ex (\<lambda>st. stage_status c st = Some DISPATCHED) SEQUENCE then (Inr c, None, s)
     else if list_ex (\<lambda>st. stage_status c st = Some FAILED) SEQUENCE
     then (let (r, s') = update_or scope now c [F_status (Some Blocked)] s in (r, None, s'))
     else (case List.find (\<lambda>st. stage_status c st = Some QUEUED) SEQUENCE of
        None \<Rightarrow> (Inr c, None, s)
      | Some nxt \<Rightarrow> (case dispatch_stage env scope now c nxt s of
          (Inl e, s') \<Rightarrow> (Inl e, None, s')
        | (Inr r, s') \<Rightarrow> (Inr (case get_card scope (cd_key c) s' of None \<Rightarrow> c | Some c' \<Rightarrow> c'), Some r, s'))))"

fun status_of_slices :: "work_item \<Rightarrow> bool \<Rightarrow> service list \<Rightarrow> card_status option" where
  "status_of_slices item remaining [] = None"
| "status_of_slices item remaining (svc # svcs) =
     (let status = ss_status (wi_stage svc item) in
      if \<not> truthy status then status_of_slices item remaining svcs
      else if is_failure_or_stuck status then Some Blocked
      else if is_done status then Some (if remaining \<or> svc = PFACTORY then In_progress else Card_done)
      else Some In_progress)"

definition card_status_for :: "work_item \<Rightarrow> bool \<Rightarrow> card_status option" where
  "card_status_for item remaining = status_of_slices item remaining [TFACTORY, AIFACTORY, PFACTORY]"

text \<open>The last step of a write-back: the column the work item's state means, if it is another.\<close>

definition show_status ::
  "string option \<Rightarrow> int \<Rightarrow> work_item \<Rightarrow> card \<Rightarrow> card \<Rightarrow> card_store \<Rightarrow> (intake_error + card option) \<times> card_store" where
  "show_status scope now item c c2 s = (case card_status_for item (pending_stages c2 \<noteq> []) of
     None \<Rightarrow> (Inr (if c2 \<noteq> c then Some c2 else None), s)
   | Some st \<Rightarrow>
      (if st = cd_status c2 then (Inr (if c2 \<noteq> c then Some c2 else None), s)
       else (case update_card scope (cd_key c) [F_status (Some st)] now s of
          Inl e \<Rightarrow> (Inl (Store_failed_update e), s)
        | Inr (c3, s') \<Rightarrow> (Inr c3, s'))))"

definition apply_status ::
  "intake_env \<Rightarrow> string option \<Rightarrow> int \<Rightarrow> work_item \<Rightarrow> card_store
    \<Rightarrow> (intake_error + card option) \<times> dispatch_result option \<times> card_store" where
  "apply_status env scope now item s = (case get_by_correlation_key scope (wi_key item) s of
     None \<Rightarrow> (Inr None, None, s)
   | Some c \<Rightarrow>
      (case settle scope now c item s of
         (Inl e, s1) \<Rightarrow> (Inl e, None, s1)
       | (Inr c1, s1) \<Rightarrow>
          (case advance env scope now c1 s1 of
             (Inl e, d, s2) \<Rightarrow> (Inl e, d, s2)
           | (Inr c2, d, s2) \<Rightarrow> (let (r, s3) = show_status scope now item c c2 s2 in (r, d, s3)))))"

end
