(* ===== verification/IntakeSafety.thy ===== *)
theory IntakeSafety
  imports CardIntake CardSafety
begin

text \<open>
  What a dispatch may do to a card, whatever the service answers: a stage goes out only when it
  is allowed, a completed stage and a correlation key are final, a verification needs a
  completed build, and a sequence that is answered runs to its end.
\<close>

section \<open>Rows an intake operation writes\<close>

fun intake_field :: "card_field \<Rightarrow> bool" where
  "intake_field (F_stage_runs _) = True"
| "intake_field (F_status (Some _)) = True"
| "intake_field (F_correlation_key _) = True"
| "intake_field _ = False"

lemma intake_field_sound: "intake_field f \<Longrightarrow> \<not> null_violation f \<and> f \<noteq> F_criteria None \<and> cd_issue_ref (set_field f c) = cd_issue_ref c"
  by (cases f rule: intake_field.cases) auto

lemma intake_fields_sound:
  assumes "list_all intake_field fs"
  shows "\<not> list_ex null_violation fs \<and> F_criteria None \<notin> set fs \<and> cd_issue_ref (fold set_field fs c) = cd_issue_ref c"
  using assms by (induction fs arbitrary: c) (auto simp: intake_field_sound)

definition changed :: "card_field list \<Rightarrow> int \<Rightarrow> card \<Rightarrow> card" where
  "changed fs now c = (fold set_field fs c)\<lparr>cd_updated_at := now\<rparr>"

lemma put_card_ok:
  assumes "cards_ok s" "get_card (Some t) k s = Some c" "card_key_of c' = card_key_of c" "issue_key_of c' = issue_key_of c"
  shows "cards_ok (put_card c c' s)"
proof -
  have "\<not> key_used issue_key_of c' (filter (\<lambda>d. card_key_of d \<noteq> card_key_of c) (cs_cards s))"
    using assms get_card_Some [OF assms(2)] by (intro keys_unique_others) (auto simp: cards_ok_def)
  then have "card_step_ok (Some t) s (put_card c c' s)" unfolding put_card_def
    using assms(3) by (intro change_card_ok [OF assms(2)]) (auto simp: card_key_of_def same_card_key)
  then show ?thesis using assms(1) by (simp add: card_step_ok_def)
qed

lemma get_put_card:
  assumes "cards_ok s" "get_card (Some t) k s = Some c" "card_key_of c' = card_key_of c" "issue_key_of c' = issue_key_of c"
    "cd_deleted_at c' = None"
  shows "get_card (Some t) k (put_card c c' s) = Some c'"
proof -
  note c = assms(2) [unfolded got_iff [OF assms(1)]]
  show ?thesis using c assms(3,5) in_put_card [OF assms(1), of c c' c'] by (simp add: got_iff [OF put_card_ok [OF assms(1-4)]])
qed

lemma update_or_eq:
  assumes ok: "cards_ok s" and got: "get_card (Some t) (cd_key c) s = Some c" and fs: "list_all intake_field fs"
  shows "update_or (Some t) now c fs s = (Inr (changed fs now c), put_card c (changed fs now c) s)"
proof -
  have "cd_tenant c = t" "c \<in> set (cs_cards s)" "cd_deleted_at c = None" using got [unfolded got_iff [OF ok]] by (auto simp: card_key_of_def)
  then show ?thesis using update_card_puts [OF ok _ _ _, of c t fs now] intake_fields_sound [OF fs, of c]
    by (simp add: update_or_def changed_def)
qed

lemma changed_keys:
  assumes "list_all intake_field fs"
  shows "card_key_of (changed fs now c) = card_key_of c" "issue_key_of (changed fs now c) = issue_key_of c"
    "cd_deleted_at (changed fs now c) = cd_deleted_at c" "cd_key (changed fs now c) = cd_key c"
  using intake_fields_sound [OF assms, of c] by (simp_all add: changed_def card_key_of_def issue_key_of_def)

text \<open>What one write of the intake may do to a card's record.\<close>

definition test_after_code :: "card \<Rightarrow> bool" where
  "test_after_code c = (stage_status c TEST \<in> {Some DISPATCHED, Some DONE, Some FAILED} \<longrightarrow> stage_status c CODE = Some DONE)"

definition intake_row :: "card \<Rightarrow> card \<Rightarrow> bool" where
  "intake_row c c' = (card_key_of c' = card_key_of c \<and> issue_key_of c' = issue_key_of c \<and> cd_deleted_at c' = cd_deleted_at c
     \<and> cd_title c' = cd_title c \<and> cd_description c' = cd_description c \<and> cd_criteria c' = cd_criteria c
     \<and> cd_priority c' = cd_priority c \<and> cd_tier c' = cd_tier c \<and> cd_repository_id c' = cd_repository_id c
     \<and> (truthy (cd_correlation_key c) \<longrightarrow> cd_correlation_key c' = cd_correlation_key c)
     \<and> (\<forall>st. stage_status c st = Some DONE \<longrightarrow> stage_status c' st = Some DONE)
     \<and> (test_after_code c \<longrightarrow> test_after_code c'))"

lemma intake_row_refl [simp]: "intake_row c c"
  by (simp add: intake_row_def)

lemma intake_row_trans: "intake_row a b \<Longrightarrow> intake_row b c \<Longrightarrow> intake_row a c"
  by (auto simp: intake_row_def)

text \<open>The store after an operation on one card: that card's row changed so, all others as they were.\<close>

definition row_moved :: "string \<Rightarrow> string \<Rightarrow> card_store \<Rightarrow> card_store \<Rightarrow> bool" where
  "row_moved t k s s' = (\<exists>c c'. get_card (Some t) k s = Some c \<and> get_card (Some t) k s' = Some c' \<and> intake_row c c'
     \<and> cards_ok s' \<and> cs_comments s' = cs_comments s \<and> cs_imports s' = cs_imports s
     \<and> (\<forall>x. x \<in> set (cs_cards s') \<longleftrightarrow> x = c' \<or> (x \<in> set (cs_cards s) \<and> x \<noteq> c)))"

lemma row_moved_refl: "cards_ok s \<Longrightarrow> get_card (Some t) k s = Some c \<Longrightarrow> row_moved t k s s"
  unfolding row_moved_def by (intro exI [of _ c]) (auto simp: got_iff)

lemma row_moved_put:
  assumes "cards_ok s" "get_card (Some t) k s = Some c" "intake_row c c'"
  shows "row_moved t k s (put_card c c' s)"
proof -
  have k: "card_key_of c' = card_key_of c" "issue_key_of c' = issue_key_of c" and d: "cd_deleted_at c' = None"
    using assms(3) assms(2) [unfolded got_iff [OF assms(1)]] by (auto simp: intake_row_def)
  show ?thesis unfolding row_moved_def
    using assms put_card_ok [OF assms(1,2) k] get_put_card [OF assms(1,2) k d] in_put_card [OF assms(1)] got_iff [OF assms(1)]
    by (intro exI [of _ c] exI [of _ c']) (auto simp: put_card_def)
qed

lemma row_moved_trans:
  assumes "row_moved t k s s1" "row_moved t k s1 s2" "cards_ok s" shows "row_moved t k s s2"
proof -
  obtain c c1 where 1: "get_card (Some t) k s = Some c" "get_card (Some t) k s1 = Some c1" "intake_row c c1" "cards_ok s1"
    "cs_comments s1 = cs_comments s" "cs_imports s1 = cs_imports s"
    "\<And>x. x \<in> set (cs_cards s1) \<longleftrightarrow> x = c1 \<or> (x \<in> set (cs_cards s) \<and> x \<noteq> c)"
    using assms(1) unfolding row_moved_def by blast
  obtain c2 where 2: "get_card (Some t) k s2 = Some c2" "intake_row c1 c2" "cards_ok s2"
    "cs_comments s2 = cs_comments s1" "cs_imports s2 = cs_imports s1"
    "\<And>x. x \<in> set (cs_cards s2) \<longleftrightarrow> x = c2 \<or> (x \<in> set (cs_cards s1) \<and> x \<noteq> c1)"
    using assms(2) 1(2) unfolding row_moved_def by auto
  have "c1 \<notin> set (cs_cards s) \<or> c1 = c"
  proof (rule ccontr)
    assume "\<not> ?thesis"
    moreover have "card_key_of c1 = card_key_of c" using 1(3) by (simp add: intake_row_def)
    ultimately show False
      using cards_ok_same [OF assms(3), of c c1] 1(1) [unfolded got_iff [OF assms(3)]] by (auto simp: same_card_key)
  qed
  then show ?thesis unfolding row_moved_def
    using 1 2 intake_row_trans by (intro exI [of _ c] exI [of _ c2]) auto
qed

section \<open>What each operation does\<close>

definition patch_status :: "run_patch \<Rightarrow> run_status" where
  "patch_status p = sr_status (patch_run p PLAN None)"

lemma patch_status_simps [simp]: "patch_status (Patch_failed svc d) = FAILED" "patch_status (Patch_dispatched svc now ref) = DISPATCHED"
    "patch_status (Patch_queued svc) = QUEUED" "patch_status (Patch_settled rs d) = rs"
  by (simp_all add: patch_status_def patch_run_def)

lemma sr_status_patch [simp]: "sr_status (patch_run p st r) = patch_status p"
  by (cases p) (simp_all add: patch_run_def patch_status_def)

fun last_patch :: "(stage \<times> run_patch) list \<Rightarrow> stage \<Rightarrow> run_patch option" where
  "last_patch [] st = None"
| "last_patch ((s, p) # ps) st = (case last_patch ps st of Some q \<Rightarrow> Some q | None \<Rightarrow> if s = st then Some p else None)"

lemma status_patch_runs: "map_option sr_status (dget (patch_runs ps d) st) =
    (case last_patch ps st of None \<Rightarrow> map_option sr_status (dget d st) | Some p \<Rightarrow> Some (patch_status p))"
  by (induction ps d rule: patch_runs.induct) (auto split: option.splits)

lemma fold_no_runs:
  "list_all (\<lambda>f. case f of F_stage_runs _ \<Rightarrow> False | _ \<Rightarrow> True) fs \<Longrightarrow> cd_stage_runs (fold set_field fs x) = cd_stage_runs x"
proof (induction fs arbitrary: x)
  case (Cons f fs)
  then show ?case by (cases f) (auto split: option.splits)
qed simp

lemma stage_status_changed:
  assumes "list_all (\<lambda>f. case f of F_stage_runs _ \<Rightarrow> False | _ \<Rightarrow> True) fs"
  shows "stage_status (changed (F_stage_runs (patch_runs ps (cd_stage_runs c)) # fs) now c) st =
    (case last_patch ps st of None \<Rightarrow> stage_status c st | Some p \<Rightarrow> Some (patch_status p))"
  using fold_no_runs [OF assms, of "c\<lparr>cd_stage_runs := patch_runs ps (cd_stage_runs c)\<rparr>"] status_patch_runs [of ps "cd_stage_runs c" st]
  by (cases "last_patch ps st") (simp_all add: changed_def stage_status_def)

definition send_fields :: "intake_env \<Rightarrow> int \<Rightarrow> card \<Rightarrow> prepared_action \<Rightarrow> card_field list" where
  "send_fields env now c a = (let stage = stage_for_service (pa_service a); r = execute_action (en_http env) a in
     if \<not> ar_ok r
     then [F_stage_runs (patch_runs [(stage, Patch_failed (pa_service a) (''dispatch failed: HTTP '' @ digits_of_nat (ar_status r)))] (cd_stage_runs c)),
           F_status (Some Blocked)]
     else (let ref = upstream_key (en_repr env) (ar_body r) (pa_service a) in
       [F_stage_runs (patch_runs [(stage, Patch_dispatched (pa_service a) now ref)] (cd_stage_runs c)),
        F_correlation_key (Some (the (py_or (cd_correlation_key c) (py_or ref (Some (cd_key c)))))), F_status (Some In_progress)]))"

definition send_outcome :: "intake_env \<Rightarrow> card \<Rightarrow> prepared_action \<Rightarrow> dispatch_outcome" where
  "send_outcome env c a = (let r = execute_action (en_http env) a in
     if \<not> ar_ok r then Send_failed (ar_status r)
     else Sent (the (py_or (cd_correlation_key c) (py_or (upstream_key (en_repr env) (ar_body r) (pa_service a)) (Some (cd_key c))))))"

definition send_result :: "intake_env \<Rightarrow> card \<Rightarrow> prepared_action \<Rightarrow> stage \<Rightarrow> dispatch_result" where
  "send_result env c a stage = (outcome (send_outcome env c a) (Some stage))\<lparr>dr_status := ar_status (execute_action (en_http env) a),
     dr_key := (case send_outcome env c a of Sent k \<Rightarrow> Some k | _ \<Rightarrow> None)\<rparr>"

lemma send_result_outcome [simp]: "dr_outcome (send_result env c a stage) = send_outcome env c a"
  by (simp add: send_result_def outcome_def)

lemma send_fields_intake: "list_all intake_field (send_fields env now c a)"
  by (simp add: send_fields_def Let_def)

lemma send_eq:
  assumes "cards_ok s" "get_card (Some t) (cd_key c) s = Some c"
  shows "send env (Some t) now c a s = (Inr (send_result env c a (stage_for_service (pa_service a))),
    put_card c (changed (send_fields env now c a) now c) s)"
proof -
  have run: "write_runs (Some t) now c ps fs s = (Inr (changed (F_stage_runs (patch_runs ps (cd_stage_runs c)) # fs) now c),
      put_card c (changed (F_stage_runs (patch_runs ps (cd_stage_runs c)) # fs) now c) s)" if "list_all intake_field fs" for ps fs
    unfolding write_runs_def using that by (intro update_or_eq [OF assms]) simp
  show ?thesis
    by (simp add: send_def send_fields_def send_outcome_def send_result_def outcome_def Let_def run)
qed

lemma changed_plain [simp]: "list_all intake_field fs \<Longrightarrow> cd_title (changed fs now c) = cd_title c
    \<and> cd_description (changed fs now c) = cd_description c \<and> cd_criteria (changed fs now c) = cd_criteria c
    \<and> cd_priority (changed fs now c) = cd_priority c \<and> cd_tier (changed fs now c) = cd_tier c
    \<and> cd_repository_id (changed fs now c) = cd_repository_id c"
proof -
  have "list_all intake_field fs \<Longrightarrow> cd_title (fold set_field fs x) = cd_title x \<and> cd_description (fold set_field fs x) = cd_description x
    \<and> cd_criteria (fold set_field fs x) = cd_criteria x \<and> cd_priority (fold set_field fs x) = cd_priority x
    \<and> cd_tier (fold set_field fs x) = cd_tier x \<and> cd_repository_id (fold set_field fs x) = cd_repository_id x" for x
  proof (induction fs arbitrary: x)
    case (Cons f fs)
    then show ?case by (cases f rule: intake_field.cases) auto
  qed simp
  then show "list_all intake_field fs \<Longrightarrow> ?thesis" by (simp add: changed_def)
qed

lemma intake_rowI:
  assumes "list_all intake_field fs"
    and "truthy (cd_correlation_key c) \<Longrightarrow> cd_correlation_key (changed fs now c) = cd_correlation_key c"
    and "\<And>st. stage_status c st = Some DONE \<Longrightarrow> stage_status (changed fs now c) st = Some DONE"
    and "test_after_code c \<Longrightarrow> test_after_code (changed fs now c)"
  shows "intake_row c (changed fs now c)"
  using assms changed_keys [OF assms(1)] changed_plain [OF assms(1)] by (simp add: intake_row_def)

lemma status_send: "stage_status (changed (send_fields env now c a) now c) st =
    (if st = stage_for_service (pa_service a) then Some (if ar_ok (execute_action (en_http env) a) then DISPATCHED else FAILED)
     else stage_status c st)"
  by (auto simp: send_fields_def Let_def stage_status_changed simp del: patch_runs.simps)

lemma send_row:
  assumes "stage_status c (stage_for_service (pa_service a)) \<noteq> Some DONE"
    "stage_for_service (pa_service a) = TEST \<Longrightarrow> stage_status c CODE = Some DONE"
  shows "intake_row c (changed (send_fields env now c a) now c)"
proof (rule intake_rowI [OF send_fields_intake])
  show "truthy (cd_correlation_key c) \<Longrightarrow> cd_correlation_key (changed (send_fields env now c a) now c) = cd_correlation_key c"
    by (auto simp: send_fields_def Let_def changed_def truthy_iff)
  show "stage_status c st = Some DONE \<Longrightarrow> stage_status (changed (send_fields env now c a) now c) st = Some DONE" for st
    using assms(1) by (auto simp: status_send)
  show "test_after_code c \<Longrightarrow> test_after_code (changed (send_fields env now c a) now c)"
    using assms by (auto simp: test_after_code_def status_send)
qed

lemma stage_service_inverse [simp]: "stage_for_service (stage_service st) = st"
  by (cases st) simp_all

lemma prepare_stage_service: "prepare_stage c st pid repo url = Inr (Some a) \<Longrightarrow> stage_for_service (pa_service a) = st"
  by (cases st) (auto simp: prepare_stage_def dispatch_action_def mk_action_def res_bind_Inr_iff split: if_splits)

text \<open>When a stage may be sent.\<close>

definition stage_allowed :: "intake_env \<Rightarrow> string \<Rightarrow> card \<Rightarrow> stage \<Rightarrow> bool" where
  "stage_allowed env t c stage = (cd_tier c \<noteq> None \<and> stage_status c stage \<notin> {Some DISPATCHED, Some DONE}
     \<and> (stage = TEST \<longrightarrow> truthy (cd_correlation_key c) \<and> stage_status c CODE = Some DONE)
     \<and> (stage \<noteq> PLAN \<longrightarrow> (case git_target_for_card env (Some t) c of Inl _ \<Rightarrow> False | Inr g \<Rightarrow> truthy (gt_aifactory_project_id g))))"

lemma refuse_reason_None:
  assumes "git_target_for_card env (Some t) c = Inr g" "stage_status c stage \<noteq> Some DONE"
  shows "refuse_reason c stage (gt_aifactory_project_id g) = None \<longleftrightarrow> stage_allowed env t c stage"
  using assms by (auto simp: refuse_reason_def stage_allowed_def)

lemma dispatch_stage_cases:
  assumes ok: "cards_ok s" and got: "get_card (Some t) (cd_key c) s = Some c"
  obtains
    (complete) "stage_status c stage = Some DONE" "dispatch_stage env (Some t) now c stage s = (Inr ((outcome Stage_complete (Some stage))\<lparr>dr_key := cd_correlation_key c\<rparr>), s)"
  | (raises) e where "stage_status c stage \<noteq> Some DONE"
      "(\<exists>e. git_target_for_card env (Some t) c = Inl e) \<or> issue_number_payload (cd_issue_ref c) = Inl e" "dispatch_stage env (Some t) now c stage s = (Inl e, s)"
  | (refused) why where "stage_status c stage \<noteq> Some DONE" "\<not> stage_allowed env t c stage"
      "dispatch_stage env (Some t) now c stage s = (Inr (outcome (Refused why) (Some stage)), s)"
  | (sent) g a where "git_target_for_card env (Some t) c = Inr g" "stage_allowed env t c stage" "stage_for_service (pa_service a) = stage"
      "prepare_stage c stage (gt_aifactory_project_id g) (qualify_repo (Some (gt_provider g)) (gt_project g))
         (clone_url (Some (gt_provider g)) (Some (gt_base_url g)) (gt_project g)) = Inr (Some a)"
      "dispatch_stage env (Some t) now c stage s =
        (Inr ((send_result env c a stage)\<lparr>dr_warnings := stage_warnings c stage\<rparr>),
         put_card c (changed (send_fields env now c a) now c) s)"
proof (cases "stage_status c stage = Some DONE")
  case True
  then show thesis by (intro complete) (simp_all add: dispatch_stage_def)
next
  case False
  show thesis
  proof (cases "git_target_for_card env (Some t) c")
    case (Inl e)
    then show thesis using False by (intro raises [of e]) (simp_all add: dispatch_stage_def)
  next
    case (Inr g)
    let ?p = "prepare_stage c stage (gt_aifactory_project_id g) (qualify_repo (Some (gt_provider g)) (gt_project g))
         (clone_url (Some (gt_provider g)) (Some (gt_base_url g)) (gt_project g))"
    show thesis
    proof (cases "refuse_reason c stage (gt_aifactory_project_id g)")
      case (Some why)
      then have "\<not> stage_allowed env t c stage" using refuse_reason_None [OF Inr False] by simp
      then show thesis using False Inr Some by (intro refused [of why]) (simp_all add: dispatch_stage_def)
    next
      case None
      then have al: "stage_allowed env t c stage" using refuse_reason_None [OF Inr False] by simp
      have some: "?p \<noteq> Inr None" using al Inr
        by (auto simp: prepare_stage_def stage_allowed_def res_bind_def split: sum.splits)
      show thesis
      proof (cases ?p)
        case (Inl e)
        then have "issue_number_payload (cd_issue_ref c) = Inl e" by (auto simp: prepare_stage_def res_bind_def split: if_splits sum.splits)
        then show thesis using False Inl None \<open>git_target_for_card env (Some t) c = Inr g\<close>
          by (intro raises [of e]) (simp_all add: dispatch_stage_def)
      next
        case (Inr x)
        then obtain a where a: "?p = Inr (Some a)" using some by (cases x) auto
        show thesis using \<open>git_target_for_card env (Some t) c = Inr g\<close> al prepare_stage_service [OF a] a False None send_eq [OF ok got, of env now a]
          by (intro sent [of g a]) (simp_all add: dispatch_stage_def)
      qed
    qed
  qed
qed

lemma allowed_row: "stage_allowed env t c stage \<Longrightarrow> stage_for_service (pa_service a) = stage \<Longrightarrow>
    intake_row c (changed (send_fields env now c a) now c)"
  by (intro send_row) (auto simp: stage_allowed_def)

lemma dispatch_stage_moves:
  assumes ok: "cards_ok s" and got: "get_card (Some t) (cd_key c) s = Some c"
    and run: "dispatch_stage env (Some t) now c stage s = (x, s')"
  shows "row_moved t (cd_key c) s s'"
  using ok got
proof (cases rule: dispatch_stage_cases [of s t c stage env now])
  case (sent g a)
  then show ?thesis using run row_moved_put [OF ok got allowed_row] by auto
qed (use run row_moved_refl [OF ok got] in auto)

lemma dispatch_card_moves:
  assumes ok: "cards_ok s" and got: "get_card (Some t) (cd_key c) s = Some c"
    and run: "dispatch_card env (Some t) now c s = (x, s')"
  shows "row_moved t (cd_key c) s s'"
proof (cases "stage_status c (default_stage c) = Some DISPATCHED \<or> stage_status c (default_stage c) = Some DONE")
  case True
  then show ?thesis using run row_moved_refl [OF ok got] by (auto simp: dispatch_card_def Let_def)
next
  case False
  let ?p = "res_bind (git_target_for_card env (Some t) c) (\<lambda>g.
             prepare_dispatch c (gt_aifactory_project_id g) (qualify_repo (Some (gt_provider g)) (gt_project g)))"
  have notest: "default_stage c \<noteq> TEST" by (simp add: default_stage_def)
  consider e where "?p = Inl e" | "?p = Inr None" | a where "?p = Inr (Some a)" by (metis sum.exhaust option.exhaust)
  then show ?thesis
  proof cases
    case 1
    then show ?thesis using run False row_moved_refl [OF ok got] by (auto simp: dispatch_card_def Let_def)
  next
    case 2
    have "intake_row c (changed [F_status (Some Blocked)] now c)"
      by (intro intake_rowI) (simp_all add: changed_def stage_status_def test_after_code_def)
    then show ?thesis using 2 run False update_or_eq [OF ok got, of "[F_status (Some Blocked)]" now] row_moved_put [OF ok got]
      by (auto simp: dispatch_card_def Let_def)
  next
    case 3
    then have "stage_for_service (pa_service a) = default_stage c"
      using prepare_stage_service by (auto simp: prepare_dispatch_def res_bind_Inr_iff)
    then have "intake_row c (changed (send_fields env now c a) now c)" using False notest by (intro send_row) auto
    then show ?thesis using 3 run False send_eq [OF ok got, of env now a] row_moved_put [OF ok got]
      by (auto simp: dispatch_card_def Let_def)
  qed
qed

lemma maybe_dispatch_moves:
  assumes "cards_ok s" "get_card (Some t) (cd_key c) s = Some c" "maybe_dispatch env (Some t) now c s = (x, s')"
  shows "row_moved t (cd_key c) s s'"
  using assms dispatch_card_moves [OF assms(1,2)] row_moved_refl [OF assms(1,2)]
  by (auto simp: maybe_dispatch_def split: if_splits prod.splits sum.splits)

lemma write_runs_eq:
  assumes "cards_ok s" "get_card (Some t) (cd_key c) s = Some c" "list_all intake_field fs"
  shows "write_runs (Some t) now c ps fs s = (Inr (changed (F_stage_runs (patch_runs ps (cd_stage_runs c)) # fs) now c),
      put_card c (changed (F_stage_runs (patch_runs ps (cd_stage_runs c)) # fs) now c) s)"
  unfolding write_runs_def using assms(3) by (intro update_or_eq [OF assms(1,2)]) simp

lemma last_patch_map: "last_patch (map (\<lambda>x. (x, f x)) xs) st = (if st \<in> set xs then Some (f st) else None)"
  by (induction xs) auto

abbreviation todo_of :: "card \<Rightarrow> stage list" where
  "todo_of c \<equiv> filter (\<lambda>st. stage_status c st \<noteq> Some DONE) SEQUENCE"

definition queued_card :: "int \<Rightarrow> card \<Rightarrow> card" where
  "queued_card now c = changed [F_stage_runs (patch_runs (map (\<lambda>x. (x, Patch_queued (stage_service x))) (todo_of c)) (cd_stage_runs c))] now c"

lemma in_SEQUENCE [simp]: "st \<in> set SEQUENCE"
  by (cases st) (simp_all add: SEQUENCE_def)

lemma status_queued: "stage_status (queued_card now c) st = (if stage_status c st = Some DONE then Some DONE else Some QUEUED)"
  unfolding queued_card_def by (subst stage_status_changed) (auto simp: last_patch_map)

lemma queued_plain [simp]: "cd_key (queued_card now c) = cd_key c" "cd_tier (queued_card now c) = cd_tier c"
    "cd_correlation_key (queued_card now c) = cd_correlation_key c" "cd_status (queued_card now c) = cd_status c"
    "cd_repository_id (queued_card now c) = cd_repository_id c" "cd_issue_ref (queued_card now c) = cd_issue_ref c"
  by (simp_all add: queued_card_def changed_def)

lemma queued_row: "intake_row c (queued_card now c)"
proof -
  have "intake_row c (changed [F_stage_runs (patch_runs (map (\<lambda>x. (x, Patch_queued (stage_service x))) (todo_of c)) (cd_stage_runs c))] now c)"
    by (intro intake_rowI; (fold queued_card_def)?) (auto simp: test_after_code_def status_queued split: if_splits)
  then show ?thesis by (simp add: queued_card_def)
qed

lemma start_sequence_eq:
  assumes ok: "cards_ok s" and got: "get_card (Some t) (cd_key c) s = Some c"
    and tier: "cd_tier c \<noteq> None" and idle: "\<forall>st. stage_status c st \<noteq> Some DISPATCHED" and todo: "todo_of c = st # rest"
  shows "start_sequence env (Some t) now c s = (case dispatch_stage env (Some t) now (queued_card now c) st (put_card c (queued_card now c) s) of
      (Inl e, s'') \<Rightarrow> (Inl e, s'') | (Inr r, s'') \<Rightarrow> (Inr (r\<lparr>dr_sequence := st # rest\<rparr>), s''))"
proof -
  have "List.find (\<lambda>st. stage_status c st = Some DISPATCHED) SEQUENCE = None" using idle by (simp add: find_None_iff)
  then show ?thesis using tier todo write_runs_eq [OF ok got, of "[]" now "map (\<lambda>x. (x, Patch_queued (stage_service x))) (st # rest)"]
    by (auto simp: start_sequence_def queued_card_def)
qed

lemma queued_got:
  assumes "cards_ok s" "get_card (Some t) (cd_key c) s = Some c"
  shows "cards_ok (put_card c (queued_card now c) s)"
    "get_card (Some t) (cd_key (queued_card now c)) (put_card c (queued_card now c) s) = Some (queued_card now c)"
proof -
  have d: "cd_deleted_at (queued_card now c) = None" "card_key_of (queued_card now c) = card_key_of c"
    "issue_key_of (queued_card now c) = issue_key_of c"
    using queued_row [of c now] assms(2) [unfolded got_iff [OF assms(1)]] by (auto simp: intake_row_def)
  show "cards_ok (put_card c (queued_card now c) s)" by (rule put_card_ok [OF assms d(2,3)])
  show "get_card (Some t) (cd_key (queued_card now c)) (put_card c (queued_card now c) s) = Some (queued_card now c)"
    using get_put_card [OF assms d(2,3,1)] by simp
qed

lemma start_sequence_moves:
  assumes ok: "cards_ok s" and got: "get_card (Some t) (cd_key c) s = Some c"
    and run: "start_sequence env (Some t) now c s = (x, s')"
  shows "row_moved t (cd_key c) s s'"
proof (cases "cd_tier c = None \<or> (\<exists>st. stage_status c st = Some DISPATCHED) \<or> todo_of c = []")
  case True
  then have "s' = s" using run by (auto simp: start_sequence_def find_None_iff split: if_splits option.splits)
  then show ?thesis by (simp add: row_moved_refl [OF ok got])
next
  case False
  then obtain st rest where todo: "todo_of c = st # rest" by (cases "todo_of c") auto
  have "start_sequence env (Some t) now c s = (case dispatch_stage env (Some t) now (queued_card now c) st (put_card c (queued_card now c) s) of
      (Inl e, s'') \<Rightarrow> (Inl e, s'') | (Inr r, s'') \<Rightarrow> (Inr (r\<lparr>dr_sequence := st # rest\<rparr>), s''))"
    using False todo by (intro start_sequence_eq [OF ok got]) auto
  then obtain y where y: "dispatch_stage env (Some t) now (queued_card now c) st (put_card c (queued_card now c) s) = (y, s')"
    using run by (auto split: prod.splits sum.splits)
  have "row_moved t (cd_key c) (put_card c (queued_card now c) s) s'" using dispatch_stage_moves [OF queued_got [OF ok got] y] by simp
  then show ?thesis using row_moved_trans row_moved_put [OF ok got queued_row] ok by blast
qed

definition settled_card :: "int \<Rightarrow> card \<Rightarrow> work_item \<Rightarrow> card" where
  "settled_card now c item = (if settled_patches c item = [] then c
     else changed [F_stage_runs (patch_runs (settled_patches c item) (cd_stage_runs c))] now c)"

lemma last_settled: "last_patch (settled_patches c item) st =
    (let status = ss_status (wi_stage (stage_service st) item) in
     if stage_status c st \<noteq> Some DISPATCHED \<or> \<not> truthy status then None
     else if is_failure_or_stuck status then Some (Patch_settled FAILED (the status))
     else if is_done status then Some (Patch_settled DONE (the status)) else None)"
  by (cases st) (simp_all add: settled_patches_def SEQUENCE_def Let_def)

lemma status_settled: "stage_status (settled_card now c item) st =
    (let status = ss_status (wi_stage (stage_service st) item) in
     if stage_status c st \<noteq> Some DISPATCHED \<or> \<not> truthy status then stage_status c st
     else if is_failure_or_stuck status then Some FAILED else if is_done status then Some DONE else stage_status c st)"
proof (cases "settled_patches c item = []")
  case True
  then have "last_patch (settled_patches c item) st = None" by simp
  then show ?thesis using True unfolding last_settled by (auto simp: settled_card_def Let_def split: if_splits)
next
  case False
  then show ?thesis unfolding settled_card_def
    by (simp only: if_False) (subst stage_status_changed, simp, simp only: last_settled, auto simp: Let_def)
qed

lemma settled_plain [simp]: "cd_key (settled_card now c item) = cd_key c" "cd_tier (settled_card now c item) = cd_tier c"
    "cd_correlation_key (settled_card now c item) = cd_correlation_key c" "cd_status (settled_card now c item) = cd_status c"
    "cd_repository_id (settled_card now c item) = cd_repository_id c" "cd_issue_ref (settled_card now c item) = cd_issue_ref c"
  by (simp_all add: settled_card_def changed_def)

lemma settled_row: "intake_row c (settled_card now c item)"
proof (cases "settled_patches c item = []")
  case False
  then have eq: "settled_card now c item = changed [F_stage_runs (patch_runs (settled_patches c item) (cd_stage_runs c))] now c"
    by (simp add: settled_card_def)
  show ?thesis unfolding eq
    by (intro intake_rowI; (fold eq)?) (auto simp: test_after_code_def status_settled Let_def split: if_splits)
qed (simp add: settled_card_def)

lemma settle_eq:
  assumes "cards_ok s" "get_card (Some t) (cd_key c) s = Some c"
  shows "settle (Some t) now c item s = (Inr (settled_card now c item), if settled_patches c item = [] then s else put_card c (settled_card now c item) s)"
  using write_runs_eq [OF assms, of "[]" now] by (simp add: settle_def settled_card_def)

lemma settle_moves:
  assumes ok: "cards_ok s" and got: "get_card (Some t) (cd_key c) s = Some c" and run: "settle (Some t) now c item s = (x, s1)"
  shows "x = Inr (settled_card now c item)" "row_moved t (cd_key c) s s1" "cards_ok s1"
    "get_card (Some t) (cd_key c) s1 = Some (settled_card now c item)"
proof -
  have x: "x = Inr (settled_card now c item)" and s1: "s1 = (if settled_patches c item = [] then s else put_card c (settled_card now c item) s)"
    using run settle_eq [OF ok got] by auto
  show "x = Inr (settled_card now c item)" by (rule x)
  show m: "row_moved t (cd_key c) s s1"
    unfolding s1 using row_moved_refl [OF ok got] row_moved_put [OF ok got settled_row] by auto
  show "cards_ok s1" using m by (auto simp: row_moved_def)
  have "cd_deleted_at (settled_card now c item) = None" "card_key_of (settled_card now c item) = card_key_of c"
    "issue_key_of (settled_card now c item) = issue_key_of c"
    using settled_row [of c now item] got [unfolded got_iff [OF ok]] by (auto simp: intake_row_def)
  then show "get_card (Some t) (cd_key c) s1 = Some (settled_card now c item)"
    using got get_put_card [OF ok got, of "settled_card now c item"] by (cases "settled_patches c item = []") (simp_all add: s1, simp add: settled_card_def)
qed

lemma advance_moves:
  assumes ok: "cards_ok s" and got: "get_card (Some t) (cd_key c) s = Some c" and run: "advance env (Some t) now c s = (x, d, s')"
  shows "row_moved t (cd_key c) s s' \<and> (\<forall>c'. x = Inr c' \<longrightarrow> get_card (Some t) (cd_key c) s' = Some c')"
proof -
  consider (flight) "list_ex (\<lambda>st. stage_status c st = Some DISPATCHED) SEQUENCE"
    | (failed) "\<not> list_ex (\<lambda>st. stage_status c st = Some DISPATCHED) SEQUENCE" "list_ex (\<lambda>st. stage_status c st = Some FAILED) SEQUENCE"
    | (quiet) "\<not> list_ex (\<lambda>st. stage_status c st = Some DISPATCHED) SEQUENCE" "\<not> list_ex (\<lambda>st. stage_status c st = Some FAILED) SEQUENCE" by blast
  then show ?thesis
  proof cases
    case flight
    then show ?thesis using run got row_moved_refl [OF ok got] by (auto simp: advance_def)
  next
    case failed
    let ?c = "changed [F_status (Some Blocked)] now c"
    have r: "intake_row c ?c" by (intro intake_rowI) (simp_all add: changed_def stage_status_def test_after_code_def)
    then have k: "card_key_of ?c = card_key_of c" "issue_key_of ?c = issue_key_of c" "cd_deleted_at ?c = None"
      using got [unfolded got_iff [OF ok]] by (auto simp: intake_row_def)
    have "x = Inr ?c" "s' = put_card c ?c s"
      using run failed update_or_eq [OF ok got, of "[F_status (Some Blocked)]" now] by (auto simp: advance_def)
    then show ?thesis using row_moved_put [OF ok got r] get_put_card [OF ok got k] by simp
  next
    case quiet
    show ?thesis
    proof (cases "List.find (\<lambda>st. stage_status c st = Some QUEUED) SEQUENCE")
      case None
      then show ?thesis using run quiet got row_moved_refl [OF ok got] by (auto simp: advance_def)
    next
      case (Some nxt)
      obtain y where y: "dispatch_stage env (Some t) now c nxt s = (y, s')"
        using run quiet Some by (auto simp: advance_def split: prod.splits sum.splits)
      note m = dispatch_stage_moves [OF ok got y]
      then obtain c' where "get_card (Some t) (cd_key c) s' = Some c'" by (auto simp: row_moved_def)
      then show ?thesis using m run quiet Some y by (auto simp: advance_def split: sum.splits)
    qed
  qed
qed

lemma correlated_got:
  assumes "cards_ok s" "get_by_correlation_key (Some t) k s = Some c"
  shows "get_card (Some t) (cd_key c) s = Some c"
proof -
  have "c \<in> set (sort_key cd_created_at (filter (\<lambda>c. cd_correlation_key c = Some k) (select_cards False (Some t) s)))"
    using assms(2) by (auto simp: get_by_correlation_key_def simp del: set_sort split: list.splits)
  then show ?thesis by (auto simp: got_iff [OF assms(1)] board.sel_eq live_cards_def card_key_of_def)
qed

lemma row_moved_ok: "row_moved t k s s' \<Longrightarrow> cards_ok s'"
  by (auto simp: row_moved_def)

definition agrees :: "work_item \<Rightarrow> card \<Rightarrow> bool" where
  "agrees item c = (case card_status_for item (pending_stages c \<noteq> []) of None \<Rightarrow> True | Some st \<Rightarrow> cd_status c = st)"

lemma apply_status_found:
  assumes ok: "cards_ok s" and c: "get_by_correlation_key (Some t) (wi_key item) s = Some c"
    and run: "apply_status env (Some t) now item s = (x, d, s')"
    and st: "settle (Some t) now c item s = (y, s1)" and ad: "advance env (Some t) now (settled_card now c item) s1 = (z, d2, s2)"
  shows "row_moved t (cd_key c) s s' \<and> d = d2 \<and> (is_ok x \<longleftrightarrow> is_ok z)
    \<and> (\<forall>c2. z = Inr c2 \<longrightarrow> (\<exists>c'. get_card (Some t) (cd_key c) s' = Some c' \<and> agrees item c' \<and> stage_status c' = stage_status c2))"
proof -
  note got = correlated_got [OF ok c]
  let ?c1 = "settled_card now c item"
  note m1 = settle_moves [OF ok got st]
  note m2 = advance_moves [OF m1(3) _ ad, simplified, OF m1(4)]
  have m12: "row_moved t (cd_key c) s s2" using row_moved_trans [OF m1(2) _ ok] m2 by blast
  show ?thesis
  proof (cases z)
    case (Inl e)
    then show ?thesis using run c st m1(1) ad m12 by (auto simp: apply_status_def show_status_def Let_def)
  next
    case (Inr c2)
    have got2: "get_card (Some t) (cd_key c) s2 = Some c2" using m2 Inr by blast
    note ok2 = row_moved_ok [OF m12]
    show ?thesis
    proof (cases "agrees item c2")
      case True
      then have "s' = s2" "d = d2" "is_ok x" using run c st m1(1) ad Inr
        by (auto simp: apply_status_def show_status_def Let_def agrees_def split: option.splits if_splits)
      then show ?thesis using m12 got2 True Inr by auto
    next
      case False
      then obtain st2 where st2: "card_status_for item (pending_stages c2 \<noteq> []) = Some st2" "st2 \<noteq> cd_status c2"
        by (auto simp: agrees_def split: option.splits)
      let ?c3 = "changed [F_status (Some st2)] now c2"
      have k2: "cd_key c2 = cd_key c" using got2 [unfolded got_iff [OF ok2]] by (simp add: card_key_of_def)
      have g2: "get_card (Some t) (cd_key c2) s2 = Some c2" using got2 k2 by simp
      have up: "update_or (Some t) now c2 [F_status (Some st2)] s2 = (Inr ?c3, put_card c2 ?c3 s2)" by (intro update_or_eq [OF ok2 g2]) simp
      then have "\<exists>x. update_card (Some t) (cd_key c) [F_status (Some st2)] now s2 = Inr (x, put_card c2 ?c3 s2)"
        by (auto simp: update_or_def k2 split: sum.splits prod.splits option.splits)
      then have s': "s' = put_card c2 ?c3 s2" "is_ok x" "d = d2" using run c st m1(1) ad Inr st2
        by (auto simp: apply_status_def show_status_def Let_def split: option.splits if_splits)
      have r: "intake_row c2 ?c3" by (intro intake_rowI) (simp_all add: changed_def stage_status_def test_after_code_def)
      then have kk: "card_key_of ?c3 = card_key_of c2" "issue_key_of ?c3 = issue_key_of c2" "cd_deleted_at ?c3 = None"
        using g2 [unfolded got_iff [OF ok2]] by (auto simp: intake_row_def)
      have same: "stage_status ?c3 = stage_status c2" by (simp add: changed_def fun_eq_iff stage_status_def)
      then have "pending_stages ?c3 = pending_stages c2" by (simp add: pending_stages_def)
      then have "agrees item ?c3" using st2 by (simp add: agrees_def changed_def)
      moreover have "row_moved t (cd_key c) s s'" using row_moved_trans [OF m12 _ ok] row_moved_put [OF ok2 got2 r] s' by blast
      moreover have "get_card (Some t) (cd_key c) s' = Some ?c3" using get_put_card [OF ok2 got2 kk] s' by simp
      ultimately show ?thesis using s' same Inr by auto
    qed
  qed
qed

lemma apply_status_moves:
  assumes ok: "cards_ok s" and c: "get_by_correlation_key (Some t) (wi_key item) s = Some c"
    and run: "apply_status env (Some t) now item s = (x, d, s')"
  shows "row_moved t (cd_key c) s s' \<and> (is_ok x \<longrightarrow> (\<exists>c'. get_card (Some t) (cd_key c) s' = Some c' \<and> agrees item c'))"
proof -
  obtain y s1 where st: "settle (Some t) now c item s = (y, s1)" by force
  obtain z d2 s2 where ad: "advance env (Some t) now (settled_card now c item) s1 = (z, d2, s2)"
    by (cases "advance env (Some t) now (settled_card now c item) s1") auto
  show ?thesis using apply_status_found [OF ok c run st ad] by (cases z) auto
qed

section \<open>Properties\<close>

text \<open>C7: an explicit stage action reaches a service only when the stage may run.  It needs a tier, a
  stage that neither runs nor has completed, for a verification a completed build and a
  correlation key, and for a build or a verification a configured project.  Sent, the card is
  in progress with the stage dispatched; refused upstream, it is blocked with the stage failed;
  in every other case, an error included, nothing is written.\<close>

theorem stage_sent_only_when_allowed:
  assumes "cards_ok s" "get_card (Some t) (cd_key c) s = Some c" "dispatch_stage env (Some t) now c stage s = (x, s')"
  shows "case x of Inl _ \<Rightarrow> s' = s
    | Inr r \<Rightarrow> (case dr_outcome r of
        Sent k \<Rightarrow> stage_allowed env t c stage \<and> (\<exists>c'. get_card (Some t) (cd_key c) s' = Some c' \<and> cd_status c' = In_progress
            \<and> cd_correlation_key c' = Some k \<and> stage_status c' = (stage_status c)(stage := Some DISPATCHED))
      | Send_failed n \<Rightarrow> stage_allowed env t c stage \<and> (\<exists>c'. get_card (Some t) (cd_key c) s' = Some c' \<and> cd_status c' = Blocked
            \<and> cd_correlation_key c' = cd_correlation_key c \<and> stage_status c' = (stage_status c)(stage := Some FAILED))
      | Stage_complete \<Rightarrow> s' = s \<and> stage_status c stage = Some DONE
      | Refused why \<Rightarrow> s' = s \<and> \<not> stage_allowed env t c stage
      | _ \<Rightarrow> False)"
  using assms(1,2)
proof (cases rule: dispatch_stage_cases [of s t c stage env now])
  case (sent g a)
  let ?c = "changed (send_fields env now c a) now c"
  have row: "intake_row c ?c" by (rule allowed_row [OF sent(2,3)])
  then have "card_key_of ?c = card_key_of c" "issue_key_of ?c = issue_key_of c" "cd_deleted_at ?c = None"
    using assms(2) [unfolded got_iff [OF assms(1)]] by (auto simp: intake_row_def)
  then have got': "get_card (Some t) (cd_key c) s' = Some ?c" using get_put_card [OF assms(1,2)] sent(5) assms(3) by simp
  have st: "stage_status ?c = (stage_status c)(stage := Some (if ar_ok (execute_action (en_http env) a) then DISPATCHED else FAILED))"
    using sent(3) by (auto simp: fun_eq_iff status_send)
  show ?thesis
  proof (cases "ar_ok (execute_action (en_http env) a)")
    case True
    then have "cd_status ?c = In_progress" "\<exists>k. send_outcome env c a = Sent k \<and> cd_correlation_key ?c = Some k"
      by (simp_all add: send_fields_def send_outcome_def changed_def Let_def)
    then show ?thesis using sent(2,5) assms(3) got' st True by (auto simp: outcome_def)
  next
    case False
    then have "cd_status ?c = Blocked" "\<exists>n. send_outcome env c a = Send_failed n" "cd_correlation_key ?c = cd_correlation_key c"
      by (simp_all add: send_fields_def send_outcome_def changed_def Let_def)
    then show ?thesis using sent(2,5) assms(3) got' st False by (auto simp: outcome_def)
  qed
qed (use assms(3) in \<open>auto simp: outcome_def\<close>)

definition ex_settings :: git_settings where
  "ex_settings = \<lparr>st_git_provider = GITHUB, st_git_provider_url = None, st_github_api_url = [], st_github_repo = None,
     st_intake_project_id = Some ''proj'', st_git_provider_token = None, st_github_token = None\<rparr>"

definition ex_intake :: "(service \<Rightarrow> action_step \<Rightarrow> http_outcome) \<Rightarrow> intake_env" where
  "ex_intake http = \<lparr>en_git = ex_settings, en_credentials = None, en_db = \<lparr>gd_conns = [], gd_repos = [], gd_creds = [], gd_installs = [],
     gd_states = [], gd_tokens = []\<rparr>, en_repr = (\<lambda>_. []), en_http = http\<rparr>"

definition ex_board :: "card \<Rightarrow> card_store" where
  "ex_board c = cards_empty\<lparr>cs_cards := [c]\<rparr>"

lemma ex_board_ok: "cards_ok (ex_board c)"
  by (simp add: cards_ok_def ex_board_def cards_empty_def keys_unique_def)

lemma ex_board_got: "cd_tenant c = ''acme'' \<Longrightarrow> cd_deleted_at c = None \<Longrightarrow> get_card (Some ''acme'') (cd_key c) (ex_board c) = Some c"
  by (simp add: get_card_def select_cards_def ex_board_def)

lemma ex_target: "cd_repository_id c = None \<Longrightarrow> cd_issue_ref c = None \<Longrightarrow> \<exists>g. git_target_for_card (ex_intake http) (Some t) c = Inr g
    \<and> gt_aifactory_project_id g = Some ''proj''"
  by (simp add: git_target_for_card_def git_target_for_def resolve_repository_def resolve_project_def default_repository_def
      issue_project_def eval_str target_from_settings_def blank_none_def lift_err_def ex_intake_def ex_settings_def Let_def)

definition low_card :: card where
  "low_card = (ex_card ''FCT-1'' None)\<lparr>cd_tier := Some Low\<rparr>"

theorem stage_sent_only_when_allowed_witness:
  "\<exists>x. dispatch_stage (ex_intake (\<lambda>_ _. TransportError)) (Some ''acme'') 5 low_card TEST (ex_board low_card) = (x, ex_board low_card)"
proof -
  let ?env = "ex_intake (\<lambda>_ _. TransportError)"
  obtain x s' where run: "dispatch_stage ?env (Some ''acme'') 5 low_card TEST (ex_board low_card) = (x, s')" by force
  have "\<not> stage_allowed ?env ''acme'' low_card TEST" by (simp add: stage_allowed_def low_card_def ex_card_def)
  then show ?thesis
    using stage_sent_only_when_allowed [OF ex_board_ok ex_board_got run] run
    by (auto simp: low_card_def ex_card_def split: sum.splits dispatch_outcome.splits)
qed

text \<open>C8: a dispatch touches one card and never takes back what is final.  The promotion of a card, a
  stage action, a whole sequence and the write-back of an event each change the row of that one
  card and no other, and keep the store well-formed; on that row the plan, the tier and the
  issue stay, a correlation key once set stays, and a completed stage stays completed.\<close>

theorem intake_is_write_once:
  assumes "cards_ok s"
  shows "(\<forall>c x s'. get_card (Some t) (cd_key c) s = Some c \<and> maybe_dispatch env (Some t) now c s = (x, s') \<longrightarrow> row_moved t (cd_key c) s s')
    \<and> (\<forall>c st x s'. get_card (Some t) (cd_key c) s = Some c \<and> dispatch_stage env (Some t) now c st s = (x, s') \<longrightarrow> row_moved t (cd_key c) s s')
    \<and> (\<forall>c x s'. get_card (Some t) (cd_key c) s = Some c \<and> start_sequence env (Some t) now c s = (x, s') \<longrightarrow> row_moved t (cd_key c) s s')
    \<and> (\<forall>c item x d s'. get_by_correlation_key (Some t) (wi_key item) s = Some c \<and> apply_status env (Some t) now item s = (x, d, s')
        \<longrightarrow> row_moved t (cd_key c) s s')"
  by (auto intro: maybe_dispatch_moves [OF assms] dispatch_stage_moves [OF assms] start_sequence_moves [OF assms]
      apply_status_moves [OF assms, THEN conjunct1])

theorem intake_is_write_once_witness:
  "\<exists>x s'. start_sequence (ex_intake (\<lambda>_ _. TransportError)) (Some ''acme'') 5 low_card (ex_board low_card) = (x, s')
    \<and> row_moved ''acme'' ''FCT-1'' (ex_board low_card) s'"
proof -
  obtain x s' where run: "start_sequence (ex_intake (\<lambda>_ _. TransportError)) (Some ''acme'') 5 low_card (ex_board low_card) = (x, s')" by force
  moreover have "get_card (Some ''acme'') (cd_key low_card) (ex_board low_card) = Some low_card"
    by (intro ex_board_got) (simp_all add: low_card_def ex_card_def)
  ultimately have "row_moved ''acme'' (cd_key low_card) (ex_board low_card) s'" using intake_is_write_once [OF ex_board_ok] by blast
  then show ?thesis using run by (simp add: low_card_def ex_card_def)
qed

text \<open>After an event is written back the card shows what its work item says, given the stages it
  still owes.  It is shown done only when it owes none and a build or a verification, not a
  plan, is the furthest stage and has finished.\<close>

theorem write_back_agrees:
  assumes "cards_ok s" "get_by_correlation_key (Some t) (wi_key item) s = Some c" "apply_status env (Some t) now item s = (Inr o', d, s')"
  shows "\<exists>c'. get_card (Some t) (cd_key c) s' = Some c'
    \<and> (\<forall>st. card_status_for item (pending_stages c' \<noteq> []) = Some st \<longrightarrow> cd_status c' = st)
    \<and> (card_status_for item (pending_stages c' \<noteq> []) = Some Card_done \<longrightarrow> pending_stages c' = []
        \<and> (\<exists>svc \<in> {AIFACTORY, TFACTORY}. is_done (ss_status (wi_stage svc item)) \<and> \<not> is_failure_or_stuck (ss_status (wi_stage svc item))))"
proof -
  obtain c' where c': "get_card (Some t) (cd_key c) s' = Some c'" "agrees item c'" using apply_status_moves [OF assms] by auto
  have "\<not> rem \<and> (\<exists>svc \<in> {AIFACTORY, TFACTORY}. is_done (ss_status (wi_stage svc item)) \<and> \<not> is_failure_or_stuck (ss_status (wi_stage svc item)))"
    if "card_status_for item rem = Some Card_done" for rem
    using that by (auto simp: card_status_for_def Let_def split: if_splits)
  then show ?thesis using c' by (intro exI [of _ c']) (auto simp: agrees_def)
qed

theorem write_back_agrees_witness:
  "\<exists>x d s'. apply_status (ex_intake (\<lambda>_ _. TransportError)) (Some ''acme'') 5 (ex_item ''7'' ''failed'')
      (ex_board (low_card\<lparr>cd_correlation_key := Some ''FCT-1''\<rparr>)) = (Inr x, d, s')
    \<and> (\<exists>c'. get_card (Some ''acme'') ''FCT-1'' s' = Some c' \<and> cd_status c' = Blocked)"
proof -
  let ?env = "ex_intake (\<lambda>_ _. TransportError)" and ?c = "low_card\<lparr>cd_correlation_key := Some ''FCT-1''\<rparr>" and ?i = "ex_item ''7'' ''failed''"
  have got: "get_by_correlation_key (Some ''acme'') (wi_key ?i) (ex_board ?c) = Some ?c"
    by (simp add: get_by_correlation_key_def select_cards_def ex_board_def low_card_def ex_card_def ex_item_def)
  have none: "stage_status ?c st = None" for st by (simp add: stage_status_def low_card_def ex_card_def)
  have "settled_patches ?c ?i = []" by (simp add: settled_patches_def none)
  then have "settle (Some ''acme'') 5 ?c ?i (ex_board ?c) = (Inr ?c, ex_board ?c)" by (simp add: settle_def)
  moreover have "advance ?env (Some ''acme'') 5 ?c (ex_board ?c) = (Inr ?c, None, ex_board ?c)"
    by (simp add: advance_def none list_ex_iff find_None_iff [THEN iffD2])
  ultimately obtain x d s' where run: "apply_status ?env (Some ''acme'') 5 ?i (ex_board ?c) = (Inr x, d, s')"
    using apply_status_found [OF ex_board_ok got]
    by (metis is_ok.elims(2) is_ok.simps(2) prod_cases3 settled_card_def \<open>settled_patches ?c ?i = []\<close>)
  have "is_failed (Some ''failed'')"
    by (simp add: is_failed_def status_matches_def status_tokens_def eval_str status_sep_def FAILED_TOKENS_def)
  then have "card_status_for ?i rem = Some Blocked" for rem
    by (simp add: card_status_for_def ex_item_def empty_state_def is_failure_or_stuck_def)
  then show ?thesis using write_back_agrees [OF ex_board_ok got run] run by (auto simp: low_card_def ex_card_def)
qed

section \<open>Runs of a board\<close>

text \<open>A tenant's board under everything that writes a card: the operations of the store, by any
  tenant, none of which may send a dispatch record, and the four operations of the intake, each
  with whatever configuration and answers it meets.\<close>

fun writes_no_runs :: "card_op \<Rightarrow> bool" where
  "writes_no_runs (UpdateCard k fs now) = list_all (\<lambda>f. case f of F_stage_runs _ \<Rightarrow> False | _ \<Rightarrow> True) fs"
| "writes_no_runs _ = True"

inductive intake_run :: "string \<Rightarrow> card_store \<Rightarrow> bool" for t where
  Run_start: "intake_run t cards_empty"
| Run_board: "intake_run t s \<Longrightarrow> t' \<noteq> [] \<Longrightarrow> writes_no_runs op \<Longrightarrow> card_exec t' op s = Inr s' \<Longrightarrow> intake_run t s'"
| Run_promote: "intake_run t s \<Longrightarrow> get_card (Some t) (cd_key c) s = Some c \<Longrightarrow> maybe_dispatch env (Some t) now c s = (x, s') \<Longrightarrow> intake_run t s'"
| Run_stage: "intake_run t s \<Longrightarrow> get_card (Some t) (cd_key c) s = Some c \<Longrightarrow> dispatch_stage env (Some t) now c st s = (x, s') \<Longrightarrow> intake_run t s'"
| Run_sequence: "intake_run t s \<Longrightarrow> get_card (Some t) (cd_key c) s = Some c \<Longrightarrow> start_sequence env (Some t) now c s = (x, s') \<Longrightarrow> intake_run t s'"
| Run_event: "intake_run t s \<Longrightarrow> apply_status env (Some t) now item s = (y, d, s') \<Longrightarrow> intake_run t s'"

lemma update_where_keeps: "x \<in> set (update_where p f rows) \<Longrightarrow> (\<And>r. g (f r) = g r) \<Longrightarrow> \<exists>r\<in>set rows. g x = g r"
  by (auto simp: in_update_where split: if_splits)

lemma card_exec_runs:
  assumes "card_exec t op s = Inr s'" "writes_no_runs op" "c' \<in> set (cs_cards s')"
  shows "cd_stage_runs c' = [] \<or> (\<exists>c\<in>set (cs_cards s). cd_stage_runs c' = cd_stage_runs c)"
proof (cases op)
  case (CreateCard now d)
  then obtain p where "plan_card (Some t) now d s = Inr p" "insert_card p s = Inr s'"
    using assms(1) by (auto simp: res_bind_Inr_iff create_card_def commit_card_Inr)
  then have "cd_stage_runs p = []" "cs_cards s' = cs_cards s @ [p]"
    by (auto simp: plan_card_def res_bind_Inr_iff dest: insert_card_Inr)
  then show ?thesis using assms(3) by auto
next
  case (UpdateCard k fs now)
  then obtain r where "update_card (Some t) k fs now s = Inr (r, s')" using assms(1) by (auto simp: res_bind_Inr_iff)
  then show ?thesis
  proof (cases rule: update_card_cases)
    case none
    then show ?thesis using assms(3) by auto
  next
    case (some c)
    have "cd_stage_runs (fold set_field fs c) = cd_stage_runs c" using fold_no_runs assms(2) UpdateCard by simp
    then show ?thesis using assms(3) some get_card_Some [OF some(1)] by (auto simp: in_update_where split: if_splits)
  qed
next
  case (DeleteCard k now)
  then have "c' \<in> set (cs_cards s) \<or> (\<exists>d. c' \<in> set (update_where (same_card d) (\<lambda>d. d\<lparr>cd_deleted_at := Some now, cd_updated_at := now\<rparr>) (cs_cards s)))"
    using assms(1,3) by (auto simp: delete_card_def split: option.splits)
  then show ?thesis using update_where_keeps [where g = cd_stage_runs and x = c'] by fastforce
next
  case (StoreComments k cs now)
  then have "\<exists>q. c' \<in> set (update_where q (\<lambda>d. d\<lparr>cd_comments_synced_at := Some now\<rparr>) (cs_cards s))"
    using assms(1,3) by (auto simp: store_comments_def Let_def res_bind_Inr_iff)
  then show ?thesis using update_where_keeps [where g = cd_stage_runs and x = c'] by fastforce
next
  case (SetWatermark p w)
  then show ?thesis using assms(1,3) by (auto simp: set_watermark_def upsert_import_state_def put_import_row_def split: option.splits)
next
  case (MarkPolled p w)
  then show ?thesis using assms(1,3) by (auto simp: mark_polled_def upsert_import_state_def put_import_row_def split: option.splits)
next
  case (ClaimLease p now ttl)
  then show ?thesis using assms(1,3)
    by (auto simp: claim_import_lease_def commit_lease_def upsert_import_state_def put_import_row_def
        split: option.splits lease_plan.splits if_splits)
qed

definition tests_follow_builds :: "card_store \<Rightarrow> bool" where
  "tests_follow_builds s = (cards_ok s \<and> (\<forall>c\<in>set (cs_cards s). test_after_code c))"

lemma row_moved_tests: "row_moved t k s s' \<Longrightarrow> tests_follow_builds s \<Longrightarrow> tests_follow_builds s'"
proof -
  assume m: "row_moved t k s s'" and i: "tests_follow_builds s"
  obtain c c' where c: "get_card (Some t) k s = Some c" "intake_row c c'" "cards_ok s'"
    "\<And>x. x \<in> set (cs_cards s') \<longleftrightarrow> x = c' \<or> (x \<in> set (cs_cards s) \<and> x \<noteq> c)"
    using m unfolding row_moved_def by blast
  have "test_after_code c'" using c(2) get_card_Some [OF c(1)] i by (auto simp: intake_row_def tests_follow_builds_def)
  then show "tests_follow_builds s'" using c i by (auto simp: tests_follow_builds_def)
qed

lemma intake_run_tests: "intake_run t s \<Longrightarrow> tests_follow_builds s"
proof (induction rule: intake_run.induct)
  case Run_start
  show ?case by (simp add: tests_follow_builds_def) (simp add: cards_empty_def)
next
  case (Run_board s t' op s')
  have "cards_ok s'" using card_exec_ok [OF Run_board.hyps(4)] Run_board.IH by (simp add: card_step_ok_def tests_follow_builds_def)
  moreover have "test_after_code c'" if "c' \<in> set (cs_cards s')" for c'
    using card_exec_runs [OF Run_board.hyps(4,3) that] Run_board.IH
    by (auto simp: tests_follow_builds_def test_after_code_def stage_status_def)
  ultimately show ?case by (simp add: tests_follow_builds_def)
next
  case (Run_promote s c env now x s')
  then show ?case using maybe_dispatch_moves row_moved_tests tests_follow_builds_def by metis
next
  case (Run_stage s c env now st x s')
  then show ?case using dispatch_stage_moves row_moved_tests tests_follow_builds_def by metis
next
  case (Run_sequence s c env now x s')
  then show ?case using start_sequence_moves row_moved_tests tests_follow_builds_def by metis
next
  case (Run_event s env now item y d s')
  show ?case
  proof (cases "get_by_correlation_key (Some t) (wi_key item) s")
    case None
    then show ?thesis using Run_event by (simp add: apply_status_def show_status_def Let_def)
  next
    case (Some c)
    then show ?thesis using apply_status_moves [OF _ Some Run_event.hyps(2)] row_moved_tests Run_event.IH
      by (auto simp: tests_follow_builds_def)
  qed
qed

text \<open>C6: nothing is verified that was not built.  However a board is used, whatever the services
  answer and in whatever order events arrive, a card whose verification has been sent, is done
  or has failed is a card whose build has completed.\<close>

theorem no_verification_without_build:
  assumes "intake_run t s" "c \<in> set (cs_cards s)" "stage_status c TEST \<in> {Some DISPATCHED, Some DONE, Some FAILED}"
  shows "stage_status c CODE = Some DONE"
  using intake_run_tests [OF assms(1)] assms(2,3) by (auto simp: tests_follow_builds_def test_after_code_def)

section \<open>A sequence that is answered\<close>

definition finished :: "service \<Rightarrow> work_item \<Rightarrow> bool" where
  "finished svc item = (let status = ss_status (wi_stage svc item) in truthy status \<and> is_done status \<and> \<not> is_failure_or_stuck status)"

definition silent :: "service \<Rightarrow> work_item \<Rightarrow> bool" where
  "silent svc item = (\<not> truthy (ss_status (wi_stage svc item)))"

text \<open>A service that accepts whatever it is sent.\<close>

definition accepts :: "intake_env \<Rightarrow> bool" where
  "accepts env = (\<forall>svc x. \<exists>code body. en_http env svc x = HttpResponse code body \<and> is_success code \<and> refusal_in_body body = None)"

definition buildable :: "intake_env \<Rightarrow> string \<Rightarrow> card \<Rightarrow> bool" where
  "buildable env t c = (cd_tier c \<noteq> None \<and> is_ok (issue_number_payload (cd_issue_ref c))
     \<and> (\<exists>g. git_target_for_card env (Some t) c = Inr g \<and> truthy (gt_aifactory_project_id g)))"

lemma intake_row_ref: "intake_row c c' \<Longrightarrow> cd_issue_ref c' = cd_issue_ref c"
  by (cases "cd_issue_ref c"; cases "cd_issue_ref c'") (auto simp: intake_row_def issue_key_of_def)

lemma buildable_row: "intake_row c c' \<Longrightarrow> buildable env t c \<Longrightarrow> buildable env t c'"
  using intake_row_ref [of c c'] by (auto simp: buildable_def git_target_for_card_def intake_row_def)

lemma prepared_safe: "prepare_stage c st pid repo url = Inr (Some a) \<Longrightarrow>
    steps_of a = [pa_step a] \<and> is_safe_endpoint (st_endpoint (pa_step a))"
  by (cases st) (auto simp: prepare_stage_def dispatch_action_def mk_action_def steps_of_def res_bind_Inr_iff is_safe_endpoint_def
      url_unsafe_def split: if_splits)

lemma accepted:
  assumes "accepts env" "prepare_stage c st pid repo url = Inr (Some a)"
  shows "ar_ok (execute_action (en_http env) a)"
proof -
  obtain code body where "en_http env (pa_service a) (pa_step a) = HttpResponse code body" "is_success code" "refusal_in_body body = None"
    using assms(1) unfolding accepts_def by blast
  then show ?thesis using prepared_safe [OF assms(2)] by (simp add: execute_action_def do_step_def)
qed

text \<open>The card of a tenant that a correlation key stands for.\<close>

definition owns_key :: "string \<Rightarrow> string \<Rightarrow> string \<Rightarrow> card_store \<Rightarrow> bool" where
  "owns_key t k key s = (cards_ok s \<and> (\<exists>c. get_card (Some t) k s = Some c \<and> cd_correlation_key c = Some key
     \<and> (\<forall>x\<in>set (cs_cards s). x \<noteq> c \<and> cd_tenant x = t \<longrightarrow> cd_correlation_key x \<noteq> Some key)))"

lemma all_same: "distinct ys \<Longrightarrow> set ys = {c} \<Longrightarrow> ys = [c]"
  by (cases ys; cases "tl ys") auto

lemma filter_unique:
  assumes "distinct xs" "c \<in> set xs" "p c" "\<And>x. x \<in> set xs \<Longrightarrow> p x \<Longrightarrow> x = c" shows "filter p xs = [c]"
proof (rule all_same)
  show "distinct (filter p xs)" using assms(1) by simp
  show "set (filter p xs) = {c}" unfolding set_filter using assms(2-4) by blast
qed

lemma owner_found:
  assumes "owns_key t k key s" shows "get_by_correlation_key (Some t) key s = get_card (Some t) k s"
proof -
  obtain c where c: "cards_ok s" "get_card (Some t) k s = Some c" "cd_correlation_key c = Some key"
    "\<And>x. x \<in> set (cs_cards s) \<Longrightarrow> x \<noteq> c \<Longrightarrow> cd_tenant x = t \<Longrightarrow> cd_correlation_key x \<noteq> Some key"
    using assms unfolding owns_key_def by blast
  note g = c(2) [unfolded got_iff [OF c(1)]]
  have "distinct (cs_cards s)" using distinct_card_keys [OF c(1)] by (simp add: distinct_map)
  then have "filter (\<lambda>x. cd_correlation_key x = Some key) (select_cards False (Some t) s) = [c]"
    using g c(3,4) by (intro filter_unique) (auto simp: select_cards_def card_key_of_def)
  then show ?thesis using c(2) by (simp add: get_by_correlation_key_def)
qed

lemma owner_moved:
  assumes "owns_key t k key s" "row_moved t k s s'" "key \<noteq> []" shows "owns_key t k key s'"
proof -
  obtain c where c: "cards_ok s" "get_card (Some t) k s = Some c" "cd_correlation_key c = Some key"
    "\<And>x. x \<in> set (cs_cards s) \<Longrightarrow> x \<noteq> c \<Longrightarrow> cd_tenant x = t \<Longrightarrow> cd_correlation_key x \<noteq> Some key"
    using assms(1) unfolding owns_key_def by blast
  obtain c' where c': "get_card (Some t) k s' = Some c'" "intake_row c c'" "cards_ok s'"
    "\<And>x. x \<in> set (cs_cards s') \<longleftrightarrow> x = c' \<or> (x \<in> set (cs_cards s) \<and> x \<noteq> c)"
    using assms(2) c(2) unfolding row_moved_def by auto
  have "cd_correlation_key c' = Some key" using c'(2) c(3) assms(3) by (simp add: intake_row_def)
  then show ?thesis unfolding owns_key_def using c c' by blast
qed

lemma dispatch_sends:
  assumes ok: "cards_ok s" and got: "get_card (Some t) (cd_key c) s = Some c" and b: "buildable env t c" and http: "accepts env"
    and st: "stage_allowed env t c stage"
  shows "\<exists>r s' c'. dispatch_stage env (Some t) now c stage s = (Inr r, s') \<and> get_card (Some t) (cd_key c) s' = Some c'
    \<and> stage_status c' = (stage_status c)(stage := Some DISPATCHED) \<and> row_moved t (cd_key c) s s'
    \<and> dr_outcome r = Sent (the (cd_correlation_key c'))
    \<and> (\<forall>j. cd_correlation_key c = None \<and> (\<forall>x. en_http env (stage_service stage) x = HttpResponse 200 (Some (JObj [(''session_id'', JStr j)]))) \<and> j \<noteq> []
        \<longrightarrow> cd_correlation_key c' = Some j)"
  using ok got
proof (cases rule: dispatch_stage_cases [of s t c stage env now])
  case complete
  then show ?thesis using st by (simp add: stage_allowed_def)
next
  case (raises e)
  then show ?thesis using b by (auto simp: buildable_def)
next
  case (refused why)
  then show ?thesis using st by simp
next
  case (sent g a)
  let ?c = "changed (send_fields env now c a) now c" and ?r = "execute_action (en_http env) a"
  note ar = accepted [OF http sent(4)]
  note row = allowed_row [OF sent(2,3), of now]
  then have "card_key_of ?c = card_key_of c" "issue_key_of ?c = issue_key_of c" "cd_deleted_at ?c = None"
    using got [unfolded got_iff [OF ok]] by (auto simp: intake_row_def)
  note got' = get_put_card [OF ok got this]
  have stat: "stage_status ?c = (stage_status c)(stage := Some DISPATCHED)" using ar sent(3) by (auto simp: fun_eq_iff status_send)
  have key: "send_outcome env c a = Sent (the (cd_correlation_key ?c))"
    using ar by (simp add: send_fields_def send_outcome_def changed_def Let_def)
  have "cd_correlation_key ?c = Some j" if j: "cd_correlation_key c = None" "j \<noteq> []"
    "\<forall>x. en_http env (stage_service stage) x = HttpResponse 200 (Some (JObj [(''session_id'', JStr j)]))" for j
  proof -
    have "pa_service a = stage_service stage" using sent(3) by (cases "pa_service a"; cases stage) simp_all
    then have "ar_body ?r = Some (JObj [(''session_id'', JStr j)])"
      using j(3) prepared_safe [OF sent(4)] by (simp add: execute_action_def do_step_def Let_def refusal_in_body_def is_success_def)
    then have "upstream_key (en_repr env) (ar_body ?r) (pa_service a) = Some j" using j(2) by (simp add: upstream_key_def)
    then show ?thesis using ar j(1,2) by (simp add: send_fields_def changed_def Let_def)
  qed
  then have "\<forall>j. cd_correlation_key c = None \<and> (\<forall>x. en_http env (stage_service stage) x = HttpResponse 200 (Some (JObj [(''session_id'', JStr j)]))) \<and> j \<noteq> []
        \<longrightarrow> cd_correlation_key ?c = Some j" by blast
  moreover have "dr_outcome ((send_result env c a stage)\<lparr>dr_warnings := stage_warnings c stage\<rparr>)
      = Sent (the (cd_correlation_key ?c))" using key by (simp add: outcome_def)
  ultimately show ?thesis using sent(5) got' stat row_moved_put [OF ok got row] by blast
qed

lemma status_settled_one:
  assumes "stage_status c st = Some DISPATCHED" "finished (stage_service st) item" "\<forall>x. x \<noteq> st \<longrightarrow> stage_status c x \<noteq> Some DISPATCHED"
  shows "stage_status (settled_card now c item) = (stage_status c)(st := Some DONE)"
  using assms by (auto simp: fun_eq_iff status_settled finished_def Let_def)

lemma row_moved_rows:
  "row_moved t k s s' \<Longrightarrow> get_card (Some t) k s = Some c \<Longrightarrow> get_card (Some t) k s' = Some c' \<Longrightarrow> intake_row c c'"
  by (auto simp: row_moved_def)

text \<open>The completion event of the stage in flight sends the next one that is queued; when none is, it
  only settles the record.\<close>

lemma event_sends:
  assumes own: "owns_key t k key s" and key: "key \<noteq> []" "wi_key item = key" and got: "get_card (Some t) k s = Some c"
    and b: "buildable env t c" and http: "accepts env"
    and st: "stage_status c st = Some DISPATCHED" "finished (stage_service st) item"
    and rest: "\<forall>x. x \<noteq> st \<longrightarrow> stage_status c x \<notin> {Some DISPATCHED, Some FAILED}"
    and nx: "List.find (\<lambda>x. x \<noteq> st \<and> stage_status c x = Some QUEUED) SEQUENCE = Some nx"
    and test: "nx = TEST \<Longrightarrow> st = CODE"
  shows "\<exists>x r s' c'. apply_status env (Some t) now item s = (Inr x, Some r, s') \<and> get_card (Some t) k s' = Some c'
    \<and> stage_status c' = (stage_status c)(st := Some DONE, nx := Some DISPATCHED) \<and> row_moved t k s s' \<and> agrees item c'"
proof -
  have ok: "cards_ok s" and corr: "truthy (cd_correlation_key c)" using own got key(1) by (auto simp: owns_key_def)
  have k: "cd_key c = k" using got [unfolded got_iff [OF ok]] by (simp add: card_key_of_def)
  note found = owner_found [OF own, unfolded got, folded key(2)]
  let ?c = "settled_card now c item"
  obtain y s1 where se: "settle (Some t) now c item s = (y, s1)" by force
  note m1 = settle_moves [OF ok got [folded k] se]
  have stat: "stage_status ?c = (stage_status c)(st := Some DONE)" using st rest by (intro status_settled_one) auto
  have row: "intake_row c ?c" by (rule settled_row)
  have b': "buildable env t ?c" using buildable_row [OF row b] .
  have nq: "nx \<noteq> st" "stage_status c nx = Some QUEUED" using nx by (auto simp: find_Some_iff)
  have "truthy (cd_correlation_key ?c)" using corr by simp
  then have al: "stage_allowed env t ?c nx" using b' nq test by (auto simp: stage_allowed_def buildable_def stat)
  obtain r s2 c2 where d: "dispatch_stage env (Some t) now ?c nx s1 = (Inr r, s2)" "get_card (Some t) (cd_key ?c) s2 = Some c2"
    "stage_status c2 = (stage_status ?c)(nx := Some DISPATCHED)"
    using dispatch_sends [OF m1(3) _ b' http al, of now] m1(4) by fastforce
  have "(\<lambda>x. stage_status ?c x = Some QUEUED) = (\<lambda>x. x \<noteq> st \<and> stage_status c x = Some QUEUED)" by (auto simp: stat fun_eq_iff)
  then have "List.find (\<lambda>x. stage_status ?c x = Some QUEUED) SEQUENCE = Some nx" using nx by simp
  moreover have "\<not> list_ex (\<lambda>x. stage_status ?c x = Some DISPATCHED) SEQUENCE" "\<not> list_ex (\<lambda>x. stage_status ?c x = Some FAILED) SEQUENCE"
    using rest by (auto simp: stat list_ex_iff)
  ultimately have ad: "advance env (Some t) now ?c s1 = (Inr c2, Some r, s2)" using d by (simp add: advance_def)
  obtain x d3 s' where run: "apply_status env (Some t) now item s = (x, d3, s')" by (cases "apply_status env (Some t) now item s") auto
  note a = apply_status_found [OF ok found run se ad]
  obtain x' where "x = Inr x'" using a by (cases x) auto
  then show ?thesis using a run d(3) stat k by auto
qed

lemma event_finishes:
  assumes own: "owns_key t k key s" and key: "key \<noteq> []" "wi_key item = key" and got: "get_card (Some t) k s = Some c"
    and st: "stage_status c st = Some DISPATCHED" "finished (stage_service st) item"
    and rest: "\<forall>x. x \<noteq> st \<longrightarrow> stage_status c x = Some DONE"
  shows "\<exists>x s' c'. apply_status env (Some t) now item s = (Inr x, None, s') \<and> get_card (Some t) k s' = Some c'
    \<and> stage_status c' = (\<lambda>_. Some DONE) \<and> row_moved t k s s' \<and> agrees item c'"
proof -
  have ok: "cards_ok s" using own by (auto simp: owns_key_def)
  have k: "cd_key c = k" using got [unfolded got_iff [OF ok]] by (simp add: card_key_of_def)
  note found = owner_found [OF own, unfolded got, folded key(2)]
  let ?c = "settled_card now c item"
  obtain y s1 where se: "settle (Some t) now c item s = (y, s1)" by force
  have stat: "stage_status ?c = (\<lambda>_. Some DONE)" using st rest by (subst status_settled_one [of c st]) (auto simp: fun_eq_iff)
  have ad: "advance env (Some t) now ?c s1 = (Inr ?c, None, s1)"
    by (simp add: advance_def stat list_ex_iff find_None_iff [THEN iffD2])
  obtain x d3 s' where run: "apply_status env (Some t) now item s = (x, d3, s')" by (cases "apply_status env (Some t) now item s") auto
  note a = apply_status_found [OF ok found run se ad]
  obtain x' where "x = Inr x'" using a by (cases x) auto
  then show ?thesis using a run stat k by auto
qed

lemma sequence_starts:
  assumes ok: "cards_ok s" and got: "get_card (Some t) (cd_key c) s = Some c" and fresh: "cd_stage_runs c = []" "cd_correlation_key c = None"
    and b: "buildable env t c" and http: "accepts env"
    and key: "\<forall>x. en_http env PFACTORY x = HttpResponse 200 (Some (JObj [(''session_id'', JStr key)]))" "key \<noteq> []"
    and free: "\<forall>x\<in>set (cs_cards s). cd_tenant x = t \<longrightarrow> cd_correlation_key x \<noteq> Some key"
  shows "\<exists>r s' c'. start_sequence env (Some t) now c s = (Inr r, s') \<and> dr_outcome r = Sent key \<and> dr_sequence r = SEQUENCE
    \<and> get_card (Some t) (cd_key c) s' = Some c' \<and> stage_status c' = (\<lambda>st. if st = PLAN then Some DISPATCHED else Some QUEUED)
    \<and> owns_key t (cd_key c) key s' \<and> buildable env t c' \<and> row_moved t (cd_key c) s s'"
proof -
  have none: "stage_status c st = None" for st by (simp add: stage_status_def fresh)
  have todo: "todo_of c = PLAN # [CODE, TEST]" by (simp add: none SEQUENCE_def)
  have tier: "cd_tier c \<noteq> None" using b by (simp add: buildable_def)
  let ?c = "queued_card now c" and ?s = "put_card c (queued_card now c) s"
  note q = queued_got [OF ok got, of now]
  have b': "buildable env t ?c" by (rule buildable_row [OF queued_row b])
  have stat: "stage_status ?c = (\<lambda>_. Some QUEUED)" by (simp add: fun_eq_iff status_queued none)
  have al: "stage_allowed env t ?c PLAN" using tier by (simp add: stage_allowed_def stat)
  obtain r s' c' where d: "dispatch_stage env (Some t) now ?c PLAN ?s = (Inr r, s')" "get_card (Some t) (cd_key ?c) s' = Some c'"
    "stage_status c' = (stage_status ?c)(PLAN := Some DISPATCHED)" "row_moved t (cd_key ?c) ?s s'"
    "dr_outcome r = Sent (the (cd_correlation_key c'))" "cd_correlation_key c' = Some key"
    using dispatch_sends [OF q(1,2) b' http al, of now] key fresh(2) by fastforce
  have seq: "start_sequence env (Some t) now c s = (Inr (r\<lparr>dr_sequence := SEQUENCE\<rparr>), s')"
    using start_sequence_eq [OF ok got tier _ todo, of env now] none d(1) by (simp add: SEQUENCE_def)
  have m: "row_moved t (cd_key c) s s'" using row_moved_trans [OF row_moved_put [OF ok got queued_row] _ ok] d(4) by simp
  have row: "intake_row c c'" using row_moved_rows [OF m got] d(2) by simp
  have "cd_correlation_key x \<noteq> Some key" if x: "x \<in> set (cs_cards s')" "x \<noteq> c'" "cd_tenant x = t" for x
  proof -
    have "x \<in> set (cs_cards s)" using m got d(2) x by (auto simp: row_moved_def)
    then show ?thesis using free x(3) by blast
  qed
  then have "owns_key t (cd_key c) key s'" using d(2,6) row_moved_ok [OF m] unfolding owns_key_def by auto
  then show ?thesis using seq d m stat buildable_row [OF row b] by (auto simp: fun_eq_iff)
qed

lemma sequence_reaches_test:
  assumes "cards_ok s" "get_card (Some t) (cd_key c) s = Some c" "cd_stage_runs c = []" "cd_correlation_key c = None"
    and "buildable env t c" "accepts env"
    and "\<forall>x. en_http env PFACTORY x = HttpResponse 200 (Some (JObj [(''session_id'', JStr key)]))" "key \<noteq> []"
    and "\<forall>x\<in>set (cs_cards s). cd_tenant x = t \<longrightarrow> cd_correlation_key x \<noteq> Some key"
    and items: "wi_key i1 = key" "wi_key i2 = key" and fin: "finished PFACTORY i1" "finished AIFACTORY i2"
  shows "\<exists>r s1 x1 d1 s2 x2 d2 s3 c3. start_sequence env (Some t) n0 c s = (Inr r, s1) \<and> dr_outcome r = Sent key
    \<and> apply_status env (Some t) n1 i1 s1 = (Inr x1, Some d1, s2) \<and> apply_status env (Some t) n2 i2 s2 = (Inr x2, Some d2, s3)
    \<and> get_card (Some t) (cd_key c) s3 = Some c3 \<and> stage_status c3 = (\<lambda>st. if st = TEST then Some DISPATCHED else Some DONE)
    \<and> owns_key t (cd_key c) key s3"
proof -
  let ?k = "cd_key c"
  obtain r s1 c1 where 1: "start_sequence env (Some t) n0 c s = (Inr r, s1)" "dr_outcome r = Sent key" "get_card (Some t) ?k s1 = Some c1"
    "stage_status c1 = (\<lambda>st. if st = PLAN then Some DISPATCHED else Some QUEUED)" "owns_key t ?k key s1" "buildable env t c1"
    using sequence_starts [OF assms(1-9), of n0] by blast
  have q1: "stage_status c1 PLAN = Some DISPATCHED" "finished (stage_service PLAN) i1" "\<forall>x. x \<noteq> PLAN \<longrightarrow> stage_status c1 x \<notin> {Some DISPATCHED, Some FAILED}"
    "List.find (\<lambda>x. x \<noteq> PLAN \<and> stage_status c1 x = Some QUEUED) SEQUENCE = Some CODE" using fin by (simp_all add: 1(4) SEQUENCE_def)
  obtain x1 d1 s2 c2 where 2: "apply_status env (Some t) n1 i1 s1 = (Inr x1, Some d1, s2)" "get_card (Some t) ?k s2 = Some c2"
    "stage_status c2 = (stage_status c1)(PLAN := Some DONE, CODE := Some DISPATCHED)" "row_moved t ?k s1 s2"
    using event_sends [OF 1(5) assms(8) items(1) 1(3,6) assms(6) q1, of n1] by blast
  note own2 = owner_moved [OF 1(5) 2(4) assms(8)] and b2 = buildable_row [OF row_moved_rows [OF 2(4) 1(3) 2(2)] 1(6)]
  have q2: "stage_status c2 CODE = Some DISPATCHED" "finished (stage_service CODE) i2" "\<forall>x. x \<noteq> CODE \<longrightarrow> stage_status c2 x \<notin> {Some DISPATCHED, Some FAILED}"
    "List.find (\<lambda>x. x \<noteq> CODE \<and> stage_status c2 x = Some QUEUED) SEQUENCE = Some TEST" using fin by (simp_all add: 1(4) 2(3) SEQUENCE_def)
  obtain x2 d2 s3 c3 where 3: "apply_status env (Some t) n2 i2 s2 = (Inr x2, Some d2, s3)" "get_card (Some t) ?k s3 = Some c3"
    "stage_status c3 = (stage_status c2)(CODE := Some DONE, TEST := Some DISPATCHED)" "row_moved t ?k s2 s3"
    using event_sends [OF own2 assms(8) items(2) 2(2) b2 assms(6) q2, of n2] by blast
  have "stage_status c3 x = (if x = TEST then Some DISPATCHED else Some DONE)" for x by (cases x) (simp_all add: 1(4) 2(3) 3(3))
  then show ?thesis using 1 2(1) 3 owner_moved [OF own2 3(4) assms(8)] by blast
qed

text \<open>C5: a sequence that is answered runs to its end.  Started on a card that has a tier, a configured
  project and no history, with services that accept what they are sent and the planner naming
  the session, it sends the plan at once; the event that finishes the plan sends the build,
  the one that finishes the build sends the verification, and after the one that finishes the
  verification every stage is done and the card is in the done column.\<close>

theorem sequence_runs_to_done:
  assumes "cards_ok s" "get_card (Some t) (cd_key c) s = Some c" "cd_stage_runs c = []" "cd_correlation_key c = None"
    and "buildable env t c" "accepts env"
    and "\<forall>x. en_http env PFACTORY x = HttpResponse 200 (Some (JObj [(''session_id'', JStr key)]))" "key \<noteq> []"
    and "\<forall>x\<in>set (cs_cards s). cd_tenant x = t \<longrightarrow> cd_correlation_key x \<noteq> Some key"
    and items: "wi_key i1 = key" "wi_key i2 = key" "wi_key i3 = key"
    and fin: "finished PFACTORY i1" "finished AIFACTORY i2" "finished TFACTORY i3"
  shows "\<exists>r s1 x1 d1 s2 x2 d2 s3 x3 s4 c4. start_sequence env (Some t) n0 c s = (Inr r, s1) \<and> dr_outcome r = Sent key
    \<and> apply_status env (Some t) n1 i1 s1 = (Inr x1, Some d1, s2) \<and> apply_status env (Some t) n2 i2 s2 = (Inr x2, Some d2, s3)
    \<and> apply_status env (Some t) n3 i3 s3 = (Inr x3, None, s4)
    \<and> get_card (Some t) (cd_key c) s4 = Some c4 \<and> cd_status c4 = Card_done \<and> (\<forall>st. stage_status c4 st = Some DONE)"
proof -
  let ?k = "cd_key c"
  obtain r s1 x1 d1 s2 x2 d2 s3 c3 where 1: "start_sequence env (Some t) n0 c s = (Inr r, s1)" "dr_outcome r = Sent key"
    "apply_status env (Some t) n1 i1 s1 = (Inr x1, Some d1, s2)" "apply_status env (Some t) n2 i2 s2 = (Inr x2, Some d2, s3)"
    and 3: "get_card (Some t) ?k s3 = Some c3" "stage_status c3 = (\<lambda>st. if st = TEST then Some DISPATCHED else Some DONE)" "owns_key t ?k key s3"
    using sequence_reaches_test [OF assms(1-9) items(1,2) fin(1,2), of n0 n1 n2] by blast
  obtain x3 s4 c4 where 4: "apply_status env (Some t) n3 i3 s3 = (Inr x3, None, s4)" "get_card (Some t) ?k s4 = Some c4"
    "stage_status c4 = (\<lambda>_. Some DONE)" "agrees i3 c4"
    using event_finishes [OF 3(3) assms(8) items(3) 3(1), of TEST env n3] fin(3) by (auto simp: 3(2))
  have "pending_stages c4 = []" by (simp add: pending_stages_def 4(3))
  then have "cd_status c4 = Card_done" using 4(4) fin(3)
    by (simp add: agrees_def card_status_for_def finished_def Let_def)
  then show ?thesis using 1 4 by auto
qed

definition session_env :: intake_env where
  "session_env = ex_intake (\<lambda>_ _. HttpResponse 200 (Some (JObj [(''session_id'', JStr ''s1'')])))"

definition all_done :: work_item where
  "all_done = (let st = empty_state\<lparr>ss_status := Some ''done''\<rparr> in \<lparr>wi_key = ''s1'', wi_title = None, wi_pfactory = st,
     wi_aifactory = st, wi_tfactory = st, wi_timeline = [], wi_created_at = None, wi_updated_at = None\<rparr>)"

lemma all_done_finished: "finished svc all_done"
proof -
  have "is_done (Some ''done'')" "\<not> is_failure_or_stuck (Some ''done'')"
    by (simp_all add: is_failure_or_stuck_def is_done_def is_failed_def is_stuck_def status_matches_def status_tokens_def eval_str
        status_sep_def DONE_TOKENS_def FAILED_TOKENS_def STUCK_TOKENS_def)
  then show ?thesis by (cases svc) (simp_all add: finished_def all_done_def Let_def)
qed

lemma session_accepts: "accepts session_env"
  by (simp add: accepts_def session_env_def ex_intake_def is_success_def refusal_in_body_def)

lemma low_buildable: "buildable session_env t low_card"
  using ex_target [of low_card _ t] by (fastforce simp: buildable_def session_env_def low_card_def ex_card_def issue_number_payload_def)

theorem sequence_runs_to_done_witness:
  "\<exists>r s1 x1 d1 s2 x2 d2 s3 x3 s4 c4. start_sequence session_env (Some ''acme'') 1 low_card (ex_board low_card) = (Inr r, s1)
    \<and> apply_status session_env (Some ''acme'') 2 all_done s1 = (Inr x1, Some d1, s2)
    \<and> apply_status session_env (Some ''acme'') 3 all_done s2 = (Inr x2, Some d2, s3)
    \<and> apply_status session_env (Some ''acme'') 4 all_done s3 = (Inr x3, None, s4)
    \<and> get_card (Some ''acme'') ''FCT-1'' s4 = Some c4 \<and> cd_status c4 = Card_done"
proof -
  have c: "cd_key low_card = ''FCT-1''" "cd_tenant low_card = ''acme''" "cd_deleted_at low_card = None" "cd_stage_runs low_card = []"
    "cd_correlation_key low_card = None" by (simp_all add: low_card_def ex_card_def)
  have free: "\<forall>x\<in>set (cs_cards (ex_board low_card)). cd_tenant x = ''acme'' \<longrightarrow> cd_correlation_key x \<noteq> Some ''s1''"
    by (simp add: ex_board_def c)
  have http: "\<forall>x. en_http session_env PFACTORY x = HttpResponse 200 (Some (JObj [(''session_id'', JStr ''s1'')]))"
    by (simp add: session_env_def ex_intake_def)
  have k: "wi_key all_done = ''s1''" by (simp add: all_done_def Let_def)
  show ?thesis
    using sequence_runs_to_done [OF ex_board_ok ex_board_got [OF c(2,3)] c(4,5) low_buildable session_accepts http _ free k k k
        all_done_finished all_done_finished all_done_finished, of 1 2 3 4] c(1) by simp blast
qed

text \<open>The same run, from an empty board, with its verification sent.\<close>

theorem no_verification_without_build_witness:
  "\<exists>s c. intake_run ''acme'' s \<and> c \<in> set (cs_cards s) \<and> stage_status c TEST = Some DISPATCHED \<and> stage_status c CODE = Some DONE"
proof -
  let ?d = "ex_create\<lparr>cn_key := Some ''FCT-1'', cn_tier := Some Low, cn_issue_ref := None\<rparr>"
  have c0: "card_exec ''acme'' (CreateCard 0 ?d) cards_empty = Inr (ex_board low_card)"
    by (simp add: create_card_def plan_card_def commit_card_def insert_card_def key_used_def cards_empty_def ex_create_def
        ex_board_def low_card_def ex_card_def)
  have r0: "intake_run ''acme'' (ex_board low_card)" by (rule Run_board [OF Run_start _ _ c0]) simp_all
  have c: "cd_key low_card = ''FCT-1''" "cd_tenant low_card = ''acme''" "cd_deleted_at low_card = None" "cd_stage_runs low_card = []"
    "cd_correlation_key low_card = None" by (simp_all add: low_card_def ex_card_def)
  have free: "\<forall>x\<in>set (cs_cards (ex_board low_card)). cd_tenant x = ''acme'' \<longrightarrow> cd_correlation_key x \<noteq> Some ''s1''"
    by (simp add: ex_board_def c)
  have http: "\<forall>x. en_http session_env PFACTORY x = HttpResponse 200 (Some (JObj [(''session_id'', JStr ''s1'')]))"
    by (simp add: session_env_def ex_intake_def)
  have k: "wi_key all_done = ''s1''" and ne: "''s1'' \<noteq> []" by (simp_all add: all_done_def Let_def)
  note got = ex_board_got [OF c(2,3)] and ok = ex_board_ok [of low_card]
  obtain r s1 x1 d1 s2 x2 d2 s3 c3 where 1: "start_sequence session_env (Some ''acme'') 1 low_card (ex_board low_card) = (Inr r, s1)"
    "apply_status session_env (Some ''acme'') 2 all_done s1 = (Inr x1, Some d1, s2)"
    "apply_status session_env (Some ''acme'') 3 all_done s2 = (Inr x2, Some d2, s3)"
    and 3: "get_card (Some ''acme'') ''FCT-1'' s3 = Some c3" "stage_status c3 = (\<lambda>st. if st = TEST then Some DISPATCHED else Some DONE)"
    using sequence_reaches_test [OF ok got c(4,5) low_buildable session_accepts http ne free k k all_done_finished all_done_finished, of 1 2 3]
    unfolding c(1) by blast
  have r3: "intake_run ''acme'' s3" by (rule Run_event [OF Run_event [OF Run_sequence [OF r0 got 1(1)] 1(2)] 1(3)])
  have "c3 \<in> set (cs_cards s3)" "stage_status c3 TEST = Some DISPATCHED" using get_card_Some [OF 3(1)] 3(2) by auto
  then show ?thesis using no_verification_without_build [OF r3] r3 by blast
qed

end
