(* ===== verification/IssueSync.thy ===== *)
theory IssueSync
  imports CardIntake IssueImport
begin

text \<open>
  The sync of one card with its issue, \<open>github_sync.py\<close>: the issue is opened when the card has
  none and mirrored onto the card when it has.  \<open>sync_env\<close> adds to the git configuration the two
  provider calls, whose failure says whether the host answered 404, and the reference the log
  gives a failure.
\<close>

section \<open>What is sent and what comes back\<close>

definition issue_body :: "card \<Rightarrow> string" where
  "issue_body c = join_with NL ((''_Planned on the CFactory board as `'' @ cd_key c @ ''`._'')
     # (if cd_criteria c = [] then [] else [[], ''## Acceptance Criteria'', []] @ map (\<lambda>a. ''- [ ] '' @ a) (cd_criteria c)))"

datatype sync_failure = Host_said_missing | Provider_call_failed | No_project_to_open_in

record sync_env =
  sy_intake :: intake_env
  sy_open :: "git_target \<Rightarrow> string \<Rightarrow> string \<Rightarrow> string \<Rightarrow> string list option \<Rightarrow> sync_failure + issue_data"
  sy_fetch :: "git_target \<Rightarrow> string \<Rightarrow> nat \<Rightarrow> sync_failure + issue_data"
  sy_error_id :: string

definition open_issue :: "sync_env \<Rightarrow> git_target \<Rightarrow> card \<Rightarrow> sync_failure + (string \<times> nat) \<times> issue_data" where
  "open_issue env g c = (case gt_project g of
     None \<Rightarrow> Inl No_project_to_open_in
   | Some p \<Rightarrow> res_bind (sy_open env g p (cd_title c) (issue_body c) (if gt_default_labels g = [] then None else Some (gt_default_labels g)))
       (\<lambda>i. Inr ((p, is_number i), i)))"

definition fetch_issue :: "sync_env \<Rightarrow> git_target \<Rightarrow> string \<times> nat \<Rightarrow> sync_failure + (string \<times> nat) \<times> issue_data" where
  "fetch_issue env g r = res_bind (sy_fetch env g (fst r) (snd r)) (\<lambda>i. Inr (r, i))"

definition is_missing :: "sync_failure \<Rightarrow> bool" where
  "is_missing e = (e = Host_said_missing)"

definition sync_status_for :: "string \<Rightarrow> card_status \<Rightarrow> card_status option" where
  "sync_status_for state st = (if state = ''closed'' then Some Card_done
     else if st = Card_done then Some In_progress else None)"

text \<open>The fields the issue overwrites, less those that already hold.\<close>

definition mirror_fields :: "card \<Rightarrow> string \<times> nat \<Rightarrow> issue_data \<Rightarrow> card_field list" where
  "mirror_fields c r i =
     [F_sync_error None, F_issue_ref (Some (issue_ref (fst r) (snd r)))]
     @ (if is_title i = [] then [] else [F_title (Some (is_title i))])
     @ [F_description (none_if_empty (is_body i)), F_labels (is_labels i)]
     @ (if is_state i = [] then [] else F_issue_state (Some (is_state i))
         # (case sync_status_for (is_state i) (cd_status c) of None \<Rightarrow> [] | Some st \<Rightarrow> [F_status (Some st)]))"

definition mirror_changes :: "card \<Rightarrow> string \<times> nat \<Rightarrow> issue_data \<Rightarrow> card_field list" where
  "mirror_changes c r i = filter (\<lambda>f. set_field f c \<noteq> c) (mirror_fields c r i)"

section \<open>One sync\<close>

text \<open>The names of the mirrored fields are those of the list, less the error mark.\<close>

datatype sync_result =
    Sync_off
  | Call_failed string
  | Issue_taken string bool
  | Synced string bool "card_field list"

fun sync_ok :: "sync_result \<Rightarrow> bool" where
  "sync_ok Sync_off = True" | "sync_ok (Call_failed e) = False" | "sync_ok (Issue_taken e cr) = False" | "sync_ok (Synced r cr fs) = True"

definition call_failed :: "sync_env \<Rightarrow> string" where
  "call_failed env = ''the provider call failed (reference '' @ sy_error_id env @ '')''"

definition issue_taken :: "string \<times> nat \<Rightarrow> string" where
  "issue_taken r = ''another card already tracks '' @ issue_ref (fst r) (snd r)"

text \<open>An update that is not the mirror's own is not expected to fail: what it raises is raised.\<close>

definition mark_card ::
  "string option \<Rightarrow> int \<Rightarrow> card \<Rightarrow> card_field list \<Rightarrow> sync_result \<Rightarrow> card_store \<Rightarrow> (intake_error + sync_result) \<times> card_store" where
  "mark_card scope now c fs r s = (case update_card scope (cd_key c) fs now s of
     Inl e \<Rightarrow> (Inl (Store_failed_update e), s) | Inr (_, s') \<Rightarrow> (Inr r, s'))"

definition sync_card ::
  "sync_env \<Rightarrow> string option \<Rightarrow> int \<Rightarrow> card \<Rightarrow> card_store \<Rightarrow> (intake_error + sync_result) \<times> card_store" where
  "sync_card env scope now c s = (case git_target_for_card (sy_intake env) scope c of
     Inl e \<Rightarrow> (Inl e, s)
   | Inr g \<Rightarrow>
      (if \<not> sync_enabled g then (Inr Sync_off, s)
       else (let parsed = parse_issue_ref (cd_issue_ref c)
             in case (case parsed of None \<Rightarrow> open_issue env g c | Some r \<Rightarrow> fetch_issue env g r) of
           Inl e \<Rightarrow> mark_card scope now c (F_sync_error (Some (call_failed env))
               # (if is_missing e then [F_issue_state (Some ''missing'')] else [])) (Call_failed (call_failed env)) s
         | Inr (r, i) \<Rightarrow>
            (let fs = mirror_changes c r i;
                 ok = Inr (Synced (issue_ref (fst r) (snd r)) (parsed = None) (filter (\<lambda>f. f \<noteq> F_sync_error None) fs))
             in if fs = [] then (ok, s)
                else (case update_card scope (cd_key c) fs now s of
                    Inr (_, s') \<Rightarrow> (ok, s')
                  | Inl (DuplicateIssueRef _) \<Rightarrow> mark_card scope now c [F_sync_error (Some (issue_taken r))]
                      (Issue_taken (issue_taken r) (parsed = None)) s
                  | Inl e \<Rightarrow> (Inl (Store_failed_update e), s))))))"

text \<open>The hook of a card write: \<open>None\<close> when the write is no sync event.\<close>

definition maybe_sync ::
  "sync_env \<Rightarrow> string option \<Rightarrow> int \<Rightarrow> card \<Rightarrow> card_store \<Rightarrow> (intake_error + sync_result option) \<times> card_store" where
  "maybe_sync env scope now c s = (case git_target_for_card (sy_intake env) scope c of
     Inl e \<Rightarrow> (Inl e, s)
   | Inr g \<Rightarrow>
      (if \<not> sync_enabled g then (Inr None, s)
       else if \<not> truthy (cd_issue_ref c) \<and> \<not> (cd_status c = Ready \<and> truthy (gt_project g)) then (Inr None, s)
       else (case sync_card env scope now c s of (Inl e, s') \<Rightarrow> (Inl e, s') | (Inr r, s') \<Rightarrow> (Inr (Some r), s'))))"

end
