(* ===== verification/BoardOps.thy ===== *)
theory BoardOps
  imports IssueSync AuditChain
begin

text \<open>
  The board operations both surfaces call, \<open>card_ops.py\<close>: a card mutation, its audit entries, the
  issue hook and the intake hook, in that order.  The state is the card store with the audit
  log; what an operation wrote before it raised stays, so it returns the state with its error.
  An \<open>audit_ctx\<close> is the chain's keys with who acts and from where.
\<close>

section \<open>State, context and errors\<close>

record board =
  bd_cards :: card_store
  bd_audit :: audit_log

record audit_ctx =
  cx_keys :: keystore
  cx_sha :: "string \<Rightarrow> string"
  cx_mac :: "string \<Rightarrow> string"
  cx_actor :: string
  cx_endpoint :: string

text \<open>\<open>be_reads\<close> is what reading the stored credential gave, each time the provider's client did so
  during the one operation.\<close>

record board_env =
  be_sync :: sync_env
  be_import :: import_env
  be_reads :: "bool list"

datatype op_error =
    Card_not_found string
  | Stage_refused refusal
  | Unknown_stage string
  | Store_refused card_error
  | Hook_raised intake_error
  | Import_raised git_error
  | Audit_raised auth_error

definition op_bind :: "(op_error + 'a) \<times> 's \<Rightarrow> ('a \<Rightarrow> 's \<Rightarrow> (op_error + 'b) \<times> 's) \<Rightarrow> (op_error + 'b) \<times> 's" where
  "op_bind m f = (case m of (Inl e, s) \<Rightarrow> (Inl e, s) | (Inr x, s) \<Rightarrow> f x s)"

section \<open>Audit entries\<close>

definition audit_note ::
  "audit_ctx \<Rightarrow> int \<Rightarrow> string \<Rightarrow> string \<Rightarrow> string \<Rightarrow> string \<Rightarrow> nat \<Rightarrow> bool \<Rightarrow> board \<Rightarrow> (op_error + unit) \<times> board" where
  "audit_note cx now kind key service endpoint code ok b =
    (case record_entry (cx_keys cx) (cx_sha cx) (cx_mac cx) now
        \<lparr>ae_id = 0, ae_ts = now, ae_actor = cx_actor cx, ae_kind = kind, ae_key = key, ae_service = service,
         ae_endpoint = endpoint, ae_status_code = int code, ae_ok = ok, ae_prev_hash = None, ae_hash = []\<rparr> (bd_audit b) of
       Inl e \<Rightarrow> (Inl (Audit_raised e), b)
     | Inr l \<Rightarrow> (Inr (), b\<lparr>bd_audit := l\<rparr>))"

definition card_endpoint :: "audit_ctx \<Rightarrow> string \<Rightarrow> string" where
  "card_endpoint cx key = cx_endpoint cx @ ''/'' @ key"

definition record_mutation :: "audit_ctx \<Rightarrow> int \<Rightarrow> string \<Rightarrow> string \<Rightarrow> nat \<Rightarrow> board \<Rightarrow> (op_error + unit) \<times> board" where
  "record_mutation cx now kind key code b = audit_note cx now kind key ''cfactory'' (card_endpoint cx key) code True b"

text \<open>A dispatch is attributed to the service it went to, if it went to one.\<close>

definition dispatch_target :: "dispatch_result \<Rightarrow> string" where
  "dispatch_target r = (case dr_stage r of None \<Rightarrow> ''cfactory''
     | Some st \<Rightarrow> (case dr_outcome r of Sent _ \<Rightarrow> service_value (stage_service st)
        | Send_failed _ \<Rightarrow> service_value (stage_service st) | _ \<Rightarrow> ''cfactory''))"

definition record_dispatch :: "audit_ctx \<Rightarrow> int \<Rightarrow> string \<Rightarrow> dispatch_result \<Rightarrow> board \<Rightarrow> (op_error + unit) \<times> board" where
  "record_dispatch cx now key r b = audit_note cx now ''dispatch_card'' (the (py_or (dr_key r) (Some key))) (dispatch_target r)
     (card_endpoint cx key) (dr_status r) (dr_ok (dr_outcome r)) b"

definition record_sync :: "audit_ctx \<Rightarrow> int \<Rightarrow> string \<Rightarrow> sync_result \<Rightarrow> board \<Rightarrow> (op_error + unit) \<times> board" where
  "record_sync cx now key r b = audit_note cx now ''sync_card_github'' key ''github'' (card_endpoint cx key)
     (if sync_ok r then 200 else 0) (sync_ok r) b"

text \<open>Reading a stored credential is an entry of its own.  The read is inside the provider call: an
  entry that cannot be written ends that call, not the operation.\<close>

fun note_reads :: "audit_ctx \<Rightarrow> int \<Rightarrow> string \<Rightarrow> bool list \<Rightarrow> board \<Rightarrow> board" where
  "note_reads cx now t [] b = b"
| "note_reads cx now t (ok # oks) b = note_reads cx now t oks (snd (audit_note cx now ''read_git_credential'' (''tenant:'' @ t) ''git_provider''
     (''/api/tenants/'' @ t @ ''/git-credential'') (if ok then 200 else 0) ok b))"

section \<open>The hooks of a write\<close>

definition card_now :: "string option \<Rightarrow> card \<Rightarrow> board \<Rightarrow> card" where
  "card_now scope c b = (case get_card scope (cd_key c) (bd_cards b) of None \<Rightarrow> c | Some c' \<Rightarrow> c')"

definition issue_hook ::
  "board_env \<Rightarrow> audit_ctx \<Rightarrow> string option \<Rightarrow> int \<Rightarrow> card \<Rightarrow> board \<Rightarrow> (op_error + card) \<times> board" where
  "issue_hook env cx scope now c b = (case maybe_sync (be_sync env) scope now c (bd_cards b) of
     (Inl e, s) \<Rightarrow> (Inl (Hook_raised e), b\<lparr>bd_cards := s\<rparr>)
   | (Inr None, s) \<Rightarrow> (Inr c, b\<lparr>bd_cards := s\<rparr>)
   | (Inr (Some r), s) \<Rightarrow>
       op_bind (record_sync cx now (cd_key c) r (note_reads cx now (tenant_of scope) (be_reads env) (b\<lparr>bd_cards := s\<rparr>)))
         (\<lambda>_ b'. (Inr (card_now scope c b'), b')))"

definition intake_hook ::
  "board_env \<Rightarrow> audit_ctx \<Rightarrow> string option \<Rightarrow> int \<Rightarrow> card \<Rightarrow> board \<Rightarrow> (op_error + card) \<times> board" where
  "intake_hook env cx scope now c b = (case maybe_dispatch (sy_intake (be_sync env)) scope now c (bd_cards b) of
     (Inl e, s) \<Rightarrow> (Inl (Hook_raised e), b\<lparr>bd_cards := s\<rparr>)
   | (Inr None, s) \<Rightarrow> (Inr c, b\<lparr>bd_cards := s\<rparr>)
   | (Inr (Some r), s) \<Rightarrow> op_bind (record_dispatch cx now (cd_key c) r (b\<lparr>bd_cards := s\<rparr>))
         (\<lambda>_ b'. (Inr (card_now scope c b'), b')))"

text \<open>The issue first, so that what is dispatched has the issue's title.\<close>

definition written ::
  "board_env \<Rightarrow> audit_ctx \<Rightarrow> string option \<Rightarrow> int \<Rightarrow> string \<Rightarrow> nat \<Rightarrow> card \<Rightarrow> board \<Rightarrow> (op_error + card) \<times> board" where
  "written env cx scope now kind code c b = op_bind (record_mutation cx now kind (cd_key c) code b) (\<lambda>_ b1.
     op_bind (issue_hook env cx scope now c b1) (\<lambda>c1 b2. intake_hook env cx scope now c1 b2))"

section \<open>Mutations\<close>

definition op_create ::
  "board_env \<Rightarrow> audit_ctx \<Rightarrow> string option \<Rightarrow> int \<Rightarrow> card_create \<Rightarrow> board \<Rightarrow> (op_error + card) \<times> board" where
  "op_create env cx scope now d b = (case create_card scope now d (bd_cards b) of
     Inl e \<Rightarrow> (Inl (Store_refused e), b)
   | Inr (c, s) \<Rightarrow> written env cx scope now ''create_card'' 201 c (b\<lparr>bd_cards := s\<rparr>))"

definition op_update ::
  "board_env \<Rightarrow> audit_ctx \<Rightarrow> string option \<Rightarrow> int \<Rightarrow> string \<Rightarrow> card_field list \<Rightarrow> board \<Rightarrow> (op_error + card) \<times> board" where
  "op_update env cx scope now key fs b = (case update_card scope key fs now (bd_cards b) of
     Inl e \<Rightarrow> (Inl (Store_refused e), b)
   | Inr (None, s) \<Rightarrow> (Inl (Card_not_found key), b)
   | Inr (Some c, s) \<Rightarrow> written env cx scope now ''update_card'' 200 c (b\<lparr>bd_cards := s\<rparr>))"

definition op_delete ::
  "audit_ctx \<Rightarrow> string option \<Rightarrow> int \<Rightarrow> string \<Rightarrow> board \<Rightarrow> (op_error + unit) \<times> board" where
  "op_delete cx scope now key b = (case delete_card scope key now (bd_cards b) of
     (False, s) \<Rightarrow> (Inl (Card_not_found key), b)
   | (True, s) \<Rightarrow> record_mutation cx now ''delete_card'' key 200 (b\<lparr>bd_cards := s\<rparr>))"

definition op_sync ::
  "board_env \<Rightarrow> audit_ctx \<Rightarrow> string option \<Rightarrow> int \<Rightarrow> string \<Rightarrow> board \<Rightarrow> (op_error + sync_result \<times> card) \<times> board" where
  "op_sync env cx scope now key b = (case get_card scope key (bd_cards b) of
     None \<Rightarrow> (Inl (Card_not_found key), b)
   | Some c \<Rightarrow> (case sync_card (be_sync env) scope now c (bd_cards b) of
        (Inl e, s) \<Rightarrow> (Inl (Hook_raised e), b\<lparr>bd_cards := s\<rparr>)
      | (Inr r, s) \<Rightarrow>
          op_bind (record_sync cx now key r (if r = Sync_off then b\<lparr>bd_cards := s\<rparr>
              else note_reads cx now (tenant_of scope) (be_reads env) (b\<lparr>bd_cards := s\<rparr>)))
            (\<lambda>_ b'. (Inr (r, card_now scope c b'), b'))))"

section \<open>Stage actions\<close>

fun refusal_of :: "dispatch_outcome \<Rightarrow> refusal option" where
  "refusal_of (Refused why) = Some why"
| "refusal_of _ = None"

definition finish_stage_action ::
  "audit_ctx \<Rightarrow> string option \<Rightarrow> int \<Rightarrow> string \<Rightarrow> dispatch_result \<Rightarrow> board \<Rightarrow> (op_error + dispatch_result \<times> card option) \<times> board" where
  "finish_stage_action cx scope now key r b = (case refusal_of (dr_outcome r) of
     Some why \<Rightarrow> (Inl (Stage_refused why), b)
   | None \<Rightarrow> op_bind (record_dispatch cx now key r b) (\<lambda>_ b'. (Inr (r, get_card scope key (bd_cards b')), b')))"

definition op_run_stage ::
  "board_env \<Rightarrow> audit_ctx \<Rightarrow> string option \<Rightarrow> int \<Rightarrow> string \<Rightarrow> string \<Rightarrow> board \<Rightarrow> (op_error + dispatch_result \<times> card option) \<times> board" where
  "op_run_stage env cx scope now key stage b = (case parse_stage stage of
     None \<Rightarrow> (Inl (Unknown_stage stage), b)
   | Some st \<Rightarrow> (case get_card scope key (bd_cards b) of
        None \<Rightarrow> (Inl (Card_not_found key), b)
      | Some c \<Rightarrow> (case dispatch_stage (sy_intake (be_sync env)) scope now c st (bd_cards b) of
           (Inl e, s) \<Rightarrow> (Inl (Hook_raised e), b\<lparr>bd_cards := s\<rparr>)
         | (Inr r, s) \<Rightarrow> finish_stage_action cx scope now key r (b\<lparr>bd_cards := s\<rparr>))))"

definition op_run_sequence ::
  "board_env \<Rightarrow> audit_ctx \<Rightarrow> string option \<Rightarrow> int \<Rightarrow> string \<Rightarrow> board \<Rightarrow> (op_error + dispatch_result \<times> card option) \<times> board" where
  "op_run_sequence env cx scope now key b = (case get_card scope key (bd_cards b) of
     None \<Rightarrow> (Inl (Card_not_found key), b)
   | Some c \<Rightarrow> (case start_sequence (sy_intake (be_sync env)) scope now c (bd_cards b) of
        (Inl e, s) \<Rightarrow> (Inl (Hook_raised e), b\<lparr>bd_cards := s\<rparr>)
      | (Inr r, s) \<Rightarrow> finish_stage_action cx scope now key r (b\<lparr>bd_cards := s\<rparr>)))"

definition op_import ::
  "board_env \<Rightarrow> audit_ctx \<Rightarrow> string option \<Rightarrow> int \<Rightarrow> nat option \<Rightarrow> string option \<Rightarrow> bool \<Rightarrow> board \<Rightarrow> (op_error + import_result) \<times> board" where
  "op_import env cx scope now repository_id project full b =
    (case import_issues (be_import env) scope now repository_id project full (bd_cards b) of
       Inl e \<Rightarrow> (Inl (Import_raised e), b)
     | Inr (r, s) \<Rightarrow> op_bind
         (audit_note cx now ''import_cards'' (if ir_project r = [] then ''-'' else ir_project r) ''git_provider'' (cx_endpoint cx @ ''/import'')
           (if ir_ok r then 200 else 0) (ir_ok r) (note_reads cx now (tenant_of scope) (be_reads env) (b\<lparr>bd_cards := s\<rparr>)))
         (\<lambda>_ b'. (Inr r, b')))"

section \<open>Reads\<close>

definition op_list :: "string option \<Rightarrow> card_filter \<Rightarrow> board \<Rightarrow> nat \<times> card list" where
  "op_list scope f b = (let cs = list_cards scope f (bd_cards b) in (length cs, cs))"

definition op_get :: "string option \<Rightarrow> string \<Rightarrow> board \<Rightarrow> op_error + card" where
  "op_get scope key b = (case get_card scope key (bd_cards b) of None \<Rightarrow> Inl (Card_not_found key) | Some c \<Rightarrow> Inr c)"

definition op_comments :: "string option \<Rightarrow> string \<Rightarrow> board \<Rightarrow> op_error + nat \<times> int option \<times> comment_row list" where
  "op_comments scope key b = res_bind (op_get scope key b) (\<lambda>c.
     let cs = comments_of scope key (bd_cards b) in Inr (length cs, cd_comments_synced_at c, cs))"

definition import_states :: "string option \<Rightarrow> card_store \<Rightarrow> (string, import_state) dict" where
  "import_states scope s = fold (\<lambda>i. dset (im_project i) i) (filter (\<lambda>i. im_tenant i = tenant_of scope) (cs_imports s)) []"

record freshness =
  fr_repository :: "nat option"
  fr_project :: string
  fr_default :: bool
  fr_polled :: "int option"
  fr_watermark :: "int option"
  fr_stale :: bool

definition STALE_CYCLES :: rat where "STALE_CYCLES = 2"

definition poll_interval :: "import_env \<Rightarrow> rat" where
  "poll_interval env = max 1 (ie_poll_seconds env)"

definition is_stale :: "import_env \<Rightarrow> int \<Rightarrow> int option \<Rightarrow> bool" where
  "is_stale env now polled = (case polled of None \<Rightarrow> True
     | Some w \<Rightarrow> round (1000000 * (poll_interval env * STALE_CYCLES)) < now - w)"

definition freshness_targets :: "import_env \<Rightarrow> string option \<Rightarrow> (nat option \<times> string \<times> bool) list" where
  "freshness_targets env scope = (let rs = repositories (tenant_of scope) None (ie_db env)
     in if rs = [] then [(None, strip (or_empty (st_github_repo (ie_git env))), True)]
        else map (\<lambda>r. (Some (gr_id r), the (py_or (gr_intake_project r) (Some (gr_project r))), is_default r)) rs)"

definition sync_state :: "import_env \<Rightarrow> string option \<Rightarrow> int \<Rightarrow> board \<Rightarrow> freshness list" where
  "sync_state env scope now b = map (\<lambda>(rid, project, dflt).
     let st = dget (import_states scope (bd_cards b)) project;
         polled = Option.bind st im_last_polled_at
     in \<lparr>fr_repository = rid, fr_project = project, fr_default = dflt, fr_polled = polled,
         fr_watermark = Option.bind st im_last_synced_at, fr_stale = is_stale env now polled\<rparr>) (freshness_targets env scope)"

end
