(* ===== verification/SyncSafety.thy ===== *)
theory SyncSafety
  imports IssueSync IntakeSafety ImportSafety
begin

text \<open>
  What a sync does to the card it is for: the issue's fields on success, the error mark on
  failure, nothing else and no other card; and when a second sync opens a second issue.
\<close>

section \<open>The mirrored card\<close>

definition mirrored :: "string \<times> nat \<Rightarrow> issue_data \<Rightarrow> card \<Rightarrow> card" where
  "mirrored r i c = c\<lparr>cd_sync_error := None, cd_issue_ref := Some (issue_ref (fst r) (snd r)),
     cd_title := (if is_title i = [] then cd_title c else is_title i), cd_description := none_if_empty (is_body i),
     cd_labels := is_labels i, cd_issue_state := (if is_state i = [] then cd_issue_state c else Some (is_state i)),
     cd_status := (if is_state i = [] then cd_status c
       else (case sync_status_for (is_state i) (cd_status c) of None \<Rightarrow> cd_status c | Some st \<Rightarrow> st))\<rparr>"

lemma fold_mirror: "fold set_field (mirror_fields c r i) c = mirrored r i c"
  by (cases c) (simp add: mirror_fields_def mirrored_def split: option.splits)

lemma fold_changes_mirror: "fold set_field (mirror_changes c r i) c = mirrored r i c"
  unfolding mirror_changes_def fold_mirror [symmetric]
  by (intro fold_changed) (auto simp: mirror_fields_def split: option.splits)

lemma mirror_sound: "\<not> list_ex null_violation (mirror_changes c r i) \<and> F_criteria None \<notin> set (mirror_changes c r i)"
proof -
  have "set (mirror_changes c r i) \<subseteq> set (mirror_fields c r i)" unfolding mirror_changes_def by (rule filter_is_subset)
  moreover have "\<forall>f\<in>set (mirror_fields c r i). \<not> null_violation f \<and> f \<noteq> F_criteria None"
    by (cases "sync_status_for (is_state i) (cd_status c)") (simp_all add: mirror_fields_def)
  ultimately show ?thesis unfolding list_ex_iff by blast
qed

lemma field_holds:
  "cd_sync_error c = v \<Longrightarrow> set_field (F_sync_error v) c = c" "cd_issue_ref c = v \<Longrightarrow> set_field (F_issue_ref v) c = c"
  "cd_title c = x \<Longrightarrow> set_field (F_title (Some x)) c = c" "cd_description c = v \<Longrightarrow> set_field (F_description v) c = c"
  "cd_labels c = ls \<Longrightarrow> set_field (F_labels ls) c = c" "cd_issue_state c = v \<Longrightarrow> set_field (F_issue_state v) c = c"
  "cd_status c = st \<Longrightarrow> set_field (F_status (Some st)) c = c"
  by (cases c; simp)+

lemma mirror_none: "mirror_changes c r i = [] \<longleftrightarrow> mirrored r i c = c"
proof
  assume "mirror_changes c r i = []"
  then show "mirrored r i c = c" using fold_changes_mirror [of c r i] by simp
next
  assume m: "mirrored r i c = c"
  have "set_field f (mirrored r i c) = mirrored r i c" if "f \<in> set (mirror_fields c r i)" for f
    using that unfolding mirror_fields_def
    by (auto intro!: field_holds simp: mirrored_def simp del: set_field.simps split: if_splits option.splits)
  then show "mirror_changes c r i = []" by (simp add: mirror_changes_def m filter_empty_conv)
qed

lemma mirrored_keys [simp]: "card_key_of (mirrored r i c) = card_key_of c" "cd_deleted_at (mirrored r i c) = cd_deleted_at c"
    "cd_key (mirrored r i c) = cd_key c" "cd_issue_ref (mirrored r i c) = Some (issue_ref (fst r) (snd r))"
  by (simp_all add: mirrored_def card_key_of_def)

lemma mirrored_again: "mirrored r i ((mirrored r i c)\<lparr>cd_updated_at := now\<rparr>) = (mirrored r i c)\<lparr>cd_updated_at := now\<rparr>"
  by (cases c) (simp add: mirrored_def sync_status_for_def split: option.splits)

section \<open>One sync, exactly\<close>

definition tracked_elsewhere :: "string \<Rightarrow> string \<times> nat \<Rightarrow> card \<Rightarrow> card_store \<Rightarrow> bool" where
  "tracked_elsewhere t r c s = (\<exists>d\<in>set (cs_cards s). d \<noteq> c \<and> issue_key_of d = Some (t, issue_ref (fst r) (snd r)))"

definition host_answer :: "sync_env \<Rightarrow> git_target \<Rightarrow> card \<Rightarrow> sync_failure + (string \<times> nat) \<times> issue_data" where
  "host_answer env g c = (case parse_issue_ref (cd_issue_ref c) of None \<Rightarrow> open_issue env g c | Some r \<Rightarrow> fetch_issue env g r)"

definition stamped :: "int \<Rightarrow> card \<Rightarrow> card" where
  "stamped now c = c\<lparr>cd_updated_at := now\<rparr>"

lemma mirror_update:
  assumes ok: "cards_ok s" and got: "get_card (Some t) (cd_key c) s = Some c"
  shows "if tracked_elsewhere t r c s then \<exists>v. update_card (Some t) (cd_key c) (mirror_changes c r i) now s = Inl (DuplicateIssueRef v)
    else update_card (Some t) (cd_key c) (mirror_changes c r i) now s
      = Inr (Some (stamped now (mirrored r i c)), put_card c (stamped now (mirrored r i c)) s)"
proof -
  have c: "c \<in> set (cs_cards s)" "cd_tenant c = t" using got [unfolded got_iff [OF ok]] by (auto simp: card_key_of_def)
  have "key_used issue_key_of (stamped now (mirrored r i c)) (filter (\<lambda>d. \<not> same_card c d) (cs_cards s)) \<longleftrightarrow> tracked_elsewhere t r c s"
  proof -
    have "\<not> same_card c d \<longleftrightarrow> d \<noteq> c" if "d \<in> set (cs_cards s)" for d
      using cards_ok_same [OF ok c(1) that] by (auto simp: same_card_def)
    then have "filter (\<lambda>d. \<not> same_card c d) (cs_cards s) = filter (\<lambda>d. d \<noteq> c) (cs_cards s)" by (rule filter_cong [OF refl])
    then show ?thesis using c(2)
      by (auto simp: key_used_def list_ex_iff tracked_elsewhere_def issue_key_of_def stamped_def mirrored_def)
  qed
  then show ?thesis using mirror_sound [of c r i]
    by (simp add: update_card_def got Let_def fold_changes_mirror put_card_def stamped_def)
qed

lemma mark_puts:
  assumes ok: "cards_ok s" and got: "get_card (Some t) (cd_key c) s = Some c"
    and fs: "list_all (\<lambda>f. case f of F_sync_error _ \<Rightarrow> True | F_issue_state _ \<Rightarrow> True | _ \<Rightarrow> False) fs"
  shows "mark_card (Some t) now c fs x s = (Inr x, put_card c (stamped now (fold set_field fs c)) s)"
proof -
  have c: "c \<in> set (cs_cards s)" "cd_tenant c = t" "cd_deleted_at c = None" using got [unfolded got_iff [OF ok]] by (auto simp: card_key_of_def)
  have "\<not> list_ex null_violation fs \<and> F_criteria None \<notin> set fs \<and> cd_issue_ref (fold set_field fs d) = cd_issue_ref d" for d
    using fs by (induction fs arbitrary: d) (auto split: card_field.splits)
  then show ?thesis using update_card_puts [OF ok c, of fs now] by (simp add: mark_card_def stamped_def)
qed

text \<open>A sync gives the card its issue, or marks the failure, and touches nothing else.  When the
  host answers, the card's title, description, labels, issue state and the done end of its
  status are the issue's whatever they were, and its plan, its key and the record of its runs
  are as they were; when the host does not, or another card already stands for the issue, only
  the error is written, with the issue state when the host said the issue is gone.\<close>

theorem sync_gives_the_issue:
  assumes ok: "cards_ok s" and got: "get_card (Some t) (cd_key c) s = Some c"
    and g: "git_target_for_card (sy_intake env) (Some t) c = Inr g" "sync_enabled g"
  shows "case host_answer env g c of
      Inl e \<Rightarrow> sync_card env (Some t) now c s = (Inr (Call_failed (call_failed env)),
        put_card c (c\<lparr>cd_sync_error := Some (call_failed env), cd_updated_at := now,
          cd_issue_state := (if is_missing e then Some ''missing'' else cd_issue_state c)\<rparr>) s)
    | Inr (r, i) \<Rightarrow>
        if tracked_elsewhere t r c s
        then sync_card env (Some t) now c s = (Inr (Issue_taken (issue_taken r) (parse_issue_ref (cd_issue_ref c) = None)),
          put_card c (c\<lparr>cd_sync_error := Some (issue_taken r), cd_updated_at := now\<rparr>) s)
        else \<exists>fs. sync_card env (Some t) now c s = (Inr (Synced (issue_ref (fst r) (snd r)) (parse_issue_ref (cd_issue_ref c) = None) fs),
          if mirrored r i c = c then s else put_card c (stamped now (mirrored r i c)) s)"
proof (cases "host_answer env g c")
  case (Inl e)
  let ?fs = "F_sync_error (Some (call_failed env)) # (if is_missing e then [F_issue_state (Some ''missing'')] else [])"
  have "mark_card (Some t) now c ?fs (Call_failed (call_failed env)) s
      = (Inr (Call_failed (call_failed env)), put_card c (stamped now (fold set_field ?fs c)) s)"
    by (intro mark_puts [OF ok got]) simp
  then show ?thesis using Inl g by (cases c) (auto simp: sync_card_def host_answer_def stamped_def)
next
  case (Inr x)
  then obtain r i where x: "host_answer env g c = Inr (r, i)" by (cases x) auto
  have d: "mark_card (Some t) now c [F_sync_error (Some (issue_taken r))] (Issue_taken (issue_taken r) b) s
      = (Inr (Issue_taken (issue_taken r) b), put_card c (c\<lparr>cd_sync_error := Some (issue_taken r), cd_updated_at := now\<rparr>) s)" for b
    using mark_puts [OF ok got, of "[F_sync_error (Some (issue_taken r))]" now] by (simp add: stamped_def)
  have none: "\<not> tracked_elsewhere t r c s" if "mirror_changes c r i = []"
  proof -
    have "cd_issue_ref c = Some (issue_ref (fst r) (snd r))" using that mirrored_keys(4) [of r i c] by (simp add: mirror_none)
    then show ?thesis using ok keys_unique_inj [of issue_key_of "cs_cards s" _ c] got [unfolded got_iff [OF ok]]
      by (auto simp: tracked_elsewhere_def cards_ok_def issue_key_of_def card_key_of_def)
  qed
  show ?thesis using x g mirror_update [OF ok got, of r i now] none
    by (auto simp: sync_card_def host_answer_def Let_def d mirror_none split: if_splits)
qed

definition sync_git :: git_settings where
  "sync_git = ex_settings\<lparr>st_github_repo := Some ''acme/web'', st_github_token := Some ''tok''\<rparr>"

definition host_issue :: issue_data where
  "host_issue = (ex_issue 7 ''Login'')\<lparr>is_state := ''closed''\<rparr>"

definition ex_sync :: sync_env where
  "ex_sync = \<lparr>sy_intake = (ex_intake (\<lambda>_ _. TransportError))\<lparr>en_git := sync_git\<rparr>,
     sy_open = (\<lambda>_ _ _ _ _. Inr host_issue), sy_fetch = (\<lambda>_ _ _. Inr host_issue), sy_error_id = ''e1''\<rparr>"

lemma ex_sync_target: "cd_repository_id c = None \<Longrightarrow> cd_issue_ref c = None \<Longrightarrow> \<exists>g. git_target_for_card (sy_intake ex_sync) (Some t) c = Inr g
    \<and> sync_enabled g \<and> gt_project g = Some ''acme/web''"
  by (simp add: git_target_for_card_def git_target_for_def resolve_repository_def resolve_project_def default_repository_def
      eval_str target_from_settings_def blank_none_def lift_err_def ex_sync_def ex_intake_def sync_git_def ex_settings_def
      issue_project_def tenant_credential_def connections_def repositories_def env_credential_def provider_token_def sync_enabled_def Let_def)

lemma low_sync: "\<exists>g. git_target_for_card (sy_intake ex_sync) (Some ''acme'') low_card = Inr g \<and> sync_enabled g
    \<and> host_answer ex_sync g low_card = Inr ((''acme/web'', 7), host_issue)"
proof -
  have k: "cd_issue_ref low_card = None" "cd_repository_id low_card = None" by (simp_all add: low_card_def ex_card_def)
  have none: "parse_issue_ref None = None" by (simp add: parse_issue_ref_def eval_str)
  obtain g where g: "git_target_for_card (sy_intake ex_sync) (Some ''acme'') low_card = Inr g" "sync_enabled g" "gt_project g = Some ''acme/web''"
    using ex_sync_target k by blast
  have "host_answer ex_sync g low_card = Inr ((''acme/web'', 7), host_issue)"
    by (simp add: host_answer_def k none open_issue_def g ex_sync_def) (simp add: host_issue_def ex_issue_def)
  then show ?thesis using g by blast
qed

lemma low_got: "get_card (Some ''acme'') (cd_key low_card) (ex_board low_card) = Some low_card"
  by (intro ex_board_got) (simp_all add: low_card_def ex_card_def)

lemma low_free: "\<not> tracked_elsewhere ''acme'' r low_card (ex_board low_card)"
  by (simp add: tracked_elsewhere_def ex_board_def)

theorem sync_gives_the_issue_witness:
  "\<exists>b fs. sync_card ex_sync (Some ''acme'') 5 low_card (ex_board low_card) = (Inr (Synced (issue_ref ''acme/web'' 7) b fs),
      put_card low_card (stamped 5 (mirrored (''acme/web'', 7) host_issue low_card)) (ex_board low_card))"
proof -
  obtain g where g: "git_target_for_card (sy_intake ex_sync) (Some ''acme'') low_card = Inr g" "sync_enabled g"
    "host_answer ex_sync g low_card = Inr ((''acme/web'', 7), host_issue)" using low_sync by blast
  have "mirrored (''acme/web'', 7) host_issue low_card \<noteq> low_card"
    by (simp add: low_card_def ex_card_def mirrored_def)
  then show ?thesis using sync_gives_the_issue [OF ex_board_ok low_got g(1,2), of 5] by (auto simp: g(3) low_free)
qed

section \<open>A second sync\<close>

lemma project_re_hash: "project_re p \<Longrightarrow> c \<in> set p \<Longrightarrow> c \<noteq> CHR ''#''"
proof -
  assume re: "project_re p" and c: "c \<in> set p"
  show ?thesis
  proof (cases "c = CHR ''/''")
    case False
    then obtain w where "w \<in> set (path_parts p)" "c \<in> set w"
      using split_on_pieces [of c p "\<lambda>c. c = CHR ''/''"] c by (auto simp: path_parts_def)
    then have "seg_char c" using re by (auto simp: project_re_def path_segment_def list_all_iff)
    then show ?thesis by (auto simp: seg_char_def alnum_def Let_def)
  qed simp
qed

lemma issue_ref_roundtrip: "project_re p \<Longrightarrow> parse_issue_ref (Some (issue_ref p n)) = Some (p, n)"
proof -
  assume re: "project_re p"
  have "\<not> isspace c" if "c \<in> set (issue_ref p n)" for c
    using that project_re_chars [OF re] digits_of_nat_ascii [of n]
    by (auto simp: issue_ref_def list_all_iff ascii_digit_def isspace_def Let_def)
  then have "strip (issue_ref p n) = issue_ref p n" by (intro strip_id) blast
  moreover have "before_char (CHR ''#'') (issue_ref p n) = p \<and> after_char (CHR ''#'') (issue_ref p n) = digits_of_nat n"
    unfolding issue_ref_def using project_re_hash [OF re] by (simp add: before_after_char)
  ultimately show ?thesis using re by (simp add: parse_issue_ref_def Let_def py_int_digits) (simp add: issue_ref_def)
qed

text \<open>Syncing again opens no second issue.  Once a sync of a card has stored its issue, a later
  one, whoever asks and whatever repository the card now resolves to, only reads that issue;
  while the issue says the same it changes nothing.  The project's path must be one a
  reference can name, as every stored configuration's is.\<close>

theorem sync_is_idempotent:
  assumes ok: "cards_ok s" and got: "get_card (Some t) (cd_key c) s = Some c"
    and g: "git_target_for_card (sy_intake env) (Some t) c = Inr g" "sync_enabled g"
    and x: "host_answer env g c = Inr (r, i)" and free: "\<not> tracked_elsewhere t r c s" and p: "project_re (fst r)"
  shows "\<exists>fs s' c'. sync_card env (Some t) now c s = (Inr (Synced (issue_ref (fst r) (snd r)) (parse_issue_ref (cd_issue_ref c) = None) fs), s')
    \<and> get_card (Some t) (cd_key c) s' = Some c'
    \<and> (\<forall>env' g' later. git_target_for_card (sy_intake env') (Some t) c' = Inr g' \<and> sync_enabled g'
          \<and> sy_fetch env' g' (fst r) (snd r) = Inr i
        \<longrightarrow> sync_card env' (Some t) later c' s' = (Inr (Synced (issue_ref (fst r) (snd r)) False []), s'))"
proof -
  let ?c = "if mirrored r i c = c then c else stamped now (mirrored r i c)"
    and ?s = "if mirrored r i c = c then s else put_card c (stamped now (mirrored r i c)) s"
  obtain fs where run: "sync_card env (Some t) now c s
      = (Inr (Synced (issue_ref (fst r) (snd r)) (parse_issue_ref (cd_issue_ref c) = None) fs), ?s)"
    using sync_gives_the_issue [OF ok got g, of now] x free by auto
  have "update_card (Some t) (cd_key c) (mirror_changes c r i) now s
      = Inr (Some (stamped now (mirrored r i c)), put_card c (stamped now (mirrored r i c)) s)"
    using mirror_update [OF ok got, of r i now] free by simp
  from update_ok_put [OF this ok] have ok': "cards_ok ?s" using ok by simp
  have mem: "c \<in> set (cs_cards s)" "card_key_of c = Some (t, cd_key c)" "cd_deleted_at c = None" using got [unfolded got_iff [OF ok]] by auto
  have got': "get_card (Some t) (cd_key c) ?s = Some ?c"
  proof (cases "mirrored r i c = c")
    case False
    then show ?thesis using ok' mem in_put_card [OF ok mem(1)]
      by (simp add: got_iff) (simp add: stamped_def card_key_of_def mirrored_def)
  qed (use got in simp)
  have ref: "parse_issue_ref (cd_issue_ref ?c) = Some r"
    using issue_ref_roundtrip [OF p, of "snd r"] mirrored_keys(4) [of r i c]
    by (cases "mirrored r i c = c") (simp_all add: stamped_def del: mirrored_keys(4))
  have "mirrored r i ?c = ?c" using mirrored_again [of r i now c] by (simp add: stamped_def)
  then have "mirror_changes ?c r i = []" by (simp add: mirror_none)
  then have "sync_card env' (Some t) later ?c ?s = (Inr (Synced (issue_ref (fst r) (snd r)) False []), ?s)"
    if "git_target_for_card (sy_intake env') (Some t) ?c = Inr g'" "sync_enabled g'" "sy_fetch env' g' (fst r) (snd r) = Inr i" for env' g' later
    using that ref unfolding sync_card_def fetch_issue_def by (simp add: Let_def)
  then show ?thesis using run got' by blast
qed

theorem sync_is_idempotent_witness:
  "\<exists>b fs s' c'. sync_card ex_sync (Some ''acme'') 5 low_card (ex_board low_card) = (Inr (Synced (issue_ref ''acme/web'' 7) b fs), s')
    \<and> get_card (Some ''acme'') (cd_key low_card) s' = Some c'"
proof -
  obtain g where g: "git_target_for_card (sy_intake ex_sync) (Some ''acme'') low_card = Inr g" "sync_enabled g"
    "host_answer ex_sync g low_card = Inr ((''acme/web'', 7), host_issue)" using low_sync by blast
  have "project_re ''acme/web''"
    by (simp add: project_re_def path_parts_def path_segment_def seg_char_def alnum_def Let_def)
  then show ?thesis using sync_is_idempotent [OF ex_board_ok low_got g low_free, of 5] by auto
qed

text \<open>The reference of a stored card is free text.  One that cannot be read is taken for none: a sync
  opens a new issue whatever the card's column, and the reference the card had is gone.\<close>

theorem unreadable_ref_is_replaced:
  assumes ok: "cards_ok s" and got: "get_card (Some t) (cd_key c) s = Some c"
    and g: "git_target_for_card (sy_intake env) (Some t) c = Inr g" "sync_enabled g" "gt_project g = Some p"
    and ref: "truthy (cd_issue_ref c)" "parse_issue_ref (cd_issue_ref c) = None"
    and x: "sy_open env g p (cd_title c) (issue_body c) (if gt_default_labels g = [] then None else Some (gt_default_labels g)) = Inr i"
    and free: "\<not> tracked_elsewhere t (p, is_number i) c s"
  shows "\<exists>fs s'. maybe_sync env (Some t) now c s = (Inr (Some (Synced (issue_ref p (is_number i)) True fs)), s')"
proof -
  have "host_answer env g c = Inr ((p, is_number i), i)" using ref(2) g(3) x by (simp add: host_answer_def open_issue_def)
  then show ?thesis using sync_gives_the_issue [OF ok got g(1,2), of now] g ref free by (auto simp: maybe_sync_def)
qed

end
