(* ===== verification/BoardSafety.thy ===== *)
theory BoardSafety
  imports BoardOps SyncSafety
begin

text \<open>
  What a board operation leaves behind: entries appended to a chain that still verifies, the
  other tenants' cards as they were, and a mutation without an entry only where the code says.
\<close>

section \<open>The chain\<close>

definition log_messages :: "audit_log \<Rightarrow> string set" where
  "log_messages l = (\<lambda>e. entry_message e (ae_prev_hash e)) ` set (al_rows l)"

definition log_sound :: "audit_ctx \<Rightarrow> audit_log \<Rightarrow> bool" where
  "log_sound cx l = (log_ok l \<and> check_chain (cx_mac cx) (al_rows l) = [])"

text \<open>The entries a step appended, each by the context's actor; a sound chain stays sound when the
  digest does not collide on what is in it.\<close>

definition chained :: "audit_ctx \<Rightarrow> board \<Rightarrow> board \<Rightarrow> audit_entry list \<Rightarrow> bool" where
  "chained cx b b' new = (al_rows (bd_audit b') = al_rows (bd_audit b) @ new
     \<and> (\<forall>e\<in>set new. redact_actor (cx_keys cx) (cx_sha cx) (cx_actor cx) = Inr (ae_actor e))
     \<and> (hex_mac (cx_mac cx) \<and> inj_on (cx_mac cx) (log_messages (bd_audit b')) \<and> log_sound cx (bd_audit b) \<longrightarrow> log_sound cx (bd_audit b')))"

lemma chained_refl: "bd_audit b' = bd_audit b \<Longrightarrow> chained cx b b' []"
  by (simp add: chained_def)

lemma chained_trans: "chained cx b b1 xs \<Longrightarrow> chained cx b1 b2 ys \<Longrightarrow> chained cx b b2 (xs @ ys)"
proof -
  assume a: "chained cx b b1 xs" "chained cx b1 b2 ys"
  then have "log_messages (bd_audit b1) \<subseteq> log_messages (bd_audit b2)" by (auto simp: chained_def log_messages_def)
  then show ?thesis using a inj_on_subset [of "cx_mac cx"] by (auto simp: chained_def)
qed

text \<open>An entry's own columns.\<close>

definition says :: "audit_entry \<Rightarrow> string \<Rightarrow> string \<Rightarrow> bool \<Rightarrow> bool" where
  "says e kind key ok = (ae_kind e = kind \<and> ae_key e = key \<and> ae_ok e = ok)"

lemma audit_note_cases:
  obtains (noted) e where "audit_note cx now kind key svc ep code ok b = (Inr (), b\<lparr>bd_audit := bd_audit (snd (audit_note cx now kind key svc ep code ok b))\<rparr>)"
      "chained cx b (snd (audit_note cx now kind key svc ep code ok b)) [e]" "says e kind key ok"
  | (lost) a where "audit_note cx now kind key svc ep code ok b = (Inl (Audit_raised a), b)"
proof -
  let ?cols = "\<lparr>ae_id = 0, ae_ts = now, ae_actor = cx_actor cx, ae_kind = kind, ae_key = key, ae_service = svc,
         ae_endpoint = ep, ae_status_code = int code, ae_ok = ok, ae_prev_hash = None, ae_hash = []\<rparr>"
  show thesis
  proof (cases "redact_actor (cx_keys cx) (cx_sha cx) (cx_actor cx)")
    case (Inl a)
    then show thesis by (intro lost [of a]) (simp add: audit_note_def record_entry_def)
  next
    case (Inr a)
    let ?c = "?cols\<lparr>ae_ts := now, ae_actor := a\<rparr>" and ?p = "tail_hash (al_rows (bd_audit b))"
    let ?l = "append_entry (cx_mac cx) ?c ?p (bd_audit b)"
    have run: "audit_note cx now kind key svc ep code ok b = (Inr (), b\<lparr>bd_audit := ?l\<rparr>)"
      using Inr by (simp add: audit_note_def record_entry_def)
    have rows: "al_rows ?l = al_rows (bd_audit b) @ [make_entry (cx_mac cx) ?c ?p (al_next (bd_audit b))]" by (simp add: append_entry_def)
    have msgs: "log_messages ?l = insert (entry_message ?c ?p) ((\<lambda>e. entry_message e (ae_prev_hash e)) ` set (al_rows (bd_audit b)))"
      unfolding log_messages_def rows by (simp add: make_entry_def entry_message_def canonical_def)
    have "log_sound cx ?l" if "hex_mac (cx_mac cx)" "inj_on (cx_mac cx) (log_messages ?l)" "log_sound cx (bd_audit b)"
      using record_entry_sound [where mac = "cx_mac cx" and l = "bd_audit b" and cols = ?cols and now = now and actor = a
          and ks = "cx_keys cx" and sha = "cx_sha cx"] that Inr unfolding msgs
      by (auto simp: log_sound_def record_entry_def)
    then have "chained cx b (b\<lparr>bd_audit := ?l\<rparr>) [make_entry (cx_mac cx) ?c ?p (al_next (bd_audit b))]"
      using rows Inr by (simp add: chained_def make_entry_def)
    moreover have "says (make_entry (cx_mac cx) ?c ?p (al_next (bd_audit b))) kind key ok" by (simp add: says_def make_entry_def)
    ultimately show thesis using run by (intro noted) simp_all
  qed
qed

section \<open>The card store\<close>

text \<open>A step of the card store that wrote nothing when it raised.\<close>

definition kept :: "string option \<Rightarrow> card_store \<Rightarrow> ('e + 'a) \<times> card_store \<Rightarrow> bool" where
  "kept scope s x = (card_step_ok scope s (snd x) \<and> ((\<exists>e. fst x = Inl e) \<longrightarrow> snd x = s))"

lemma kept_same [simp]: "kept scope s (x, s)"
  by (simp add: kept_def)

lemma kept_Inr: "card_step_ok scope s s' \<Longrightarrow> kept scope s (Inr x, s')"
  by (simp add: kept_def)

lemma kept_update: "update_card scope k fs now s = Inr (y, s') \<Longrightarrow> kept scope s (Inr x, s')"
  by (intro kept_Inr update_card_ok)

lemma mark_card_kept: "kept scope s (mark_card scope now c fs r s)"
  by (auto simp: mark_card_def intro: kept_update split: sum.splits prod.splits)

lemma sync_card_kept: "kept scope s (sync_card env scope now c s)"
  by (auto simp: sync_card_def Let_def intro: kept_update mark_card_kept split: sum.splits prod.splits if_splits card_error.splits)

lemma maybe_sync_kept: "kept scope s (maybe_sync env scope now c s)"
  using sync_card_kept [of scope s env now c] by (auto simp: maybe_sync_def kept_def split: sum.splits prod.splits)

lemma update_or_kept: "kept scope s (update_or scope now c fs s)"
  by (auto simp: update_or_def intro: kept_update split: sum.splits prod.splits option.splits)

lemma send_kept: "kept scope s (send env scope now c a s)"
  using update_or_kept [of scope s now c] unfolding send_def write_runs_def Let_def
  by (auto simp: kept_def split: sum.splits prod.splits) (metis fst_conv snd_conv)+

lemma dispatch_card_kept: "kept scope s (dispatch_card env scope now c s)"
proof -
  have u: "kept scope s (case update_or scope now c fs s of (Inl e, s') \<Rightarrow> (Inl e, s') | (Inr _, s') \<Rightarrow> (Inr x, s'))" for fs x
    using update_or_kept [of scope s now c fs] by (auto simp: kept_def split: prod.splits sum.splits)
  show ?thesis by (auto simp: dispatch_card_def Let_def send_kept u split: sum.splits option.splits)
qed

lemma maybe_dispatch_kept: "kept scope s (maybe_dispatch env scope now c s)"
  using dispatch_card_kept [of scope s env now c] by (auto simp: maybe_dispatch_def kept_def split: sum.splits prod.splits)

lemma dispatch_stage_kept: "kept scope s (dispatch_stage env scope now c st s)"
proof -
  have u: "kept scope s (case send env scope now c a s of (Inl e, s') \<Rightarrow> (Inl e, s') | (Inr r, s') \<Rightarrow> (Inr (r\<lparr>dr_warnings := w\<rparr>), s'))" for a w
    using send_kept [of scope s env now c a] by (auto simp: kept_def split: prod.splits sum.splits)
  show ?thesis by (auto simp: dispatch_stage_def u split: sum.splits option.splits)
qed

lemma start_sequence_step: "card_step_ok scope s (snd (start_sequence env scope now c s))"
proof -
  have u: "card_step_ok scope s (snd (case write_runs scope now c ps [] s of (Inl e, s') \<Rightarrow> (Inl e, s')
      | (Inr c', s') \<Rightarrow> (case dispatch_stage env scope now c' st s' of (Inl e, s'') \<Rightarrow> (Inl e, s'') | (Inr r, s'') \<Rightarrow> (Inr (f r), s''))))" for ps st f
    using update_or_kept [of scope s now c] dispatch_stage_kept [of scope _ env now _ st] unfolding write_runs_def kept_def
    by (auto split: prod.splits sum.splits) (metis card_step_trans fst_conv snd_conv)+
  show ?thesis by (auto simp: start_sequence_def u split: option.splits list.splits)
qed

section \<open>One operation\<close>

text \<open>What an operation leaves, and the entries it appended.\<close>

definition op_step :: "audit_ctx \<Rightarrow> string option \<Rightarrow> board \<Rightarrow> board \<Rightarrow> audit_entry list \<Rightarrow> bool" where
  "op_step cx scope b b' new = (chained cx b b' new \<and> card_step_ok scope (bd_cards b) (bd_cards b'))"

lemma op_step_cards: "card_step_ok scope (bd_cards b) s \<Longrightarrow> op_step cx scope b (b\<lparr>bd_cards := s\<rparr>) []"
  by (simp add: op_step_def chained_refl)

lemma op_step_trans: "op_step cx scope b b1 xs \<Longrightarrow> op_step cx scope b1 b2 ys \<Longrightarrow> op_step cx scope b b2 (xs @ ys)"
  by (auto simp: op_step_def intro: chained_trans card_step_trans)

lemma audit_note_step:
  assumes "audit_note cx now kind key svc ep code ok b = (r, b')"
  shows "bd_cards b' = bd_cards b \<and> ((\<exists>e. r = Inr () \<and> op_step cx scope b b' [e] \<and> says e kind key ok) \<or> (\<exists>a. r = Inl (Audit_raised a) \<and> b' = b))"
proof (cases rule: audit_note_cases [of cx now kind key svc ep code ok b])
  case (noted e)
  have "bd_cards b' = bd_cards b" using noted(1) assms by (metis board.select_convs(1) board.surjective board.update_convs(2) snd_conv)
  then show ?thesis using noted assms by (auto simp: op_step_def)
qed (use assms in auto)

lemma note_reads_step: "\<exists>new. op_step cx scope b (note_reads cx now t oks b) new \<and> bd_cards (note_reads cx now t oks b) = bd_cards b"
proof (induction oks arbitrary: b)
  case Nil
  show ?case by (intro exI [of _ "[]"]) (simp add: op_step_def chained_refl)
next
  case (Cons ok oks)
  let ?n = "audit_note cx now ''read_git_credential'' (''tenant:'' @ t) ''git_provider''
     (''/api/tenants/'' @ t @ ''/git-credential'') (if ok then 200 else 0) ok b"
  obtain r b1 where n: "?n = (r, b1)" by force
  obtain xs where xs: "op_step cx scope b b1 xs" "bd_cards b1 = bd_cards b"
    using audit_note_step [OF n, of scope] by (metis card_step_refl chained_refl op_step_def)
  obtain ys where "op_step cx scope b1 (note_reads cx now t oks b1) ys" "bd_cards (note_reads cx now t oks b1) = bd_cards b1"
    using Cons.IH by blast
  moreover have "note_reads cx now t (ok # oks) b = note_reads cx now t oks b1" by (simp only: note_reads.simps n snd_conv)
  ultimately show ?case using op_step_trans [OF xs(1)] xs(2) by metis
qed

lemma op_bind_cases:
  assumes "op_bind m f = (r, b')"
  obtains (raised) e where "m = (Inl e, b')" "r = Inl e"
  | (went_on) x b1 where "m = (Inr x, b1)" "f x b1 = (r, b')"
  using assms by (cases m; cases "fst m") (auto simp: op_bind_def)

lemma recorded:
  assumes "op_bind (audit_note cx now kind key svc ep code ok b1) f = (r, b')" and b1: "op_step cx scope b b1 xs"
    and f: "\<And>u b2. f () b2 = (u, b') \<Longrightarrow> \<exists>zs. op_step cx scope b2 b' zs"
  shows "(\<exists>a. r = Inl (Audit_raised a) \<and> b' = b1) \<or> (\<exists>e zs. op_step cx scope b b' (xs @ e # zs) \<and> says e kind key ok)"
  using assms(1)
proof (cases rule: op_bind_cases)
  case (raised e)
  then show ?thesis using audit_note_step [OF raised(1), of scope] by auto
next
  case (went_on x b2)
  obtain e where e: "op_step cx scope b1 b2 [e]" "says e kind key ok" using audit_note_step [OF went_on(1), of scope] by auto
  obtain zs where "op_step cx scope b2 b' zs" using f went_on(2) by (metis old.unit.exhaust)
  from op_step_trans [OF op_step_trans [OF b1 e(1)] this] show ?thesis using e(2) by auto
qed

lemma op_step_refl: "op_step cx scope b b []"
  by (simp add: op_step_def chained_refl)

lemma after_reads:
  assumes "card_step_ok scope (bd_cards b) s"
  shows "\<exists>xs. op_step cx scope b (note_reads cx now t oks (b\<lparr>bd_cards := s\<rparr>)) xs"
  using op_step_trans [OF op_step_cards [OF assms]] note_reads_step by blast

lemma recorded_last:
  assumes "op_bind (audit_note cx now kind key svc ep code ok b1) (\<lambda>_ b2. (h b2, b2)) = (r, b')" "op_step cx scope b b1 xs"
  shows "(\<exists>a. r = Inl (Audit_raised a) \<and> b' = b1) \<or> (\<exists>e zs. op_step cx scope b b' (xs @ e # zs) \<and> says e kind key ok)"
  using assms by (intro recorded) (auto intro: op_step_refl)

lemma issue_hook_step:
  assumes "issue_hook env cx scope now c b = (r, b')" shows "\<exists>new. op_step cx scope b b' new"
proof -
  obtain x s where x: "maybe_sync (be_sync env) scope now c (bd_cards b) = (x, s)" by force
  then have k: "card_step_ok scope (bd_cards b) s" using maybe_sync_kept [of scope "bd_cards b"] by (metis kept_def snd_conv)
  show ?thesis
  proof (cases "\<exists>y. x = Inr (Some y)")
    case True
    then obtain y where y: "x = Inr (Some y)" by blast
    obtain xs where xs: "op_step cx scope b (note_reads cx now (tenant_of scope) (be_reads env) (b\<lparr>bd_cards := s\<rparr>)) xs"
      using after_reads [OF k] by blast
    show ?thesis using assms recorded_last [OF _ xs] xs unfolding issue_hook_def record_sync_def x y by fastforce
  next
    case False
    then have "b' = b\<lparr>bd_cards := s\<rparr>" using assms x by (auto simp: issue_hook_def split: sum.splits option.splits)
    then show ?thesis using op_step_cards [OF k] by blast
  qed
qed

lemma intake_hook_step:
  assumes "intake_hook env cx scope now c b = (r, b')" shows "\<exists>new. op_step cx scope b b' new"
proof -
  obtain x s where x: "maybe_dispatch (sy_intake (be_sync env)) scope now c (bd_cards b) = (x, s)" by force
  then have k: "card_step_ok scope (bd_cards b) s" using maybe_dispatch_kept [of scope "bd_cards b"] by (metis kept_def snd_conv)
  show ?thesis
  proof (cases "\<exists>y. x = Inr (Some y)")
    case True
    then obtain y where y: "x = Inr (Some y)" by blast
    show ?thesis using assms recorded_last [OF _ op_step_cards [OF k]] op_step_cards [OF k]
      unfolding intake_hook_def record_dispatch_def x y by fastforce
  next
    case False
    then have "b' = b\<lparr>bd_cards := s\<rparr>" using assms x by (auto simp: intake_hook_def split: sum.splits option.splits)
    then show ?thesis using op_step_cards [OF k] by blast
  qed
qed

lemma written_step:
  assumes "written env cx scope now kind code c b1 = (r, b')" and b1: "op_step cx scope b b1 []"
  shows "(\<exists>a. r = Inl (Audit_raised a) \<and> b' = b1) \<or> (\<exists>e zs. op_step cx scope b b' (e # zs) \<and> says e kind (cd_key c) True)"
proof -
  have "\<exists>zs. op_step cx scope b2 b' zs"
    if "op_bind (issue_hook env cx scope now c b2) (\<lambda>c1 b3. intake_hook env cx scope now c1 b3) = (u, b')" for u b2
    using that
  proof (cases rule: op_bind_cases)
    case (raised e)
    then show ?thesis using issue_hook_step by blast
  next
    case (went_on c1 b3)
    then show ?thesis using issue_hook_step intake_hook_step op_step_trans by meson
  qed
  from recorded [OF assms(1) [unfolded written_def record_mutation_def] b1 this] show ?thesis by simp
qed

section \<open>Every operation\<close>

datatype board_op =
    Create card_create
  | Update string "card_field list"
  | Delete string
  | Sync_issue string
  | Run_stage string string
  | Run_sequence string
  | Import "nat option" "string option" bool

definition only_state :: "(op_error + 'a) \<times> board \<Rightarrow> (op_error + unit) \<times> board" where
  "only_state x = (map_sum id (\<lambda>_. ()) (fst x), snd x)"

fun board_exec ::
  "board_env \<Rightarrow> audit_ctx \<Rightarrow> string option \<Rightarrow> int \<Rightarrow> board_op \<Rightarrow> board \<Rightarrow> (op_error + unit) \<times> board" where
  "board_exec env cx scope now (Create d) b = only_state (op_create env cx scope now d b)"
| "board_exec env cx scope now (Update k fs) b = only_state (op_update env cx scope now k fs b)"
| "board_exec env cx scope now (Delete k) b = only_state (op_delete cx scope now k b)"
| "board_exec env cx scope now (Sync_issue k) b = only_state (op_sync env cx scope now k b)"
| "board_exec env cx scope now (Run_stage k st) b = only_state (op_run_stage env cx scope now k st b)"
| "board_exec env cx scope now (Run_sequence k) b = only_state (op_run_sequence env cx scope now k b)"
| "board_exec env cx scope now (Import rid p full) b = only_state (op_import env cx scope now rid p full b)"

fun op_kind :: "board_op \<Rightarrow> string" where
  "op_kind (Create d) = ''create_card''" | "op_kind (Update k fs) = ''update_card''" | "op_kind (Delete k) = ''delete_card''"
| "op_kind (Sync_issue k) = ''sync_card_github''" | "op_kind (Run_stage k st) = ''dispatch_card''"
| "op_kind (Run_sequence k) = ''dispatch_card''" | "op_kind (Import rid p full) = ''import_cards''"

text \<open>How an operation can end: it did nothing; it wrote its entry; its entry could not be written; or
  it raised after writing without one, which only a sequence does.\<close>

definition ends_well :: "audit_ctx \<Rightarrow> string option \<Rightarrow> board_op \<Rightarrow> board \<Rightarrow> (op_error + unit) \<times> board \<Rightarrow> bool" where
  "ends_well cx scope op b x = (\<exists>new. op_step cx scope b (snd x) new \<and>
     ((\<exists>e\<in>set new. ae_kind e = op_kind op)
      \<or> (\<exists>a. fst x = Inl (Audit_raised a))
      \<or> ((\<exists>e. fst x = Inl e) \<and> bd_audit (snd x) = bd_audit b \<and> (bd_cards (snd x) = bd_cards b \<or> (\<exists>k. op = Run_sequence k)))))"

lemma ends_same [simp]: "ends_well cx scope op b (Inl e, b)"
  unfolding ends_well_def by (intro exI [of _ "[]"]) (simp add: op_step_refl)

lemma ends_raised: "card_step_ok scope (bd_cards b) s \<Longrightarrow> s = bd_cards b \<or> (\<exists>k. op = Run_sequence k) \<Longrightarrow> ends_well cx scope op b (Inl e, b\<lparr>bd_cards := s\<rparr>)"
  unfolding ends_well_def by (intro exI [of _ "[]"]) (auto simp: op_step_cards)

lemma ends_noted:
  assumes "(\<exists>a. r = Inl (Audit_raised a) \<and> b' = b1) \<or> (\<exists>e zs. op_step cx scope b b' (xs @ e # zs) \<and> says e (op_kind op) key ok)"
    and "op_step cx scope b b1 xs"
  shows "ends_well cx scope op b (only_state (r, b'))"
  using assms unfolding ends_well_def only_state_def by (fastforce simp: says_def)

lemma written_ends:
  assumes "card_step_ok scope (bd_cards b) s"
  shows "ends_well cx scope op b (only_state (written env cx scope now (op_kind op) code c (b\<lparr>bd_cards := s\<rparr>)))"
proof -
  obtain r b' where w: "written env cx scope now (op_kind op) code c (b\<lparr>bd_cards := s\<rparr>) = (r, b')" by force
  note b1 = op_step_cards [OF assms, of cx]
  show ?thesis unfolding w using written_step [OF w b1] b1 by (intro ends_noted [where xs = "[]"]) auto
qed

lemma finish_ends:
  assumes "card_step_ok scope (bd_cards b) s" "op_kind op = ''dispatch_card''"
    "refusal_of (dr_outcome r) \<noteq> None \<Longrightarrow> s = bd_cards b \<or> (\<exists>k. op = Run_sequence k)"
  shows "ends_well cx scope op b (only_state (finish_stage_action cx scope now key r (b\<lparr>bd_cards := s\<rparr>)))"
proof (cases "refusal_of (dr_outcome r)")
  case None
  note b1 = op_step_cards [OF assms(1), of cx]
  obtain x b' where f: "finish_stage_action cx scope now key r (b\<lparr>bd_cards := s\<rparr>) = (x, b')" by force
  from recorded_last [OF f [unfolded finish_stage_action_def None option.simps record_dispatch_def] b1]
  show ?thesis unfolding f using b1 assms(2) by (intro ends_noted [where xs = "[]"]) auto
next
  case (Some why)
  then show ?thesis using assms by (simp add: finish_stage_action_def only_state_def ends_raised)
qed

lemma send_no_refusal: "send env scope now c a s = (Inr r, s') \<Longrightarrow> refusal_of (dr_outcome r) = None"
  by (auto simp: send_def Let_def outcome_def split: if_splits sum.splits prod.splits)

lemma dispatch_stage_refused:
  assumes "dispatch_stage env scope now c st s = (Inr r, s')" "refusal_of (dr_outcome r) \<noteq> None"
  shows "s' = s"
  using assms by (auto simp: dispatch_stage_def split: if_splits sum.splits prod.splits option.splits dest!: send_no_refusal)

lemma run_stage_ends: "ends_well cx scope (Run_stage k st) b (only_state (op_run_stage env cx scope now k st b))"
proof (cases "parse_stage st")
  case (Some st')
  show ?thesis
  proof (cases "get_card scope k (bd_cards b)")
    case (Some c)
    obtain x s where x: "dispatch_stage (sy_intake (be_sync env)) scope now c st' (bd_cards b) = (x, s)" by force
    then have k: "card_step_ok scope (bd_cards b) s" "(\<exists>e. x = Inl e) \<Longrightarrow> s = bd_cards b"
      using dispatch_stage_kept [of scope "bd_cards b"] by (metis kept_def snd_conv, metis kept_def fst_conv snd_conv)
    show ?thesis
    proof (cases x)
      case (Inl e)
      then have "s = bd_cards b" using k(2) by blast
      then show ?thesis using Inl Some x \<open>parse_stage st = Some st'\<close> by (simp add: op_run_stage_def only_state_def)
    next
      case (Inr r)
      then have "refusal_of (dr_outcome r) \<noteq> None \<Longrightarrow> s = bd_cards b" using dispatch_stage_refused x by blast
      then show ?thesis using Inr Some x \<open>parse_stage st = Some st'\<close> finish_ends [OF k(1), of "Run_stage k st" r] by (simp add: op_run_stage_def)
    qed
  qed (simp add: op_run_stage_def only_state_def Some)
qed (simp add: op_run_stage_def only_state_def)

lemma run_sequence_ends: "ends_well cx scope (Run_sequence k) b (only_state (op_run_sequence env cx scope now k b))"
proof (cases "get_card scope k (bd_cards b)")
  case (Some c)
  obtain x s where x: "start_sequence (sy_intake (be_sync env)) scope now c (bd_cards b) = (x, s)" by force
  then have k: "card_step_ok scope (bd_cards b) s" using start_sequence_step by (metis snd_conv)
  show ?thesis
  proof (cases x)
    case (Inl e)
    then show ?thesis using Some x ends_raised [OF k, of "Run_sequence k"] by (simp add: op_run_sequence_def only_state_def)
  next
    case (Inr r)
    then show ?thesis using Some x finish_ends [OF k, of "Run_sequence k" r] by (simp add: op_run_sequence_def)
  qed
qed (simp add: op_run_sequence_def only_state_def)

lemma sync_ends: "ends_well cx scope (Sync_issue k) b (only_state (op_sync env cx scope now k b))"
proof (cases "get_card scope k (bd_cards b)")
  case (Some c)
  obtain x s where x: "sync_card (be_sync env) scope now c (bd_cards b) = (x, s)" by force
  then have k: "card_step_ok scope (bd_cards b) s" "(\<exists>e. x = Inl e) \<Longrightarrow> s = bd_cards b"
    using sync_card_kept [of scope "bd_cards b"] by (metis kept_def snd_conv, metis kept_def fst_conv snd_conv)
  show ?thesis
  proof (cases x)
    case (Inl e)
    then have "s = bd_cards b" using k(2) by blast
    then show ?thesis using Inl Some x by (simp add: op_sync_def only_state_def)
  next
    case (Inr r)
    let ?b = "if r = Sync_off then b\<lparr>bd_cards := s\<rparr> else note_reads cx now (tenant_of scope) (be_reads env) (b\<lparr>bd_cards := s\<rparr>)"
    obtain xs where xs: "op_step cx scope b ?b xs" using after_reads [OF k(1)] op_step_cards [OF k(1)] by metis
    obtain y b' where y: "op_sync env cx scope now k b = (y, b')" by force
    have "op_bind (record_sync cx now k r ?b) (\<lambda>_ b'. (Inr (r, card_now scope c b'), b')) = (y, b')"
      using y Some x Inr by (simp add: op_sync_def)
    from recorded_last [OF this [unfolded record_sync_def] xs] show ?thesis unfolding y using xs by (intro ends_noted) auto
  qed
qed (simp add: op_sync_def only_state_def)

lemma import_ends: "ends_well cx scope (Import rid p full) b (only_state (op_import env cx scope now rid p full b))"
proof (cases "import_issues (be_import env) scope now rid p full (bd_cards b)")
  case (Inr x)
  obtain r s where x: "x = (r, s)" by force
  obtain xs where xs: "op_step cx scope b (note_reads cx now (tenant_of scope) (be_reads env) (b\<lparr>bd_cards := s\<rparr>)) xs"
    using after_reads [OF import_issues_ok] Inr x by blast
  obtain y b' where y: "op_import env cx scope now rid p full b = (y, b')" by force
  from recorded_last [OF y [unfolded op_import_def Inr x sum.case prod.case] xs] show ?thesis
    unfolding y using xs by (intro ends_noted) auto
qed (simp add: op_import_def only_state_def)

lemma board_exec_ends: "ends_well cx scope op b (board_exec env cx scope now op b)"
proof (cases op)
  case (Create d)
  show ?thesis
  proof (cases "create_card scope now d (bd_cards b)")
    case (Inr x)
    then show ?thesis using written_ends [of scope b "snd x" cx op env now 201 "fst x"] create_card_ok [of scope now d "bd_cards b" "fst x" "snd x"]
      by (cases x) (simp add: Create op_create_def)
  qed (simp add: Create op_create_def only_state_def)
next
  case (Update k fs)
  show ?thesis
  proof (cases "update_card scope k fs now (bd_cards b)")
    case (Inr x)
    then show ?thesis using written_ends [of scope b "snd x" cx op env now 200 "the (fst x)"] update_card_ok [of scope k fs now "bd_cards b" "fst x" "snd x"]
      by (cases x; cases "fst x") (simp_all add: Update op_update_def only_state_def)
  qed (simp add: Update op_update_def only_state_def)
next
  case (Delete k)
  obtain ok s where d: "delete_card scope k now (bd_cards b) = (ok, s)" by force
  note b1 = op_step_cards [OF delete_card_ok [OF d], of cx]
  show ?thesis
  proof (cases ok)
    case True
    obtain y b' where y: "op_delete cx scope now k b = (y, b')" by force
    then have "audit_note cx now ''delete_card'' k ''cfactory'' (card_endpoint cx k) 200 True (b\<lparr>bd_cards := s\<rparr>) = (y, b')"
      using d True by (simp add: op_delete_def record_mutation_def)
    then have "(\<exists>a. y = Inl (Audit_raised a) \<and> b' = b\<lparr>bd_cards := s\<rparr>) \<or> (\<exists>e zs. op_step cx scope b b' ([] @ e # zs) \<and> says e ''delete_card'' k True)"
      using audit_note_step [of cx now _ k _ _ 200 True "b\<lparr>bd_cards := s\<rparr>" y b' scope] op_step_trans [OF b1] by fastforce
    then show ?thesis using Delete y b1 ends_noted [OF _ b1, of y b' op k True] by simp
  qed (use d Delete in \<open>simp add: op_delete_def only_state_def\<close>)
qed (simp_all add: run_stage_ends run_sequence_ends sync_ends import_ends)

section \<open>Properties\<close>

text \<open>C10: no card is changed without an entry, except where a sequence is refused.  Every operation only
  appends to the audit chain, under the name of who called it, and leaves a chain that
  verifies; one that returns has left an entry of its own kind; one that changed a card and
  left none either could not write the entry or is a sequence that was refused or raised.\<close>

theorem board_ops_are_audited:
  assumes "board_exec env cx scope now op b = (r, b')"
  shows "\<exists>new. al_rows (bd_audit b') = al_rows (bd_audit b) @ new
    \<and> (\<forall>e\<in>set new. redact_actor (cx_keys cx) (cx_sha cx) (cx_actor cx) = Inr (ae_actor e))
    \<and> (r = Inr () \<longrightarrow> (\<exists>e\<in>set new. ae_kind e = op_kind op))
    \<and> (new = [] \<and> bd_cards b' \<noteq> bd_cards b \<longrightarrow> (\<exists>a. r = Inl (Audit_raised a)) \<or> (\<exists>k e. op = Run_sequence k \<and> r = Inl e))
    \<and> (hex_mac (cx_mac cx) \<and> inj_on (cx_mac cx) (log_messages (bd_audit b')) \<and> log_sound cx (bd_audit b) \<longrightarrow> log_sound cx (bd_audit b'))"
proof -
  obtain new where new: "chained cx b b' new"
    "(\<exists>e\<in>set new. ae_kind e = op_kind op) \<or> (\<exists>a. r = Inl (Audit_raised a))
      \<or> ((\<exists>e. r = Inl e) \<and> bd_audit b' = bd_audit b \<and> (bd_cards b' = bd_cards b \<or> (\<exists>k. op = Run_sequence k)))"
    using board_exec_ends [of cx scope op b env now] assms by (auto simp: ends_well_def op_step_def)
  then show ?thesis unfolding chained_def by (intro exI [of _ new]) auto
qed

definition ex_cx :: audit_ctx where
  "ex_cx = \<lparr>cx_keys = ex_keys, cx_sha = (\<lambda>s. s), cx_mac = ex_mac, cx_actor = ''ana'', cx_endpoint = ''/api/cards''\<rparr>"

definition ex_denv :: board_env where
  "ex_denv = \<lparr>be_sync = ex_sync, be_import = ex_env, be_reads = [True]\<rparr>"

definition ex_bd :: "card_store \<Rightarrow> board" where
  "ex_bd s = \<lparr>bd_cards = s, bd_audit = ex_log\<rparr>"

lemma ex_cx_actor: "redact_actor (cx_keys ex_cx) (cx_sha ex_cx) (cx_actor ex_cx) = Inr ''ana''"
  by (simp add: redact_actor_def scopes_for_def ex_keys_eq secret_matches_def is_ascii_def ex_cx_def key_shaped_def chomp_def Let_def)

theorem board_ops_are_audited_witness:
  "\<exists>r b'. board_exec ex_denv ex_cx (Some ''acme'') 5 (Delete ''FCT-1'') (ex_bd (ex_board low_card)) = (r, b')
    \<and> (\<exists>e\<in>set (al_rows (bd_audit b')). ae_kind e = ''delete_card'' \<and> ae_actor e = ''ana'')"
proof -
  obtain r b' where run: "board_exec ex_denv ex_cx (Some ''acme'') 5 (Delete ''FCT-1'') (ex_bd (ex_board low_card)) = (r, b')" by force
  have g: "get_card (Some ''acme'') ''FCT-1'' (ex_board low_card) = Some low_card" using low_got by (simp add: low_card_def ex_card_def)
  have "r = Inr ()" using run ex_cx_actor
    by (auto simp: op_delete_def delete_card_def ex_bd_def g record_mutation_def audit_note_def record_entry_def only_state_def)
  then show ?thesis using run board_ops_are_audited [OF run] ex_cx_actor by (auto simp: ex_bd_def ex_log_def)
qed

text \<open>A sequence that is refused has changed the card and left no entry.  With the plan done and no
  project to build in, the whole of what is left is recorded as queued before the first stage
  is refused; the caller is told of a refusal, and the chain does not show that anything
  happened.\<close>

theorem refused_sequence_is_unaudited:
  assumes ok: "cards_ok (bd_cards b)" and got: "get_card (Some t) (cd_key c) (bd_cards b) = Some c"
    and tier: "cd_tier c \<noteq> None" and idle: "\<forall>st. stage_status c st \<noteq> Some DISPATCHED"
    and st: "stage_status c PLAN = Some DONE" "stage_status c CODE \<noteq> Some DONE"
    and g: "git_target_for_card (sy_intake (be_sync env)) (Some t) c = Inr g" "\<not> truthy (gt_aifactory_project_id g)"
  shows "\<exists>b' c'. op_run_sequence env cx (Some t) now (cd_key c) b = (Inl (Stage_refused (No_intake_project CODE)), b')
    \<and> bd_audit b' = bd_audit b \<and> get_card (Some t) (cd_key c) (bd_cards b') = Some c'
    \<and> (\<forall>x. stage_status c' x = (if stage_status c x = Some DONE then Some DONE else Some QUEUED))"
proof -
  let ?env = "sy_intake (be_sync env)" and ?q = "queued_card now c" and ?s = "put_card c (queued_card now c) (bd_cards b)"
  obtain rest where todo: "todo_of c = CODE # rest" using st by (simp add: SEQUENCE_def)
  have g': "git_target_for_card ?env (Some t) ?q = Inr g" using g(1) by (simp add: git_target_for_card_def)
  have "refuse_reason ?q CODE (gt_aifactory_project_id g) = Some (No_intake_project CODE)"
    using tier st g(2) by (simp add: refuse_reason_def status_queued)
  then have "dispatch_stage ?env (Some t) now ?q CODE ?s = (Inr (outcome (Refused (No_intake_project CODE)) (Some CODE)), ?s)"
    using g' st by (simp add: dispatch_stage_def status_queued)
  then have "start_sequence ?env (Some t) now c (bd_cards b)
      = (Inr ((outcome (Refused (No_intake_project CODE)) (Some CODE))\<lparr>dr_sequence := CODE # rest\<rparr>), ?s)"
    using start_sequence_eq [OF ok got tier idle todo, of ?env now] by simp
  then have "op_run_sequence env cx (Some t) now (cd_key c) b = (Inl (Stage_refused (No_intake_project CODE)), b\<lparr>bd_cards := ?s\<rparr>)"
    using got by (simp add: op_run_sequence_def finish_stage_action_def outcome_def)
  then show ?thesis using queued_got(2) [OF ok got, of now] by (auto simp: status_queued)
qed

definition planned_card :: card where
  "planned_card = low_card\<lparr>cd_stage_runs := [(PLAN, \<lparr>sr_service = PFACTORY, sr_status = DONE, sr_dispatched_at = None, sr_ref = None, sr_detail = None\<rparr>)]\<rparr>"

definition bare_env :: board_env where
  "bare_env = ex_denv\<lparr>be_sync := ex_sync\<lparr>sy_intake := (ex_intake (\<lambda>_ _. TransportError))\<lparr>en_git := ex_settings\<lparr>st_intake_project_id := None\<rparr>\<rparr>\<rparr>\<rparr>"

theorem refused_sequence_is_unaudited_witness:
  "\<exists>b'. op_run_sequence bare_env ex_cx (Some ''acme'') 5 ''FCT-1'' (ex_bd (ex_board planned_card)) = (Inl (Stage_refused (No_intake_project CODE)), b')
    \<and> bd_audit b' = ex_log"
proof -
  have k: "cd_key planned_card = ''FCT-1''" "cd_tenant planned_card = ''acme''" "cd_deleted_at planned_card = None" "cd_tier planned_card = Some Low"
    by (simp_all add: planned_card_def low_card_def ex_card_def)
  have st: "stage_status planned_card x = (if x = PLAN then Some DONE else None)" for x by (simp add: stage_status_def planned_card_def)
  have got: "get_card (Some ''acme'') (cd_key planned_card) (bd_cards (ex_bd (ex_board planned_card))) = Some planned_card"
    using ex_board_got [of planned_card] k by (simp add: ex_bd_def)
  obtain g where g: "git_target_for_card (sy_intake (be_sync bare_env)) (Some ''acme'') planned_card = Inr g" "\<not> truthy (gt_aifactory_project_id g)"
    by (simp add: git_target_for_card_def git_target_for_def resolve_repository_def resolve_project_def default_repository_def
        issue_project_def eval_str target_from_settings_def blank_none_def lift_err_def ex_intake_def bare_env_def ex_settings_def
        planned_card_def low_card_def ex_card_def Let_def)
  have "cards_ok (bd_cards (ex_bd (ex_board planned_card)))" using ex_board_ok by (simp add: ex_bd_def)
  moreover have "\<forall>x. stage_status planned_card x \<noteq> Some DISPATCHED" by (simp add: st)
  ultimately have "\<exists>b' c'. op_run_sequence bare_env ex_cx (Some ''acme'') 5 (cd_key planned_card) (ex_bd (ex_board planned_card))
      = (Inl (Stage_refused (No_intake_project CODE)), b') \<and> bd_audit b' = bd_audit (ex_bd (ex_board planned_card))
    \<and> get_card (Some ''acme'') (cd_key planned_card) (bd_cards b') = Some c'
    \<and> (\<forall>x. stage_status c' x = (if stage_status planned_card x = Some DONE then Some DONE else Some QUEUED))"
    using k(4) st by (intro refused_sequence_is_unaudited [OF _ got _ _ _ _ g]) simp_all
  then obtain b' where "op_run_sequence bare_env ex_cx (Some ''acme'') 5 ''FCT-1'' (ex_bd (ex_board planned_card)) = (Inl (Stage_refused (No_intake_project CODE)), b')"
    "bd_audit b' = bd_audit (ex_bd (ex_board planned_card))" unfolding k(1) by blast
  then show ?thesis by (simp add: ex_bd_def)
qed

end
