(* ===== verification/EventIngress.thy ===== *)
theory EventIngress
  imports BoardSafety Adapters
begin

text \<open>
  The event ingress, \<open>routes_events.py\<close>: a completion event goes to the work item, then onto the
  card that is joined to it, where it may send the next stage, with an audit entry for what it
  sent; and the refresh, which polls every service into the store.  The state is all three
  stores.  What is broadcast to the cockpits is the state itself and is left out.
\<close>

section \<open>The write-back with its audit sink\<close>

record world =
  wo_items :: wi_store
  wo_board :: board

definition event_ctx :: "audit_ctx \<Rightarrow> audit_ctx" where
  "event_ctx cx = cx\<lparr>cx_actor := ''cfactory-sequence'', cx_endpoint := ''/api/events''\<rparr>"

definition advance_audited ::
  "intake_env \<Rightarrow> audit_ctx \<Rightarrow> string option \<Rightarrow> int \<Rightarrow> card \<Rightarrow> board \<Rightarrow> (op_error + card) \<times> board" where
  "advance_audited env cx scope now c b = (case advance env scope now c (bd_cards b) of
     (Inl e, _, s) \<Rightarrow> (Inl (Hook_raised e), b\<lparr>bd_cards := s\<rparr>)
   | (Inr c', None, s) \<Rightarrow> (Inr c', b\<lparr>bd_cards := s\<rparr>)
   | (Inr c', Some r, s) \<Rightarrow> op_bind (record_dispatch cx now (cd_key c) r (b\<lparr>bd_cards := s\<rparr>)) (\<lambda>_ b'. (Inr c', b')))"

definition write_back ::
  "intake_env \<Rightarrow> audit_ctx \<Rightarrow> string option \<Rightarrow> int \<Rightarrow> work_item \<Rightarrow> board \<Rightarrow> (op_error + card option) \<times> board" where
  "write_back env cx scope now item b = (case get_by_correlation_key scope (wi_key item) (bd_cards b) of
     None \<Rightarrow> (Inr None, b)
   | Some c \<Rightarrow> (case settle scope now c item (bd_cards b) of
        (Inl e, s) \<Rightarrow> (Inl (Hook_raised e), b\<lparr>bd_cards := s\<rparr>)
      | (Inr c1, s) \<Rightarrow> op_bind (advance_audited env cx scope now c1 (b\<lparr>bd_cards := s\<rparr>)) (\<lambda>c2 b2.
           (case show_status scope now item c c2 (bd_cards b2) of
              (Inl e, s') \<Rightarrow> (Inl (Hook_raised e), b2\<lparr>bd_cards := s'\<rparr>)
            | (Inr x, s') \<Rightarrow> (Inr x, b2\<lparr>bd_cards := s'\<rparr>)))))"

section \<open>The two endpoints\<close>

datatype ingress_error = Items_failed db_error | Board_failed op_error
datatype ingest_status = Accepted | Duplicate_event

definition ingest_event ::
  "intake_env \<Rightarrow> audit_ctx \<Rightarrow> string option \<Rightarrow> int \<Rightarrow> completion_event \<Rightarrow> world \<Rightarrow> (ingress_error + ingest_status) \<times> world" where
  "ingest_event env cx scope now event w = (case upsert_from_event scope now event (\<lambda>s. s) (wo_items w) of
     (Inl e, s) \<Rightarrow> (Inl (Items_failed e), w\<lparr>wo_items := s\<rparr>)
   | (Inr (item, applied), s) \<Rightarrow>
      (if \<not> applied then (Inr Duplicate_event, w\<lparr>wo_items := s\<rparr>)
       else (case write_back env (event_ctx cx) scope now item (wo_board w) of
          (Inl e, b) \<Rightarrow> (Inl (Board_failed e), w\<lparr>wo_items := s, wo_board := b\<rparr>)
        | (Inr _, b) \<Rightarrow> (Inr Accepted, w\<lparr>wo_items := s, wo_board := b\<rparr>))))"

text \<open>What a refresh reports for a service: how many items, how many stages it cleared, or a failure.
  Only an adapter's own error is caught.\<close>

datatype refresh_report = Refreshed nat nat | Unreachable

fun refresh_all ::
  "string option \<Rightarrow> int \<Rightarrow> (service \<times> (adapter_exc + adapter_item list)) list \<Rightarrow> wi_store
    \<Rightarrow> (adapter_exc + (service \<times> refresh_report) list) \<times> wi_store" where
  "refresh_all scope now [] s = (Inr [], s)"
| "refresh_all scope now ((svc, Inl e) # as) s =
     (if \<not> is_adapter_error e then (Inl e, s)
      else (case refresh_all scope now as s of (Inl e', s') \<Rightarrow> (Inl e', s') | (Inr rs, s') \<Rightarrow> (Inr ((svc, Unreachable) # rs), s')))"
| "refresh_all scope now ((svc, Inr items) # as) s = (case hydrate scope now {} items s of
     (Inl e, s1) \<Rightarrow> (Inl e, s1)
   | (Inr _, s1) \<Rightarrow>
       (let (cleared, s2) = reconcile_snapshot scope now svc (ai_task_id ` set items) s1
        in case refresh_all scope now as s2 of
             (Inl e', s') \<Rightarrow> (Inl e', s') | (Inr rs, s') \<Rightarrow> (Inr ((svc, Refreshed (length items) cleared) # rs), s')))"

section \<open>The write-back is the one of the intake\<close>

lemma advance_audited_cards:
  assumes "advance_audited env cx scope now c b = (Inr c', b')"
  shows "\<exists>d. advance env scope now c (bd_cards b) = (Inr c', d, bd_cards b')"
proof -
  obtain x d s where a: "advance env scope now c (bd_cards b) = (x, d, s)" by (cases "advance env scope now c (bd_cards b)") auto
  then obtain y where y: "x = Inr y" using assms by (cases x) (auto simp: advance_audited_def)
  show ?thesis
  proof (cases d)
    case None
    then show ?thesis using assms a y by (auto simp: advance_audited_def)
  next
    case (Some r)
    then have "op_bind (record_dispatch cx now (cd_key c) r (b\<lparr>bd_cards := s\<rparr>)) (\<lambda>_ b'. (Inr y, b')) = (Inr c', b')"
      using assms a y by (simp add: advance_audited_def)
    then have r: "c' = y" "record_dispatch cx now (cd_key c) r (b\<lparr>bd_cards := s\<rparr>) = (Inr (), b')" by (auto elim!: op_bind_cases)
    then have "bd_cards b' = s" using audit_note_step [of cx now _ _ _ _ _ _ "b\<lparr>bd_cards := s\<rparr>" "Inr ()" b' scope] unfolding record_dispatch_def by simp
    then show ?thesis using a y r(1) by simp
  qed
qed

lemma write_back_applies:
  assumes "write_back env cx scope now item b = (Inr x, b')"
  shows "\<exists>d. apply_status env scope now item (bd_cards b) = (Inr x, d, bd_cards b')"
proof (cases "get_by_correlation_key scope (wi_key item) (bd_cards b)")
  case None
  then show ?thesis using assms by (simp add: write_back_def apply_status_def)
next
  case (Some c)
  obtain y s where st: "settle scope now c item (bd_cards b) = (y, s)" by force
  then obtain c1 where c1: "y = Inr c1" using assms Some by (cases y) (auto simp: write_back_def)
  have "op_bind (advance_audited env cx scope now c1 (b\<lparr>bd_cards := s\<rparr>)) (\<lambda>c2 b2. (case show_status scope now item c c2 (bd_cards b2) of
      (Inl e, s') \<Rightarrow> (Inl (Hook_raised e), b2\<lparr>bd_cards := s'\<rparr>) | (Inr x, s') \<Rightarrow> (Inr x, b2\<lparr>bd_cards := s'\<rparr>))) = (Inr x, b')"
    using assms Some st c1 by (simp add: write_back_def)
  then show ?thesis
  proof (cases rule: op_bind_cases)
    case (went_on c2 b2)
    obtain d where "advance env scope now c1 s = (Inr c2, d, bd_cards b2)" using advance_audited_cards [OF went_on(1)] by auto
    then show ?thesis using Some st c1 went_on(2)
      by (auto simp: apply_status_def split: prod.splits sum.splits)
  qed simp
qed

lemma ingested_item:
  assumes ok: "ws_ok s" "scope \<noteq> Some []" and up: "upsert_from_event scope now e (\<lambda>s. s) s = (Inr (item, True), s')"
  shows "get_item scope s' (ce_correlation_key e) = Some item" "wi_key item = ce_correlation_key e"
    "stage_of scope s' (ce_correlation_key e) (ce_service e) = Some (event_slice (stage_of scope s (ce_correlation_key e) (ce_service e)) e)"
proof -
  note row = event_row [OF ok up, simplified]
  obtain a w where p: "plan_event scope now e s = (a, w)" "a = (item, True)"
    using up unfolding upsert_from_event_def by (elim run_plan_cases) auto
  have id: "to_model (event_change now e (x\<lparr>wr_id := i\<rparr>) (x\<lparr>wr_id := i\<rparr>)) = to_model (event_change now e x x)" for x i
    by (cases "ce_service e") (simp_all add: event_change_def Let_def to_model_def)
  show g: "get_item scope s' (ce_correlation_key e) = Some item"
  proof (cases "get_row scope s (ce_correlation_key e)")
    case None
    then show ?thesis using row(1) p by (simp add: get_item_def id plan_event_def Let_def)
  next
    case (Some r)
    then show ?thesis using row(1) p by (auto simp: get_item_def plan_event_def Let_def split: if_splits)
  qed
  then show "wi_key item = ce_correlation_key e" by (auto simp: get_item_def to_model_def dest!: get_row_Some)
  show "stage_of scope s' (ce_correlation_key e) (ce_service e) = Some (event_slice (stage_of scope s (ce_correlation_key e) (ce_service e)) e)"
    using row(1) by (auto simp: stage_of_def split: option.splits)
qed

section \<open>Properties\<close>

text \<open>C9: an accepted event reaches the work item and the card.  The slice of the event's service is
  the old one with the event applied, the card joined to the item is in the column the new
  item means given the stages it still owes, and the trail has only grown.\<close>

theorem event_reaches_the_board:
  assumes ok: "ws_ok (wo_items w)" "t \<noteq> []" "cards_ok (bd_cards (wo_board w))"
    and run: "ingest_event env cx (Some t) now e w = (Inr Accepted, w')"
    and c: "get_by_correlation_key (Some t) (ce_correlation_key e) (bd_cards (wo_board w)) = Some c"
  shows "\<exists>item c'. get_item (Some t) (wo_items w') (ce_correlation_key e) = Some item
    \<and> stage_of (Some t) (wo_items w') (ce_correlation_key e) (ce_service e)
        = Some (event_slice (stage_of (Some t) (wo_items w) (ce_correlation_key e) (ce_service e)) e)
    \<and> get_card (Some t) (cd_key c) (bd_cards (wo_board w')) = Some c'
    \<and> (\<forall>st. card_status_for item (pending_stages c' \<noteq> []) = Some st \<longrightarrow> cd_status c' = st)
    \<and> row_moved t (cd_key c) (bd_cards (wo_board w)) (bd_cards (wo_board w'))"
proof -
  obtain item s x b where up: "upsert_from_event (Some t) now e (\<lambda>s. s) (wo_items w) = (Inr (item, True), s)"
    and wb: "write_back env (event_ctx cx) (Some t) now item (wo_board w) = (Inr x, b)" and w': "w' = w\<lparr>wo_items := s, wo_board := b\<rparr>"
    using run by (auto simp: ingest_event_def split: sum.splits prod.splits if_splits)
  note item = ingested_item [OF ok(1) _ up, simplified, OF ok(2)]
  obtain d where ap: "apply_status env (Some t) now item (bd_cards (wo_board w)) = (Inr x, d, bd_cards b)"
    using write_back_applies [OF wb] by blast
  have "get_by_correlation_key (Some t) (wi_key item) (bd_cards (wo_board w)) = Some c" using c item(2) by simp
  from apply_status_moves [OF ok(3) this ap] obtain c' where
    "row_moved t (cd_key c) (bd_cards (wo_board w)) (bd_cards b)" "get_card (Some t) (cd_key c) (bd_cards b) = Some c'" "agrees item c'" by auto
  then show ?thesis using item by (auto simp: w' agrees_def)
qed

definition joined_card :: "nat option \<Rightarrow> run_status option \<Rightarrow> card" where
  "joined_card repo st = low_card\<lparr>cd_correlation_key := Some ''42'', cd_repository_id := repo,
     cd_stage_runs := (case st of None \<Rightarrow> [] | Some x \<Rightarrow>
       [(CODE, \<lparr>sr_service = AIFACTORY, sr_status = x, sr_dispatched_at = None, sr_ref = None, sr_detail = None\<rparr>)])\<rparr>"

definition ex_world :: "card \<Rightarrow> world" where
  "ex_world c = \<lparr>wo_items = ex_empty, wo_board = ex_bd (ex_board c)\<rparr>"

lemma ex_first: "\<exists>item. upsert_from_event (Some ''acme'') 7 ex_event (\<lambda>s. s) ex_empty = (Inr (item, True), ex_store)"
  using ex_applied unfolding ex_store_def
  by (cases "upsert_from_event (Some ''acme'') 7 ex_event (\<lambda>s. s) ex_empty"; cases "fst (upsert_from_event (Some ''acme'') 7 ex_event (\<lambda>s. s) ex_empty)") auto

lemma joined_found: "get_by_correlation_key (Some ''acme'') ''42'' (ex_board (joined_card repo st)) = Some (joined_card repo st)"
  by (simp add: get_by_correlation_key_def select_cards_def ex_board_def joined_card_def low_card_def ex_card_def sort_key_def)

lemma truthy_ex: "truthy (ce_id ex_event)"
  by (simp add: ex_event_def)

lemma joined_got: "get_card (Some ''acme'') (cd_key (joined_card repo st)) (ex_board (joined_card repo st)) = Some (joined_card repo st)"
  by (rule ex_board_got) (simp_all add: joined_card_def low_card_def ex_card_def)

lemma ex_item:
  assumes "upsert_from_event (Some ''acme'') 7 ex_event (\<lambda>s. s) ex_empty = (Inr (item, True), s)"
  shows "card_status_for item x = Some In_progress"
proof -
  have "item = fst (fst (plan_event (Some ''acme'') 7 ex_event ex_empty))"
    using assms unfolding upsert_from_event_def by (elim run_plan_cases) auto
  moreover have "ce_service ex_event = AIFACTORY" by (simp add: ex_event_def)
  ultimately have "wi_tfactory item = slice_or_empty None" "wi_aifactory item = event_slice None ex_event" "wi_pfactory item = slice_or_empty None"
    by (simp_all add: plan_event_def ex_empty_def get_row_def select_rows_def Let_def event_change_def to_model_def new_row_def)
  moreover have "ss_status (event_slice None ex_event) = Some ''coding''"
    by (simp add: event_slice_def) (simp add: ex_event_def apply_terminal_or_scalar_def empty_state_def)
  moreover have "\<not> is_failure_or_stuck (Some ''coding'')" "\<not> is_done (Some ''coding'')" by code_simp+
  ultimately show ?thesis by (simp add: card_status_for_def empty_state_def Let_def)
qed

lemma joined_status: "stage_status (joined_card repo st) x = (if x = CODE then st else None)"
  by (cases st) (simp_all add: joined_card_def stage_status_def low_card_def ex_card_def)

lemma joined_idle:
  assumes "st = None \<or> st = Some QUEUED"
  shows "settle scope now (joined_card repo st) item s = (Inr (joined_card repo st), s)"
  using assms by (auto simp: settle_def settled_patches_def joined_status SEQUENCE_def Let_def)

theorem event_reaches_the_board_witness:
  "\<exists>w' c'. ingest_event (ex_intake (\<lambda>_ _. TransportError)) ex_cx (Some ''acme'') 7 ex_event (ex_world (joined_card None None)) = (Inr Accepted, w')
    \<and> get_card (Some ''acme'') ''FCT-1'' (bd_cards (wo_board w')) = Some c' \<and> cd_status c' = In_progress"
proof -
  let ?c = "joined_card None None" and ?env = "ex_intake (\<lambda>_ _. TransportError)"
  obtain item where up: "upsert_from_event (Some ''acme'') 7 ex_event (\<lambda>s. s) ex_empty = (Inr (item, True), ex_store)" using ex_first by blast
  have key: "wi_key item = ''42''" using ingested_item(2) [OF ex_empty_ok _ up] by simp
  obtain r w' where run: "ingest_event ?env ex_cx (Some ''acme'') 7 ex_event (ex_world ?c) = (r, w')" by force
  have "advance_audited ?env cx (Some ''acme'') 7 ?c b = (Inr ?c, b)" for cx b
    by (simp add: advance_audited_def advance_def joined_status SEQUENCE_def)
  moreover have "\<exists>x s'. show_status (Some ''acme'') 7 item ?c ?c (ex_board ?c) = (Inr x, s')"
    using joined_got [of None None]
    by (auto simp: show_status_def ex_item [OF up] update_card_def ex_board_def key_used_def same_card_def Let_def split: option.splits)
  ultimately have "r = Inr Accepted" using run up key
    by (auto simp: ingest_event_def ex_world_def ex_bd_def write_back_def joined_found joined_idle op_bind_def)
  moreover have "wo_items w' = ex_store" using run up by (auto simp: ingest_event_def ex_world_def split: sum.splits prod.splits)
  moreover have "get_by_correlation_key (Some ''acme'') (ce_correlation_key ex_event) (bd_cards (wo_board (ex_world ?c))) = Some ?c"
    by (simp add: ex_world_def ex_bd_def joined_found)
  moreover have "cd_key ?c = ''FCT-1''" by (simp add: joined_card_def low_card_def ex_card_def)
  ultimately show ?thesis
    using event_reaches_the_board [of "ex_world ?c" "''acme''" ?env ex_cx 7 ex_event w' ?c] ex_item [OF up] run
      ingested_item(1) [OF ex_empty_ok _ up] ex_empty_ok ex_board_ok
    by (auto simp: ex_world_def ex_bd_def)
qed

text \<open>C38: an event that was stored is never applied again, not even when its write-back failed.  The
  work item is committed before the card is touched; when the write-back then raises, the
  producer sees an error and sends the event again, and the second delivery is answered as a
  duplicate: no stage is settled, none is sent and the card keeps its column.\<close>

theorem failed_write_back_is_not_retried:
  assumes ok: "ws_ok (wo_items w)" "scope \<noteq> Some []" and e: "truthy (ce_id e)" "\<not> is_worker_progress_event e"
    and again: "ce_id e' = ce_id e" "ce_correlation_key e' = ce_correlation_key e" "\<not> is_worker_progress_event e'"
    and failed: "ingest_event env cx scope now e w = (Inl (Board_failed x), w')"
  shows "ingest_event env' cx' scope later e' w' = (Inr Duplicate_event, w')"
proof -
  obtain item s where up: "upsert_from_event scope now e (\<lambda>s. s) (wo_items w) = (Inr (item, True), s)" and w': "wo_items w' = s"
    using failed by (auto simp: ingest_event_def split: sum.splits prod.splits if_splits)
  then obtain y where "upsert_from_event scope later e' (\<lambda>s. s) s = (Inr (y, False), s)"
    using event_replayed [OF ok e _ again, of now later] by auto
  then show ?thesis using w' by (simp add: ingest_event_def)
qed

theorem failed_write_back_is_not_retried_witness:
  "\<exists>w'. ingest_event (ex_intake (\<lambda>_ _. TransportError)) ex_cx (Some ''acme'') 7 ex_event (ex_world (joined_card (Some 1) (Some QUEUED)))
      = (Inl (Board_failed (Hook_raised (Git_failed GitResourceNotFoundError))), w')
    \<and> ingest_event (ex_intake (\<lambda>_ _. TransportError)) ex_cx (Some ''acme'') 8 ex_event w' = (Inr Duplicate_event, w')"
proof -
  let ?c = "joined_card (Some 1) (Some QUEUED)" and ?env = "ex_intake (\<lambda>_ _. TransportError)"
  obtain item where up: "upsert_from_event (Some ''acme'') 7 ex_event (\<lambda>s. s) ex_empty = (Inr (item, True), ex_store)" using ex_first by blast
  have key: "wi_key item = ''42''" using ingested_item(2) [OF ex_empty_ok _ up] by simp
  obtain r w' where run: "ingest_event ?env ex_cx (Some ''acme'') 7 ex_event (ex_world ?c) = (r, w')" by force
  have "git_target_for_card ?env (Some ''acme'') ?c = Inl (Git_failed GitResourceNotFoundError)"
    by (simp add: git_target_for_card_def git_target_for_def resolve_repository_def repository_def joined_card_def low_card_def ex_card_def
        ex_intake_def lift_err_def)
  then have "advance_audited ?env cx (Some ''acme'') 7 ?c b = (Inl (Hook_raised (Git_failed GitResourceNotFoundError)), b)" for cx b
    by (simp add: advance_audited_def advance_def joined_status SEQUENCE_def dispatch_stage_def)
  then have r: "r = Inl (Board_failed (Hook_raised (Git_failed GitResourceNotFoundError)))" using run up key
    by (auto simp: ingest_event_def ex_world_def ex_bd_def write_back_def joined_found joined_idle op_bind_def)
  have "ws_ok (wo_items (ex_world ?c))" by (simp add: ex_world_def ex_empty_ok)
  then show ?thesis using failed_write_back_is_not_retried [OF _ _ _ _ _ _ _ run [unfolded r], of ex_event ?env ex_cx 8] run r
    by (auto simp: truthy_ex)
qed

end
