(* ===== verification/UrlGuard.thy ===== *)
theory UrlGuard
  imports CardIntake "HOL-Library.Word"
begin

unbundle bit_operations_syntax

text \<open>
  The guard of outbound URLs, \<open>factory_common/url_safety.py\<close>, and its use on the base URL of a git
  connection, \<open>git_base_url.py\<close>.  \<open>resolve\<close> is \<open>getaddrinfo\<close>, the addresses of a host and port or
  \<open>None\<close> where it fails; \<open>hidden\<close> is what \<open>ipaddress\<close> calls private, loopback, link-local,
  reserved, multicast or unspecified.  Addresses are words, networks compare their leading bits.
  What stands between brackets in a host is not checked to be an address.
\<close>

section \<open>Addresses\<close>

datatype ip_addr = V4 "32 word" | V6 "128 word"
datatype ip_net = Net4 "32 word" nat | Net6 "128 word" nat

text \<open>An address is never in a network of the other version.\<close>

fun ip_in :: "ip_addr \<Rightarrow> ip_net \<Rightarrow> bool" where
  "ip_in (V4 a) (Net4 n len) = (drop_bit (32 - len) a = drop_bit (32 - len) n)"
| "ip_in (V6 a) (Net6 n len) = (drop_bit (128 - len) a = drop_bit (128 - len) n)"
| "ip_in _ _ = False"

definition METADATA_NETS :: "ip_net list" where
  "METADATA_NETS = [Net4 0xA9FE0000 16, Net6 0xFE800000000000000000000000000000 10, Net6 0xFD000EC2000000000000000000000254 128]"

definition is_metadata :: "ip_addr \<Rightarrow> bool" where
  "is_metadata ip = list_ex (ip_in ip) METADATA_NETS"

section \<open>The parts of a URL\<close>

definition url_clean :: "string \<Rightarrow> string" where
  "url_clean url = filter (\<lambda>c. \<not> url_unsafe c) (dropWhile (\<lambda>c. (of_char c :: nat) \<le> 32) url)"

definition has_scheme :: "string \<Rightarrow> bool" where
  "has_scheme u = (let scheme = before_char (CHR '':'') u in
     CHR '':'' \<in> set u \<and> scheme \<noteq> [] \<and> alnum (hd scheme) \<and> \<not> ascii_digit (hd scheme)
       \<and> list_all (\<lambda>c. alnum c \<or> c \<in> set ''+-.'') scheme)"

definition url_scheme :: "string \<Rightarrow> string" where
  "url_scheme url = (let u = url_clean url in if has_scheme u then lower (before_char (CHR '':'') u) else [])"

definition host_info :: "string \<Rightarrow> string" where
  "host_info netloc = rev (takeWhile (\<lambda>c. c \<noteq> CHR ''@'') (rev netloc))"

text \<open>\<open>_hostinfo\<close>: the host and the text of the port.\<close>

definition host_port :: "string \<Rightarrow> string \<times> string" where
  "host_port netloc = (let h = host_info netloc in
     if CHR ''['' \<in> set h
     then (let b = after_char (CHR ''['') h in (before_char (CHR '']'') b, after_char (CHR '':'') (after_char (CHR '']'') b)))
     else (before_char (CHR '':'') h, after_char (CHR '':'') h))"

definition url_hostname :: "string \<Rightarrow> string" where
  "url_hostname url = (let h = fst (host_port (url_netloc url)) in lower (before_char (CHR ''%'') h) @ dropWhile (\<lambda>c. c \<noteq> CHR ''%'') h)"

datatype url_refusal =
    Unsupported_scheme string
  | No_host
  | Unresolved string
  | Metadata_address ip_addr
  | Not_public ip_addr
  | Malformed_url
  | Too_many_redirects nat

definition url_port :: "string \<Rightarrow> url_refusal + nat option" where
  "url_port url = (let p = snd (host_port (url_netloc url)) in
     if p = [] then Inr None
     else if list_all ascii_digit p \<and> nat_of_digits 0 p \<le> 65535 then Inr (Some (nat_of_digits 0 p)) else Inl Malformed_url)"

definition balanced :: "string \<Rightarrow> bool" where
  "balanced netloc \<longleftrightarrow> (CHR ''['' \<in> set netloc \<longleftrightarrow> CHR '']'' \<in> set netloc)"

section \<open>The guard\<close>

type_synonym resolver = "string \<Rightarrow> nat \<Rightarrow> ip_addr list option"

fun check_addresses :: "(ip_addr \<Rightarrow> bool) \<Rightarrow> bool \<Rightarrow> ip_addr list \<Rightarrow> url_refusal option" where
  "check_addresses hidden private [] = None"
| "check_addresses hidden private (ip # ips) =
     (if is_metadata ip then Some (Metadata_address ip)
      else if \<not> private \<and> hidden ip then Some (Not_public ip)
      else check_addresses hidden private ips)"

definition connect_port :: "string \<Rightarrow> nat option \<Rightarrow> nat" where
  "connect_port url port = (case port of Some p \<Rightarrow> if p = 0 then (if url_scheme url = ''https'' then 443 else 80) else p
     | None \<Rightarrow> if url_scheme url = ''https'' then 443 else 80)"

definition assert_safe_outbound_url :: "resolver \<Rightarrow> (ip_addr \<Rightarrow> bool) \<Rightarrow> bool \<Rightarrow> string \<Rightarrow> url_refusal + string" where
  "assert_safe_outbound_url resolve hidden private url =
    (if \<not> balanced (url_netloc url) then Inl Malformed_url
     else if url_scheme url \<notin> {''http'', ''https''} then Inl (Unsupported_scheme (url_scheme url))
     else if url_hostname url = [] then Inl No_host
     else res_bind (url_port url) (\<lambda>port.
       case resolve (url_hostname url) (connect_port url port) of
         None \<Rightarrow> Inl (Unresolved (url_hostname url))
       | Some ips \<Rightarrow> (case check_addresses hidden private ips of Some e \<Rightarrow> Inl e | None \<Rightarrow> Inr url)))"

section \<open>Following redirects\<close>

definition MAX_REDIRECT_HOPS :: nat where "MAX_REDIRECT_HOPS = 5"

text \<open>What opening a URL gives, redirects refused: an answer, an HTTP error with its location, or another
  failure.\<close>

datatype hop = Opened nat string | Http_error nat "string option" | Open_failed string

datatype fetched = Fetched string nat string | Rejected url_refusal | Http_raised nat | Raised_other string

text \<open>The URLs that were opened, in order, and the outcome; \<open>join\<close> is \<open>urljoin\<close>.\<close>

fun follow_hops ::
  "resolver \<Rightarrow> (ip_addr \<Rightarrow> bool) \<Rightarrow> bool \<Rightarrow> (string \<Rightarrow> hop) \<Rightarrow> (string \<Rightarrow> string \<Rightarrow> string) \<Rightarrow> nat \<Rightarrow> nat \<Rightarrow> string \<Rightarrow> string list \<times> fetched" where
  "follow_hops resolve hidden private opener join max_hops 0 url = ([], Rejected (Too_many_redirects max_hops))"
| "follow_hops resolve hidden private opener join max_hops (Suc left) url =
     (case assert_safe_outbound_url resolve hidden private url of
        Inl e \<Rightarrow> ([], Rejected e)
      | Inr _ \<Rightarrow> (case opener url of
           Opened code body \<Rightarrow> ([url], Fetched url code body)
         | Open_failed msg \<Rightarrow> ([url], Raised_other msg)
         | Http_error code location \<Rightarrow>
             (if code \<in> {301, 302, 303, 307, 308} \<and> truthy location
              then (case follow_hops resolve hidden private opener join max_hops left (join url (the location)) of (us, r) \<Rightarrow> (url # us, r))
              else ([url], Http_raised code))))"

definition fetch_following_safe_redirects ::
  "resolver \<Rightarrow> (ip_addr \<Rightarrow> bool) \<Rightarrow> bool \<Rightarrow> (string \<Rightarrow> hop) \<Rightarrow> (string \<Rightarrow> string \<Rightarrow> string) \<Rightarrow> nat \<Rightarrow> string \<Rightarrow> string list \<times> fetched" where
  "fetch_following_safe_redirects resolve hidden private opener join max_hops url =
    follow_hops resolve hidden private opener join max_hops (max_hops + 1) url"

section \<open>The base URL of a connection\<close>

definition TRUSTED_DEFAULTS :: "string list" where
  "TRUSTED_DEFAULTS = dvalues PROVIDER_DEFAULT_BASE_URL"

definition safe_git_base_url :: "resolver \<Rightarrow> (ip_addr \<Rightarrow> bool) \<Rightarrow> string \<Rightarrow> url_refusal + string" where
  "safe_git_base_url resolve hidden url =
    (if url = [] then Inr url
     else if rstrip_char (CHR ''/'') url \<in> set TRUSTED_DEFAULTS then Inr url
     else assert_safe_outbound_url resolve hidden True url)"

section \<open>Lemmas\<close>

lemma check_addresses_None: "check_addresses hidden private ips = None
    \<longleftrightarrow> (\<forall>ip\<in>set ips. \<not> is_metadata ip \<and> (private \<or> \<not> hidden ip))"
  by (induction ips) auto

definition vetted :: "resolver \<Rightarrow> (ip_addr \<Rightarrow> bool) \<Rightarrow> bool \<Rightarrow> string \<Rightarrow> bool" where
  "vetted resolve hidden private url \<longleftrightarrow> url_scheme url \<in> {''http'', ''https''} \<and>
     (\<exists>port ips. resolve (url_hostname url) port = Some ips \<and> (\<forall>ip\<in>set ips. \<not> is_metadata ip \<and> (private \<or> \<not> hidden ip)))"

lemma guard_vets: "assert_safe_outbound_url resolve hidden private url = Inr u \<Longrightarrow> u = url \<and> vetted resolve hidden private url"
  by (auto simp: assert_safe_outbound_url_def vetted_def res_bind_Inr_iff check_addresses_None split: if_splits option.splits)

definition mapped_v6 :: "32 word \<Rightarrow> ip_addr" where
  "mapped_v6 a = V6 (0xFFFF00000000 OR ucast a)"

lemma mapped_not_metadata: "\<not> is_metadata (mapped_v6 a)"
proof -
  let ?x = "0xFFFF00000000 OR ucast a :: 128 word"
  have low: "\<not> bit (ucast a :: 128 word) 127" by (auto simp: bit_ucast_iff dest: bit_imp_le_length)
  have "\<not> ip_in (V6 ?x) (Net6 0xFE800000000000000000000000000000 10)"
  proof
    assume "ip_in (V6 ?x) (Net6 0xFE800000000000000000000000000000 10)"
    then have "bit (drop_bit 118 ?x) 9 = bit (drop_bit 118 (0xFE800000000000000000000000000000 :: 128 word)) 9" by simp
    then show False using low by (simp add: bit_drop_bit_eq bit_or_iff)
  qed
  moreover have "\<not> ip_in (V6 ?x) (Net6 0xFD000EC2000000000000000000000254 128)"
  proof
    assume "ip_in (V6 ?x) (Net6 0xFD000EC2000000000000000000000254 128)"
    then have "bit ?x 127 = bit (0xFD000EC2000000000000000000000254 :: 128 word) 127" by simp
    then show False using low by (simp add: bit_or_iff)
  qed
  ultimately show ?thesis by (simp add: is_metadata_def mapped_v6_def METADATA_NETS_def)
qed

text \<open>Each URL after the first is the location the one before it gave.\<close>

fun redirect_chain :: "(string \<Rightarrow> hop) \<Rightarrow> (string \<Rightarrow> string \<Rightarrow> string) \<Rightarrow> string list \<Rightarrow> bool" where
  "redirect_chain opener join (u # v # us) \<longleftrightarrow>
     (\<exists>code loc. opener u = Http_error code (Some loc) \<and> v = join u loc) \<and> redirect_chain opener join (v # us)"
| "redirect_chain opener join _ \<longleftrightarrow> True"

lemma follow_hops_sound:
  "follow_hops resolve hidden private opener join max_hops left url = (us, r) \<Longrightarrow>
    (\<forall>u\<in>set us. vetted resolve hidden private u) \<and> List.length us \<le> left \<and> redirect_chain opener join us
    \<and> (us \<noteq> [] \<longrightarrow> hd us = url) \<and> (\<forall>u code body. r = Fetched u code body \<longrightarrow> us \<noteq> [] \<and> last us = u \<and> opener u = Opened code body)"
proof (induction left arbitrary: url us r)
  case (Suc left)
  show ?case
  proof (cases "assert_safe_outbound_url resolve hidden private url")
    case (Inr u)
    then have v: "vetted resolve hidden private url" using guard_vets by blast
    show ?thesis
    proof (cases "opener url")
      case (Http_error code location)
      show ?thesis
      proof (cases "code \<in> {301, 302, 303, 307, 308} \<and> truthy location")
        case True
        then obtain loc where loc: "location = Some loc" by (cases location) auto
        obtain us' r' where rec: "follow_hops resolve hidden private opener join max_hops left (join url loc) = (us', r')" by force
        then have us: "us = url # us'" "r = r'" using Suc.prems Inr Http_error True loc by auto
        show ?thesis using Suc.IH [OF rec] us v Http_error loc by (cases us') auto
      qed (use Suc.prems Inr Http_error v in auto)
    qed (use Suc.prems Inr v in auto)
  qed (use Suc.prems in auto)
qed simp

section \<open>Properties\<close>

text \<open>C28: no URL is opened that was not vetted.  Whatever a server answers, every URL opened on the way,
  the first and each redirect, is an HTTP URL whose host resolved to addresses outside the
  metadata networks, and public ones in the strict posture; at most one more than the allowed
  redirects are opened, each from the location the last one gave, and what is returned is the
  answer of the last.\<close>

theorem redirects_are_vetted:
  "let (us, r) = fetch_following_safe_redirects resolve hidden private opener join max_hops url in
    (\<forall>u\<in>set us. vetted resolve hidden private u) \<and> List.length us \<le> max_hops + 1 \<and> redirect_chain opener join us
    \<and> (\<forall>u code body. r = Fetched u code body \<longrightarrow> us \<noteq> [] \<and> last us = u \<and> opener u = Opened code body)"
proof -
  obtain us r where "follow_hops resolve hidden private opener join max_hops (max_hops + 1) url = (us, r)" by force
  then show ?thesis using follow_hops_sound by (fastforce simp: fetch_following_safe_redirects_def)
qed

definition ex_resolve :: resolver where
  "ex_resolve host port = Some (if host = ''metadata'' then [V4 0xA9FEA9FE] else if host = ''::ffff:169.254.169.254'' then [mapped_v6 0xA9FEA9FE]
     else [V4 0x08080808])"

definition ex_opener :: "string \<Rightarrow> hop" where
  "ex_opener url = Http_error 302 (Some ''http://metadata/latest'')"

theorem redirects_are_vetted_witness:
  "fetch_following_safe_redirects ex_resolve (\<lambda>_. False) True ex_opener (\<lambda>base loc. loc) 5 ''http://git.example/''
      = ([''http://git.example/''], Rejected (Metadata_address (V4 0xA9FEA9FE)))
    \<and> vetted ex_resolve (\<lambda>_. False) True ''http://git.example/''"
proof -
  have run: "fetch_following_safe_redirects ex_resolve (\<lambda>_. False) True ex_opener (\<lambda>base loc. loc) 5 ''http://git.example/''
      = ([''http://git.example/''], Rejected (Metadata_address (V4 0xA9FEA9FE)))"
    by code_simp
  then show ?thesis
    using redirects_are_vetted [of ex_resolve "\<lambda>_. False" True ex_opener "\<lambda>base loc. loc" 5 "''http://git.example/''"] by simp
qed

text \<open>The guard lets the metadata service through under its IPv6-mapped address.  A base URL whose host
  resolves to a metadata address of IPv4 is refused, but the same address mapped into IPv6, which
  a literal host or a DNS record can give and which connects to the same machine, is accepted,
  since an address is never in a network of the other version.\<close>

theorem mapped_metadata_let_through:
  assumes "url_scheme url \<in> {''http'', ''https''}" "balanced (url_netloc url)" "url_hostname url \<noteq> []" "url_port url = Inr port"
    "is_metadata (V4 a)" "rstrip_char (CHR ''/'') url \<notin> set TRUSTED_DEFAULTS"
  shows "(resolve (url_hostname url) (connect_port url port) = Some [V4 a] \<longrightarrow> safe_git_base_url resolve hidden url = Inl (Metadata_address (V4 a)))
    \<and> (resolve (url_hostname url) (connect_port url port) = Some [mapped_v6 a] \<longrightarrow> safe_git_base_url resolve hidden url = Inr url)"
proof -
  have "url \<noteq> []" using assms(1) by (auto simp: url_scheme_def url_clean_def has_scheme_def)
  then show ?thesis using assms by (auto simp: safe_git_base_url_def assert_safe_outbound_url_def mapped_not_metadata)
qed

theorem mapped_metadata_let_through_witness:
  "safe_git_base_url ex_resolve (\<lambda>_. False) ''http://[::ffff:169.254.169.254]/'' = Inr ''http://[::ffff:169.254.169.254]/''
    \<and> is_metadata (V4 0xA9FEA9FE)"
proof -
  let ?u = "''http://[::ffff:169.254.169.254]/''"
  have u: "url_scheme ?u = ''http''" "balanced (url_netloc ?u)" "url_hostname ?u = ''::ffff:169.254.169.254''" "url_port ?u = Inr None"
    "is_metadata (V4 0xA9FEA9FE)" "rstrip_char (CHR ''/'') ?u \<notin> set TRUSTED_DEFAULTS" by code_simp+
  then show ?thesis using mapped_metadata_let_through [of ?u None "0xA9FEA9FE" ex_resolve "\<lambda>_. False"] by (simp add: ex_resolve_def)
qed

end
