(* ===== verification/InstallFlow.thy ===== *)
theory InstallFlow
  imports GitSafety UrlGuard
begin

text \<open>
  The install flow of \<open>git_install.py\<close>: the links to a provider's consent page, what its callback is
  made to prove (\<open>complete_git_install\<close> of \<open>git_config_ops.py\<close>), and the tokens minted from an
  install, with their cache.  What is not this program is in \<open>install_env\<close>: the answers of the
  providers, the file with the private key, RSA, the hash of a state, the cipher, name resolution,
  and the text of an exception.  One reading of the clock serves an operation.
\<close>

section \<open>Settings, environment, errors\<close>

record install_settings =
  ns_app_id :: "string option"
  ns_app_slug :: "string option"
  ns_private_key :: "string option"
  ns_private_key_file :: "string option"
  ns_client_id :: "string option"
  ns_client_secret :: "string option"
  ns_oauth_scope :: string
  ns_callback_base_url :: "string option"

datatype install_exc =
    No_flow string
  | Not_registered string
  | No_callback_url
  | Key_unreadable string
  | No_app_credentials
  | Bad_pem
  | Not_rsa
  | Unknown_installation string
  | Host_down
  | Host_status nat
  | Not_json
  | No_installation_token
  | No_oauth_app
  | Token_refused nat
  | No_access_token
  | Never_persisted
  | No_refresh_token
  | No_installation_id
  | No_code
  | Bad_link
  | No_stored_secret
  | Url_refused url_refusal
  | Git_exc git_error
  | Store_exc store_error
  | Naive_expiry
  | Mint_failed string string

text \<open>An answer of a host: none, or its status with the JSON of its body if it has one.\<close>

datatype wire = Wire_down | Wire nat "json option"

datatype pem_key = Pem_bad | Pem_other | Pem_rsa string

record install_env =
  ie_settings :: install_settings
  ie_git :: git_settings
  ie_get :: "string \<Rightarrow> string \<Rightarrow> string \<Rightarrow> wire"
  ie_post :: "string \<Rightarrow> string option \<Rightarrow> string \<Rightarrow> (string \<times> string) list \<Rightarrow> wire"
  ie_query :: "(string \<times> string) list \<Rightarrow> string"
  ie_read_file :: "string \<Rightarrow> string option"
  ie_pem :: "string \<Rightarrow> pem_key"
  ie_sign :: "string \<Rightarrow> string \<Rightarrow> string"
  ie_digest :: "string \<Rightarrow> string"
  ie_enc :: aead_enc
  ie_dec :: aead_dec
  ie_random :: seal_random
  ie_keys :: "string option"
  ie_resolve :: resolver
  ie_hidden :: "ip_addr \<Rightarrow> bool"
  ie_iso :: "string \<Rightarrow> pydatetime option"
  ie_repr :: "json \<Rightarrow> string"
  ie_text :: "install_exc \<Rightarrow> string"

definition setting :: "string option \<Rightarrow> string" where
  "setting x = strip (or_empty x)"

section \<open>What the deployment can do\<close>

definition github_private_key :: "install_env \<Rightarrow> install_exc + string option" where
  "github_private_key env = (let st = ie_settings env; path = setting (ns_private_key_file st) in
     if path \<noteq> [] then (case ie_read_file env path of None \<Rightarrow> Inl (Key_unreadable path) | Some pem \<Rightarrow> Inr (Some pem))
     else Inr (if truthy (ns_private_key st) then ns_private_key st else None))"

definition INSTALLABLE_PROVIDERS :: "string list" where
  "INSTALLABLE_PROVIDERS = [GITHUB, GITLAB]"

definition install_available :: "install_settings \<Rightarrow> (string, bool) dict" where
  "install_available st =
    (if setting (ns_callback_base_url st) = [] then [(GITHUB, False), (GITLAB, False)]
     else [(GITHUB, setting (ns_app_id st) \<noteq> [] \<and> setting (ns_app_slug st) \<noteq> [] \<and> (truthy (ns_private_key_file st) \<or> truthy (ns_private_key st))),
           (GITLAB, setting (ns_client_id st) \<noteq> [] \<and> setting (ns_client_secret st) \<noteq> [])])"

definition CALLBACK_PATH :: string where "CALLBACK_PATH = ''/git/install/callback''"

definition callback_url :: "install_settings \<Rightarrow> install_exc + string" where
  "callback_url st = (let base = rstrip_char (CHR ''/'') (setting (ns_callback_base_url st)) in
     if base = [] then Inl No_callback_url else Inr (base @ CALLBACK_PATH))"

definition without_suffix :: "string \<Rightarrow> string \<Rightarrow> string" where
  "without_suffix s suffix = take (List.length s - List.length suffix) s"

definition github_web_url :: "string \<Rightarrow> string" where
  "github_web_url api = (let base = rstrip_char (CHR ''/'') (strip api) in
     if base = [] \<or> base = ''https://api.github.com'' then ''https://github.com''
     else if endswith base ''/api/v3'' then without_suffix base ''/api/v3''
     else if endswith base ''/api'' then without_suffix base ''/api''
     else base)"

definition authorize_url :: "install_env \<Rightarrow> string \<Rightarrow> string \<Rightarrow> string \<Rightarrow> install_exc + string" where
  "authorize_url env provider base_url state = (let st = ie_settings env in
     if provider = GITHUB
     then (let slug = setting (ns_app_slug st) in
       if slug = [] then Inl (Not_registered GITHUB)
       else Inr (github_web_url base_url @ ''/apps/'' @ slug @ ''/installations/new?'' @ ie_query env [(''state'', state)]))
     else if provider = GITLAB
     then (let client = setting (ns_client_id st) in
       if client = [] then Inl (Not_registered GITLAB)
       else res_bind (callback_url st) (\<lambda>redirect.
         Inr (rstrip_char (CHR ''/'') (if base_url = [] then ''https://gitlab.com'' else base_url) @ ''/oauth/authorize?''
           @ ie_query env [(''client_id'', client), (''redirect_uri'', redirect), (''response_type'', ''code''), (''state'', state),
               (''scope'', ns_oauth_scope st)])))
     else Inl (No_flow provider))"

section \<open>GitHub\<close>

definition b64_char :: "nat \<Rightarrow> char" where
  "b64_char n = (if n < 26 then char_of (65 + n) else if n < 52 then char_of (71 + n) else if n < 62 then char_of (n - 4)
     else if n = 62 then CHR ''-'' else CHR ''_'')"

text \<open>URL-safe base 64 without its padding.\<close>

fun b64url_nats :: "nat list \<Rightarrow> string" where
  "b64url_nats [] = []"
| "b64url_nats [a] = [b64_char (a div 4), b64_char (a mod 4 * 16)]"
| "b64url_nats [a, b] = [b64_char (a div 4), b64_char (a mod 4 * 16 + b div 16), b64_char (b mod 16 * 4)]"
| "b64url_nats (a # b # c # ns) =
     [b64_char (a div 4), b64_char (a mod 4 * 16 + b div 16), b64_char (b mod 16 * 4 + c div 64), b64_char (c mod 64)] @ b64url_nats ns"

definition b64url :: "string \<Rightarrow> string" where
  "b64url s = b64url_nats (map of_char s)"

definition quoted :: "string \<Rightarrow> string" where
  "quoted s = CHR 0x22 # s @ [CHR 0x22]"

text \<open>The assertion of the App, nine minutes long and backdated by one.  \<open>iss\<close> is written as it is.\<close>

definition app_jwt :: "install_env \<Rightarrow> int \<Rightarrow> install_exc + string" where
  "app_jwt env now = res_bind (github_private_key env) (\<lambda>pem.
     let app_id = setting (ns_app_id (ie_settings env)) in
     if app_id = [] \<or> \<not> truthy pem then Inl No_app_credentials
     else (case ie_pem env (the pem) of
        Pem_bad \<Rightarrow> Inl Bad_pem
      | Pem_other \<Rightarrow> Inl Not_rsa
      | Pem_rsa key \<Rightarrow>
         (let issued = now div 1000000;
              header = b64url (''{'' @ quoted ''alg'' @ '':'' @ quoted ''RS256'' @ '','' @ quoted ''typ'' @ '':'' @ quoted ''JWT'' @ ''}'');
              payload = b64url (''{'' @ quoted ''iat'' @ '':'' @ str_of_int (issued - 60) @ '','' @ quoted ''exp'' @ '':'' @ str_of_int (issued + 540)
                @ '','' @ quoted ''iss'' @ '':'' @ quoted app_id @ ''}'');
              signing = header @ ''.'' @ payload
          in Inr (signing @ ''.'' @ b64url (ie_sign env key signing)))))"

definition field_of :: "json \<Rightarrow> string \<Rightarrow> json option" where
  "field_of j name = (case j of JObj ps \<Rightarrow> dget ps name | _ \<Rightarrow> None)"

definition json_str :: "install_env \<Rightarrow> json \<Rightarrow> string" where
  "json_str env j = (case j of JStr s \<Rightarrow> s | _ \<Rightarrow> ie_repr env j)"

definition account_of :: "install_env \<Rightarrow> json \<Rightarrow> string option" where
  "account_of env body = (case field_of body ''account'' of
     Some (JObj ps) \<Rightarrow>
       (case dget ps ''login'' of
          Some l \<Rightarrow> if jtruthy l then Some (json_str env l)
            else (case dget ps ''slug'' of Some g \<Rightarrow> if jtruthy g then Some (json_str env g) else None | None \<Rightarrow> None)
        | None \<Rightarrow> (case dget ps ''slug'' of Some g \<Rightarrow> if jtruthy g then Some (json_str env g) else None | None \<Rightarrow> None))
   | _ \<Rightarrow> None)"

definition github_base :: "string \<Rightarrow> string" where
  "github_base base_url = (if base_url = [] then ''https://api.github.com'' else base_url)"

text \<open>A body of a successful answer; \<open>raise_for_status\<close> lets only the two hundreds pass.\<close>

definition success_body :: "wire \<Rightarrow> install_exc + json" where
  "success_body r = (case r of Wire_down \<Rightarrow> Inl Host_down
     | Wire code body \<Rightarrow> if code < 200 \<or> 300 \<le> code then Inl (Host_status code) else (case body of None \<Rightarrow> Inl Not_json | Some j \<Rightarrow> Inr j))"

definition verify_installation :: "install_env \<Rightarrow> string \<Rightarrow> string \<Rightarrow> int \<Rightarrow> install_exc + string option" where
  "verify_installation env installation base_url now = res_bind (app_jwt env now) (\<lambda>jwt.
     let r = ie_get env (github_base base_url) jwt (''/app/installations/'' @ installation) in
     if (case r of Wire code _ \<Rightarrow> code = 404 | Wire_down \<Rightarrow> False) then Inl (Unknown_installation installation)
     else res_bind (success_body r) (\<lambda>body. Inr (account_of env body)))"

record minted =
  mt_token :: string
  mt_expires_at :: pydatetime

definition with_zulu :: "string \<Rightarrow> string" where
  "with_zulu s = concat (map (\<lambda>c. if c = CHR ''Z'' then ''+00:00'' else [c]) s)"

definition parse_expiry :: "install_env \<Rightarrow> int \<Rightarrow> json option \<Rightarrow> pydatetime" where
  "parse_expiry env now v = (case v of
     Some (JStr s) \<Rightarrow> (case ie_iso env (with_zulu s) of Some d \<Rightarrow> d | None \<Rightarrow> Aware (now + 1800 * 1000000))
   | _ \<Rightarrow> Aware (now + 1800 * 1000000))"

definition mint_installation_token :: "install_env \<Rightarrow> string \<Rightarrow> string \<Rightarrow> int \<Rightarrow> install_exc + minted" where
  "mint_installation_token env installation base_url now = res_bind (app_jwt env now) (\<lambda>jwt.
     res_bind (success_body (ie_post env (github_base base_url) (Some jwt) (''/app/installations/'' @ installation @ ''/access_tokens'') [])) (\<lambda>body.
       case field_of body ''token'' of
         Some (JStr t) \<Rightarrow> if t = [] then Inl No_installation_token
           else Inr \<lparr>mt_token = t, mt_expires_at = parse_expiry env now (field_of body ''expires_at'')\<rparr>
       | _ \<Rightarrow> Inl No_installation_token))"

section \<open>GitLab\<close>

record oauth_tokens =
  ot_access :: string
  ot_refresh :: "string option"
  ot_expires_at :: int

definition expires_seconds :: "json option \<Rightarrow> int" where
  "expires_seconds v = (case v of
     Some (JInt i) \<Rightarrow> i | Some (JBool b) \<Rightarrow> (if b then 1 else 0)
   | Some (JNum q) \<Rightarrow> (if 0 \<le> q then \<lfloor>q\<rfloor> else \<lceil>q\<rceil>)
   | _ \<Rightarrow> 1800)"

definition gitlab_token_call :: "install_env \<Rightarrow> string \<Rightarrow> (string \<times> string) list \<Rightarrow> int \<Rightarrow> install_exc + oauth_tokens" where
  "gitlab_token_call env base_url form now =
    (case ie_post env (rstrip_char (CHR ''/'') (if base_url = [] then ''https://gitlab.com'' else base_url)) None ''/oauth/token'' form of
       Wire_down \<Rightarrow> Inl Host_down
     | Wire code body \<Rightarrow>
        if 400 \<le> code then Inl (Token_refused code)
        else (case body of None \<Rightarrow> Inl Not_json
          | Some j \<Rightarrow> (case field_of j ''access_token'' of
               Some (JStr a) \<Rightarrow> if a = [] then Inl No_access_token
                 else Inr \<lparr>ot_access = a,
                        ot_refresh = (case field_of j ''refresh_token'' of Some (JStr r) \<Rightarrow> if r = [] then None else Some r | _ \<Rightarrow> None),
                        ot_expires_at = now + expires_seconds (field_of j ''expires_in'') * 1000000\<rparr>
             | _ \<Rightarrow> Inl No_access_token)))"

definition oauth_client :: "install_env \<Rightarrow> install_exc + (string \<times> string) list" where
  "oauth_client env = (let client = setting (ns_client_id (ie_settings env)); secret = setting (ns_client_secret (ie_settings env)) in
     if client = [] \<or> secret = [] then Inl No_oauth_app else Inr [(''client_id'', client), (''client_secret'', secret)])"

definition exchange_code :: "install_env \<Rightarrow> string \<Rightarrow> string \<Rightarrow> string \<Rightarrow> int \<Rightarrow> install_exc + oauth_tokens" where
  "exchange_code env code redirect_uri base_url now = res_bind (oauth_client env) (\<lambda>client.
     gitlab_token_call env base_url ([(''grant_type'', ''authorization_code''), (''code'', code)] @ client @ [(''redirect_uri'', redirect_uri)]) now)"

definition refresh_tokens :: "install_env \<Rightarrow> string \<Rightarrow> string \<Rightarrow> int \<Rightarrow> install_exc + oauth_tokens" where
  "refresh_tokens env token base_url now = res_bind (oauth_client env) (\<lambda>client.
     gitlab_token_call env base_url ([(''grant_type'', ''refresh_token''), (''refresh_token'', token)] @ client) now)"

definition persistable_secret :: "string \<Rightarrow> oauth_tokens \<Rightarrow> install_exc + string" where
  "persistable_secret provider tokens =
    (if provider = GITHUB then Inl Never_persisted
     else if provider = GITLAB then (if truthy (ot_refresh tokens) then Inr (the (ot_refresh tokens)) else Inl No_refresh_token)
     else Inl (No_flow provider))"

section \<open>Minting, with its cache\<close>

text \<open>The database, the tokens that are cached (those whose key is still in \<open>gd_tokens\<close>), and the
  outcomes of the credential reads, each of which is an audit entry.\<close>

record install_world =
  iw_db :: git_db
  iw_tokens :: "(string \<times> nat, minted) dict"
  iw_reads :: "bool list"

definition cached :: "string \<Rightarrow> nat \<Rightarrow> install_world \<Rightarrow> minted option" where
  "cached t cid w = (if (t, cid) \<in> set (gd_tokens (iw_db w)) then dget (iw_tokens w) (t, cid) else None)"

definition cache_token :: "string \<Rightarrow> nat \<Rightarrow> minted \<Rightarrow> install_world \<Rightarrow> install_world" where
  "cache_token t cid m w = w\<lparr>iw_tokens := dset (t, cid) m (iw_tokens w),
     iw_db := (iw_db w)\<lparr>gd_tokens := (t, cid) # filter (\<lambda>k. k \<noteq> (t, cid)) (gd_tokens (iw_db w))\<rparr>\<rparr>"

text \<open>\<open>None\<close> is the \<open>TypeError\<close> of comparing a naive expiry with an aware clock.\<close>

definition is_fresh :: "int \<Rightarrow> minted option \<Rightarrow> bool option" where
  "is_fresh now m = (case m of None \<Rightarrow> Some False
     | Some x \<Rightarrow> (case mt_expires_at x of Naive _ \<Rightarrow> None | Aware e \<Rightarrow> Some (now + 300 * 1000000 < e)))"

record token_source =
  ts_tenant :: string
  ts_connection :: nat
  ts_provider :: string
  ts_installation_id :: "string option"
  ts_base_url :: string

text \<open>\<open>_install_credential\<close>: the source of an installed connection.\<close>

definition install_source :: "string \<Rightarrow> git_install \<Rightarrow> git_db \<Rightarrow> token_source" where
  "install_source t i s = \<lparr>ts_tenant = t, ts_connection = gi_connection i, ts_provider = gi_provider i,
     ts_installation_id = gi_installation_id i,
     ts_base_url = resolved_base_url (gi_provider i) (case connection_or_none t (gi_connection i) s of None \<Rightarrow> [] | Some c \<Rightarrow> gc_base_url c)\<rparr>"

definition read_secret :: "install_env \<Rightarrow> string \<Rightarrow> nat \<Rightarrow> int \<Rightarrow> install_world \<Rightarrow> (install_exc + string option) \<times> install_world" where
  "read_secret env t cid now w =
    (case fetch_credential (ie_enc env) (ie_dec env) (ie_random env) (ie_keys env) t cid now (iw_db w) of
       Inl e \<Rightarrow> (Inl (Store_exc (DbErr e)), w)
     | Inr (secret, noted, db) \<Rightarrow>
        (Inr secret, w\<lparr>iw_db := db, iw_reads := iw_reads w @ (case noted of None \<Rightarrow> [] | Some ok \<Rightarrow> [ok])\<rparr>))"

definition write_secret :: "install_env \<Rightarrow> string \<Rightarrow> nat \<Rightarrow> string \<Rightarrow> int \<Rightarrow> install_world \<Rightarrow> (install_exc + unit) \<times> install_world" where
  "write_secret env t cid secret now w =
    (case set_connection_credential (ie_enc env) (ie_random env) (ie_keys env) t cid (Some secret) now (iw_db w) of
       Inl e \<Rightarrow> (Inl (Store_exc e), w) | Inr (_, db) \<Rightarrow> (Inr (), w\<lparr>iw_db := db\<rparr>))"

text \<open>The exchange of a refresh token that was read as \<open>stored\<close>; what the provider rotated it to is written
  back.  It is apart from the read, so that another call can run between the two.\<close>

definition exchange_stored ::
  "install_env \<Rightarrow> token_source \<Rightarrow> string \<Rightarrow> string option \<Rightarrow> int \<Rightarrow> install_world \<Rightarrow> (install_exc + minted) \<times> install_world" where
  "exchange_stored env src base stored now w =
    (if \<not> truthy stored then (Inl No_stored_secret, w)
     else (case refresh_tokens env (the stored) base now of
        Inl e \<Rightarrow> (Inl e, w)
      | Inr tok \<Rightarrow>
         (let m = \<lparr>mt_token = ot_access tok, mt_expires_at = Aware (ot_expires_at tok)\<rparr> in
          if truthy (ot_refresh tok) \<and> ot_refresh tok \<noteq> stored
          then (case persistable_secret GITLAB tok of
             Inl e \<Rightarrow> (Inl e, w)
           | Inr v \<Rightarrow> (case write_secret env (ts_tenant src) (ts_connection src) v now w of
                (Inl e, w') \<Rightarrow> (Inl e, w') | (Inr _, w') \<Rightarrow> (Inr m, w')))
          else (Inr m, w))))"

definition mint :: "install_env \<Rightarrow> token_source \<Rightarrow> int \<Rightarrow> install_world \<Rightarrow> (install_exc + minted) \<times> install_world" where
  "mint env src now w = (case safe_git_base_url (ie_resolve env) (ie_hidden env) (ts_base_url src) of
     Inl e \<Rightarrow> (Inl (Url_refused e), w)
   | Inr base \<Rightarrow>
      (if ts_provider src = GITHUB
       then (if \<not> truthy (ts_installation_id src) then (Inl No_installation_id, w)
             else (mint_installation_token env (the (ts_installation_id src)) base now, w))
       else if ts_provider src = GITLAB
       then (case read_secret env (ts_tenant src) (ts_connection src) now w of
          (Inl e, w') \<Rightarrow> (Inl e, w') | (Inr stored, w') \<Rightarrow> exchange_stored env src base stored now w')
       else (Inl (No_flow (ts_provider src)), w)))"

text \<open>What follows a mint: a failure forgets the cached token and degrades the install, a success is
  cached and clears a degradation.\<close>

definition settle_mint ::
  "install_env \<Rightarrow> token_source \<Rightarrow> int \<Rightarrow> (install_exc + minted) \<times> install_world \<Rightarrow> (install_exc + string) \<times> install_world" where
  "settle_mint env src now r = (case r of
     (Inl e, w) \<Rightarrow> (let reason = take 512 (ie_text env e) in
        (Inl (Mint_failed (ts_provider src) reason),
         w\<lparr>iw_db := degrade_install (ts_tenant src) (ts_connection src) reason now (forget_token (ts_tenant src) (ts_connection src) (iw_db w))\<rparr>))
   | (Inr m, w) \<Rightarrow> (let w' = cache_token (ts_tenant src) (ts_connection src) m w in
        (Inr (mt_token m), w'\<lparr>iw_db := recover_install (ts_tenant src) (ts_connection src) now (iw_db w')\<rparr>)))"

definition source_token :: "install_env \<Rightarrow> token_source \<Rightarrow> int \<Rightarrow> install_world \<Rightarrow> (install_exc + string) \<times> install_world" where
  "source_token env src now w = (case is_fresh now (cached (ts_tenant src) (ts_connection src) w) of
     None \<Rightarrow> (Inl Naive_expiry, w)
   | Some True \<Rightarrow> (Inr (mt_token (the (cached (ts_tenant src) (ts_connection src) w))), w)
   | Some False \<Rightarrow> settle_mint env src now (mint env src now w))"

text \<open>\<open>Credential.token()\<close> of a connection: an install wins over a stored credential, and only a
  connection that has neither takes the deployment's.\<close>

definition connection_token :: "install_env \<Rightarrow> string \<Rightarrow> nat \<Rightarrow> int \<Rightarrow> install_world \<Rightarrow> (install_exc + string option) \<times> install_world" where
  "connection_token env t cid now w = (case install_row t cid (iw_db w) of
     Some i \<Rightarrow> (case source_token env (install_source t i (iw_db w)) now w of (Inl e, w') \<Rightarrow> (Inl e, w') | (Inr v, w') \<Rightarrow> (Inr (Some v), w'))
   | None \<Rightarrow> (if credential_row t cid (iw_db w) = None
       then (Inr (case provider_token (ie_git env) of Some v \<Rightarrow> if v = [] then None else Some v | None \<Rightarrow> None), w)
       else read_secret env t cid now w))"

section \<open>The callback\<close>

record callback_claim =
  cl_state :: string
  cl_installation_id :: "string option"
  cl_code :: "string option"

record completed_install =
  cp_tenant :: string
  cp_connection :: nat
  cp_provider :: string
  cp_account :: "string option"

definition finish_install ::
  "install_state \<Rightarrow> string option \<Rightarrow> string option \<Rightarrow> int \<Rightarrow> install_world \<Rightarrow> (install_exc + completed_install) \<times> install_world" where
  "finish_install st installation account now w =
    (case record_install (is_tenant st) (is_connection st) (is_provider st) installation account now (iw_db w) of
       Inl e \<Rightarrow> (Inl (Store_exc e), w\<lparr>iw_db := forget_token (is_tenant st) (is_connection st) (iw_db w)\<rparr>)
     | Inr (_, db) \<Rightarrow> (Inr \<lparr>cp_tenant = is_tenant st, cp_connection = is_connection st, cp_provider = is_provider st, cp_account = account\<rparr>,
          w\<lparr>iw_db := db\<rparr>))"

definition prove_claim ::
  "install_env \<Rightarrow> callback_claim \<Rightarrow> install_state \<Rightarrow> string \<Rightarrow> int \<Rightarrow> install_world \<Rightarrow> (install_exc + completed_install) \<times> install_world" where
  "prove_claim env claim st base now w =
    (if is_provider st = GITHUB
     then (let installation = strip (or_empty (cl_installation_id claim)) in
       if \<not> isdigit installation then (Inl No_installation_id, w)
       else (case verify_installation env installation base now of
          Inl e \<Rightarrow> (Inl e, w) | Inr account \<Rightarrow> finish_install st (Some installation) account now w))
     else if is_provider st = GITLAB
     then (let code = strip (or_empty (cl_code claim)) in
       if code = [] then (Inl No_code, w)
       else (case res_bind (exchange_code env code (is_redirect_uri st) base now) (persistable_secret GITLAB) of
          Inl e \<Rightarrow> (Inl e, w)
        | Inr v \<Rightarrow> (case write_secret env (is_tenant st) (is_connection st) v now w of
             (Inl e, w') \<Rightarrow> (Inl e, w') | (Inr _, w') \<Rightarrow> finish_install st None None now w')))
     else (Inl (No_flow (is_provider st)), w))"

definition complete_git_install ::
  "install_env \<Rightarrow> callback_claim \<Rightarrow> int \<Rightarrow> install_world \<Rightarrow> (install_exc + completed_install) \<times> install_world" where
  "complete_git_install env claim now w = (case consume_install_state (ie_digest env) (cl_state claim) now (iw_db w) of
     (None, db) \<Rightarrow> (Inl Bad_link, w\<lparr>iw_db := db\<rparr>)
   | (Some st, db) \<Rightarrow> (let w1 = w\<lparr>iw_db := db\<rparr> in
       case connection (is_tenant st) (is_connection st) db of
         Inl e \<Rightarrow> (Inl (Git_exc e), w1)
       | Inr c \<Rightarrow> (case safe_git_base_url (ie_resolve env) (ie_hidden env) (resolved_base_url (is_provider st) (gc_base_url c)) of
            Inl e \<Rightarrow> (Inl (Url_refused e), w1)
          | Inr base \<Rightarrow> prove_claim env claim st base now w1)))"

section \<open>Starting an install\<close>

record install_link =
  il_provider :: string
  il_authorize_url :: string
  il_redirect_uri :: string
  il_expires_in :: nat

text \<open>\<open>start_git_install\<close> before its audit entry; \<open>token\<close> is the state drawn.  The link is made after the
  state is stored.\<close>

definition begin_install ::
  "install_env \<Rightarrow> string \<Rightarrow> nat \<Rightarrow> string \<Rightarrow> int \<Rightarrow> git_db \<Rightarrow> (install_exc + git_conn \<times> string \<times> string) \<times> git_db" where
  "begin_install env t cid token now s = (case connection t cid s of
     Inl e \<Rightarrow> (Inl (Git_exc e), s)
   | Inr c \<Rightarrow> (let provider = lower (strip (gc_provider c)) in
       if provider \<notin> set INSTALLABLE_PROVIDERS then (Inl (No_flow provider), s)
       else if dget (install_available (ie_settings env)) provider \<noteq> Some True then (Inl (Not_registered provider), s)
       else (case callback_url (ie_settings env) of
          Inl e \<Rightarrow> (Inl e, s)
        | Inr redirect \<Rightarrow> (case start_install (ie_digest env) token t cid redirect now s of
             Inl e \<Rightarrow> (Inl (Store_exc e), s) | Inr (_, s') \<Rightarrow> (Inr (c, provider, redirect), s')))))"

definition install_link_of :: "install_env \<Rightarrow> git_conn \<Rightarrow> string \<Rightarrow> string \<Rightarrow> string \<Rightarrow> install_exc + install_link" where
  "install_link_of env c provider redirect token =
    res_bind (authorize_url env provider (resolved_base_url provider (gc_base_url c)) token) (\<lambda>url.
      Inr \<lparr>il_provider = provider, il_authorize_url = url, il_redirect_uri = redirect, il_expires_in = 600\<rparr>)"

end
