(* ===== verification/InstallSafety.thy ===== *)
theory InstallSafety
  imports InstallFlow
begin

text \<open>
  What the install flow keeps: a callback acts for the tenant that started it and on nothing else,
  what an install stores is never an access token, a mint that fails is seen, and what a lost
  race over a rotated token does.
\<close>

section \<open>Each step stays within its tenant\<close>

lemma tokens_ok [simp, intro]: "step_ok t s (s\<lparr>gd_tokens := x\<rparr>)"
  by (simp add: step_ok_def git_ok_def git_view_def cred_owned_def list_all_iff split: option.splits)

lemma read_secret_ok:
  "read_secret env t cid now w = (r, w') \<Longrightarrow> step_ok t (iw_db w) (iw_db w')"
  by (auto simp: read_secret_def split: sum.splits dest: fetch_credential_ok)

lemma write_secret_ok:
  assumes "write_secret env t cid v now w = (r, w')"
  shows "step_ok t (iw_db w) (iw_db w')" "r = Inl e \<Longrightarrow> w' = w"
  using assms by (auto simp: write_secret_def split: sum.splits dest: set_connection_credential_ok)

lemma exchange_stored_ok: "exchange_stored env src base stored now w = (r, w') \<Longrightarrow> step_ok (ts_tenant src) (iw_db w) (iw_db w')"
  by (auto simp: exchange_stored_def Let_def split: if_splits sum.splits prod.splits dest: write_secret_ok(1))

lemma mint_ok: "mint env src now w = (r, w') \<Longrightarrow> step_ok (ts_tenant src) (iw_db w) (iw_db w')"
  by (auto simp: mint_def split: if_splits sum.splits prod.splits dest!: read_secret_ok exchange_stored_ok intro: step_ok_trans)

lemma degrade_ok [simp, intro]: "step_ok t s (degrade_install t cid reason now s)"
  by (simp add: degrade_install_def)

lemma settle_mint_ok:
  assumes "settle_mint env src now (x, w) = (r, w')" shows "step_ok (ts_tenant src) (iw_db w) (iw_db w')"
  using assms
  by (auto simp: settle_mint_def Let_def cache_token_def split: sum.splits
      intro: step_ok_trans [OF forget_token_ok degrade_ok] step_ok_trans [OF tokens_ok recover_install_ok])

lemma source_token_ok: "source_token env src now w = (r, w') \<Longrightarrow> step_ok (ts_tenant src) (iw_db w) (iw_db w')"
  by (cases "mint env src now w")
    (auto simp: source_token_def split: option.splits bool.splits dest!: settle_mint_ok mint_ok intro: step_ok_trans)

section \<open>What a step leaves alone\<close>

lemma store_sealed_frame: "store_sealed t cid x now s = Inr s' \<Longrightarrow> gd_installs s' = gd_installs s \<and> gd_conns s' = gd_conns s"
  by (auto simp: store_sealed_def split: if_splits)

lemma patch_connection_frame:
  "patch_connection t cid now m s = Inr s' \<Longrightarrow> gd_installs s' = gd_installs s \<and> gd_creds s' = gd_creds s"
  by (auto simp: patch_connection_def res_bind_Inr_iff update_conn_def Let_def split: if_splits option.splits)

lemma set_credential_frame:
  "set_connection_credential enc rnd spec t cid v now s = Inr (i, s') \<Longrightarrow> gd_installs s' = gd_installs s"
  by (auto simp: set_connection_credential_def res_bind_Inr_iff lift_err_Inr Let_def split: if_splits
      dest!: store_sealed_frame patch_connection_frame)

lemma migrate_frame:
  assumes "migrate_sealed enc dec rnd cur t cid ring now s = Inr s'"
  shows "gd_installs s' = gd_installs s"
proof (cases "rewrap enc dec (sr_nonce_kek rnd) cur t cid ring")
  case (Inr w)
  let ?cur = "case w of None \<Rightarrow> cur | Some x \<Rightarrow> x"
  obtain s1 where s1: "(case w of None \<Rightarrow> Inr s | Some x \<Rightarrow> store_sealed t cid x now s) = Inr s1"
    and r: "(case reseal enc dec rnd ?cur t cid ring of Inl _ \<Rightarrow> Inr s1 | Inr None \<Rightarrow> Inr s1 | Inr (Some y) \<Rightarrow> store_sealed t cid y now s1) = Inr s'"
    using assms Inr by (auto simp: migrate_sealed_def res_bind_Inr_iff Let_def)
  have "gd_installs s1 = gd_installs s" using s1 by (cases w) (auto dest: store_sealed_frame)
  then show ?thesis using r by (cases "reseal enc dec rnd ?cur t cid ring") (auto split: option.splits dest: store_sealed_frame)
qed (use assms in \<open>simp add: migrate_sealed_def\<close>)

lemma fetch_frame: "fetch_credential enc dec rnd spec t cid now s = Inr (v, a, s') \<Longrightarrow> gd_installs s' = gd_installs s"
  by (auto simp: fetch_credential_def res_bind_Inr_iff split: sum.splits option.splits dest!: migrate_frame)

lemma exchange_stored_frame: "exchange_stored env src base stored now w = (r, w') \<Longrightarrow> gd_installs (iw_db w') = gd_installs (iw_db w)"
  by (auto simp: exchange_stored_def write_secret_def Let_def split: if_splits sum.splits prod.splits dest: set_credential_frame)

lemma mint_frame: "mint env src now w = (r, w') \<Longrightarrow> gd_installs (iw_db w') = gd_installs (iw_db w)"
  by (auto simp: mint_def read_secret_def split: if_splits sum.splits prod.splits dest!: fetch_frame exchange_stored_frame)

lemma find_update_where:
  "(\<And>x. P (f x) = P x) \<Longrightarrow> List.find P (update_where P f xs) = map_option f (List.find P xs)"
  by (induction xs) (auto simp: update_where_def)

lemma install_row_patch: "install_row t cid (patch_install t cid st err now s)
    = map_option (\<lambda>i. i\<lparr>gi_status := st, gi_error := err, gi_updated_at := now\<rparr>) (install_row t cid s)"
  by (simp add: install_row_def patch_install_def find_update_where install_match_def)

lemma install_row_tokens [simp]: "install_row t cid (s\<lparr>gd_tokens := x\<rparr>) = install_row t cid s"
  by (simp add: install_row_def)

lemma install_row_forget [simp]: "install_row t cid (forget_token t' cid' s) = install_row t cid s"
  by (simp add: forget_token_def)

lemma settle_failed:
  assumes "settle_mint env src now (Inl e, w) = (r, w')"
  shows "r = Inl (Mint_failed (ts_provider src) (take 512 (ie_text env e)))" "cached (ts_tenant src) (ts_connection src) w' = None"
    "gd_creds (iw_db w') = gd_creds (iw_db w)"
    "install_row (ts_tenant src) (ts_connection src) (iw_db w') = map_option (\<lambda>i. i\<lparr>gi_status := INSTALL_DEGRADED,
        gi_error := Some (take 512 (ie_text env e)), gi_updated_at := now\<rparr>) (install_row (ts_tenant src) (ts_connection src) (iw_db w))"
  using assms
  by (auto simp: settle_mint_def Let_def cached_def degrade_install_def install_row_patch)
    (auto simp: patch_install_def forget_token_def)

lemma recovered: "install_row t cid (recover_install t cid now s) = Some i \<Longrightarrow> gi_status i = INSTALLED"
  by (auto simp: recover_install_def install_row_patch split: option.splits if_splits)

lemma settle_minted:
  assumes "settle_mint env src now (Inr m, w) = (r, w')"
  shows "r = Inr (mt_token m)" "cached (ts_tenant src) (ts_connection src) w' = Some m"
    "install_row (ts_tenant src) (ts_connection src) (iw_db w') = Some i \<Longrightarrow> gi_status i = INSTALLED"
proof -
  let ?w = "cache_token (ts_tenant src) (ts_connection src) m w"
  have w': "r = Inr (mt_token m)" "w' = ?w\<lparr>iw_db := recover_install (ts_tenant src) (ts_connection src) now (iw_db ?w)\<rparr>"
    using assms by (simp_all add: settle_mint_def Let_def)
  have "gd_tokens (recover_install t cid now s) = gd_tokens s" for t cid s
    by (simp add: recover_install_def patch_install_def split: option.splits)
  then show "r = Inr (mt_token m)" "cached (ts_tenant src) (ts_connection src) w' = Some m"
    using w' by (simp_all add: cached_def cache_token_def)
  show "gi_status i = INSTALLED" if "install_row (ts_tenant src) (ts_connection src) (iw_db w') = Some i"
    using that recovered w'(2) by simp
qed

section \<open>A completed install is there\<close>

lemma find_snoc_None: "List.find P xs = None \<Longrightarrow> List.find P (xs @ [y]) = (if P y then Some y else None)"
  by (induction xs) (auto split: if_splits)

lemma record_install_row:
  assumes "record_install t cid p iid acc now s = Inr (x, s')"
  shows "\<exists>i. install_row t cid s' = Some i \<and> gi_provider i = p \<and> gi_installation_id i = iid \<and> gi_account i = acc \<and> gi_status i = INSTALLED"
proof -
  obtain c where c: "connection t cid s = Inr c" using assms by (auto simp: record_install_def res_bind_Inr_iff lift_err_Inr)
  then have cid: "gc_id c = cid" using connection_or_none_Some by (auto simp: connection_Inr)
  show ?thesis
  proof (cases "install_row t cid s")
    case (Some i)
    then show ?thesis using assms c
      by (auto simp: record_install_def lift_err_def Let_def install_row_def find_update_where install_match_def forget_token_def)
  next
    case None
    then have "List.find (install_match t cid) (gd_installs s @ [y]) = (if install_match t cid y then Some y else None)" for y
      by (simp add: install_row_def find_snoc_None)
    then show ?thesis using assms c None cid
      by (auto simp: record_install_def lift_err_def Let_def install_row_def install_match_def forget_token_def split: if_splits)
  qed
qed

section \<open>The callback\<close>

lemma patch_connection_owned:
  assumes "patch_connection t cid now m s = Inr s'"
  shows "owned u c s' = owned u c s" "gd_states s' = gd_states s"
proof -
  have same: "(\<lambda>c. (gc_tenant c, gc_id c)) ` set (update_where P f xs) = (\<lambda>c. (gc_tenant c, gc_id c)) ` set xs"
    if "\<And>x. gc_tenant (f x) = gc_tenant x \<and> gc_id (f x) = gc_id x" for P f xs
    using that by (induction xs) (auto simp: update_where_def)
  obtain f where "s' = s\<lparr>gd_conns := update_where (\<lambda>d. gc_id d = cid) f (gd_conns s)\<rparr>" "\<And>x. gc_tenant (f x) = gc_tenant x \<and> gc_id (f x) = gc_id x"
    using assms by (auto simp: patch_connection_def split: option.splits if_splits)
  then show "owned u c s' = owned u c s" "gd_states s' = gd_states s" by (simp_all add: owned_def same)
qed

lemma write_secret_owned:
  assumes "write_secret env t cid v now w = (Inr u, w')"
  shows "owned t' c (iw_db w') = owned t' c (iw_db w)" "gd_states (iw_db w') = gd_states (iw_db w)"
proof -
  obtain sl m s1 s2 where s1: "store_sealed t cid sl now (iw_db w) = Inr s1" and s2: "patch_connection t cid now m s1 = Inr s2" and w': "iw_db w' = s2"
    using assms by (auto simp: write_secret_def set_connection_credential_def res_bind_Inr_iff lift_err_Inr Let_def split: if_splits sum.splits)
  have "owned t' c s1 = owned t' c (iw_db w) \<and> gd_states s1 = gd_states (iw_db w)"
    using s1 by (auto simp: store_sealed_def split: if_splits)
  then show "owned t' c (iw_db w') = owned t' c (iw_db w)" "gd_states (iw_db w') = gd_states (iw_db w)"
    using patch_connection_owned [OF s2] w' by simp_all
qed

lemma record_install_total:
  assumes ok: "git_ok s" and own: "owned t cid s"
  shows "\<exists>x s'. record_install t cid p iid acc now s = Inr (x, s') \<and> gd_states s' = gd_states s \<and> gd_creds s' = gd_creds s"
proof -
  obtain c where conn: "connection t cid s = Inr c" using own by (auto simp: connection_owned connection_Inr)
  have "\<not> list_ex (\<lambda>j. gi_connection j = cid) (gd_installs s)" if "install_row t cid s = None"
  proof
    assume "list_ex (\<lambda>j. gi_connection j = cid) (gd_installs s)"
    then obtain j where j: "j \<in> set (gd_installs s)" "gi_connection j = cid" by (auto simp: list_ex_iff)
    then have "owned (gi_tenant j) cid s" using ok by (auto simp: git_ok_def list_all_iff)
    then have "gi_tenant j = t" using owned_unique [OF ok _ own] by blast
    then show False using that j by (auto simp: install_row_def find_None_iff install_match_def)
  qed
  then show ?thesis using conn
    by (cases "install_row t cid s") (auto simp: record_install_def lift_err_def Let_def forget_token_def install_row_def)
qed

lemma drop_state_ok:
  assumes "distinct (map is_hash (gd_states s))" "i \<in> set (gd_states s)"
  shows "step_ok (is_tenant i) s (drop_state i s)"
proof -
  have "j = i" if "j \<in> set (gd_states s)" "is_hash j = is_hash i" for j
    using assms that by (auto simp: distinct_map inj_on_def)
  then have "tenant_rows is_tenant t (filter (\<lambda>j. is_hash j \<noteq> is_hash i) (gd_states s)) = tenant_rows is_tenant t (gd_states s)"
    if "t \<noteq> is_tenant i" for t using that by (auto simp: tenant_rows_def filter_filter intro!: filter_cong)
  then show ?thesis
    by (auto simp: step_ok_def drop_state_def git_ok_def git_view_def list_all_iff cred_owned_def split: option.splits)
qed

lemma read_state_found: "read_state digest token s = Some i \<Longrightarrow> i \<in> set (gd_states s) \<and> is_hash i = digest token"
  by (auto simp: read_state_def find_Some_iff split: if_splits)

lemma read_state_gone:
  assumes "read_state digest token s = Some i" "gd_states s' = gd_states (drop_state i s)"
  shows "read_state digest token s' = None"
  using read_state_found [OF assms(1)] assms(2) by (simp add: read_state_def drop_state_def find_None_iff)

text \<open>What an install ends in.\<close>

definition landed :: "install_state \<Rightarrow> string option \<Rightarrow> string option \<Rightarrow> completed_install \<Rightarrow> git_db \<Rightarrow> bool" where
  "landed st iid acc c s = (cp_tenant c = is_tenant st \<and> cp_connection c = is_connection st \<and> cp_provider c = is_provider st \<and> cp_account c = acc
     \<and> (case install_row (is_tenant st) (is_connection st) s of None \<Rightarrow> False
        | Some i \<Rightarrow> gi_provider i = is_provider st \<and> gi_installation_id i = iid \<and> gi_account i = acc \<and> gi_status i = INSTALLED))"

lemma finish_install_lands:
  assumes "git_ok (iw_db w)" "owned (is_tenant st) (is_connection st) (iw_db w)"
  obtains c w' where "finish_install st iid acc now w = (Inr c, w')" "step_ok (is_tenant st) (iw_db w) (iw_db w')"
    "gd_states (iw_db w') = gd_states (iw_db w)" "gd_creds (iw_db w') = gd_creds (iw_db w)" "landed st iid acc c (iw_db w')"
proof -
  obtain x s where r: "record_install (is_tenant st) (is_connection st) (is_provider st) iid acc now (iw_db w) = Inr (x, s)"
    "gd_states s = gd_states (iw_db w)" "gd_creds s = gd_creds (iw_db w)" using record_install_total [OF assms] by blast
  let ?c = "\<lparr>cp_tenant = is_tenant st, cp_connection = is_connection st, cp_provider = is_provider st, cp_account = acc\<rparr>"
  have "landed st iid acc ?c s" using record_install_row [OF r(1)] by (auto simp: landed_def)
  moreover have "finish_install st iid acc now w = (Inr ?c, w\<lparr>iw_db := s\<rparr>)" using r by (simp add: finish_install_def)
  moreover have "step_ok (is_tenant st) (iw_db w) s" using record_install_ok r(1) by blast
  ultimately show ?thesis using r(2,3) by (intro that [of ?c "w\<lparr>iw_db := s\<rparr>"]) simp_all
qed

text \<open>What proving a claim comes to, on a store where the connection is the tenant's: nothing is written
  unless it ends well.\<close>

lemma prove_github:
  assumes ok: "git_ok (iw_db w)" and own: "owned (is_tenant st) (is_connection st) (iw_db w)"
    and p: "is_provider st = GITHUB" and run: "prove_claim env claim st base now w = (r, w')"
  shows "(\<exists>e. r = Inl e \<and> w' = w) \<or> (\<exists>c iid acc. r = Inr c \<and> step_ok (is_tenant st) (iw_db w) (iw_db w') \<and> gd_states (iw_db w') = gd_states (iw_db w)
     \<and> gd_creds (iw_db w') = gd_creds (iw_db w) \<and> landed st (Some iid) acc c (iw_db w') \<and> verify_installation env iid base now = Inr acc)"
proof -
  let ?iid = "strip (or_empty (cl_installation_id claim))"
  show ?thesis
  proof (cases "isdigit ?iid \<and> (\<exists>acc. verify_installation env ?iid base now = Inr acc)")
    case True
    then obtain acc where v: "isdigit ?iid" "verify_installation env ?iid base now = Inr acc" by blast
    obtain c w2 where "finish_install st (Some ?iid) acc now w = (Inr c, w2)" "step_ok (is_tenant st) (iw_db w) (iw_db w2)"
      "gd_states (iw_db w2) = gd_states (iw_db w)" "gd_creds (iw_db w2) = gd_creds (iw_db w)" "landed st (Some ?iid) acc c (iw_db w2)"
      using finish_install_lands [OF ok own] by blast
    then show ?thesis using run p v by (auto simp: prove_claim_def Let_def)
  next
    case False
    then show ?thesis using run p by (auto simp: prove_claim_def Let_def split: if_splits sum.splits)
  qed
qed

lemma prove_gitlab:
  assumes ok: "git_ok (iw_db w)" and own: "owned (is_tenant st) (is_connection st) (iw_db w)"
    and p: "is_provider st \<noteq> GITHUB" and run: "prove_claim env claim st base now w = (r, w')"
  shows "(\<exists>e. r = Inl e \<and> w' = w) \<or> (\<exists>c. r = Inr c \<and> step_ok (is_tenant st) (iw_db w) (iw_db w') \<and> gd_states (iw_db w') = gd_states (iw_db w)
     \<and> landed st None None c (iw_db w'))"
proof (cases "\<exists>v w1. write_secret env (is_tenant st) (is_connection st) v now w = (Inr (), w1)
    \<and> finish_install st None None now w1 = prove_claim env claim st base now w")
  case True
  then obtain v w1 where v: "write_secret env (is_tenant st) (is_connection st) v now w = (Inr (), w1)"
    and f: "finish_install st None None now w1 = prove_claim env claim st base now w" by blast
  have s: "step_ok (is_tenant st) (iw_db w) (iw_db w1)" by (rule write_secret_ok(1) [OF v])
  have "git_ok (iw_db w1)" "owned (is_tenant st) (is_connection st) (iw_db w1)"
    using s ok own write_secret_owned [OF v] by (simp_all add: step_ok_def)
  from finish_install_lands [OF this] obtain c w2 where "finish_install st None None now w1 = (Inr c, w2)" "step_ok (is_tenant st) (iw_db w1) (iw_db w2)"
    "gd_states (iw_db w2) = gd_states (iw_db w1)" "landed st None None c (iw_db w2)" by blast
  then show ?thesis using run f s write_secret_owned [OF v] by (auto intro: step_ok_trans)
next
  case False
  have "w' = w \<and> (\<exists>e. r = Inl e)"
    using run p False
    by (auto simp: prove_claim_def Let_def split: if_splits sum.splits prod.splits dest: write_secret_ok(2))
  then show ?thesis by blast
qed

lemma prove_claim_lands:
  assumes ok: "git_ok (iw_db w)" and own: "owned (is_tenant st) (is_connection st) (iw_db w)"
    and run: "prove_claim env claim st base now w = (r, w')"
  shows "step_ok (is_tenant st) (iw_db w) (iw_db w')" "gd_states (iw_db w') = gd_states (iw_db w)" "r = Inl e \<Longrightarrow> w' = w"
    "r = Inr c \<Longrightarrow> \<exists>iid acc. landed st iid acc c (iw_db w') \<and> (is_provider st = GITHUB \<longrightarrow> gd_creds (iw_db w') = gd_creds (iw_db w)
        \<and> (\<exists>x. iid = Some x \<and> verify_installation env x base now = Inr acc))"
  using prove_github [OF ok own _ run] prove_gitlab [OF ok own _ run] by (cases "is_provider st = GITHUB"; auto)+

lemma callback_runs:
  assumes "read_state (ie_digest env) (cl_state claim) (iw_db w) = Some st" "complete_git_install env claim now w = (r, w')"
  shows "(\<exists>e. r = Inl e \<and> w' = w\<lparr>iw_db := drop_state st (iw_db w)\<rparr> \<and> (is_expires_at st < now \<longrightarrow> e = Bad_link))
    \<or> (\<not> is_expires_at st < now \<and> (\<exists>base. prove_claim env claim st base now (w\<lparr>iw_db := drop_state st (iw_db w)\<rparr>) = (r, w')))"
  using assms by (auto simp: complete_git_install_def consume_install_state_def live_state_def Let_def split: if_splits sum.splits)

text \<open>C27: A callback acts only for the tenant that started the install it presents the state of.  A
  state that is not stored is refused with nothing touched.  A stored one is used up whatever happens
  next, so the same link never works again; an expired one is refused; a callback that fails leaves
  installs, credentials and connections as they were; and one that succeeds leaves the install of
  that state's connection installed, for GitHub with the installation and the account that the host
  confirmed to the App and with no credential written.  No other tenant sees a difference.\<close>

theorem callback_lands_on_its_tenant:
  assumes "git_ok (iw_db w)" "distinct (map is_hash (gd_states (iw_db w)))"
    and "complete_git_install env claim now w = (r, w')"
  shows "case read_state (ie_digest env) (cl_state claim) (iw_db w) of
      None \<Rightarrow> r = Inl Bad_link \<and> w' = w
    | Some st \<Rightarrow> git_ok (iw_db w') \<and> (\<forall>t. t \<noteq> is_tenant st \<longrightarrow> git_view t (iw_db w') = git_view t (iw_db w))
        \<and> read_state (ie_digest env) (cl_state claim) (iw_db w') = None
        \<and> (is_expires_at st < now \<longrightarrow> r = Inl Bad_link)
        \<and> (case r of Inl _ \<Rightarrow> iw_db w' = drop_state st (iw_db w)
           | Inr c \<Rightarrow> (\<exists>iid acc. landed st iid acc c (iw_db w')
               \<and> (is_provider st = GITHUB \<longrightarrow> gd_creds (iw_db w') = gd_creds (iw_db w)
                  \<and> (\<exists>x base. iid = Some x \<and> verify_installation env x base now = Inr acc))))"
proof (cases "read_state (ie_digest env) (cl_state claim) (iw_db w)")
  case None
  then show ?thesis using assms(3) by (simp add: complete_git_install_def consume_install_state_def)
next
  case (Some st)
  let ?w1 = "w\<lparr>iw_db := drop_state st (iw_db w)\<rparr>"
  have drop: "step_ok (is_tenant st) (iw_db w) (iw_db ?w1)" "git_ok (iw_db ?w1)"
    using drop_state_ok [OF assms(2)] read_state_found [OF Some] assms(1) by (simp_all add: step_ok_def)
  have own: "owned (is_tenant st) (is_connection st) (iw_db ?w1)"
    using assms(1) read_state_found [OF Some] by (simp add: git_ok_def list_all_iff drop_state_def)
  have done_: "?thesis" if "step_ok (is_tenant st) (iw_db ?w1) (iw_db w')" "gd_states (iw_db w') = gd_states (iw_db ?w1)" "is_expires_at st < now \<longrightarrow> r = Inl Bad_link"
    "case r of Inl _ \<Rightarrow> iw_db w' = drop_state st (iw_db w)
      | Inr c \<Rightarrow> (\<exists>iid acc. landed st iid acc c (iw_db w') \<and> (is_provider st = GITHUB \<longrightarrow> gd_creds (iw_db w') = gd_creds (iw_db w)
          \<and> (\<exists>x base. iid = Some x \<and> verify_installation env x base now = Inr acc)))"
    using that Some step_ok_trans [OF drop(1) that(1)] assms(1) read_state_gone [OF Some, of "iw_db w'"]
    by (simp add: step_ok_def split: sum.splits)
  show ?thesis
  proof (cases "\<exists>base. \<not> is_expires_at st < now \<and> prove_claim env claim st base now ?w1 = (r, w')")
    case True
    then obtain base where p: "prove_claim env claim st base now ?w1 = (r, w')" and live: "\<not> is_expires_at st < now" by blast
    note l = prove_claim_lands [OF drop(2) own p]
    have creds: "gd_creds (iw_db ?w1) = gd_creds (iw_db w)" by (simp add: drop_state_def)
    show ?thesis using l(1,2) live l(3) l(4) creds by (intro done_) (auto split: sum.splits, metis+)
  next
    case False
    then show ?thesis using callback_runs [OF Some assms(3)] by (intro done_) auto
  qed
qed

text \<open>An environment and a store to evaluate: a GitHub App that the host knows, one connection, and a
  state that is pending for it.\<close>

definition ex_install_env :: "wire \<Rightarrow> install_env" where
  "ex_install_env answer = \<lparr>ie_settings = \<lparr>ns_app_id = Some ''7'', ns_app_slug = Some ''cf'', ns_private_key = Some ''pem'', ns_private_key_file = None,
       ns_client_id = Some ''c'', ns_client_secret = Some ''s'', ns_oauth_scope = ''api'', ns_callback_base_url = Some ''https://cf''\<rparr>,
     ie_git = \<lparr>st_git_provider = GITHUB, st_git_provider_url = None, st_github_api_url = [], st_github_repo = None, st_intake_project_id = None,
       st_git_provider_token = None, st_github_token = None\<rparr>,
     ie_get = (\<lambda>_ _ _. answer), ie_post = (\<lambda>_ _ _ _. answer), ie_query = (\<lambda>_. []), ie_read_file = (\<lambda>_. None), ie_pem = Pem_rsa,
     ie_sign = (\<lambda>_ _. ''s''), ie_digest = (\<lambda>x. x), ie_enc = (\<lambda>_ _ _ v. v), ie_dec = (\<lambda>_ _ _ v. Some v),
     ie_random = \<lparr>sr_dek = [], sr_nonce_kek = [], sr_nonce_dek = []\<rparr>, ie_keys = None, ie_resolve = (\<lambda>_ _. None), ie_hidden = (\<lambda>_. False),
     ie_iso = (\<lambda>_. None), ie_repr = (\<lambda>_. []), ie_text = (\<lambda>_. ''refused'')\<rparr>"

definition ex_pending :: install_state where
  "ex_pending = \<lparr>is_hash = ''tok'', is_tenant = ''acme'', is_connection = 1, is_provider = GITHUB, is_redirect_uri = [], is_expires_at = 600\<rparr>"

definition ex_install_world :: install_world where
  "ex_install_world = \<lparr>iw_db = ex_git\<lparr>gd_states := [ex_pending]\<rparr>, iw_tokens = [], iw_reads = []\<rparr>"

definition ex_claim :: callback_claim where
  "ex_claim = \<lparr>cl_state = ''tok'', cl_installation_id = Some ''99'', cl_code = None\<rparr>"

definition ex_answer :: wire where
  "ex_answer = Wire 200 (Some (JObj [(''account'', JObj [(''login'', JStr ''octo'')]), (''token'', JStr ''ghs'')]))"

lemma ex_install_ok: "git_ok (iw_db ex_install_world)" "distinct (map is_hash (gd_states (iw_db ex_install_world)))"
  by (simp_all add: ex_install_world_def git_ok_def ex_pending_def owned_def ex_git_def ex_conn_def git_empty_def ex_repo_def
      keys_unique_def repo_key_def)

lemma ex_callback: "fst (complete_git_install (ex_install_env ex_answer) ex_claim 5 ex_install_world)
    = Inr \<lparr>cp_tenant = ''acme'', cp_connection = 1, cp_provider = GITHUB, cp_account = Some ''octo''\<rparr>"
  by code_simp

theorem callback_lands_on_its_tenant_witness:
  "\<exists>c w' i. complete_git_install (ex_install_env ex_answer) ex_claim 5 ex_install_world = (Inr c, w') \<and> git_ok (iw_db w')
    \<and> install_row ''acme'' 1 (iw_db w') = Some i \<and> gi_account i = Some ''octo''
    \<and> read_state (\<lambda>x. x) ''tok'' (iw_db w') = None"
proof -
  obtain w' where w': "complete_git_install (ex_install_env ex_answer) ex_claim 5 ex_install_world
      = (Inr \<lparr>cp_tenant = ''acme'', cp_connection = 1, cp_provider = GITHUB, cp_account = Some ''octo''\<rparr>, w')"
    using ex_callback by (metis prod.collapse)
  have "read_state (ie_digest (ex_install_env ex_answer)) (cl_state ex_claim) (iw_db ex_install_world) = Some ex_pending"
    by code_simp
  then show ?thesis using callback_lands_on_its_tenant [OF ex_install_ok w'] w'
    by (auto simp: landed_def ex_pending_def ex_install_env_def ex_claim_def split: option.splits)
qed

section \<open>Minting\<close>

text \<open>Asking an installed connection for a token touches nobody else's rows and ends in one of
  three ways.  A cached token with more than five minutes left is given back and nothing changes.
  Otherwise a mint that works leaves its token cached and the install installed, whatever it was
  before; one that fails drops the cached token and leaves the install degraded with the reason that
  was reported, so a token that can no longer be minted is never served and never hidden.\<close>

theorem mint_settles:
  assumes "git_ok (iw_db w)" and "source_token env src now w = (r, w')"
  shows "git_ok (iw_db w') \<and> (\<forall>t. t \<noteq> ts_tenant src \<longrightarrow> git_view t (iw_db w') = git_view t (iw_db w))
    \<and> (case is_fresh now (cached (ts_tenant src) (ts_connection src) w) of
         None \<Rightarrow> r = Inl Naive_expiry \<and> w' = w
       | Some True \<Rightarrow> (\<exists>m. cached (ts_tenant src) (ts_connection src) w = Some m \<and> r = Inr (mt_token m)) \<and> w' = w
       | Some False \<Rightarrow> (case r of
           Inr tok \<Rightarrow> map_option mt_token (cached (ts_tenant src) (ts_connection src) w') = Some tok
             \<and> (case install_row (ts_tenant src) (ts_connection src) (iw_db w') of None \<Rightarrow> True | Some i \<Rightarrow> gi_status i = INSTALLED)
         | Inl e \<Rightarrow> (\<exists>reason. e = Mint_failed (ts_provider src) reason
             \<and> cached (ts_tenant src) (ts_connection src) w' = None
             \<and> install_row (ts_tenant src) (ts_connection src) (iw_db w') = map_option (\<lambda>i. i\<lparr>gi_status := INSTALL_DEGRADED,
                 gi_error := Some reason, gi_updated_at := now\<rparr>) (install_row (ts_tenant src) (ts_connection src) (iw_db w)))))"
proof -
  have view: "git_ok (iw_db w') \<and> (\<forall>t. t \<noteq> ts_tenant src \<longrightarrow> git_view t (iw_db w') = git_view t (iw_db w))"
    using source_token_ok [OF assms(2)] assms(1) by (simp add: step_ok_def)
  obtain m w1 where m: "mint env src now w = (m, w1)" by fastforce
  have row: "install_row (ts_tenant src) (ts_connection src) (iw_db w1) = install_row (ts_tenant src) (ts_connection src) (iw_db w)"
    using mint_frame [OF m] by (simp add: install_row_def)
  consider (naive) "is_fresh now (cached (ts_tenant src) (ts_connection src) w) = None"
    | (fresh) "is_fresh now (cached (ts_tenant src) (ts_connection src) w) = Some True"
    | (stale) "is_fresh now (cached (ts_tenant src) (ts_connection src) w) = Some False" by (metis (full_types) option.exhaust)
  then show ?thesis
  proof cases
    case naive then show ?thesis using view assms(2) by (simp add: source_token_def)
  next
    case fresh
    then have "cached (ts_tenant src) (ts_connection src) w \<noteq> None" by (auto simp: is_fresh_def split: option.splits)
    then show ?thesis using fresh view assms(2) by (auto simp: source_token_def)
  next
    case stale
    then have s: "settle_mint env src now (m, w1) = (r, w')" using assms(2) m by (simp add: source_token_def)
    show ?thesis
    proof (cases m)
      case (Inl e)
      show ?thesis using settle_failed [OF s [unfolded Inl]] stale view row by simp
    next
      case (Inr x)
      show ?thesis using settle_minted [OF s [unfolded Inr]] stale view by (simp split: option.splits)
    qed
  qed
qed

definition ex_source :: token_source where
  "ex_source = \<lparr>ts_tenant = ''acme'', ts_connection = 1, ts_provider = GITHUB, ts_installation_id = Some ''99'', ts_base_url = []\<rparr>"

definition ex_degraded :: install_world where
  "ex_degraded = \<lparr>iw_db = ex_git\<lparr>gd_installs := [\<lparr>gi_tenant = ''acme'', gi_connection = 1, gi_provider = GITHUB, gi_installation_id = Some ''99'',
     gi_account = None, gi_status = INSTALL_DEGRADED, gi_error = None, gi_created_at = 0, gi_updated_at = 0\<rparr>]\<rparr>, iw_tokens = [], iw_reads = []\<rparr>"

lemma ex_degraded_ok: "git_ok (iw_db ex_degraded)"
  by (simp add: ex_degraded_def git_ok_def owned_def ex_git_def ex_conn_def git_empty_def ex_repo_def keys_unique_def repo_key_def)

theorem mint_settles_witness:
  "map_option gi_status (install_row ''acme'' 1 (iw_db (snd (source_token (ex_install_env ex_answer) ex_source 5 ex_degraded)))) = Some INSTALLED
    \<and> map_option gi_status (install_row ''acme'' 1 (iw_db (snd (source_token (ex_install_env Wire_down) ex_source 5 ex_degraded)))) = Some INSTALL_DEGRADED
    \<and> git_ok (iw_db (snd (source_token (ex_install_env ex_answer) ex_source 5 ex_degraded)))"
proof -
  have "map_option gi_status (install_row ''acme'' 1 (iw_db (snd (source_token (ex_install_env ex_answer) ex_source 5 ex_degraded)))) = Some INSTALLED"
    "map_option gi_status (install_row ''acme'' 1 (iw_db (snd (source_token (ex_install_env Wire_down) ex_source 5 ex_degraded)))) = Some INSTALL_DEGRADED"
    by code_simp+
  then show ?thesis
    using mint_settles [OF ex_degraded_ok, of "ex_install_env ex_answer" ex_source 5, OF prod.collapse [symmetric]] by blast
qed

text \<open>Two calls for one connection with nothing between the read of the refresh token and its exchange:
  the first rotates it, so the provider refuses the second, which drops the token the first has just
  cached and degrades an install that works.  The rotated token is stored all the while.\<close>

lemma rotation_race_degrades:
  assumes "settle_mint env src now (exchange_stored env src base stored now w) = (Inr tok, w1)"
    and "truthy stored" "refresh_tokens env' (the stored) base now' = Inl (Token_refused code)"
    and "settle_mint env' src now' (exchange_stored env' src base stored now' w1) = (r, w2)"
  shows "isl r \<and> cached (ts_tenant src) (ts_connection src) w1 \<noteq> None \<and> cached (ts_tenant src) (ts_connection src) w2 = None
    \<and> gd_creds (iw_db w2) = gd_creds (iw_db w1)
    \<and> (case install_row (ts_tenant src) (ts_connection src) (iw_db w2) of None \<Rightarrow> True | Some i \<Rightarrow> gi_status i = INSTALL_DEGRADED)"
proof -
  obtain m w0 where x: "exchange_stored env src base stored now w = (m, w0)" by fastforce
  obtain n where m: "m = Inr n" using assms(1) x settle_failed(1) by (cases m) fastforce+
  have "cached (ts_tenant src) (ts_connection src) w1 = Some n" using settle_minted(2) assms(1) x m by metis
  moreover have "exchange_stored env' src base stored now' w1 = (Inl (Token_refused code), w1)"
    using assms(2,3) by (simp add: exchange_stored_def)
  ultimately show ?thesis using settle_failed [OF assms(4) [unfolded \<open>exchange_stored env' src base stored now' w1 = _\<close>]]
    by (auto split: option.splits)
qed

end
