(* ===== verification/GitOps.thy ===== *)
theory GitOps
  imports BoardSafety InstallSafety
begin

text \<open>
  The git configuration operations both surfaces call, \<open>git_config_ops.py\<close>, with the provider a
  target is turned into (\<open>build_provider\<close> of \<open>git_providers.py\<close>) and the single-configuration
  methods of the store they use.  The state is that of the installs with the audit log; what an
  operation wrote before it raised stays.  The read of a repository is an argument, from the provider
  to what it said; new ids and the state of an install are drawn outside.  An entry for the read of a
  credential that cannot be written is left out: the operation raises at its own entry then.
\<close>

section \<open>State and errors\<close>

record git_world =
  gw_inst :: install_world
  gw_log :: audit_log

definition gdb :: "git_world \<Rightarrow> git_db" where
  "gdb w = iw_db (gw_inst w)"

definition with_db :: "git_db \<Rightarrow> git_world \<Rightarrow> git_world" where
  "with_db s w = w\<lparr>gw_inst := (gw_inst w)\<lparr>iw_db := s\<rparr>\<rparr>"

datatype probe_error = Probe_status nat | Probe_other string

datatype git_failure =
    Config_refused git_error
  | Secret_refused store_error
  | Install_refused install_exc
  | Note_raised auth_error
  | Not_three_parts string
  | Unknown_provider string
  | Probe_failed probe_error

datatype provider_spec =
    GitHub_at string "string option" string
  | GitLab_at string "string option" "string option"
  | Azure_at string string string "string option" "string option"

record git_ops_env =
  go_env :: install_env
  go_info :: "provider_spec \<Rightarrow> probe_error + jobj"
  go_text :: "git_failure \<Rightarrow> string"

definition go_settings :: "git_ops_env \<Rightarrow> git_settings" where
  "go_settings env = install_env.ie_git (go_env env)"

definition go_keys :: "git_ops_env \<Rightarrow> string option" where
  "go_keys env = ie_keys (go_env env)"

type_synonym 'a git_m = "git_world \<Rightarrow> (git_failure + 'a) \<times> git_world"

definition git_bind :: "'a git_m \<Rightarrow> ('a \<Rightarrow> 'b git_m) \<Rightarrow> 'b git_m" where
  "git_bind m f w = (case m w of (Inl e, w') \<Rightarrow> (Inl e, w') | (Inr x, w') \<Rightarrow> f x w')"

definition git_read :: "(git_db \<Rightarrow> git_error + 'a) \<Rightarrow> 'a git_m" where
  "git_read f w = (case f (gdb w) of Inl e \<Rightarrow> (Inl (Config_refused e), w) | Inr x \<Rightarrow> (Inr x, w))"

definition git_write :: "(git_db \<Rightarrow> git_error + 'a \<times> git_db) \<Rightarrow> 'a git_m" where
  "git_write f w = (case f (gdb w) of Inl e \<Rightarrow> (Inl (Config_refused e), w) | Inr (x, s) \<Rightarrow> (Inr x, with_db s w))"

definition unit_write :: "(git_db \<Rightarrow> git_error + git_db) \<Rightarrow> unit git_m" where
  "unit_write f = git_write (\<lambda>s. res_bind (f s) (\<lambda>s'. Inr ((), s')))"

section \<open>Audit entries\<close>

definition git_note :: "audit_ctx \<Rightarrow> string \<Rightarrow> int \<Rightarrow> string \<Rightarrow> string \<Rightarrow> bool \<Rightarrow> unit git_m" where
  "git_note cx t now kind endpoint ok w = (case record_entry (cx_keys cx) (cx_sha cx) (cx_mac cx) now
        \<lparr>ae_id = 0, ae_ts = now, ae_actor = cx_actor cx, ae_kind = kind, ae_key = ''tenant:'' @ t, ae_service = ''git_provider'',
         ae_endpoint = endpoint, ae_status_code = (if ok then 200 else 0), ae_ok = ok, ae_prev_hash = None, ae_hash = []\<rparr> (gw_log w) of
       Inl e \<Rightarrow> (Inl (Note_raised e), w)
     | Inr l \<Rightarrow> (Inr (), w\<lparr>gw_log := l\<rparr>))"

definition git_record :: "audit_ctx \<Rightarrow> string \<Rightarrow> int \<Rightarrow> string \<Rightarrow> bool \<Rightarrow> string \<Rightarrow> unit git_m" where
  "git_record cx t now kind ok resource = git_note cx t now kind (cx_endpoint cx @ ''/'' @ t @ ''/'' @ resource) ok"

fun note_git_reads :: "audit_ctx \<Rightarrow> string \<Rightarrow> int \<Rightarrow> bool list \<Rightarrow> git_world \<Rightarrow> git_world" where
  "note_git_reads cx t now [] w = w"
| "note_git_reads cx t now (ok # oks) w = note_git_reads cx t now oks
     (snd (git_note cx t now ''read_git_credential'' (''/api/tenants/'' @ t @ ''/git-credential'') ok w))"

section \<open>The provider of a target\<close>

text \<open>The connection whose credential a target without one carries: the default repository's, else the
  oldest of the tenant.\<close>

definition credential_connection :: "string \<Rightarrow> git_db \<Rightarrow> nat option" where
  "credential_connection t s = (case default_repository t s of
     Some (c, _) \<Rightarrow> Some (gc_id c)
   | None \<Rightarrow> (case connections t s of [] \<Rightarrow> None | c # _ \<Rightarrow> Some (gc_id c)))"

text \<open>The token of a target; reading it may mint, rotate and degrade.\<close>

definition target_token :: "git_ops_env \<Rightarrow> string \<Rightarrow> git_target \<Rightarrow> int \<Rightarrow> install_world \<Rightarrow> (install_exc + string option) \<times> install_world" where
  "target_token env t target now w =
    (case (case gt_connection_id target of Some c \<Rightarrow> Some c | None \<Rightarrow> credential_connection t (iw_db w)) of
       Some c \<Rightarrow> connection_token (go_env env) t c now w
     | None \<Rightarrow> (Inr (case provider_token (go_settings env) of Some v \<Rightarrow> if v = [] then None else Some v | None \<Rightarrow> None), w))"

definition spec_of :: "string \<Rightarrow> string \<Rightarrow> string option \<Rightarrow> string \<Rightarrow> git_failure + provider_spec" where
  "spec_of provider project token base =
    (let kind = provider_kind provider; url = (if base = [] then None else Some base) in
     if kind = GITHUB then Inr (GitHub_at project token (if base = [] then default_base_url GITHUB else base))
     else if kind = GITLAB then Inr (GitLab_at project token url)
     else if kind = AZURE_DEVOPS
     then (case split_on (\<lambda>c. c = CHR ''/'') project of
        [org, proj, repo] \<Rightarrow> Inr (Azure_at org proj repo token url)
      | _ \<Rightarrow> Inl (Not_three_parts project))
     else Inl (Unknown_provider kind))"

text \<open>The token comes before the check of the host.\<close>

definition build_provider :: "git_ops_env \<Rightarrow> audit_ctx \<Rightarrow> string \<Rightarrow> git_target \<Rightarrow> string \<Rightarrow> int \<Rightarrow> provider_spec git_m" where
  "build_provider env cx t target project now w =
    (case target_token env t target now (gw_inst w) of (r, i) \<Rightarrow>
      let new = drop (length (iw_reads (gw_inst w))) (iw_reads i);
          w1 = note_git_reads cx t now new (w\<lparr>gw_inst := i\<rparr>)
      in case r of
           Inl e \<Rightarrow> (Inl (Install_refused e), w1)
         | Inr token \<Rightarrow>
            (case safe_git_base_url (ie_resolve (go_env env)) (ie_hidden (go_env env)) (gt_base_url target) of
               Inl e \<Rightarrow> (Inl (Install_refused (Url_refused e)), w1)
             | Inr base \<Rightarrow> (spec_of (gt_provider target) project token base, w1)))"

section \<open>The single configuration\<close>

definition get_git_config :: "git_ops_env \<Rightarrow> string \<Rightarrow> git_db \<Rightarrow> git_error + git_config" where
  "get_git_config env t s = res_bind (git_target_for t (go_settings env) (go_keys env) None None s) (\<lambda>g. Inr (config_view g))"

definition op_set_config :: "git_ops_env \<Rightarrow> audit_ctx \<Rightarrow> string \<Rightarrow> nat \<Rightarrow> nat \<Rightarrow> int \<Rightarrow> config_update \<Rightarrow> git_config git_m" where
  "op_set_config env cx t i j now u = git_bind (unit_write (set_git_config t i j now u)) (\<lambda>_.
     git_bind (git_record cx t now ''set_git_config'' True ''git-config'') (\<lambda>_. git_read (get_git_config env t)))"

text \<open>\<open>record_git_verification\<close>: a tenant without a connection is first given what the seed would.\<close>

definition record_git_verification ::
  "string \<Rightarrow> nat \<Rightarrow> nat \<Rightarrow> int \<Rightarrow> git_settings \<Rightarrow> string option \<Rightarrow> bool option \<Rightarrow> git_db \<Rightarrow> git_error + git_db" where
  "record_git_verification t i j now st err rejected s =
    (let env = target_from_settings st t None in
     res_bind (if connections t s \<noteq> [] then Inr s
       else set_git_config t i j now \<lparr>cu_provider = gt_provider env, cu_base_url = Some (gt_base_url env), cu_project = gt_project env,
         cu_intake_project = None, cu_aifactory_project_id = gt_aifactory_project_id env, cu_default_labels = []\<rparr> s) (\<lambda>s1.
     res_bind (default_connection t i now st s1) (\<lambda>(c, s2). record_connection_verification t (gc_id c) now err rejected s2)))"

definition record_verification ::
  "git_ops_env \<Rightarrow> string \<Rightarrow> nat \<Rightarrow> nat \<Rightarrow> git_target \<Rightarrow> int \<Rightarrow> string option \<Rightarrow> bool option \<Rightarrow> git_db \<Rightarrow> git_error + git_db" where
  "record_verification env t i j target now err rejected s = (case gt_connection_id target of
     None \<Rightarrow> record_git_verification t i j now (go_settings env) err rejected s
   | Some c \<Rightarrow> record_connection_verification t c now err rejected s)"

datatype verify_reason = No_project_configured | No_credential_configured | No_repositories_yet | Host_reason string

record verify_outcome =
  vo_ok :: bool
  vo_reason :: "verify_reason option"
  vo_repository :: json
  vo_status :: "git_status option"

definition is_credential_rejection :: "git_failure \<Rightarrow> bool" where
  "is_credential_rejection e = (case e of Probe_failed (Probe_status c) \<Rightarrow> c = 401 \<or> c = 403 | _ \<Rightarrow> False)"

definition info_name :: "jobj \<Rightarrow> json" where
  "info_name info = (let f = (\<lambda>k. case dget info k of None \<Rightarrow> JNull | Some v \<Rightarrow> v);
       a = f ''full_name''; b = f ''path_with_namespace''
     in if jtruthy a then a else if jtruthy b then b else f ''name'')"

text \<open>The one read, with what can go wrong in it.\<close>

definition reach :: "git_ops_env \<Rightarrow> audit_ctx \<Rightarrow> string \<Rightarrow> git_target \<Rightarrow> string \<Rightarrow> int \<Rightarrow> jobj git_m" where
  "reach env cx t target project now = git_bind (build_provider env cx t target project now) (\<lambda>spec w.
     (case go_info env spec of Inl e \<Rightarrow> (Inl (Probe_failed e), w) | Inr info \<Rightarrow> (Inr info, w)))"

definition verify_target ::
  "git_ops_env \<Rightarrow> audit_ctx \<Rightarrow> string \<Rightarrow> nat \<Rightarrow> nat \<Rightarrow> git_target \<Rightarrow> int \<Rightarrow> verify_outcome git_m" where
  "verify_target env cx t i j target now w = (case gt_project target of
     None \<Rightarrow> (Inr \<lparr>vo_ok = False, vo_reason = Some No_project_configured, vo_repository = JNull, vo_status = Some UNCONFIGURED\<rparr>, w)
   | Some project \<Rightarrow>
      if \<not> (ci_configured (gt_credential target) \<or> ci_source (gt_credential target) = SrcInstall)
      then (Inr \<lparr>vo_ok = False, vo_reason = Some No_credential_configured,
              vo_repository = JNull, vo_status = Some CREDENTIAL_MISSING\<rparr>, w)
      else (case reach env cx t target project now w of
         (Inl e, w1) \<Rightarrow> (let reason = take 512 (go_text env e) in
            git_bind (unit_write (record_verification env t i j target now (Some reason) (Some (is_credential_rejection e)))) (\<lambda>_.
              git_bind (git_record cx t now ''verify_git_config'' False ''git-config'') (\<lambda>_ w2.
                (Inr \<lparr>vo_ok = False, vo_reason = Some (Host_reason reason), vo_repository = JNull, vo_status = None\<rparr>, w2))) w1)
       | (Inr info, w1) \<Rightarrow>
            git_bind (unit_write (record_verification env t i j target now None None)) (\<lambda>_.
              git_bind (git_record cx t now ''verify_git_config'' True ''git-config'') (\<lambda>_ w2.
                (Inr \<lparr>vo_ok = True, vo_reason = None, vo_repository = info_name info, vo_status = None\<rparr>, w2))) w1))"

definition op_verify_config ::
  "git_ops_env \<Rightarrow> audit_ctx \<Rightarrow> string \<Rightarrow> nat \<Rightarrow> nat \<Rightarrow> int \<Rightarrow> (verify_outcome \<times> git_config) git_m" where
  "op_verify_config env cx t i j now = git_bind (git_read (git_target_for t (go_settings env) (go_keys env) None None)) (\<lambda>target.
     git_bind (verify_target env cx t i j target now) (\<lambda>out.
       git_bind (git_read (get_git_config env t)) (\<lambda>c w. (Inr (out, c), w))))"

text \<open>The connection a credential needs is made in a transaction of its own.\<close>

definition op_set_tenant_credential :: "git_ops_env \<Rightarrow> audit_ctx \<Rightarrow> string \<Rightarrow> nat \<Rightarrow> int \<Rightarrow> string \<Rightarrow> cred_info git_m" where
  "op_set_tenant_credential env cx t i now secret = git_bind (git_write (default_connection t i now (go_settings env))) (\<lambda>c.
     git_bind (\<lambda>w. case set_connection_credential (ie_enc (go_env env)) (ie_random (go_env env)) (go_keys env) t (gc_id c) (Some secret) now (gdb w) of
         Inl e \<Rightarrow> (Inl (Secret_refused e), w) | Inr (info, s) \<Rightarrow> (Inr info, with_db s w)) (\<lambda>info.
       git_bind (git_record cx t now ''set_git_credential'' True ''git-credential'') (\<lambda>_ w. (Inr info, w))))"

definition clear_git_credential :: "string \<Rightarrow> git_db \<Rightarrow> git_error + bool \<times> git_db" where
  "clear_git_credential t s = (case credential_connection t s of None \<Rightarrow> Inr (False, s) | Some c \<Rightarrow> clear_connection_credential t c s)"

definition op_clear_tenant_credential :: "git_ops_env \<Rightarrow> audit_ctx \<Rightarrow> string \<Rightarrow> int \<Rightarrow> (bool \<times> cred_info) git_m" where
  "op_clear_tenant_credential env cx t now = git_bind (git_write (clear_git_credential t)) (\<lambda>removed.
     git_bind (git_record cx t now ''delete_git_credential'' True ''git-credential'') (\<lambda>_ w.
       (Inr (removed, tenant_credential t (go_settings env) (go_keys env) (gdb w)), w)))"

section \<open>Connections\<close>

definition connection_payload :: "git_ops_env \<Rightarrow> string \<Rightarrow> git_conn \<Rightarrow> git_db \<Rightarrow> conn_view" where
  "connection_payload env t c s = connection_view c (repositories t (Some (gc_id c)) s)
     (connection_credential t (gc_id c) (go_settings env) (go_keys env) s) (install_row t (gc_id c) s)"

definition default_repository_id :: "string \<Rightarrow> git_db \<Rightarrow> nat option" where
  "default_repository_id t s = map_option (\<lambda>(_, r). gr_id r) (default_repository t s)"

definition list_git_connections :: "git_ops_env \<Rightarrow> string \<Rightarrow> git_db \<Rightarrow> conn_view list \<times> nat option \<times> (string, bool) dict" where
  "list_git_connections env t s = (map (\<lambda>c. connection_payload env t c s) (connections t s), default_repository_id t s,
     install_available (ie_settings (go_env env)))"

definition op_create_connection :: "git_ops_env \<Rightarrow> audit_ctx \<Rightarrow> string \<Rightarrow> nat \<Rightarrow> int \<Rightarrow> conn_create \<Rightarrow> conn_view git_m" where
  "op_create_connection env cx t i now body = git_bind (git_write (create_connection t i now body)) (\<lambda>c.
     git_bind (git_record cx t now ''create_git_connection'' True ''git-connection'') (\<lambda>_ w. (Inr (connection_payload env t c (gdb w)), w)))"

definition op_update_connection :: "git_ops_env \<Rightarrow> audit_ctx \<Rightarrow> string \<Rightarrow> nat \<Rightarrow> int \<Rightarrow> conn_update \<Rightarrow> conn_view git_m" where
  "op_update_connection env cx t cid now body = git_bind (git_write (update_connection t cid now body)) (\<lambda>c.
     git_bind (git_record cx t now ''update_git_connection'' True ''git-connection'') (\<lambda>_ w. (Inr (connection_payload env t c (gdb w)), w)))"

definition op_delete_connection :: "audit_ctx \<Rightarrow> string \<Rightarrow> nat \<Rightarrow> int \<Rightarrow> nat option git_m" where
  "op_delete_connection cx t cid now = git_bind (unit_write (delete_connection t cid now)) (\<lambda>_.
     git_bind (git_record cx t now ''delete_git_connection'' True ''git-connection'') (\<lambda>_ w. (Inr (default_repository_id t (gdb w)), w)))"

record verify_connection_result =
  vc_ok :: bool
  vc_reason :: "verify_reason option"
  vc_repository :: json
  vc_project :: "string option"
  vc_status :: "git_status option"
  vc_connection :: conn_view

definition op_verify_connection ::
  "git_ops_env \<Rightarrow> audit_ctx \<Rightarrow> string \<Rightarrow> nat \<Rightarrow> nat \<Rightarrow> nat \<Rightarrow> int \<Rightarrow> verify_connection_result git_m" where
  "op_verify_connection env cx t i j cid now = git_bind (git_read (connection t cid)) (\<lambda>c w.
     (case repositories t (Some cid) (gdb w) of
        [] \<Rightarrow> (Inr \<lparr>vc_ok = False, vc_reason = Some No_repositories_yet, vc_repository = JNull, vc_project = None,
            vc_status = Some UNCONFIGURED, vc_connection = connection_payload env t c (gdb w)\<rparr>, w)
      | r # rs \<Rightarrow> (let chosen = (case List.find is_default (r # rs) of Some d \<Rightarrow> d | None \<Rightarrow> r) in
          git_bind (git_read (git_target_for t (go_settings env) (go_keys env) (Some (gr_id chosen)) None)) (\<lambda>target.
            git_bind (verify_target env cx t i j target now) (\<lambda>out.
              git_bind (git_read (connection t cid)) (\<lambda>c' w'.
                (Inr \<lparr>vc_ok = vo_ok out, vc_reason = vo_reason out, vc_repository = vo_repository out, vc_project = Some (gr_project chosen),
                   vc_status = vo_status out, vc_connection = connection_payload env t c' (gdb w')\<rparr>, w')))) w)))"

definition op_set_credential :: "git_ops_env \<Rightarrow> audit_ctx \<Rightarrow> string \<Rightarrow> nat \<Rightarrow> int \<Rightarrow> string \<Rightarrow> cred_info git_m" where
  "op_set_credential env cx t cid now secret =
     git_bind (\<lambda>w. case set_connection_credential (ie_enc (go_env env)) (ie_random (go_env env)) (go_keys env) t cid (Some secret) now (gdb w) of
         Inl e \<Rightarrow> (Inl (Secret_refused e), w) | Inr (info, s) \<Rightarrow> (Inr info, with_db s w)) (\<lambda>info.
       git_bind (git_record cx t now ''set_git_credential'' True ''git-credential'') (\<lambda>_ w. (Inr info, w)))"

definition op_clear_credential :: "git_ops_env \<Rightarrow> audit_ctx \<Rightarrow> string \<Rightarrow> nat \<Rightarrow> int \<Rightarrow> (bool \<times> cred_info) git_m" where
  "op_clear_credential env cx t cid now = git_bind (git_write (clear_connection_credential t cid)) (\<lambda>removed.
     git_bind (git_record cx t now ''delete_git_credential'' True ''git-credential'') (\<lambda>_ w.
       (Inr (removed, connection_credential t cid (go_settings env) (go_keys env) (gdb w)), w)))"

section \<open>Installs\<close>

text \<open>The entry is written before the link is made, so a start whose link cannot be made has one too.\<close>

definition op_start_install :: "git_ops_env \<Rightarrow> audit_ctx \<Rightarrow> string \<Rightarrow> nat \<Rightarrow> string \<Rightarrow> int \<Rightarrow> install_link git_m" where
  "op_start_install env cx t cid token now =
     git_bind (\<lambda>w. case begin_install (go_env env) t cid token now (gdb w) of
         (Inl e, s) \<Rightarrow> (Inl (Install_refused e), with_db s w) | (Inr x, s) \<Rightarrow> (Inr x, with_db s w)) (\<lambda>(c, provider, redirect).
       git_bind (git_record cx t now ''start_git_install'' True ''git-install'') (\<lambda>_ w.
         (case install_link_of (go_env env) c provider redirect token of Inl e \<Rightarrow> (Inl (Install_refused e), w) | Inr l \<Rightarrow> (Inr l, w))))"

definition op_delete_install :: "git_ops_env \<Rightarrow> audit_ctx \<Rightarrow> string \<Rightarrow> nat \<Rightarrow> int \<Rightarrow> (bool \<times> conn_view) git_m" where
  "op_delete_install env cx t cid now = git_bind (git_write (delete_install t cid)) (\<lambda>removed.
     git_bind (git_record cx t now ''delete_git_install'' True ''git-install'') (\<lambda>_.
       git_bind (git_read (connection t cid)) (\<lambda>c w. (Inr (removed, connection_payload env t c (gdb w)), w))))"

section \<open>Repositories\<close>

definition list_git_repositories :: "string \<Rightarrow> nat option \<Rightarrow> git_db \<Rightarrow> repo_view list \<times> nat option" where
  "list_git_repositories t cid s = (map repository_view (repositories t cid s), default_repository_id t s)"

definition op_create_repository :: "audit_ctx \<Rightarrow> string \<Rightarrow> nat \<Rightarrow> int \<Rightarrow> nat \<Rightarrow> repo_create \<Rightarrow> repo_view git_m" where
  "op_create_repository cx t i now cid body = git_bind (git_write (create_repository t i now cid body)) (\<lambda>r.
     git_bind (git_record cx t now ''create_git_repository'' True ''git-repository'') (\<lambda>_ w. (Inr (repository_view r), w)))"

definition op_update_repository :: "audit_ctx \<Rightarrow> string \<Rightarrow> nat \<Rightarrow> int \<Rightarrow> repo_update \<Rightarrow> repo_view git_m" where
  "op_update_repository cx t rid now body = git_bind (git_write (update_repository t rid now body)) (\<lambda>r.
     git_bind (git_record cx t now ''update_git_repository'' True ''git-repository'') (\<lambda>_ w. (Inr (repository_view r), w)))"

definition op_delete_repository :: "audit_ctx \<Rightarrow> string \<Rightarrow> nat \<Rightarrow> int \<Rightarrow> nat option git_m" where
  "op_delete_repository cx t rid now = git_bind (unit_write (delete_repository t rid now)) (\<lambda>_.
     git_bind (git_record cx t now ''delete_git_repository'' True ''git-repository'') (\<lambda>_ w. (Inr (default_repository_id t (gdb w)), w)))"

definition op_set_default_repository :: "audit_ctx \<Rightarrow> string \<Rightarrow> nat \<Rightarrow> int \<Rightarrow> repo_view git_m" where
  "op_set_default_repository cx t rid now = git_bind (git_write (set_default_repository t rid now)) (\<lambda>r.
     git_bind (git_record cx t now ''set_default_git_repository'' True ''git-repository'') (\<lambda>_ w. (Inr (repository_view r), w)))"

end
