(* ===== verification/GitOpsSafety.thy ===== *)
theory GitOpsSafety
  imports GitOps
begin

text \<open>
  What a git configuration operation leaves behind: the tenant's own rows, an entry in a chain that
  still verifies, the outcome of a verify on the connection that was asked, and where the
  credential of a connection can end up.
\<close>

section \<open>Steps\<close>

lemma gdb_simps [simp]: "gdb (with_db s w) = s" "gw_log (with_db s w) = gw_log w" "gdb (w\<lparr>gw_log := l\<rparr>) = gdb w"
  "gdb (w\<lparr>gw_inst := i\<rparr>) = iw_db i"
  by (simp_all add: gdb_def with_db_def)

text \<open>The entries that were appended, each of the context's actor and the tenant, and the chain.\<close>

definition log_grows :: "audit_ctx \<Rightarrow> string \<Rightarrow> audit_log \<Rightarrow> audit_log \<Rightarrow> audit_entry list \<Rightarrow> bool" where
  "log_grows cx t l l' new = (al_rows l' = al_rows l @ new
     \<and> (\<forall>e\<in>set new. redact_actor (cx_keys cx) (cx_sha cx) (cx_actor cx) = Inr (ae_actor e) \<and> ae_key e = ''tenant:'' @ t)
     \<and> (hex_mac (cx_mac cx) \<and> inj_on (cx_mac cx) (log_messages l') \<and> log_sound cx l \<longrightarrow> log_sound cx l'))"

lemma log_grows_refl [simp]: "log_grows cx t l l []"
  by (simp add: log_grows_def)

lemma log_grows_trans: "log_grows cx t l l1 xs \<Longrightarrow> log_grows cx t l1 l2 ys \<Longrightarrow> log_grows cx t l l2 (xs @ ys)"
proof -
  assume a: "log_grows cx t l l1 xs" "log_grows cx t l1 l2 ys"
  then have "log_messages l1 \<subseteq> log_messages l2" by (auto simp: log_grows_def log_messages_def)
  then show ?thesis using a inj_on_subset [of "cx_mac cx"] by (auto simp: log_grows_def)
qed

lemma git_note_cases:
  obtains (noted) e l where "git_note cx t now kind ep ok w = (Inr (), w\<lparr>gw_log := l\<rparr>)" "log_grows cx t (gw_log w) l [e]"
      "says e kind (''tenant:'' @ t) ok"
  | (lost) a where "git_note cx t now kind ep ok w = (Inl (Note_raised a), w)"
proof -
  fix c :: card_store
  let ?b = "\<lparr>bd_cards = c, bd_audit = gw_log w\<rparr>"
  let ?n = "audit_note cx now kind (''tenant:'' @ t) ''git_provider'' ep (if ok then 200 else 0) ok ?b"
  have same: "git_note cx t now kind ep ok w = (case ?n of (Inl (Audit_raised a), _) \<Rightarrow> (Inl (Note_raised a), w) | (_, b) \<Rightarrow> (Inr (), w\<lparr>gw_log := bd_audit b\<rparr>))"
    by (simp add: git_note_def audit_note_def split: sum.splits)
  show thesis
  proof (rule audit_note_cases [of cx now kind "''tenant:'' @ t" "''git_provider''" ep "if ok then 200 else 0" ok ?b])
    fix e
    assume n: "?n = (Inr (), ?b\<lparr>bd_audit := bd_audit (snd ?n)\<rparr>)" and ch: "chained cx ?b (snd ?n) [e]" and sy: "says e kind (''tenant:'' @ t) ok"
    have "git_note cx t now kind ep ok w = (Inr (), w\<lparr>gw_log := bd_audit (snd ?n)\<rparr>)" by (subst same, subst n) simp
    moreover have "log_grows cx t (gw_log w) (bd_audit (snd ?n)) [e]" using ch sy by (simp add: chained_def log_grows_def says_def)
    ultimately show thesis using sy noted by blast
  next
    fix a
    assume "?n = (Inl (Audit_raised a), ?b)"
    then have "git_note cx t now kind ep ok w = (Inl (Note_raised a), w)" using same by simp
    then show thesis by (rule lost)
  qed
qed

text \<open>A computation that keeps to its tenant and only appends to the log; one that, besides, writes
  all or nothing.\<close>

definition git_step :: "audit_ctx \<Rightarrow> string \<Rightarrow> git_world \<Rightarrow> git_world \<Rightarrow> audit_entry list \<Rightarrow> bool" where
  "git_step cx t w w' new = (step_ok t (gdb w) (gdb w') \<and> log_grows cx t (gw_log w) (gw_log w') new)"

definition stays :: "audit_ctx \<Rightarrow> string \<Rightarrow> 'a git_m \<Rightarrow> bool" where
  "stays cx t m \<longleftrightarrow> (\<forall>w r w'. m w = (r, w') \<longrightarrow> (\<exists>new. git_step cx t w w' new))"

lemma staysD: "stays cx t m \<Longrightarrow> m w = (r, w') \<Longrightarrow> (\<And>new. git_step cx t w w' new \<Longrightarrow> P) \<Longrightarrow> P"
  by (auto simp: stays_def)

definition atomic :: "string \<Rightarrow> 'a git_m \<Rightarrow> bool" where
  "atomic t m \<longleftrightarrow> (\<forall>w r w'. m w = (r, w') \<longrightarrow> step_ok t (gdb w) (gdb w') \<and> gw_log w' = gw_log w \<and> (isl r \<longrightarrow> gdb w' = gdb w))"

lemma git_step_refl [simp]: "git_step cx t w w []"
  by (simp add: git_step_def)

lemma git_step_trans: "git_step cx t w w1 xs \<Longrightarrow> git_step cx t w1 w2 ys \<Longrightarrow> git_step cx t w w2 (xs @ ys)"
  by (auto simp: git_step_def intro: step_ok_trans log_grows_trans)

lemma stays_bind [intro]: "stays cx t m \<Longrightarrow> (\<And>x. stays cx t (f x)) \<Longrightarrow> stays cx t (git_bind m f)"
  unfolding stays_def git_bind_def by (fastforce split: prod.splits sum.splits intro: git_step_trans)

lemma stays_return [simp, intro]: "stays cx t (\<lambda>w. (f w, w))"
  by (auto simp: stays_def intro: exI [of _ "[]"])

lemma stays_read [simp, intro]: "stays cx t (git_read f)"
  by (auto simp: stays_def git_read_def split: sum.splits intro: exI [of _ "[]"])

lemma stays_note [simp, intro]: "stays cx t (git_note cx t now kind ep ok)"
proof -
  have "\<exists>new. git_step cx t w w' new" if "git_note cx t now kind ep ok w = (r, w')" for w r w'
    by (rule git_note_cases [of cx t now kind ep ok w]) (use that in \<open>auto simp: git_step_def intro: log_grows_refl\<close>)
  then show ?thesis by (auto simp: stays_def)
qed

lemma stays_record [simp, intro]: "stays cx t (git_record cx t now kind ok res)"
  by (simp add: git_record_def)

lemma atomic_stays: "atomic t m \<Longrightarrow> stays cx t m"
  by (fastforce simp: atomic_def stays_def git_step_def intro: exI [of _ "[]"])

lemma atomic_write: "(\<And>s x s'. f s = Inr (x, s') \<Longrightarrow> step_ok t s s') \<Longrightarrow> atomic t (git_write f)"
  by (auto simp: atomic_def git_write_def split: sum.splits)

lemma atomic_unit_write: "(\<And>s s'. f s = Inr s' \<Longrightarrow> step_ok t s s') \<Longrightarrow> atomic t (unit_write f)"
  unfolding unit_write_def by (rule atomic_write) (auto simp: res_bind_Inr_iff)

text \<open>The shape of an audited operation: one write, its entry, and what follows.\<close>

definition audited :: "audit_ctx \<Rightarrow> string \<Rightarrow> 'a git_m \<Rightarrow> bool" where
  "audited cx t m \<longleftrightarrow> (\<forall>w r w'. m w = (r, w') \<longrightarrow> (\<exists>new. git_step cx t w w' new
     \<and> (gdb w' = gdb w \<or> new \<noteq> [] \<or> (\<exists>a. r = Inl (Note_raised a)))))"

lemma audited_op:
  assumes "atomic t m" "\<And>x. stays cx t (k x)"
  shows "audited cx t (git_bind m (\<lambda>x. git_bind (git_record cx t now kind ok res) (\<lambda>_. k x)))"
  unfolding audited_def
proof (intro allI impI)
  fix w r w'
  assume run: "git_bind m (\<lambda>x. git_bind (git_record cx t now kind ok res) (\<lambda>_. k x)) w = (r, w')"
  obtain r0 w0 where m: "m w = (r0, w0)" by fastforce
  have s0: "git_step cx t w w0 []" "isl r0 \<longrightarrow> gdb w0 = gdb w" using assms(1) m by (auto simp: atomic_def git_step_def)
  show "\<exists>new. git_step cx t w w' new \<and> (gdb w' = gdb w \<or> new \<noteq> [] \<or> (\<exists>a. r = Inl (Note_raised a)))"
  proof (cases r0)
    case (Inl e)
    then show ?thesis using run m s0 by (auto simp: git_bind_def)
  next
    case (Inr x)
    show ?thesis
    proof (rule git_note_cases [of cx t now kind "cx_endpoint cx @ ''/'' @ t @ ''/'' @ res" ok w0])
      fix e l
      assume n: "git_note cx t now kind (cx_endpoint cx @ ''/'' @ t @ ''/'' @ res) ok w0 = (Inr (), w0\<lparr>gw_log := l\<rparr>)" "log_grows cx t (gw_log w0) l [e]"
      then have "k x (w0\<lparr>gw_log := l\<rparr>) = (r, w')" using run m Inr by (simp add: git_bind_def git_record_def)
      then obtain new where "git_step cx t (w0\<lparr>gw_log := l\<rparr>) w' new" using assms(2) [of x] unfolding stays_def by blast
      moreover have "git_step cx t w0 (w0\<lparr>gw_log := l\<rparr>) [e]" using n(2) by (simp add: git_step_def)
      ultimately have "git_step cx t w w' ([] @ [e] @ new)" using s0(1) git_step_trans by blast
      then show ?thesis by (intro exI [of _ "[e] @ new"]) simp
    next
      fix a
      assume "git_note cx t now kind (cx_endpoint cx @ ''/'' @ t @ ''/'' @ res) ok w0 = (Inl (Note_raised a), w0)"
      then show ?thesis using run m Inr s0(1) by (auto simp: git_bind_def git_record_def)
    qed
  qed
qed

section \<open>The operations\<close>

lemma note_git_reads_step: "\<exists>new. git_step cx t w (note_git_reads cx t now oks w) new"
proof (induction oks arbitrary: w)
  case Nil
  then show ?case by (auto intro: exI [of _ "[]"])
next
  case (Cons ok oks)
  let ?w1 = "snd (git_note cx t now ''read_git_credential'' (''/api/tenants/'' @ t @ ''/git-credential'') ok w)"
  obtain xs where "git_step cx t w ?w1 xs" by (rule staysD [OF stays_note prod.collapse [symmetric]])
  moreover obtain ys where "git_step cx t ?w1 (note_git_reads cx t now oks ?w1) ys" using Cons.IH by blast
  ultimately have "git_step cx t w (note_git_reads cx t now oks ?w1) (xs @ ys)" by (rule git_step_trans)
  then show ?case by auto
qed

lemma connection_token_ok: "connection_token env t cid now w = (r, w') \<Longrightarrow> step_ok t (iw_db w) (iw_db w')"
  by (auto simp: connection_token_def install_source_def split: option.splits if_splits prod.splits sum.splits
      dest!: source_token_ok read_secret_ok)

lemma target_token_ok: "target_token env t target now w = (r, w') \<Longrightarrow> step_ok t (iw_db w) (iw_db w')"
  by (auto simp: target_token_def split: option.splits dest: connection_token_ok)

lemma build_provider_stays [intro]: "stays cx t (build_provider env cx t target project now)"
  unfolding stays_def
proof (intro allI impI)
  fix w r w'
  assume run: "build_provider env cx t target project now w = (r, w')"
  obtain v i where tok: "target_token env t target now (gw_inst w) = (v, i)" by fastforce
  let ?w1 = "note_git_reads cx t now (drop (length (iw_reads (gw_inst w))) (iw_reads i)) (w\<lparr>gw_inst := i\<rparr>)"
  have "git_step cx t w (w\<lparr>gw_inst := i\<rparr>) []" using target_token_ok [OF tok] by (simp add: git_step_def gdb_def)
  then obtain new where "git_step cx t w ?w1 new" using note_git_reads_step git_step_trans by blast
  moreover have "w' = ?w1" using run tok by (auto simp: build_provider_def Let_def split: sum.splits)
  ultimately show "\<exists>new. git_step cx t w w' new" by blast
qed

lemma reach_stays [intro]: "stays cx t (reach env cx t target project now)"
proof -
  have "stays cx t (\<lambda>w. case go_info env spec of Inl e \<Rightarrow> (Inl (Probe_failed e), w) | Inr info \<Rightarrow> (Inr info, w))" for spec
    by (cases "go_info env spec") simp_all
  then show ?thesis unfolding reach_def by blast
qed

lemma default_connection_ok: "default_connection t i now st s = Inr (c, s') \<Longrightarrow> step_ok t s s'"
  by (auto simp: default_connection_def Let_def split: option.splits list.splits dest: connection_for_ok)

lemma record_git_verification_ok: "record_git_verification t i j now st err rej s = Inr s' \<Longrightarrow> step_ok t s s'"
  by (auto simp: record_git_verification_def Let_def res_bind_Inr_iff split: if_splits
      dest!: set_git_config_ok default_connection_ok record_connection_verification_ok intro: step_ok_trans)

lemma record_verification_ok: "record_verification env t i j target now err rej s = Inr s' \<Longrightarrow> step_ok t s s'"
  by (auto simp: record_verification_def split: option.splits dest: record_git_verification_ok record_connection_verification_ok)

lemma verify_recorded_stays [intro]: "(\<And>x. stays cx t (k x)) \<Longrightarrow> stays cx t (git_bind (unit_write (record_verification env t i j target now err rej)) k)"
  by (rule stays_bind) (auto intro: atomic_stays atomic_unit_write record_verification_ok)

lemma verify_target_stays [intro]: "stays cx t (verify_target env cx t i j target now)"
  unfolding stays_def
proof (intro allI impI)
  fix w r w'
  assume run: "verify_target env cx t i j target now w = (r, w')"
  show "\<exists>new. git_step cx t w w' new"
  proof (cases "gt_project target = None \<or> \<not> (ci_configured (gt_credential target) \<or> ci_source (gt_credential target) = SrcInstall)")
    case True
    then have "w' = w" using run by (auto simp: verify_target_def split: option.splits if_splits)
    then show ?thesis by (auto intro: exI [of _ "[]"])
  next
    case False
    then obtain project where p: "gt_project target = Some project" by auto
    obtain v w1 where v: "reach env cx t target project now w = (v, w1)" by fastforce
    let ?k = "\<lambda>err rej ok out. git_bind (unit_write (record_verification env t i j target now err rej)) (\<lambda>_.
        git_bind (git_record cx t now ''verify_git_config'' ok ''git-config'') (\<lambda>_ w2. (Inr out, w2)))"
    have k: "stays cx t (?k err rej ok out)" for err rej ok out by (intro verify_recorded_stays stays_bind stays_record stays_return)
    obtain err rej ok out where run_k: "?k err rej ok out w1 = (r, w')"
      using run False p v by (cases v) (auto simp: verify_target_def Let_def)
    obtain ys where "git_step cx t w1 w' ys" by (rule staysD [OF k run_k])
    moreover obtain xs where "git_step cx t w w1 xs" by (rule staysD [OF reach_stays v])
    ultimately show ?thesis using git_step_trans by blast
  qed
qed

lemma atomic_credential: "atomic t (\<lambda>w. case set_connection_credential enc rnd spec t cid v now (gdb w) of
    Inl e \<Rightarrow> (Inl (Secret_refused e), w) | Inr (info, s) \<Rightarrow> (Inr info, with_db s w))"
  by (auto simp: atomic_def split: sum.splits dest: set_connection_credential_ok)

lemma atomic_begin: "atomic t (\<lambda>w. case begin_install env t cid token now (gdb w) of
    (Inl e, s) \<Rightarrow> (Inl (Install_refused e), with_db s w) | (Inr x, s) \<Rightarrow> (Inr x, with_db s w))"
  by (auto simp: atomic_def begin_install_def Let_def split: sum.splits if_splits dest: start_install_ok)

lemma clear_git_credential_ok: "clear_git_credential t s = Inr (b, s') \<Longrightarrow> step_ok t s s'"
  by (auto simp: clear_git_credential_def split: option.splits dest: clear_connection_credential_ok)

datatype git_request =
    Set_config nat nat config_update
  | Verify_config nat nat
  | Set_tenant_credential nat string
  | Clear_tenant_credential
  | Create_connection nat conn_create
  | Update_connection nat conn_update
  | Delete_connection nat
  | Verify_connection nat nat nat
  | Set_credential nat string
  | Clear_credential nat
  | Start_install nat string
  | Delete_install nat
  | Create_repository nat nat repo_create
  | Update_repository nat repo_update
  | Delete_repository nat
  | Set_default_repository nat

definition quiet :: "'a git_m \<Rightarrow> unit git_m" where
  "quiet m w = (case m w of (r, w') \<Rightarrow> (map_sum id (\<lambda>_. ()) r, w'))"

fun git_serve :: "git_ops_env \<Rightarrow> audit_ctx \<Rightarrow> string \<Rightarrow> int \<Rightarrow> git_request \<Rightarrow> unit git_m" where
  "git_serve env cx t now (Set_config i j u) = quiet (op_set_config env cx t i j now u)"
| "git_serve env cx t now (Verify_config i j) = quiet (op_verify_config env cx t i j now)"
| "git_serve env cx t now (Set_tenant_credential i v) = quiet (op_set_tenant_credential env cx t i now v)"
| "git_serve env cx t now Clear_tenant_credential = quiet (op_clear_tenant_credential env cx t now)"
| "git_serve env cx t now (Create_connection i b) = quiet (op_create_connection env cx t i now b)"
| "git_serve env cx t now (Update_connection c b) = quiet (op_update_connection env cx t c now b)"
| "git_serve env cx t now (Delete_connection c) = quiet (op_delete_connection cx t c now)"
| "git_serve env cx t now (Verify_connection i j c) = quiet (op_verify_connection env cx t i j c now)"
| "git_serve env cx t now (Set_credential c v) = quiet (op_set_credential env cx t c now v)"
| "git_serve env cx t now (Clear_credential c) = quiet (op_clear_credential env cx t c now)"
| "git_serve env cx t now (Start_install c token) = quiet (op_start_install env cx t c token now)"
| "git_serve env cx t now (Delete_install c) = quiet (op_delete_install env cx t c now)"
| "git_serve env cx t now (Create_repository i c b) = quiet (op_create_repository cx t i now c b)"
| "git_serve env cx t now (Update_repository r b) = quiet (op_update_repository cx t r now b)"
| "git_serve env cx t now (Delete_repository r) = quiet (op_delete_repository cx t r now)"
| "git_serve env cx t now (Set_default_repository r) = quiet (op_set_default_repository cx t r now)"

lemma quiet_run: "quiet m w = (r, w') \<longleftrightarrow> (\<exists>x. m w = (x, w') \<and> r = map_sum id (\<lambda>_. ()) x)"
  by (auto simp: quiet_def split: prod.splits)

lemma stays_quiet [intro]: "stays cx t m \<Longrightarrow> stays cx t (quiet m)"
  by (auto simp: stays_def quiet_run)

lemma audited_quiet [intro]: "audited cx t m \<Longrightarrow> audited cx t (quiet m)"
  by (fastforce simp: audited_def quiet_run)

lemmas audited_ops = op_set_config_def op_clear_tenant_credential_def op_create_connection_def op_update_connection_def
  op_delete_connection_def op_set_credential_def op_clear_credential_def op_delete_install_def op_create_repository_def
  op_update_repository_def op_delete_repository_def op_set_default_repository_def

lemma start_install_audited: "audited cx t (op_start_install env cx t cid token now)"
proof -
  let ?k = "\<lambda>x w. case x of (c, p, r) \<Rightarrow> (case install_link_of (go_env env) c p r token of
        Inl e \<Rightarrow> (Inl (Install_refused e), w) | Inr l \<Rightarrow> (Inr l, w))"
  have k: "stays cx t (?k x)" for x
  proof (cases x)
    case (fields c p r)
    then show ?thesis by (cases "install_link_of (go_env env) c p r token") simp_all
  qed
  have "op_start_install env cx t cid token now = git_bind (\<lambda>w. case begin_install (go_env env) t cid token now (gdb w) of
         (Inl e, s) \<Rightarrow> (Inl (Install_refused e), with_db s w) | (Inr x, s) \<Rightarrow> (Inr x, with_db s w))
       (\<lambda>x. git_bind (git_record cx t now ''start_git_install'' True ''git-install'') (\<lambda>_. ?k x))"
    by (simp add: op_start_install_def case_prod_unfold)
  then show ?thesis using audited_op [OF atomic_begin k] by simp
qed

text \<open>An operation that ends well has passed its entry.\<close>

lemma success_noted:
  assumes "stays cx t m" "\<And>x. stays cx t (k x)"
    and run: "git_bind m (\<lambda>x. git_bind (git_record cx t now kind ok res) (\<lambda>_. k x)) w = (Inr y, w')"
  obtains new where "git_step cx t w w' new" "new \<noteq> []"
proof -
  obtain x w0 where m: "m w = (Inr x, w0)" and rest: "git_bind (git_record cx t now kind ok res) (\<lambda>_. k x) w0 = (Inr y, w')"
    using run by (auto simp: git_bind_def split: prod.splits sum.splits)
  obtain xs where xs: "git_step cx t w w0 xs" by (rule staysD [OF assms(1) m])
  show thesis
  proof (rule git_note_cases [of cx t now kind "cx_endpoint cx @ ''/'' @ t @ ''/'' @ res" ok w0])
    fix e l
    assume n: "git_note cx t now kind (cx_endpoint cx @ ''/'' @ t @ ''/'' @ res) ok w0 = (Inr (), w0\<lparr>gw_log := l\<rparr>)" "log_grows cx t (gw_log w0) l [e]"
    then have "k x (w0\<lparr>gw_log := l\<rparr>) = (Inr y, w')" using rest by (simp add: git_bind_def git_record_def)
    then obtain ys where "git_step cx t (w0\<lparr>gw_log := l\<rparr>) w' ys" by (rule staysD [OF assms(2)])
    moreover have "git_step cx t w0 (w0\<lparr>gw_log := l\<rparr>) [e]" using n(2) by (simp add: git_step_def)
    ultimately have "git_step cx t w w' (xs @ [e] @ ys)" using xs git_step_trans by blast
    then show thesis by (rule that) simp
  next
    fix a
    assume "git_note cx t now kind (cx_endpoint cx @ ''/'' @ t @ ''/'' @ res) ok w0 = (Inl (Note_raised a), w0)"
    then show thesis using rest by (simp add: git_bind_def git_record_def)
  qed
qed

definition noted_if_ok :: "audit_ctx \<Rightarrow> string \<Rightarrow> 'a git_m \<Rightarrow> bool" where
  "noted_if_ok cx t m \<longleftrightarrow> (\<forall>w r w'. m w = (r, w') \<longrightarrow> (\<exists>new. git_step cx t w w' new \<and> (gdb w' = gdb w \<or> new \<noteq> [] \<or> isl r)))"

lemma noted_if_okI: "stays cx t m \<Longrightarrow> (\<And>w x w'. m w = (Inr x, w') \<Longrightarrow> w' = w \<or> (\<exists>new. git_step cx t w w' new \<and> new \<noteq> [])) \<Longrightarrow> noted_if_ok cx t m"
  unfolding noted_if_ok_def
proof (intro allI impI)
  fix w r w'
  assume s: "stays cx t m" and ok: "\<And>w x w'. m w = (Inr x, w') \<Longrightarrow> w' = w \<or> (\<exists>new. git_step cx t w w' new \<and> new \<noteq> [])"
    and run: "m w = (r, w')"
  obtain new where "git_step cx t w w' new" by (rule staysD [OF s run])
  then show "\<exists>new. git_step cx t w w' new \<and> (gdb w' = gdb w \<or> new \<noteq> [] \<or> isl r)"
    using ok [of w _ w'] run by (cases r) auto
qed

lemma noted_quiet [intro]: "noted_if_ok cx t m \<Longrightarrow> noted_if_ok cx t (quiet m)"
  unfolding noted_if_ok_def quiet_run by (metis isl_map_sum)

lemma verify_target_noted:
  assumes "verify_target env cx t i j target now w = (Inr vo, w')"
  shows "w' = w \<or> (\<exists>new. git_step cx t w w' new \<and> new \<noteq> [])"
proof (cases "gt_project target = None \<or> \<not> (ci_configured (gt_credential target) \<or> ci_source (gt_credential target) = SrcInstall)")
  case True
  then show ?thesis using assms by (auto simp: verify_target_def split: option.splits if_splits)
next
  case False
  then obtain project where p: "gt_project target = Some project" by auto
  obtain v w1 where v: "reach env cx t target project now w = (v, w1)" by fastforce
  obtain xs where xs: "git_step cx t w w1 xs" by (rule staysD [OF reach_stays v])
  obtain err rej ok o' where run: "git_bind (unit_write (record_verification env t i j target now err rej)) (\<lambda>_.
      git_bind (git_record cx t now ''verify_git_config'' ok ''git-config'') (\<lambda>_ w2. (Inr o', w2))) w1 = (Inr vo, w')"
    using assms False p v by (cases v) (auto simp: verify_target_def Let_def)
  have "stays cx t (unit_write (record_verification env t i j target now err rej))"
    by (auto intro: atomic_stays atomic_unit_write record_verification_ok)
  from success_noted [OF this stays_return run] obtain ys where "git_step cx t w1 w' ys" "ys \<noteq> []" by blast
  then show ?thesis using git_step_trans [OF xs, of w' ys] by blast
qed

lemma verify_config_noted: "noted_if_ok cx t (op_verify_config env cx t i j now)"
proof (rule noted_if_okI)
  show "stays cx t (op_verify_config env cx t i j now)" unfolding op_verify_config_def by (intro stays_bind stays_read verify_target_stays stays_return)
next
  fix w x w'
  assume "op_verify_config env cx t i j now w = (Inr x, w')"
  then obtain target vo where "verify_target env cx t i j target now w = (Inr vo, w')"
    by (auto simp: op_verify_config_def git_bind_def git_read_def split: prod.splits sum.splits)
  then show "w' = w \<or> (\<exists>new. git_step cx t w w' new \<and> new \<noteq> [])" by (rule verify_target_noted)
qed

lemma verify_connection_noted: "noted_if_ok cx t (op_verify_connection env cx t i j cid now)"
proof (rule noted_if_okI)
  have s: "stays cx t (\<lambda>w. case repositories t (Some cid) (gdb w) of [] \<Rightarrow> (f w, w) | r # rs \<Rightarrow> m r rs w)"
    if "\<And>r rs. stays cx t (m r rs)" for f :: "git_world \<Rightarrow> git_failure + 'b" and m
    using that by (auto simp: stays_def split: list.splits intro: exI [of _ "[]"])
  show "stays cx t (op_verify_connection env cx t i j cid now)" unfolding op_verify_connection_def Let_def
    by (intro stays_bind stays_read s verify_target_stays stays_return)
next
  fix w x w'
  assume "op_verify_connection env cx t i j cid now w = (Inr x, w')"
  then have "w' = w \<or> (\<exists>target vo. verify_target env cx t i j target now w = (Inr vo, w'))"
    by (fastforce simp: op_verify_connection_def git_bind_def git_read_def Let_def split: prod.splits sum.splits list.splits)
  then show "w' = w \<or> (\<exists>new. git_step cx t w w' new \<and> new \<noteq> [])" using verify_target_noted by blast
qed

lemma tenant_credential_noted: "noted_if_ok cx t (op_set_tenant_credential env cx t i now v)"
proof (rule noted_if_okI)
  have d: "stays cx t (git_write (default_connection t i now st))" for st
    by (auto intro: atomic_stays atomic_write default_connection_ok)
  show s: "stays cx t (op_set_tenant_credential env cx t i now v)" unfolding op_set_tenant_credential_def
    by (intro stays_bind stays_record stays_return d atomic_stays [OF atomic_credential])
  fix w x w'
  assume "op_set_tenant_credential env cx t i now v w = (Inr x, w')"
  then obtain c w1 where c: "git_write (default_connection t i now (go_settings env)) w = (Inr c, w1)"
    and run: "git_bind (\<lambda>w. case set_connection_credential (ie_enc (go_env env)) (ie_random (go_env env)) (go_keys env) t (gc_id c) (Some v) now (gdb w) of
         Inl e \<Rightarrow> (Inl (Secret_refused e), w) | Inr (info, s) \<Rightarrow> (Inr info, with_db s w)) (\<lambda>info.
       git_bind (git_record cx t now ''set_git_credential'' True ''git-credential'') (\<lambda>_ w. (Inr info, w))) w1 = (Inr x, w')"
    by (auto simp: op_set_tenant_credential_def git_bind_def [of "git_write _"] split: prod.splits sum.splits)
  obtain xs where xs: "git_step cx t w w1 xs" by (rule staysD [OF d c])
  from success_noted [OF atomic_stays [OF atomic_credential] stays_return run] obtain ys where "git_step cx t w1 w' ys" "ys \<noteq> []" by blast
  then show "w' = w \<or> (\<exists>new. git_step cx t w w' new \<and> new \<noteq> [])" using git_step_trans [OF xs, of w' ys] by blast
qed

lemma audited_serve:
  assumes "case req of Set_tenant_credential _ _ \<Rightarrow> False | Verify_config _ _ \<Rightarrow> False | Verify_connection _ _ _ \<Rightarrow> False | _ \<Rightarrow> True"
  shows "audited cx t (git_serve env cx t now req)"
  using assms
proof (cases req)
  case (Start_install c token)
  then show ?thesis using start_install_audited by auto
qed (auto simp: audited_ops intro!: audited_quiet audited_op atomic_write atomic_unit_write atomic_credential stays_bind
    dest: git_ops_ok clear_git_credential_ok)

text \<open>C25: what a tenant may ask of its git configuration touches its own rows only, keeps the store
  well-formed, and leaves an entry of the actor whenever it changes anything, in a chain that still
  verifies.  That holds of a refusal as well, with two exceptions the code has: storing the tenant's
  credential and verifying may have written before they are refused.\<close>

theorem git_ops_are_audited:
  assumes "git_serve env cx t now req w = (r, w')"
  shows "\<exists>new. git_step cx t w w' new \<and> (gdb w' = gdb w \<or> new \<noteq> [] \<or> (\<exists>a. r = Inl (Note_raised a))
    \<or> (isl r \<and> (case req of Set_tenant_credential _ _ \<Rightarrow> True | Verify_config _ _ \<Rightarrow> True | Verify_connection _ _ _ \<Rightarrow> True | _ \<Rightarrow> False)))"
proof (cases "case req of Set_tenant_credential _ _ \<Rightarrow> False | Verify_config _ _ \<Rightarrow> False | Verify_connection _ _ _ \<Rightarrow> False | _ \<Rightarrow> True")
  case True
  then show ?thesis using audited_serve [OF True] assms unfolding audited_def by blast
next
  case False
  then have "noted_if_ok cx t (git_serve env cx t now req)"
    by (cases req) (auto intro: verify_config_noted verify_connection_noted tenant_credential_noted)
  then show ?thesis using False assms unfolding noted_if_ok_def by (cases req) (simp_all, blast+)
qed

definition ex_ops_env :: "probe_error + jobj \<Rightarrow> git_ops_env" where
  "ex_ops_env info = \<lparr>go_env = ex_install_env ex_answer, go_info = (\<lambda>_. info), go_text = (\<lambda>_. ''HTTPStatusError'')\<rparr>"

definition ex_git_world :: "git_db \<Rightarrow> git_world" where
  "ex_git_world s = \<lparr>gw_inst = \<lparr>iw_db = s, iw_tokens = [((''acme'', 1), \<lparr>mt_token = ''secret'', mt_expires_at = Aware 900000000\<rparr>)], iw_reads = []\<rparr>, gw_log = ex_log\<rparr>"

theorem git_ops_are_audited_witness:
  "\<exists>w' new. git_serve (ex_ops_env (Inr [])) ex_cx ''acme'' 5 (Delete_repository 2) (ex_git_world ex_git) = (Inr (), w')
    \<and> gdb w' \<noteq> ex_git \<and> git_step ex_cx ''acme'' (ex_git_world ex_git) w' new \<and> new \<noteq> []"
proof -
  let ?w = "ex_git_world ex_git"
  obtain r w' where run: "git_serve (ex_ops_env (Inr [])) ex_cx ''acme'' 5 (Delete_repository 2) ?w = (r, w')" by force
  obtain s where s: "delete_repository ''acme'' 2 5 ex_git = Inr s" "length (gd_repos s) = 1"
    by (simp add: delete_repository_def repository_def ensure_default_def repositories_def is_default_def
        set_default_repository_def clear_defaults_def update_where_def mark_default_def ex_git_simps ex_repo_def)
  then have "s \<noteq> ex_git" by (auto simp: ex_git_def)
  moreover have "r = Inr () \<and> gdb w' = s" using run s ex_cx_actor
    by (auto simp: op_delete_repository_def git_bind_def unit_write_def git_write_def quiet_def git_record_def git_note_def record_entry_def
        ex_git_world_def gdb_def with_db_def)
  ultimately show ?thesis using run git_ops_are_audited [OF run] by (auto simp: ex_git_world_def gdb_def)
qed

section \<open>Where a credential goes\<close>

text \<open>C39: a credential can leave its host.  A tenant with a connection but no default repository resolves
  to the deployment's own provider and host, with the credential of its oldest connection: whatever
  host that connection names and whatever its token is, the provider that is built for the target
  presents it to the deployment's.\<close>

theorem credential_leaves_its_host:
  assumes "default_repository t (gdb w) = None" "connections t (gdb w) = c # cs"
    and "connection_token (go_env env) t (gc_id c) now (gw_inst w) = (Inr (Some v), i)"
    and "safe_git_base_url (ie_resolve (go_env env)) (ie_hidden (go_env env)) (gt_base_url (target_from_settings (go_settings env) t None)) = Inr base"
  shows "\<exists>g. git_target_for t (go_settings env) (go_keys env) None None (gdb w) = Inr g
    \<and> gt_provider g = provider_kind (st_git_provider (go_settings env))
    \<and> gt_base_url g = gt_base_url (target_from_settings (go_settings env) t None)
    \<and> fst (build_provider env cx t g project now w) = spec_of (gt_provider g) project (Some v) base"
proof -
  let ?g = "target_from_settings (go_settings env) t (Some (tenant_credential t (go_settings env) (go_keys env) (gdb w)))"
  have g: "git_target_for t (go_settings env) (go_keys env) None None (gdb w) = Inr ?g"
    using assms(1) by (simp add: git_target_for_def resolve_repository_def resolve_project_def eval_str)
  have sel: "gt_provider ?g = provider_kind (st_git_provider (go_settings env))" "gt_connection_id ?g = None"
    "gt_base_url ?g = gt_base_url (target_from_settings (go_settings env) t None)"
    by (simp_all add: target_from_settings_def Let_def)
  have "target_token env t ?g now (gw_inst w) = (Inr (Some v), i)"
    using assms(1-3) sel(2) by (simp add: target_token_def credential_connection_def gdb_def)
  then have "fst (build_provider env cx t ?g project now w) = spec_of (gt_provider ?g) project (Some v) base"
    using assms(4) sel(3) by (simp add: build_provider_def)
  then show ?thesis using g sel by blast
qed

text \<open>A GitLab connection that was installed, on a deployment set up for GitHub.\<close>

definition ex_gitlab :: git_db where
  "ex_gitlab = git_empty\<lparr>gd_conns := [ex_conn\<lparr>gc_provider := GITLAB, gc_base_url := ''https://git.acme''\<rparr>],
     gd_installs := [\<lparr>gi_tenant = ''acme'', gi_connection = 1, gi_provider = GITLAB, gi_installation_id = None, gi_account = None,
       gi_status = INSTALLED, gi_error = None, gi_created_at = 0, gi_updated_at = 0\<rparr>], gd_tokens := [(''acme'', 1)]\<rparr>"

theorem credential_leaves_its_host_witness:
  "\<exists>g. git_target_for ''acme'' (go_settings (ex_ops_env (Inr []))) (go_keys (ex_ops_env (Inr []))) None None ex_gitlab = Inr g
    \<and> fst (build_provider (ex_ops_env (Inr [])) ex_cx ''acme'' g ''org/app'' 5 (ex_git_world ex_gitlab))
        = Inr (GitHub_at ''org/app'' (Some ''secret'') ''https://api.github.com'')"
proof -
  let ?w = "ex_git_world ex_gitlab" and ?e = "ex_ops_env (Inr [])"
  have base: "safe_git_base_url (ie_resolve (go_env ?e)) (ie_hidden (go_env ?e)) (gt_base_url (target_from_settings (go_settings ?e) ''acme'' None))
      = Inr ''https://api.github.com''" by code_simp
  have c: "default_repository ''acme'' (gdb ?w) = None" "connections ''acme'' (gdb ?w) = [ex_conn\<lparr>gc_provider := GITLAB, gc_base_url := ''https://git.acme''\<rparr>]"
    by (simp_all add: ex_git_world_def gdb_def ex_gitlab_def git_empty_def default_repository_def connections_def ex_conn_def)
  have "connection_token (go_env ?e) ''acme'' 1 5 (gw_inst ?w) = (Inr (Some ''secret''), gw_inst ?w)"
    by (simp add: connection_token_def source_token_def is_fresh_def cached_def install_row_def install_match_def install_source_def
        ex_git_world_def ex_gitlab_def git_empty_def)
  from credential_leaves_its_host [OF c, of ?e 5 "''secret''" "gw_inst ?w" "''https://api.github.com''" ex_cx "''org/app''"] this base
  obtain g where "git_target_for ''acme'' (go_settings ?e) (go_keys ?e) None None (gdb ?w) = Inr g"
    "gt_provider g = provider_kind (st_git_provider (go_settings ?e))"
    "fst (build_provider ?e ex_cx ''acme'' g ''org/app'' 5 ?w) = spec_of (gt_provider g) ''org/app'' (Some ''secret'') ''https://api.github.com''"
    by (auto simp: ex_conn_def)
  moreover have "spec_of (provider_kind (st_git_provider (go_settings ?e))) ''org/app'' (Some ''secret'') ''https://api.github.com''
      = Inr (GitHub_at ''org/app'' (Some ''secret'') ''https://api.github.com'')" by code_simp
  ultimately show ?thesis by (auto simp: ex_git_world_def gdb_def)
qed

section \<open>Verifying\<close>

lemma find_update_where_if: "(\<And>x. P (f x) = P x) \<Longrightarrow> List.find P (update_where Q f xs) = map_option (\<lambda>x. if Q x then f x else x) (List.find P xs)"
  by (induction xs) (auto simp: update_where_def)

lemma record_connection_verification_found:
  assumes "record_connection_verification t cid now err rej s = Inr s'"
  shows "\<exists>c. connection_or_none t cid s' = Some c \<and> gc_verified_at c = (if truthy err then None else Some now) \<and> gc_verify_error c = err
    \<and> gc_credential_rejected c = (if truthy err then Some (rej = Some True) else None)"
proof -
  obtain c0 f where c0: "List.find (\<lambda>c. gc_id c = cid) (gd_conns s) = Some c0" "gc_tenant c0 = t"
    and s': "gd_conns s' = update_where (\<lambda>d. gc_id d = cid) f (gd_conns s)"
    and f: "\<And>d. gc_id (f d) = gc_id d \<and> gc_tenant (f d) = gc_tenant d \<and> gc_verified_at (f d) = (if truthy err then None else Some now)
      \<and> gc_verify_error (f d) = err \<and> gc_credential_rejected (f d) = (if truthy err then Some (rej = Some True) else None)"
    using assms by (auto simp: record_connection_verification_def patch_connection_def split: option.splits if_splits)
  have "\<exists>c. List.find (\<lambda>c. gc_id c = cid \<and> gc_tenant c = t) xs = Some c \<and> gc_id c = cid" if "List.find (\<lambda>c. gc_id c = cid) xs = Some c0" for xs
    using that c0(2) by (induction xs) (auto split: if_splits)
  then obtain c where "List.find (\<lambda>c. gc_id c = cid \<and> gc_tenant c = t) (gd_conns s) = Some c" "gc_id c = cid" using c0(1) by blast
  then have "connection_or_none t cid s' = Some (f c)" using f s' by (simp add: connection_or_none_def find_update_where_if)
  then show ?thesis using f by blast
qed

lemma git_record_ok: "git_record cx t now kind ok res w = (Inr u, w') \<Longrightarrow> gdb w' = gdb w"
  by (auto simp: git_record_def git_note_def split: sum.splits)

text \<open>A verify that got as far as the host: what it recorded is what the host said.\<close>

lemma verify_target_recorded:
  assumes run: "verify_target env cx t i j target now w = (Inr vo, w')" and "gt_connection_id target = Some cid" and said: "\<And>e. go_text env e \<noteq> []"
  shows "case vo_status vo of Some _ \<Rightarrow> w' = w
    | None \<Rightarrow> (\<exists>project r w1 c. reach env cx t target project now w = (r, w1) \<and> connection_or_none t cid (gdb w') = Some c
        \<and> (case r of
            Inr _ \<Rightarrow> vo_ok vo \<and> gc_verified_at c = Some now \<and> gc_verify_error c = None \<and> gc_credential_rejected c = None
          | Inl e \<Rightarrow> \<not> vo_ok vo \<and> gc_verified_at c = None \<and> gc_verify_error c = Some (take 512 (go_text env e))
              \<and> gc_credential_rejected c = Some (is_credential_rejection e)))"
proof (cases "gt_project target = None \<or> \<not> (ci_configured (gt_credential target) \<or> ci_source (gt_credential target) = SrcInstall)")
  case True
  then show ?thesis using run by (auto simp: verify_target_def split: option.splits if_splits)
next
  case False
  then obtain project where p: "gt_project target = Some project" by auto
  obtain r w1 where r: "reach env cx t target project now w = (r, w1)" by fastforce
  have rec: "record_verification env t i j target now err rej = record_connection_verification t cid now err rej" for err rej
    using assms(2) by (simp add: record_verification_def fun_eq_iff)
  have k: "\<exists>c. connection_or_none t cid (gdb w') = Some c \<and> gc_verified_at c = (if truthy err then None else Some now) \<and> gc_verify_error c = err
      \<and> gc_credential_rejected c = (if truthy err then Some (rej = Some True) else None) \<and> vo = o'"
    if step: "git_bind (unit_write (record_verification env t i j target now err rej)) (\<lambda>_.
      git_bind (git_record cx t now ''verify_git_config'' ok ''git-config'') (\<lambda>_ w2. (Inr o', w2))) w1 = (Inr vo, w')" for err rej ok o'
  proof -
    obtain w2 where w2: "unit_write (record_verification env t i j target now err rej) w1 = (Inr (), w2)"
      and n: "git_record cx t now ''verify_git_config'' ok ''git-config'' w2 = (Inr (), w')" and "vo = o'"
      using step by (auto simp: git_bind_def split: prod.splits sum.splits)
    then have "record_connection_verification t cid now err rej (gdb w1) = Inr (gdb w')"
      using w2 git_record_ok [OF n] unfolding rec by (auto simp: unit_write_def git_write_def res_bind_def split: sum.splits)
    then show ?thesis using record_connection_verification_found \<open>vo = o'\<close> by blast
  qed
  have "take 512 (go_text env e) \<noteq> []" for e using said [of e] by (cases "go_text env e") auto
  then have "truthy (Some (take 512 (go_text env e)))" for e by (simp add: truthy_iff)
  then show ?thesis using k run False p r by (cases r) (fastforce simp: verify_target_def Let_def)+
qed

lemma find_holds: "List.find P xs = Some x \<Longrightarrow> x \<in> set xs \<and> P x"
  by (induction xs) (auto split: if_splits)

lemma verified_target:
  assumes ok: "git_ok s" and c: "connection t cid s = Inr c" and r: "r \<in> set (repositories t (Some cid) s)"
    and g: "git_target_for t st spec (Some (gr_id r)) None s = Inr target"
  shows "gt_connection_id target = Some cid"
proof -
  have r': "r \<in> set (gd_repos s)" "gr_tenant r = t" "gr_connection r = cid" using r by (auto simp: repositories_def)
  obtain r2 where "List.find (\<lambda>x. gr_id x = gr_id r \<and> gr_tenant x = t) (gd_repos s) = Some r2"
    using r' by (metis (mono_tags, lifting) find_None_iff not_None_eq)
  then have "repository t (gr_id r) s = Inr r2" "r2 \<in> set (gd_repos s)" "gr_id r2 = gr_id r"
    using find_holds by (fastforce simp: repository_def)+
  then have "repository t (gr_id r) s = Inr r" using git_ok_ids [OF ok] r'(1) by metis
  moreover have "connection_or_none t (gr_connection r) s = Some c" "gc_id c = cid"
    using c r'(3) connection_or_none_Some by (auto simp: connection_Inr)
  ultimately show ?thesis using g by (auto simp: git_target_for_def resolve_repository_def target_from_repository_def Let_def)
qed

text \<open>C26: what a verify leaves on a connection is what the host said.  A verify that never asked, for want
  of a project, a repository or a credential, records nothing; one that asked records on the
  connection it was called for, and on no other, the time if the repository was read, or else the
  reason, with whether the host refused the credential itself.\<close>

theorem verification_is_recorded:
  assumes "git_ok (gdb w)" "\<And>e. go_text env e \<noteq> []"
    and run: "op_verify_connection env cx t i j cid now w = (Inr v, w')"
  shows "case vc_status v of Some _ \<Rightarrow> w' = w
    | None \<Rightarrow> (\<exists>target project r w1 c. reach env cx t target project now w = (r, w1) \<and> gt_connection_id target = Some cid
        \<and> connection_or_none t cid (gdb w') = Some c
        \<and> (case r of
            Inr _ \<Rightarrow> vc_ok v \<and> gc_verified_at c = Some now \<and> gc_verify_error c = None \<and> gc_credential_rejected c = None
          | Inl e \<Rightarrow> \<not> vc_ok v \<and> gc_verified_at c = None \<and> gc_verify_error c = Some (take 512 (go_text env e))
              \<and> gc_credential_rejected c = Some (is_credential_rejection e)))"
proof -
  obtain c where c: "connection t cid (gdb w) = Inr c" using run by (auto simp: op_verify_connection_def git_bind_def git_read_def split: sum.splits)
  show ?thesis
  proof (cases "repositories t (Some cid) (gdb w)")
    case Nil
    then show ?thesis using run c by (auto simp: op_verify_connection_def git_bind_def git_read_def)
  next
    case (Cons a as)
    define chosen where "chosen = (case List.find is_default (a # as) of Some d \<Rightarrow> d | None \<Rightarrow> a)"
    have mem: "chosen \<in> set (repositories t (Some cid) (gdb w))"
      unfolding Cons chosen_def using find_holds [of is_default "a # as"] by (cases "List.find is_default (a # as)") (auto simp del: find.simps)
    obtain target vo where g: "git_target_for t (go_settings env) (go_keys env) (Some (gr_id chosen)) None (gdb w) = Inr target"
      and vo: "verify_target env cx t i j target now w = (Inr vo, w')" and v: "vc_status v = vo_status vo" "vc_ok v = vo_ok vo"
      using run c Cons unfolding op_verify_connection_def git_bind_def git_read_def chosen_def Let_def
      by (auto split: sum.splits prod.splits)
    have id: "gt_connection_id target = Some cid" by (rule verified_target [OF assms(1) c mem g])
    show ?thesis
    proof (cases "vo_status vo")
      case None
      then show ?thesis using verify_target_recorded [OF vo id assms(2)] id unfolding v None option.case by blast
    next
      case (Some x)
      then show ?thesis using verify_target_recorded [OF vo id assms(2)] unfolding v Some by simp
    qed
  qed
qed

definition ex_installed :: git_db where
  "ex_installed = ex_git\<lparr>gd_installs := [\<lparr>gi_tenant = ''acme'', gi_connection = 1, gi_provider = GITHUB, gi_installation_id = Some ''99'', gi_account = None,
       gi_status = INSTALLED, gi_error = None, gi_created_at = 0, gi_updated_at = 0\<rparr>], gd_tokens := [(''acme'', 1)]\<rparr>"

lemma ex_installed_ok: "git_ok ex_installed"
  by (simp add: ex_installed_def git_ok_def owned_def ex_git_def ex_conn_def git_empty_def ex_repo_def keys_unique_def repo_key_def)

text \<open>The host refuses the credential of the example.\<close>

theorem verification_is_recorded_witness:
  "\<exists>v w' c. op_verify_connection (ex_ops_env (Inl (Probe_status 401))) ex_cx ''acme'' 7 8 1 5 (ex_git_world ex_installed) = (Inr v, w')
    \<and> connection_or_none ''acme'' 1 (gdb w') = Some c \<and> gc_verified_at c = None \<and> gc_verify_error c = Some ''HTTPStatusError''
    \<and> gc_credential_rejected c \<noteq> None"
proof -
  let ?run = "op_verify_connection (ex_ops_env (Inl (Probe_status 401))) ex_cx ''acme'' 7 8 1 5 (ex_git_world ex_installed)"
  have "map_sum id (\<lambda>v. (vc_status v, vc_ok v)) (fst ?run) = Inr (None, False)" by code_simp
  then obtain v where v: "fst ?run = Inr v" "vc_status v = None" "\<not> vc_ok v" by (cases "fst ?run") auto
  then have run: "?run = (Inr v, snd ?run)" by (metis prod.collapse)
  have "git_ok (gdb (ex_git_world ex_installed))" using ex_installed_ok by (simp add: ex_git_world_def gdb_def)
  note ok = this
  have said: "go_text (ex_ops_env (Inl (Probe_status 401))) e = ''HTTPStatusError''" for e by (simp add: ex_ops_env_def)
  have "go_text (ex_ops_env (Inl (Probe_status 401))) e \<noteq> []" for e unfolding said by simp
  from verification_is_recorded [OF ok this run, unfolded v(2) option.case said] obtain r :: "git_failure + jobj" and c where
    c: "connection_or_none ''acme'' 1 (gdb (snd ?run)) = Some c" and cases: "case r of
        Inr _ \<Rightarrow> vc_ok v \<and> gc_verified_at c = Some 5 \<and> gc_verify_error c = None \<and> gc_credential_rejected c = None
      | Inl e \<Rightarrow> \<not> vc_ok v \<and> gc_verified_at c = None \<and> gc_verify_error c = Some (take 512 ''HTTPStatusError'')
          \<and> gc_credential_rejected c = Some (is_credential_rejection e)" by blast
  have "gc_verified_at c = None \<and> gc_verify_error c = Some ''HTTPStatusError'' \<and> gc_credential_rejected c \<noteq> None"
    using cases v(3) by (cases r) simp_all
  then show ?thesis using run c by blast
qed

text \<open>What a refused credential leaves: the connection that was made for it, and no entry.\<close>

lemma refused_credential_leaves_connection:
  assumes "default_connection t i now (go_settings env) (gdb w) = Inr (c, s)"
    and "set_connection_credential (ie_enc (go_env env)) (ie_random (go_env env)) (go_keys env) t (gc_id c) (Some secret) now s = Inl e"
  shows "op_set_tenant_credential env cx t i now secret w = (Inl (Secret_refused e), with_db s w)"
  using assms by (simp add: op_set_tenant_credential_def git_bind_def git_write_def)

text \<open>A deployment whose provider is none of the three: the verify of a tenant that stored nothing is not
  reported but raises, when its outcome is to be recorded.\<close>

lemma verify_raises_for_unknown_provider:
  assumes "connections t s = []" "validated_fields \<lparr>cu_provider = gt_provider (target_from_settings st t None),
      cu_base_url = Some (gt_base_url (target_from_settings st t None)), cu_project = gt_project (target_from_settings st t None), cu_intake_project = None,
      cu_aifactory_project_id = gt_aifactory_project_id (target_from_settings st t None), cu_default_labels = []\<rparr> = Inl e"
  shows "record_git_verification t i j now st err rejected s = Inl e"
  using assms by (simp add: record_git_verification_def set_git_config_def Let_def)

end
