(* ===== verification/RateLimiter.thy ===== *)
theory RateLimiter
  imports Prelude
begin

text \<open>
  The rate limiter of the git clients, \<open>runners/github/rate_limiter.py\<close>: a token bucket, a budget
  of model costs, the limiter that holds both, and the wrapper that retries a call.  Seconds,
  tokens and dollars are rationals.

  Time.  \<open>clock\<close> is the monotonic clock with the number of times it was read; \<open>lag n\<close> is what passes
  until the \<open>n\<close>-th reading, so what is known of the clock is what is assumed of \<open>lag\<close>.  A sleep
  lasts at least what was asked for: the rest is in the next \<open>lag\<close>.  \<open>others\<close> is what the other
  tasks of the event loop do to the bucket while this one sleeps.
\<close>

section \<open>The clock\<close>

record clock =
  ck_time :: rat
  ck_reads :: nat

definition read_clock :: "(nat \<Rightarrow> rat) \<Rightarrow> clock \<Rightarrow> rat \<times> clock" where
  "read_clock lag c = (let t = ck_time c + lag (ck_reads c) in (t, \<lparr>ck_time = t, ck_reads = Suc (ck_reads c)\<rparr>))"

definition sleep_for :: "rat \<Rightarrow> clock \<Rightarrow> clock" where
  "sleep_for d c = c\<lparr>ck_time := ck_time c + max 0 d\<rparr>"

section \<open>The token bucket\<close>

record token_bucket =
  tb_capacity :: int
  tb_refill_rate :: rat
  tb_tokens :: rat
  tb_last_refill :: rat

definition new_bucket :: "int \<Rightarrow> rat \<Rightarrow> rat \<Rightarrow> token_bucket" where
  "new_bucket capacity rate now = \<lparr>tb_capacity = capacity, tb_refill_rate = rate, tb_tokens = of_int capacity, tb_last_refill = now\<rparr>"

definition refill :: "rat \<Rightarrow> token_bucket \<Rightarrow> token_bucket" where
  "refill now b = b\<lparr>tb_tokens := min (of_int (tb_capacity b)) (tb_tokens b + (now - tb_last_refill b) * tb_refill_rate b),
     tb_last_refill := now\<rparr>"

definition try_acquire :: "rat \<Rightarrow> int \<Rightarrow> token_bucket \<Rightarrow> bool \<times> token_bucket" where
  "try_acquire now n b = (let b' = refill now b in
     if of_int n \<le> tb_tokens b' then (True, b'\<lparr>tb_tokens := tb_tokens b' - of_int n\<rparr>) else (False, b'))"

definition try_at :: "(nat \<Rightarrow> rat) \<Rightarrow> int \<Rightarrow> token_bucket \<Rightarrow> clock \<Rightarrow> bool \<times> token_bucket \<times> clock" where
  "try_at lag n b c = (case read_clock lag c of (now, c') \<Rightarrow> case try_acquire now n b of (ok, b') \<Rightarrow> (ok, b', c'))"

definition wait_time :: "int \<Rightarrow> token_bucket \<Rightarrow> rat" where
  "wait_time n b = (if tb_refill_rate b \<le> 0 then 1 else min ((of_int n - tb_tokens b) / tb_refill_rate b) 1)"

text \<open>The loop of \<open>acquire\<close>.  It need not end: the value is then \<open>None\<close>.\<close>

partial_function (option) acquire_loop ::
  "(nat \<Rightarrow> rat) \<Rightarrow> (token_bucket \<times> clock \<Rightarrow> token_bucket \<times> clock) \<Rightarrow> int \<Rightarrow> rat option \<Rightarrow> rat
    \<Rightarrow> token_bucket \<Rightarrow> clock \<Rightarrow> (bool \<times> token_bucket \<times> clock) option" where
  "acquire_loop lag others n timeout start b c = (case try_at lag n b c of (ok, b1, c1) \<Rightarrow>
     if ok then Some (True, b1, c1)
     else (case timeout of
        None \<Rightarrow> (case others (b1, sleep_for (wait_time n b1) c1) of (b', c') \<Rightarrow> acquire_loop lag others n timeout start b' c')
      | Some t \<Rightarrow> (case read_clock lag c1 of (now, c2) \<Rightarrow>
          if t \<le> now - start then Some (False, b1, c2)
          else (case others (b1, sleep_for (wait_time n b1) c2) of (b', c') \<Rightarrow> acquire_loop lag others n timeout start b' c'))))"

definition acquire ::
  "(nat \<Rightarrow> rat) \<Rightarrow> (token_bucket \<times> clock \<Rightarrow> token_bucket \<times> clock) \<Rightarrow> int \<Rightarrow> rat option
    \<Rightarrow> token_bucket \<Rightarrow> clock \<Rightarrow> (bool \<times> token_bucket \<times> clock) option" where
  "acquire lag others n timeout b c = (case read_clock lag c of (start, c') \<Rightarrow> acquire_loop lag others n timeout start b c')"

text \<open>\<open>int(x)\<close> cuts towards zero.\<close>

definition truncated :: "rat \<Rightarrow> int" where
  "truncated x = (if 0 \<le> x then \<lfloor>x\<rfloor> else \<lceil>x\<rceil>)"

definition available :: "rat \<Rightarrow> token_bucket \<Rightarrow> int \<times> token_bucket" where
  "available now b = (let b' = refill now b in (truncated (tb_tokens b'), b'))"

text \<open>\<open>None\<close> is infinity.\<close>

definition time_until_available :: "rat \<Rightarrow> int \<Rightarrow> token_bucket \<Rightarrow> rat option \<times> token_bucket" where
  "time_until_available now n b = (let b' = refill now b in
     (if of_int n \<le> tb_tokens b' then Some 0
      else if tb_refill_rate b' \<le> 0 then None
      else Some ((of_int n - tb_tokens b') / tb_refill_rate b'), b'))"

section \<open>The budget\<close>

definition AI_PRICING :: "(string, rat \<times> rat) dict" where
  "AI_PRICING = [(''claude-sonnet-4-20250514'', (3, 15)), (''claude-opus-4-20250514'', (15, 75)),
     (''claude-sonnet-3-5-20241022'', (3, 15)), (''claude-haiku-3-5-20241022'', (4/5, 4)),
     (''claude-sonnet-4-20250514-thinking'', (3, 15)), (''default'', (3, 15))]"

definition pricing :: "string \<Rightarrow> rat \<times> rat" where
  "pricing model = (case dget AI_PRICING model of Some p \<Rightarrow> p | None \<Rightarrow> (case dget AI_PRICING ''default'' of Some p \<Rightarrow> p | None \<Rightarrow> (0, 0)))"

definition calculate_cost :: "int \<Rightarrow> int \<Rightarrow> string \<Rightarrow> rat" where
  "calculate_cost input output model = (case pricing model of (i, out) \<Rightarrow>
     of_int input / 1000000 * i + of_int output / 1000000 * out)"

record ai_operation =
  ao_timestamp :: int
  ao_operation :: string
  ao_model :: string
  ao_input :: int
  ao_output :: int
  ao_cost :: rat

record cost_tracker =
  co_total :: rat
  co_limit :: rat
  co_operations :: "ai_operation list"

text \<open>The left side is \<open>CostLimitExceeded\<close> with the total it would have been.\<close>

definition add_operation :: "int \<Rightarrow> int \<Rightarrow> int \<Rightarrow> string \<Rightarrow> string \<Rightarrow> cost_tracker \<Rightarrow> rat + rat \<times> cost_tracker" where
  "add_operation now input output model name t = (let cost = calculate_cost input output model in
     if co_limit t < co_total t + cost then Inl (co_total t + cost)
     else Inr (cost, t\<lparr>co_total := co_total t + cost, co_operations := co_operations t @
       [\<lparr>ao_timestamp = now, ao_operation = name, ao_model = model, ao_input = input, ao_output = output, ao_cost = cost\<rparr>]\<rparr>))"

definition remaining_budget :: "cost_tracker \<Rightarrow> rat" where
  "remaining_budget t = max 0 (co_limit t - co_total t)"

text \<open>The operations the report lists: the five dearest, an earlier one before a later one of the
  same cost.\<close>

definition dearest :: "cost_tracker \<Rightarrow> ai_operation list" where
  "dearest t = take 5 (sort_key (\<lambda>x. - ao_cost x) (co_operations t))"

text \<open>The share of the budget that is used; \<open>None\<close> where the report divides by zero.\<close>

definition usage_percent :: "cost_tracker \<Rightarrow> rat option" where
  "usage_percent t = (if co_limit t = 0 then None else Some (co_total t / co_limit t * 100))"

section \<open>The limiter\<close>

record rate_limiter =
  rl_bucket :: token_bucket
  rl_costs :: cost_tracker
  rl_max_retry_delay :: rat
  rl_requests :: nat
  rl_limited :: nat
  rl_errors :: nat

record limiter_config =
  lf_github_limit :: int
  lf_refill_rate :: rat
  lf_cost_limit :: rat
  lf_max_retry_delay :: rat

definition new_limiter :: "limiter_config \<Rightarrow> rat \<Rightarrow> rate_limiter" where
  "new_limiter f now = \<lparr>rl_bucket = new_bucket (lf_github_limit f) (lf_refill_rate f) now,
     rl_costs = \<lparr>co_total = 0, co_limit = lf_cost_limit f, co_operations = []\<rparr>,
     rl_max_retry_delay = lf_max_retry_delay f, rl_requests = 0, rl_limited = 0, rl_errors = 0\<rparr>"

text \<open>The class keeps one instance and a flag that one was initialised.  The constructor of an object
  made while the flag is set returns at once: that object has no attributes, \<open>None\<close>.\<close>

record limiter_class =
  lc_instance :: "rate_limiter option option"
  lc_initialized :: bool

definition construct :: "limiter_config \<Rightarrow> rat \<Rightarrow> limiter_class \<Rightarrow> rate_limiter option \<times> limiter_class" where
  "construct f now k = (if lc_initialized k then (None, k) else (Some (new_limiter f now), k\<lparr>lc_initialized := True\<rparr>))"

definition get_instance :: "limiter_config \<Rightarrow> rat \<Rightarrow> limiter_class \<Rightarrow> rate_limiter option \<times> limiter_class" where
  "get_instance f now k = (case lc_instance k of
     Some l \<Rightarrow> (l, k)
   | None \<Rightarrow> (case construct f now k of (l, k') \<Rightarrow> (l, k'\<lparr>lc_instance := Some l\<rparr>)))"

definition reset_instance :: "limiter_class \<Rightarrow> limiter_class" where
  "reset_instance k = \<lparr>lc_instance = None, lc_initialized = False\<rparr>"

definition acquire_github ::
  "(nat \<Rightarrow> rat) \<Rightarrow> (token_bucket \<times> clock \<Rightarrow> token_bucket \<times> clock) \<Rightarrow> rat option
    \<Rightarrow> rate_limiter \<Rightarrow> clock \<Rightarrow> (bool \<times> rate_limiter \<times> clock) option" where
  "acquire_github lag others timeout l c = map_option (\<lambda>(ok, b, c').
     (ok, l\<lparr>rl_bucket := b, rl_requests := Suc (rl_requests l), rl_limited := (if ok then rl_limited l else Suc (rl_limited l))\<rparr>, c'))
     (acquire lag others 1 timeout (rl_bucket l) c)"

datatype gh_status = Requests_available int | Wait_for "rat option"

definition check_github_available :: "(nat \<Rightarrow> rat) \<Rightarrow> rate_limiter \<Rightarrow> clock \<Rightarrow> (bool \<times> gh_status) \<times> rate_limiter \<times> clock" where
  "check_github_available lag l c = (case read_clock lag c of (now, c1) \<Rightarrow> case available now (rl_bucket l) of (k, b1) \<Rightarrow>
     if 0 < k then ((True, Requests_available k), l\<lparr>rl_bucket := b1\<rparr>, c1)
     else (case read_clock lag c1 of (now2, c2) \<Rightarrow> case time_until_available now2 1 b1 of (w, b2) \<Rightarrow>
        ((False, Wait_for w), l\<lparr>rl_bucket := b2\<rparr>, c2)))"

definition track_ai_cost :: "int \<Rightarrow> int \<Rightarrow> int \<Rightarrow> string \<Rightarrow> string \<Rightarrow> rate_limiter \<Rightarrow> rat + rat \<times> rate_limiter" where
  "track_ai_cost now input output model name l = (case add_operation now input output model name (rl_costs l) of
     Inl e \<Rightarrow> Inl e | Inr (cost, t) \<Rightarrow> Inr (cost, l\<lparr>rl_costs := t\<rparr>))"

definition check_cost_available :: "rate_limiter \<Rightarrow> bool \<times> rat" where
  "check_cost_available l = (let r = remaining_budget (rl_costs l) in if 0 < r then (True, r) else (False, co_total (rl_costs l)))"

definition record_github_error :: "rate_limiter \<Rightarrow> rate_limiter" where
  "record_github_error l = l\<lparr>rl_errors := Suc (rl_errors l)\<rparr>"

record limiter_statistics =
  ls_runtime :: rat
  ls_total_requests :: nat
  ls_rate_limited :: nat
  ls_errors :: nat
  ls_available :: int
  ls_per_second :: rat
  ls_total_cost :: rat
  ls_budget :: rat
  ls_remaining :: rat
  ls_operations :: nat

definition statistics :: "rat \<Rightarrow> rat \<Rightarrow> rate_limiter \<Rightarrow> limiter_statistics \<times> rate_limiter" where
  "statistics runtime now l = (case available now (rl_bucket l) of (k, b) \<Rightarrow>
     (\<lparr>ls_runtime = runtime, ls_total_requests = rl_requests l, ls_rate_limited = rl_limited l, ls_errors = rl_errors l,
        ls_available = k, ls_per_second = of_nat (rl_requests l) / max runtime 1, ls_total_cost = co_total (rl_costs l),
        ls_budget = co_limit (rl_costs l), ls_remaining = remaining_budget (rl_costs l),
        ls_operations = List.length (co_operations (rl_costs l))\<rparr>, l\<lparr>rl_bucket := b\<rparr>))"

section \<open>The retrying wrapper\<close>

text \<open>What an attempt comes to: an answer, or what it raised.  A failure carries its text.\<close>

datatype limit_reason = Bucket_empty gh_status | Host_refused string | Said string

datatype 'a attempt =
    Answered 'a
  | Cost_exceeded
  | Limit_exceeded limit_reason
  | Raised string

definition looks_limited :: "string \<Rightarrow> bool" where
  "looks_limited msg = (let m = lower msg in contains_str m ''403'' \<or> contains_str m ''429'' \<or> contains_str m ''rate limit'')"

definition backoff_delay :: "rat \<Rightarrow> rate_limiter \<Rightarrow> nat \<Rightarrow> rat" where
  "backoff_delay base l k = min (base * 2 ^ k) (rl_max_retry_delay l)"

text \<open>One attempt: the token first, for an operation on the host, then the call.  The wrapped function
  may use the limiter and takes its time.\<close>

definition one_attempt ::
  "(nat \<Rightarrow> rat) \<Rightarrow> (token_bucket \<times> clock \<Rightarrow> token_bucket \<times> clock) \<Rightarrow> (nat \<Rightarrow> rate_limiter \<times> clock \<Rightarrow> 'a attempt \<times> rate_limiter \<times> clock)
    \<Rightarrow> bool \<Rightarrow> nat \<Rightarrow> rate_limiter \<Rightarrow> clock \<Rightarrow> ('a attempt \<times> rate_limiter \<times> clock) option" where
  "one_attempt lag others func github k l c =
    (if \<not> github then Some (func k (l, c))
     else (case acquire_github lag others (Some (if k = 0 then 30 else rl_max_retry_delay l)) l c of
        None \<Rightarrow> None
      | Some (True, l', c') \<Rightarrow> Some (func k (l', c'))
      | Some (False, l', c') \<Rightarrow> (case check_github_available lag l' c' of ((_, msg), l2, c2) \<Rightarrow>
           Some (Limit_exceeded (Bucket_empty msg), l2, c2))))"

text \<open>\<open>left\<close> attempts may follow the \<open>k\<close>-th.\<close>

fun attempts_from ::
  "(nat \<Rightarrow> rat) \<Rightarrow> (token_bucket \<times> clock \<Rightarrow> token_bucket \<times> clock) \<Rightarrow> (nat \<Rightarrow> rate_limiter \<times> clock \<Rightarrow> 'a attempt \<times> rate_limiter \<times> clock)
    \<Rightarrow> bool \<Rightarrow> rat \<Rightarrow> nat \<Rightarrow> nat \<Rightarrow> rate_limiter \<Rightarrow> clock \<Rightarrow> ('a attempt \<times> rate_limiter \<times> clock) option" where
  "attempts_from lag others func github base k left l c = (case one_attempt lag others func github k l c of
     None \<Rightarrow> None
   | Some (Limit_exceeded why, l', c') \<Rightarrow>
       (case left of 0 \<Rightarrow> Some (Limit_exceeded why, l', c')
        | Suc m \<Rightarrow> attempts_from lag others func github base (Suc k) m l' (sleep_for (backoff_delay base l' k) c'))
   | Some (Raised msg, l', c') \<Rightarrow>
       (if \<not> looks_limited msg then Some (Raised msg, l', c')
        else (case left of 0 \<Rightarrow> Some (Limit_exceeded (Host_refused msg), record_github_error l', c')
          | Suc m \<Rightarrow> attempts_from lag others func github base (Suc k) m (record_github_error l')
              (sleep_for (backoff_delay base l' k) c')))
   | Some r \<Rightarrow> Some r)"

definition rate_limited ::
  "(nat \<Rightarrow> rat) \<Rightarrow> (token_bucket \<times> clock \<Rightarrow> token_bucket \<times> clock) \<Rightarrow> (nat \<Rightarrow> rate_limiter \<times> clock \<Rightarrow> 'a attempt \<times> rate_limiter \<times> clock)
    \<Rightarrow> bool \<Rightarrow> nat \<Rightarrow> rat \<Rightarrow> rate_limiter \<Rightarrow> clock \<Rightarrow> ('a attempt \<times> rate_limiter \<times> clock) option" where
  "rate_limited lag others func github max_retries base l c = attempts_from lag others func github base 0 max_retries l c"

datatype limit_check = Check_ok | Check_limited gh_status | Check_cost rat

definition check_rate_limit :: "(nat \<Rightarrow> rat) \<Rightarrow> string \<Rightarrow> rate_limiter \<Rightarrow> clock \<Rightarrow> limit_check \<times> rate_limiter \<times> clock" where
  "check_rate_limit lag kind l c =
    (if kind = ''github'' then (case check_github_available lag l c of ((ok, msg), l', c') \<Rightarrow> (if ok then Check_ok else Check_limited msg, l', c'))
     else if kind = ''cost'' then (case check_cost_available l of (ok, x) \<Rightarrow> (if ok then Check_ok else Check_cost x, l, c))
     else (Check_ok, l, c))"

section \<open>The bucket\<close>

definition bucket_ok :: "token_bucket \<Rightarrow> bool" where
  "bucket_ok b \<longleftrightarrow> 0 \<le> tb_refill_rate b \<and> 0 \<le> tb_tokens b \<and> tb_tokens b \<le> of_int (tb_capacity b)"

lemma refill_simps [simp]:
  "tb_capacity (refill now b) = tb_capacity b" "tb_refill_rate (refill now b) = tb_refill_rate b" "tb_last_refill (refill now b) = now"
  "tb_tokens (refill now b) = min (of_int (tb_capacity b)) (tb_tokens b + (now - tb_last_refill b) * tb_refill_rate b)"
  by (simp_all add: refill_def)

lemma try_acquire_simps [simp]:
  "tb_capacity (snd (try_acquire now n b)) = tb_capacity b" "tb_refill_rate (snd (try_acquire now n b)) = tb_refill_rate b"
  "tb_last_refill (snd (try_acquire now n b)) = now"
  by (simp_all add: try_acquire_def Let_def)

lemma refill_ok: "bucket_ok b \<Longrightarrow> tb_last_refill b \<le> now \<Longrightarrow> bucket_ok (refill now b)"
  by (simp add: bucket_ok_def)

lemma refill_bound: "tb_tokens (refill now b) \<le> tb_tokens b + (now - tb_last_refill b) * tb_refill_rate b"
  by simp

lemma try_acquire_step:
  assumes "bucket_ok b" "tb_last_refill b \<le> now" "0 \<le> n" "try_acquire now n b = (ok, b')"
  shows "bucket_ok b'" "of_int (if ok then n else 0) + tb_tokens b' \<le> tb_tokens b + (now - tb_last_refill b) * tb_refill_rate b"
  using refill_ok [OF assms(1,2)] assms(3,4)
  by (auto simp: try_acquire_def bucket_ok_def Let_def split: if_splits)

text \<open>The attempts on a bucket, by whichever tasks, with the times they read: what they were granted
  together.\<close>

fun attempts :: "(rat \<times> int) list \<Rightarrow> token_bucket \<Rightarrow> int \<times> token_bucket" where
  "attempts [] b = (0, b)"
| "attempts ((now, n) # as) b = (case try_acquire now n b of (ok, b1) \<Rightarrow>
     case attempts as b1 of (g, b') \<Rightarrow> ((if ok then n else 0) + g, b'))"

lemma attempts_bounded:
  assumes "bucket_ok b" "sorted (tb_last_refill b # map fst as)" "\<forall>(now, n)\<in>set as. 0 \<le> n" "attempts as b = (g, b')"
  shows "bucket_ok b' \<and> tb_capacity b' = tb_capacity b
    \<and> of_int g + tb_tokens b' \<le> tb_tokens b + (last (tb_last_refill b # map fst as) - tb_last_refill b) * tb_refill_rate b"
  using assms
proof (induction as arbitrary: b g)
  case (Cons a as)
  obtain now n ok b1 g1 where a: "a = (now, n)" and t: "try_acquire now n b = (ok, b1)" and r: "attempts as b1 = (g1, b')"
    and g: "g = (if ok then n else 0) + g1"
    using Cons.prems(4) by (cases a; cases "try_acquire (fst a) (snd a) b"; cases "attempts as (snd (try_acquire (fst a) (snd a) b))") auto
  have b1: "tb_capacity b1 = tb_capacity b" "tb_refill_rate b1 = tb_refill_rate b" "tb_last_refill b1 = now"
    using try_acquire_simps [of now n b] t by simp_all
  have step: "bucket_ok b1" "of_int (if ok then n else 0) + tb_tokens b1 \<le> tb_tokens b + (now - tb_last_refill b) * tb_refill_rate b"
    using try_acquire_step [OF Cons.prems(1) _ _ t] Cons.prems(2,3) a by auto
  have ih: "bucket_ok b' \<and> tb_capacity b' = tb_capacity b1
    \<and> of_int g1 + tb_tokens b' \<le> tb_tokens b1 + (last (tb_last_refill b1 # map fst as) - tb_last_refill b1) * tb_refill_rate b1"
    by (rule Cons.IH [OF step(1) _ _ r]) (use Cons.prems(2,3) a b1 in auto)
  then show ?case using step(2) g b1 a by (simp add: algebra_simps)
qed simp

section \<open>Waiting\<close>

lemma read_clock_time [simp]:
  "fst (read_clock lag c) = ck_time c + lag (ck_reads c)" "ck_time (snd (read_clock lag c)) = ck_time c + lag (ck_reads c)"
  by (simp_all add: read_clock_def Let_def)

lemma sleep_for_time [simp]: "ck_time (sleep_for d c) = ck_time c + max 0 d" "ck_reads (sleep_for d c) = ck_reads c"
  by (simp_all add: sleep_for_def)

lemma try_at_eq: "try_at lag n b c = (let t = ck_time c + lag (ck_reads c) in
    (fst (try_acquire t n b), snd (try_acquire t n b), \<lparr>ck_time = t, ck_reads = Suc (ck_reads c)\<rparr>))"
  by (simp add: try_at_def read_clock_def Let_def split: prod.splits)

text \<open>The loop of one attempt, one way to go on and two to end.\<close>

lemma acquire_loop_granted:
  "try_at lag n b c = (True, b1, c1) \<Longrightarrow> acquire_loop lag others n timeout start b c = Some (True, b1, c1)"
  by (subst acquire_loop.simps) simp

lemma acquire_loop_timed_out:
  "try_at lag n b c = (False, b1, c1) \<Longrightarrow> read_clock lag c1 = (now, c2) \<Longrightarrow> t \<le> now - start
    \<Longrightarrow> acquire_loop lag others n (Some t) start b c = Some (False, b1, c2)"
  by (subst acquire_loop.simps) simp

lemma acquire_loop_again:
  assumes "try_at lag n b c = (False, b1, c1)"
  shows "read_clock lag c1 = (now, c2) \<Longrightarrow> \<not> t \<le> now - start \<Longrightarrow> others (b1, sleep_for (wait_time n b1) c2) = (b', c')
      \<Longrightarrow> acquire_loop lag others n (Some t) start b c = acquire_loop lag others n (Some t) start b' c'"
    "others (b1, sleep_for (wait_time n b1) c1) = (b', c')
      \<Longrightarrow> acquire_loop lag others n None start b c = acquire_loop lag others n None start b' c'"
  by (subst acquire_loop.simps, simp add: assms)+

text \<open>What is asked of the environment: a reading comes at least \<open>\<delta>\<close> after what was before it, and the
  other tasks do not turn the clock back.\<close>

definition others_forward :: "(token_bucket \<times> clock \<Rightarrow> token_bucket \<times> clock) \<Rightarrow> bool" where
  "others_forward others \<longleftrightarrow> (\<forall>b c. ck_time c \<le> ck_time (snd (others (b, c))))"

lemma acquire_loop_ends:
  assumes \<delta>: "0 < \<delta>" "\<forall>k. \<delta> \<le> lag k" and fwd: "others_forward others"
  shows "nat \<lceil>(start + t - ck_time c) / \<delta>\<rceil> \<le> m \<Longrightarrow>
    \<exists>ok b' c'. acquire_loop lag others n (Some t) start b c = Some (ok, b', c') \<and> (ok \<or> start + t \<le> ck_time c')"
proof (induction m arbitrary: b c rule: less_induct)
  case (less m)
  obtain ok b1 c1 where att: "try_at lag n b c = (ok, b1, c1)" by (cases "try_at lag n b c")
  have c1: "ck_time c1 = ck_time c + lag (ck_reads c)" using att by (auto simp: try_at_eq Let_def)
  obtain now c2 where rd: "read_clock lag c1 = (now, c2)" by force
  have c2: "now = ck_time c1 + lag (ck_reads c1)" "ck_time c2 = now" using read_clock_time [of lag c1] rd by simp_all
  show ?case
  proof (cases "ok \<or> t \<le> now - start")
    case True
    then show ?thesis using att rd c2(2)
      by (cases ok) (auto simp: acquire_loop_granted acquire_loop_timed_out)
  next
    case False
    obtain b' c' where o: "others (b1, sleep_for (wait_time n b1) c2) = (b', c')" by force
    have "ck_time (sleep_for (wait_time n b1) c2) \<le> ck_time c'" using fwd o unfolding others_forward_def by (metis snd_conv)
    then have "ck_time c2 \<le> ck_time c'" by simp
    then have fw: "ck_time c + \<delta> \<le> ck_time c'" using c1 c2 \<delta>(1) \<delta>(2) [rule_format, of "ck_reads c"] \<delta>(2) [rule_format, of "ck_reads c1"] by linarith
    have pos: "0 < start + t - ck_time c" using False c1 c2 \<delta>(1) \<delta>(2) [rule_format, of "ck_reads c"] \<delta>(2) [rule_format, of "ck_reads c1"] by linarith
    have "(start + t - ck_time c') / \<delta> \<le> (start + t - ck_time c - \<delta>) / \<delta>"
      using fw \<delta>(1) by (intro divide_right_mono) auto
    then have "(start + t - ck_time c') / \<delta> \<le> (start + t - ck_time c) / \<delta> - 1"
      using \<delta>(1) by (simp add: diff_divide_distrib)
    moreover have "0 < (start + t - ck_time c) / \<delta>" using pos \<delta>(1) by simp
    ultimately have "nat \<lceil>(start + t - ck_time c') / \<delta>\<rceil> < nat \<lceil>(start + t - ck_time c) / \<delta>\<rceil>" by linarith
    then have "nat \<lceil>(start + t - ck_time c') / \<delta>\<rceil> < m" using less.prems by linarith
    from less.IH [OF this order_refl] show ?thesis using False att rd o by (simp add: acquire_loop_again(1))
  qed
qed






section \<open>Retrying\<close>

lemma acquire_github_ends:
  assumes "0 < \<delta>" "\<forall>k. \<delta> \<le> lag k" "others_forward others"
  shows "\<exists>ok l' c'. acquire_github lag others (Some t) l c = Some (ok, l', c')"
proof -
  obtain start c0 where rd: "read_clock lag c = (start, c0)" by force
  obtain ok b' c' where "acquire_loop lag others 1 (Some t) start (rl_bucket l) c0 = Some (ok, b', c')"
    using acquire_loop_ends [OF assms order_refl] by blast
  then show ?thesis using rd by (simp add: acquire_github_def acquire_def)
qed

lemma one_attempt_ends:
  assumes "0 < \<delta>" "\<forall>k. \<delta> \<le> lag k" "others_forward others"
  obtains r l' c' where "one_attempt lag others func github k l c = Some (r, l', c')"
    "(\<exists>s. fst (func k s) = r) \<or> (\<exists>msg. r = Limit_exceeded (Bucket_empty msg))"
proof (cases github)
  case False
  then show ?thesis using that [of "fst (func k (l, c))" "fst (snd (func k (l, c)))" "snd (snd (func k (l, c)))"] by (auto simp: one_attempt_def)
next
  case True
  obtain ok l' c' where a: "acquire_github lag others (Some (if k = 0 then 30 else rl_max_retry_delay l)) l c = Some (ok, l', c')"
    using acquire_github_ends [OF assms] by blast
  show ?thesis
  proof (cases ok)
    case True
    then show ?thesis using a \<open>github\<close> that [of "fst (func k (l', c'))" "fst (snd (func k (l', c')))" "snd (snd (func k (l', c')))"]
      by (auto simp: one_attempt_def simp del: if_split split: if_split)
  next
    case False
    obtain av msg l2 c2 where "check_github_available lag l' c' = ((av, msg), l2, c2)" by (metis surj_pair)
    then show ?thesis using a \<open>github\<close> False that [of "Limit_exceeded (Bucket_empty msg)" l2 c2]
      by (simp add: one_attempt_def)
  qed
qed

definition came_from :: "(nat \<Rightarrow> rate_limiter \<times> clock \<Rightarrow> 'a attempt \<times> rate_limiter \<times> clock) \<Rightarrow> nat \<Rightarrow> nat \<Rightarrow> 'a attempt \<Rightarrow> bool" where
  "came_from func lo hi r \<longleftrightarrow> (\<exists>k s. lo \<le> k \<and> k \<le> hi \<and> fst (func k s) = r)"

definition outcome_of :: "(nat \<Rightarrow> rate_limiter \<times> clock \<Rightarrow> 'a attempt \<times> rate_limiter \<times> clock) \<Rightarrow> nat \<Rightarrow> nat \<Rightarrow> 'a attempt \<Rightarrow> bool" where
  "outcome_of func lo hi r \<longleftrightarrow> (case r of
     Limit_exceeded why \<Rightarrow> (\<exists>st. why = Bucket_empty st) \<or> came_from func hi hi r
       \<or> (\<exists>msg. why = Host_refused msg \<and> looks_limited msg \<and> came_from func hi hi (Raised msg))
   | Raised msg \<Rightarrow> \<not> looks_limited msg \<and> came_from func lo hi r
   | _ \<Rightarrow> came_from func lo hi r)"

lemma came_now: "fst (func k s) = r \<Longrightarrow> k \<le> hi \<Longrightarrow> came_from func k hi r"
  unfolding came_from_def by blast

lemma came_later: "came_from func (Suc lo) hi r \<Longrightarrow> came_from func lo hi r"
  unfolding came_from_def using Suc_leD by blast

lemma outcome_of_later: "outcome_of func (Suc lo) hi r \<Longrightarrow> outcome_of func lo hi r"
  by (cases r) (auto simp: outcome_of_def intro: came_later)

lemma attempts_from_ends:
  assumes env: "0 < \<delta>" "\<forall>k. \<delta> \<le> lag k" "others_forward others"
  shows "\<exists>r l' c'. attempts_from lag others func github base k left l c = Some (r, l', c') \<and> outcome_of func k (k + left) r"
proof (induction left arbitrary: k l c)
  case 0
  obtain r l' c' where a: "one_attempt lag others func github k l c = Some (r, l', c')"
    "(\<exists>s. fst (func k s) = r) \<or> (\<exists>msg. r = Limit_exceeded (Bucket_empty msg))"
    by (rule one_attempt_ends [OF env])
  then show ?case using came_now [of func k _ r k] by (cases r) (auto simp: outcome_of_def)
next
  case (Suc left)
  obtain r l' c' where a: "one_attempt lag others func github k l c = Some (r, l', c')"
    "(\<exists>s. fst (func k s) = r) \<or> (\<exists>msg. r = Limit_exceeded (Bucket_empty msg))"
    by (rule one_attempt_ends [OF env])
  have ih: "\<exists>r l' c'. attempts_from lag others func github base (Suc k) left l1 c1 = Some (r, l', c') \<and> outcome_of func k (Suc (k + left)) r" for l1 c1
    using Suc.IH [of "Suc k" l1 c1] outcome_of_later [of func k "Suc (k + left)"] by auto
  show ?case
  proof (cases "(\<exists>why. r = Limit_exceeded why) \<or> (\<exists>msg. r = Raised msg \<and> looks_limited msg)")
    case True
    then show ?thesis using a(1) ih by auto
  next
    case False
    then show ?thesis using a came_now [of func k _ r "Suc (k + left)"] by (cases r) (auto simp: outcome_of_def)
  qed
qed

section \<open>Properties\<close>

text \<open>C36: however many tasks use it, the bucket grants no more than it holds and what has flowed in.
  Over any sequence of attempts at times that do not decrease, the tokens granted are at most
  what the bucket held plus the rate times the time, so at most its capacity plus that in any
  window, and what it holds stays between nothing and its capacity.\<close>

theorem bucket_never_overspends:
  assumes "bucket_ok b" "sorted (tb_last_refill b # map fst as)" "\<forall>(now, n)\<in>set as. 0 \<le> n"
  shows "(let (granted, b') = attempts as b; span = last (tb_last_refill b # map fst as) - tb_last_refill b in
     of_int granted + tb_tokens b' \<le> tb_tokens b + span * tb_refill_rate b
     \<and> of_int granted \<le> of_int (tb_capacity b) + span * tb_refill_rate b
     \<and> 0 \<le> tb_tokens b' \<and> tb_tokens b' \<le> of_int (tb_capacity b))"
proof -
  obtain g b' where r: "attempts as b = (g, b')" by force
  show ?thesis using attempts_bounded [OF assms r] assms(1) r by (auto simp: bucket_ok_def Let_def)
qed

theorem bucket_never_overspends_witness:
  "fst (attempts [(0, 1), (0, 1), (1, 1)] (new_bucket 1 (1/2) 0)) \<le> 1"
proof -
  have "of_int (fst (attempts [(0, 1), (0, 1), (1, 1)] (new_bucket 1 (1/2) 0))) \<le> (3/2 :: rat)"
    using bucket_never_overspends [of "new_bucket 1 (1/2) 0" "[(0, 1), (0, 1), (1, 1)]"]
    by (auto simp: new_bucket_def bucket_ok_def Let_def split: prod.splits)
  then show ?thesis by linarith
qed



definition ex_clock :: clock where
  "ex_clock = \<lparr>ck_time = 0, ck_reads = 0\<rparr>"


text \<open>A retried call ends.  It makes at most one attempt more than it may retry, and ends with what
  one of them gave: an answer, a hard stop or another failure of any of them, or, when the
  last one was refused for the rate, the limit error.  No refusal of the host comes out as
  itself.\<close>

theorem retries_end:
  assumes "0 < \<delta>" "\<forall>k. \<delta> \<le> lag k" "others_forward others"
  shows "\<exists>r l' c'. rate_limited lag others func github max_retries base l c = Some (r, l', c') \<and> outcome_of func 0 max_retries r"
  using attempts_from_ends [OF assms, of func github base 0 max_retries l c] by (simp add: rate_limited_def)

definition ex_limiter :: rate_limiter where
  "ex_limiter = new_limiter \<lparr>lf_github_limit = 5000, lf_refill_rate = 7/5, lf_cost_limit = 10, lf_max_retry_delay = 300\<rparr> 0"

theorem retries_end_witness:
  "\<exists>l' c'. rate_limited (\<lambda>_. 1/10) (\<lambda>s. s) (\<lambda>k s. (Raised ''issue 4031 is locked'' :: nat attempt, s)) True 3 1 ex_limiter
      ex_clock = Some (Limit_exceeded (Host_refused ''issue 4031 is locked''), l', c')
    \<or> (\<exists>st. rate_limited (\<lambda>_. 1/10) (\<lambda>s. s) (\<lambda>k s. (Raised ''issue 4031 is locked'' :: nat attempt, s)) True 3 1 ex_limiter
      ex_clock = Some (Limit_exceeded (Bucket_empty st), l', c'))"
proof -
  have "looks_limited ''issue 4031 is locked''" by code_simp
  moreover obtain r l' c' where "rate_limited (\<lambda>_. 1/10) (\<lambda>s. s) (\<lambda>k s. (Raised ''issue 4031 is locked'' :: nat attempt, s)) True 3 1 ex_limiter ex_clock
      = Some (r, l', c')" "outcome_of (\<lambda>k s. (Raised ''issue 4031 is locked'' :: nat attempt, s)) 0 3 r"
    using retries_end [of "1/10" "\<lambda>_. 1/10" "\<lambda>s. s" "\<lambda>k s. (Raised ''issue 4031 is locked'' :: nat attempt, s)" True 3 1 ex_limiter ex_clock]
    by (auto simp: others_forward_def)
  ultimately show ?thesis by (cases r) (auto simp: outcome_of_def came_from_def)
qed

text \<open>The budget: what is spent is the sum of what was recorded, and stays within the limit.\<close>

definition budget_ok :: "cost_tracker \<Rightarrow> bool" where
  "budget_ok t \<longleftrightarrow> co_total t \<le> co_limit t \<and> co_total t = sum_list (map ao_cost (co_operations t))"

lemma add_operation_keeps_budget:
  "budget_ok t \<Longrightarrow> add_operation now i out model name t = Inr (cost, t') \<Longrightarrow> budget_ok t' \<and> co_limit t' = co_limit t"
  by (auto simp: add_operation_def budget_ok_def Let_def split: if_splits)

text \<open>An object constructed while another was initialised and kept as the instance is empty for good.\<close>

lemma constructed_directly_breaks_the_instance:
  "lc_instance k = None \<Longrightarrow> fst (get_instance f' now' (snd (construct f now k))) = None"
  by (simp add: construct_def get_instance_def)

end
