(* ===== verification/GhClient.thy ===== *)
theory GhClient
  imports RateLimiter
begin

text \<open>
  The client of the \<open>gh\<close> command, \<open>runners/github/gh_client.py\<close>: one command with its token, its
  timeout and its retries, and the methods that build a command line and read its answer.

  The environment \<open>gh_env\<close> is the clock and the other tasks of the limiter, the process that a
  command line starts (\<open>ge_exec\<close>), \<open>json.loads\<close> and \<open>datetime.fromisoformat\<close>, \<open>None\<close> where they
  raise.  The state is the limiter with the clock.  An operation that waits forever is \<open>None\<close>.
\<close>

section \<open>One command\<close>

datatype gh_process = Exited int string string | Hung | Crashed string

record gh_client =
  gk_default_timeout :: rat
  gk_max_retries :: nat
  gk_limiting :: bool
  gk_repo :: "string option"

record gh_env =
  ge_lag :: "nat \<Rightarrow> rat"
  ge_others :: "token_bucket \<times> clock \<Rightarrow> token_bucket \<times> clock"
  ge_exec :: "clock \<Rightarrow> string list \<Rightarrow> rat \<Rightarrow> gh_process"
  ge_loads :: "string \<Rightarrow> json option"
  ge_iso :: "string \<Rightarrow> pydatetime option"

record gh_result =
  gr_stdout :: string
  gr_stderr :: string
  gr_returncode :: int
  gr_command :: "string list"
  gr_attempts :: nat
  gr_total_time :: rat

text \<open>\<open>Bad_json\<close> is \<open>JSONDecodeError\<close>; \<open>Bad_shape\<close> is the type, key or value error of an answer that is not
  shaped as expected.\<close>

datatype gh_error =
    GHTimeout "string list" nat rat
  | GHCommand string
  | GHLimited limit_reason
  | PRTooLarge int
  | Bad_json string
  | Bad_shape

type_synonym gh_state = "rate_limiter \<times> clock"
type_synonym 'a gh_m = "gh_state \<Rightarrow> ((gh_error + 'a) \<times> gh_state) option"

definition gh_return :: "gh_error + 'a \<Rightarrow> 'a gh_m" where
  "gh_return r s = Some (r, s)"

definition gh_bind :: "'a gh_m \<Rightarrow> ('a \<Rightarrow> 'b gh_m) \<Rightarrow> 'b gh_m" where
  "gh_bind m f s = (case m s of None \<Rightarrow> None | Some (Inl e, s') \<Rightarrow> Some (Inl e, s') | Some (Inr x, s') \<Rightarrow> f x s')"

text \<open>Before the first attempt: the token.  Where the check saw one, its acquisition is not looked at.\<close>

definition preflight :: "gh_env \<Rightarrow> gh_client \<Rightarrow> unit gh_m" where
  "preflight env k s = (if \<not> gk_limiting k then Some (Inr (), s)
     else (case check_github_available (ge_lag env) (fst s) (snd s) of ((ok, msg), l, c) \<Rightarrow>
       case acquire_github (ge_lag env) (ge_others env) (Some (if ok then 1 else 30)) l c of
         None \<Rightarrow> None
       | Some (got, l', c') \<Rightarrow> Some (if ok \<or> got then Inr () else Inl (GHLimited (Bucket_empty msg)), (l', c'))))"

definition stderr_limited :: "string \<Rightarrow> bool" where
  "stderr_limited err \<longleftrightarrow> contains_str err ''403'' \<or> contains_str err ''429'' \<or> contains_str (lower err) ''rate limit''"

definition verb :: "string list \<Rightarrow> string" where
  "verb args = (case args of [] \<Rightarrow> [] | a # _ \<Rightarrow> a)"

definition failed_text :: "string list \<Rightarrow> string \<Rightarrow> string" where
  "failed_text args msg = ''gh '' @ verb args @ '' failed: '' @ msg"

text \<open>What an attempt that was not cut off comes to.\<close>

definition finish ::
  "gh_client \<Rightarrow> string list \<Rightarrow> bool \<Rightarrow> nat \<Rightarrow> rat \<Rightarrow> int \<Rightarrow> string \<Rightarrow> string \<Rightarrow> rate_limiter \<Rightarrow> (gh_error + gh_result) \<times> rate_limiter" where
  "finish k args strict n took code out err l =
    (if code \<noteq> 0 \<and> stderr_limited err
     then (Inl (GHLimited (Host_refused err)), if gk_limiting k then record_github_error l else l)
     else if code \<noteq> 0 \<and> strict then (Inl (GHCommand (failed_text args (if err = [] then ''Unknown error'' else err))), l)
     else (Inr \<lparr>gr_stdout = out, gr_stderr = err, gr_returncode = code, gr_command = ''gh'' # args, gr_attempts = n, gr_total_time = took\<rparr>, l))"

text \<open>\<open>left\<close> attempts follow the \<open>n\<close>-th.\<close>

fun run_from ::
  "gh_env \<Rightarrow> gh_client \<Rightarrow> string list \<Rightarrow> rat \<Rightarrow> bool \<Rightarrow> rat \<Rightarrow> nat \<Rightarrow> nat \<Rightarrow> rate_limiter \<Rightarrow> clock \<Rightarrow> (gh_error + gh_result) \<times> gh_state" where
  "run_from env k args timeout strict start n left l c = (case ge_exec env c (''gh'' # args) timeout of
     Hung \<Rightarrow> (case left of
        Suc m \<Rightarrow> run_from env k args timeout strict start (Suc n) m l (sleep_for (2 ^ (n - 1)) (sleep_for timeout c))
      | 0 \<Rightarrow> (case read_clock (ge_lag env) (sleep_for timeout c) of (now, c') \<Rightarrow>
          (Inl (GHTimeout args (gk_max_retries k) (now - start)), (l, c'))))
   | Exited code out err \<Rightarrow> (case read_clock (ge_lag env) c of (now, c') \<Rightarrow>
        case finish k args strict n (now - start) code out err l of (r, l') \<Rightarrow> (r, (l', c')))
   | Crashed e \<Rightarrow> (case left of
        Suc m \<Rightarrow> run_from env k args timeout strict start (Suc n) m l (sleep_for (2 ^ (n - 1)) c)
      | 0 \<Rightarrow> (Inl (GHCommand (failed_text args e)), (l, c))))"

definition time_limit :: "gh_client \<Rightarrow> rat option \<Rightarrow> rat" where
  "time_limit k timeout = (case timeout of Some t \<Rightarrow> if t = 0 then gk_default_timeout k else t | None \<Rightarrow> gk_default_timeout k)"

definition gh_run :: "gh_env \<Rightarrow> gh_client \<Rightarrow> string list \<Rightarrow> rat option \<Rightarrow> bool \<Rightarrow> gh_result gh_m" where
  "gh_run env k args timeout strict s = (case read_clock (ge_lag env) (snd s) of (start, c0) \<Rightarrow>
      gh_bind (preflight env k) (\<lambda>_ (l, c). Some (case gk_max_retries k of
          0 \<Rightarrow> (Inl (GHCommand (''gh '' @ verb args @ '' failed after 0 attempts'')), (l, c))
        | Suc m \<Rightarrow> run_from env k args (time_limit k timeout) strict start 1 m l c)) (fst s, c0))"

section \<open>Command lines\<close>

definition add_repo_flag :: "gh_client \<Rightarrow> string list \<Rightarrow> string list" where
  "add_repo_flag k args = (if truthy (gk_repo k) then args @ [''-R'', the (gk_repo k)] else args)"

definition fields_arg :: "string list \<Rightarrow> string list option \<Rightarrow> string" where
  "fields_arg dflt chosen = join_with '','' (case chosen of Some fs \<Rightarrow> fs | None \<Rightarrow> dflt)"

definition pr_list_args :: "string \<Rightarrow> int \<Rightarrow> string list option \<Rightarrow> string list" where
  "pr_list_args state limit chosen = [''pr'', ''list'', ''--state'', state, ''--limit'', str_of_int limit, ''--json'',
     fields_arg [''number'', ''title'', ''state'', ''author'', ''headRefName'', ''baseRefName''] chosen]"

definition pr_get_args :: "int \<Rightarrow> string list option \<Rightarrow> string list" where
  "pr_get_args n chosen = [''pr'', ''view'', str_of_int n, ''--json'',
     fields_arg [''number'', ''title'', ''body'', ''state'', ''headRefName'', ''baseRefName'', ''author'', ''files'', ''additions'',
       ''deletions'', ''changedFiles''] chosen]"

definition pr_review_args :: "int \<Rightarrow> string \<Rightarrow> string \<Rightarrow> string list" where
  "pr_review_args n body event = [''pr'', ''review'', str_of_int n,
     (if lower event = ''approve'' then ''--approve''
      else if lower event \<in> {''request-changes'', ''request_changes''} then ''--request-changes'' else ''--comment''),
     ''--body'', body]"

definition issue_list_args :: "string \<Rightarrow> int \<Rightarrow> string list option \<Rightarrow> string list" where
  "issue_list_args state limit chosen = [''issue'', ''list'', ''--state'', state, ''--limit'', str_of_int limit, ''--json'',
     fields_arg [''number'', ''title'', ''body'', ''labels'', ''author'', ''createdAt'', ''updatedAt'', ''comments''] chosen]"

definition issue_get_args :: "int \<Rightarrow> string list option \<Rightarrow> string list" where
  "issue_get_args n chosen = [''issue'', ''view'', str_of_int n, ''--json'',
     fields_arg [''number'', ''title'', ''body'', ''state'', ''labels'', ''author'', ''comments'', ''createdAt'', ''updatedAt''] chosen]"

definition pr_merge_args :: "int \<Rightarrow> string \<Rightarrow> string option \<Rightarrow> string option \<Rightarrow> string list" where
  "pr_merge_args n how title message = [''pr'', ''merge'', str_of_int n, ''--'' @ how]
     @ (if truthy title then [''--subject'', the title] else []) @ (if truthy message then [''--body'', the message] else [])"

definition api_get_args :: "string \<Rightarrow> (string, string) dict \<Rightarrow> string list" where
  "api_get_args endpoint params = [''api'', endpoint] @ concat (map (\<lambda>(k, v). [''-f'', k @ ''='' @ v]) params)"

definition repo_endpoint :: "string \<Rightarrow> string" where
  "repo_endpoint path = ''repos/{owner}/{repo}/'' @ path"

definition pr_assign_args :: "int \<Rightarrow> string list \<Rightarrow> string list" where
  "pr_assign_args n who = [''api'', ''/'' @ repo_endpoint (''issues/'' @ str_of_int n @ ''/assignees''), ''-X'', ''POST'', ''-f'',
     ''assignees='' @ join_with '','' who]"

section \<open>Methods\<close>

definition gh_loads :: "gh_env \<Rightarrow> string \<Rightarrow> json gh_m" where
  "gh_loads env text = gh_return (case ge_loads env text of None \<Rightarrow> Inl (Bad_json text) | Some j \<Rightarrow> Inr j)"

definition gh_json :: "gh_env \<Rightarrow> gh_client \<Rightarrow> string list \<Rightarrow> rat option \<Rightarrow> json gh_m" where
  "gh_json env k args timeout = gh_bind (gh_run env k args timeout True) (\<lambda>r. gh_loads env (gr_stdout r))"

definition gh_do :: "gh_env \<Rightarrow> gh_client \<Rightarrow> string list \<Rightarrow> bool \<Rightarrow> unit gh_m" where
  "gh_do env k args strict = gh_bind (gh_run env k args None strict) (\<lambda>_. gh_return (Inr ()))"

definition pr_list :: "gh_env \<Rightarrow> gh_client \<Rightarrow> string \<Rightarrow> int \<Rightarrow> string list option \<Rightarrow> json gh_m" where
  "pr_list env k state limit chosen = gh_json env k (add_repo_flag k (pr_list_args state limit chosen)) None"

definition pr_get :: "gh_env \<Rightarrow> gh_client \<Rightarrow> int \<Rightarrow> string list option \<Rightarrow> json gh_m" where
  "pr_get env k n chosen = gh_json env k (add_repo_flag k (pr_get_args n chosen)) None"

definition too_large :: "int \<Rightarrow> gh_error \<Rightarrow> gh_error" where
  "too_large n e = (case e of
     GHCommand msg \<Rightarrow> if contains_str msg ''diff exceeded the maximum number of lines'' \<or> contains_str msg ''HTTP 406'' then PRTooLarge n else e
   | _ \<Rightarrow> e)"

definition pr_diff :: "gh_env \<Rightarrow> gh_client \<Rightarrow> int \<Rightarrow> string gh_m" where
  "pr_diff env k n s = map_option (\<lambda>(r, s'). (case r of Inl e \<Rightarrow> Inl (too_large n e) | Inr x \<Rightarrow> Inr (gr_stdout x), s'))
     (gh_run env k (add_repo_flag k [''pr'', ''diff'', str_of_int n]) None True s)"

definition pr_review :: "gh_env \<Rightarrow> gh_client \<Rightarrow> int \<Rightarrow> string \<Rightarrow> string \<Rightarrow> int gh_m" where
  "pr_review env k n body event = gh_bind (gh_do env k (add_repo_flag k (pr_review_args n body event)) True) (\<lambda>_. gh_return (Inr 0))"

definition issue_list :: "gh_env \<Rightarrow> gh_client \<Rightarrow> string \<Rightarrow> int \<Rightarrow> string list option \<Rightarrow> json gh_m" where
  "issue_list env k state limit chosen = gh_json env k (issue_list_args state limit chosen) None"

definition issue_get :: "gh_env \<Rightarrow> gh_client \<Rightarrow> int \<Rightarrow> string list option \<Rightarrow> json gh_m" where
  "issue_get env k n chosen = gh_json env k (issue_get_args n chosen) None"

definition issue_comment :: "gh_env \<Rightarrow> gh_client \<Rightarrow> int \<Rightarrow> string \<Rightarrow> unit gh_m" where
  "issue_comment env k n body = gh_do env k [''issue'', ''comment'', str_of_int n, ''--body'', body] True"

definition issue_add_labels :: "gh_env \<Rightarrow> gh_client \<Rightarrow> int \<Rightarrow> string list \<Rightarrow> unit gh_m" where
  "issue_add_labels env k n labels = (if labels = [] then gh_return (Inr ())
     else gh_do env k [''issue'', ''edit'', str_of_int n, ''--add-label'', join_with '','' labels] True)"

definition issue_remove_labels :: "gh_env \<Rightarrow> gh_client \<Rightarrow> int \<Rightarrow> string list \<Rightarrow> unit gh_m" where
  "issue_remove_labels env k n labels = (if labels = [] then gh_return (Inr ())
     else gh_do env k [''issue'', ''edit'', str_of_int n, ''--remove-label'', join_with '','' labels] False)"

definition api_get :: "gh_env \<Rightarrow> gh_client \<Rightarrow> string \<Rightarrow> (string, string) dict \<Rightarrow> json gh_m" where
  "api_get env k endpoint params = gh_json env k (api_get_args endpoint params) None"

definition pr_merge :: "gh_env \<Rightarrow> gh_client \<Rightarrow> int \<Rightarrow> string \<Rightarrow> string option \<Rightarrow> string option \<Rightarrow> unit gh_m" where
  "pr_merge env k n how title message = gh_do env k (add_repo_flag k (pr_merge_args n how title message)) True"

definition pr_comment :: "gh_env \<Rightarrow> gh_client \<Rightarrow> int \<Rightarrow> string \<Rightarrow> unit gh_m" where
  "pr_comment env k n body = gh_do env k (add_repo_flag k [''pr'', ''comment'', str_of_int n, ''--body'', body]) True"

definition jfield :: "json \<Rightarrow> string \<Rightarrow> json option" where
  "jfield j name = (case j of JObj ps \<Rightarrow> dget ps name | _ \<Rightarrow> None)"

fun is_object :: "json \<Rightarrow> bool" where
  "is_object (JObj ps) = True"
| "is_object _ = False"

text \<open>What a \<open>for\<close> loop or \<open>list.extend\<close> takes from a value; \<open>None\<close> is \<open>TypeError\<close>.\<close>

fun iterated :: "json \<Rightarrow> json list option" where
  "iterated (JArr xs) = Some xs"
| "iterated (JObj ps) = Some (map (JStr \<circ> fst) ps)"
| "iterated (JStr s) = Some (map (\<lambda>c. JStr [c]) s)"
| "iterated _ = None"

fun logins :: "json list \<Rightarrow> json list option" where
  "logins [] = Some []"
| "logins (a # as) = (case jfield a ''login'' of None \<Rightarrow> None | Some l \<Rightarrow> map_option (Cons l) (logins as))"

definition assignees_of :: "json \<Rightarrow> gh_error + json list" where
  "assignees_of data = (if \<not> is_object data then Inl Bad_shape
     else (case jfield data ''assignees'' of None \<Rightarrow> Inr []
       | Some v \<Rightarrow> (case Option.bind (iterated v) logins of None \<Rightarrow> Inl Bad_shape | Some ls \<Rightarrow> Inr ls)))"

definition pr_get_assignees :: "gh_env \<Rightarrow> gh_client \<Rightarrow> int \<Rightarrow> json list gh_m" where
  "pr_get_assignees env k n = gh_bind (pr_get env k n (Some [''assignees''])) (\<lambda>data. gh_return (assignees_of data))"

definition pr_assign :: "gh_env \<Rightarrow> gh_client \<Rightarrow> int \<Rightarrow> string list \<Rightarrow> unit gh_m" where
  "pr_assign env k n who = (if who = [] then gh_return (Inr ()) else gh_do env k (pr_assign_args n who) True)"

definition compare_commits :: "gh_env \<Rightarrow> gh_client \<Rightarrow> string \<Rightarrow> string \<Rightarrow> json gh_m" where
  "compare_commits env k base head = gh_json env k [''api'', repo_endpoint (''compare/'' @ base @ ''...'' @ head)] (Some 60)"

section \<open>Comments and reviews since a time\<close>

text \<open>An endpoint whose failure is passed over: a failed command and unreadable text are no answer.\<close>

definition read_quietly :: "gh_env \<Rightarrow> gh_client \<Rightarrow> string \<Rightarrow> json option gh_m" where
  "read_quietly env k endpoint = gh_bind (gh_run env k [''api'', ''--method'', ''GET'', endpoint] None False)
     (\<lambda>r. gh_return (Inr (if gr_returncode r = 0 then ge_loads env (gr_stdout r) else None)))"

definition get_comments_since :: "gh_env \<Rightarrow> gh_client \<Rightarrow> int \<Rightarrow> string \<Rightarrow> (json \<times> json) gh_m" where
  "get_comments_since env k n since =
    gh_bind (read_quietly env k (repo_endpoint (''pulls/'' @ str_of_int n @ ''/comments?since='' @ since))) (\<lambda>reviews.
    gh_bind (read_quietly env k (repo_endpoint (''issues/'' @ str_of_int n @ ''/comments?since='' @ since))) (\<lambda>issues.
    gh_return (Inr (case reviews of None \<Rightarrow> JArr [] | Some j \<Rightarrow> j, case issues of None \<Rightarrow> JArr [] | Some j \<Rightarrow> j))))"

definition zulu :: "string \<Rightarrow> string" where
  "zulu s = concat (map (\<lambda>c. if c = CHR ''Z'' then ''+00:00'' else [c]) s)"

text \<open>Whether a review counts: one without a date does not, one with an unreadable date does.  \<open>None\<close>
  where reading the review raises.\<close>

definition review_after :: "gh_env \<Rightarrow> int \<Rightarrow> json \<Rightarrow> bool option" where
  "review_after env since review = (if \<not> is_object review then None
     else (case jfield review ''submitted_at'' of
        None \<Rightarrow> Some False
      | Some j \<Rightarrow> if \<not> jtruthy j then Some False
          else (case j of
             JStr s \<Rightarrow> Some (case ge_iso env (zulu s) of None \<Rightarrow> True | Some d \<Rightarrow> since < wall d)
           | _ \<Rightarrow> None)))"

fun reviews_after :: "gh_env \<Rightarrow> int \<Rightarrow> json list \<Rightarrow> json list option" where
  "reviews_after env since [] = Some []"
| "reviews_after env since (r # rs) = (case review_after env since r of
     None \<Rightarrow> None | Some keep \<Rightarrow> map_option (\<lambda>xs. if keep then r # xs else xs) (reviews_after env since rs))"

definition get_reviews_since :: "gh_env \<Rightarrow> gh_client \<Rightarrow> int \<Rightarrow> string \<Rightarrow> json list gh_m" where
  "get_reviews_since env k n since = gh_bind (read_quietly env k (repo_endpoint (''pulls/'' @ str_of_int n @ ''/reviews'')))
     (\<lambda>answer. gh_return (case answer of
        None \<Rightarrow> Inr []
      | Some j \<Rightarrow> (case ge_iso env (zulu since) of
           None \<Rightarrow> Inl Bad_shape
         | Some d \<Rightarrow> (case Option.bind (iterated j) (reviews_after env (wall d)) of None \<Rightarrow> Inl Bad_shape | Some rs \<Rightarrow> Inr rs))))"

definition get_pr_head_sha :: "gh_env \<Rightarrow> gh_client \<Rightarrow> int \<Rightarrow> json option gh_m" where
  "get_pr_head_sha env k n = gh_bind (pr_get env k n (Some [''headRefOid''])) (\<lambda>data. gh_return
     (if \<not> is_object data then Inl Bad_shape
      else Inr (case jfield data ''headRefOid'' of None \<Rightarrow> None | Some j \<Rightarrow> if jtruthy j then Some j else None)))"

section \<open>Checks\<close>

record pr_checks =
  pc_checks :: "json list"
  pc_passing :: nat
  pc_failing :: nat
  pc_pending :: nat
  pc_failed :: "json list"
  pc_error :: "gh_error option"

definition upper_char :: "char \<Rightarrow> char" where
  "upper_char c = (let n = (of_char c :: nat) in if 97 \<le> n \<and> n \<le> 122 then char_of (n - 32) else c)"

text \<open>\<open>check.get("state", "").upper()\<close>, for the letters of a check state; \<open>None\<close> where it raises.\<close>

definition check_state :: "json \<Rightarrow> string option" where
  "check_state j = (if \<not> is_object j then None
     else (case jfield j ''state'' of None \<Rightarrow> Some [] | Some (JStr s) \<Rightarrow> Some (map upper_char s) | Some _ \<Rightarrow> None))"

definition check_name :: "json \<Rightarrow> json" where
  "check_name j = (case jfield j ''name'' of None \<Rightarrow> JStr ''Unknown'' | Some v \<Rightarrow> v)"

definition count_check :: "json \<Rightarrow> string \<Rightarrow> pr_checks \<Rightarrow> pr_checks" where
  "count_check j state p =
    (if state \<in> {''SUCCESS'', ''NEUTRAL'', ''SKIPPED''} then p\<lparr>pc_passing := Suc (pc_passing p)\<rparr>
     else if state \<in> {''FAILURE'', ''TIMED_OUT'', ''CANCELLED'', ''STARTUP_FAILURE''}
     then p\<lparr>pc_failing := Suc (pc_failing p), pc_failed := pc_failed p @ [check_name j]\<rparr>
     else p\<lparr>pc_pending := Suc (pc_pending p)\<rparr>)"

fun count_checks :: "json list \<Rightarrow> pr_checks \<Rightarrow> pr_checks option" where
  "count_checks [] p = Some p"
| "count_checks (j # js) p = (case check_state j of None \<Rightarrow> None | Some st \<Rightarrow> count_checks js (count_check j st p))"

definition no_checks :: pr_checks where
  "no_checks = \<lparr>pc_checks = [], pc_passing = 0, pc_failing = 0, pc_pending = 0, pc_failed = [], pc_error = None\<rparr>"

text \<open>\<open>json.loads(text) if text.strip() else []\<close>.\<close>

definition loads_or_empty :: "gh_env \<Rightarrow> string \<Rightarrow> json gh_m" where
  "loads_or_empty env text = (if strip text = [] then gh_return (Inr (JArr [])) else gh_loads env text)"

definition tally_checks :: "json \<Rightarrow> gh_error + pr_checks" where
  "tally_checks j = (case iterated j of None \<Rightarrow> Inl Bad_shape
     | Some js \<Rightarrow> (case count_checks js (no_checks\<lparr>pc_checks := js\<rparr>) of None \<Rightarrow> Inl Bad_shape | Some p \<Rightarrow> Inr p))"

definition checks_failure :: "gh_error \<Rightarrow> gh_error + pr_checks" where
  "checks_failure e = (case e of
     GHCommand msg \<Rightarrow> Inr (no_checks\<lparr>pc_error := Some e\<rparr>)
   | GHTimeout args n t \<Rightarrow> Inr (no_checks\<lparr>pc_error := Some e\<rparr>)
   | Bad_json text \<Rightarrow> Inr (no_checks\<lparr>pc_error := Some e\<rparr>)
   | _ \<Rightarrow> Inl e)"

definition get_pr_checks :: "gh_env \<Rightarrow> gh_client \<Rightarrow> int \<Rightarrow> pr_checks gh_m" where
  "get_pr_checks env k n s = map_option (\<lambda>(r, s'). (case r of Inl e \<Rightarrow> checks_failure e | Inr p \<Rightarrow> Inr p, s'))
     (gh_bind (gh_run env k (add_repo_flag k [''pr'', ''checks'', str_of_int n, ''--json'', ''name,state'']) (Some 30) True) (\<lambda>r.
      gh_bind (loads_or_empty env (gr_stdout r)) (\<lambda>j. gh_return (tally_checks j))) s)"

section \<open>Pages\<close>

definition PER_PAGE :: nat where "PER_PAGE = 100"

definition page_endpoint :: "int \<Rightarrow> string \<Rightarrow> nat \<Rightarrow> string" where
  "page_endpoint n what page = repo_endpoint (''pulls/'' @ str_of_int n @ ''/'' @ what @ ''?page='' @ str_of_int (int page)
     @ ''&per_page='' @ str_of_int (int PER_PAGE))"

text \<open>\<open>len\<close> of a truthy answer and what \<open>extend\<close> takes of it.\<close>

definition page_items :: "json \<Rightarrow> gh_error + json list" where
  "page_items j = (if \<not> jtruthy j then Inr [] else (case iterated j of None \<Rightarrow> Inl Bad_shape | Some xs \<Rightarrow> Inr xs))"

text \<open>\<open>left\<close> pages may still be read.\<close>

fun pages_from :: "gh_env \<Rightarrow> gh_client \<Rightarrow> int \<Rightarrow> string \<Rightarrow> nat \<Rightarrow> nat \<Rightarrow> json list gh_m" where
  "pages_from env k n what page 0 = gh_return (Inr [])"
| "pages_from env k n what page (Suc left) =
     gh_bind (gh_run env k [''api'', ''--method'', ''GET'', page_endpoint n what page] (Some 60) True) (\<lambda>r.
     gh_bind (loads_or_empty env (gr_stdout r)) (\<lambda>j.
     gh_bind (gh_return (page_items j)) (\<lambda>items.
       if List.length items < PER_PAGE then gh_return (Inr items)
       else gh_bind (pages_from env k n what (Suc page) left) (\<lambda>rest. gh_return (Inr (items @ rest))))))"

definition get_pr_files :: "gh_env \<Rightarrow> gh_client \<Rightarrow> int \<Rightarrow> json list gh_m" where
  "get_pr_files env k n = pages_from env k n ''files'' 1 50"

definition get_pr_commits :: "gh_env \<Rightarrow> gh_client \<Rightarrow> int \<Rightarrow> json list gh_m" where
  "get_pr_commits env k n = pages_from env k n ''commits'' 1 10"

section \<open>What changed since a commit\<close>

definition short_sha :: "string \<Rightarrow> string" where
  "short_sha s = take 7 s"

text \<open>The first commit with the short name, searched in order: \<open>Some None\<close> if there is none, \<open>None\<close> where a
  commit before it has no readable \<open>sha\<close>.\<close>

fun commits_after :: "string \<Rightarrow> json list \<Rightarrow> json list option option" where
  "commits_after base [] = Some None"
| "commits_after base (c # cs) = (case jfield c ''sha'' of
     Some (JStr s) \<Rightarrow> if short_sha s = short_sha base then Some (Some cs) else commits_after base cs
   | _ \<Rightarrow> None)"

definition text_field :: "json \<Rightarrow> string \<Rightarrow> json" where
  "text_field j name = (case jfield j name of None \<Rightarrow> JStr [] | Some v \<Rightarrow> v)"

definition file_changed :: "(string, string) dict \<Rightarrow> json \<Rightarrow> bool" where
  "file_changed blobs f =
    (let previous = (case text_field f ''filename'' of JStr name \<Rightarrow> (case dget blobs name of None \<Rightarrow> [] | Some b \<Rightarrow> b) | _ \<Rightarrow> [])
     in text_field f ''status'' \<in> {JStr ''added'', JStr ''removed'', JStr ''renamed''} \<or> previous = []
        \<or> text_field f ''sha'' \<noteq> JStr previous)"

text \<open>A file whose name cannot be looked up raises.\<close>

definition file_readable :: "json \<Rightarrow> bool" where
  "file_readable f = (is_object f \<and> (case text_field f ''filename'' of JArr _ \<Rightarrow> False | JObj _ \<Rightarrow> False | _ \<Rightarrow> True))"

definition changed_since ::
  "string \<Rightarrow> (string, string) dict \<Rightarrow> json list \<Rightarrow> json list \<Rightarrow> gh_error + json list \<times> json list" where
  "changed_since base blobs pr_files pr_commits = (case commits_after base pr_commits of
     None \<Rightarrow> Inl Bad_shape
   | Some (Some newer) \<Rightarrow> Inr (pr_files, newer)
   | Some None \<Rightarrow>
       (if blobs = [] then Inr (pr_files, pr_commits)
        else if \<not> list_all file_readable pr_files then Inl Bad_shape
        else Inr (filter (file_changed blobs) pr_files, pr_commits)))"

definition get_pr_files_changed_since ::
  "gh_env \<Rightarrow> gh_client \<Rightarrow> int \<Rightarrow> string \<Rightarrow> (string, string) dict \<Rightarrow> (json list \<times> json list) gh_m" where
  "get_pr_files_changed_since env k n base blobs = gh_bind (get_pr_files env k n) (\<lambda>fs.
     gh_bind (get_pr_commits env k n) (\<lambda>cs. gh_return (changed_since base blobs fs cs)))"

section \<open>A command ends\<close>

text \<open>What is asked of the environment, as for the limiter.\<close>

definition env_ok :: "gh_env \<Rightarrow> bool" where
  "env_ok env \<longleftrightarrow> (\<exists>\<delta>>0. \<forall>k. \<delta> \<le> ge_lag env k) \<and> others_forward (ge_others env)"

lemma gh_bind_simps [simp]:
  "gh_bind (gh_return (Inr x)) f = f x" "gh_bind (gh_return (Inl e)) f = gh_return (Inl e)"
  by (simp_all add: gh_bind_def gh_return_def fun_eq_iff)

lemma preflight_ends:
  assumes "env_ok env"
  shows "\<exists>r s'. preflight env k s = Some (r, s') \<and> (\<forall>e. r = Inl e \<longrightarrow> gk_limiting k \<and> (\<exists>st. e = GHLimited (Bucket_empty st)))"
proof (cases "gk_limiting k")
  case True
  obtain ok msg l c where ch: "check_github_available (ge_lag env) (fst s) (snd s) = ((ok, msg), l, c)" by (metis surj_pair)
  obtain got l' c' where "acquire_github (ge_lag env) (ge_others env) (Some (if ok then 1 else 30)) l c = Some (got, l', c')"
    using acquire_github_ends assms unfolding env_ok_def by metis
  then show ?thesis using True ch by (simp add: preflight_def)
qed (simp add: preflight_def)

text \<open>What one run of the attempts may come to.\<close>

definition run_result :: "gh_env \<Rightarrow> gh_client \<Rightarrow> string list \<Rightarrow> bool \<Rightarrow> nat \<Rightarrow> nat \<Rightarrow> gh_error + gh_result \<Rightarrow> bool" where
  "run_result env k args strict lo hi r \<longleftrightarrow> (case r of
     Inr x \<Rightarrow> lo \<le> gr_attempts x \<and> gr_attempts x \<le> hi \<and> gr_command x = ''gh'' # args
       \<and> (\<exists>c t. ge_exec env c (''gh'' # args) t = Exited (gr_returncode x) (gr_stdout x) (gr_stderr x))
       \<and> (gr_returncode x = 0 \<or> \<not> strict \<and> \<not> stderr_limited (gr_stderr x))
   | Inl e \<Rightarrow> (case e of
       GHLimited why \<Rightarrow> (\<exists>err. why = Host_refused err \<and> stderr_limited err)
     | GHTimeout a n t \<Rightarrow> True | GHCommand msg \<Rightarrow> True | _ \<Rightarrow> False))"

lemma finish_result:
  assumes "finish k args strict n took code out err l = (r, l')" "ge_exec env c (''gh'' # args) t = Exited code out err" "lo \<le> n" "n \<le> hi"
  shows "run_result env k args strict lo hi r"
proof (cases r)
  case (Inl e)
  then show ?thesis using assms(1) by (auto simp: finish_def run_result_def split: if_splits)
next
  case (Inr x)
  then have "ge_exec env c (''gh'' # args) t = Exited (gr_returncode x) (gr_stdout x) (gr_stderr x)"
    using assms(1,2) by (auto simp: finish_def split: if_splits)
  then have "\<exists>c t. ge_exec env c (''gh'' # args) t = Exited (gr_returncode x) (gr_stdout x) (gr_stderr x)" by blast
  then show ?thesis unfolding Inr run_result_def using Inr assms(1,3,4) by (auto simp: finish_def split: if_splits)
qed

lemma run_from_result:
  "lo \<le> n \<Longrightarrow> n + left = hi \<Longrightarrow> run_result env k args strict lo hi (fst (run_from env k args timeout strict start n left l c))"
proof (induction left arbitrary: n l c)
  case 0
  show ?case
  proof (cases "ge_exec env c (''gh'' # args) timeout")
    case (Exited code out err)
    then show ?thesis using 0 finish_result [OF _ Exited, of k strict n _ l _ _ lo hi] by (auto split: prod.splits)
  qed (auto simp: run_result_def split: prod.splits)
next
  case (Suc left)
  show ?case
  proof (cases "ge_exec env c (''gh'' # args) timeout")
    case (Exited code out err)
    then show ?thesis using Suc.prems finish_result [OF _ Exited, of k strict n _ l _ _ lo hi] by (auto split: prod.splits)
  qed (use Suc in auto)
qed

text \<open>A run is its attempts, with the state the token left, or the refusal of the token.\<close>

lemma gh_run_split:
  assumes "env_ok env" "gk_max_retries k = Suc m"
  obtains (started) start l c where "gh_run env k args timeout strict s = Some (run_from env k args (time_limit k timeout) strict start 1 m l c)"
  | (refused) st s' where "gk_limiting k" "gh_run env k args timeout strict s = Some (Inl (GHLimited (Bucket_empty st)), s')"
proof -
  obtain start c0 where rd: "read_clock (ge_lag env) (snd s) = (start, c0)" by force
  obtain r l c where p: "preflight env k (fst s, c0) = Some (r, l, c)"
    "\<forall>e. r = Inl e \<longrightarrow> gk_limiting k \<and> (\<exists>st. e = GHLimited (Bucket_empty st))" using preflight_ends [OF assms(1)] by (metis surj_pair)
  show ?thesis
  proof (cases r)
    case (Inr u)
    then show ?thesis using rd p(1) assms(2) by (intro started [of start l c]) (simp add: gh_run_def gh_bind_def del: run_from.simps)
  next
    case (Inl e)
    then show ?thesis using rd p by (auto simp: gh_run_def gh_bind_def intro: refused)
  qed
qed

section \<open>Pages of a list\<close>

text \<open>A host that serves the list \<open>all\<close> in pages of a hundred: every command for a page answers, and its
  text reads as that page.\<close>

definition serves :: "gh_env \<Rightarrow> int \<Rightarrow> string \<Rightarrow> json list \<Rightarrow> bool" where
  "serves env n what all \<longleftrightarrow> (\<forall>c t page. 0 < page \<longrightarrow> (\<exists>out err.
     ge_exec env c (''gh'' # [''api'', ''--method'', ''GET'', page_endpoint n what page]) t = Exited 0 out err
     \<and> strip out \<noteq> [] \<and> ge_loads env out = Some (JArr (take PER_PAGE (drop ((page - 1) * PER_PAGE) all)))))"

lemma serves_run:
  assumes sv: "serves env n what all" "0 < page" and ok: "env_ok env" "gk_max_retries k = Suc m"
  obtains (page) x s' where "gh_run env k [''api'', ''--method'', ''GET'', page_endpoint n what page] timeout True s = Some (Inr x, s')"
      "loads_or_empty env (gr_stdout x) = gh_return (Inr (JArr (take PER_PAGE (drop ((page - 1) * PER_PAGE) all))))"
  | (refused) why s' where "gk_limiting k"
      "gh_run env k [''api'', ''--method'', ''GET'', page_endpoint n what page] timeout True s = Some (Inl (GHLimited why), s')"
proof (rule gh_run_split [OF ok, of "[''api'', ''--method'', ''GET'', page_endpoint n what page]" timeout True s])
  fix start l c
  assume run: "gh_run env k [''api'', ''--method'', ''GET'', page_endpoint n what page] timeout True s
    = Some (run_from env k [''api'', ''--method'', ''GET'', page_endpoint n what page] (time_limit k timeout) True start 1 m l c)"
  obtain out err where "ge_exec env c (''gh'' # [''api'', ''--method'', ''GET'', page_endpoint n what page]) (time_limit k timeout) = Exited 0 out err"
    "strip out \<noteq> []" "ge_loads env out = Some (JArr (take PER_PAGE (drop ((page - 1) * PER_PAGE) all)))"
    using sv unfolding serves_def by blast
  moreover obtain now c' where "read_clock (ge_lag env) c = (now, c')" by force
  ultimately show thesis using run
    by (intro page [of "\<lparr>gr_stdout = out, gr_stderr = err, gr_returncode = 0, gr_command = ''gh'' # [''api'', ''--method'', ''GET'', page_endpoint n what page],
        gr_attempts = 1, gr_total_time = now - start\<rparr>" "(l, c')"])
      (simp_all add: finish_def loads_or_empty_def gh_loads_def)
qed (rule refused)

lemma page_items_take: "page_items (JArr xs) = Inr xs"
  by (simp add: page_items_def)

lemma pages_from_serves:
  assumes sv: "serves env n what all" and ok: "env_ok env" "gk_max_retries k = Suc m"
  shows "0 < page \<Longrightarrow> \<exists>r s'. pages_from env k n what page left s = Some (r, s')
    \<and> (r = Inr (take (left * PER_PAGE) (drop ((page - 1) * PER_PAGE) all)) \<or> gk_limiting k \<and> (\<exists>why. r = Inl (GHLimited why)))"
proof (induction left arbitrary: page s)
  case 0
  then show ?case by (simp add: gh_return_def)
next
  case (Suc left)
  let ?xs = "drop ((page - 1) * PER_PAGE) all"
  show ?case
  proof (rule serves_run [OF sv Suc.prems ok, of "Some 60" s])
    fix x s1
    assume page: "gh_run env k [''api'', ''--method'', ''GET'', page_endpoint n what page] (Some 60) True s = Some (Inr x, s1)"
      "loads_or_empty env (gr_stdout x) = gh_return (Inr (JArr (take PER_PAGE ?xs)))"
    have bind: "pages_from env k n what page (Suc left) s = (if List.length (take PER_PAGE ?xs) < PER_PAGE then Some (Inr (take PER_PAGE ?xs), s1)
        else gh_bind (pages_from env k n what (Suc page) left) (\<lambda>rest. gh_return (Inr (take PER_PAGE ?xs @ rest))) s1)"
      using page by (simp add: gh_bind_def [of "gh_run env k args t b" for args t b] page_items_take del: gh_bind_simps(2)) (simp add: gh_return_def)
    show ?thesis
    proof (cases "List.length ?xs < PER_PAGE")
      case True
      then have "take PER_PAGE ?xs = take (Suc left * PER_PAGE) ?xs" by (simp add: take_all)
      then show ?thesis using True bind by simp
    next
      case False
      obtain r s2 where r: "pages_from env k n what (Suc page) left s1 = Some (r, s2)"
        "r = Inr (take (left * PER_PAGE) (drop (page * PER_PAGE) all)) \<or> gk_limiting k \<and> (\<exists>why. r = Inl (GHLimited why))"
        using Suc.IH [of "Suc page" s1] by auto
      have "page * PER_PAGE = PER_PAGE + (page - 1) * PER_PAGE" using Suc.prems by (cases page) auto
      then have "take PER_PAGE ?xs @ take (left * PER_PAGE) (drop (page * PER_PAGE) all) = take (Suc left * PER_PAGE) ?xs"
        by (simp add: take_add)
      then show ?thesis using False bind r by (auto simp: gh_bind_def gh_return_def)
    qed
  next
    fix why s1
    assume "gk_limiting k" "gh_run env k [''api'', ''--method'', ''GET'', page_endpoint n what page] (Some 60) True s = Some (Inl (GHLimited why), s1)"
    then show ?thesis by (simp add: gh_bind_def [of "gh_run env k args t b" for args t b])
  qed
qed

section \<open>A token for each command\<close>

lemma run_from_counts:
  "rl_requests (fst (snd (run_from env k args timeout strict start n left l c))) = rl_requests l
   \<and> rl_limited (fst (snd (run_from env k args timeout strict start n left l c))) = rl_limited l"
proof (induction left arbitrary: n l c)
  case 0
  then show ?case by (auto simp: finish_def record_github_error_def split: gh_process.split prod.split)
next
  case (Suc left)
  then show ?case by (auto simp: finish_def record_github_error_def split: gh_process.split prod.split)
qed

lemma acquire_granted:
  assumes lag: "\<forall>k. 0 \<le> lag k" and b: "bucket_ok b" "tb_last_refill b \<le> ck_time c" "of_int n \<le> tb_tokens b"
  shows "\<exists>b' c'. acquire lag others n timeout b c = Some (True, b', c')"
proof -
  obtain start c0 where rd: "read_clock lag c = (start, c0)" by force
  have c0: "ck_time c \<le> ck_time c0" using read_clock_time [of lag c] rd lag [rule_format, of "ck_reads c"] by simp
  let ?t = "ck_time c0 + lag (ck_reads c0)"
  have "0 \<le> (?t - tb_last_refill b) * tb_refill_rate b"
    using b c0 lag [rule_format, of "ck_reads c0"] by (intro mult_nonneg_nonneg) (auto simp: bucket_ok_def)
  then have "fst (try_at lag n b c0)" using b by (simp add: try_at_eq try_acquire_def Let_def bucket_ok_def)
  then show ?thesis using rd by (cases "try_at lag n b c0") (auto simp: acquire_def acquire_loop_granted)
qed

lemma acquire_github_counts:
  "acquire_github lag others timeout l c = Some (ok, l', c')
    \<Longrightarrow> rl_requests l' = Suc (rl_requests l) \<and> rl_limited l' = (if ok then rl_limited l else Suc (rl_limited l))"
  by (auto simp: acquire_github_def)

lemma check_keeps:
  assumes "check_github_available lag l c = ((ok, msg), l', c')"
  shows "rl_requests l' = rl_requests l" "rl_limited l' = rl_limited l"
  using assms by (auto simp: check_github_available_def available_def time_until_available_def Let_def split: prod.splits if_splits)

lemma checked_then_granted:
  assumes lag: "\<forall>k. 0 \<le> lag k" and b: "bucket_ok (rl_bucket l)" "tb_last_refill (rl_bucket l) \<le> ck_time c"
    and ch: "check_github_available lag l c = ((True, msg), l1, c1)" and ac: "acquire_github lag others timeout l1 c1 = Some (got, l', c')"
  shows "got"
proof -
  obtain now c0 where rd: "read_clock lag c = (now, c0)" by force
  have now: "now = ck_time c + lag (ck_reads c)" "ck_time c0 = now" using read_clock_time [of lag c] rd by simp_all
  have l1: "rl_bucket l1 = refill now (rl_bucket l)" "c1 = c0" "0 < truncated (tb_tokens (refill now (rl_bucket l)))"
    using ch rd by (auto simp: check_github_available_def available_def Let_def split: if_splits prod.splits)
  have "bucket_ok (rl_bucket l1)" using refill_ok [OF b(1), of now] b(2) now lag [rule_format, of "ck_reads c"] l1(1) by simp
  moreover have "1 \<le> tb_tokens (rl_bucket l1)"
    using l1(1,3) unfolding truncated_def by (auto split: if_splits simp: less_le_not_le ceiling_le_iff le_floor_iff)
  ultimately obtain b' c2 where "acquire lag others 1 timeout (rl_bucket l1) c1 = Some (True, b', c2)"
    using acquire_granted [OF lag, of "rl_bucket l1" c1 1 others timeout] l1(1,2) now(2) by auto
  then show ?thesis using ac by (auto simp: acquire_github_def)
qed

section \<open>What is left out after a commit\<close>

lemma commits_after_split:
  "commits_after base cs = Some (Some newer) \<Longrightarrow> \<exists>pre c s. cs = pre @ c # newer \<and> jfield c ''sha'' = Some (JStr s) \<and> short_sha s = short_sha base
     \<and> (\<forall>d\<in>set pre. \<exists>s'. jfield d ''sha'' = Some (JStr s') \<and> short_sha s' \<noteq> short_sha base)"
proof (induction cs)
  case (Cons c cs)
  then obtain s where s: "jfield c ''sha'' = Some (JStr s)" by (auto split: option.splits json.splits)
  show ?case
  proof (cases "short_sha s = short_sha base")
    case True
    then show ?thesis using Cons.prems s by (intro exI [of _ "[]"] exI [of _ c] exI [of _ s]) auto
  next
    case False
    then obtain pre d s' where "cs = pre @ d # newer" "jfield d ''sha'' = Some (JStr s')" "short_sha s' = short_sha base"
      "\<forall>d\<in>set pre. \<exists>s'. jfield d ''sha'' = Some (JStr s') \<and> short_sha s' \<noteq> short_sha base" using Cons s by auto
    then show ?thesis using False s by (intro exI [of _ "c # pre"] exI [of _ d] exI [of _ s']) auto
  qed
qed simp

section \<open>Properties\<close>

text \<open>A command ends.  It starts between one process and as many as it may retry; an answer is that
  of a process that exited, with code 0 unless failures are asked for; otherwise it is a
  timeout, a failed command, or a limit, of the host or of the own bucket.\<close>

theorem gh_command_ends:
  assumes "env_ok env" "0 < gk_max_retries k"
  shows "\<exists>r s'. gh_run env k args timeout strict s = Some (r, s') \<and> (run_result env k args strict 1 (gk_max_retries k) r
    \<or> gk_limiting k \<and> (\<exists>st. r = Inl (GHLimited (Bucket_empty st))))"
proof -
  obtain m where m: "gk_max_retries k = Suc m" using assms(2) by (cases "gk_max_retries k") auto
  show ?thesis
  proof (rule gh_run_split [OF assms(1) m, of args timeout strict s])
    fix start l c
    assume "gh_run env k args timeout strict s = Some (run_from env k args (time_limit k timeout) strict start 1 m l c)"
    then show ?thesis using run_from_result [of 1 1 m "Suc m" env k args strict "time_limit k timeout" start l c] m
      by (cases "run_from env k args (time_limit k timeout) strict start 1 m l c") (simp del: run_from.simps)
  qed auto
qed

definition ex_client :: gh_client where
  "ex_client = \<lparr>gk_default_timeout = 30, gk_max_retries = 3, gk_limiting = True, gk_repo = Some ''acme/app''\<rparr>"

definition ex_gh_env :: "(string list \<Rightarrow> gh_process) \<Rightarrow> (string \<Rightarrow> json option) \<Rightarrow> gh_env" where
  "ex_gh_env exec loads = \<lparr>ge_lag = (\<lambda>_. 1/10), ge_others = (\<lambda>s. s), ge_exec = (\<lambda>c args t. exec args), ge_loads = loads, ge_iso = (\<lambda>_. None)\<rparr>"

lemma ex_gh_env_ok: "env_ok (ex_gh_env exec loads)"
  by (auto simp: env_ok_def ex_gh_env_def others_forward_def intro: exI [of _ "1/10"])

theorem gh_command_ends_witness:
  "\<exists>r s'. gh_run (ex_gh_env (\<lambda>_. Hung) (\<lambda>_. None)) ex_client [''pr'', ''list''] None True (ex_limiter, ex_clock) = Some (Inl r, s')"
proof -
  obtain r s' where run: "gh_run (ex_gh_env (\<lambda>_. Hung) (\<lambda>_. None)) ex_client [''pr'', ''list''] None True (ex_limiter, ex_clock) = Some (r, s')"
    and r: "run_result (ex_gh_env (\<lambda>_. Hung) (\<lambda>_. None)) ex_client [''pr'', ''list''] True 1 (gk_max_retries ex_client) r \<or> (\<exists>e. r = Inl e)"
    using gh_command_ends [OF ex_gh_env_ok, of ex_client "\<lambda>_. Hung" "\<lambda>_. None" "[''pr'', ''list'']" None True "(ex_limiter, ex_clock)"]
    by (auto simp: ex_client_def)
  then have "\<exists>e. r = Inl e" by (cases r) (auto simp: run_result_def ex_gh_env_def)
  then show ?thesis using run by blast
qed

text \<open>A run is charged once.  With a bucket in order the run of a command counts as one request,
  and starts a process only if that request was granted; but only one, however many processes
  it starts again after a timeout.\<close>

theorem one_token_for_each_command:
  assumes env: "env_ok env" and k: "gk_limiting k" "0 < gk_max_retries k"
    and b: "bucket_ok (rl_bucket (fst s))" "tb_last_refill (rl_bucket (fst s)) \<le> ck_time (snd s)"
    and run: "gh_run env k args timeout strict s = Some (r, s')"
  shows "rl_requests (fst s') = Suc (rl_requests (fst s))
    \<and> (rl_limited (fst s') = rl_limited (fst s)
      \<or> rl_limited (fst s') = Suc (rl_limited (fst s)) \<and> (\<exists>st. r = Inl (GHLimited (Bucket_empty st))))"
proof -
  have lag: "\<forall>j. 0 \<le> ge_lag env j" using env unfolding env_ok_def by (meson less_eq_rat_def order_trans)
  obtain m where m: "gk_max_retries k = Suc m" using k(2) by (cases "gk_max_retries k") auto
  obtain start c0 where rd: "read_clock (ge_lag env) (snd s) = (start, c0)" by force
  have c0: "tb_last_refill (rl_bucket (fst s)) \<le> ck_time c0"
    using read_clock_time [of "ge_lag env" "snd s"] rd b(2) lag [rule_format, of "ck_reads (snd s)"] by simp
  obtain ok msg l1 c1 where ch: "check_github_available (ge_lag env) (fst s) c0 = ((ok, msg), l1, c1)" by (metis surj_pair)
  obtain got l2 c2 where ac: "acquire_github (ge_lag env) (ge_others env) (Some (if ok then 1 else 30)) l1 c1 = Some (got, l2, c2)"
    using acquire_github_ends env unfolding env_ok_def by metis
  have got: "got" if ok using checked_then_granted [OF lag b(1) c0 _ ac] ch that by simp
  note counts = acquire_github_counts [OF ac] check_keeps [OF ch]
  show ?thesis
  proof (cases got)
    case True
    then have "gh_run env k args timeout strict s = Some (run_from env k args (time_limit k timeout) strict start 1 m l2 c2)"
      using rd ch ac k(1) m by (simp add: gh_run_def gh_bind_def preflight_def del: run_from.simps)
    then have "(r, s') = run_from env k args (time_limit k timeout) strict start 1 m l2 c2" using run by simp
    then show ?thesis
      using run_from_counts [of env k args "time_limit k timeout" strict start 1 m l2 c2] True counts by (metis snd_conv)
  next
    case False
    then have "\<not> ok" using got by blast
    then have "gh_run env k args timeout strict s = Some (Inl (GHLimited (Bucket_empty msg)), (l2, c2))"
      using rd ch ac k(1) False by (simp add: gh_run_def gh_bind_def preflight_def)
    then show ?thesis using run False counts by auto
  qed
qed

theorem one_token_for_each_command_witness:
  "\<exists>r s'. gh_run (ex_gh_env (\<lambda>_. Hung) (\<lambda>_. None)) ex_client [''pr'', ''list''] None True (ex_limiter, ex_clock) = Some (r, s')
    \<and> rl_requests (fst s') = 1"
proof -
  obtain r s' where run: "gh_run (ex_gh_env (\<lambda>_. Hung) (\<lambda>_. None)) ex_client [''pr'', ''list''] None True (ex_limiter, ex_clock) = Some (r, s')"
    using gh_run_split [OF ex_gh_env_ok, of ex_client 2] by (metis (no_types) prod.collapse ex_client_def gh_client.select_convs(2) numeral_3_eq_3 numeral_2_eq_2)
  show ?thesis
    using one_token_for_each_command [OF ex_gh_env_ok _ _ _ _ run] run
    by (auto simp: ex_client_def ex_limiter_def new_limiter_def new_bucket_def bucket_ok_def ex_clock_def)
qed

text \<open>The pages of a pull request are read in order, none twice and none left out, up to fifty of
  files and ten of commits: the files are the first 5000 of what the host lists, the commits
  the first 1000.  The calls end, and only the limit can keep them from their answer.\<close>

theorem pages_are_complete:
  assumes env: "env_ok env" "0 < gk_max_retries k"
    and sv: "serves env n ''files'' files" "serves env n ''commits'' commits"
  shows "\<exists>rf s1 rc s2. get_pr_files env k n s = Some (rf, s1) \<and> get_pr_commits env k n s = Some (rc, s2)
    \<and> (rf = Inr (take 5000 files) \<or> gk_limiting k \<and> (\<exists>why. rf = Inl (GHLimited why)))
    \<and> (rc = Inr (take 1000 commits) \<or> gk_limiting k \<and> (\<exists>why. rc = Inl (GHLimited why)))"
proof -
  obtain m where m: "gk_max_retries k = Suc m" using env(2) by (cases "gk_max_retries k") auto
  show ?thesis
    using pages_from_serves [OF sv(1) env(1) m, of 1 50 s] pages_from_serves [OF sv(2) env(1) m, of 1 10 s]
    unfolding get_pr_files_def get_pr_commits_def by (simp add: PER_PAGE_def) blast
qed

definition one_page :: "string list \<Rightarrow> gh_process" where
  "one_page args = Exited 0 (if last args \<in> {page_endpoint 7 ''files'' 1, page_endpoint 7 ''commits'' 1} then ''full'' else ''none'') []"

definition one_item :: "string \<Rightarrow> json option" where
  "one_item text = Some (JArr (if text = ''full'' then [JInt 1] else []))"

lemma page_endpoint_eq: "page_endpoint n what p = page_endpoint n what q \<longleftrightarrow> p = q"
  by (simp add: page_endpoint_def repo_endpoint_def str_of_int_def digits_of_nat_inj)

lemma what_matters: "page_endpoint 7 ''files'' p \<noteq> page_endpoint 7 ''commits'' q" "page_endpoint 7 ''commits'' q \<noteq> page_endpoint 7 ''files'' p"
  by (simp_all add: page_endpoint_def repo_endpoint_def str_of_int_def)

lemma one_page_serves: "serves (ex_gh_env one_page one_item) 7 ''files'' [JInt 1]" "serves (ex_gh_env one_page one_item) 7 ''commits'' [JInt 1]"
  by (auto simp: serves_def ex_gh_env_def one_page_def one_item_def page_endpoint_eq what_matters PER_PAGE_def strip_def strip_by_def isspace_def)

theorem pages_are_complete_witness:
  "\<exists>s1 s2. get_pr_files (ex_gh_env one_page one_item) (ex_client\<lparr>gk_limiting := False\<rparr>) 7 (ex_limiter, ex_clock) = Some (Inr [JInt 1], s1)
    \<and> get_pr_commits (ex_gh_env one_page one_item) (ex_client\<lparr>gk_limiting := False\<rparr>) 7 (ex_limiter, ex_clock) = Some (Inr [JInt 1], s2)"
  using pages_are_complete [OF ex_gh_env_ok _ one_page_serves, of "ex_client\<lparr>gk_limiting := False\<rparr>" "(ex_limiter, ex_clock)"]
  by (auto simp: ex_client_def)

text \<open>What a follow-up review leaves out was reviewed.  If the commit is found, what is returned is
  what follows its first occurrence by short name, with all files; if it is not, every commit,
  and every file except those the earlier review saw with the same blob, that were not added,
  removed or renamed.\<close>

theorem left_out_is_unchanged:
  assumes "changed_since base blobs fs cs = Inr (fs', cs')"
  shows "(fs' = fs \<and> (\<exists>pre c s. cs = pre @ c # cs' \<and> jfield c ''sha'' = Some (JStr s) \<and> short_sha s = short_sha base))
    \<or> (cs' = cs \<and> (\<forall>f\<in>set fs. f \<in> set fs' \<or> (\<exists>name blob. text_field f ''filename'' = JStr name \<and> dget blobs name = Some blob
         \<and> blob \<noteq> [] \<and> text_field f ''sha'' = JStr blob \<and> text_field f ''status'' \<notin> {JStr ''added'', JStr ''removed'', JStr ''renamed''})))"
proof (cases "commits_after base cs")
  case (Some found)
  show ?thesis
  proof (cases found)
    case None
    have dropped: "\<exists>name blob. text_field f ''filename'' = JStr name \<and> dget blobs name = Some blob \<and> blob \<noteq> []
        \<and> text_field f ''sha'' = JStr blob \<and> text_field f ''status'' \<notin> {JStr ''added'', JStr ''removed'', JStr ''renamed''}"
      if "\<not> file_changed blobs f" for f
      using that by (auto simp: file_changed_def Let_def split: json.splits option.splits)
    have eq: "cs' = cs \<and> (fs' = fs \<or> fs' = filter (file_changed blobs) fs)"
      using assms Some None by (auto simp: changed_since_def split: if_splits)
    show ?thesis
    proof (rule disjI2, intro conjI ballI)
      show "cs' = cs" using eq by blast
      fix f assume "f \<in> set fs"
      then show "f \<in> set fs' \<or> (\<exists>name blob. text_field f ''filename'' = JStr name \<and> dget blobs name = Some blob \<and> blob \<noteq> []
          \<and> text_field f ''sha'' = JStr blob \<and> text_field f ''status'' \<notin> {JStr ''added'', JStr ''removed'', JStr ''renamed''})"
        using eq dropped by (cases "file_changed blobs f") auto
    qed
  next
    case (Some newer)
    then show ?thesis using assms \<open>commits_after base cs = Some found\<close> commits_after_split [of base cs newer]
      by (auto simp: changed_since_def)
  qed
qed (use assms in \<open>simp add: changed_since_def\<close>)

definition a_file :: "string \<Rightarrow> string \<Rightarrow> json" where
  "a_file name sha = JObj [(''filename'', JStr name), (''sha'', JStr sha), (''status'', JStr ''modified'')]"

theorem left_out_is_unchanged_witness:
  "changed_since ''abc'' [(''a.py'', ''1''), (''b.py'', ''2'')] [a_file ''a.py'' ''1'', a_file ''b.py'' ''3''] [JObj [(''sha'', JStr ''fed'')]]
     = Inr ([a_file ''b.py'' ''3''], [JObj [(''sha'', JStr ''fed'')]])
   \<and> (\<exists>blob. dget [(''a.py'', ''1''), (''b.py'', ''2'')] ''a.py'' = Some blob \<and> text_field (a_file ''a.py'' ''1'') ''sha'' = JStr blob)"
proof -
  have run: "changed_since ''abc'' [(''a.py'', ''1''), (''b.py'', ''2'')] [a_file ''a.py'' ''1'', a_file ''b.py'' ''3''] [JObj [(''sha'', JStr ''fed'')]]
     = Inr ([a_file ''b.py'' ''3''], [JObj [(''sha'', JStr ''fed'')]])" by code_simp
  have f: "text_field (a_file ''a.py'' ''1'') ''filename'' = JStr ''a.py''" "a_file ''a.py'' ''1'' \<noteq> a_file ''b.py'' ''3''" by code_simp+
  show ?thesis using left_out_is_unchanged [OF run] run f by auto
qed

end
