(* ===== verification/GitHubRest.thy ===== *)
theory GitHubRest
  imports IssueSync GhClient AuditChain
begin

text \<open>
  The GitHub provider of the board, \<open>HttpGitHubProvider\<close> of \<open>git_providers.py\<close>: what is asked of the
  REST interface, how its pages are read, and what an issue or a comment of GitHub becomes.  The
  host is an argument, from a request to its answer; so are the parsing of a date, \<open>str\<close> of a value
  that is not plain, and the time now.  One client serves an operation.
\<close>

section \<open>The host\<close>

datatype rest_answer = No_answer | Answer nat "json option"

datatype rest_error =
    Rest_down
  | Rest_status nat
  | Rest_not_json
  | Rest_no_number
  | Rest_bad_shape
  | Comment_read_failed string nat
  | Comment_not_a_list string
  | Comment_too_many string

record rest_env =
  re_repo :: string
  re_get :: "string \<Rightarrow> (string \<times> string) list \<Rightarrow> rest_answer"
  re_post :: "string \<Rightarrow> (string \<times> json) list \<Rightarrow> rest_answer"
  re_iso :: "string \<Rightarrow> pydatetime option"
  re_repr :: "json \<Rightarrow> string"
  re_now :: int

text \<open>\<open>raise_for_status\<close> lets the two hundreds through; then the body is read.\<close>

definition rest_body :: "rest_answer \<Rightarrow> rest_error + json" where
  "rest_body a = (case a of No_answer \<Rightarrow> Inl Rest_down
     | Answer code body \<Rightarrow> if code < 200 \<or> 300 \<le> code then Inl (Rest_status code)
         else (case body of None \<Rightarrow> Inl Rest_not_json | Some j \<Rightarrow> Inr j))"

definition GITHUB_PAGE_SIZE :: nat where "GITHUB_PAGE_SIZE = 100"
definition COMMENT_MAX_PAGES :: nat where "COMMENT_MAX_PAGES = 50"

section \<open>Reading a value\<close>

definition py_str :: "rest_env \<Rightarrow> json \<Rightarrow> string" where
  "py_str env j = (case j of JStr s \<Rightarrow> s | JInt i \<Rightarrow> str_of_int i | JNull \<Rightarrow> ''None''
     | JBool b \<Rightarrow> if b then ''True'' else ''False'' | _ \<Rightarrow> re_repr env j)"

definition null_field :: "json \<Rightarrow> string \<Rightarrow> json" where
  "null_field j name = (case jfield j name of None \<Rightarrow> JNull | Some v \<Rightarrow> v)"

text \<open>\<open>str(x or "")\<close>.\<close>

definition str_or_empty :: "rest_env \<Rightarrow> json \<Rightarrow> string" where
  "str_or_empty env j = (if jtruthy j then py_str env j else [])"

definition rest_datetime :: "rest_env \<Rightarrow> json \<Rightarrow> pydatetime" where
  "rest_datetime env j = (case j of
     JStr s \<Rightarrow> (case re_iso env (zulu s) of Some d \<Rightarrow> d | None \<Rightarrow> Aware (re_now env))
   | _ \<Rightarrow> Aware (re_now env))"

definition milestone_title :: "json \<Rightarrow> string option" where
  "milestone_title m = (case (case m of JObj _ \<Rightarrow> null_field m ''title'' | _ \<Rightarrow> m) of JStr s \<Rightarrow> Some s | _ \<Rightarrow> None)"

text \<open>The names in a list of objects or plain names; what is neither is left out.  \<open>None\<close> is the
  \<open>TypeError\<close> of a value that is not iterable.\<close>

definition named :: "string \<Rightarrow> json \<Rightarrow> string list" where
  "named key j = (case (case j of JObj _ \<Rightarrow> null_field j key | _ \<Rightarrow> j) of JStr s \<Rightarrow> [s] | _ \<Rightarrow> [])"

definition names_in :: "string \<Rightarrow> json \<Rightarrow> string list option" where
  "names_in key j = (if \<not> jtruthy j then Some [] else map_option (\<lambda>xs. concat (map (named key) xs)) (iterated j))"

section \<open>Issues\<close>

record rest_issue =
  ri_number :: int
  ri_title :: string
  ri_body :: string
  ri_author :: string
  ri_state :: string
  ri_labels :: "string list"
  ri_created_at :: pydatetime
  ri_updated_at :: pydatetime
  ri_url :: string
  ri_assignees :: "string list"
  ri_milestone :: "string option"
  ri_raw :: json

text \<open>\<open>isinstance(number, int)\<close> takes a truth value for a number.\<close>

definition issue_number :: "json \<Rightarrow> int option" where
  "issue_number j = (case j of JInt i \<Rightarrow> Some i | JBool b \<Rightarrow> Some (if b then 1 else 0) | _ \<Rightarrow> None)"

definition author_of :: "rest_env \<Rightarrow> json \<Rightarrow> string option" where
  "author_of env user = (if \<not> jtruthy user then Some []
     else (case user of JObj _ \<Rightarrow> Some (str_or_empty env (null_field user ''login'')) | _ \<Rightarrow> None))"

definition parse_issue :: "rest_env \<Rightarrow> json \<Rightarrow> rest_error + rest_issue" where
  "parse_issue env j = (let issue = (if is_object j then j else JObj []) in
     case issue_number (null_field issue ''number'') of
       None \<Rightarrow> Inl Rest_no_number
     | Some n \<Rightarrow> (case (author_of env (null_field issue ''user''), names_in ''name'' (null_field issue ''labels''),
           names_in ''login'' (null_field issue ''assignees'')) of
         (Some author, Some labels, Some assignees) \<Rightarrow>
           Inr \<lparr>ri_number = n, ri_title = str_or_empty env (null_field issue ''title''), ri_body = str_or_empty env (null_field issue ''body''),
             ri_author = author, ri_state = str_or_empty env (null_field issue ''state''), ri_labels = labels,
             ri_created_at = rest_datetime env (null_field issue ''created_at''),
             ri_updated_at = rest_datetime env (null_field issue ''updated_at''), ri_url = str_or_empty env (null_field issue ''html_url''),
             ri_assignees = assignees, ri_milestone = milestone_title (null_field issue ''milestone''), ri_raw = issue\<rparr>
       | _ \<Rightarrow> Inl Rest_bad_shape))"

definition issues_path :: "rest_env \<Rightarrow> string" where
  "issues_path env = ''/repos/'' @ re_repo env @ ''/issues''"

definition create_payload :: "string \<Rightarrow> string \<Rightarrow> string list option \<Rightarrow> string list option \<Rightarrow> (string \<times> json) list" where
  "create_payload title body labels assignees = [(''title'', JStr title), (''body'', JStr body)]
     @ (case labels of Some (l # ls) \<Rightarrow> [(''labels'', JArr (map JStr (l # ls)))] | _ \<Rightarrow> [])
     @ (case assignees of Some (a # as) \<Rightarrow> [(''assignees'', JArr (map JStr (a # as)))] | _ \<Rightarrow> [])"

definition rest_create_issue :: "rest_env \<Rightarrow> string \<Rightarrow> string \<Rightarrow> string list option \<Rightarrow> string list option \<Rightarrow> rest_error + rest_issue" where
  "rest_create_issue env title body labels assignees =
     res_bind (rest_body (re_post env (issues_path env) (create_payload title body labels assignees))) (parse_issue env)"

definition rest_fetch_issue :: "rest_env \<Rightarrow> int \<Rightarrow> rest_error + rest_issue" where
  "rest_fetch_issue env n = res_bind (rest_body (re_get env (issues_path env @ ''/'' @ str_of_int n) [])) (parse_issue env)"

text \<open>\<open>strftime\<close> of a UTC time, without its fraction.\<close>

definition iso_utc :: "int \<Rightarrow> string" where
  "iso_utc t = take 19 (canonical_ts t) @ ''Z''"

record rest_filters =
  rf_state :: string
  rf_labels :: "string list"
  rf_author :: "string option"
  rf_assignee :: "string option"
  rf_since :: "int option"
  rf_limit :: int
  rf_include_prs :: bool

definition list_params :: "rest_filters \<Rightarrow> (string \<times> string) list" where
  "list_params f = [(''state'', rf_state f), (''per_page'', digits_of_nat GITHUB_PAGE_SIZE)]
     @ (if rf_labels f = [] then [] else [(''labels'', join_with '','' (rf_labels f))])
     @ (if truthy (rf_assignee f) then [(''assignee'', the (rf_assignee f))] else [])
     @ (if truthy (rf_author f) then [(''creator'', the (rf_author f))] else [])
     @ (case rf_since f of None \<Rightarrow> [] | Some t \<Rightarrow> [(''since'', iso_utc t)])"

definition dropped :: "rest_filters \<Rightarrow> json \<Rightarrow> bool" where
  "dropped f item = (\<not> rf_include_prs f \<and> jfield item ''pull_request'' \<noteq> None)"

text \<open>The issues of a page; the first that cannot be read ends the pass.\<close>

fun parse_batch :: "rest_env \<Rightarrow> rest_filters \<Rightarrow> json list \<Rightarrow> rest_error + rest_issue list" where
  "parse_batch env f [] = Inr []"
| "parse_batch env f (item # items) = (if dropped f item then parse_batch env f items
     else res_bind (parse_issue env item) (\<lambda>i. res_bind (parse_batch env f items) (\<lambda>is. Inr (i # is))))"

text \<open>Nothing bounds the number of pages but the host: a page of pull requests adds no issue.  A pass that
  does not end is \<open>None\<close>.\<close>

partial_function (option) issue_pages ::
  "rest_env \<Rightarrow> rest_filters \<Rightarrow> nat \<Rightarrow> rest_issue list \<Rightarrow> (rest_error + rest_issue list) option" where
  "issue_pages env f page got = (if rf_limit f \<le> int (length got) then Some (Inr got)
     else (case rest_body (re_get env (issues_path env) (list_params f @ [(''page'', digits_of_nat page)])) of
        Inl e \<Rightarrow> Some (Inl e)
      | Inr (JArr (x # xs)) \<Rightarrow> (case parse_batch env f (x # xs) of
           Inl e \<Rightarrow> Some (Inl e)
         | Inr is \<Rightarrow> if length (x # xs) < GITHUB_PAGE_SIZE then Some (Inr (got @ is)) else issue_pages env f (Suc page) (got @ is))
      | Inr _ \<Rightarrow> Some (Inr got)))"

text \<open>\<open>issues[:limit]\<close>; a limit below zero is met before the first page.\<close>

definition rest_fetch_issues :: "rest_env \<Rightarrow> rest_filters \<Rightarrow> (rest_error + rest_issue list) option" where
  "rest_fetch_issues env f = map_option (\<lambda>r. res_bind r (\<lambda>is. Inr (take (nat (rf_limit f)) is))) (issue_pages env f 1 [])"

section \<open>Comments\<close>

text \<open>What GitHub sent is kept as it came: a body or a name need not be text.\<close>

record rest_comment =
  rc_id :: string
  rc_number :: int
  rc_author :: json
  rc_body :: json
  rc_created_at :: pydatetime
  rc_updated_at :: pydatetime
  rc_url :: json
  rc_raw :: json

definition or_json :: "json \<Rightarrow> json \<Rightarrow> json" where
  "or_json a b = (if jtruthy a then a else b)"

definition parse_comment :: "rest_env \<Rightarrow> int \<Rightarrow> json \<Rightarrow> rest_comment" where
  "parse_comment env n data = (let user = null_field data ''user''; created = null_field data ''created_at'' in
     \<lparr>rc_id = (case jfield data ''id'' of None \<Rightarrow> [] | Some v \<Rightarrow> py_str env v), rc_number = n,
      rc_author = (if is_object user then (case jfield user ''login'' of None \<Rightarrow> JStr [] | Some v \<Rightarrow> v) else JStr (str_or_empty env user)),
      rc_body = or_json (null_field data ''body'') (JStr []), rc_created_at = rest_datetime env created,
      rc_updated_at = rest_datetime env (or_json (null_field data ''updated_at'') created),
      rc_url = or_json (null_field data ''html_url'') (JStr []), rc_raw = data\<rparr>)"

text \<open>A page that is full is followed by the next; \<open>left\<close> pages may still be read.\<close>

fun comment_pages_from :: "rest_env \<Rightarrow> string \<Rightarrow> (string \<times> string) list \<Rightarrow> nat \<Rightarrow> nat \<Rightarrow> rest_error + json list" where
  "comment_pages_from env path params page 0 = Inl (Comment_too_many path)"
| "comment_pages_from env path params page (Suc left) =
     (case rest_body (re_get env path (params @ [(''per_page'', digits_of_nat GITHUB_PAGE_SIZE), (''page'', digits_of_nat page)])) of
        Inl _ \<Rightarrow> Inl (Comment_read_failed path page)
      | Inr (JArr batch) \<Rightarrow> (let items = filter is_object batch in
          if length batch < GITHUB_PAGE_SIZE then Inr items
          else res_bind (comment_pages_from env path params (Suc page) left) (\<lambda>more. Inr (items @ more)))
      | Inr _ \<Rightarrow> Inl (Comment_not_a_list path))"

definition comment_pages :: "rest_env \<Rightarrow> string \<Rightarrow> (string \<times> string) list \<Rightarrow> rest_error + json list" where
  "comment_pages env path params = comment_pages_from env path params 1 COMMENT_MAX_PAGES"

text \<open>\<open>oldest_first\<close>: a stable sort, which raises where a time with a zone meets one without.\<close>

definition oldest_first :: "rest_comment list \<Rightarrow> rest_error + rest_comment list" where
  "oldest_first cs = (let aware = (\<lambda>c. case rc_created_at c of Aware _ \<Rightarrow> True | Naive _ \<Rightarrow> False) in
     if list_all aware cs \<or> list_all (\<lambda>c. \<not> aware c) cs then Inr (sort_key (\<lambda>c. wall (rc_created_at c)) cs) else Inl Rest_bad_shape)"

definition thread_path :: "rest_env \<Rightarrow> int \<Rightarrow> string" where
  "thread_path env n = issues_path env @ ''/'' @ str_of_int n @ ''/comments''"

definition rest_fetch_comments :: "rest_env \<Rightarrow> int \<Rightarrow> int option \<Rightarrow> rest_error + rest_comment list" where
  "rest_fetch_comments env n since =
     res_bind (comment_pages env (thread_path env n) (case since of None \<Rightarrow> [] | Some t \<Rightarrow> [(''since'', iso_utc t)])) (\<lambda>raw.
       oldest_first (map (parse_comment env n) raw))"

text \<open>The number in a comment's link; the left side is what a link that is no text, or digits that \<open>int\<close>
  refuses, raise.\<close>

definition number_in_url :: "json \<Rightarrow> rest_error + int option" where
  "number_in_url url = (if \<not> jtruthy url then Inr None
     else (case url of JStr s \<Rightarrow> (let tail = after_last (CHR ''/'') (rstrip_char (CHR ''/'') s) in
         if \<not> isdigit tail then Inr None else (case py_int tail of None \<Rightarrow> Inl Rest_bad_shape | Some n \<Rightarrow> Inr (Some (int n))))
       | _ \<Rightarrow> Inl Rest_bad_shape))"

definition issue_link :: "json \<Rightarrow> rest_error + int option" where
  "issue_link item = number_in_url (case jfield item ''issue_url'' of None \<Rightarrow> JStr [] | Some v \<Rightarrow> v)"

type_synonym threads = "(int, rest_comment list) dict"

fun group_comments :: "rest_env \<Rightarrow> json list \<Rightarrow> threads \<Rightarrow> rest_error + threads" where
  "group_comments env [] d = Inr d"
| "group_comments env (item # items) d =
     res_bind (issue_link item) (\<lambda>n.
       case n of
         None \<Rightarrow> group_comments env items d
       | Some k \<Rightarrow> (case dget d k of
            None \<Rightarrow> group_comments env items d
          | Some cs \<Rightarrow> group_comments env items (dset k (cs @ [parse_comment env k item]) d)))"

fun sort_threads :: "threads \<Rightarrow> rest_error + threads" where
  "sort_threads [] = Inr []"
| "sort_threads ((k, cs) # d) = res_bind (oldest_first cs) (\<lambda>xs. res_bind (sort_threads d) (\<lambda>d'. Inr ((k, xs) # d')))"

fun fan_out :: "rest_env \<Rightarrow> int list \<Rightarrow> rest_error + threads" where
  "fan_out env [] = Inr []"
| "fan_out env (n # ns) = res_bind (rest_fetch_comments env n None) (\<lambda>cs. res_bind (fan_out env ns) (\<lambda>d. Inr ((n, cs) # d)))"

definition bulk_path :: "rest_env \<Rightarrow> string" where
  "bulk_path env = issues_path env @ ''/comments''"

definition rest_fetch_comments_bulk :: "rest_env \<Rightarrow> int list \<Rightarrow> int option \<Rightarrow> rest_error + threads" where
  "rest_fetch_comments_bulk env numbers since = (let wanted = sort (remdups numbers) in
     if wanted = [] then Inr []
     else (case since of
        None \<Rightarrow> fan_out env wanted
      | Some t \<Rightarrow> res_bind (comment_pages env (bulk_path env) [(''since'', iso_utc t), (''sort'', ''updated''), (''direction'', ''asc'')]) (\<lambda>raw.
          res_bind (group_comments env raw (map (\<lambda>n. (n, [])) wanted)) sort_threads)))"

definition rest_repository_info :: "rest_env \<Rightarrow> rest_error + jobj" where
  "rest_repository_info env = res_bind (rest_body (re_get env (''/repos/'' @ re_repo env) [])) (\<lambda>j.
     Inr (case j of JObj ps \<Rightarrow> ps | _ \<Rightarrow> []))"

section \<open>Pages of issues\<close>

text \<open>A host that serves the list \<open>all\<close> on a path, in pages of a hundred, whatever the page.\<close>

definition rest_serves :: "rest_env \<Rightarrow> string \<Rightarrow> (nat \<Rightarrow> (string \<times> string) list) \<Rightarrow> json list \<Rightarrow> bool" where
  "rest_serves env path params all \<longleftrightarrow> (\<forall>p. rest_body (re_get env path (params (Suc p)))
     = Inr (JArr (take GITHUB_PAGE_SIZE (drop (p * GITHUB_PAGE_SIZE) all))))"

definition page_params :: "rest_filters \<Rightarrow> nat \<Rightarrow> (string \<times> string) list" where
  "page_params f page = list_params f @ [(''page'', digits_of_nat page)]"

lemma parse_batch_append: "parse_batch env f (xs @ ys) = res_bind (parse_batch env f xs) (\<lambda>a. res_bind (parse_batch env f ys) (\<lambda>b. Inr (a @ b)))"
proof (induction xs)
  case Nil
  then show ?case by (cases "parse_batch env f ys") simp_all
next
  case (Cons x xs)
  then show ?case by (cases "parse_issue env x"; cases "parse_batch env f xs"; cases "parse_batch env f ys") simp_all
qed

lemma parse_batch_length: "parse_batch env f xs = Inr is \<Longrightarrow> length is \<le> length xs"
  by (induction xs arbitrary: "is") (auto simp: res_bind_Inr_iff split: if_splits intro: le_SucI)

text \<open>The pages after the \<open>p\<close>-th give what is left of the list, or as much of it as makes the limit.\<close>

lemma issue_pages_served:
  assumes sv: "rest_serves env (issues_path env) (page_params f) all"
  shows "parse_batch env f (drop (p * GITHUB_PAGE_SIZE) all) = Inr is \<Longrightarrow>
    \<exists>ys. issue_pages env f (Suc p) got = Some (Inr (got @ ys)) \<and> take (nat (rf_limit f)) (got @ ys) = take (nat (rf_limit f)) (got @ is)"
proof (induction "length (drop (p * GITHUB_PAGE_SIZE) all)" arbitrary: p got "is" rule: less_induct)
  case less
  let ?rest = "drop (p * GITHUB_PAGE_SIZE) all"
  let ?page = "take GITHUB_PAGE_SIZE ?rest" and ?next = "drop (Suc p * GITHUB_PAGE_SIZE) all"
  have "?next = drop GITHUB_PAGE_SIZE ?rest" by (simp add: add.commute)
  then have split: "?rest = ?page @ ?next" by (metis append_take_drop_id)
  have get: "rest_body (re_get env (issues_path env) (list_params f @ [(''page'', digits_of_nat (Suc p))])) = Inr (JArr ?page)"
    using sv by (simp add: rest_serves_def page_params_def)
  obtain a b where ab: "parse_batch env f ?page = Inr a" "parse_batch env f ?next = Inr b" "is = a @ b"
  proof -
    have "parse_batch env f (?page @ ?next) = Inr is" using less.prems split by metis
    then show thesis using that unfolding parse_batch_append by (auto simp: res_bind_Inr_iff)
  qed
  show ?case
  proof (cases "rf_limit f \<le> int (length got)")
    case True
    then show ?thesis by (subst issue_pages.simps) (auto intro!: exI [of _ "[]"])
  next
    case more: False
    show ?thesis
    proof (cases "length ?page < GITHUB_PAGE_SIZE")
      case True
      then have "?next = []" by (simp add: GITHUB_PAGE_SIZE_def)
      then have "is = a" using ab by simp
      then show ?thesis using more get ab(1) True
        by (subst issue_pages.simps) (cases ?page; auto)
    next
      case False
      then have full: "length ?page = GITHUB_PAGE_SIZE" by simp
      then have "length ?next < length ?rest" by (simp add: GITHUB_PAGE_SIZE_def)
      from less.hyps [OF this ab(2), of "got @ a"] obtain ys where
        ys: "issue_pages env f (Suc (Suc p)) (got @ a) = Some (Inr ((got @ a) @ ys))"
          "take (nat (rf_limit f)) ((got @ a) @ ys) = take (nat (rf_limit f)) ((got @ a) @ b)" by blast
      obtain x xs where "?page = x # xs" using full by (cases ?page) (auto simp: GITHUB_PAGE_SIZE_def)
      then have "issue_pages env f (Suc p) got = issue_pages env f (Suc (Suc p)) (got @ a)"
        using more get ab(1) full by (subst issue_pages.simps) auto
      then show ?thesis using ys ab(3) by (intro exI [of _ "a @ ys"]) simp
    qed
  qed
qed

text \<open>C29: no issue of a repository is missed.  From a host that serves its issues in pages, the pass over
  them ends, and what it gives is every issue that is asked for, in the host's order and none twice,
  up to the limit; pull requests are left out and do not count against it.\<close>

theorem every_issue_is_fetched:
  assumes "rest_serves env (issues_path env) (page_params f) all" "parse_batch env f all = Inr is"
  shows "rest_fetch_issues env f = Some (Inr (take (nat (rf_limit f)) is))"
  using issue_pages_served [OF assms(1), of 0 "is" "[]"] assms(2) by (auto simp: rest_fetch_issues_def)

text \<open>A host with two issues and a pull request between them.\<close>

definition an_issue :: "int \<Rightarrow> json" where
  "an_issue n = JObj [(''number'', JInt n), (''title'', JStr ''t'')]"

definition ex_host :: "json list \<Rightarrow> rest_env" where
  "ex_host all = \<lparr>re_repo = ''a/b'', re_get = (\<lambda>path params. Answer 200 (Some (JArr
       (if map_of params ''page'' = Some ''1'' then all else [])))), re_post = (\<lambda>_ _. No_answer), re_iso = (\<lambda>_. None),
     re_repr = (\<lambda>_. []), re_now = 0\<rparr>"

definition ex_filters :: rest_filters where
  "ex_filters = \<lparr>rf_state = ''open'', rf_labels = [], rf_author = None, rf_assignee = None, rf_since = None, rf_limit = 9, rf_include_prs = False\<rparr>"

lemma page_one: "map_of (page_params ex_filters (Suc p)) ''page'' = Some ''1'' \<longleftrightarrow> p = 0"
proof -
  have "map_of (page_params ex_filters (Suc p)) ''page'' = Some (digits_of_nat (Suc p))"
    by (simp add: page_params_def list_params_def ex_filters_def)
  moreover have "digits_of_nat 1 = ''1''" by code_simp
  ultimately show ?thesis using digits_of_nat_inj [of "Suc p" 1] by auto
qed

theorem every_issue_is_fetched_witness:
  "map_option (map_sum id (map ri_number)) (rest_fetch_issues
      (ex_host [an_issue 3, JObj [(''number'', JInt 4), (''pull_request'', JObj [])], an_issue 5]) ex_filters) = Some (Inr [3, 5])"
proof -
  let ?all = "[an_issue 3, JObj [(''number'', JInt 4), (''pull_request'', JObj [])], an_issue 5]"
  have "rest_serves (ex_host ?all) (issues_path (ex_host ?all)) (page_params ex_filters) ?all"
    unfolding rest_serves_def by (auto simp: ex_host_def rest_body_def page_one GITHUB_PAGE_SIZE_def)
  moreover have "map_sum id (map ri_number) (parse_batch (ex_host ?all) ex_filters ?all) = Inr [3, 5]" by code_simp
  then obtain "is" where "parse_batch (ex_host ?all) ex_filters ?all = Inr is" "map ri_number is = [3, 5]"
    by (cases "parse_batch (ex_host ?all) ex_filters ?all") auto
  ultimately show ?thesis using every_issue_is_fetched [of "ex_host ?all" ex_filters ?all "is"] by (auto simp: ex_filters_def take_map)
qed

section \<open>Pages of comments\<close>

text \<open>The pages of a complete read: each is what the host answered to its number, all but the last are
  full, and the last is not.\<close>

definition whole_read :: "rest_env \<Rightarrow> string \<Rightarrow> (string \<times> string) list \<Rightarrow> nat \<Rightarrow> json list list \<Rightarrow> bool" where
  "whole_read env path params page pages \<longleftrightarrow> pages \<noteq> [] \<and> list_all (\<lambda>b. GITHUB_PAGE_SIZE \<le> length b) (butlast pages)
     \<and> length (last pages) < GITHUB_PAGE_SIZE
     \<and> (\<forall>i<length pages. rest_body (re_get env path (params @ [(''per_page'', digits_of_nat GITHUB_PAGE_SIZE), (''page'', digits_of_nat (page + i))]))
          = Inr (JArr (pages ! i)))"

lemma whole_read_one: "rest_body (re_get env path (params @ [(''per_page'', digits_of_nat GITHUB_PAGE_SIZE), (''page'', digits_of_nat page)])) = Inr (JArr b)
    \<Longrightarrow> length b < GITHUB_PAGE_SIZE \<Longrightarrow> whole_read env path params page [b]"
  by (simp add: whole_read_def)

lemma whole_read_Cons:
  assumes "rest_body (re_get env path (params @ [(''per_page'', digits_of_nat GITHUB_PAGE_SIZE), (''page'', digits_of_nat page)])) = Inr (JArr b)"
    "GITHUB_PAGE_SIZE \<le> length b" "whole_read env path params (Suc page) pages"
  shows "whole_read env path params page (b # pages)"
  using assms by (auto simp: whole_read_def nth_Cons split: nat.splits)

lemma comment_pages_whole:
  "comment_pages_from env path params page left = Inr xs \<Longrightarrow>
    \<exists>pages. whole_read env path params page pages \<and> length pages \<le> left \<and> xs = filter is_object (concat pages)"
proof (induction left arbitrary: page xs)
  case (Suc left)
  obtain b where b: "rest_body (re_get env path (params @ [(''per_page'', digits_of_nat GITHUB_PAGE_SIZE), (''page'', digits_of_nat page)])) = Inr (JArr b)"
    using Suc.prems by (auto split: sum.splits json.splits)
  show ?case
  proof (cases "length b < GITHUB_PAGE_SIZE")
    case True
    then show ?thesis using Suc.prems b whole_read_one [OF b] by (intro exI [of _ "[b]"]) (simp add: Let_def)
  next
    case False
    then obtain more where "comment_pages_from env path params (Suc page) left = Inr more" "xs = filter is_object b @ more"
      using Suc.prems b by (auto simp: Let_def res_bind_Inr_iff)
    then obtain pages where "whole_read env path params (Suc page) pages" "length pages \<le> left" "xs = filter is_object b @ filter is_object (concat pages)"
      using Suc.IH by blast
    then show ?thesis using whole_read_Cons [OF b] False by (intro exI [of _ "b # pages"]) simp
  qed
qed simp

text \<open>A thread is whole or it is not there.  A comment read that gives anything gives every comment of a
  complete read: each page answered and was a list, all but the last were full, and the last was
  not; it took at most fifty pages.  A page that fails, that is no list, or that would be the
  fifty-first ends the read with an error and nothing.\<close>

theorem threads_are_whole:
  assumes "rest_fetch_comments env n since = Inr cs"
  shows "\<exists>pages. whole_read env (thread_path env n) (case since of None \<Rightarrow> [] | Some t \<Rightarrow> [(''since'', iso_utc t)]) 1 pages \<and> length pages \<le> 50
    \<and> cs = sort_key (\<lambda>c. wall (rc_created_at c)) (map (parse_comment env n) (filter is_object (concat pages)))"
proof -
  obtain raw where raw: "comment_pages env (thread_path env n) (case since of None \<Rightarrow> [] | Some t \<Rightarrow> [(''since'', iso_utc t)]) = Inr raw"
    and cs: "oldest_first (map (parse_comment env n) raw) = Inr cs"
    using assms by (auto simp: rest_fetch_comments_def res_bind_Inr_iff)
  have "cs = sort_key (\<lambda>c. wall (rc_created_at c)) (map (parse_comment env n) raw)"
    using cs by (auto simp: oldest_first_def Let_def split: if_splits)
  then show ?thesis using comment_pages_whole [OF raw [unfolded comment_pages_def]] by (auto simp: COMMENT_MAX_PAGES_def)
qed

definition a_comment :: "string \<Rightarrow> json" where
  "a_comment i = JObj [(''id'', JStr i), (''issue_url'', JStr ''https://api/repos/a/b/issues/7'')]"

theorem threads_are_whole_witness:
  "\<exists>cs pages. rest_fetch_comments (ex_host [a_comment ''1'', JInt 0, a_comment ''2'']) 7 None = Inr cs \<and> map rc_id cs = [''1'', ''2'']
    \<and> whole_read (ex_host [a_comment ''1'', JInt 0, a_comment ''2'']) (thread_path (ex_host [a_comment ''1'', JInt 0, a_comment ''2'']) 7) [] 1 pages"
proof -
  have "map_sum id (map rc_id) (rest_fetch_comments (ex_host [a_comment ''1'', JInt 0, a_comment ''2'']) 7 None) = Inr [''1'', ''2'']"
    by code_simp
  then obtain cs where cs: "rest_fetch_comments (ex_host [a_comment ''1'', JInt 0, a_comment ''2'']) 7 None = Inr cs" "map rc_id cs = [''1'', ''2'']"
    by (cases "rest_fetch_comments (ex_host [a_comment ''1'', JInt 0, a_comment ''2'']) 7 None") auto
  then show ?thesis using threads_are_whole [OF cs(1)] by auto
qed

section \<open>The comments of many issues\<close>

definition thread_in :: "rest_env \<Rightarrow> json list \<Rightarrow> int \<Rightarrow> rest_comment list" where
  "thread_in env raw n = map (parse_comment env n) (filter (\<lambda>item. issue_link item = Inr (Some n)) raw)"

lemma group_comments_threads:
  "group_comments env raw d = Inr d' \<Longrightarrow> dkeys d' = dkeys d \<and> dget d' k = map_option (\<lambda>cs. cs @ thread_in env raw k) (dget d k)"
proof (induction raw arbitrary: d)
  case Nil
  then show ?case by (simp add: thread_in_def option.map_ident)
next
  case (Cons item raw)
  obtain n where n: "issue_link item = Inr n" using Cons.prems by (auto simp: res_bind_Inr_iff)
  show ?case
  proof (cases "\<exists>j cs. n = Some j \<and> dget d j = Some cs")
    case True
    then obtain j cs where j: "n = Some j" "dget d j = Some cs" by blast
    then have "dkeys (dset j (cs @ [parse_comment env j item]) d) = dkeys d" using dget_None_iff [of d j] by (simp add: dkeys_def dset_def update_keys)
    then show ?thesis using Cons.IH [of "dset j (cs @ [parse_comment env j item]) d"] Cons.prems n j
      by (auto simp: thread_in_def dget_dset)
  next
    case False
    then have "group_comments env raw d = Inr d'" "n = Some k \<longrightarrow> dget d k = None" using Cons.prems n by (auto split: option.splits)
    then show ?thesis using Cons.IH [of d] n by (auto simp: thread_in_def)
  qed
qed

lemma oldest_first_Inr: "oldest_first cs = Inr xs \<Longrightarrow> xs = sort_key (\<lambda>c. wall (rc_created_at c)) cs"
  by (auto simp: oldest_first_def Let_def split: if_splits)

lemma sort_threads_get: "sort_threads d = Inr d' \<Longrightarrow> dkeys d' = dkeys d
    \<and> dget d' k = map_option (sort_key (\<lambda>c. wall (rc_created_at c))) (dget d k)"
proof (induction d arbitrary: d')
  case (Cons kv d)
  then show ?case by (cases kv) (auto simp: res_bind_Inr_iff dkeys_def dget_Cons dest!: oldest_first_Inr)
qed (simp add: dkeys_def)

lemma fan_out_get: "fan_out env ns = Inr d \<Longrightarrow> dkeys d = ns \<and> (n \<in> set ns \<longrightarrow> (\<exists>cs. dget d n = Some cs \<and> rest_fetch_comments env n None = Inr cs))"
proof (induction ns arbitrary: d)
  case (Cons m ns)
  then show ?case by (cases "n = m") (auto simp: res_bind_Inr_iff dkeys_def dget_Cons)
qed (simp add: dkeys_def)

lemma dget_empty_threads: "dget (map (\<lambda>n. (n, [])) ns) k = (if k \<in> set ns then Some [] else None)"
  by (induction ns) (auto simp: dget_Cons)

text \<open>C30: reading the threads of many issues at once gives each of them what reading it alone would.
  The issues are those that were asked for, each once.  Without a time to start from, each thread is
  the read of that issue; with one, it is the comments of the repository's stream that name the
  issue in their link, oldest first, in the stream's order where two are of one time; comments on
  anything else are left out.\<close>

theorem bulk_read_is_each_thread:
  assumes "rest_fetch_comments_bulk env numbers since = Inr d"
  shows "dkeys d = sort (remdups numbers) \<and> (case since of
      None \<Rightarrow> (\<forall>n. n \<in> set numbers \<longrightarrow> (\<exists>cs. dget d n = Some cs \<and> rest_fetch_comments env n None = Inr cs))
    | Some t \<Rightarrow> numbers = [] \<or> (\<exists>raw. comment_pages env (bulk_path env) [(''since'', iso_utc t), (''sort'', ''updated''), (''direction'', ''asc'')] = Inr raw
        \<and> (\<forall>n. n \<in> set numbers \<longrightarrow> dget d n = Some (sort_key (\<lambda>c. wall (rc_created_at c)) (thread_in env raw n)))))"
proof (cases "numbers = []")
  case True
  then show ?thesis using assms by (simp add: rest_fetch_comments_bulk_def dkeys_def split: option.splits)
next
  case ne: False
  let ?wanted = "sort (remdups numbers)"
  have w: "?wanted \<noteq> []" "set ?wanted = set numbers" using ne by (auto simp flip: set_empty)
  show ?thesis
  proof (cases since)
    case None
    then have "fan_out env ?wanted = Inr d" using assms w(1) by (simp add: rest_fetch_comments_bulk_def Let_def)
    then show ?thesis using fan_out_get [of env ?wanted d] None w(2) by auto
  next
    case (Some t)
    then obtain raw g where raw: "comment_pages env (bulk_path env) [(''since'', iso_utc t), (''sort'', ''updated''), (''direction'', ''asc'')] = Inr raw"
      and g: "group_comments env raw (map (\<lambda>n. (n, [])) ?wanted) = Inr g" and d: "sort_threads g = Inr d"
      using assms w(1) by (auto simp: rest_fetch_comments_bulk_def Let_def res_bind_Inr_iff)
    have "dkeys d = ?wanted" using group_comments_threads [OF g] sort_threads_get [OF d] by (simp add: dkeys_def comp_def)
    moreover have "dget d n = Some (sort_key (\<lambda>c. wall (rc_created_at c)) (thread_in env raw n))" if "n \<in> set numbers" for n
      using group_comments_threads [OF g, of n] sort_threads_get [OF d, of n] that w(2) by (simp add: dget_empty_threads)
    ultimately show ?thesis using Some raw by auto
  qed
qed

theorem bulk_read_is_each_thread_witness:
  "\<exists>d cs. rest_fetch_comments_bulk (ex_host [a_comment ''1'', a_comment ''2'']) [9, 7, 9] (Some 0) = Inr d
    \<and> dkeys d = [7, 9] \<and> dget d 7 = Some cs \<and> length cs = 2"
proof -
  have "map_sum id (map (map_prod id (map rc_id))) (rest_fetch_comments_bulk (ex_host [a_comment ''1'', a_comment ''2'']) [9, 7, 9] (Some 0))
      = Inr [(7, [''1'', ''2'']), (9, [])]" by code_simp
  then obtain d where d: "rest_fetch_comments_bulk (ex_host [a_comment ''1'', a_comment ''2'']) [9, 7, 9] (Some 0) = Inr d"
    and m: "map (map_prod id (map rc_id)) d = [(7, [''1'', ''2'']), (9, [])]"
    by (cases "rest_fetch_comments_bulk (ex_host [a_comment ''1'', a_comment ''2'']) [9, 7, 9] (Some 0)") auto
  have "dkeys d = [7, 9]" using bulk_read_is_each_thread [OF d] by (simp add: insort_key.simps)
  moreover obtain cs rest where "d = (7, cs) # rest" "map rc_id cs = [''1'', ''2'']" using m by (cases d) auto
  ultimately show ?thesis using d by (auto simp: dget_Cons dest: arg_cong [where f = length])
qed

end
