(* ===== verification/McpTools.thy ===== *)
theory McpTools
  imports GitConfig
begin

text \<open>
  The tool catalogue of the MCP server (\<open>MCP_TOOLS\<close>, \<open>BOARD_TOOLS\<close> and \<open>TOOL_SCOPES\<close> of \<open>mcp.py\<close>) and
  the capability matrix of \<open>capabilities.py\<close>.  A tool is its name and the shape of its input schema;
  the sentences that describe it are not modelled.  The lemmas check the three lists against one
  another.
\<close>

section \<open>Input schemas\<close>

datatype schema =
    S_string
  | S_integer
  | S_boolean
  | S_strings
  | S_enum "string list"
  | S_integer_or_null
  | S_string_or_null

record tool_spec =
  tl_name :: string
  tl_required :: "string list"
  tl_properties :: "(string, schema) dict"

definition plain_tool :: "string \<Rightarrow> tool_spec" where
  "plain_tool name = \<lparr>tl_name = name, tl_required = [], tl_properties = []\<rparr>"

definition TIER_PROP :: schema where
  "TIER_PROP = S_enum [''low'', ''medium'', ''hard'']"

definition STATUS_PROP :: schema where
  "STATUS_PROP = S_enum [''backlog'', ''ready'', ''in_progress'', ''blocked'', ''done'']"

definition CARD_FIELDS :: "(string, schema) dict" where
  "CARD_FIELDS = [(''title'', S_string), (''acceptance_criteria'', S_strings), (''tier'', TIER_PROP), (''assignee'', S_string),
     (''milestone'', S_string), (''issue_ref'', S_string), (''repository_id'', S_integer_or_null)]"

definition keyed_tool :: "string \<Rightarrow> tool_spec" where
  "keyed_tool name = \<lparr>tl_name = name, tl_required = [''card_key''], tl_properties = [(''card_key'', S_string)]\<rparr>"

definition connection_tool :: "string \<Rightarrow> tool_spec" where
  "connection_tool name = \<lparr>tl_name = name, tl_required = [''connection_id''], tl_properties = [(''connection_id'', S_integer)]\<rparr>"

definition repository_tool :: "string \<Rightarrow> tool_spec" where
  "repository_tool name = \<lparr>tl_name = name, tl_required = [''repository_id''], tl_properties = [(''repository_id'', S_integer)]\<rparr>"

section \<open>The catalogue\<close>

definition PIPELINE_TOOLS :: "tool_spec list" where
  "PIPELINE_TOOLS = [
     plain_tool ''cfactory_list_workitems'',
     \<lparr>tl_name = ''cfactory_get_workitem'', tl_required = [''correlation_key''], tl_properties = [(''correlation_key'', S_string)]\<rparr>,
     \<lparr>tl_name = ''cfactory_get_timeline'', tl_required = [''correlation_key''], tl_properties = [(''correlation_key'', S_string)]\<rparr>,
     plain_tool ''cfactory_get_rollups'',
     plain_tool ''cfactory_get_anomalies'']"

definition CARD_READ_TOOLS :: "tool_spec list" where
  "CARD_READ_TOOLS = [
     plain_tool ''cfactory_card_sync_state'',
     \<lparr>tl_name = ''cfactory_list_cards'', tl_required = [],
       tl_properties = [(''status'', STATUS_PROP), (''milestone'', S_string), (''assignee'', S_string), (''tier'', TIER_PROP)]\<rparr>,
     keyed_tool ''cfactory_get_card'',
     keyed_tool ''cfactory_card_comments'']"

definition CARD_WRITE_TOOLS :: "tool_spec list" where
  "CARD_WRITE_TOOLS = [
     \<lparr>tl_name = ''cfactory_create_card'', tl_required = [''title''],
       tl_properties = [(''card_key'', S_string)] @ CARD_FIELDS
         @ [(''status'', STATUS_PROP), (''priority'', S_integer), (''correlation_key'', S_string)]\<rparr>,
     \<lparr>tl_name = ''cfactory_update_card'', tl_required = [''card_key''], tl_properties = [(''card_key'', S_string)] @ CARD_FIELDS\<rparr>,
     \<lparr>tl_name = ''cfactory_move_card'', tl_required = [''card_key'', ''status''],
       tl_properties = [(''card_key'', S_string), (''status'', STATUS_PROP)]\<rparr>,
     \<lparr>tl_name = ''cfactory_reprioritise_card'', tl_required = [''card_key'', ''priority''],
       tl_properties = [(''card_key'', S_string), (''priority'', S_integer)]\<rparr>,
     keyed_tool ''cfactory_sync_card_github'']"

definition CARD_ACTION_TOOLS :: "tool_spec list" where
  "CARD_ACTION_TOOLS = [
     keyed_tool ''cfactory_plan_card'',
     keyed_tool ''cfactory_code_card'',
     keyed_tool ''cfactory_test_card'',
     keyed_tool ''cfactory_run_card'',
     \<lparr>tl_name = ''cfactory_import_cards'', tl_required = [],
       tl_properties = [(''project'', S_string), (''repository_id'', S_integer), (''full'', S_boolean)]\<rparr>,
     keyed_tool ''cfactory_delete_card'']"

definition CONFIG_TOOLS :: "tool_spec list" where
  "CONFIG_TOOLS = [
     plain_tool ''cfactory_get_git_config'',
     \<lparr>tl_name = ''cfactory_set_git_config'', tl_required = [],
       tl_properties = [(''provider'', S_enum SUPPORTED_PROVIDERS), (''base_url'', S_string), (''project'', S_string),
         (''intake_project'', S_string), (''aifactory_project_id'', S_string), (''default_labels'', S_strings)]\<rparr>,
     plain_tool ''cfactory_verify_git_config'',
     \<lparr>tl_name = ''cfactory_set_git_credential'', tl_required = [''credential''], tl_properties = [(''credential'', S_string)]\<rparr>,
     plain_tool ''cfactory_delete_git_credential'',
     plain_tool ''cfactory_git_capabilities'']"

definition CONNECTION_TOOLS :: "tool_spec list" where
  "CONNECTION_TOOLS = [
     plain_tool ''cfactory_list_git_connections'',
     \<lparr>tl_name = ''cfactory_create_git_connection'', tl_required = [],
       tl_properties = [(''provider'', S_enum SUPPORTED_PROVIDERS), (''base_url'', S_string), (''label'', S_string)]\<rparr>,
     \<lparr>tl_name = ''cfactory_update_git_connection'', tl_required = [''connection_id''],
       tl_properties = [(''connection_id'', S_integer), (''provider'', S_enum SUPPORTED_PROVIDERS), (''base_url'', S_string),
         (''label'', S_string)]\<rparr>,
     connection_tool ''cfactory_delete_git_connection'',
     connection_tool ''cfactory_verify_git_connection'',
     \<lparr>tl_name = ''cfactory_set_git_connection_credential'', tl_required = [''connection_id'', ''credential''],
       tl_properties = [(''connection_id'', S_integer), (''credential'', S_string)]\<rparr>,
     connection_tool ''cfactory_delete_git_connection_credential'',
     connection_tool ''cfactory_start_git_install'',
     connection_tool ''cfactory_delete_git_install'']"

definition REPOSITORY_TOOLS :: "tool_spec list" where
  "REPOSITORY_TOOLS = [
     \<lparr>tl_name = ''cfactory_list_git_repositories'', tl_required = [], tl_properties = [(''connection_id'', S_integer)]\<rparr>,
     \<lparr>tl_name = ''cfactory_create_git_repository'', tl_required = [''connection_id'', ''project''],
       tl_properties = [(''connection_id'', S_integer), (''project'', S_string), (''intake_project'', S_string),
         (''aifactory_project_id'', S_string), (''default_labels'', S_strings), (''make_default'', S_boolean)]\<rparr>,
     \<lparr>tl_name = ''cfactory_update_git_repository'', tl_required = [''repository_id''],
       tl_properties = [(''repository_id'', S_integer), (''project'', S_string), (''intake_project'', S_string_or_null),
         (''aifactory_project_id'', S_string_or_null), (''default_labels'', S_strings)]\<rparr>,
     repository_tool ''cfactory_delete_git_repository'',
     repository_tool ''cfactory_set_default_git_repository'']"

definition MCP_TOOLS :: "tool_spec list" where
  "MCP_TOOLS = PIPELINE_TOOLS @ CARD_READ_TOOLS @ CARD_WRITE_TOOLS @ CARD_ACTION_TOOLS @ CONFIG_TOOLS @ CONNECTION_TOOLS @ REPOSITORY_TOOLS"

section \<open>Scopes\<close>

definition READ :: string where "READ = ''read''"
definition WRITE :: string where "WRITE = ''write''"

definition TOOL_SCOPES :: "(string, string) dict" where
  "TOOL_SCOPES = [
     (''cfactory_list_workitems'', READ), (''cfactory_get_workitem'', READ), (''cfactory_get_timeline'', READ),
     (''cfactory_get_rollups'', READ), (''cfactory_get_anomalies'', READ), (''cfactory_list_cards'', READ),
     (''cfactory_card_sync_state'', READ), (''cfactory_get_card'', READ), (''cfactory_card_comments'', READ),
     (''cfactory_create_card'', WRITE), (''cfactory_update_card'', WRITE), (''cfactory_move_card'', WRITE),
     (''cfactory_reprioritise_card'', WRITE), (''cfactory_sync_card_github'', WRITE), (''cfactory_import_cards'', WRITE),
     (''cfactory_plan_card'', WRITE), (''cfactory_code_card'', WRITE), (''cfactory_test_card'', WRITE),
     (''cfactory_run_card'', WRITE), (''cfactory_delete_card'', WRITE), (''cfactory_get_git_config'', READ),
     (''cfactory_set_git_config'', WRITE), (''cfactory_verify_git_config'', WRITE), (''cfactory_set_git_credential'', WRITE),
     (''cfactory_delete_git_credential'', WRITE), (''cfactory_git_capabilities'', READ),
     (''cfactory_list_git_connections'', READ), (''cfactory_create_git_connection'', WRITE),
     (''cfactory_update_git_connection'', WRITE), (''cfactory_delete_git_connection'', WRITE),
     (''cfactory_verify_git_connection'', WRITE), (''cfactory_set_git_connection_credential'', WRITE),
     (''cfactory_delete_git_connection_credential'', WRITE), (''cfactory_start_git_install'', WRITE),
     (''cfactory_delete_git_install'', WRITE), (''cfactory_list_git_repositories'', READ),
     (''cfactory_create_git_repository'', WRITE), (''cfactory_update_git_repository'', WRITE),
     (''cfactory_delete_git_repository'', WRITE), (''cfactory_set_default_git_repository'', WRITE)]"

definition FULL_SCOPE :: "string list" where
  "FULL_SCOPE = [READ, WRITE]"

text \<open>A tool without an entry requires write.\<close>

definition tool_scope :: "string \<Rightarrow> string" where
  "tool_scope name = (case dget TOOL_SCOPES name of None \<Rightarrow> WRITE | Some s \<Rightarrow> s)"

lemmas catalogue_defs = MCP_TOOLS_def PIPELINE_TOOLS_def CARD_READ_TOOLS_def CARD_WRITE_TOOLS_def CARD_ACTION_TOOLS_def
  CONFIG_TOOLS_def CONNECTION_TOOLS_def REPOSITORY_TOOLS_def plain_tool_def keyed_tool_def connection_tool_def repository_tool_def
  CARD_FIELDS_def

lemma scopes_distinct: "dict_ok TOOL_SCOPES"
  by (simp add: TOOL_SCOPES_def dict_ok_def dkeys_def)

lemma two_swaps: "set (p @ [b, a] @ w @ [f, g, h, i, e] @ r) = set (p @ [a, b] @ w @ [e, f, g, h, i] @ r)"
  by auto

lemma every_tool_has_a_scope: "set (map tl_name MCP_TOOLS) = set (dkeys TOOL_SCOPES)"
proof -
  let ?w = "[''cfactory_get_card'', ''cfactory_card_comments''] @ map tl_name CARD_WRITE_TOOLS"
  let ?r = "[''cfactory_delete_card''] @ map tl_name (CONFIG_TOOLS @ CONNECTION_TOOLS @ REPOSITORY_TOOLS)"
  have keys: "dkeys TOOL_SCOPES = map tl_name PIPELINE_TOOLS @ [''cfactory_list_cards'', ''cfactory_card_sync_state''] @ ?w
     @ [''cfactory_import_cards'', ''cfactory_plan_card'', ''cfactory_code_card'', ''cfactory_test_card'', ''cfactory_run_card''] @ ?r"
    by (simp add: catalogue_defs TOOL_SCOPES_def dkeys_def)
  have names: "map tl_name MCP_TOOLS = map tl_name PIPELINE_TOOLS @ [''cfactory_card_sync_state'', ''cfactory_list_cards''] @ ?w
     @ [''cfactory_plan_card'', ''cfactory_code_card'', ''cfactory_test_card'', ''cfactory_run_card'', ''cfactory_import_cards''] @ ?r"
    by (simp add: catalogue_defs)
  show ?thesis unfolding keys names by (rule two_swaps)
qed

lemma required_are_properties:
  "list_all (\<lambda>t. list_all (\<lambda>r. r \<in> set (dkeys (tl_properties t))) (tl_required t)) MCP_TOOLS"
  by (simp add: catalogue_defs dkeys_def)

section \<open>Capabilities\<close>

datatype support_level = FULL | PARTIAL | NONE

record capability =
  cp_key :: string
  cp_support :: "(string, support_level) dict"

definition CAPABILITIES :: "capability list" where
  "CAPABILITIES = [
     \<lparr>cp_key = ''board_sync'', cp_support = [(GITHUB, FULL), (GITLAB, FULL), (AZURE_DEVOPS, FULL)]\<rparr>,
     \<lparr>cp_key = ''label_intake'', cp_support = [(GITHUB, FULL), (GITLAB, FULL), (AZURE_DEVOPS, FULL)]\<rparr>,
     \<lparr>cp_key = ''parr'', cp_support = [(GITHUB, FULL), (GITLAB, FULL), (AZURE_DEVOPS, FULL)]\<rparr>,
     \<lparr>cp_key = ''assign_to_user'', cp_support = [(GITHUB, FULL), (GITLAB, PARTIAL), (AZURE_DEVOPS, NONE)]\<rparr>,
     \<lparr>cp_key = ''enable_auto_merge'', cp_support = [(GITHUB, FULL), (GITLAB, NONE), (AZURE_DEVOPS, NONE)]\<rparr>,
     \<lparr>cp_key = ''auto_pr'', cp_support = [(GITHUB, FULL), (GITLAB, NONE), (AZURE_DEVOPS, NONE)]\<rparr>]"

definition capability_matrix :: "string list \<times> capability list" where
  "capability_matrix = (SUPPORTED_PROVIDERS, CAPABILITIES)"

definition supports :: "string option \<Rightarrow> string \<Rightarrow> support_level" where
  "supports provider key = (let kind = lower (strip (case provider of None \<Rightarrow> [] | Some p \<Rightarrow> p))
     in case List.find (\<lambda>c. cp_key c = key) CAPABILITIES of
          None \<Rightarrow> NONE
        | Some c \<Rightarrow> (case dget (cp_support c) kind of None \<Rightarrow> NONE | Some l \<Rightarrow> l))"

text \<open>Auto-merge is claimed for one host and for no other, known or unknown.\<close>

lemma auto_merge_only_on_github:
  "supports provider ''enable_auto_merge'' = FULL \<longleftrightarrow> lower (strip (case provider of None \<Rightarrow> [] | Some p \<Rightarrow> p)) = GITHUB"
  by (auto simp: supports_def CAPABILITIES_def Let_def GITHUB_def GITLAB_def AZURE_DEVOPS_def)

lemma capabilities_cover_providers: "list_all (\<lambda>c. dkeys (cp_support c) = SUPPORTED_PROVIDERS) CAPABILITIES"
  by (simp add: CAPABILITIES_def SUPPORTED_PROVIDERS_def dkeys_def)

lemma unknown_is_unsupported:
  assumes "lower (strip p) \<notin> set SUPPORTED_PROVIDERS"
  shows "supports (Some p) key = NONE"
proof (cases "List.find (\<lambda>c. cp_key c = key) CAPABILITIES")
  case None
  then show ?thesis by (simp add: supports_def)
next
  case (Some c)
  then have "c \<in> set CAPABILITIES" by (auto simp: find_Some_iff)
  then have "dkeys (cp_support c) = SUPPORTED_PROVIDERS" using capabilities_cover_providers by (simp add: list_all_iff)
  then have "dget (cp_support c) (lower (strip p)) = None" using assms by (simp add: dget_None_iff)
  then show ?thesis using Some by (simp add: supports_def)
qed

end
