(* ===== verification/Identity.thy ===== *)
theory Identity
  imports Auth Cards
begin

text \<open>
  Who acted, and for which tenant: \<open>enterprise.py\<close> and \<open>resolve_tenant\<close> of \<open>config.py\<close>.  Verifying an
  ID token against the issuer's keys is the JWT library's work: \<open>decode\<close> gives the claims of a token
  that verifies and \<open>None\<close> for every failure, which is what the handler makes of any exception.
\<close>

definition LOCAL_IDENTITY :: string where "LOCAL_IDENTITY = ''local''"
definition ACTOR_MAX_LEN :: nat where "ACTOR_MAX_LEN = 120"
definition FIRST_PRINTABLE :: nat where "FIRST_PRINTABLE = 32"

definition usable_claim :: "jobj \<Rightarrow> string \<Rightarrow> string option" where
  "usable_claim claims name = (case dget claims name of
     Some (JStr s) \<Rightarrow> (let value = strip s in
        if value = [] \<or> list_ex (\<lambda>c. isspace c \<or> (of_char c :: nat) < FIRST_PRINTABLE) value then None else Some value)
   | _ \<Rightarrow> None)"

fun first_claim :: "jobj \<Rightarrow> string list \<Rightarrow> string option" where
  "first_claim claims [] = None"
| "first_claim claims (n # ns) = (case usable_claim claims n of Some v \<Rightarrow> Some v | None \<Rightarrow> first_claim claims ns)"

definition claim_actor :: "jobj \<Rightarrow> string option" where
  "claim_actor claims = map_option (\<lambda>v. take ACTOR_MAX_LEN (''user:'' @ v))
     (first_claim claims [''email'', ''preferred_username'', ''sub''])"

definition removeprefix :: "string \<Rightarrow> string \<Rightarrow> string" where
  "removeprefix p s = (if startswith s p then drop (length p) s else s)"

definition oidc_actor :: "(string \<Rightarrow> jobj option) \<Rightarrow> string option \<Rightarrow> string option \<Rightarrow> string option" where
  "oidc_actor decode issuer id_token =
    (if \<not> truthy id_token \<or> \<not> truthy issuer then None
     else let token = strip (removeprefix ''bearer '' (removeprefix ''Bearer '' (the id_token)))
          in if token = [] then None else Option.bind (decode token) claim_actor)"

definition identity_dep ::
  "keystore \<Rightarrow> (string \<Rightarrow> string) \<Rightarrow> (string \<Rightarrow> jobj option) \<Rightarrow> string option \<Rightarrow> string option \<Rightarrow> string option \<Rightarrow> string option
   \<Rightarrow> auth_error + string" where
  "identity_dep ks sha decode issuer authorization x_api_key id_token =
    (case oidc_actor decode issuer id_token of
       Some user \<Rightarrow> Inr user
     | None \<Rightarrow> (let key = extract_key authorization x_api_key in
         if configured ks \<and> key \<noteq> None
         then res_bind (scopes_for ks key) (\<lambda>sc. Inr (if sc \<noteq> None then key_actor sha (the key) else LOCAL_IDENTITY))
         else Inr LOCAL_IDENTITY))"

definition resolve_tenant :: "bool \<Rightarrow> string option \<Rightarrow> string" where
  "resolve_tenant multi_tenant x_tenant_id =
    (if \<not> multi_tenant then DEFAULT_TENANT
     else let t = strip (case x_tenant_id of None \<Rightarrow> [] | Some v \<Rightarrow> v) in if t = [] then DEFAULT_TENANT else t)"

text \<open>\<open>store_dep\<close> and \<open>cards_store_dep\<close>: the scope of the stores a request works on.\<close>

definition request_scope :: "bool \<Rightarrow> string option \<Rightarrow> string option" where
  "request_scope multi_tenant x_tenant_id = (if multi_tenant then Some (resolve_tenant multi_tenant x_tenant_id) else None)"

lemma first_claim_clean:
  "first_claim claims ns = Some v \<Longrightarrow> v \<noteq> [] \<and> (\<forall>c\<in>set v. \<not> isspace c \<and> 32 \<le> (of_char c :: nat))"
  by (induction ns) (auto simp: usable_claim_def Let_def FIRST_PRINTABLE_def list_ex_iff not_less
    split: option.splits json.splits if_splits)

text \<open>The actor a verified token names fits the audit column and forges no second field in it.\<close>

lemma claim_actor_is_one_field:
  assumes "claim_actor claims = Some a"
  shows "length a \<le> 120 \<and> startswith a ''user:'' \<and> (\<forall>c\<in>set a. \<not> isspace c \<and> 32 \<le> (of_char c :: nat))"
proof -
  from assms obtain v where v: "first_claim claims [''email'', ''preferred_username'', ''sub''] = Some v"
    and a: "a = take 120 (''user:'' @ v)"
    by (auto simp: claim_actor_def ACTOR_MAX_LEN_def)
  have "\<forall>c\<in>set (''user:'' @ v). \<not> isspace c \<and> 32 \<le> (of_char c :: nat)"
    using first_claim_clean [OF v] by (simp add: isspace_def Let_def)
  then have "\<forall>c\<in>set a. \<not> isspace c \<and> 32 \<le> (of_char c :: nat)" unfolding a by (meson in_set_takeD)
  then show ?thesis by (simp add: a)
qed

text \<open>The trail never holds the presented key: it names a verified person, a digest of the key, or nobody.\<close>

lemma identity_is_not_the_key:
  assumes "identity_dep ks sha decode issuer authorization x_api_key id_token = Inr actor"
  shows "(\<exists>claims. claim_actor claims = Some actor) \<or> actor = LOCAL_IDENTITY
    \<or> (\<exists>key. extract_key authorization x_api_key = Some key \<and> actor = key_actor sha key)"
  using assms
  by (auto simp: identity_dep_def oidc_actor_def Let_def res_bind_Inr_iff bind_eq_Some_conv
    split: option.splits if_splits)

end
