(* ===== verification/Search.thy ===== *)
theory Search
  imports Adapters "HOL-Library.Product_Lexorder" "HOL-Library.List_Lexorder" "HOL-Library.Char_ord" "HOL-Library.Multiset"
begin

text \<open>
  The federated search of \<open>search.py\<close> with its route, and the discovery of live agents of
  \<open>live_agents.py\<close>.  A result is ranked by the tuple the code sorts on (score, recency, key);
  \<open>list.sort(reverse=True)\<close> keeps the order of equal elements, so it is the reverse of the stable
  sort of the reversed list.  The reference the search is compared with is \<open>mentions\<close>: an item
  is found exactly when one of its searched fields contains the query.
\<close>

section \<open>Sorting\<close>

definition sort_desc :: "('a \<Rightarrow> 'b::linorder) \<Rightarrow> 'a list \<Rightarrow> 'a list" where
  "sort_desc f xs = rev (sort_key f (rev xs))"

lemma mset_sort_desc [simp]: "mset (sort_desc f xs) = mset xs"
  by (simp add: sort_desc_def)

lemma set_sort_desc [simp]: "set (sort_desc f xs) = set xs"
  by (simp add: sort_desc_def)

lemma length_sort_desc [simp]: "length (sort_desc f xs) = length xs"
  by (simp add: sort_desc_def)

lemma sum_sort_desc [simp]: "sum_list (map f (sort_desc g xs)) = (sum_list (map f xs) :: 'c::comm_monoid_add)"
  by (simp flip: sum_mset_sum_list)

lemma sorted_sort_desc: "sorted_wrt (\<lambda>a b. f b \<le> f a) (sort_desc f xs)"
  using sorted_sort_key [of f "rev xs"] by (simp add: sort_desc_def sorted_wrt_rev sorted_wrt_map)

section \<open>Scores\<close>

definition EXACT_KEY :: nat where "EXACT_KEY = 100"
definition PREFIX_KEY :: nat where "PREFIX_KEY = 60"
definition SUBSTR_KEY :: nat where "SUBSTR_KEY = 40"
definition PREFIX_TITLE :: nat where "PREFIX_TITLE = 50"
definition SUBSTR_TITLE :: nat where "SUBSTR_TITLE = 30"
definition SUBSTR_REPO :: nat where "SUBSTR_REPO = 20"
definition SUBSTR_STATE :: nat where "SUBSTR_STATE = 10"

lemmas score_values = EXACT_KEY_def PREFIX_KEY_def SUBSTR_KEY_def PREFIX_TITLE_def SUBSTR_TITLE_def
  SUBSTR_REPO_def SUBSTR_STATE_def

definition score_text :: "string option \<Rightarrow> string \<Rightarrow> nat \<Rightarrow> nat \<Rightarrow> nat" where
  "score_text value needle prefix substr =
    (if \<not> truthy value then 0
     else let hay = lower (the value) in
       if startswith hay needle then prefix else if contains_str hay needle then substr else 0)"

definition score_service :: "service_state \<Rightarrow> string \<Rightarrow> nat \<times> bool" where
  "score_service slice needle =
    (let repo_score = score_text (ss_repo slice) needle SUBSTR_REPO SUBSTR_REPO;
         state_score = max (score_text (ss_status slice) needle SUBSTR_STATE SUBSTR_STATE)
           (max (score_text (ss_phase slice) needle SUBSTR_STATE SUBSTR_STATE)
                (score_text (ss_task_id slice) needle SUBSTR_STATE SUBSTR_STATE))
     in (max repo_score state_score, repo_score > 0))"

definition key_scores :: "string \<Rightarrow> string \<Rightarrow> (string, nat) dict" where
  "key_scores key needle =
    (if key = needle then [(''key'', EXACT_KEY)]
     else if startswith key needle then [(''key'', PREFIX_KEY)]
     else if contains_str key needle then [(''key'', SUBSTR_KEY)] else [])"

definition add_service_score :: "work_item \<Rightarrow> string \<Rightarrow> service \<Rightarrow> (string, nat) dict \<Rightarrow> (string, nat) dict" where
  "add_service_score wi needle svc scores =
    (let (svc_score, repo_hit) = score_service (wi_stage svc wi) needle;
         field = (if repo_hit then ''repo'' else ''state'')
     in if svc_score = 0 then scores
        else dset field (max (case dget scores field of None \<Rightarrow> 0 | Some v \<Rightarrow> v) svc_score) scores)"

definition item_scores :: "work_item \<Rightarrow> string \<Rightarrow> (string, nat) dict" where
  "item_scores wi needle =
    (let scores = key_scores (lower (wi_key wi)) needle;
         title_score = score_text (wi_title wi) needle PREFIX_TITLE SUBSTR_TITLE;
         scores' = (if title_score = 0 then scores else dset ''title'' title_score scores)
     in fold (add_service_score wi needle) PIPELINE_ORDER scores')"

definition score_item :: "work_item \<Rightarrow> string \<Rightarrow> nat \<times> string list" where
  "score_item wi needle =
    (let scores = item_scores wi needle
     in if scores = [] then (0, [])
        else (foldr max (dvalues scores) 0, sort_desc (\<lambda>f. the (dget scores f)) (dkeys scores)))"

section \<open>Results\<close>

definition services_present :: "work_item \<Rightarrow> service list" where
  "services_present wi = filter (\<lambda>s. truthy (ss_status (wi_stage s wi))) PIPELINE_ORDER"

definition overall_status :: "work_item \<Rightarrow> string option" where
  "overall_status wi = (case List.find (\<lambda>s. truthy (ss_status (wi_stage s wi))) [TFACTORY, AIFACTORY, PFACTORY] of
     None \<Rightarrow> None | Some s \<Rightarrow> ss_status (wi_stage s wi))"

definition first_repo :: "work_item \<Rightarrow> string option" where
  "first_repo wi = (case List.find (\<lambda>s. truthy (ss_repo (wi_stage s wi))) PIPELINE_ORDER of
     None \<Rightarrow> None | Some s \<Rightarrow> ss_repo (wi_stage s wi))"

record search_hit =
  sh_key :: string
  sh_title :: "string option"
  sh_services :: "service list"
  sh_repo :: "string option"
  sh_status :: "string option"
  sh_score :: nat
  sh_matched_on :: "string list"
  sh_updated_at :: "pydatetime option"

definition recency :: "work_item \<Rightarrow> int" where
  "recency wi = (case wi_updated_at wi of None \<Rightarrow> 0 | Some t \<Rightarrow> wall t)"

definition needle_of :: "string \<Rightarrow> string" where
  "needle_of query = lower (strip query)"

definition search_row :: "nat \<times> work_item \<times> string list \<Rightarrow> search_hit" where
  "search_row row = (case row of (score, wi, matched_on) \<Rightarrow>
     \<lparr>sh_key = wi_key wi, sh_title = wi_title wi, sh_services = services_present wi, sh_repo = first_repo wi,
      sh_status = overall_status wi, sh_score = score, sh_matched_on = matched_on, sh_updated_at = wi_updated_at wi\<rparr>)"

definition search_workitems :: "work_item list \<Rightarrow> string \<Rightarrow> nat \<Rightarrow> search_hit list" where
  "search_workitems items query limit =
    (let needle = needle_of query
     in if needle = [] then []
        else let scored = filter (\<lambda>row. fst row > 0)
                   (map (\<lambda>wi. (fst (score_item wi needle), wi, snd (score_item wi needle))) items)
             in map search_row (take limit (sort_desc (\<lambda>(score, wi, _). (score, recency wi, wi_key wi)) scored)))"

text \<open>\<open>GET /api/search\<close>.\<close>

definition search_route :: "string option \<Rightarrow> wi_store \<Rightarrow> string \<Rightarrow> int \<Rightarrow> search_hit list" where
  "search_route scope s q limit = search_workitems (list_items scope s) q (nat (max 1 (min limit 50)))"

section \<open>What is found\<close>

definition field_has :: "string option \<Rightarrow> string \<Rightarrow> bool" where
  "field_has value needle = (truthy value \<and> contains_str (lower (the value)) needle)"

definition mentions :: "string \<Rightarrow> work_item \<Rightarrow> bool" where
  "mentions needle wi =
    (contains_str (lower (wi_key wi)) needle \<or> field_has (wi_title wi) needle
     \<or> list_ex (\<lambda>s. let d = wi_stage s wi in field_has (ss_repo d) needle \<or> field_has (ss_status d) needle
          \<or> field_has (ss_phase d) needle \<or> field_has (ss_task_id d) needle) PIPELINE_ORDER)"

definition rank :: "string \<Rightarrow> work_item \<Rightarrow> nat \<times> int \<times> string" where
  "rank needle wi = (fst (score_item wi needle), recency wi, wi_key wi)"

definition hit_of :: "string \<Rightarrow> work_item \<Rightarrow> search_hit" where
  "hit_of needle wi = search_row (fst (score_item wi needle), wi, snd (score_item wi needle))"

lemma startswith_contains: "startswith s n \<Longrightarrow> contains_str s n"
  by (cases s; cases n) auto

lemma contains_refl: "contains_str s s"
  by (rule startswith_contains) (simp add: startswith_append)

lemma score_text_pos: "0 < p \<Longrightarrow> 0 < q \<Longrightarrow> 0 < score_text v n p q \<longleftrightarrow> field_has v n"
  by (auto simp: score_text_def field_has_def Let_def startswith_contains)

lemma score_service_pos: "0 < fst (score_service d n) \<longleftrightarrow> field_has (ss_repo d) n \<or> field_has (ss_status d) n
    \<or> field_has (ss_phase d) n \<or> field_has (ss_task_id d) n"
  by (simp add: score_service_def Let_def less_max_iff_disj score_text_pos score_values)

definition all_positive :: "(string, nat) dict \<Rightarrow> bool" where
  "all_positive d = list_all (\<lambda>p. 0 < snd p) d"

lemma all_positive_dset: "all_positive d \<Longrightarrow> 0 < v \<Longrightarrow> all_positive (dset k v d)"
  by (induction d) (auto simp: all_positive_def)

lemma add_service_score_facts:
  assumes "all_positive d"
  shows "all_positive (add_service_score wi n s d)"
    and "add_service_score wi n s d \<noteq> [] \<longleftrightarrow> d \<noteq> [] \<or> 0 < fst (score_service (wi_stage s wi) n)"
  using assms by (auto simp: add_service_score_def Let_def split_beta all_positive_dset)

lemma fold_service_scores:
  "all_positive d \<Longrightarrow> all_positive (fold (add_service_score wi n) ss d)
     \<and> (fold (add_service_score wi n) ss d \<noteq> [] \<longleftrightarrow> d \<noteq> [] \<or> list_ex (\<lambda>s. 0 < fst (score_service (wi_stage s wi) n)) ss)"
proof (induction ss arbitrary: d)
  case (Cons s ss)
  from add_service_score_facts [OF Cons.prems, of wi n s] Cons.IH [of "add_service_score wi n s d"]
  show ?case by auto
qed simp

lemma key_scores_facts: "all_positive (key_scores k n)" "key_scores k n \<noteq> [] \<longleftrightarrow> contains_str k n"
  by (auto simp: key_scores_def all_positive_def score_values startswith_contains contains_refl)

lemma item_scores_facts: "all_positive (item_scores wi n)" "item_scores wi n \<noteq> [] \<longleftrightarrow> mentions n wi"
proof -
  let ?t = "score_text (wi_title wi) n PREFIX_TITLE SUBSTR_TITLE"
  let ?d = "if ?t = 0 then key_scores (lower (wi_key wi)) n else dset ''title'' ?t (key_scores (lower (wi_key wi)) n)"
  have p: "all_positive ?d" by (simp add: key_scores_facts all_positive_dset)
  have t: "0 < ?t \<longleftrightarrow> field_has (wi_title wi) n" by (simp add: score_text_pos score_values)
  have ne: "?d \<noteq> [] \<longleftrightarrow> contains_str (lower (wi_key wi)) n \<or> field_has (wi_title wi) n"
    using t by (auto simp: key_scores_facts)
  have eq: "item_scores wi n = fold (add_service_score wi n) PIPELINE_ORDER ?d"
    by (simp only: item_scores_def Let_def)
  show "all_positive (item_scores wi n)" using fold_service_scores [OF p] eq by simp
  have "item_scores wi n \<noteq> [] \<longleftrightarrow> ?d \<noteq> [] \<or> list_ex (\<lambda>s. 0 < fst (score_service (wi_stage s wi) n)) PIPELINE_ORDER"
    using fold_service_scores [OF p, of wi n PIPELINE_ORDER] eq by simp
  then show "item_scores wi n \<noteq> [] \<longleftrightarrow> mentions n wi"
    using ne by (simp add: mentions_def Let_def score_service_pos)
qed

lemma foldr_max_pos: "xs \<noteq> [] \<Longrightarrow> list_all ((<) 0) xs \<Longrightarrow> 0 < foldr max xs (0::nat)"
  by (cases xs) (auto simp: less_max_iff_disj)

lemma score_item_pos: "0 < fst (score_item wi n) \<longleftrightarrow> mentions n wi"
proof (cases "item_scores wi n = []")
  case True
  then show ?thesis using item_scores_facts(2) [of wi n] by (simp add: score_item_def)
next
  case False
  have "list_all ((<) 0) (dvalues (item_scores wi n))"
    using item_scores_facts(1) [of wi n] by (simp add: all_positive_def dvalues_def list_all_iff)
  then have "0 < foldr max (dvalues (item_scores wi n)) 0"
    using False by (intro foldr_max_pos) (auto simp: dvalues_def)
  then show ?thesis using False item_scores_facts(2) [of wi n] by (simp add: score_item_def Let_def)
qed

text \<open>C33: A search returns the best matches and only matches.  There is an arrangement of the items
  that contain the query (in their key, title, or any stage's repository, status, phase or task id,
  ignoring case), from highest to lowest rank by score, then recency, then key, and the answer is its
  first \<open>limit\<close> items; a blank query returns nothing.\<close>

theorem search_is_top_matches:
  "\<exists>ys. mset ys = mset (filter (mentions (needle_of q)) items)
     \<and> sorted_wrt (\<lambda>a b. rank (needle_of q) b \<le> rank (needle_of q) a) ys
     \<and> search_workitems items q limit = (if needle_of q = [] then [] else map (hit_of (needle_of q)) (take limit ys))"
proof -
  define n where "n = needle_of q"
  let ?n = n
  let ?row = "\<lambda>wi. (fst (score_item wi ?n), wi, snd (score_item wi ?n))"
  let ?key = "\<lambda>(score :: nat, wi, _ :: string list). (score, recency wi, wi_key wi)"
  let ?rows = "sort_desc ?key (filter (\<lambda>row. fst row > 0) (map ?row items))"
  let ?ys = "map (fst \<circ> snd) ?rows"
  have sub: "set ?rows \<subseteq> range ?row" by auto
  have rows: "map ?row ?ys = ?rows"
    unfolding map_map by (rule map_idI) (use sub in auto)
  have "filter (\<lambda>row. fst row > 0) (map ?row items) = map ?row (filter (mentions ?n) items)"
    by (simp add: filter_map o_def score_item_pos)
  then have "mset ?rows = mset (map ?row (filter (mentions ?n) items))" by simp
  then have "image_mset (fst \<circ> snd) (mset ?rows) = image_mset (fst \<circ> snd) (mset (map ?row (filter (mentions ?n) items)))"
    by (rule arg_cong)
  then have m: "mset ?ys = mset (filter (mentions ?n) items)"
    by (simp add: multiset.map_comp o_def)
  have "sorted_wrt (\<lambda>a b. ?key b \<le> ?key a) (map ?row ?ys)"
    unfolding rows by (rule sorted_sort_desc)
  then have s: "sorted_wrt (\<lambda>a b. rank ?n b \<le> rank ?n a) ?ys"
    by (simp add: sorted_wrt_map rank_def)
  have "search_workitems items q limit = (if ?n = [] then [] else map search_row (take limit (map ?row ?ys)))"
    unfolding rows by (simp only: search_workitems_def Let_def n_def)
  then have "search_workitems items q limit = (if ?n = [] then [] else map (hit_of ?n) (take limit ?ys))"
    by (simp add: hit_of_def take_map o_def)
  with m s show ?thesis unfolding n_def by blast
qed

section \<open>Live agents\<close>

text \<open>\<open>quote(key, safe='')\<close>: the bytes of the UTF-8 encoding, all but the unreserved ones escaped.\<close>

definition hex_upper :: "nat \<Rightarrow> char" where
  "hex_upper n = char_of (if n < 10 then 48 + n else 55 + n)"

definition pct_byte :: "nat \<Rightarrow> string" where
  "pct_byte n = [CHR ''%'', hex_upper (n div 16), hex_upper (n mod 16)]"

definition unreserved :: "char \<Rightarrow> bool" where
  "unreserved c = (alnum c \<or> c \<in> set ''_.-~'')"

definition quote_char :: "char \<Rightarrow> string" where
  "quote_char c = (let n = (of_char c :: nat) in
     if unreserved c then [c] else if n < 128 then pct_byte n
     else pct_byte (192 + n div 64) @ pct_byte (128 + n mod 64))"

definition quote :: "string \<Rightarrow> string" where
  "quote s = concat (map quote_char s)"

record live_agent =
  la_key :: string
  la_spec_id :: string
  la_service :: service
  la_title :: "string option"
  la_phase :: "string option"
  la_status :: "string option"
  la_streamable :: bool
  la_ws_path :: string

record live_agents_result =
  lr_rmux_enabled :: bool
  lr_agents :: "live_agent list"

text \<open>\<open>rmux_enabled\<close> reads \<open>/api/capabilities\<close>; only an adapter error is caught.\<close>

definition rmux_enabled :: "(json \<Rightarrow> string) \<Rightarrow> http_outcome \<Rightarrow> adapter_exc + bool" where
  "rmux_enabled repr out = (case get_json repr out of
     Inl e \<Rightarrow> if is_adapter_error e then Inr False else Inl e
   | Inr (JObj d) \<Rightarrow> Inr (case dget d ''rmux'' of None \<Rightarrow> False | Some v \<Rightarrow> jtruthy v)
   | Inr _ \<Rightarrow> Inr False)"

definition agent_ws_path :: "string \<Rightarrow> string" where
  "agent_ws_path key = ''/api/live-agents/'' @ quote key @ ''/ws''"

definition live_agent_row :: "adapter_item \<Rightarrow> live_agent" where
  "live_agent_row i = \<lparr>la_key = ai_key i, la_spec_id = ai_task_id i, la_service = AIFACTORY, la_title = ai_title i,
     la_phase = ai_phase i, la_status = ai_status i, la_streamable = True, la_ws_path = agent_ws_path (ai_key i)\<rparr>"

definition discover_live_agents :: "(json \<Rightarrow> string) \<Rightarrow> http_outcome \<Rightarrow> http_outcome \<Rightarrow> adapter_exc + live_agents_result" where
  "discover_live_agents repr capabilities tasks = res_bind (rmux_enabled repr capabilities) (\<lambda>on.
     if \<not> on then Inr \<lparr>lr_rmux_enabled = False, lr_agents = []\<rparr>
     else (case list_items_of repr AIFACTORY tasks of
        Inl e \<Rightarrow> if is_adapter_error e then Inr \<lparr>lr_rmux_enabled = True, lr_agents = []\<rparr> else Inl e
      | Inr items \<Rightarrow> Inr \<lparr>lr_rmux_enabled = True,
          lr_agents = map live_agent_row (filter (\<lambda>i. is_active (ai_status i)) items)\<rparr>))"

definition tfactory_row :: "adapter_item \<Rightarrow> live_agent" where
  "tfactory_row i = \<lparr>la_key = ai_key i, la_spec_id = ai_task_id i, la_service = TFACTORY, la_title = ai_title i,
     la_phase = ai_phase i, la_status = ai_status i, la_streamable = False, la_ws_path = []\<rparr>"

definition discover_tfactory_agents :: "(json \<Rightarrow> string) \<Rightarrow> http_outcome \<Rightarrow> adapter_exc + live_agent list" where
  "discover_tfactory_agents repr tasks = (case list_items_of repr TFACTORY tasks of
     Inl e \<Rightarrow> if is_adapter_error e then Inr [] else Inl e
   | Inr items \<Rightarrow> Inr (map tfactory_row (filter (\<lambda>i. is_active (ai_status i)) items)))"

lemma pct_byte_safe: "n < 256 \<Longrightarrow> \<forall>c\<in>set (pct_byte n). alnum c \<or> c = CHR ''%''"
proof -
  have "alnum (hex_upper k)" if "k < 16" for k
    using that by (auto simp: alnum_def hex_upper_def)
  then show "n < 256 \<Longrightarrow> \<forall>c\<in>set (pct_byte n). alnum c \<or> c = CHR ''%''" by (auto simp: pct_byte_def)
qed

text \<open>A quoted key holds nothing but unreserved characters and percent signs, so it stays one path
  segment: it cannot add a slash, a query or a fragment to the console's path.\<close>

lemma quote_is_one_segment: "\<forall>c\<in>set (quote s). unreserved c \<or> c = CHR ''%''"
proof -
  have "\<forall>x\<in>set (quote_char c). unreserved x \<or> x = CHR ''%''" for c
  proof -
    have n: "(of_char c :: nat) < 256" by simp
    have hi: "192 + (of_char c :: nat) div 64 < 256" and lo: "128 + (of_char c :: nat) mod 64 < 256" using n by linarith+
    have "\<forall>x\<in>set (quote_char c). x = c \<and> unreserved c \<or> alnum x \<or> x = CHR ''%''"
      using pct_byte_safe [OF n] pct_byte_safe [OF hi] pct_byte_safe [OF lo] by (simp add: quote_char_def Let_def ball_Un)
    then show ?thesis by (auto simp: unreserved_def)
  qed
  then show ?thesis by (auto simp: quote_def)
qed

text \<open>A listed agent is a task whose stage is active, and an unreachable service lists none.\<close>

lemma discovery_lists_active_tasks:
  assumes "discover_live_agents repr capabilities tasks = Inr r"
  shows "\<forall>a\<in>set (lr_agents r). is_active (la_status a) \<and> la_streamable a \<and> la_ws_path a = agent_ws_path (la_key a)"
  using assms
  by (auto simp: discover_live_agents_def res_bind_Inr_iff live_agent_row_def split: if_splits sum.splits)

lemma discovery_raises_on_a_bad_row:
  assumes "rmux_enabled repr capabilities = Inr True" and "list_items_of repr AIFACTORY tasks = Inl ValidationE"
  shows "discover_live_agents repr capabilities tasks = Inl ValidationE"
  using assms by (simp add: discover_live_agents_def)

end
