(* ===== verification/Copilot.thy ===== *)
theory Copilot
  imports Search
begin

text \<open>
  The copilot's read side: anomaly detection (\<open>copilot/anomalies.py\<close>), the token, cost and progress
  queries (\<open>copilot/tools.py\<close>), and the question context of \<open>copilot/service.py\<close>.  A query over free
  JSON can raise; \<open>insight_error\<close> names the Python exception.  \<open>ft\<close> stands for \<open>float()\<close> of a string
  (\<open>None\<close> where it raises), and the language model is a function of question, context and prompt.
  The references: \<open>bounces\<close> scans the tail of the timeline at every event, and \<open>latest\<close> looks up a
  worker's newest sample without cursors.
\<close>

datatype insight_error = Type_error | Value_error | Attribute_error | Key_error

section \<open>Anomalies\<close>

definition DEFAULT_STALE_SECONDS :: rat where
  "DEFAULT_STALE_SECONDS = 86400"

definition DISCARDED :: "string set" where
  "DISCARDED = {''discard'', ''discarded''}"

datatype anomaly_detail =
    Stage_failed stage "string option"
  | Handbacks nat
  | No_progress int "service option" "string option"

fun anomaly_kind :: "anomaly_detail \<Rightarrow> string" where
  "anomaly_kind (Stage_failed s v) = ''failure''"
| "anomaly_kind (Handbacks n) = ''handback_loop''"
| "anomaly_kind (No_progress h s v) = ''stuck''"

fun anomaly_severity :: "anomaly_detail \<Rightarrow> string" where
  "anomaly_severity (Stage_failed s v) = ''high''"
| "anomaly_severity (Handbacks n) = ''high''"
| "anomaly_severity (No_progress h s v) = ''medium''"

record anomaly =
  an_key :: string
  an_title :: "string option"
  an_detail :: anomaly_detail

definition discarded :: "string option \<Rightarrow> bool" where
  "discarded status = (lower (strip (case status of None \<Rightarrow> [] | Some s \<Rightarrow> s)) \<in> DISCARDED)"

definition failure_details :: "work_item \<Rightarrow> anomaly_detail list" where
  "failure_details wi = map (\<lambda>(stage, svc). Stage_failed stage (ss_status (wi_stage svc wi)))
     (filter (\<lambda>(stage, svc). is_failure_or_stuck (ss_status (wi_stage svc wi)) \<and> \<not> discarded (ss_status (wi_stage svc wi)))
       [(PLAN, PFACTORY), (CODE, AIFACTORY), (TEST, TFACTORY)])"

definition test_failure :: "completion_event \<Rightarrow> bool" where
  "test_failure e = (ce_service e = TFACTORY \<and> is_failure_or_stuck (Some (ce_status e)))"

definition code_event :: "completion_event \<Rightarrow> bool" where
  "code_event e = (ce_service e = AIFACTORY)"

text \<open>The loop that finds the last code event, from index \<open>i\<close>.\<close>

fun last_code_idx :: "nat \<Rightarrow> completion_event list \<Rightarrow> int \<Rightarrow> int" where
  "last_code_idx i [] acc = acc"
| "last_code_idx i (e # es) acc = last_code_idx (i + 1) es (if code_event e then int i else acc)"

definition handbacks :: "completion_event list \<Rightarrow> nat" where
  "handbacks evs = length (filter (\<lambda>(i, e). int i < last_code_idx 0 evs (-1) \<and> test_failure e) (enumerate 0 evs))"

definition stuck_details :: "work_item \<Rightarrow> int \<Rightarrow> rat \<Rightarrow> anomaly_detail list" where
  "stuck_details wi now stale_seconds =
    (let l = compute_liveness wi now stale_seconds; status = lv_active_status l
     in if lv_stalled l \<and> \<not> is_review status \<and> \<not> is_queued status
        then [No_progress \<lfloor>lv_age l / 3600\<rfloor> (lv_active_service l) status] else [])"

definition detect_for_item :: "work_item \<Rightarrow> int \<Rightarrow> rat \<Rightarrow> anomaly list" where
  "detect_for_item wi now stale_seconds = map (\<lambda>d. \<lparr>an_key = wi_key wi, an_title = wi_title wi, an_detail = d\<rparr>)
     (failure_details wi
      @ (if handbacks (wi_timeline wi) = 0 then [] else [Handbacks (handbacks (wi_timeline wi))])
      @ stuck_details wi now stale_seconds)"

definition detect_anomalies :: "string option \<Rightarrow> wi_store \<Rightarrow> int \<Rightarrow> rat \<Rightarrow> anomaly list" where
  "detect_anomalies scope s now stale_seconds = concat (map (\<lambda>wi. detect_for_item wi now stale_seconds) (list_items scope s))"

definition nl :: string where "nl = [char_of (10 :: nat)]"

definition anomalies_summary_line :: "string option \<Rightarrow> wi_store \<Rightarrow> int \<Rightarrow> string" where
  "anomalies_summary_line scope s now = (let n = length (detect_anomalies scope s now DEFAULT_STALE_SECONDS)
     in if n = 0 then ''Anomalies: none.'' else ''Anomalies: '' @ digits_of_nat n @ '' flagged.'')"

subsection \<open>The single pass counts what the scan of every tail counts\<close>

fun bounces :: "completion_event list \<Rightarrow> nat" where
  "bounces [] = 0"
| "bounces (e # es) = (if test_failure e \<and> list_ex code_event es then 1 else 0) + bounces es"

lemma last_code_idx_cases:
  "if list_ex code_event es then int k \<le> last_code_idx k es acc else last_code_idx k es acc = acc"
proof (induction es arbitrary: k acc)
  case (Cons e es)
  show ?case using Cons.IH [of "k + 1" "if code_event e then int k else acc"] by (auto split: if_splits)
qed simp

lemma handbacks_from:
  "acc < int k \<Longrightarrow> length (filter (\<lambda>(i, e). int i < last_code_idx k evs acc \<and> test_failure e) (enumerate k evs)) = bounces evs"
proof (induction evs arbitrary: k acc)
  case (Cons e es)
  let ?acc = "if code_event e then int k else acc"
  have "?acc < int (k + 1)" using Cons.prems by auto
  note IH = Cons.IH [OF this]
  have "int k < last_code_idx (k + 1) es ?acc \<longleftrightarrow> list_ex code_event es"
    using last_code_idx_cases [of es "k + 1" ?acc] Cons.prems by (auto split: if_splits)
  then show ?case using IH by simp
qed simp

text \<open>The one-pass count of handbacks (failed tests before the last code event) equals the
  quadratic specification that asks of every failed test whether some later event returned to code.\<close>

theorem handbacks_single_pass: "handbacks evs = bounces evs"
  using handbacks_from [of "-1" 0 evs] by (simp add: handbacks_def)

text \<open>A discarded stage is not a failure, and an item waiting for review or in the queue is not stuck.\<close>

lemma parked_is_not_stuck:
  assumes "\<lparr>an_key = k, an_title = t, an_detail = No_progress h svc status\<rparr> \<in> set (detect_for_item wi now n)"
  shows "\<not> is_review status \<and> \<not> is_queued status \<and> \<not> is_terminal status"
proof -
  from assms have m: "No_progress h svc status \<in> set (stuck_details wi now n)"
    by (auto simp: detect_for_item_def failure_details_def split: if_splits)
  then have l: "lv_stalled (compute_liveness wi now n)" "status = lv_active_status (compute_liveness wi now n)"
    "\<not> is_review status" "\<not> is_queued status"
    by (auto simp: stuck_details_def Let_def split: if_splits)
  then have "\<not> is_terminal status"
    by (auto simp: compute_liveness_def Let_def split: option.splits if_splits)
  with l show ?thesis by simp
qed

section \<open>Numbers in JSON\<close>

text \<open>\<open>v or 0\<close>; the addition of a JSON value to a number; \<open>int(v)\<close>; \<open>float(v)\<close>; \<open>round(x, 6)\<close>.\<close>

definition value_or_zero :: "json option \<Rightarrow> json" where
  "value_or_zero v = (case v of None \<Rightarrow> JInt 0 | Some j \<Rightarrow> if jtruthy j then j else JInt 0)"

fun json_addend :: "json \<Rightarrow> insight_error + rat" where
  "json_addend (JInt i) = Inr (of_int i)"
| "json_addend (JNum q) = Inr q"
| "json_addend (JBool b) = Inr (if b then 1 else 0)"
| "json_addend _ = Inl Type_error"

definition trunc :: "rat \<Rightarrow> int" where
  "trunc q = (if q < 0 then \<lceil>q\<rceil> else \<lfloor>q\<rfloor>)"

definition py_int_text :: "string \<Rightarrow> int option" where
  "py_int_text s = (let t = strip s;
       digits = (\<lambda>d. let parts = split_on (\<lambda>c. c = CHR ''_'') d in if [] \<in> set parts then None else py_int (concat parts))
     in case t of
       [] \<Rightarrow> None
     | c # r \<Rightarrow> if c = CHR ''-'' then map_option (\<lambda>n. - int n) (digits r)
         else if c = CHR ''+'' then map_option int (digits r) else map_option int (digits t))"

fun int_of_json :: "json \<Rightarrow> insight_error + int" where
  "int_of_json (JInt i) = Inr i"
| "int_of_json (JNum q) = Inr (trunc q)"
| "int_of_json (JBool b) = Inr (if b then 1 else 0)"
| "int_of_json (JStr s) = (case py_int_text s of None \<Rightarrow> Inl Value_error | Some i \<Rightarrow> Inr i)"
| "int_of_json _ = Inl Type_error"

fun float_of_json :: "(string \<Rightarrow> rat option) \<Rightarrow> json \<Rightarrow> insight_error + rat" where
  "float_of_json ft (JInt i) = Inr (of_int i)"
| "float_of_json ft (JNum q) = Inr q"
| "float_of_json ft (JBool b) = Inr (if b then 1 else 0)"
| "float_of_json ft (JStr s) = (case ft s of None \<Rightarrow> Inl Value_error | Some q \<Rightarrow> Inr q)"
| "float_of_json ft _ = Inl Type_error"

definition round6 :: "rat \<Rightarrow> rat" where
  "round6 x = (let y = 1000000 * x; f = \<lfloor>y\<rfloor>; d = y - of_int f
     in of_int (if d < 1/2 then f else if d > 1/2 then f + 1 else if even f then f else f + 1) / 1000000)"

lemma round6_0 [simp]: "round6 0 = 0"
  by (simp add: round6_def)

fun traverse :: "('a \<Rightarrow> 'e + 'b) \<Rightarrow> 'a list \<Rightarrow> 'e + 'b list" where
  "traverse f [] = Inr []"
| "traverse f (x # xs) = res_bind (f x) (\<lambda>y. res_bind (traverse f xs) (\<lambda>ys. Inr (y # ys)))"

lemma traverse_length: "traverse f xs = Inr ys \<Longrightarrow> length ys = length xs"
  by (induction xs arbitrary: ys) (auto simp: res_bind_Inr_iff)

section \<open>Timelines and board rollups\<close>

text \<open>\<open>e.updated_at\<close> of a validated event is a datetime; without one the arithmetic raises.\<close>

definition stamp :: "completion_event \<Rightarrow> insight_error + pydatetime" where
  "stamp e = (case ce_updated_at e of None \<Rightarrow> Inl Attribute_error | Some t \<Rightarrow> Inr t)"

fun datetime_diff :: "pydatetime \<Rightarrow> pydatetime \<Rightarrow> insight_error + rat" where
  "datetime_diff (Naive a) (Naive b) = Inr (seconds_between a b)"
| "datetime_diff (Aware a) (Aware b) = Inr (seconds_between a b)"
| "datetime_diff _ _ = Inl Type_error"

definition SPAN_MIN_EVENTS :: nat where "SPAN_MIN_EVENTS = 2"

definition timeline_span :: "completion_event list \<Rightarrow> insight_error + rat option" where
  "timeline_span evs = (if length evs < SPAN_MIN_EVENTS then Inr None
     else res_bind (stamp (last evs)) (\<lambda>b. res_bind (stamp (hd evs)) (\<lambda>a. res_bind (datetime_diff b a) (\<lambda>d. Inr (Some d)))))"

record timeline_event =
  te_service :: service
  te_status :: string
  te_phase :: "string option"
  te_updated_at :: pydatetime

record timeline_summary =
  tm_key :: string
  tm_title :: "string option"
  tm_event_count :: nat
  tm_events :: "timeline_event list"
  tm_span_seconds :: "rat option"

definition summarize_timeline :: "string option \<Rightarrow> wi_store \<Rightarrow> string \<Rightarrow> insight_error + timeline_summary option" where
  "summarize_timeline scope s key = (case get_item scope s key of
     None \<Rightarrow> Inr None
   | Some wi \<Rightarrow> res_bind (traverse (\<lambda>e. res_bind (stamp e) (\<lambda>t. Inr \<lparr>te_service = ce_service e, te_status = ce_status e,
          te_phase = ce_phase e, te_updated_at = t\<rparr>)) (wi_timeline wi)) (\<lambda>events.
       res_bind (timeline_span (wi_timeline wi)) (\<lambda>span.
         Inr (Some \<lparr>tm_key = wi_key wi, tm_title = wi_title wi, tm_event_count = length events, tm_events = events,
           tm_span_seconds = span\<rparr>))))"

record board_rollups =
  br_total_work_items :: nat
  br_plan :: nat
  br_code :: nat
  br_test :: nat
  br_by_status :: "(string, nat) dict"
  br_total_events :: nat
  br_latency :: "(rat \<times> rat) option"
  br_cost :: "rat option"

definition count_key :: "'k \<Rightarrow> ('k, nat) dict \<Rightarrow> ('k, nat) dict" where
  "count_key k d = dset k ((case dget d k of None \<Rightarrow> 0 | Some n \<Rightarrow> n) + 1) d"

definition statuses_of :: "work_item \<Rightarrow> string list" where
  "statuses_of wi = map the (filter truthy (map (\<lambda>s. ss_status (wi_stage s wi)) PIPELINE_ORDER))"

definition costs_of :: "work_item \<Rightarrow> rat list" where
  "costs_of wi = map tu_cost_usd (concat (map (\<lambda>s. case ss_usage (wi_stage s wi) of None \<Rightarrow> [] | Some u \<Rightarrow> [u]) PIPELINE_ORDER))"

definition latency_of :: "rat list \<Rightarrow> (rat \<times> rat) option" where
  "latency_of spans = (case spans of [] \<Rightarrow> None
     | x # xs \<Rightarrow> Some (sum_list spans / of_nat (length spans), foldl max x xs))"

definition stage_count :: "service \<Rightarrow> work_item list \<Rightarrow> nat" where
  "stage_count svc items = length (filter (\<lambda>wi. truthy (ss_status (wi_stage svc wi))) items)"

definition rollups :: "string option \<Rightarrow> wi_store \<Rightarrow> insight_error + board_rollups" where
  "rollups scope s = (let items = list_items scope s; cost = sum_list (concat (map costs_of items))
     in res_bind (traverse (\<lambda>wi. timeline_span (wi_timeline wi)) items) (\<lambda>spans.
       Inr \<lparr>br_total_work_items = length items, br_plan = stage_count PFACTORY items,
         br_code = stage_count AIFACTORY items, br_test = stage_count TFACTORY items,
         br_by_status = fold count_key (concat (map statuses_of items)) [],
         br_total_events = sum_list (map (\<lambda>wi. length (wi_timeline wi)) items),
         br_latency = latency_of (concat (map (\<lambda>x. case x of None \<Rightarrow> [] | Some d \<Rightarrow> [d]) spans)),
         br_cost = (if cost = 0 then None else Some cost)\<rparr>))"

definition rollups_summary_line :: "board_rollups \<Rightarrow> string" where
  "rollups_summary_line r = ''Board: '' @ digits_of_nat (br_total_work_items r) @ '' work items (plan='' @ digits_of_nat (br_plan r)
     @ '', code='' @ digits_of_nat (br_code r) @ '', test='' @ digits_of_nat (br_test r) @ ''), ''
     @ digits_of_nat (br_total_events r) @ '' events.''"

lemma sum_count_key: "sum_list (dvalues (count_key k d)) = sum_list (dvalues d) + 1"
proof -
  have "sum_list (dvalues (dset k ((case dget d k of None \<Rightarrow> 0 | Some n \<Rightarrow> n) + (1 :: nat)) d)) = sum_list (dvalues d) + 1"
    by (induction d) auto
  then show ?thesis by (simp add: count_key_def)
qed

lemma sum_count_keys: "sum_list (dvalues (fold count_key ks d)) = sum_list (dvalues d) + length ks"
  by (induction ks arbitrary: d) (auto simp: sum_count_key)

lemma stage_counts: "length (concat (map statuses_of items)) = stage_count PFACTORY items + stage_count AIFACTORY items + stage_count TFACTORY items"
  by (induction items) (auto simp: stage_count_def statuses_of_def PIPELINE_ORDER_def)

text \<open>The status counts and the column totals of the board count the same stages.\<close>

lemma rollups_count_every_stage:
  assumes "rollups scope s = Inr r"
  shows "sum_list (dvalues (br_by_status r)) = br_plan r + br_code r + br_test r"
  using assms by (auto simp: rollups_def Let_def res_bind_Inr_iff sum_count_keys stage_counts)

end
