(* ===== verification/CopilotTokens.thy ===== *)
theory CopilotTokens
  imports Copilot
begin

text \<open>
  The token, cost and progress queries of \<open>copilot/tools.py\<close>: the billing summary of a work item, the
  fleet totals, the per-worker breakdown, the progress series and the routing comparison; and the
  context \<open>Copilot.ask\<close> hands to the language model.  The lemmas show that the totals, the service
  rows and the item rows are one account, and that the cursor walk of the progress series reports at
  each timestamp the sum of every worker's newest sample.
\<close>

section \<open>Billing\<close>

definition wi_elapsed_seconds :: "work_item \<Rightarrow> int option" where
  "wi_elapsed_seconds wi =
    (let times = map wall (concat (map (\<lambda>e. case ce_updated_at e of None \<Rightarrow> [] | Some t \<Rightarrow> [t]) (wi_timeline wi)))
     in case times of [] \<Rightarrow> None
        | t # ts \<Rightarrow> Some (max 0 (trunc (seconds_between (foldl max t ts) (foldl min t ts)))))"

record billing_slot =
  bs_total_tokens :: int
  bs_cost_usd :: rat
  bs_duration_ms :: int

record billing =
  bl_modes :: "json list"
  bl_by_mode :: "(json, billing_slot) dict"
  bl_metered_cost_usd :: rat
  bl_nonmetered_tokens :: int
  bl_has_metered :: bool

definition METERED_MODES :: "string list" where
  "METERED_MODES = [''api'', ''cloud'']"

definition is_metered :: "json \<Rightarrow> bool" where
  "is_metered m = (case m of JStr s \<Rightarrow> s \<in> set METERED_MODES | _ \<Rightarrow> False)"

text \<open>The dictionary key a billing mode is: a list or an object cannot be one, and equal numbers are
  one key.\<close>

fun mode_key :: "json \<Rightarrow> insight_error + json" where
  "mode_key (JArr xs) = Inl Type_error"
| "mode_key (JObj d) = Inl Type_error"
| "mode_key (JBool b) = Inr (JInt (if b then 1 else 0))"
| "mode_key (JNum q) = Inr (if q = of_int \<lfloor>q\<rfloor> then JInt \<lfloor>q\<rfloor> else JNum q)"
| "mode_key j = Inr j"

text \<open>\<open>sorted\<close> compares strings with strings and numbers with numbers.\<close>

fun json_text :: "json \<Rightarrow> string option" where
  "json_text (JStr s) = Some s"
| "json_text _ = None"

fun json_number :: "json \<Rightarrow> rat option" where
  "json_number (JInt i) = Some (of_int i)"
| "json_number (JNum q) = Some q"
| "json_number (JBool b) = Some (if b then 1 else 0)"
| "json_number _ = None"

definition sort_modes :: "json list \<Rightarrow> insight_error + json list" where
  "sort_modes ms =
    (if list_all (\<lambda>m. json_text m \<noteq> None) ms then Inr (sort_key (\<lambda>m. the (json_text m)) ms)
     else if list_all (\<lambda>m. json_number m \<noteq> None) ms then Inr (sort_key (\<lambda>m. the (json_number m)) ms)
     else Inl Type_error)"

definition add_billing ::
  "(string \<Rightarrow> rat option) \<Rightarrow> jobj \<Rightarrow> (json, billing_slot) dict \<Rightarrow> insight_error + (json, billing_slot) dict" where
  "add_billing ft vals by_mode =
    (let raw = value_or_zero (dget vals ''billing_mode'')
     in res_bind (mode_key (if jtruthy raw then raw else JStr ''unknown'')) (\<lambda>mode.
        let slot = (case dget by_mode mode of Some b \<Rightarrow> b | None \<Rightarrow> \<lparr>bs_total_tokens = 0, bs_cost_usd = 0, bs_duration_ms = 0\<rparr>)
        in res_bind (int_of_json (value_or_zero (dget vals ''total_tokens''))) (\<lambda>tokens.
           res_bind (float_of_json ft (value_or_zero (dget vals ''cost_usd''))) (\<lambda>cost.
           res_bind (int_of_json (value_or_zero (dget vals ''duration_ms''))) (\<lambda>ms.
             Inr (dset mode \<lparr>bs_total_tokens = bs_total_tokens slot + tokens,
               bs_cost_usd = round6 (bs_cost_usd slot + cost), bs_duration_ms = bs_duration_ms slot + ms\<rparr> by_mode))))))"

fun add_billings ::
  "(string \<Rightarrow> rat option) \<Rightarrow> jobj list \<Rightarrow> (json, billing_slot) dict \<Rightarrow> insight_error + (json, billing_slot) dict" where
  "add_billings ft [] by_mode = Inr by_mode"
| "add_billings ft (v # vs) by_mode = res_bind (add_billing ft v by_mode) (add_billings ft vs)"

definition billing_summary :: "(string \<Rightarrow> rat option) \<Rightarrow> work_item \<Rightarrow> insight_error + billing option" where
  "billing_summary ft wi =
     res_bind (add_billings ft (concat (map (\<lambda>s. dvalues (ss_by_provider (wi_stage s wi))) PIPELINE_ORDER)) []) (\<lambda>by_mode.
       if by_mode = [] then Inr None
       else res_bind (sort_modes (dkeys by_mode)) (\<lambda>modes.
         Inr (Some \<lparr>bl_modes = modes, bl_by_mode = by_mode,
           bl_metered_cost_usd = round6 (sum_list (map (\<lambda>(m, v). bs_cost_usd v) (filter (\<lambda>(m, v). is_metered m) by_mode))),
           bl_nonmetered_tokens = sum_list (map (\<lambda>(m, v). bs_total_tokens v) (filter (\<lambda>(m, v). \<not> is_metered m) by_mode)),
           bl_has_metered = list_ex is_metered (dkeys by_mode)\<rparr>)))"

section \<open>The routing block\<close>

definition routing_block :: "work_item \<Rightarrow> json option" where
  "routing_block wi = List.find jtruthy
     (concat (map (\<lambda>s. case dget (ss_extra (wi_stage s wi)) ''routing'' of None \<Rightarrow> [] | Some r \<Rightarrow> [r]) PIPELINE_ORDER))"

text \<open>\<open>routing.get(k)\<close>, which a routing block that is not an object does not have.\<close>

definition routing_get :: "json option \<Rightarrow> string \<Rightarrow> insight_error + json" where
  "routing_get r k = (case r of None \<Rightarrow> Inr JNull
     | Some (JObj d) \<Rightarrow> Inr (case dget d k of None \<Rightarrow> JNull | Some v \<Rightarrow> v)
     | Some _ \<Rightarrow> Inl Attribute_error)"

definition routing_savings :: "work_item \<Rightarrow> insight_error + rat option" where
  "routing_savings wi = res_bind (routing_get (routing_block wi) ''savings_usd'') (\<lambda>saving.
     Inr (case json_number saving of None \<Rightarrow> None | Some q \<Rightarrow> if q > 0 then Some (round6 q) else None))"

section \<open>Fleet totals\<close>

record token_sum =
  ts_input_tokens :: int
  ts_output_tokens :: int
  ts_total_tokens :: int
  ts_cost_usd :: rat

definition no_tokens :: token_sum where
  "no_tokens = \<lparr>ts_input_tokens = 0, ts_output_tokens = 0, ts_total_tokens = 0, ts_cost_usd = 0\<rparr>"

definition add_tokens :: "token_usage \<Rightarrow> token_sum \<Rightarrow> token_sum" where
  "add_tokens u t = \<lparr>ts_input_tokens = ts_input_tokens t + tu_input_tokens u,
     ts_output_tokens = ts_output_tokens t + tu_output_tokens u,
     ts_total_tokens = ts_total_tokens t + tu_total_tokens u, ts_cost_usd = ts_cost_usd t + tu_cost_usd u\<rparr>"

record service_total =
  vt_sum :: token_sum
  vt_instrumented :: bool

record item_row =
  rw_key :: string
  rw_title :: "string option"
  rw_sum :: token_sum
  rw_budget :: "budget_info option"
  rw_billing :: "billing option"
  rw_elapsed :: "int option"
  rw_savings :: "rat option"

record fleet_total =
  ft_sum :: token_sum
  ft_metered_cost_usd :: rat
  ft_has_billing_modes :: bool
  ft_routing_savings_usd :: "rat option"

text \<open>The accounts the loops over work items and services update: one per service, the total, and the
  current item's own with its budget.\<close>

record accounts =
  ac_services :: "(service, service_total) dict"
  ac_total :: token_sum

definition add_usage_to :: "service \<Rightarrow> token_usage \<Rightarrow> (service, service_total) dict \<Rightarrow> (service, service_total) dict" where
  "add_usage_to svc u d = (case dget d svc of None \<Rightarrow> d
     | Some v \<Rightarrow> dset svc \<lparr>vt_sum = add_tokens u (vt_sum v), vt_instrumented = True\<rparr> d)"

fun item_account ::
  "work_item \<Rightarrow> service list \<Rightarrow> accounts \<times> token_sum \<times> budget_info option \<Rightarrow> accounts \<times> token_sum \<times> budget_info option" where
  "item_account wi [] st = st"
| "item_account wi (svc # svcs) (a, t, b) = item_account wi svcs (case ss_usage (wi_stage svc wi) of
     None \<Rightarrow> (a, t, b)
   | Some u \<Rightarrow> (\<lparr>ac_services = add_usage_to svc u (ac_services a), ac_total = add_tokens u (ac_total a)\<rparr>, add_tokens u t,
       case tu_budget u of None \<Rightarrow> b | Some x \<Rightarrow> Some x))"

definition item_row_of ::
  "(string \<Rightarrow> rat option) \<Rightarrow> work_item \<Rightarrow> token_sum \<Rightarrow> budget_info option \<Rightarrow> insight_error + item_row option" where
  "item_row_of ft wi t b =
    (if ts_total_tokens t = 0 \<and> ts_cost_usd t = 0 then Inr None
     else res_bind (billing_summary ft wi) (\<lambda>billing.
       res_bind (case billing of None \<Rightarrow> Inr None | Some x \<Rightarrow> if bl_has_metered x then routing_savings wi else Inr None) (\<lambda>saving.
         Inr (Some \<lparr>rw_key = wi_key wi, rw_title = wi_title wi, rw_sum = t, rw_budget = b, rw_billing = billing,
           rw_elapsed = wi_elapsed_seconds wi, rw_savings = saving\<rparr>))))"

fun add_items ::
  "(string \<Rightarrow> rat option) \<Rightarrow> work_item list \<Rightarrow> accounts \<Rightarrow> item_row list \<Rightarrow> insight_error + accounts \<times> item_row list" where
  "add_items ft [] a rows = Inr (a, rows)"
| "add_items ft (wi # wis) a rows = (case item_account wi PIPELINE_ORDER (a, no_tokens, None) of (a', t, b) \<Rightarrow>
     res_bind (item_row_of ft wi t b) (\<lambda>r.
       add_items ft wis a' (case r of None \<Rightarrow> rows | Some x \<Rightarrow> rows @ [x])))"

definition empty_accounts :: accounts where
  "empty_accounts = \<lparr>ac_services = map (\<lambda>s. (s, \<lparr>vt_sum = no_tokens, vt_instrumented = False\<rparr>)) PIPELINE_ORDER, ac_total = no_tokens\<rparr>"

definition token_totals ::
  "(string \<Rightarrow> rat option) \<Rightarrow> string option \<Rightarrow> wi_store \<Rightarrow> insight_error + fleet_total \<times> (service, service_total) dict \<times> item_row list" where
  "token_totals ft scope s = res_bind (add_items ft (list_items scope s) empty_accounts []) (\<lambda>(a, rows).
    (let by_item = sort_desc (\<lambda>r. ts_total_tokens (rw_sum r)) rows;
         billed = concat (map (\<lambda>r. case rw_billing r of None \<Rightarrow> [] | Some b \<Rightarrow> [b]) by_item);
         savings = round6 (sum_list (map (\<lambda>r. case rw_savings r of None \<Rightarrow> 0 | Some q \<Rightarrow> q) by_item))
     in Inr (\<lparr>ft_sum = ac_total a,
          ft_metered_cost_usd = (if billed = [] then ts_cost_usd (ac_total a) else round6 (sum_list (map bl_metered_cost_usd billed))),
          ft_has_billing_modes = (billed \<noteq> []), ft_routing_savings_usd = (if savings > 0 then Some savings else None)\<rparr>,
        ac_services a, by_item)))"

subsection \<open>One account\<close>

text \<open>\<open>accounts_balanced\<close>: the services' accounts add up to the total, in tokens and in cost.\<close>

definition accounts_balanced :: "accounts \<Rightarrow> bool" where
  "accounts_balanced a = (ts_total_tokens (ac_total a) = sum_list (map (ts_total_tokens \<circ> vt_sum) (dvalues (ac_services a)))
     \<and> ts_cost_usd (ac_total a) = sum_list (map (ts_cost_usd \<circ> vt_sum) (dvalues (ac_services a)))
     \<and> set (dkeys (ac_services a)) = UNIV)"

lemma add_usage_to_sums:
  assumes "svc \<in> set (dkeys d)"
  shows "sum_list (map (ts_total_tokens \<circ> vt_sum) (dvalues (add_usage_to svc u d)))
      = sum_list (map (ts_total_tokens \<circ> vt_sum) (dvalues d)) + tu_total_tokens u"
    and "sum_list (map (ts_cost_usd \<circ> vt_sum) (dvalues (add_usage_to svc u d)))
      = sum_list (map (ts_cost_usd \<circ> vt_sum) (dvalues d)) + tu_cost_usd u"
    and "set (dkeys (add_usage_to svc u d)) = set (dkeys d)"
proof -
  obtain v where v: "dget d svc = Some v" using assms dget_None_iff [of d svc] by auto
  have t: "dget d svc = Some v \<Longrightarrow> sum_list (map (ts_total_tokens \<circ> vt_sum) (dvalues (dset svc \<lparr>vt_sum = add_tokens u (vt_sum v), vt_instrumented = True\<rparr> d)))
      = sum_list (map (ts_total_tokens \<circ> vt_sum) (dvalues d)) + tu_total_tokens u"
    by (induction d) (auto simp: add_tokens_def split: if_splits)
  have c: "dget d svc = Some v \<Longrightarrow> sum_list (map (ts_cost_usd \<circ> vt_sum) (dvalues (dset svc \<lparr>vt_sum = add_tokens u (vt_sum v), vt_instrumented = True\<rparr> d)))
      = sum_list (map (ts_cost_usd \<circ> vt_sum) (dvalues d)) + tu_cost_usd u"
    by (induction d) (auto simp: add_tokens_def split: if_splits)
  show "sum_list (map (ts_total_tokens \<circ> vt_sum) (dvalues (add_usage_to svc u d)))
      = sum_list (map (ts_total_tokens \<circ> vt_sum) (dvalues d)) + tu_total_tokens u"
    using t [OF v] by (simp add: add_usage_to_def v)
  show "sum_list (map (ts_cost_usd \<circ> vt_sum) (dvalues (add_usage_to svc u d)))
      = sum_list (map (ts_cost_usd \<circ> vt_sum) (dvalues d)) + tu_cost_usd u"
    using c [OF v] by (simp add: add_usage_to_def v)
  show "set (dkeys (add_usage_to svc u d)) = set (dkeys d)"
    using assms by (auto simp: add_usage_to_def v)
qed

lemma item_account_balances:
  assumes "accounts_balanced a" and "item_account wi svcs (a, t, b) = (a', t', b')"
  shows "accounts_balanced a' \<and> ts_total_tokens (ac_total a') - ts_total_tokens t' = ts_total_tokens (ac_total a) - ts_total_tokens t
    \<and> ts_cost_usd (ac_total a') - ts_cost_usd t' = ts_cost_usd (ac_total a) - ts_cost_usd t"
  using assms
proof (induction svcs arbitrary: a t b)
  case (Cons svc svcs)
  show ?case
  proof (cases "ss_usage (wi_stage svc wi)")
    case None
    then show ?thesis using Cons by simp
  next
    case (Some u)
    let ?a = "\<lparr>ac_services = add_usage_to svc u (ac_services a), ac_total = add_tokens u (ac_total a)\<rparr>"
    have svc: "svc \<in> set (dkeys (ac_services a))" using Cons.prems(1) by (simp add: accounts_balanced_def)
    have b: "accounts_balanced ?a"
      using Cons.prems(1) add_usage_to_sums [OF svc, of u] by (simp add: accounts_balanced_def add_tokens_def)
    have "item_account wi svcs (?a, add_tokens u t, case tu_budget u of None \<Rightarrow> b | Some x \<Rightarrow> Some x) = (a', t', b')"
      using Cons.prems(2) Some by simp
    from Cons.IH [OF b this] show ?thesis by (simp add: add_tokens_def)
  qed
qed simp

lemma item_row_sum:
  assumes "item_row_of ft wi t b = Inr r"
  shows "(case r of None \<Rightarrow> ts_total_tokens t = 0 \<and> ts_cost_usd t = 0 | Some x \<Rightarrow> rw_sum x = t)"
  using assms by (auto simp: item_row_of_def res_bind_Inr_iff split: if_splits)

lemma add_items_balance:
  assumes "accounts_balanced a" and "ts_total_tokens (ac_total a) = sum_list (map (ts_total_tokens \<circ> rw_sum) rows)"
    and "ts_cost_usd (ac_total a) = sum_list (map (ts_cost_usd \<circ> rw_sum) rows)"
    and "add_items ft wis a rows = Inr (a', rows')"
  shows "accounts_balanced a' \<and> ts_total_tokens (ac_total a') = sum_list (map (ts_total_tokens \<circ> rw_sum) rows')
    \<and> ts_cost_usd (ac_total a') = sum_list (map (ts_cost_usd \<circ> rw_sum) rows')"
  using assms
proof (induction wis arbitrary: a rows)
  case (Cons wi wis)
  obtain a1 t b where i: "item_account wi PIPELINE_ORDER (a, no_tokens, None) = (a1, t, b)" by (metis surj_pair)
  from item_account_balances [OF Cons.prems(1) i]
  have a1: "accounts_balanced a1" "ts_total_tokens (ac_total a1) = ts_total_tokens (ac_total a) + ts_total_tokens t"
    "ts_cost_usd (ac_total a1) = ts_cost_usd (ac_total a) + ts_cost_usd t"
    by (auto simp: no_tokens_def)
  from Cons.prems(4) i obtain r where r: "item_row_of ft wi t b = Inr r"
    and rest: "add_items ft wis a1 (case r of None \<Rightarrow> rows | Some x \<Rightarrow> rows @ [x]) = Inr (a', rows')"
    by (auto simp: res_bind_Inr_iff)
  show ?case
    by (rule Cons.IH [OF a1(1) _ _ rest]) (use item_row_sum [OF r] a1 Cons.prems in \<open>auto split: option.splits\<close>)
qed simp

lemma UNIV_service: "(UNIV :: service set) = {PFACTORY, AIFACTORY, TFACTORY}"
  by (auto intro: service.exhaust)

lemma balanced_at_the_start: "accounts_balanced empty_accounts"
  by (simp add: accounts_balanced_def empty_accounts_def PIPELINE_ORDER_def no_tokens_def dkeys_def UNIV_service)

text \<open>C34: The fleet total, the rows per service and the rows per work item are one account: whenever the
  totals are computed, total tokens and cost are the sum over the services and also the sum over the
  listed work items, so leaving out the items without usage loses nothing.\<close>

theorem token_totals_are_one_account:
  assumes "token_totals ft scope s = Inr (grand, by_service, by_item)"
  shows "ts_total_tokens (ft_sum grand) = sum_list (map (ts_total_tokens \<circ> vt_sum) (dvalues by_service))
    \<and> ts_total_tokens (ft_sum grand) = sum_list (map (ts_total_tokens \<circ> rw_sum) by_item)
    \<and> ts_cost_usd (ft_sum grand) = sum_list (map (ts_cost_usd \<circ> vt_sum) (dvalues by_service))
    \<and> ts_cost_usd (ft_sum grand) = sum_list (map (ts_cost_usd \<circ> rw_sum) by_item)"
proof -
  from assms obtain a rows where run: "add_items ft (list_items scope s) empty_accounts [] = Inr (a, rows)"
    and out: "ft_sum grand = ac_total a" "by_service = ac_services a"
      "by_item = sort_desc (\<lambda>r. ts_total_tokens (rw_sum r)) rows"
    by (auto simp: token_totals_def res_bind_Inr_iff Let_def split: prod.splits)
  have "accounts_balanced a \<and> ts_total_tokens (ac_total a) = sum_list (map (ts_total_tokens \<circ> rw_sum) rows)
      \<and> ts_cost_usd (ac_total a) = sum_list (map (ts_cost_usd \<circ> rw_sum) rows)"
    by (rule add_items_balance [OF balanced_at_the_start _ _ run]) (simp_all add: empty_accounts_def no_tokens_def)
  then show ?thesis unfolding out by (simp add: accounts_balanced_def)
qed

section \<open>The per-worker breakdown\<close>

text \<open>A stored rollup read back as the source of an addition: \<open>src.get(k, 0) or 0\<close> for every key.\<close>

definition rollup_src :: "jobj \<Rightarrow> insight_error + usage_src" where
  "rollup_src d = res_bind (json_addend (value_or_zero (dget d ''input_tokens''))) (\<lambda>i.
     res_bind (json_addend (value_or_zero (dget d ''output_tokens''))) (\<lambda>ou.
     res_bind (json_addend (value_or_zero (dget d ''total_tokens''))) (\<lambda>tt.
     res_bind (json_addend (value_or_zero (dget d ''cost_usd''))) (\<lambda>c.
     res_bind (json_addend (value_or_zero (dget d ''workers''))) (\<lambda>w.
       Inr \<lparr>us_input_tokens = Some i, us_output_tokens = Some ou, us_total_tokens = Some tt, us_cost_usd = Some c,
         us_workers = Some w\<rparr>)))))"

fun merge_rollup :: "(string, bucket) dict \<Rightarrow> (string, jobj) dict \<Rightarrow> insight_error + (string, bucket) dict" where
  "merge_rollup dst [] = Inr dst"
| "merge_rollup dst ((key, vals) # src) = res_bind (rollup_src vals) (\<lambda>u.
     merge_rollup (dset key (add_usage (case dget dst key of None \<Rightarrow> empty_bucket | Some b \<Rightarrow> b) (Some u) False) dst) src)"

fun merge_rollups :: "(string, bucket) dict \<Rightarrow> (string, jobj) dict list \<Rightarrow> insight_error + (string, bucket) dict" where
  "merge_rollups dst [] = Inr dst"
| "merge_rollups dst (src # srcs) = res_bind (merge_rollup dst src) (\<lambda>d. merge_rollups d srcs)"

record worker_rows =
  wk_key :: string
  wk_title :: "string option"
  wk_workers :: "(service \<times> worker_usage) list"

definition item_workers :: "work_item \<Rightarrow> (service \<times> worker_usage) list" where
  "item_workers wi = concat (map (\<lambda>s. map (Pair s) (dvalues (ss_workers (wi_stage s wi)))) PIPELINE_ORDER)"

definition token_by_worker ::
  "string option \<Rightarrow> wi_store \<Rightarrow> insight_error + (string, bucket) dict \<times> (string, bucket) dict \<times> worker_rows list" where
  "token_by_worker scope s =
    (let items = list_items scope s; slices = concat (map (\<lambda>wi. map (\<lambda>svc. wi_stage svc wi) PIPELINE_ORDER) items);
         rows = map (\<lambda>wi. \<lparr>wk_key = wi_key wi, wk_title = wi_title wi,
                    wk_workers = sort_desc (\<lambda>(_, w). wu_total_tokens w) (item_workers wi)\<rparr>)
                  (filter (\<lambda>wi. item_workers wi \<noteq> []) items)
     in res_bind (merge_rollups [] (map ss_by_provider slices)) (\<lambda>by_provider.
        res_bind (merge_rollups [] (map ss_by_model slices)) (\<lambda>by_model.
          Inr (by_provider, by_model, sort_desc (\<lambda>r. sum_list (map (wu_total_tokens \<circ> snd) (wk_workers r))) rows))))"

section \<open>The progress series\<close>

record series_point =
  sp_ts :: int
  sp_total_tokens :: int
  sp_cost_usd :: rat

text \<open>\<open>raw[wid] = pts\<close> over the stages: a worker id that two stages use keeps the later stage's points.\<close>

definition raw_progress :: "work_item \<Rightarrow> (string, progress_point list) dict" where
  "raw_progress wi = fold (\<lambda>(wid, pts). dset wid pts) (concat (map (\<lambda>s. ss_worker_progress (wi_stage s wi)) PIPELINE_ORDER)) []"

definition sample_of :: "progress_point list \<Rightarrow> int \<times> rat" where
  "sample_of seen = (if seen = [] then (0, 0) else (pp_total_tokens (last seen), pp_cost_usd (last seen)))"

text \<open>The inner loop: the cursor of one worker moves past every sample up to the timestamp.\<close>

function advance_cursor :: "progress_point list \<Rightarrow> int \<Rightarrow> nat \<Rightarrow> int \<times> rat \<Rightarrow> nat \<times> int \<times> rat" where
  "advance_cursor pts ts i latest =
    (if i < length pts \<and> pp_ts (pts ! i) \<le> ts
     then advance_cursor pts ts (i + 1) (pp_total_tokens (pts ! i), pp_cost_usd (pts ! i)) else (i, latest))"
  by pat_completeness auto

termination by (relation "measure (\<lambda>(pts, ts, i, latest). length pts - i)") auto

declare advance_cursor.simps [simp del]

record walker =
  wl_points :: "progress_point list"
  wl_cursor :: nat
  wl_last :: "int \<times> rat"

definition walk_to :: "int \<Rightarrow> walker \<Rightarrow> walker" where
  "walk_to ts w = (case advance_cursor (wl_points w) ts (wl_cursor w) (wl_last w) of
     (i, l) \<Rightarrow> w\<lparr>wl_cursor := i, wl_last := l\<rparr>)"

fun series_from :: "walker list \<Rightarrow> int list \<Rightarrow> series_point list" where
  "series_from ws [] = []"
| "series_from ws (ts # stamps) = (let ws' = map (walk_to ts) ws
     in \<lparr>sp_ts = ts, sp_total_tokens = sum_list (map (fst \<circ> wl_last) ws'), sp_cost_usd = sum_list (map (snd \<circ> wl_last) ws')\<rparr>
        # series_from ws' stamps)"

definition stamps_of :: "(string, progress_point list) dict \<Rightarrow> int list" where
  "stamps_of raw = sort (remdups (map pp_ts (concat (dvalues raw))))"

definition worker_progress :: "string option \<Rightarrow> wi_store \<Rightarrow> string \<Rightarrow> series_point list \<times> (string, progress_point list) dict" where
  "worker_progress scope s key =
    (let raw = (case get_item scope s key of None \<Rightarrow> [] | Some wi \<Rightarrow> raw_progress wi);
         walkers = map (\<lambda>pts. \<lparr>wl_points = sort_key pp_ts pts, wl_cursor = 0, wl_last = (0, 0)\<rparr>) (dvalues raw)
     in (series_from walkers (stamps_of raw), raw))"

subsection \<open>The walk reports the newest samples\<close>

text \<open>The newest sample of a worker at a timestamp, without sorting: among equally old samples the one
  that was reported last.\<close>

fun newest_sample :: "int \<Rightarrow> progress_point list \<Rightarrow> progress_point option" where
  "newest_sample ts [] = None"
| "newest_sample ts (p # ps) = (case newest_sample ts ps of
     None \<Rightarrow> if pp_ts p \<le> ts then Some p else None
   | Some q \<Rightarrow> if pp_ts p \<le> ts \<and> pp_ts q < pp_ts p then Some p else Some q)"

definition newest_values :: "int \<Rightarrow> progress_point list \<Rightarrow> int \<times> rat" where
  "newest_values ts pts = (case newest_sample ts pts of None \<Rightarrow> (0, 0) | Some p \<Rightarrow> (pp_total_tokens p, pp_cost_usd p))"

definition series_spec :: "(string, progress_point list) dict \<Rightarrow> series_point list" where
  "series_spec raw = map (\<lambda>ts. \<lparr>sp_ts = ts, sp_total_tokens = sum_list (map (fst \<circ> newest_values ts) (dvalues raw)),
     sp_cost_usd = sum_list (map (snd \<circ> newest_values ts) (dvalues raw))\<rparr>) (stamps_of raw)"

lemma advance_cursor_run:
  "advance_cursor pts ts i (sample_of (take i pts))
     = (i + length (takeWhile (\<lambda>p. pp_ts p \<le> ts) (drop i pts)),
        sample_of (take (i + length (takeWhile (\<lambda>p. pp_ts p \<le> ts) (drop i pts))) pts))"
proof (induction "length pts - i" arbitrary: i)
  case 0
  then show ?case by (subst advance_cursor.simps) simp
next
  case (Suc n)
  then have i: "i < length pts" by simp
  then have d: "drop i pts = pts ! i # drop (i + 1) pts" by (simp add: Cons_nth_drop_Suc)
  have s: "sample_of (take (i + 1) pts) = (pp_total_tokens (pts ! i), pp_cost_usd (pts ! i))"
    using i by (simp add: sample_of_def take_Suc_conv_app_nth)
  have IH: "advance_cursor pts ts (i + 1) (sample_of (take (i + 1) pts))
     = (i + 1 + length (takeWhile (\<lambda>p. pp_ts p \<le> ts) (drop (i + 1) pts)),
        sample_of (take (i + 1 + length (takeWhile (\<lambda>p. pp_ts p \<le> ts) (drop (i + 1) pts))) pts))"
    using Suc by simp
  show ?case
    using i IH s by (subst advance_cursor.simps) (simp add: d)
qed

lemma last_insort: "sorted (map f ys) \<Longrightarrow> ys \<noteq> [] \<Longrightarrow> last (insort_key f x ys) = (if f (last ys) < f x then x else last ys)"
proof (induction ys)
  case (Cons y ys)
  then show ?case by (cases ys) (auto simp: insort_is_Cons split: if_splits)
qed simp

lemma newest_sample_sort: "newest_sample ts ps = (case filter (\<lambda>p. pp_ts p \<le> ts) (sort_key pp_ts ps) of [] \<Rightarrow> None | q # qs \<Rightarrow> Some (last (q # qs)))"
proof (induction ps)
  case (Cons p ps)
  let ?F = "filter (\<lambda>p. pp_ts p \<le> ts)"
  let ?ys = "sort_key pp_ts (?F ps)"
  have e: "?F (sort_key pp_ts ps) = ?ys" "?F (sort_key pp_ts (p # ps)) = sort_key pp_ts (?F (p # ps))"
    by (rule filter_sort)+
  show ?case
  proof (cases "?ys = []")
    case True
    then show ?thesis using Cons e by simp
  next
    case False
    then obtain q qs where q: "?ys = q # qs" by (cases ?ys) auto
    have IH: "newest_sample ts ps = Some (last ?ys)" using Cons e q by simp
    show ?thesis
    proof (cases "pp_ts p \<le> ts")
      case True
      then have "?F (sort_key pp_ts (p # ps)) = insort_key pp_ts p ?ys" using e by simp
      moreover have "last (insort_key pp_ts p ?ys) = (if pp_ts (last ?ys) < pp_ts p then p else last ?ys)"
        by (rule last_insort) (use False in auto)
      moreover have "insort_key pp_ts p ?ys \<noteq> []" by (cases ?ys) auto
      ultimately show ?thesis using IH True by (auto split: list.splits)
    next
      case False
      then show ?thesis using e IH q by auto
    qed
  qed
qed simp

lemma sample_of_newest: "sample_of (filter (\<lambda>p. pp_ts p \<le> ts) (sort_key pp_ts pts)) = newest_values ts pts"
  by (simp add: newest_values_def newest_sample_sort sample_of_def split: list.split)

definition walked :: "int list \<Rightarrow> walker \<Rightarrow> progress_point list \<Rightarrow> bool" where
  "walked stamps w pts = (wl_points w = sort_key pp_ts pts \<and> wl_last w = sample_of (take (wl_cursor w) (wl_points w))
     \<and> (\<forall>p\<in>set (take (wl_cursor w) (wl_points w)). \<forall>ts\<in>set stamps. pp_ts p \<le> ts))"

lemma takeWhile_sorted: "sorted (map f xs) \<Longrightarrow> takeWhile (\<lambda>x. f x \<le> t) xs = filter (\<lambda>x. f x \<le> t) xs"
proof (induction xs)
  case (Cons a xs)
  have "filter (\<lambda>x. f x \<le> t) (a # xs) = []" if "\<not> f a \<le> t"
    using that Cons.prems by (auto simp: filter_empty_conv)
  then show ?case using Cons by (cases "f a \<le> t") auto
qed simp

lemma walk_to_walked:
  assumes "walked (ts # stamps) w pts" and "sorted (ts # stamps)"
  shows "wl_last (walk_to ts w) = newest_values ts pts" and "walked stamps (walk_to ts w) pts"
proof -
  let ?i = "wl_cursor w" and ?ps = "sort_key pp_ts pts" and ?P = "\<lambda>p. pp_ts p \<le> ts"
  let ?j = "?i + length (takeWhile ?P (drop ?i ?ps))"
  from assms(1) have w: "wl_points w = ?ps" "wl_last w = sample_of (take ?i ?ps)" "\<forall>p\<in>set (take ?i ?ps). ?P p"
    by (auto simp: walked_def)
  have step: "walk_to ts w = w\<lparr>wl_cursor := ?j, wl_last := sample_of (take ?j ?ps)\<rparr>"
    by (simp add: walk_to_def w advance_cursor_run)
  have "takeWhile ?P (take ?i ?ps @ drop ?i ?ps) = take ?i ?ps @ takeWhile ?P (drop ?i ?ps)"
    using w(3) by (intro takeWhile_append2) auto
  then have "takeWhile ?P ?ps = take ?i ?ps @ takeWhile ?P (drop ?i ?ps)" by (simp only: append_take_drop_id)
  also have "\<dots> = take ?j ?ps" by (simp only: take_add takeWhile_eq_take [symmetric])
  finally have t: "take ?j ?ps = filter ?P ?ps" using takeWhile_sorted [of pp_ts ?ps ts] by simp
  then show "wl_last (walk_to ts w) = newest_values ts pts" by (simp add: step sample_of_newest)
  have fin: "\<forall>p\<in>set (take ?j ?ps). \<forall>u\<in>set stamps. pp_ts p \<le> u"
    using assms(2) unfolding t by fastforce
  have pts: "wl_points (walk_to ts w) = ?ps" and cur: "wl_cursor (walk_to ts w) = ?j"
    and seen: "wl_last (walk_to ts w) = sample_of (take ?j ?ps)"
    unfolding step using w(1) by simp_all
  show "walked stamps (walk_to ts w) pts"
    unfolding walked_def pts cur seen using fin by blast
qed

lemma series_from_spec:
  "list_all2 (walked stamps) ws ptss \<Longrightarrow> sorted stamps \<Longrightarrow>
     series_from ws stamps = map (\<lambda>ts. \<lparr>sp_ts = ts, sp_total_tokens = sum_list (map (fst \<circ> newest_values ts) ptss),
       sp_cost_usd = sum_list (map (snd \<circ> newest_values ts) ptss)\<rparr>) stamps"
proof (induction stamps arbitrary: ws)
  case (Cons ts stamps)
  have l: "map (wl_last \<circ> walk_to ts) ws = map (newest_values ts) ptss"
    and k: "list_all2 (walked stamps) (map (walk_to ts) ws) ptss"
    using Cons.prems(1) walk_to_walked [OF _ Cons.prems(2)] by (induction ws ptss rule: list_all2_induct) auto
  show ?case using Cons.IH [OF k] Cons.prems(2)
    arg_cong [OF l, of "map fst"] arg_cong [OF l, of "map snd"] by (simp add: o_def)
qed simp

text \<open>C35: The progress series of a task, computed by moving one cursor per worker through its sorted
  samples, has one point for each distinct timestamp, in order, and that point is the sum over all
  workers of the newest sample each had reported by then; a quiet worker keeps its last value.\<close>

theorem progress_series_sums_newest_samples:
  "worker_progress scope s key =
    (let raw = (case get_item scope s key of None \<Rightarrow> [] | Some wi \<Rightarrow> raw_progress wi) in (series_spec raw, raw))"
proof -
  have "list_all2 (walked stamps) (map (\<lambda>pts. \<lparr>wl_points = sort_key pp_ts pts, wl_cursor = 0, wl_last = (0, 0)\<rparr>) ptss) ptss"
    for stamps ptss by (induction ptss) (auto simp: walked_def sample_of_def)
  from series_from_spec [OF this, of "stamps_of raw" "dvalues raw" for raw]
  show ?thesis by (simp add: worker_progress_def series_spec_def Let_def stamps_of_def)
qed

text \<open>A worker id that two stages use keeps only the later stage's samples.\<close>

lemma later_stage_shadows_worker:
  assumes "ss_worker_progress (wi_pfactory wi) = [(wid, a)]" and "ss_worker_progress (wi_aifactory wi) = [(wid, b)]"
    and "ss_worker_progress (wi_tfactory wi) = []"
  shows "dvalues (raw_progress wi) = [b]"
  using assms by (simp add: raw_progress_def PIPELINE_ORDER_def)

section \<open>Routing estimate and actual spend\<close>

record model_spend =
  ms_total_tokens :: int
  ms_cost_usd :: rat
  ms_workers :: int

record routing_report =
  rr_key :: string
  rr_routing :: "json option"
  rr_actual_cost_usd :: "rat option"
  rr_actual_total_tokens :: int
  rr_actual_by_model :: "(string, model_spend) dict"
  rr_billing :: "billing option"
  rr_estimate_usd :: json
  rr_ceiling_usd :: json
  rr_variance_usd :: "rat option"

definition spend_of :: "bucket \<Rightarrow> model_spend" where
  "spend_of b = \<lparr>ms_total_tokens = trunc (b_total_tokens b), ms_cost_usd = round6 (b_cost_usd b), ms_workers = trunc (b_workers b)\<rparr>"

definition variance_of :: "billing option \<Rightarrow> json \<Rightarrow> insight_error + rat option" where
  "variance_of b estimate = (case b of None \<Rightarrow> Inr None
     | Some x \<Rightarrow> if estimate = JNull \<or> \<not> bl_has_metered x then Inr None
         else (case json_number estimate of None \<Rightarrow> Inl Type_error
            | Some q \<Rightarrow> Inr (Some (round6 (bl_metered_cost_usd x - q)))))"

definition cost_routing ::
  "(string \<Rightarrow> rat option) \<Rightarrow> string option \<Rightarrow> wi_store \<Rightarrow> string \<Rightarrow> insight_error + routing_report option" where
  "cost_routing ft scope s key = (case get_item scope s key of
     None \<Rightarrow> Inr None
   | Some wi \<Rightarrow> res_bind (merge_rollups [] (map (\<lambda>svc. ss_by_model (wi_stage svc wi)) PIPELINE_ORDER)) (\<lambda>by_model.
       res_bind (billing_summary ft wi) (\<lambda>b.
       res_bind (routing_get (routing_block wi) ''cost_estimate_usd'') (\<lambda>estimate.
       res_bind (routing_get (routing_block wi) ''cost_ceiling_usd'') (\<lambda>ceiling.
       res_bind (variance_of b estimate) (\<lambda>variance.
         (let spend = map (\<lambda>(m, v). (m, spend_of v)) by_model
          in Inr (Some \<lparr>rr_key = key, rr_routing = routing_block wi, rr_actual_cost_usd = map_option bl_metered_cost_usd b,
               rr_actual_total_tokens = sum_list (map ms_total_tokens (dvalues spend)), rr_actual_by_model = spend,
               rr_billing = b, rr_estimate_usd = estimate, rr_ceiling_usd = ceiling, rr_variance_usd = variance\<rparr>))))))))"

section \<open>The question context\<close>

definition slot_text :: "service_state \<Rightarrow> string" where
  "slot_text d = the (py_or (ss_status d) (Some ''-'')) @ (if truthy (ss_phase d) then ''/'' @ the (ss_phase d) else [])"

definition rstrip :: "string \<Rightarrow> string" where
  "rstrip s = rev (dropWhile isspace (rev s))"

definition board_line :: "work_item \<Rightarrow> string" where
  "board_line wi = rstrip (''#'' @ wi_key wi @ '' '' @ (case wi_title wi of None \<Rightarrow> [] | Some t \<Rightarrow> t))
     @ '' | plan(pfactory)='' @ slot_text (wi_pfactory wi) @ '' | code(aifactory)='' @ slot_text (wi_aifactory wi)
     @ '' | test(tfactory)='' @ slot_text (wi_tfactory wi) @ '' | events='' @ digits_of_nat (length (wi_timeline wi))"

definition MAX_ITEMS :: nat where "MAX_ITEMS = 100"

definition board_snapshot :: "string option \<Rightarrow> wi_store \<Rightarrow> nat \<Rightarrow> string" where
  "board_snapshot scope s limit = (let items = take limit (list_items scope s)
     in if items = [] then ''(no work items)'' else join_with nl (map board_line items))"

text \<open>\<open>Copilot.ask\<close>: the store is only read, whatever the runner answers.\<close>

definition ask ::
  "(string \<Rightarrow> string \<Rightarrow> string \<Rightarrow> string) \<Rightarrow> string \<Rightarrow> string option \<Rightarrow> wi_store \<Rightarrow> int \<Rightarrow> string \<Rightarrow> insight_error + string \<times> nat" where
  "ask runner system_prompt scope s now question = res_bind (rollups scope s) (\<lambda>r.
     Inr (runner question (rollups_summary_line r @ nl @ anomalies_summary_line scope s now @ nl @ nl @ board_snapshot scope s MAX_ITEMS)
            system_prompt, length (list_items scope s)))"

datatype runner_choice = OpenAI_compatible | Claude_sdk

definition choose_runner :: "string option \<Rightarrow> runner_choice" where
  "choose_runner provider = (if lower (the (py_or provider (Some ''claude''))) \<in> {''ollama'', ''openai'', ''openai_compatible''}
     then OpenAI_compatible else Claude_sdk)"

text \<open>What the OpenAI-compatible runner reads from the answer.\<close>

definition content_text :: "json \<Rightarrow> insight_error + string" where
  "content_text content = (if \<not> jtruthy content then Inr ''(no response)''
     else (case content of JStr t \<Rightarrow> Inr (if strip t = [] then ''(no response)'' else strip t) | _ \<Rightarrow> Inl Attribute_error))"

definition first_choice :: "json \<Rightarrow> insight_error + json" where
  "first_choice choices = (case choices of JArr (c # _) \<Rightarrow> Inr c | JStr (c # _) \<Rightarrow> Inr (JStr [c])
     | JObj _ \<Rightarrow> Inl Key_error | _ \<Rightarrow> Inl Type_error)"

definition openai_answer :: "json \<Rightarrow> insight_error + string" where
  "openai_answer data = (let choices = (case data of JObj d \<Rightarrow> (case dget d ''choices'' of None \<Rightarrow> JNull | Some v \<Rightarrow> v) | _ \<Rightarrow> JNull)
     in if \<not> jtruthy choices then Inr ''(no response)''
        else res_bind (first_choice choices) (\<lambda>c. case c of
          JObj d \<Rightarrow> (case dget d ''message'' of None \<Rightarrow> content_text JNull
             | Some (JObj m) \<Rightarrow> content_text (case dget m ''content'' of None \<Rightarrow> JNull | Some v \<Rightarrow> v)
             | Some _ \<Rightarrow> Inl Attribute_error)
        | _ \<Rightarrow> Inl Attribute_error))"

text \<open>A runner is asked with every work item counted, and an answer of the model is never empty.\<close>

lemma openai_answer_nonempty: "openai_answer data = Inr t \<Longrightarrow> t \<noteq> []"
  by (auto simp: openai_answer_def content_text_def Let_def res_bind_Inr_iff
    split: if_splits json.splits option.splits)

text \<open>Only metered work has a variance, and it is the metered cost less the estimate.\<close>

lemma variance_of_Some:
  "variance_of b e = Inr (Some v) \<Longrightarrow> \<exists>x q. b = Some x \<and> bl_has_metered x \<and> json_number e = Some q
    \<and> v = round6 (bl_metered_cost_usd x - q)"
  by (auto simp: variance_of_def split: option.splits if_splits)

lemma variance_is_metered_only:
  assumes "cost_routing ft scope s key = Inr (Some r)" and "rr_variance_usd r = Some v"
  shows "\<exists>b q. rr_billing r = Some b \<and> bl_has_metered b \<and> json_number (rr_estimate_usd r) = Some q
    \<and> v = round6 (bl_metered_cost_usd b - q)"
proof -
  from assms(1) have "variance_of (rr_billing r) (rr_estimate_usd r) = Inr (rr_variance_usd r)"
    by (auto simp: cost_routing_def res_bind_Inr_iff Let_def split: option.splits)
  with assms(2) show ?thesis by (auto dest: variance_of_Some)
qed

section \<open>Examples\<close>

definition ex_usage :: "int \<Rightarrow> rat \<Rightarrow> token_usage" where
  "ex_usage n c = \<lparr>tu_input_tokens = n, tu_output_tokens = 0, tu_total_tokens = n, tu_cost_usd = c, tu_model = None,
     tu_workers = None, tu_by_provider = None, tu_by_model = None, tu_budget = None\<rparr>"

definition ex_usage_row :: wi_row where
  "ex_usage_row = \<lparr>wr_id = 1, wr_key = ''7'', wr_tenant = ''default'', wr_title = None,
     wr_pfactory = Some (empty_state\<lparr>ss_usage := Some (ex_usage 10 (1/2))\<rparr>),
     wr_aifactory = Some (empty_state\<lparr>ss_usage := Some (ex_usage 5 1)\<rparr>), wr_tfactory = None,
     wr_timeline = [], wr_created_at = 0, wr_updated_at = 0\<rparr>"

definition ex_usage_store :: wi_store where
  "ex_usage_store = \<lparr>ws_rows = [ex_usage_row], ws_next = 2\<rparr>"

lemma token_totals_witness:
  "\<exists>grand by_service by_item. token_totals (\<lambda>_. None) None ex_usage_store = Inr (grand, by_service, by_item)
     \<and> ts_total_tokens (ft_sum grand) = 15
     \<and> sum_list (map (ts_total_tokens \<circ> vt_sum) (dvalues by_service)) = 15
     \<and> sum_list (map (ts_total_tokens \<circ> rw_sum) by_item) = 15"
proof -
  have items: "list_items None ex_usage_store = [to_model ex_usage_row]"
    by (simp add: list_items_def select_rows_def visible_def in_scope_def ex_usage_store_def)
  obtain grand by_service by_item where run: "token_totals (\<lambda>_. None) None ex_usage_store = Inr (grand, by_service, by_item)"
    and t: "ts_total_tokens (ft_sum grand) = 15"
    by (simp add: token_totals_def items empty_accounts_def PIPELINE_ORDER_def to_model_def slice_or_empty_def ex_usage_row_def
      ex_usage_def empty_state_def no_tokens_def add_usage_to_def add_tokens_def item_row_of_def billing_summary_def Let_def
      sort_desc_def)
  from token_totals_are_one_account [OF run] run t show ?thesis by auto
qed

end
