(* ===== verification/McpServer.thy ===== *)
theory McpServer
  imports McpTools Identity CopilotTokens BoardOps GitOps
begin

text \<open>
  The MCP server of \<open>mcp.py\<close>: authentication, the tool handlers, the rendering of domain errors and the
  JSON-RPC endpoint, over the one world the tools share: the work items, the cards, the git tables
  with the token cache, and the audit chain.  A handler runs the same operation its REST twin runs.
  Pydantic's parsing of a tool's arguments is a parameter (\<open>arg_parsers\<close>, which gives the rejection's
  details or the parsed body), as is the text a database driver compares a value that is not a string
  with.  A result is kept as the value the code serialises.
\<close>

section \<open>The world and the environment\<close>

record mcp_world =
  mw_items :: wi_store
  mw_cards :: card_store
  mw_inst :: install_world
  mw_log :: audit_log
  mw_legacy_allowed :: nat
  mw_legacy_denied :: nat

definition board_of :: "mcp_world \<Rightarrow> board" where
  "board_of w = \<lparr>bd_cards = mw_cards w, bd_audit = mw_log w\<rparr>"

definition with_board :: "board \<Rightarrow> mcp_world \<Rightarrow> mcp_world" where
  "with_board b w = w\<lparr>mw_cards := bd_cards b, mw_log := bd_audit b\<rparr>"

definition git_of :: "mcp_world \<Rightarrow> git_world" where
  "git_of w = \<lparr>gw_inst = mw_inst w, gw_log = mw_log w\<rparr>"

definition with_git :: "git_world \<Rightarrow> mcp_world \<Rightarrow> mcp_world" where
  "with_git g w = w\<lparr>mw_inst := gw_inst g, mw_log := gw_log g\<rparr>"

record arg_parsers =
  ap_card_create :: "jobj \<Rightarrow> json + card_create"
  ap_card_update :: "jobj \<Rightarrow> json + card_field list"
  ap_config_update :: "jobj \<Rightarrow> json + config_update"
  ap_connection_create :: "jobj \<Rightarrow> json + conn_create"
  ap_connection_update :: "jobj \<Rightarrow> json + conn_update"
  ap_repository_create :: "jobj \<Rightarrow> json + repo_create"
  ap_repository_update :: "jobj \<Rightarrow> json + repo_update"
  ap_bind :: "json \<Rightarrow> string option"
  ap_str :: "json \<Rightarrow> string"

record mcp_env =
  me_secret :: "string option"
  me_legacy_mode :: string
  me_dev_open :: bool
  me_multi_tenant :: bool
  me_keys :: keystore
  me_sha :: "string \<Rightarrow> string"
  me_mac :: "string \<Rightarrow> string"
  me_issuer :: "string option"
  me_decode :: "string \<Rightarrow> jobj option"
  me_board :: board_env
  me_git :: git_ops_env
  me_parse :: arg_parsers

text \<open>What one call draws from outside: the clock, the ids of new rows and a random state token.\<close>

record tool_ctx =
  tc_scope :: "string option"
  tc_audit :: audit_ctx
  tc_now :: int
  tc_new_connection :: nat
  tc_new_repository :: nat
  tc_token :: string

text \<open>The board operations read the git tables as they are in the world.\<close>

definition board_env_now :: "mcp_env \<Rightarrow> mcp_world \<Rightarrow> board_env" where
  "board_env_now env w = (let e = me_board env; db = iw_db (mw_inst w); sy = be_sync e
     in e\<lparr>be_sync := sy\<lparr>sy_intake := (sy_intake sy)\<lparr>en_db := db\<rparr>\<rparr>, be_import := (be_import e)\<lparr>ie_db := db\<rparr>\<rparr>)"

section \<open>Authentication\<close>

record mcp_request =
  rq_authorization :: "string option"
  rq_api_key :: "string option"
  rq_id_token :: "string option"
  rq_tenant :: "string option"
  rq_body :: "json option"

definition request_token :: "mcp_request \<Rightarrow> string option" where
  "request_token rq = extract_key (rq_authorization rq) (rq_api_key rq)"

definition legacy_allowed :: "mcp_env \<Rightarrow> bool" where
  "legacy_allowed env = (lower (strip (me_legacy_mode env)) = ''allow'')"

definition scoped_key :: "mcp_env \<Rightarrow> string option \<Rightarrow> auth_error + string list" where
  "scoped_key env token = res_bind (if configured (me_keys env) then scopes_for (me_keys env) token else Inr None) (\<lambda>sc.
     case sc of Some scopes \<Rightarrow> Inr scopes
     | None \<Rightarrow> if truthy (me_secret env) \<or> configured (me_keys env) then Inl (HttpError 401)
         else if me_dev_open env then Inr FULL_SCOPE else Inl (HttpError 401))"

definition authenticate :: "mcp_env \<Rightarrow> mcp_request \<Rightarrow> mcp_world \<Rightarrow> (auth_error + string list) \<times> mcp_world" where
  "authenticate env rq w = (case (if truthy (me_secret env) then secret_matches (request_token rq) (me_secret env) else Inr False) of
     Inl e \<Rightarrow> (Inl e, w)
   | Inr True \<Rightarrow> if legacy_allowed env then (Inr FULL_SCOPE, w\<lparr>mw_legacy_allowed := mw_legacy_allowed w + 1\<rparr>)
       else (scoped_key env (request_token rq), w\<lparr>mw_legacy_denied := mw_legacy_denied w + 1\<rparr>)
   | Inr False \<Rightarrow> (scoped_key env (request_token rq), w))"

section \<open>Results and errors\<close>

record service_summary =
  sm_task_id :: "string option"
  sm_status :: "string option"
  sm_phase :: "string option"

record item_summary =
  it_key :: string
  it_title :: "string option"
  it_pfactory :: service_summary
  it_aifactory :: service_summary
  it_tfactory :: service_summary
  it_events :: nat

datatype tool_error =
    No_work_item json
  | Unknown_tool json
  | No_card json
  | Card_exists string
  | Issue_tracked "string option"
  | Stage_refusal refusal
  | Config_error git_error
  | Id_required string
  | Credential_refused store_error
  | Install_error install_exc
  | Invalid_arguments "json option"

datatype payload =
    P_items "item_summary list"
  | P_item work_item
  | P_timeline timeline_summary
  | P_rollups board_rollups
  | P_anomalies "anomaly list"
  | P_cards "nat \<times> card list"
  | P_sync_state "freshness list"
  | P_card card
  | P_comments "nat \<times> int option \<times> comment_row list"
  | P_synced "sync_result \<times> card"
  | P_imported import_result
  | P_deleted string
  | P_stage "dispatch_result \<times> card option"
  | P_config git_config
  | P_verified "verify_outcome \<times> git_config"
  | P_credential cred_info
  | P_credential_removed "bool \<times> cred_info"
  | P_capabilities "string list \<times> capability list"
  | P_connections "conn_view list \<times> nat option \<times> (string, bool) dict"
  | P_connection conn_view
  | P_default_now "nat option"
  | P_connection_verified verify_connection_result
  | P_install_link install_link
  | P_install_removed "bool \<times> conn_view"
  | P_repositories "repo_view list \<times> nat option"
  | P_repository repo_view
  | P_error tool_error

text \<open>An exception is one of the domain errors, which are rendered, or any other.\<close>

datatype tool_failure = Rendered tool_error | Uncaught

fun card_failure :: "card_error \<Rightarrow> tool_failure" where
  "card_failure (DuplicateCardKey k) = Rendered (Card_exists k)"
| "card_failure (DuplicateIssueRef r) = Rendered (Issue_tracked r)"
| "card_failure CardValidation = Rendered (Invalid_arguments None)"
| "card_failure BadKeySuffix = Uncaught"
| "card_failure CommentIntegrity = Uncaught"

fun op_failure :: "op_error \<Rightarrow> tool_failure" where
  "op_failure (Card_not_found k) = Rendered (No_card (JStr k))"
| "op_failure (Stage_refused r) = Rendered (Stage_refusal r)"
| "op_failure (Unknown_stage s) = Uncaught"
| "op_failure (Store_refused e) = card_failure e"
| "op_failure (Hook_raised (Git_failed e)) = Rendered (Config_error e)"
| "op_failure (Hook_raised (Store_failed_update e)) = card_failure e"
| "op_failure (Hook_raised Bad_issue_number) = Uncaught"
| "op_failure (Import_raised e) = Rendered (Config_error e)"
| "op_failure (Audit_raised e) = Uncaught"

fun store_failure :: "store_error \<Rightarrow> tool_failure" where
  "store_failure (GitErr e) = Rendered (Config_error e)"
| "store_failure (DbErr e) = Uncaught"
| "store_failure e = Rendered (Credential_refused e)"

fun install_failure :: "install_exc \<Rightarrow> tool_failure" where
  "install_failure (Git_exc e) = Rendered (Config_error e)"
| "install_failure (Store_exc e) = store_failure e"
| "install_failure Naive_expiry = Uncaught"
| "install_failure e = Rendered (Install_error e)"

fun git_op_failure :: "git_failure \<Rightarrow> tool_failure" where
  "git_op_failure (Config_refused e) = Rendered (Config_error e)"
| "git_op_failure (Secret_refused e) = store_failure e"
| "git_op_failure (Install_refused e) = install_failure e"
| "git_op_failure e = Uncaught"

section \<open>Running an operation\<close>

type_synonym mcp_m = "mcp_world \<Rightarrow> (tool_failure + payload) \<times> mcp_world"

definition mcp_return :: "payload \<Rightarrow> mcp_m" where
  "mcp_return p w = (Inr p, w)"

definition mcp_fail :: "tool_failure \<Rightarrow> mcp_m" where
  "mcp_fail e w = (Inl e, w)"

definition mcp_get :: "(mcp_world \<Rightarrow> tool_failure + payload) \<Rightarrow> mcp_m" where
  "mcp_get f w = (f w, w)"

definition given :: "tool_failure + 'a \<Rightarrow> ('a \<Rightarrow> mcp_m) \<Rightarrow> mcp_m" where
  "given r f = (case r of Inl e \<Rightarrow> mcp_fail e | Inr x \<Rightarrow> f x)"

definition on_board :: "(mcp_world \<Rightarrow> board \<Rightarrow> (op_error + 'a) \<times> board) \<Rightarrow> ('a \<Rightarrow> payload) \<Rightarrow> mcp_m" where
  "on_board f mk w = (case f w (board_of w) of
     (Inl e, b) \<Rightarrow> (Inl (op_failure e), with_board b w) | (Inr x, b) \<Rightarrow> (Inr (mk x), with_board b w))"

definition on_git :: "'a git_m \<Rightarrow> ('a \<Rightarrow> payload) \<Rightarrow> mcp_m" where
  "on_git f mk w = (case f (git_of w) of
     (Inl e, g) \<Rightarrow> (Inl (git_op_failure e), with_git g w) | (Inr x, g) \<Rightarrow> (Inr (mk x), with_git g w))"

section \<open>Arguments\<close>

definition parsed :: "json + 'a \<Rightarrow> tool_failure + 'a" where
  "parsed r = (case r of Inl d \<Rightarrow> Inl (Rendered (Invalid_arguments (Some d))) | Inr x \<Rightarrow> Inr x)"

text \<open>\<open>args.get(k, "")\<close> compared with a text column: null equals no row.\<close>

definition text_arg :: "mcp_env \<Rightarrow> jobj \<Rightarrow> string \<Rightarrow> tool_failure + string option" where
  "text_arg env args k = (case dget args k of
     None \<Rightarrow> Inr (Some []) | Some (JStr s) \<Rightarrow> Inr (Some s) | Some JNull \<Rightarrow> Inr None
   | Some j \<Rightarrow> (case ap_bind (me_parse env) j of None \<Rightarrow> Inl Uncaught | Some t \<Rightarrow> Inr (Some t)))"

definition filter_arg :: "mcp_env \<Rightarrow> jobj \<Rightarrow> string \<Rightarrow> tool_failure + string option" where
  "filter_arg env args k = (if dget args k = None then Inr None else text_arg env args k)"

definition with_card :: "mcp_env \<Rightarrow> jobj \<Rightarrow> (string \<Rightarrow> mcp_m) \<Rightarrow> mcp_m" where
  "with_card env args f = given (text_arg env args ''card_key'') (\<lambda>k. case k of
     None \<Rightarrow> mcp_fail (Rendered (No_card JNull)) | Some key \<Rightarrow> f key)"

definition without :: "string \<Rightarrow> jobj \<Rightarrow> jobj" where
  "without k args = dpop k args"

text \<open>Row ids start at 1, so a negative id names no row, as 0 does.\<close>

definition row_id :: "int \<Rightarrow> nat" where
  "row_id i = nat i"

definition id_arg :: "string \<Rightarrow> jobj \<Rightarrow> tool_failure + nat" where
  "id_arg k args = (case dget args k of
     None \<Rightarrow> Inl (Rendered (Id_required k))
   | Some j \<Rightarrow> (case int_of_json j of Inl e \<Rightarrow> Inl (Rendered (Id_required k)) | Inr i \<Rightarrow> Inr (row_id i)))"

definition connection_id :: "jobj \<Rightarrow> tool_failure + nat" where
  "connection_id args = id_arg ''connection_id'' args"

definition repository_id :: "jobj \<Rightarrow> tool_failure + nat" where
  "repository_id args = id_arg ''repository_id'' args"

definition credential_arg :: "mcp_env \<Rightarrow> jobj \<Rightarrow> string" where
  "credential_arg env args = (case dget args ''credential'' of
     None \<Rightarrow> [] | Some j \<Rightarrow> if jtruthy j then Adapters.json_str (ap_str (me_parse env)) j else [])"

definition project_arg :: "jobj \<Rightarrow> tool_failure + string option" where
  "project_arg args = (case dget args ''project'' of
     None \<Rightarrow> Inr None | Some (JStr s) \<Rightarrow> Inr (Some s) | Some j \<Rightarrow> if jtruthy j then Inl Uncaught else Inr None)"

section \<open>Pipeline tools\<close>

definition summary_of :: "service_state \<Rightarrow> service_summary" where
  "summary_of s = \<lparr>sm_task_id = ss_task_id s, sm_status = ss_status s, sm_phase = ss_phase s\<rparr>"

definition tool_list_workitems :: mcp_m where
  "tool_list_workitems = mcp_get (\<lambda>w. Inr (P_items (map (\<lambda>wi. \<lparr>it_key = wi_key wi, it_title = wi_title wi,
     it_pfactory = summary_of (wi_pfactory wi), it_aifactory = summary_of (wi_aifactory wi),
     it_tfactory = summary_of (wi_tfactory wi), it_events = length (wi_timeline wi)\<rparr>) (list_items None (mw_items w)))))"

definition tool_get_workitem :: "mcp_env \<Rightarrow> jobj \<Rightarrow> mcp_m" where
  "tool_get_workitem env args = given (text_arg env args ''correlation_key'') (\<lambda>k. case k of
     None \<Rightarrow> mcp_return (P_error (No_work_item JNull))
   | Some key \<Rightarrow> mcp_get (\<lambda>w. Inr (case get_item None (mw_items w) key of
       None \<Rightarrow> P_error (No_work_item (JStr key)) | Some wi \<Rightarrow> P_item wi)))"

definition tool_get_timeline :: "mcp_env \<Rightarrow> jobj \<Rightarrow> mcp_m" where
  "tool_get_timeline env args = given (text_arg env args ''correlation_key'') (\<lambda>k. case k of
     None \<Rightarrow> mcp_return (P_error (No_work_item JNull))
   | Some key \<Rightarrow> mcp_get (\<lambda>w. case summarize_timeline None (mw_items w) key of
       Inl e \<Rightarrow> Inl Uncaught
     | Inr None \<Rightarrow> Inr (P_error (No_work_item (JStr key)))
     | Inr (Some t) \<Rightarrow> Inr (P_timeline t)))"

definition tool_get_rollups :: mcp_m where
  "tool_get_rollups = mcp_get (\<lambda>w. case rollups None (mw_items w) of Inl e \<Rightarrow> Inl Uncaught | Inr r \<Rightarrow> Inr (P_rollups r))"

definition tool_get_anomalies :: "tool_ctx \<Rightarrow> mcp_m" where
  "tool_get_anomalies cx = mcp_get (\<lambda>w. Inr (P_anomalies (detect_anomalies None (mw_items w) (tc_now cx) DEFAULT_STALE_SECONDS)))"

section \<open>Card tools\<close>

definition tool_card_sync_state :: "mcp_env \<Rightarrow> tool_ctx \<Rightarrow> mcp_m" where
  "tool_card_sync_state env cx = mcp_get (\<lambda>w.
     Inr (P_sync_state (sync_state (be_import (board_env_now env w)) (tc_scope cx) (tc_now cx) (board_of w))))"

text \<open>A column or tier no card can have matches no card.\<close>

definition status_names :: "(string \<times> card_status) list" where
  "status_names = [(''backlog'', Backlog), (''ready'', Ready), (''in_progress'', In_progress), (''blocked'', Blocked), (''done'', Card_done)]"

definition tool_list_cards :: "mcp_env \<Rightarrow> tool_ctx \<Rightarrow> jobj \<Rightarrow> mcp_m" where
  "tool_list_cards env cx args =
     given (filter_arg env args ''status'') (\<lambda>status. given (filter_arg env args ''milestone'') (\<lambda>milestone.
     given (filter_arg env args ''assignee'') (\<lambda>assignee. given (filter_arg env args ''tier'') (\<lambda>tier.
       let st = Option.bind status (map_of status_names); ti = Option.bind tier tier_named
       in if status \<noteq> None \<and> st = None \<or> tier \<noteq> None \<and> ti = None then mcp_return (P_cards (0, []))
          else mcp_get (\<lambda>w. Inr (P_cards (op_list (tc_scope cx)
            \<lparr>cf_status = st, cf_milestone = milestone, cf_assignee = assignee, cf_tier = ti\<rparr> (board_of w))))))))"

definition board_read :: "(board \<Rightarrow> op_error + 'a) \<Rightarrow> ('a \<Rightarrow> payload) \<Rightarrow> mcp_m" where
  "board_read f mk = mcp_get (\<lambda>w. case f (board_of w) of Inl e \<Rightarrow> Inl (op_failure e) | Inr x \<Rightarrow> Inr (mk x))"

definition tool_get_card :: "mcp_env \<Rightarrow> tool_ctx \<Rightarrow> jobj \<Rightarrow> mcp_m" where
  "tool_get_card env cx args = with_card env args (\<lambda>key. board_read (op_get (tc_scope cx) key) P_card)"

definition tool_card_comments :: "mcp_env \<Rightarrow> tool_ctx \<Rightarrow> jobj \<Rightarrow> mcp_m" where
  "tool_card_comments env cx args = with_card env args (\<lambda>key. board_read (op_comments (tc_scope cx) key) P_comments)"

definition tool_create_card :: "mcp_env \<Rightarrow> tool_ctx \<Rightarrow> jobj \<Rightarrow> mcp_m" where
  "tool_create_card env cx args = given (parsed (ap_card_create (me_parse env) args)) (\<lambda>d.
     on_board (\<lambda>w. op_create (board_env_now env w) (tc_audit cx) (tc_scope cx) (tc_now cx) d) P_card)"

definition tool_update_card :: "mcp_env \<Rightarrow> tool_ctx \<Rightarrow> jobj \<Rightarrow> mcp_m" where
  "tool_update_card env cx args = given (parsed (ap_card_update (me_parse env) (without ''card_key'' args))) (\<lambda>fs.
     with_card env args (\<lambda>key. on_board (\<lambda>w. op_update (board_env_now env w) (tc_audit cx) (tc_scope cx) (tc_now cx) key fs) P_card))"

definition tool_sync_card_github :: "mcp_env \<Rightarrow> tool_ctx \<Rightarrow> jobj \<Rightarrow> mcp_m" where
  "tool_sync_card_github env cx args = with_card env args (\<lambda>key.
     on_board (\<lambda>w. op_sync (board_env_now env w) (tc_audit cx) (tc_scope cx) (tc_now cx) key) P_synced)"

definition tool_import_cards :: "mcp_env \<Rightarrow> tool_ctx \<Rightarrow> jobj \<Rightarrow> mcp_m" where
  "tool_import_cards env cx args = given (project_arg args) (\<lambda>project.
     given (case dget args ''repository_id'' of None \<Rightarrow> Inr None | Some JNull \<Rightarrow> Inr None
            | Some _ \<Rightarrow> res_bind (repository_id args) (\<lambda>i. Inr (Some i))) (\<lambda>rid.
       on_board (\<lambda>w. op_import (board_env_now env w) (tc_audit cx) (tc_scope cx) (tc_now cx) rid project
         (case dget args ''full'' of None \<Rightarrow> False | Some v \<Rightarrow> jtruthy v)) P_imported))"

definition tool_delete_card :: "mcp_env \<Rightarrow> tool_ctx \<Rightarrow> jobj \<Rightarrow> mcp_m" where
  "tool_delete_card env cx args = with_card env args (\<lambda>key.
     on_board (\<lambda>w. op_delete (tc_audit cx) (tc_scope cx) (tc_now cx) key) (\<lambda>_. P_deleted key))"

text \<open>One handler per stage; the empty stage is the whole sequence.\<close>

definition tool_stage_card :: "string \<Rightarrow> mcp_env \<Rightarrow> tool_ctx \<Rightarrow> jobj \<Rightarrow> mcp_m" where
  "tool_stage_card stage env cx args = with_card env args (\<lambda>key.
     if stage = [] then on_board (\<lambda>w. op_run_sequence (board_env_now env w) (tc_audit cx) (tc_scope cx) (tc_now cx) key) P_stage
     else on_board (\<lambda>w. op_run_stage (board_env_now env w) (tc_audit cx) (tc_scope cx) (tc_now cx) key stage) P_stage)"

section \<open>Git tools\<close>

text \<open>A tool works on the caller's tenant: the tenant of the card store it was given.\<close>

definition ctx_tenant :: "tool_ctx \<Rightarrow> string" where
  "ctx_tenant cx = tenant_of (tc_scope cx)"

definition git_reading :: "(git_db \<Rightarrow> git_error + 'a) \<Rightarrow> ('a \<Rightarrow> payload) \<Rightarrow> mcp_m" where
  "git_reading f mk = mcp_get (\<lambda>w. case f (gdb (git_of w)) of Inl e \<Rightarrow> Inl (Rendered (Config_error e)) | Inr x \<Rightarrow> Inr (mk x))"

definition tool_get_git_config :: "mcp_env \<Rightarrow> tool_ctx \<Rightarrow> mcp_m" where
  "tool_get_git_config env cx = git_reading (get_git_config (me_git env) (ctx_tenant cx)) P_config"

definition tool_set_git_config :: "mcp_env \<Rightarrow> tool_ctx \<Rightarrow> jobj \<Rightarrow> mcp_m" where
  "tool_set_git_config env cx args = given (parsed (ap_config_update (me_parse env) args)) (\<lambda>u.
     on_git (op_set_config (me_git env) (tc_audit cx) (ctx_tenant cx) (tc_new_connection cx) (tc_new_repository cx) (tc_now cx) u) P_config)"

definition tool_verify_git_config :: "mcp_env \<Rightarrow> tool_ctx \<Rightarrow> mcp_m" where
  "tool_verify_git_config env cx = on_git (op_verify_config (me_git env) (tc_audit cx) (ctx_tenant cx)
     (tc_new_connection cx) (tc_new_repository cx) (tc_now cx)) P_verified"

definition tool_set_git_credential :: "mcp_env \<Rightarrow> tool_ctx \<Rightarrow> jobj \<Rightarrow> mcp_m" where
  "tool_set_git_credential env cx args = on_git (op_set_tenant_credential (me_git env) (tc_audit cx) (ctx_tenant cx)
     (tc_new_connection cx) (tc_now cx) (credential_arg env args)) P_credential"

definition tool_delete_git_credential :: "mcp_env \<Rightarrow> tool_ctx \<Rightarrow> mcp_m" where
  "tool_delete_git_credential env cx =
     on_git (op_clear_tenant_credential (me_git env) (tc_audit cx) (ctx_tenant cx) (tc_now cx)) P_credential_removed"

definition tool_git_capabilities :: mcp_m where
  "tool_git_capabilities = mcp_return (P_capabilities capability_matrix)"

definition tool_list_git_connections :: "mcp_env \<Rightarrow> tool_ctx \<Rightarrow> mcp_m" where
  "tool_list_git_connections env cx = git_reading (\<lambda>s. Inr (list_git_connections (me_git env) (ctx_tenant cx) s)) P_connections"

definition tool_create_git_connection :: "mcp_env \<Rightarrow> tool_ctx \<Rightarrow> jobj \<Rightarrow> mcp_m" where
  "tool_create_git_connection env cx args = given (parsed (ap_connection_create (me_parse env) args)) (\<lambda>body.
     on_git (op_create_connection (me_git env) (tc_audit cx) (ctx_tenant cx) (tc_new_connection cx) (tc_now cx) body) P_connection)"

definition tool_update_git_connection :: "mcp_env \<Rightarrow> tool_ctx \<Rightarrow> jobj \<Rightarrow> mcp_m" where
  "tool_update_git_connection env cx args = given (connection_id args) (\<lambda>cid.
     given (parsed (ap_connection_update (me_parse env) (without ''connection_id'' args))) (\<lambda>body.
       on_git (op_update_connection (me_git env) (tc_audit cx) (ctx_tenant cx) cid (tc_now cx) body) P_connection))"

definition tool_delete_git_connection :: "mcp_env \<Rightarrow> tool_ctx \<Rightarrow> jobj \<Rightarrow> mcp_m" where
  "tool_delete_git_connection env cx args = given (connection_id args) (\<lambda>cid.
     on_git (op_delete_connection (tc_audit cx) (ctx_tenant cx) cid (tc_now cx)) P_default_now)"

definition tool_verify_git_connection :: "mcp_env \<Rightarrow> tool_ctx \<Rightarrow> jobj \<Rightarrow> mcp_m" where
  "tool_verify_git_connection env cx args = given (connection_id args) (\<lambda>cid.
     on_git (op_verify_connection (me_git env) (tc_audit cx) (ctx_tenant cx) (tc_new_connection cx) (tc_new_repository cx) cid (tc_now cx))
       P_connection_verified)"

definition tool_set_git_connection_credential :: "mcp_env \<Rightarrow> tool_ctx \<Rightarrow> jobj \<Rightarrow> mcp_m" where
  "tool_set_git_connection_credential env cx args = given (connection_id args) (\<lambda>cid.
     on_git (op_set_credential (me_git env) (tc_audit cx) (ctx_tenant cx) cid (tc_now cx) (credential_arg env args)) P_credential)"

definition tool_delete_git_connection_credential :: "mcp_env \<Rightarrow> tool_ctx \<Rightarrow> jobj \<Rightarrow> mcp_m" where
  "tool_delete_git_connection_credential env cx args = given (connection_id args) (\<lambda>cid.
     on_git (op_clear_credential (me_git env) (tc_audit cx) (ctx_tenant cx) cid (tc_now cx)) P_credential_removed)"

definition tool_start_git_install :: "mcp_env \<Rightarrow> tool_ctx \<Rightarrow> jobj \<Rightarrow> mcp_m" where
  "tool_start_git_install env cx args = given (connection_id args) (\<lambda>cid.
     on_git (op_start_install (me_git env) (tc_audit cx) (ctx_tenant cx) cid (tc_token cx) (tc_now cx)) P_install_link)"

definition tool_delete_git_install :: "mcp_env \<Rightarrow> tool_ctx \<Rightarrow> jobj \<Rightarrow> mcp_m" where
  "tool_delete_git_install env cx args = given (connection_id args) (\<lambda>cid.
     on_git (op_delete_install (me_git env) (tc_audit cx) (ctx_tenant cx) cid (tc_now cx)) P_install_removed)"

definition tool_list_git_repositories :: "tool_ctx \<Rightarrow> jobj \<Rightarrow> mcp_m" where
  "tool_list_git_repositories cx args =
     given (case dget args ''connection_id'' of None \<Rightarrow> Inr None | Some JNull \<Rightarrow> Inr None
            | Some _ \<Rightarrow> res_bind (connection_id args) (\<lambda>i. Inr (Some i))) (\<lambda>cid.
       git_reading (\<lambda>s. Inr (list_git_repositories (ctx_tenant cx) cid s)) P_repositories)"

definition tool_create_git_repository :: "mcp_env \<Rightarrow> tool_ctx \<Rightarrow> jobj \<Rightarrow> mcp_m" where
  "tool_create_git_repository env cx args = given (connection_id args) (\<lambda>cid.
     given (parsed (ap_repository_create (me_parse env) (without ''connection_id'' args))) (\<lambda>body.
       on_git (op_create_repository (tc_audit cx) (ctx_tenant cx) (tc_new_repository cx) (tc_now cx) cid body) P_repository))"

definition tool_update_git_repository :: "mcp_env \<Rightarrow> tool_ctx \<Rightarrow> jobj \<Rightarrow> mcp_m" where
  "tool_update_git_repository env cx args = given (repository_id args) (\<lambda>rid.
     given (parsed (ap_repository_update (me_parse env) (without ''repository_id'' args))) (\<lambda>body.
       on_git (op_update_repository (tc_audit cx) (ctx_tenant cx) rid (tc_now cx) body) P_repository))"

definition tool_delete_git_repository :: "tool_ctx \<Rightarrow> jobj \<Rightarrow> mcp_m" where
  "tool_delete_git_repository cx args = given (repository_id args) (\<lambda>rid.
     on_git (op_delete_repository (tc_audit cx) (ctx_tenant cx) rid (tc_now cx)) P_default_now)"

definition tool_set_default_git_repository :: "tool_ctx \<Rightarrow> jobj \<Rightarrow> mcp_m" where
  "tool_set_default_git_repository cx args = given (repository_id args) (\<lambda>rid.
     on_git (op_set_default_repository (tc_audit cx) (ctx_tenant cx) rid (tc_now cx)) P_repository)"

section \<open>Dispatch\<close>

definition TOOL_HANDLERS :: "(string, mcp_env \<Rightarrow> tool_ctx \<Rightarrow> jobj \<Rightarrow> mcp_m) dict" where
  "TOOL_HANDLERS = [
     (''cfactory_list_workitems'', \<lambda>_ _ _. tool_list_workitems),
     (''cfactory_get_workitem'', \<lambda>env _. tool_get_workitem env),
     (''cfactory_get_timeline'', \<lambda>env _. tool_get_timeline env),
     (''cfactory_get_rollups'', \<lambda>_ _ _. tool_get_rollups),
     (''cfactory_get_anomalies'', \<lambda>_ cx _. tool_get_anomalies cx),
     (''cfactory_list_cards'', tool_list_cards),
     (''cfactory_card_sync_state'', \<lambda>env cx _. tool_card_sync_state env cx),
     (''cfactory_get_card'', tool_get_card),
     (''cfactory_card_comments'', tool_card_comments),
     (''cfactory_create_card'', tool_create_card),
     (''cfactory_update_card'', tool_update_card),
     (''cfactory_move_card'', tool_update_card),
     (''cfactory_reprioritise_card'', tool_update_card),
     (''cfactory_sync_card_github'', tool_sync_card_github),
     (''cfactory_import_cards'', tool_import_cards),
     (''cfactory_plan_card'', tool_stage_card ''plan''),
     (''cfactory_code_card'', tool_stage_card ''code''),
     (''cfactory_test_card'', tool_stage_card ''test''),
     (''cfactory_run_card'', tool_stage_card []),
     (''cfactory_delete_card'', tool_delete_card),
     (''cfactory_get_git_config'', \<lambda>env cx _. tool_get_git_config env cx),
     (''cfactory_set_git_config'', tool_set_git_config),
     (''cfactory_verify_git_config'', \<lambda>env cx _. tool_verify_git_config env cx),
     (''cfactory_set_git_credential'', tool_set_git_credential),
     (''cfactory_delete_git_credential'', \<lambda>env cx _. tool_delete_git_credential env cx),
     (''cfactory_git_capabilities'', \<lambda>_ _ _. tool_git_capabilities),
     (''cfactory_list_git_connections'', \<lambda>env cx _. tool_list_git_connections env cx),
     (''cfactory_create_git_connection'', tool_create_git_connection),
     (''cfactory_update_git_connection'', tool_update_git_connection),
     (''cfactory_delete_git_connection'', tool_delete_git_connection),
     (''cfactory_verify_git_connection'', tool_verify_git_connection),
     (''cfactory_set_git_connection_credential'', tool_set_git_connection_credential),
     (''cfactory_delete_git_connection_credential'', tool_delete_git_connection_credential),
     (''cfactory_start_git_install'', tool_start_git_install),
     (''cfactory_delete_git_install'', tool_delete_git_install),
     (''cfactory_list_git_repositories'', \<lambda>_. tool_list_git_repositories),
     (''cfactory_create_git_repository'', tool_create_git_repository),
     (''cfactory_update_git_repository'', tool_update_git_repository),
     (''cfactory_delete_git_repository'', \<lambda>_. tool_delete_git_repository),
     (''cfactory_set_default_git_repository'', \<lambda>_. tool_set_default_git_repository)]"

text \<open>The handlers that ignore their arguments take anything; the others raise on what is no object.\<close>

definition IGNORES_ARGUMENTS :: "string list" where
  "IGNORES_ARGUMENTS = [''cfactory_list_workitems'', ''cfactory_get_rollups'', ''cfactory_get_anomalies'', ''cfactory_card_sync_state'',
     ''cfactory_get_git_config'', ''cfactory_verify_git_config'', ''cfactory_delete_git_credential'', ''cfactory_git_capabilities'',
     ''cfactory_list_git_connections'']"

definition dispatch_tool :: "mcp_env \<Rightarrow> tool_ctx \<Rightarrow> json \<Rightarrow> json \<Rightarrow> mcp_m" where
  "dispatch_tool env cx name arguments w = (case name of
     JStr n \<Rightarrow> (case dget TOOL_HANDLERS n of
        None \<Rightarrow> (Inr (P_error (Unknown_tool name)), w)
      | Some handler \<Rightarrow> (case (case arguments of JObj d \<Rightarrow> handler env cx d w
             | _ \<Rightarrow> if n \<in> set IGNORES_ARGUMENTS then handler env cx [] w else (Inl Uncaught, w)) of
           (Inl (Rendered e), w') \<Rightarrow> (Inr (P_error e), w')
         | (Inl Uncaught, w') \<Rightarrow> (Inl Uncaught, w')
         | (Inr p, w') \<Rightarrow> (Inr p, w')))
   | _ \<Rightarrow> (Inr (P_error (Unknown_tool name)), w))"

section \<open>The endpoint\<close>

datatype rpc_result = R_initialize | R_tools "tool_spec list" | R_content payload

datatype mcp_reply =
    Refused nat
  | Crashed
  | Accepted_empty
  | Rpc_result nat rpc_result json
  | Rpc_error nat int json

text \<open>The audit entries of a call carry the caller and the endpoint; \<open>None\<close> when naming the caller raises.\<close>

definition tool_context :: "mcp_env \<Rightarrow> mcp_request \<Rightarrow> tool_ctx \<Rightarrow> tool_ctx option" where
  "tool_context env rq draw = (case identity_dep (me_keys env) (me_sha env) (me_decode env) (me_issuer env)
       (rq_authorization rq) (rq_api_key rq) (rq_id_token rq) of
     Inl e \<Rightarrow> None
   | Inr actor \<Rightarrow> Some (draw\<lparr>tc_scope := request_scope (me_multi_tenant env) (rq_tenant rq),
       tc_audit := \<lparr>cx_keys = me_keys env, cx_sha = me_sha env, cx_mac = me_mac env, cx_actor = actor, cx_endpoint = ''/mcp''\<rparr>\<rparr>))"

text \<open>A tool name that cannot be hashed raises outside the handler's \<open>try\<close>.\<close>

fun required_scope :: "json \<Rightarrow> string option" where
  "required_scope (JStr n) = Some (tool_scope n)"
| "required_scope (JArr xs) = None"
| "required_scope (JObj d) = None"
| "required_scope _ = Some WRITE"

definition call_tool :: "mcp_env \<Rightarrow> mcp_request \<Rightarrow> tool_ctx \<Rightarrow> string list \<Rightarrow> json \<Rightarrow> json option \<Rightarrow> mcp_world \<Rightarrow> mcp_reply \<times> mcp_world" where
  "call_tool env rq draw granted rpc_id params w = (case (case params of None \<Rightarrow> JObj [] | Some p \<Rightarrow> p) of
     JObj p \<Rightarrow> (let name = (case dget p ''name'' of None \<Rightarrow> JStr [] | Some v \<Rightarrow> v);
          arguments = (case dget p ''arguments'' of None \<Rightarrow> JObj [] | Some v \<Rightarrow> if jtruthy v then v else JObj [])
        in case required_scope name of
             None \<Rightarrow> (Crashed, w)
           | Some required \<Rightarrow> if required \<notin> set granted then (Refused 403, w)
               else (case tool_context env rq draw of
                  None \<Rightarrow> (Rpc_error 200 (-32603) rpc_id, w)
                | Some cx \<Rightarrow> (case dispatch_tool env cx name arguments w of
                     (Inl e, w') \<Rightarrow> (Rpc_error 200 (-32603) rpc_id, w')
                   | (Inr x, w') \<Rightarrow> (Rpc_result 200 (R_content x) rpc_id, w'))))
   | _ \<Rightarrow> (Crashed, w))"

definition mcp_endpoint :: "mcp_env \<Rightarrow> tool_ctx \<Rightarrow> mcp_request \<Rightarrow> mcp_world \<Rightarrow> mcp_reply \<times> mcp_world" where
  "mcp_endpoint env draw rq w = (case authenticate env rq w of
     (Inl (HttpError c), w1) \<Rightarrow> (Refused c, w1)
   | (Inl TypeErrorA, w1) \<Rightarrow> (Crashed, w1)
   | (Inr granted, w1) \<Rightarrow> (case rq_body rq of
        None \<Rightarrow> (Rpc_error 400 (-32700) JNull, w1)
      | Some (JObj body) \<Rightarrow>
         (let rpc_id = (case dget body ''id'' of None \<Rightarrow> JNull | Some v \<Rightarrow> v); meth = dget body ''method''
          in if dget body ''id'' = None then (Accepted_empty, w1)
             else if meth = Some (JStr ''initialize'') then (Rpc_result 200 R_initialize rpc_id, w1)
             else if meth = Some (JStr ''tools/list'') then (Rpc_result 200 (R_tools MCP_TOOLS) rpc_id, w1)
             else if meth = Some (JStr ''tools/call'') then call_tool env rq draw granted rpc_id (dget body ''params'') w1
             else (Rpc_error 400 (-32601) rpc_id, w1))
      | Some _ \<Rightarrow> (Crashed, w1)))"

end
