(* ===== verification/McpSafety.thy ===== *)
theory McpSafety
  imports McpServer BoardSafety GitOpsSafety
begin

text \<open>
  What the MCP endpoint guarantees: a caller without the write scope changes nothing that is stored,
  and write is granted by three credentials only.  The pipeline tools read the work items without a
  tenant, which one property records.
\<close>

section \<open>Read tools\<close>

definition leaves_world :: "mcp_m \<Rightarrow> bool" where
  "leaves_world m = (\<forall>w. snd (m w) = w)"

named_theorems read_only "handlers that leave the world as it is"

lemma leaves_world_basic [read_only]:
  "leaves_world (mcp_return p)" "leaves_world (mcp_fail e)" "leaves_world (mcp_get f)"
  by (simp_all add: leaves_world_def mcp_return_def mcp_fail_def mcp_get_def)

lemma leaves_world_given [read_only]: "(\<And>x. leaves_world (f x)) \<Longrightarrow> leaves_world (given r f)"
  by (cases r) (simp_all add: given_def read_only)

lemma leaves_world_with_card [read_only]: "(\<And>k. leaves_world (f k)) \<Longrightarrow> leaves_world (with_card env args f)"
  unfolding with_card_def by (rule leaves_world_given) (simp add: read_only split: option.split)

lemma leaves_world_views [read_only]: "leaves_world (board_read f mk)" "leaves_world (git_reading g mk')"
  by (simp_all add: board_read_def git_reading_def read_only)

lemma read_handlers [read_only]:
  "leaves_world tool_list_workitems" "leaves_world (tool_get_workitem env d)" "leaves_world (tool_get_timeline env d)"
  "leaves_world tool_get_rollups" "leaves_world (tool_get_anomalies cx)" "leaves_world (tool_list_cards env cx d)"
  "leaves_world (tool_card_sync_state env cx)" "leaves_world (tool_get_card env cx d)" "leaves_world (tool_card_comments env cx d)"
  "leaves_world (tool_get_git_config env cx)" "leaves_world tool_git_capabilities"
  "leaves_world (tool_list_git_connections env cx)" "leaves_world (tool_list_git_repositories cx d)"
  by (auto simp: tool_list_workitems_def tool_get_workitem_def tool_get_timeline_def tool_get_rollups_def tool_get_anomalies_def
    tool_list_cards_def tool_card_sync_state_def tool_get_card_def tool_card_comments_def tool_get_git_config_def
    tool_git_capabilities_def tool_list_git_connections_def tool_list_git_repositories_def Let_def
    intro!: read_only split: option.split)

definition READ_TOOLS :: "string list" where
  "READ_TOOLS = map fst (filter (\<lambda>p. snd p = READ) TOOL_SCOPES)"

lemma read_tools: "READ_TOOLS = [''cfactory_list_workitems'', ''cfactory_get_workitem'', ''cfactory_get_timeline'', ''cfactory_get_rollups'',
   ''cfactory_get_anomalies'', ''cfactory_list_cards'', ''cfactory_card_sync_state'', ''cfactory_get_card'', ''cfactory_card_comments'',
   ''cfactory_get_git_config'', ''cfactory_git_capabilities'', ''cfactory_list_git_connections'', ''cfactory_list_git_repositories'']"
  by (simp add: READ_TOOLS_def TOOL_SCOPES_def READ_def WRITE_def)

lemma scope_not_write: "tool_scope n \<noteq> WRITE \<Longrightarrow> n \<in> set READ_TOOLS"
proof -
  have w: "\<forall>p\<in>set TOOL_SCOPES. snd p = READ \<or> snd p = WRITE" by (simp add: TOOL_SCOPES_def)
  assume n: "tool_scope n \<noteq> WRITE"
  then obtain sc where "dget TOOL_SCOPES n = Some sc" "sc \<noteq> WRITE" by (auto simp: tool_scope_def split: option.splits)
  then have "(n, READ) \<in> set TOOL_SCOPES" using w by (force dest: dget_in)
  then show "n \<in> set READ_TOOLS" by (force simp: READ_TOOLS_def)
qed

lemma read_tools_leave_world:
  assumes "n \<in> set READ_TOOLS" and "dget TOOL_HANDLERS n = Some h"
  shows "leaves_world (h env cx d)"
proof -
  have "list_all (\<lambda>n. \<forall>h. dget TOOL_HANDLERS n = Some h \<longrightarrow> leaves_world (h env cx d)) READ_TOOLS"
    by (simp add: read_tools TOOL_HANDLERS_def read_only)
  with assms show ?thesis by (simp add: list_all_iff)
qed

lemma dispatch_read_tool:
  assumes "required_scope name \<noteq> Some WRITE" and "required_scope name \<noteq> None"
  shows "snd (dispatch_tool env cx name arguments w) = w"
proof -
  from assms obtain n where n: "name = JStr n" "tool_scope n \<noteq> WRITE" by (cases name) auto
  show ?thesis
  proof (cases "dget TOOL_HANDLERS n")
    case None
    then show ?thesis by (simp add: dispatch_tool_def n)
  next
    case (Some h)
    have l: "snd (h env cx d w) = w" for d
      using read_tools_leave_world [OF scope_not_write [OF n(2)] Some] by (simp add: leaves_world_def)
    obtain r w' where run: "(case arguments of JObj d \<Rightarrow> h env cx d w
             | _ \<Rightarrow> if n \<in> set IGNORES_ARGUMENTS then h env cx [] w else (Inl Uncaught, w)) = (r, w')" by (metis surj_pair)
    then have "w' = w" using l by (auto split: json.splits if_splits dest!: arg_cong [where f = snd])
    then show ?thesis using run by (simp add: dispatch_tool_def n Some split: sum.split tool_failure.split)
  qed
qed

section \<open>Who may write\<close>

text \<open>What the endpoint stores, all but the counters of legacy uses.\<close>

definition stored :: "mcp_world \<Rightarrow> wi_store \<times> card_store \<times> install_world \<times> audit_log" where
  "stored w = (mw_items w, mw_cards w, mw_inst w, mw_log w)"

definition may_write :: "mcp_env \<Rightarrow> mcp_request \<Rightarrow> bool" where
  "may_write env rq =
    (truthy (me_secret env) \<and> request_token rq = me_secret env \<and> legacy_allowed env
     \<or> (\<exists>scopes. configured (me_keys env) \<and> scopes_for (me_keys env) (request_token rq) = Inr (Some scopes) \<and> WRITE \<in> set scopes)
     \<or> \<not> truthy (me_secret env) \<and> \<not> configured (me_keys env) \<and> me_dev_open env)"

lemma authenticate_stored: "stored (snd (authenticate env rq w)) = stored w"
  by (auto simp: authenticate_def stored_def split: sum.split bool.split)

lemma scoped_key_write:
  "scoped_key env token = Inr scopes \<Longrightarrow> WRITE \<in> set scopes \<Longrightarrow>
     configured (me_keys env) \<and> scopes_for (me_keys env) token = Inr (Some scopes)
     \<or> \<not> truthy (me_secret env) \<and> \<not> configured (me_keys env) \<and> me_dev_open env"
  by (auto simp: scoped_key_def res_bind_Inr_iff split: option.splits if_splits)

lemma secret_matches_True: "secret_matches c e = Inr True \<Longrightarrow> c = e"
  by (auto simp: secret_matches_def split: if_splits)

lemma write_is_granted_to:
  assumes "authenticate env rq w = (Inr granted, w1)" and "WRITE \<in> set granted"
  shows "may_write env rq"
  using assms
  by (auto simp: authenticate_def may_write_def split: if_splits sum.splits bool.splits
    dest!: scoped_key_write secret_matches_True)

lemma call_without_write:
  assumes "WRITE \<notin> set granted"
  shows "snd (call_tool env rq draw granted rpc_id params w) = w"
proof (cases "case params of None \<Rightarrow> JObj [] | Some p \<Rightarrow> p")
  case (JObj p)
  let ?name = "case dget p ''name'' of None \<Rightarrow> JStr [] | Some v \<Rightarrow> v"
  let ?args = "case dget p ''arguments'' of None \<Rightarrow> JObj [] | Some v \<Rightarrow> if jtruthy v then v else JObj []"
  show ?thesis
  proof (cases "required_scope ?name")
    case None
    then show ?thesis by (simp add: call_tool_def JObj Let_def)
  next
    case (Some required)
    have "snd (dispatch_tool env cx ?name ?args w) = w" if "required \<in> set granted" for cx
      using that assms Some by (intro dispatch_read_tool) auto
    then show ?thesis
      unfolding call_tool_def JObj json.case Let_def Some option.case
      by (cases "tool_context env rq draw") (auto split: sum.split prod.split dest!: arg_cong [where f = snd])
  qed
qed (simp_all add: call_tool_def)

text \<open>C15: No caller without the right to write can change anything the server stores (work items, cards,
  git configuration, credentials, cached tokens or the audit chain), whatever the body of the request.
  The right to write is the legacy secret while it is still allowed, a configured key that carries the
  write scope, or the explicit development mode of a server where nothing is configured.\<close>

theorem only_writers_change_the_world:
  assumes "\<not> may_write env rq"
  shows "stored (snd (mcp_endpoint env draw rq w)) = stored w"
proof -
  obtain r w1 where a: "authenticate env rq w = (r, w1)" by (metis surj_pair)
  have s: "stored w1 = stored w" using authenticate_stored [of env rq w] by (simp add: a)
  show ?thesis
  proof (cases r)
    case (Inl e)
    then show ?thesis using s by (cases e) (simp_all add: mcp_endpoint_def a)
  next
    case (Inr granted)
    then have "WRITE \<notin> set granted" using write_is_granted_to a assms by blast
    note pure = call_without_write [OF this]
    show ?thesis using s Inr pure by (auto simp: mcp_endpoint_def a Let_def split: option.split json.split)
  qed
qed

definition ex_parsers :: arg_parsers where
  "ex_parsers = \<lparr>ap_card_create = \<lambda>_. Inl JNull, ap_card_update = \<lambda>_. Inl JNull, ap_config_update = \<lambda>_. Inl JNull,
     ap_connection_create = \<lambda>_. Inl JNull, ap_connection_update = \<lambda>_. Inl JNull, ap_repository_create = \<lambda>_. Inl JNull,
     ap_repository_update = \<lambda>_. Inl JNull, ap_bind = \<lambda>_. None, ap_str = \<lambda>_. []\<rparr>"

definition ex_mcp :: mcp_env where
  "ex_mcp = \<lparr>me_secret = Some ''legacy'', me_legacy_mode = ''deny'', me_dev_open = True, me_multi_tenant = False, me_keys = ex_keys,
     me_sha = \<lambda>s. s, me_mac = \<lambda>s. s, me_issuer = None, me_decode = \<lambda>_. None, me_board = ex_denv, me_git = ex_ops_env (Inr []),
     me_parse = ex_parsers\<rparr>"

definition ex_delete :: "string \<Rightarrow> mcp_request" where
  "ex_delete token = \<lparr>rq_authorization = Some (''Bearer '' @ token), rq_api_key = None, rq_id_token = None, rq_tenant = None,
     rq_body = Some (JObj [(''id'', JInt 1), (''method'', JStr ''tools/call''), (''params'', JObj [(''name'', JStr ''cfactory_delete_card''),
       (''arguments'', JObj [(''card_key'', JStr ''FCT-1'')])])])\<rparr>"

definition ex_mcp_world :: mcp_world where
  "ex_mcp_world = \<lparr>mw_items = ex_usage_store, mw_cards = ex_board low_card, mw_inst = ex_install_world,
     mw_log = bd_audit (ex_bd (ex_board low_card)), mw_legacy_allowed = 0, mw_legacy_denied = 0\<rparr>"

definition ex_ctx :: tool_ctx where
  "ex_ctx = \<lparr>tc_scope = None, tc_audit = ex_cx, tc_now = 0, tc_new_connection = 1, tc_new_repository = 1, tc_token = ''t''\<rparr>"

lemma ex_delete_tokens: "request_token (ex_delete ''k2'') = Some ''k2''" "request_token (ex_delete ''legacy'') = Some ''legacy''"
  by (simp_all add: request_token_def ex_delete_def extract_key_def before_char_def after_char_def eval_str)

lemma ex_mcp_scopes: "configured (me_keys ex_mcp)" "scopes_for (me_keys ex_mcp) (Some ''k2'') = Inr (Some [''read''])"
  "scopes_for (me_keys ex_mcp) (Some ''legacy'') = Inr None"
  by (simp_all add: ex_mcp_def ex_keys_def configured_def scopes_for_def parse_api_keys_def parse_entry_def parse_scopes_def
    before_char_def after_char_def secret_matches_def is_ascii_def eval_str)

lemma only_writers_witness:
  "stored (snd (mcp_endpoint ex_mcp ex_ctx (ex_delete ''k2'') ex_mcp_world)) = stored ex_mcp_world
   \<and> stored (snd (mcp_endpoint ex_mcp ex_ctx (ex_delete ''legacy'') ex_mcp_world)) = stored ex_mcp_world"
proof
  have "\<not> may_write ex_mcp (ex_delete ''k2'')"
    using ex_mcp_scopes by (auto simp: may_write_def ex_delete_tokens WRITE_def ex_mcp_def)
  then show "stored (snd (mcp_endpoint ex_mcp ex_ctx (ex_delete ''k2'') ex_mcp_world)) = stored ex_mcp_world"
    by (rule only_writers_change_the_world)
  have "\<not> may_write ex_mcp (ex_delete ''legacy'')"
    using ex_mcp_scopes by (auto simp: may_write_def ex_delete_tokens legacy_allowed_def ex_mcp_def eval_str)
  then show "stored (snd (mcp_endpoint ex_mcp ex_ctx (ex_delete ''legacy'') ex_mcp_world)) = stored ex_mcp_world"
    by (rule only_writers_change_the_world)
qed

text \<open>A message without an id is a notification: it is acknowledged and never executed.\<close>

lemma notifications_are_not_executed:
  assumes "rq_body rq = Some (JObj body)" and "dget body ''id'' = None"
  shows "stored (snd (mcp_endpoint env draw rq w)) = stored w"
  using assms authenticate_stored [of env rq w]
  by (auto simp: mcp_endpoint_def Let_def split: prod.splits sum.splits auth_error.splits)

section \<open>Every call stays in its tenant and is chained\<close>

text \<open>What a call may do to the world: nothing to the work items, to other tenants' cards or to other
  tenants' git tables, and only append entries in the caller's name to the audit chain.\<close>

definition call_ok :: "string option \<Rightarrow> audit_ctx \<Rightarrow> mcp_world \<Rightarrow> mcp_world \<Rightarrow> bool" where
  "call_ok scope cx w w' = (mw_items w' = mw_items w
     \<and> card_step_ok scope (mw_cards w) (mw_cards w')
     \<and> step_ok (tenant_of scope) (iw_db (mw_inst w)) (iw_db (mw_inst w'))
     \<and> (\<exists>new. al_rows (mw_log w') = al_rows (mw_log w) @ new
          \<and> (\<forall>e\<in>set new. redact_actor (cx_keys cx) (cx_sha cx) (cx_actor cx) = Inr (ae_actor e)))
     \<and> (hex_mac (cx_mac cx) \<and> inj_on (cx_mac cx) (log_messages (mw_log w')) \<and> log_sound cx (mw_log w) \<longrightarrow> log_sound cx (mw_log w')))"

definition stays_in_tenant :: "tool_ctx \<Rightarrow> mcp_m \<Rightarrow> bool" where
  "stays_in_tenant cx m = (\<forall>w. call_ok (tc_scope cx) (tc_audit cx) w (snd (m w)))"

named_theorems in_tenant "handlers that stay in the caller's tenant"

lemma call_ok_refl [simp]: "call_ok scope cx w w"
  by (simp add: call_ok_def card_step_refl)

lemma read_stays: "leaves_world m \<Longrightarrow> stays_in_tenant cx m"
  by (simp add: leaves_world_def stays_in_tenant_def)

lemma given_stays [in_tenant]: "(\<And>x. stays_in_tenant cx (f x)) \<Longrightarrow> stays_in_tenant cx (given r f)"
  by (cases r) (simp_all add: given_def read_stays read_only)

lemma with_card_stays [in_tenant]: "(\<And>k. stays_in_tenant cx (f k)) \<Longrightarrow> stays_in_tenant cx (with_card env args f)"
  unfolding with_card_def by (rule given_stays) (simp add: read_stays read_only split: option.split)

lemma on_board_stays:
  assumes "\<And>w. only_state (f w (board_of w)) = board_exec (e w) (tc_audit cx) (tc_scope cx) now op (board_of w)"
  shows "stays_in_tenant cx (on_board f mk)"
  unfolding stays_in_tenant_def
proof
  fix w
  obtain r b where run: "f w (board_of w) = (r, b)" by (metis surj_pair)
  have "snd (board_exec (e w) (tc_audit cx) (tc_scope cx) now op (board_of w)) = b"
    using assms [of w] run by (metis only_state_def snd_conv)
  then obtain new where "op_step (tc_audit cx) (tc_scope cx) (board_of w) b new"
    using board_exec_ends [of "tc_audit cx" "tc_scope cx" op "board_of w" "e w" now] by (auto simp: ends_well_def)
  then have "call_ok (tc_scope cx) (tc_audit cx) w (with_board b w)"
    by (auto simp: op_step_def chained_def board_of_def with_board_def call_ok_def step_ok_refl)
  then show "call_ok (tc_scope cx) (tc_audit cx) w (snd (on_board f mk w))"
    by (simp add: on_board_def run split: sum.split)
qed

lemma serve_stays: "stays cx t (git_serve env cx t now req)"
proof (cases "case req of Set_tenant_credential _ _ \<Rightarrow> False | Verify_config _ _ \<Rightarrow> False | Verify_connection _ _ _ \<Rightarrow> False | _ \<Rightarrow> True")
  case True
  then show ?thesis using audited_serve [OF True, of cx t env now] unfolding audited_def stays_def by blast
next
  case False
  then have "noted_if_ok cx t (git_serve env cx t now req)"
    by (cases req) (auto intro: verify_config_noted verify_connection_noted tenant_credential_noted)
  then show ?thesis unfolding noted_if_ok_def stays_def by blast
qed

lemma on_git_stays:
  assumes "quiet f = git_serve env (tc_audit cx) (ctx_tenant cx) now req"
  shows "stays_in_tenant cx (on_git f mk)"
  unfolding stays_in_tenant_def
proof
  fix w
  obtain r g where run: "f (git_of w) = (r, g)" by (metis surj_pair)
  have "git_serve env (tc_audit cx) (ctx_tenant cx) now req (git_of w) = (map_sum id (\<lambda>_. ()) r, g)"
    using assms run by (simp add: quiet_def flip: assms)
  then obtain new where "git_step (tc_audit cx) (ctx_tenant cx) (git_of w) g new" by (rule staysD [OF serve_stays])
  then have "call_ok (tc_scope cx) (tc_audit cx) w (with_git g w)"
    by (auto simp: git_step_def log_grows_def gdb_def git_of_def with_git_def call_ok_def card_step_refl ctx_tenant_def)
  then show "call_ok (tc_scope cx) (tc_audit cx) w (snd (on_git f mk w))"
    by (simp add: on_git_def run split: sum.split)
qed

lemma card_handlers [in_tenant]:
  "stays_in_tenant cx (tool_create_card env cx d)" "stays_in_tenant cx (tool_update_card env cx d)"
  "stays_in_tenant cx (tool_sync_card_github env cx d)" "stays_in_tenant cx (tool_import_cards env cx d)"
  "stays_in_tenant cx (tool_delete_card env cx d)" "stays_in_tenant cx (tool_stage_card stage env cx d)"
  unfolding tool_create_card_def tool_update_card_def tool_sync_card_github_def tool_import_cards_def tool_delete_card_def
    tool_stage_card_def
  by (auto intro!: in_tenant on_board_stays board_exec.simps [symmetric])

lemma git_handlers [in_tenant]:
  "stays_in_tenant cx (tool_set_git_config env cx d)" "stays_in_tenant cx (tool_verify_git_config env cx)"
  "stays_in_tenant cx (tool_set_git_credential env cx d)" "stays_in_tenant cx (tool_delete_git_credential env cx)"
  "stays_in_tenant cx (tool_create_git_connection env cx d)" "stays_in_tenant cx (tool_update_git_connection env cx d)"
  "stays_in_tenant cx (tool_delete_git_connection env cx d)" "stays_in_tenant cx (tool_verify_git_connection env cx d)"
  "stays_in_tenant cx (tool_set_git_connection_credential env cx d)" "stays_in_tenant cx (tool_delete_git_connection_credential env cx d)"
  "stays_in_tenant cx (tool_start_git_install env cx d)" "stays_in_tenant cx (tool_delete_git_install env cx d)"
  "stays_in_tenant cx (tool_create_git_repository env cx d)" "stays_in_tenant cx (tool_update_git_repository env cx d)"
  "stays_in_tenant cx (tool_delete_git_repository cx d)" "stays_in_tenant cx (tool_set_default_git_repository cx d)"
  unfolding tool_set_git_config_def tool_verify_git_config_def tool_set_git_credential_def tool_delete_git_credential_def
    tool_create_git_connection_def tool_update_git_connection_def tool_delete_git_connection_def tool_verify_git_connection_def
    tool_set_git_connection_credential_def tool_delete_git_connection_credential_def tool_start_git_install_def
    tool_delete_git_install_def tool_create_git_repository_def tool_update_git_repository_def tool_delete_git_repository_def
    tool_set_default_git_repository_def
  by (auto intro!: in_tenant on_git_stays [where env = "me_git _"] git_serve.simps [symmetric])

lemma every_handler_stays:
  assumes "dget TOOL_HANDLERS n = Some h"
  shows "stays_in_tenant cx (h env cx d)"
proof -
  have "list_all (\<lambda>p. stays_in_tenant cx (snd p env cx d)) TOOL_HANDLERS"
    by (simp add: TOOL_HANDLERS_def in_tenant read_handlers [THEN read_stays])
  with dget_in [OF assms] show ?thesis by (force simp: list_all_iff)
qed

lemma dispatch_stays: "call_ok (tc_scope cx) (tc_audit cx) w (snd (dispatch_tool env cx name arguments w))"
proof (cases "\<exists>n h. name = JStr n \<and> dget TOOL_HANDLERS n = Some h")
  case True
  then obtain n h where n: "name = JStr n" "dget TOOL_HANDLERS n = Some h" by blast
  have l: "call_ok (tc_scope cx) (tc_audit cx) w (snd (h env cx d w))" for d
    using every_handler_stays [OF n(2)] by (simp add: stays_in_tenant_def)
  obtain r w' where run: "(case arguments of JObj d \<Rightarrow> h env cx d w
             | _ \<Rightarrow> if n \<in> set IGNORES_ARGUMENTS then h env cx [] w else (Inl Uncaught, w)) = (r, w')" by (metis surj_pair)
  then have "call_ok (tc_scope cx) (tc_audit cx) w w'" using l
    by (auto split: json.splits if_splits dest!: arg_cong [where f = snd])
  then show ?thesis using run by (simp add: dispatch_tool_def n split: sum.split tool_failure.split)
next
  case False
  then show ?thesis by (auto simp: dispatch_tool_def split: json.split option.split)
qed

text \<open>The caller of a request: the tenant its stores are scoped to and the context its entries are written in.\<close>

definition caller_context :: "mcp_env \<Rightarrow> string \<Rightarrow> audit_ctx" where
  "caller_context env actor =
     \<lparr>cx_keys = me_keys env, cx_sha = me_sha env, cx_mac = me_mac env, cx_actor = actor, cx_endpoint = ''/mcp''\<rparr>"

definition caller :: "mcp_env \<Rightarrow> mcp_request \<Rightarrow> auth_error + string" where
  "caller env rq = identity_dep (me_keys env) (me_sha env) (me_decode env) (me_issuer env)
     (rq_authorization rq) (rq_api_key rq) (rq_id_token rq)"

lemma tool_context_caller:
  assumes "tool_context env rq draw = Some cx"
  shows "\<exists>actor. caller env rq = Inr actor \<and> tc_scope cx = request_scope (me_multi_tenant env) (rq_tenant rq)
    \<and> tc_audit cx = caller_context env actor"
proof (cases "caller env rq")
  case (Inl e)
  with assms show ?thesis by (simp add: tool_context_def flip: caller_def)
next
  case (Inr actor)
  with assms show ?thesis by (simp add: tool_context_def caller_context_def flip: caller_def) force
qed

lemma call_tool_stays:
  "(\<exists>actor. caller env rq = Inr actor
      \<and> call_ok (request_scope (me_multi_tenant env) (rq_tenant rq)) (caller_context env actor) w (snd (call_tool env rq draw granted i params w)))
   \<or> snd (call_tool env rq draw granted i params w) = w"
proof (cases "\<exists>p required cx. (case params of None \<Rightarrow> JObj [] | Some p \<Rightarrow> p) = JObj p
    \<and> required_scope (case dget p ''name'' of None \<Rightarrow> JStr [] | Some v \<Rightarrow> v) = Some required \<and> tool_context env rq draw = Some cx")
  case True
  then obtain p required cx where p: "(case params of None \<Rightarrow> JObj [] | Some p \<Rightarrow> p) = JObj p"
    "required_scope (case dget p ''name'' of None \<Rightarrow> JStr [] | Some v \<Rightarrow> v) = Some required" and cx: "tool_context env rq draw = Some cx"
    by blast
  let ?name = "case dget p ''name'' of None \<Rightarrow> JStr [] | Some v \<Rightarrow> v"
  let ?args = "case dget p ''arguments'' of None \<Rightarrow> JObj [] | Some v \<Rightarrow> if jtruthy v then v else JObj []"
  from cx obtain actor where actor: "caller env rq = Inr actor"
    and c: "tc_scope cx = request_scope (me_multi_tenant env) (rq_tenant rq)" "tc_audit cx = caller_context env actor"
    using tool_context_caller by blast
  obtain r w' where run: "dispatch_tool env cx ?name ?args w = (r, w')" by (rule prod.exhaust)
  have "call_ok (request_scope (me_multi_tenant env) (rq_tenant rq)) (caller_context env actor) w w'"
    using dispatch_stays [of cx w env ?name ?args] by (simp add: run c)
  moreover have "snd (call_tool env rq draw granted i params w) = w \<or> snd (call_tool env rq draw granted i params w) = w'"
    unfolding call_tool_def p json.case Let_def option.case cx run by (simp split: sum.split)
  ultimately show ?thesis using actor by auto
next
  case False
  then have "snd (call_tool env rq draw granted i params w) = w"
    by (auto simp: call_tool_def Let_def split: json.split option.split)
  then show ?thesis by blast
qed

lemma authenticate_only_counts:
  "authenticate env rq w = (r, w1) \<Longrightarrow> mw_items w1 = mw_items w \<and> mw_cards w1 = mw_cards w \<and> mw_inst w1 = mw_inst w \<and> mw_log w1 = mw_log w"
  using authenticate_stored [of env rq w] by (simp add: stored_def)

lemma endpoint_cases:
  assumes "authenticate env rq w = (r, w1)"
  shows "snd (mcp_endpoint env draw rq w) = w1
    \<or> (\<exists>granted i params. snd (mcp_endpoint env draw rq w) = snd (call_tool env rq draw granted i params w1))"
proof (cases r)
  case (Inl e)
  then show ?thesis by (cases e) (simp_all add: mcp_endpoint_def assms)
next
  case (Inr granted)
  show ?thesis
  proof (cases "rq_body rq")
    case None
    then show ?thesis by (simp add: mcp_endpoint_def assms Inr)
  next
    case (Some j)
    show ?thesis
    proof (cases j)
      case (JObj body)
      have "snd (mcp_endpoint env draw rq w) \<in> {w1, snd (call_tool env rq draw granted
          (case dget body ''id'' of None \<Rightarrow> JNull | Some v \<Rightarrow> v) (dget body ''params'') w1)}"
        by (simp add: mcp_endpoint_def assms Inr Some JObj Let_def)
      then show ?thesis by blast
    qed (simp_all add: mcp_endpoint_def assms Inr Some)
  qed
qed

text \<open>C16: One call of the MCP endpoint, for any of its tools and any request body, never changes the work
  items, changes cards and git tables of the tenant the request is scoped to and of no other, keeps the
  invariants of both, and only appends to the audit chain: every new entry carries the identity the
  request proved, and a chain that verified before still verifies.\<close>

theorem mcp_call_stays_in_tenant:
  "stored (snd (mcp_endpoint env draw rq w)) = stored w
   \<or> (\<exists>actor. caller env rq = Inr actor
      \<and> call_ok (request_scope (me_multi_tenant env) (rq_tenant rq)) (caller_context env actor) w (snd (mcp_endpoint env draw rq w)))"
proof -
  obtain r w1 where a: "authenticate env rq w = (r, w1)" by (metis surj_pair)
  have s: "stored w1 = stored w" using authenticate_stored [of env rq w] by (simp add: a)
  have same: "call_ok scope cx w1 w2 \<Longrightarrow> call_ok scope cx w w2" for scope cx w2
    using authenticate_only_counts [OF a] by (simp add: call_ok_def)
  consider "snd (mcp_endpoint env draw rq w) = w1"
    | granted i params where "snd (mcp_endpoint env draw rq w) = snd (call_tool env rq draw granted i params w1)"
    using endpoint_cases [OF a, of draw] by blast
  then show ?thesis
  proof cases
    case 1
    then show ?thesis using s by simp
  next
    case (2 granted i params)
    then show ?thesis using call_tool_stays [of env rq w1 draw granted i params] same s by auto
  qed
qed

section \<open>The pipeline tools\<close>

text \<open>A request that calls one tool, and the payload it is answered with.\<close>

definition tool_request :: "mcp_request \<Rightarrow> string \<Rightarrow> jobj \<Rightarrow> mcp_request" where
  "tool_request rq n args = rq\<lparr>rq_body := Some (JObj [(''id'', JInt 1), (''method'', JStr ''tools/call''),
     (''params'', JObj [(''name'', JStr n), (''arguments'', JObj args)])])\<rparr>"

definition tool_answer :: "mcp_env \<Rightarrow> tool_ctx \<Rightarrow> mcp_request \<Rightarrow> string \<Rightarrow> jobj \<Rightarrow> mcp_world \<Rightarrow> payload option" where
  "tool_answer env draw rq n args w = (case fst (mcp_endpoint env draw (tool_request rq n args) w) of
     Rpc_result c (R_content x) i \<Rightarrow> Some x | _ \<Rightarrow> None)"

lemma tool_request_token [simp]: "request_token (tool_request rq n args) = request_token rq"
  by (simp add: request_token_def tool_request_def)

lemma tool_request_fields [simp]:
  "rq_authorization (tool_request rq n args) = rq_authorization rq" "rq_api_key (tool_request rq n args) = rq_api_key rq"
  "rq_id_token (tool_request rq n args) = rq_id_token rq" "rq_tenant (tool_request rq n args) = rq_tenant rq"
  by (simp_all add: tool_request_def)

lemma tool_request_caller:
  "authenticate env (tool_request rq n args) w = authenticate env rq w"
  "tool_context env (tool_request rq n args) draw = tool_context env rq draw"
  unfolding authenticate_def tool_context_def tool_request_token tool_request_fields by (rule refl)+

lemma tool_answered:
  assumes "fst (authenticate env rq w) = Inr granted" "tool_scope n \<in> set granted" "tool_context env rq draw = Some cx"
    and h: "dget TOOL_HANDLERS n = Some h" "\<And>w'. mw_items w' = mw_items w \<Longrightarrow> h env cx args w' = (Inr x, w')"
  shows "tool_answer env draw rq n args w = Some x"
proof -
  obtain w1 where a: "authenticate env rq w = (Inr granted, w1)" using assms(1) by (cases "authenticate env rq w") auto
  have "mw_items w1 = mw_items w" using authenticate_stored [of env rq w] by (simp add: a stored_def)
  then have run: "h env cx args w1 = (Inr x, w1)" by (rule h(2))
  have "(if jtruthy (JObj args) then JObj args else JObj []) = JObj args" by simp
  then have "call_tool env (tool_request rq n args) draw granted (JInt 1) (Some (JObj [(''name'', JStr n), (''arguments'', JObj args)])) w1
      = (Rpc_result 200 (R_content x) (JInt 1), w1)"
    by (simp add: call_tool_def Let_def assms(2,3) tool_request_caller dispatch_tool_def h(1) run)
  then show ?thesis by (simp add: tool_answer_def mcp_endpoint_def tool_request_caller a) (simp add: tool_request_def Let_def)
qed

text \<open>What the model makes of a stored row: unique keys make \<open>get\<close> without a scope find every row, and
  with a scope no row of another tenant; the timeline queries end when the events are stamped, as the
  validator of an event stamps them.\<close>

definition stamped :: "wi_row \<Rightarrow> bool" where
  "stamped r = (\<forall>e\<in>set (wr_timeline r). \<exists>t. ce_updated_at e = Some (Aware t))"

lemma get_item_unscoped:
  assumes "ws_ok s" "r \<in> set (ws_rows s)"
  shows "get_item None s (wr_key r) = Some (to_model r)"
proof -
  have "get_row None s (wr_key r) \<noteq> None" using assms(2) by (auto simp: get_row_None visible_def in_scope_def)
  then obtain q where q: "get_row None s (wr_key r) = Some q" by blast
  then have "q \<in> set (ws_rows s)" "wr_key q = wr_key r" using get_row_Some by auto
  then have "q = r" using ws_ok_same_key [OF assms(1)] assms(2) by blast
  then show ?thesis using q by (simp add: get_item_def)
qed

lemma get_item_other_tenant:
  assumes "ws_ok s" "r \<in> set (ws_rows s)" "wr_tenant r \<noteq> t"
  shows "get_item (Some t) s (wr_key r) = None"
proof -
  have "q = r" if "q \<in> set (ws_rows s)" "wr_key q = wr_key r" for q using ws_ok_same_key [OF assms(1)] that assms(2) by blast
  then have "get_row (Some t) s (wr_key r) = None" using assms(3) by (auto simp: get_row_None visible_def in_scope_def)
  then show ?thesis by (simp add: get_item_def)
qed

lemma list_items_unscoped:
  "list_items None s = map to_model (sort_key (\<lambda>r. - wr_updated_at r) (ws_rows s))"
  by (simp add: list_items_def select_rows_def visible_def in_scope_def)

lemma sum_sorted: "sum_list (map f (sort_key k xs)) = (sum_list (map f xs) :: nat)"
  by (metis mset_map mset_sort sum_mset_sum_list)

lemma traverse_total: "(\<And>x. x \<in> set xs \<Longrightarrow> f x = Inr (g x)) \<Longrightarrow> traverse f xs = Inr (map g xs)"
  by (induction xs) auto

lemma traverse_ends: "(\<And>x. x \<in> set xs \<Longrightarrow> \<exists>y. f x = Inr y) \<Longrightarrow> \<exists>ys. traverse f xs = Inr ys"
proof (induction xs)
  case (Cons x xs)
  then obtain y ys where "f x = Inr y" "traverse f xs = Inr ys" by (metis list.set_intros)
  then show ?case by simp
qed simp

lemma stamped_span:
  assumes "stamped r" shows "\<exists>d. timeline_span (wr_timeline r) = Inr d"
proof (cases "length (wr_timeline r) < SPAN_MIN_EVENTS")
  case False
  then have n: "wr_timeline r \<noteq> []" by (auto simp: SPAN_MIN_EVENTS_def)
  then obtain a b where "ce_updated_at (hd (wr_timeline r)) = Some (Aware a)" "ce_updated_at (last (wr_timeline r)) = Some (Aware b)"
    using assms unfolding stamped_def by (meson hd_in_set last_in_set)
  then show ?thesis by (simp add: timeline_span_def stamp_def)
qed (simp add: timeline_span_def)

lemma timeline_unscoped:
  assumes "ws_ok s" "r \<in> set (ws_rows s)" "stamped r"
  shows "\<exists>tm. summarize_timeline None s (wr_key r) = Inr (Some tm) \<and> tm_key tm = wr_key r
    \<and> tm_event_count tm = length (wr_timeline r) \<and> map te_status (tm_events tm) = map ce_status (wr_timeline r)"
proof -
  obtain d where d: "timeline_span (wr_timeline r) = Inr d" using stamped_span [OF assms(3)] by blast
  let ?f = "\<lambda>e. res_bind (stamp e) (\<lambda>t. Inr \<lparr>te_service = ce_service e, te_status = ce_status e, te_phase = ce_phase e, te_updated_at = t\<rparr>)"
  let ?g = "\<lambda>e. \<lparr>te_service = ce_service e, te_status = ce_status e, te_phase = ce_phase e, te_updated_at = the (ce_updated_at e)\<rparr>"
  have "traverse ?f (wr_timeline r) = Inr (map ?g (wr_timeline r))"
    by (rule traverse_total) (use assms(3) in \<open>auto simp: stamped_def stamp_def dest!: bspec\<close>)
  then show ?thesis using get_item_unscoped [OF assms(1,2)] d
    by (simp add: summarize_timeline_def to_model_def comp_def)
qed

lemma rollups_unscoped:
  assumes "list_all stamped (ws_rows s)"
  shows "\<exists>b. rollups None s = Inr b \<and> br_total_work_items b = length (ws_rows s)
    \<and> br_total_events b = sum_list (map (\<lambda>r. length (wr_timeline r)) (ws_rows s))"
proof -
  have "\<exists>y. timeline_span (wi_timeline wi) = Inr y" if "wi \<in> set (list_items None s)" for wi
    using that assms stamped_span by (auto simp: list_items_unscoped list_all_iff to_model_def)
  then obtain ys where "traverse (\<lambda>wi. timeline_span (wi_timeline wi)) (list_items None s) = Inr ys"
    using traverse_ends [of "list_items None s" "\<lambda>wi. timeline_span (wi_timeline wi)"] by auto
  moreover have "length (list_items None s) = length (ws_rows s)" by (simp add: list_items_unscoped)
  moreover have "sum_list (map (\<lambda>wi. length (wi_timeline wi)) (list_items None s)) = sum_list (map (\<lambda>r. length (wr_timeline r)) (ws_rows s))"
    unfolding list_items_unscoped map_map using sum_sorted [of "\<lambda>r. length (wr_timeline r)"] by (simp add: comp_def to_model_def)
  ultimately show ?thesis by (simp add: rollups_def Let_def)
qed

lemma text_arg_key: "text_arg env [(k, JStr v)] k = Inr (Some v)"
  by (simp add: text_arg_def)

lemma pipeline_handlers:
  "dget TOOL_HANDLERS ''cfactory_list_workitems'' = Some (\<lambda>_ _ _. tool_list_workitems)"
  "dget TOOL_HANDLERS ''cfactory_get_workitem'' = Some (\<lambda>env _. tool_get_workitem env)"
  "dget TOOL_HANDLERS ''cfactory_get_timeline'' = Some (\<lambda>env _. tool_get_timeline env)"
  "dget TOOL_HANDLERS ''cfactory_get_rollups'' = Some (\<lambda>_ _ _. tool_get_rollups)"
  "dget TOOL_HANDLERS ''cfactory_get_anomalies'' = Some (\<lambda>_ cx _. tool_get_anomalies cx)"
  by (simp_all add: TOOL_HANDLERS_def)

lemma pipeline_scopes:
  "tool_scope ''cfactory_list_workitems'' = READ" "tool_scope ''cfactory_get_workitem'' = READ"
  "tool_scope ''cfactory_get_timeline'' = READ" "tool_scope ''cfactory_get_rollups'' = READ"
  "tool_scope ''cfactory_get_anomalies'' = READ"
  by (simp_all add: tool_scope_def TOOL_SCOPES_def)

text \<open>What each of the five handlers answers, on any world with the same work items.\<close>

lemma list_tool_answer:
  "tool_list_workitems w = (Inr (P_items xs), w') \<Longrightarrow> mset (map it_key xs) = mset (map wr_key (ws_rows (mw_items w)))"
  by (auto simp: tool_list_workitems_def mcp_get_def list_items_unscoped to_model_def comp_def multiset.map_comp)

lemma key_tools_answer:
  "get_item None (mw_items w) k = Some wi \<Longrightarrow> tool_get_workitem env [(''correlation_key'', JStr k)] w = (Inr (P_item wi), w)"
  "summarize_timeline None (mw_items w) k = Inr (Some tm) \<Longrightarrow> tool_get_timeline env [(''correlation_key'', JStr k)] w = (Inr (P_timeline tm), w)"
  by (simp_all add: tool_get_workitem_def tool_get_timeline_def text_arg_key given_def mcp_get_def)

lemma rollups_tool_answer: "rollups None (mw_items w) = Inr b \<Longrightarrow> tool_get_rollups w = (Inr (P_rollups b), w)"
  by (simp add: tool_get_rollups_def mcp_get_def)

lemma anomalies_unscoped:
  "set (detect_anomalies None s now n) = (\<Union>r\<in>set (ws_rows s). set (detect_for_item (to_model r) now n))"
  by (simp add: detect_anomalies_def list_items_unscoped)

text \<open>C40: The pipeline tools of the MCP server answer from every tenant.  A caller that is granted the read
  scope and is bound to a tenant t of a multi-tenant server, posting a \<open>tools/call\<close>, lists the work
  items of all tenants; reads the item and the timeline of every key, those of other tenants included,
  which the query scoped to t does not find; gets roll-ups that count the items and the events of all
  tenants; and gets the anomalies of all tenants.\<close>

theorem pipeline_tools_see_every_tenant:
  assumes caller: "fst (authenticate env rq w) = Inr granted" "READ \<in> set granted"
    and cx: "tool_context env rq draw = Some cx" "tc_scope cx = Some t"
    and store: "ws_ok (mw_items w)" "list_all stamped (ws_rows (mw_items w))"
  shows "(\<exists>xs. tool_answer env draw rq ''cfactory_list_workitems'' [] w = Some (P_items xs)
      \<and> mset (map it_key xs) = mset (map wr_key (ws_rows (mw_items w))))
    \<and> (\<forall>r\<in>set (ws_rows (mw_items w)).
        tool_answer env draw rq ''cfactory_get_workitem'' [(''correlation_key'', JStr (wr_key r))] w = Some (P_item (to_model r))
      \<and> (\<exists>tm. tool_answer env draw rq ''cfactory_get_timeline'' [(''correlation_key'', JStr (wr_key r))] w = Some (P_timeline tm)
          \<and> tm_key tm = wr_key r \<and> tm_event_count tm = length (wr_timeline r)
          \<and> map te_status (tm_events tm) = map ce_status (wr_timeline r))
      \<and> (wr_tenant r \<noteq> t \<longrightarrow> get_item (tc_scope cx) (mw_items w) (wr_key r) = None))
    \<and> (\<exists>b. tool_answer env draw rq ''cfactory_get_rollups'' [] w = Some (P_rollups b)
        \<and> br_total_work_items b = length (ws_rows (mw_items w))
        \<and> br_total_events b = sum_list (map (\<lambda>r. length (wr_timeline r)) (ws_rows (mw_items w))))
    \<and> (\<exists>as. tool_answer env draw rq ''cfactory_get_anomalies'' [] w = Some (P_anomalies as)
        \<and> set as = (\<Union>r\<in>set (ws_rows (mw_items w)). set (detect_for_item (to_model r) (tc_now cx) DEFAULT_STALE_SECONDS)))"
proof (intro conjI ballI impI)
  note answer = tool_answered [OF caller(1) _ cx(1)]
  let ?xs = "map (\<lambda>wi. \<lparr>it_key = wi_key wi, it_title = wi_title wi, it_pfactory = summary_of (wi_pfactory wi),
     it_aifactory = summary_of (wi_aifactory wi), it_tfactory = summary_of (wi_tfactory wi),
     it_events = length (wi_timeline wi)\<rparr>) (list_items None (mw_items w))"
  have l: "tool_list_workitems w' = (Inr (P_items ?xs), w')" if "mw_items w' = mw_items w" for w'
    using that by (simp add: tool_list_workitems_def mcp_get_def)
  have "tool_answer env draw rq ''cfactory_list_workitems'' [] w = Some (P_items ?xs)"
    by (rule answer [OF _ pipeline_handlers(1)]) (simp_all add: pipeline_scopes caller(2) l)
  then show "\<exists>xs. tool_answer env draw rq ''cfactory_list_workitems'' [] w = Some (P_items xs)
      \<and> mset (map it_key xs) = mset (map wr_key (ws_rows (mw_items w)))" using list_tool_answer [OF l] by blast
  obtain b where b: "rollups None (mw_items w) = Inr b" "br_total_work_items b = length (ws_rows (mw_items w))"
    "br_total_events b = sum_list (map (\<lambda>r. length (wr_timeline r)) (ws_rows (mw_items w)))"
    using rollups_unscoped [OF store(2)] by blast
  have "tool_answer env draw rq ''cfactory_get_rollups'' [] w = Some (P_rollups b)"
    by (rule answer [OF _ pipeline_handlers(4)]) (simp_all add: pipeline_scopes caller(2) rollups_tool_answer b(1))
  then show "\<exists>b. tool_answer env draw rq ''cfactory_get_rollups'' [] w = Some (P_rollups b)
        \<and> br_total_work_items b = length (ws_rows (mw_items w))
        \<and> br_total_events b = sum_list (map (\<lambda>r. length (wr_timeline r)) (ws_rows (mw_items w)))" using b(2,3) by blast
  have "tool_answer env draw rq ''cfactory_get_anomalies'' [] w
      = Some (P_anomalies (detect_anomalies None (mw_items w) (tc_now cx) DEFAULT_STALE_SECONDS))"
    by (rule answer [OF _ pipeline_handlers(5)]) (simp_all add: pipeline_scopes caller(2) tool_get_anomalies_def mcp_get_def)
  then show "\<exists>as. tool_answer env draw rq ''cfactory_get_anomalies'' [] w = Some (P_anomalies as)
        \<and> set as = (\<Union>r\<in>set (ws_rows (mw_items w)). set (detect_for_item (to_model r) (tc_now cx) DEFAULT_STALE_SECONDS))"
    using anomalies_unscoped by blast
  fix r assume r: "r \<in> set (ws_rows (mw_items w))"
  show "tool_answer env draw rq ''cfactory_get_workitem'' [(''correlation_key'', JStr (wr_key r))] w = Some (P_item (to_model r))"
    by (rule answer [OF _ pipeline_handlers(2)])
      (simp_all add: pipeline_scopes caller(2) key_tools_answer get_item_unscoped [OF store(1) r])
  have "stamped r" using store(2) r by (simp add: list_all_iff)
  then obtain tm where tm: "summarize_timeline None (mw_items w) (wr_key r) = Inr (Some tm)" "tm_key tm = wr_key r"
    "tm_event_count tm = length (wr_timeline r)" "map te_status (tm_events tm) = map ce_status (wr_timeline r)"
    using timeline_unscoped [OF store(1) r] by blast
  have "tool_answer env draw rq ''cfactory_get_timeline'' [(''correlation_key'', JStr (wr_key r))] w = Some (P_timeline tm)"
    by (rule answer [OF _ pipeline_handlers(3)]) (simp_all add: pipeline_scopes caller(2) key_tools_answer tm(1))
  then show "\<exists>tm. tool_answer env draw rq ''cfactory_get_timeline'' [(''correlation_key'', JStr (wr_key r))] w = Some (P_timeline tm)
          \<and> tm_key tm = wr_key r \<and> tm_event_count tm = length (wr_timeline r)
          \<and> map te_status (tm_events tm) = map ce_status (wr_timeline r)" using tm(2-4) by blast
  show "get_item (tc_scope cx) (mw_items w) (wr_key r) = None" if "wr_tenant r \<noteq> t"
    using get_item_other_tenant [OF store(1) r that] by (simp add: cx(2))
qed

text \<open>A caller of the tenant acme, with a key that may read, and a board whose one item belongs to the default
  tenant.\<close>

definition ex_shared :: mcp_env where
  "ex_shared = ex_mcp\<lparr>me_multi_tenant := True\<rparr>"

definition ex_reader :: mcp_request where
  "ex_reader = (ex_delete ''k2'')\<lparr>rq_tenant := Some ''acme''\<rparr>"

lemma ex_reader_token: "request_token ex_reader = Some ''k2''"
  using ex_delete_tokens(1) by (simp add: ex_reader_def request_token_def)

lemma ex_reader_granted: "fst (authenticate ex_shared ex_reader ex_mcp_world) = Inr [''read'']"
proof -
  have k: "configured ex_keys" "scopes_for ex_keys (Some ''k2'') = Inr (Some [''read''])" using ex_mcp_scopes by (simp_all add: ex_mcp_def)
  have "me_secret ex_shared = Some ''legacy''" "me_keys ex_shared = ex_keys" by (simp_all add: ex_shared_def ex_mcp_def)
  then show ?thesis by (simp add: authenticate_def ex_reader_token scoped_key_def k secret_matches_def is_ascii_def eval_str)
qed

lemma ex_reader_context: "\<exists>cx. tool_context ex_shared ex_reader ex_ctx = Some cx \<and> tc_scope cx = Some ''acme''"
proof -
  have "\<exists>actor. identity_dep ex_keys (\<lambda>s. s) (\<lambda>_. None) None (rq_authorization ex_reader) (rq_api_key ex_reader) (rq_id_token ex_reader) = Inr actor"
    using ex_reader_token ex_mcp_scopes
    by (simp add: identity_dep_def oidc_actor_def request_token_def ex_mcp_def)
  then show ?thesis
    by (auto simp: tool_context_def ex_shared_def ex_mcp_def request_scope_def resolve_tenant_def ex_reader_def eval_str Let_def)
qed

lemma ex_usage_rows: "ws_ok ex_usage_store" "list_all stamped (ws_rows ex_usage_store)"
  by (simp_all add: ex_usage_store_def ex_usage_row_def ws_ok_def keys_unique_def row_ok_def stamped_def slice_ok_def empty_state_def)

lemma pipeline_tools_see_every_tenant_witness:
  "tool_answer ex_shared ex_ctx ex_reader ''cfactory_get_workitem'' [(''correlation_key'', JStr (wr_key ex_usage_row))] ex_mcp_world
     = Some (P_item (to_model ex_usage_row))
   \<and> get_item (Some ''acme'') (mw_items ex_mcp_world) (wr_key ex_usage_row) = None"
proof -
  obtain cx where cx: "tool_context ex_shared ex_reader ex_ctx = Some cx" "tc_scope cx = Some ''acme''"
    using ex_reader_context by blast
  have items: "mw_items ex_mcp_world = ex_usage_store" by (simp add: ex_mcp_world_def)
  have "READ \<in> set [''read'']" by (simp add: READ_def)
  note all = pipeline_tools_see_every_tenant [OF ex_reader_granted this cx, unfolded items, OF ex_usage_rows]
  have "ex_usage_row \<in> set (ws_rows ex_usage_store)" "wr_tenant ex_usage_row \<noteq> ''acme''"
    by (simp_all add: ex_usage_store_def ex_usage_row_def DEFAULT_TENANT_def)
  with all show ?thesis unfolding items cx(2) by blast
qed

end
