(* ===== verification/TaskProcess.thy ===== *)
theory TaskProcess
  imports CopilotTokens
begin

text \<open>
  \<open>task_process.py\<close>, the live process of one work item, with the detail requests of
  \<open>adapters/tfactory.py\<close>, \<open>aifactory.py\<close> and \<open>pfactory.py\<close>: the subtask graph of the code stage, the plan
  graph lit from the downstream work items, the lane graph of the test stage, the readable artifacts
  and traceability rows, and \<open>build_process_detail\<close>, which puts the stages that answered together and
  names those that did not.  \<open>client n path\<close> is the answer of a service to the \<open>n\<close>-th request of the
  view.  The label of a lane keeps its numbers and leaves its wording out, \<open>isoformat\<close> of a time is the
  time.
\<close>

text \<open>What a view can raise: what an adapter raises, or a Python error on the JSON it was given.\<close>

datatype process_exc = Upstream adapter_exc | Raised insight_error

section \<open>Graphs\<close>

datatype node_label = Text string | Lane_done string nat nat | Lane_not_run string nat
datatype node_time = Given json | Iso pydatetime

record graph_node =
  gn_id :: string
  gn_label :: node_label
  gn_kind :: json
  gn_status :: json
  gn_started :: node_time
  gn_completed :: node_time
  gn_deps :: "string list"

record graph =
  gh_stage :: stage
  gh_nodes :: "graph_node list"

text \<open>\<open>d.get(k)\<close>, \<open>a or b\<close>, and \<open>[str(x) for x in deps] if isinstance(deps, list) else []\<close>.\<close>

definition jget :: "jobj \<Rightarrow> string \<Rightarrow> json" where
  "jget d k = (case dget d k of None \<Rightarrow> JNull | Some v \<Rightarrow> v)"

definition jor :: "json \<Rightarrow> json \<Rightarrow> json" where
  "jor a b = (if jtruthy a then a else b)"

definition dep_ids :: "(json \<Rightarrow> string) \<Rightarrow> json \<Rightarrow> string list" where
  "dep_ids repr j = (case j of JArr xs \<Rightarrow> map (Adapters.json_str repr) xs | _ \<Rightarrow> [])"

definition graph_of :: "stage \<Rightarrow> graph_node list \<Rightarrow> graph option" where
  "graph_of st nodes = (if nodes = [] then None else Some \<lparr>gh_stage = st, gh_nodes = nodes\<rparr>)"

subsection \<open>The code stage\<close>

definition code_node :: "(json \<Rightarrow> string) \<Rightarrow> nat \<Rightarrow> jobj \<Rightarrow> graph_node" where
  "code_node repr i s =
     \<lparr>gn_id = Adapters.json_str repr (jor (jget s ''id'') (JInt (int i))),
      gn_label = Text (take 80 (Adapters.json_str repr
        (jor (jget s ''title'') (jor (jget s ''description'') (JStr (''subtask '' @ str_of_int (int i + 1))))))),
      gn_kind = jget s ''service'', gn_status = jget s ''status'', gn_started = Given (jget s ''started_at''),
      gn_completed = Given (jget s ''completed_at''), gn_deps = dep_ids repr (jget s ''depends_on'')\<rparr>"

fun code_nodes :: "(json \<Rightarrow> string) \<Rightarrow> nat \<Rightarrow> json list \<Rightarrow> graph_node list" where
  "code_nodes repr i [] = []"
| "code_nodes repr i (j # js) = (case j of JObj s \<Rightarrow> [code_node repr i s] | _ \<Rightarrow> []) @ code_nodes repr (i + 1) js"

definition build_code_graph :: "(json \<Rightarrow> string) \<Rightarrow> json list \<Rightarrow> graph option" where
  "build_code_graph repr raw_subs = graph_of CODE (code_nodes repr 0 raw_subs)"

subsection \<open>The plan stage\<close>

definition FAIL_WORDS :: "string list" where
  "FAIL_WORDS = [''fail'', ''reject'', ''error'', ''abort'', ''cancel'', ''block'', ''discard'']"

definition ACTIVE_WORDS :: "string list" where
  "ACTIVE_WORDS = [''progress'', ''running'', ''review'', ''triag'', ''generat'', ''coding'', ''planning'', ''executing'',
     ''await'', ''building'', ''queued'', ''backlog'']"

definition DONE_WORDS :: "string list" where
  "DONE_WORDS = [''done'', ''complete'', ''passed'', ''merged'', ''approved'', ''emitted'', ''success'', ''closed'', ''shipped'']"

definition has_word :: "string list \<Rightarrow> string \<Rightarrow> bool" where
  "has_word ws s = list_ex (contains_str s) ws"

definition child_statuses :: "work_item \<Rightarrow> string list" where
  "child_statuses wi = map (\<lambda>st. lower (the st)) (filter truthy (map (\<lambda>s. ss_status (wi_stage s wi)) PIPELINE_ORDER))"

definition child_status :: "string list \<Rightarrow> string option" where
  "child_status statuses =
    (if list_ex (has_word FAIL_WORDS) statuses then Some ''failed''
     else if list_ex (\<lambda>s. is_dead_stage (Some s)) statuses then Some ''stalled''
     else if list_ex (has_word DONE_WORDS) statuses then Some ''completed''
     else if list_ex (has_word ACTIVE_WORDS) statuses then Some ''in_progress''
     else if statuses \<noteq> [] then Some ''in_progress'' else None)"

text \<open>\<open>sorted\<close> of datetimes raises when naive and aware ones meet.\<close>

fun is_naive :: "pydatetime \<Rightarrow> bool" where
  "is_naive (Naive t) = True"
| "is_naive (Aware t) = False"

definition sort_datetimes :: "pydatetime list \<Rightarrow> process_exc + pydatetime list" where
  "sort_datetimes ts = (if list_ex is_naive ts \<and> list_ex (\<lambda>t. \<not> is_naive t) ts then Inl (Raised Type_error)
     else Inr (sort_key wall ts))"

definition plan_child_state :: "work_item \<Rightarrow> process_exc + string option \<times> node_time \<times> node_time" where
  "plan_child_state wi = (let status = child_status (child_statuses wi)
     in res_bind (sort_datetimes (concat (map (\<lambda>e. case ce_updated_at e of None \<Rightarrow> [] | Some t \<Rightarrow> [t]) (wi_timeline wi)))) (\<lambda>times.
       Inr (status,
         if times = [] then Given JNull else Iso (hd times),
         if times \<noteq> [] \<and> status \<in> {Some ''completed'', Some ''failed''} then Iso (last times) else Given JNull)))"

definition plan_stage_done :: "(json \<Rightarrow> string) \<Rightarrow> jobj \<Rightarrow> bool" where
  "plan_stage_done repr session =
    (let raw = lower (Adapters.json_str repr (jor (jget session ''board_state'') (jor (jget session ''status'') (JStr []))))
     in if raw = [] \<or> has_word FAIL_WORDS raw then False else has_word DONE_WORDS raw)"

text \<open>The child's own work item, when the plan emitted an issue for it and the store knows the issue.\<close>

definition child_state ::
  "(json \<Rightarrow> string) \<Rightarrow> string option \<Rightarrow> wi_store \<Rightarrow> jobj \<Rightarrow> string \<Rightarrow> process_exc + string option \<times> node_time \<times> node_time" where
  "child_state repr scope store child_numbers key = (let issue = jget child_numbers key
     in if issue = JNull then Inr (None, Given JNull, Given JNull)
        else (case get_item scope store (Adapters.json_str repr issue) of
            None \<Rightarrow> Inr (None, Given JNull, Given JNull) | Some wi \<Rightarrow> plan_child_state wi))"

definition plan_node ::
  "(json \<Rightarrow> string) \<Rightarrow> string option \<Rightarrow> wi_store \<Rightarrow> jobj \<Rightarrow> bool \<Rightarrow> nat \<Rightarrow> jobj \<Rightarrow> process_exc + graph_node" where
  "plan_node repr scope store child_numbers plan_done i c =
    (let key = Adapters.json_str repr (jor (jget c ''key'') (JInt (int i)))
     in res_bind (child_state repr scope store child_numbers key) (\<lambda>(status, started, completed).
       Inr \<lparr>gn_id = key, gn_label = Text (take 80 (Adapters.json_str repr (jor (jget c ''title'') (JStr key)))),
         gn_kind = jget c ''kind'',
         gn_status = jopt_str (if status = None \<and> plan_done then Some ''completed'' else status),
         gn_started = started, gn_completed = completed, gn_deps = dep_ids repr (jget c ''depends_on'')\<rparr>))"

fun plan_nodes ::
  "(json \<Rightarrow> string) \<Rightarrow> string option \<Rightarrow> wi_store \<Rightarrow> jobj \<Rightarrow> bool \<Rightarrow> nat \<Rightarrow> json list \<Rightarrow> process_exc + graph_node list" where
  "plan_nodes repr scope store nums fin i [] = Inr []"
| "plan_nodes repr scope store nums fin i (JObj c # js) = res_bind (plan_node repr scope store nums fin i c) (\<lambda>n.
     res_bind (plan_nodes repr scope store nums fin (i + 1) js) (\<lambda>ns. Inr (n # ns)))"
| "plan_nodes repr scope store nums fin i (j # js) = plan_nodes repr scope store nums fin (i + 1) js"

text \<open>\<open>session.get(k) if isinstance(session.get(k), dict) else {}\<close>, and the same for a list.\<close>

definition obj_field :: "jobj \<Rightarrow> string \<Rightarrow> jobj" where
  "obj_field d k = (case dget d k of Some (JObj x) \<Rightarrow> x | _ \<Rightarrow> [])"

definition arr_field :: "jobj \<Rightarrow> string \<Rightarrow> json list" where
  "arr_field d k = (case dget d k of Some (JArr xs) \<Rightarrow> xs | _ \<Rightarrow> [])"

definition build_plan_graph :: "(json \<Rightarrow> string) \<Rightarrow> string option \<Rightarrow> wi_store \<Rightarrow> jobj \<Rightarrow> process_exc + graph option" where
  "build_plan_graph repr scope store session =
     res_bind (plan_nodes repr scope store (obj_field (obj_field session ''emit_result'') ''child_numbers'')
         (plan_stage_done repr session) 0 (arr_field (obj_field session ''epic'') ''children''))
       (\<lambda>nodes. Inr (graph_of PLAN nodes))"

subsection \<open>The test stage\<close>

text \<open>Python's equality and order of JSON values: numbers with numbers, strings with strings, lists element
  by element; any other pair has no order.\<close>

fun json_eq :: "json \<Rightarrow> json \<Rightarrow> bool"
  and jsons_eq :: "json list \<Rightarrow> json list \<Rightarrow> bool"
  and obj_within :: "jobj \<Rightarrow> jobj \<Rightarrow> bool" where
  "json_eq (JArr xs) y = (case y of JArr ys \<Rightarrow> jsons_eq xs ys | _ \<Rightarrow> False)"
| "json_eq (JObj d) y = (case y of JObj e \<Rightarrow> length d = length e \<and> obj_within d e | _ \<Rightarrow> False)"
| "json_eq x y = (x = y \<or> (json_number x \<noteq> None \<and> json_number x = json_number y))"
| "jsons_eq [] ys = (ys = [])"
| "jsons_eq (x # xs) ys = (case ys of [] \<Rightarrow> False | y # ys' \<Rightarrow> json_eq x y \<and> jsons_eq xs ys')"
| "obj_within [] e = True"
| "obj_within ((k, v) # d) e = ((case dget e k of None \<Rightarrow> False | Some w \<Rightarrow> json_eq v w) \<and> obj_within d e)"

fun json_less :: "json \<Rightarrow> json \<Rightarrow> bool option"
  and jsons_less :: "json list \<Rightarrow> json list \<Rightarrow> bool option" where
  "json_less (JArr xs) y = (case y of JArr ys \<Rightarrow> jsons_less xs ys | _ \<Rightarrow> None)"
| "json_less (JStr s) y = (case y of JStr t \<Rightarrow> Some (s < t) | _ \<Rightarrow> None)"
| "json_less x y = (case (json_number x, json_number y) of (Some p, Some q) \<Rightarrow> Some (p < q) | _ \<Rightarrow> None)"
| "jsons_less [] ys = Some (ys \<noteq> [])"
| "jsons_less (x # xs) ys = (case ys of [] \<Rightarrow> Some False
     | y # ys' \<Rightarrow> if json_eq x y then jsons_less xs ys' else json_less x y)"

text \<open>\<open>min\<close> and \<open>max\<close> of a non-empty list.\<close>

fun best_json :: "(json \<Rightarrow> json \<Rightarrow> bool option) \<Rightarrow> json \<Rightarrow> json list \<Rightarrow> process_exc + json" where
  "best_json better b [] = Inr b"
| "best_json better b (x # xs) = (case better x b of None \<Rightarrow> Inl (Raised Type_error)
     | Some t \<Rightarrow> best_json better (if t then x else b) xs)"

definition best_time :: "(json \<Rightarrow> json \<Rightarrow> bool option) \<Rightarrow> json list \<Rightarrow> process_exc + node_time" where
  "best_time better xs = (case xs of [] \<Rightarrow> Inr (Given JNull) | y # ys \<Rightarrow> res_bind (best_json better y ys) (\<lambda>j. Inr (Given j)))"

definition status_text :: "(json \<Rightarrow> string) \<Rightarrow> json \<Rightarrow> string" where
  "status_text repr j = lower (Adapters.json_str repr (jor j (JStr [])))"

definition LANE_FAILED :: "string list" where "LANE_FAILED = [''fail'', ''error'']"
definition LANE_STALLED :: "string list" where "LANE_STALLED = [''stuck'', ''stall'', ''block'']"
definition LANE_ACTIVE :: "string list" where "LANE_ACTIVE = [''progress'', ''running'']"
definition LANE_DONE :: "string list" where "LANE_DONE = [''complet'', ''passed'']"

definition lane_status :: "(json \<Rightarrow> string) \<Rightarrow> json list \<Rightarrow> string option" where
  "lane_status repr statuses = (let s = map (status_text repr) statuses
     in if list_ex (has_word LANE_FAILED) s then Some ''failed''
        else if list_ex (has_word LANE_STALLED) s then Some ''stalled''
        else if list_ex (has_word LANE_ACTIVE) s then Some ''active''
        else if s \<noteq> [] \<and> list_all (has_word LANE_DONE) s then Some ''completed'' else None)"

definition lane_node ::
  "(json \<Rightarrow> string) \<Rightarrow> string \<Rightarrow> jobj list \<Rightarrow> string option \<Rightarrow> string list \<Rightarrow> process_exc + graph_node" where
  "lane_node repr lane members executed deps =
    (let rolled = lane_status repr (map (\<lambda>m. jget m ''status'') members);
         done_count = length (filter (\<lambda>m. contains_str (status_text repr (jget m ''status'')) ''complet'') members);
         ran = (executed = None \<or> executed = Some ''executed'');
         status = (if ran then rolled else if executed = Some ''error'' then Some ''failed'' else None);
         starts = filter jtruthy (map (\<lambda>m. jget m ''started_at'') members);
         completes = filter jtruthy (map (\<lambda>m. jget m ''completed_at'') members)
     in res_bind (best_time json_less starts) (\<lambda>started.
        res_bind (if status = Some ''completed'' then best_time (\<lambda>x b. json_less b x) completes else Inr (Given JNull)) (\<lambda>finished.
          Inr \<lparr>gn_id = lane, gn_label = (if ran then Lane_done lane done_count (length members) else Lane_not_run lane (length members)),
            gn_kind = JStr lane, gn_status = jopt_str status, gn_started = started, gn_completed = finished, gn_deps = deps\<rparr>)))"

definition LANE_SPINE :: "string list" where
  "LANE_SPINE = [''unit'', ''browser'', ''api'', ''integration'', ''mutation'']"

definition lane_of :: "(json \<Rightarrow> string) \<Rightarrow> jobj \<Rightarrow> string" where
  "lane_of repr s = lower (Adapters.json_str repr (jor (jget s ''lane'') (JStr ''unit'')))"

fun group_lanes :: "(json \<Rightarrow> string) \<Rightarrow> jobj list \<Rightarrow> (string, jobj list) dict \<Rightarrow> (string, jobj list) dict" where
  "group_lanes repr [] lanes = lanes"
| "group_lanes repr (s # ss) lanes = group_lanes repr ss
     (dset (lane_of repr s) ((case dget lanes (lane_of repr s) of None \<Rightarrow> [] | Some ms \<Rightarrow> ms) @ [s]) lanes)"

definition lane_order :: "(string, jobj list) dict \<Rightarrow> string list" where
  "lane_order lanes = filter (\<lambda>ln. ln \<in> set (dkeys lanes)) LANE_SPINE @ filter (\<lambda>ln. ln \<notin> set LANE_SPINE) (dkeys lanes)"

text \<open>\<open>str(executed) if executed else None\<close> for the lane's entry of the run's progress.\<close>

definition executed_of :: "(json \<Rightarrow> string) \<Rightarrow> jobj \<Rightarrow> string \<Rightarrow> string option" where
  "executed_of repr progress lane = (if jtruthy (jget progress lane) then Some (Adapters.json_str repr (jget progress lane)) else None)"

fun lane_nodes ::
  "(json \<Rightarrow> string) \<Rightarrow> (string, jobj list) dict \<Rightarrow> jobj \<Rightarrow> string option \<Rightarrow> string list \<Rightarrow> process_exc + graph_node list" where
  "lane_nodes repr lanes progress prev [] = Inr []"
| "lane_nodes repr lanes progress prev (l # ls) =
     res_bind (lane_node repr l (case dget lanes l of None \<Rightarrow> [] | Some ms \<Rightarrow> ms) (executed_of repr progress l)
         (if truthy prev then [the prev] else [])) (\<lambda>n.
     res_bind (lane_nodes repr lanes progress (Some l) ls) (\<lambda>ns. Inr (n # ns)))"

definition build_test_graph :: "(json \<Rightarrow> string) \<Rightarrow> json list \<Rightarrow> json \<Rightarrow> process_exc + graph option" where
  "build_test_graph repr raw_subs lane_progress =
    (let lanes = group_lanes repr (only_objects raw_subs) [];
         progress = (case lane_progress of JObj d \<Rightarrow> d | _ \<Rightarrow> [])
     in if lanes = [] then Inr None
        else res_bind (lane_nodes repr lanes progress None (lane_order lanes)) (\<lambda>nodes. Inr (Some \<lparr>gh_stage = TEST, gh_nodes = nodes\<rparr>)))"

section \<open>Artifacts and traceability\<close>

definition ALIASES :: "(string \<times> string list) list" where
  "ALIASES = [(''spec'', [''spec_md'', ''specMd'', ''spec_markdown'']), (''plan'', [''plan_md'', ''planMd'', ''plan_markdown'']),
     (''tasks'', [''tasks_md'', ''tasksMd'', ''tasks_markdown''])]"

fun readable :: "json \<Rightarrow> string option" where
  "readable (JStr s) = (if strip s \<noteq> [] then Some s else None)"
| "readable _ = None"

fun first_readable :: "json list \<Rightarrow> string option" where
  "first_readable [] = None"
| "first_readable (j # js) = (case readable j of Some s \<Rightarrow> Some s | None \<Rightarrow> first_readable js)"

fun add_artifacts :: "jobj \<Rightarrow> (string \<times> string list) list \<Rightarrow> (string, string) dict \<Rightarrow> (string, string) dict" where
  "add_artifacts src [] acc = acc"
| "add_artifacts src ((key, ks) # as) acc = add_artifacts src as
     (if dget acc key \<noteq> None then acc
      else (case first_readable (map (jget src) ks @ [jget (obj_field src ''artifacts'') key]) of
        None \<Rightarrow> acc | Some v \<Rightarrow> dset key v acc))"

fun extract_artifacts :: "jobj option list \<Rightarrow> (string, string) dict \<Rightarrow> (string, string) dict" where
  "extract_artifacts [] acc = acc"
| "extract_artifacts (src # srcs) acc = extract_artifacts srcs (case src of None \<Rightarrow> acc | Some d \<Rightarrow> add_artifacts d ALIASES acc)"

definition traced_rows :: "json \<Rightarrow> jobj list" where
  "traced_rows j = (case j of JArr xs \<Rightarrow> filter (\<lambda>r. jtruthy (jget r ''ac_id'')) (only_objects xs) | _ \<Rightarrow> [])"

fun extract_traceability :: "jobj option list \<Rightarrow> jobj list" where
  "extract_traceability [] = []"
| "extract_traceability (src # srcs) = (case src of None \<Rightarrow> extract_traceability srcs | Some d \<Rightarrow>
     (let own = traced_rows (jget d ''traceability''); ver = traced_rows (jget (obj_field d ''verification'') ''traceability'')
      in if own \<noteq> [] then own else if ver \<noteq> [] then ver else extract_traceability srcs))"

section \<open>The requests to the services\<close>

type_synonym client = "nat \<Rightarrow> string \<Rightarrow> http_outcome"

definition upstream :: "adapter_exc + 'a \<Rightarrow> process_exc + 'a" where
  "upstream r = (case r of Inl e \<Rightarrow> Inl (Upstream e) | Inr x \<Rightarrow> Inr x)"

definition TF_PREFIX :: string where "TF_PREFIX = ''/api/tfactory/tasks''"

definition get_task_detail :: "(json \<Rightarrow> string) \<Rightarrow> client \<Rightarrow> string \<Rightarrow> process_exc + jobj option" where
  "get_task_detail repr client task_id = upstream (get_detail repr (client 0 (''/api/tasks/'' @ task_id)))"

definition get_session_detail :: "(json \<Rightarrow> string) \<Rightarrow> client \<Rightarrow> string \<Rightarrow> process_exc + jobj option" where
  "get_session_detail repr client session_id = upstream (get_detail repr (client 0 (''/api/plan/sessions/'' @ session_id)))"

text \<open>\<open>(v or {}).get(k)\<close>: a true value that is no object has no \<open>get\<close>.\<close>

definition get_in :: "json \<Rightarrow> string \<Rightarrow> process_exc + json" where
  "get_in v k = (case jor v (JObj []) of JObj d \<Rightarrow> Inr (jget d k) | _ \<Rightarrow> Inl (Raised Attribute_error))"

definition lane_progress_of :: "(json \<Rightarrow> string) \<Rightarrow> http_outcome \<Rightarrow> process_exc + json" where
  "lane_progress_of repr out = (case get_json repr out of
     Inl e \<Rightarrow> if is_adapter_error e then Inr JNull else Inl (Upstream e)
   | Inr data \<Rightarrow> res_bind (get_in (case data of JObj d \<Rightarrow> jget d ''status_json'' | _ \<Rightarrow> JNull) ''lane_progress'') (\<lambda>p.
       Inr (case p of JObj d \<Rightarrow> if d = [] then JNull else JObj d | _ \<Rightarrow> JNull)))"

definition plan_subtasks :: "jobj \<Rightarrow> jobj list" where
  "plan_subtasks plan = concat (map (\<lambda>p. only_objects (arr_field p ''subtasks'')) (only_objects (arr_field plan ''phases'')))"

definition get_test_detail :: "(json \<Rightarrow> string) \<Rightarrow> client \<Rightarrow> string \<Rightarrow> process_exc + jobj option" where
  "get_test_detail repr client task_id =
     res_bind (upstream (get_detail repr (client 1 (TF_PREFIX @ ''/'' @ task_id @ ''/test-plan.json'')))) (\<lambda>found. case found of
       None \<Rightarrow> Inr None
     | Some plan \<Rightarrow> res_bind (lane_progress_of repr (client 2 (TF_PREFIX @ ''/'' @ task_id))) (\<lambda>progress.
         Inr (Some [(''id'', JStr task_id), (''spec_id'', JStr task_id), (''title'', jget plan ''feature''),
           (''status'', jget plan ''status''), (''updated_at'', jget plan ''updated_at''),
           (''subtasks'', JArr (map JObj (plan_subtasks plan))), (''lane_progress'', progress)])))"

text \<open>\<open>list(v or [])\<close>.\<close>

definition py_list :: "json \<Rightarrow> process_exc + json list" where
  "py_list v = (case jor v (JArr []) of
     JArr xs \<Rightarrow> Inr xs
   | JStr s \<Rightarrow> Inr (map (\<lambda>c. JStr [c]) s)
   | JObj d \<Rightarrow> Inr (map (\<lambda>(k, _). JStr k) d)
   | _ \<Rightarrow> Inl (Raised Type_error))"

definition media_files :: "jobj \<Rightarrow> string \<Rightarrow> process_exc + json list" where
  "media_files arts kind = res_bind (get_in (jget arts kind) ''files'') py_list"

definition get_evidence_manifest :: "(json \<Rightarrow> string) \<Rightarrow> client \<Rightarrow> string \<Rightarrow> process_exc + json list \<times> json list" where
  "get_evidence_manifest repr client spec_id = (case get_json repr (client 0 (TF_PREFIX @ ''/'' @ spec_id)) of
     Inl e \<Rightarrow> if is_adapter_error e then Inr ([], []) else Inl (Upstream e)
   | Inr data \<Rightarrow> (case (case data of JObj d \<Rightarrow> (case dget d ''artefacts'' of None \<Rightarrow> JObj [] | Some v \<Rightarrow> v) | _ \<Rightarrow> JObj []) of
       JObj arts \<Rightarrow> res_bind (media_files arts ''screenshots'') (\<lambda>shots. res_bind (media_files arts ''videos'') (\<lambda>vids. Inr (shots, vids)))
     | _ \<Rightarrow> Inl (Raised Attribute_error)))"

section \<open>The stages of the view\<close>

record stage_detail =
  sd_service :: service
  sd_task_id :: string
  sd_title :: json
  sd_status :: json
  sd_phase :: json
  sd_progress :: "(string \<times> json) list option"
  sd_subtasks :: "(json \<times> json) list option"
  sd_graph :: "graph option"
  sd_branch :: "json option"
  sd_updated_at :: json

definition normalize_plan :: "(json \<Rightarrow> string) \<Rightarrow> string option \<Rightarrow> wi_store \<Rightarrow> jobj \<Rightarrow> process_exc + stage_detail option" where
  "normalize_plan repr scope store session = res_bind (build_plan_graph repr scope store session) (\<lambda>g. Inr (case g of
     None \<Rightarrow> None
   | Some graph \<Rightarrow> Some \<lparr>sd_service = PFACTORY,
       sd_task_id = Adapters.json_str repr (jor (jget session ''session_id'') (jor (jget session ''id'') (JStr []))),
       sd_title = jget session ''title'', sd_status = jor (jget session ''board_state'') (jget session ''status''),
       sd_phase = JStr ''plan'', sd_progress = None, sd_subtasks = None, sd_graph = Some graph, sd_branch = None,
       sd_updated_at = jor (jget session ''updated_at'') (jget session ''updatedAt'')\<rparr>))"

definition normalize_test :: "(json \<Rightarrow> string) \<Rightarrow> jobj \<Rightarrow> process_exc + stage_detail option" where
  "normalize_test repr d = res_bind (build_test_graph repr (arr_field d ''subtasks'') (jget d ''lane_progress'')) (\<lambda>g. Inr (case g of
     None \<Rightarrow> None
   | Some graph \<Rightarrow> Some \<lparr>sd_service = TFACTORY,
       sd_task_id = Adapters.json_str repr (jor (jget d ''id'') (jor (jget d ''spec_id'') (jor (jget d ''specId'') (JStr [])))),
       sd_title = jget d ''title'', sd_status = jget d ''status'', sd_phase = jor (jget d ''phase'') (JStr ''test''),
       sd_progress = None, sd_subtasks = None, sd_graph = Some graph, sd_branch = Some (jget d ''branchName''),
       sd_updated_at = jor (jget d ''updatedAt'') (jget d ''updated_at'')\<rparr>))"

definition normalize_code :: "(json \<Rightarrow> string) \<Rightarrow> jobj \<Rightarrow> stage_detail" where
  "normalize_code repr d =
    (let ep = obj_field d ''executionProgress''; raw_subs = arr_field d ''subtasks''
     in \<lparr>sd_service = AIFACTORY, sd_task_id = Adapters.json_str repr (jor (jget d ''id'') (jor (jget d ''specId'') (JStr []))),
       sd_title = jget d ''title'', sd_status = jget d ''status'', sd_phase = jget d ''phase'',
       sd_progress = Some [(''phase'', jget ep ''phase''), (''phase_percent'', jget ep ''phaseProgress''),
         (''overall_percent'', jget ep ''overallProgress''), (''current_subtask'', jget ep ''currentSubtask''),
         (''message'', jget ep ''message'')],
       sd_subtasks = Some (map (\<lambda>s. (jget s ''title'', jget s ''status'')) (only_objects raw_subs)),
       sd_graph = build_code_graph repr raw_subs, sd_branch = Some (jget d ''branchName''), sd_updated_at = jget d ''updatedAt''\<rparr>)"

record process_extras =
  px_artifacts :: "(string, string) dict"
  px_traceability :: "jobj list"

definition rfc0015_extras :: "jobj \<Rightarrow> jobj option \<Rightarrow> jobj option \<Rightarrow> process_extras" where
  "rfc0015_extras tf_extra session_raw tdetail_raw =
    (let tf_verification = jget tf_extra ''verification''
     in \<lparr>px_artifacts = extract_artifacts [session_raw, tdetail_raw] [],
         px_traceability = extract_traceability
           [tdetail_raw, if jtruthy tf_verification then Some [(''verification'', tf_verification)] else None]\<rparr>)"

record evidence =
  ev_spec :: string
  ev_screenshots :: "json list"
  ev_videos :: "json list"

text \<open>A stage is fetched when its adapter is configured and the work item carries a task id of it.\<close>

definition asked :: "client option \<Rightarrow> string option \<Rightarrow> (client \<times> string) option" where
  "asked adapter task_id = (case adapter of None \<Rightarrow> None | Some c \<Rightarrow> if truthy task_id then Some (c, the task_id) else None)"

definition fetch_test_stage ::
  "(json \<Rightarrow> string) \<Rightarrow> client option \<Rightarrow> string option \<Rightarrow> process_exc + evidence option \<times> jobj option \<times> stage_detail option" where
  "fetch_test_stage repr adapter task_id = (case asked adapter task_id of
     None \<Rightarrow> Inr (None, None, None)
   | Some (c, tid) \<Rightarrow> res_bind (get_evidence_manifest repr c tid) (\<lambda>(shots, vids).
       let evidence = (if shots \<noteq> [] \<or> vids \<noteq> [] then Some \<lparr>ev_spec = tid, ev_screenshots = shots, ev_videos = vids\<rparr> else None)
       in res_bind (get_test_detail repr c tid) (\<lambda>tdetail.
          res_bind (case tdetail of None \<Rightarrow> Inr None | Some d \<Rightarrow> normalize_test repr d) (\<lambda>test.
            Inr (evidence, tdetail, test)))))"

definition fetch_code_stage :: "(json \<Rightarrow> string) \<Rightarrow> client option \<Rightarrow> string option \<Rightarrow> process_exc + stage_detail option" where
  "fetch_code_stage repr adapter task_id = (case asked adapter task_id of
     None \<Rightarrow> Inr None
   | Some (c, tid) \<Rightarrow> res_bind (get_task_detail repr c tid) (\<lambda>d. Inr (map_option (normalize_code repr) d)))"

definition fetch_plan_stage ::
  "(json \<Rightarrow> string) \<Rightarrow> client option \<Rightarrow> string option \<Rightarrow> string option \<Rightarrow> wi_store \<Rightarrow> process_exc + jobj option \<times> stage_detail option" where
  "fetch_plan_stage repr adapter task_id scope store = (case asked adapter task_id of
     None \<Rightarrow> Inr (None, None)
   | Some (c, tid) \<Rightarrow> res_bind (get_session_detail repr c tid) (\<lambda>session. case session of
       None \<Rightarrow> Inr (None, None)
     | Some d \<Rightarrow> res_bind (normalize_plan repr scope store d) (\<lambda>plan. Inr (Some d, plan))))"

section \<open>The view\<close>

record shown =
  sh_primary :: stage_detail
  sh_graphs :: "(stage, graph) dict"
  sh_evidence :: "evidence option"
  sh_unreachable :: "stage list"
  sh_extras :: process_extras

record not_shown =
  ns_available :: bool
  ns_task_id :: "string option"
  ns_status :: "string option"
  ns_phase :: "string option"
  ns_unreachable :: "stage list"
  ns_extras :: process_extras
  ns_evidence :: "evidence option"

datatype process_detail = No_work_item | Shown shown | Not_shown not_shown

text \<open>\<open>_best_effort\<close>: an \<open>AdapterError\<close> gives the absent value and names the stage.\<close>

definition best_effort :: "stage \<Rightarrow> process_exc + 'a \<Rightarrow> 'a \<Rightarrow> stage list \<Rightarrow> process_exc + 'a \<times> stage list" where
  "best_effort st r absent unreachable = (case r of
     Inr x \<Rightarrow> Inr (x, unreachable)
   | Inl (Upstream e) \<Rightarrow> if is_adapter_error e then Inr (absent, unreachable @ [st]) else Inl (Upstream e)
   | Inl (Raised e) \<Rightarrow> Inl (Raised e))"

definition opt_entry_of :: "'k \<Rightarrow> 'v option \<Rightarrow> ('k, 'v) dict" where
  "opt_entry_of k v = (case v of None \<Rightarrow> [] | Some x \<Rightarrow> [(k, x)])"

definition assemble ::
  "work_item \<Rightarrow> (stage, stage_detail) dict \<Rightarrow> evidence option \<Rightarrow> stage list \<Rightarrow> process_extras \<Rightarrow> process_detail" where
  "assemble wi stages evidence unreachable extras = (case stages of
     (_, furthest_stage) # _ \<Rightarrow> Shown \<lparr>sh_primary = furthest_stage,
       sh_graphs = concat (map (\<lambda>(st, d). opt_entry_of st (sd_graph d)) stages),
       sh_evidence = evidence, sh_unreachable = unreachable, sh_extras = extras\<rparr>
   | [] \<Rightarrow> (let code = wi_stage AIFACTORY wi in Not_shown
       \<lparr>ns_available = (evidence \<noteq> None \<or> px_artifacts extras \<noteq> [] \<or> px_traceability extras \<noteq> []),
        ns_task_id = ss_task_id code, ns_status = ss_status code, ns_phase = ss_phase code, ns_unreachable = unreachable,
        ns_extras = extras, ns_evidence = evidence\<rparr>))"

definition build_process_detail ::
  "(json \<Rightarrow> string) \<Rightarrow> (service \<Rightarrow> client option) \<Rightarrow> string option \<Rightarrow> wi_store \<Rightarrow> string \<Rightarrow> process_exc + process_detail" where
  "build_process_detail repr adapters scope store key = (case get_item scope store key of
     None \<Rightarrow> Inr No_work_item
   | Some wi \<Rightarrow>
       res_bind (best_effort TEST (fetch_test_stage repr (adapters TFACTORY) (ss_task_id (wi_stage TFACTORY wi))) (None, None, None) [])
         (\<lambda>((evidence, tdetail_raw, test), u1).
       res_bind (best_effort CODE (fetch_code_stage repr (adapters AIFACTORY) (ss_task_id (wi_stage AIFACTORY wi))) None u1) (\<lambda>(code, u2).
       res_bind (best_effort PLAN (fetch_plan_stage repr (adapters PFACTORY) (ss_task_id (wi_stage PFACTORY wi)) scope store) (None, None) u2)
         (\<lambda>((session_raw, plan), u3).
       Inr (assemble wi (opt_entry_of TEST test @ opt_entry_of CODE code @ opt_entry_of PLAN plan) evidence u3
             (rfc0015_extras (ss_extra (wi_stage TFACTORY wi)) session_raw tdetail_raw))))))"

section \<open>The proxy of the evidence\<close>

datatype media_answer = Bad_kind | Bad_name | No_spec | No_adapter | No_media | Media string

text \<open>\<open>fetch_media\<close> and the route: the path that is asked of the service, if one is, and its answer.\<close>

definition media_path :: "string \<Rightarrow> string \<Rightarrow> string \<Rightarrow> string" where
  "media_path spec_id kind name = TF_PREFIX @ ''/'' @ spec_id @ ''/'' @ kind @ ''/'' @ name"

definition fetch_media :: "(string \<Rightarrow> string option) \<Rightarrow> string \<Rightarrow> string \<Rightarrow> string \<Rightarrow> string list \<times> string option" where
  "fetch_media load spec_id kind name = (if kind \<notin> {''screenshots'', ''videos''} then ([], None)
     else ([media_path spec_id kind name], load (media_path spec_id kind name)))"

definition get_evidence_media ::
  "(string \<Rightarrow> string option) option \<Rightarrow> string option \<Rightarrow> wi_store \<Rightarrow> string \<Rightarrow> string \<Rightarrow> string \<Rightarrow> string list \<times> media_answer" where
  "get_evidence_media adapter scope store key kind name =
    (if kind \<notin> {''screenshots'', ''videos''} then ([], Bad_kind)
     else if CHR ''/'' \<in> set name \<or> contains_str name ''..'' \<or> startswith name ''.'' then ([], Bad_name)
     else let spec_id = (case get_item scope store key of None \<Rightarrow> None | Some wi \<Rightarrow> ss_task_id (wi_stage TFACTORY wi))
       in if \<not> truthy spec_id then ([], No_spec)
          else (case adapter of
              None \<Rightarrow> ([], No_adapter)
            | Some load \<Rightarrow> (case fetch_media load (the spec_id) kind name of
                (paths, None) \<Rightarrow> (paths, No_media) | (paths, Some content) \<Rightarrow> (paths, Media content))))"

section \<open>The test graph\<close>

text \<open>The lanes collected so far: each has the subtasks that name it, in order, and is there only if one does.\<close>

definition lanes_of :: "(json \<Rightarrow> string) \<Rightarrow> jobj list \<Rightarrow> (string, jobj list) dict \<Rightarrow> bool" where
  "lanes_of repr ss lanes = (dict_ok lanes \<and> (\<forall>l. dget lanes l =
     (case filter (\<lambda>s. lane_of repr s = l) ss of [] \<Rightarrow> None | ms \<Rightarrow> Some ms)))"

lemma lanes_of_Nil: "lanes_of repr [] []"
  by (simp add: lanes_of_def)

lemma lanes_of_snoc:
  assumes "lanes_of repr ss lanes"
  shows "lanes_of repr (ss @ [s])
    (dset (lane_of repr s) ((case dget lanes (lane_of repr s) of None \<Rightarrow> [] | Some ms \<Rightarrow> ms) @ [s]) lanes)"
  using assms by (auto simp: lanes_of_def split: list.splits)

lemma group_lanes_of: "lanes_of repr ss lanes \<Longrightarrow> lanes_of repr (ss @ ts) (group_lanes repr ts lanes)"
proof (induction ts arbitrary: ss lanes)
  case (Cons t ts)
  then show ?case using Cons.IH [OF lanes_of_snoc [OF Cons.prems, of t]] by simp
qed simp

lemma grouped: "lanes_of repr ss (group_lanes repr ss [])"
  using group_lanes_of [OF lanes_of_Nil, of repr ss] by simp

lemma lanes_of_keys: "lanes_of repr ss lanes \<Longrightarrow> set (dkeys lanes) = lane_of repr ` set ss"
proof -
  assume l: "lanes_of repr ss lanes"
  have "k \<in> set (dkeys lanes) \<longleftrightarrow> filter (\<lambda>s. lane_of repr s = k) ss \<noteq> []" for k
    using l dget_None_iff [of lanes k] by (auto simp: lanes_of_def split: list.splits)
  then show ?thesis by (auto simp: filter_empty_conv)
qed

lemma lanes_of_members: "lanes_of repr ss lanes \<Longrightarrow>
  (case dget lanes l of None \<Rightarrow> [] | Some ms \<Rightarrow> ms) = filter (\<lambda>s. lane_of repr s = l) ss"
  by (auto simp: lanes_of_def split: list.splits)

lemma lane_order_set [simp]: "set (lane_order lanes) = set (dkeys lanes)"
  by (auto simp: lane_order_def)

lemma lane_order_distinct: "dict_ok lanes \<Longrightarrow> distinct (lane_order lanes)"
  by (auto simp: lane_order_def dict_ok_def LANE_SPINE_def)

text \<open>What a lane's node says about the lane's subtasks and the run's own progress.\<close>

definition tells_what_ran :: "(json \<Rightarrow> string) \<Rightarrow> jobj list \<Rightarrow> string option \<Rightarrow> graph_node \<Rightarrow> bool" where
  "tells_what_ran repr members executed n =
    ((gn_status n = JStr ''completed'' \<longleftrightarrow> executed \<in> {None, Some ''executed''} \<and> members \<noteq> []
        \<and> (\<forall>m\<in>set members. has_word LANE_DONE (status_text repr (jget m ''status''))
             \<and> \<not> has_word (LANE_FAILED @ LANE_STALLED @ LANE_ACTIVE) (status_text repr (jget m ''status''))))
     \<and> (gn_completed n \<noteq> Given JNull \<longrightarrow> gn_status n = JStr ''completed''))"

lemma has_word_append [simp]: "has_word (xs @ ys) s = (has_word xs s \<or> has_word ys s)"
  by (simp add: has_word_def)

lemma lane_status_completed:
  "lane_status repr (map f ms) = Some ''completed'' \<longleftrightarrow> ms \<noteq> []
     \<and> (\<forall>m\<in>set ms. has_word LANE_DONE (status_text repr (f m))
         \<and> \<not> has_word (LANE_FAILED @ LANE_STALLED @ LANE_ACTIVE) (status_text repr (f m)))"
  by (auto simp: lane_status_def Let_def list_ex_iff list_all_iff)

lemma lane_node_tells:
  assumes "lane_node repr lane members executed deps = Inr n"
  shows "gn_id n = lane \<and> gn_deps n = deps \<and> tells_what_ran repr members executed n"
proof -
  obtain started finished where n: "gn_id n = lane" "gn_deps n = deps"
    and st: "gn_status n = jopt_str (if executed = None \<or> executed = Some ''executed''
        then lane_status repr (map (\<lambda>m. jget m ''status'') members) else if executed = Some ''error'' then Some ''failed'' else None)"
    and fin: "gn_completed n \<noteq> Given JNull \<longrightarrow> gn_status n = JStr ''completed''"
    using assms by (auto simp: lane_node_def Let_def res_bind_Inr_iff jopt_str_def split: if_splits)
  have "gn_status n = JStr ''completed'' \<longleftrightarrow> executed \<in> {None, Some ''executed''}
      \<and> lane_status repr (map (\<lambda>m. jget m ''status'') members) = Some ''completed''"
    by (auto simp: st jopt_str_def split: option.splits)
  then show ?thesis using n fin by (simp add: tells_what_ran_def lane_status_completed)
qed

lemma lane_nodes_chain:
  assumes "lane_nodes repr lanes progress prev ls = Inr ns" and "[] \<notin> set ls"
  shows "map gn_id ns = ls
    \<and> map gn_deps ns = butlast ((if truthy prev then [the prev] else []) # map (\<lambda>n. [gn_id n]) ns)
    \<and> (\<forall>n\<in>set ns. tells_what_ran repr (case dget lanes (gn_id n) of None \<Rightarrow> [] | Some ms \<Rightarrow> ms)
          (executed_of repr progress (gn_id n)) n)"
  using assms
proof (induction ls arbitrary: prev ns)
  case (Cons l ls)
  from Cons.prems obtain n ms where n: "lane_node repr l (case dget lanes l of None \<Rightarrow> [] | Some ms \<Rightarrow> ms) (executed_of repr progress l)
         (if truthy prev then [the prev] else []) = Inr n"
    and ms: "lane_nodes repr lanes progress (Some l) ls = Inr ms" and ns: "ns = n # ms"
    by (auto simp: res_bind_Inr_iff)
  note IH = Cons.IH [OF ms] and t = lane_node_tells [OF n]
  then show ?case using Cons.prems(2) ns by auto
qed auto

lemma json_str_nonempty: "(\<And>j. repr j \<noteq> []) \<Longrightarrow> j \<noteq> JStr [] \<Longrightarrow> Adapters.json_str repr j \<noteq> []"
  by (cases j) (auto simp: str_of_int_def digits_of_nat_ascii [THEN conjunct2])

lemma lane_of_nonempty:
  assumes "\<And>j. repr j \<noteq> []"
  shows "lane_of repr s \<noteq> []"
proof -
  have "jor (jget s ''lane'') (JStr ''unit'') \<noteq> JStr []" by (auto simp: jor_def)
  from json_str_nonempty [OF assms this] show ?thesis by (simp add: lane_of_def lower_def)
qed

text \<open>C32: The test graph tells what ran.  Its nodes are the lanes of the subtasks, each once, the known
  lanes in the order of the spine and each after the one before it; a node is completed exactly when every
  subtask of its lane is and none failed, stalled or runs, and the run's own progress does not say that
  the lane was not executed; only a completed node has a completion time.\<close>

theorem test_graph_tells_what_ran:
  assumes "\<And>j. repr j \<noteq> []" and run: "build_test_graph repr raw_subs lane_progress = Inr (Some g)"
  shows "distinct (map gn_id (gh_nodes g)) \<and> set (map gn_id (gh_nodes g)) = lane_of repr ` set (only_objects raw_subs)
    \<and> filter (\<lambda>l. l \<in> set LANE_SPINE) (map gn_id (gh_nodes g)) = filter (\<lambda>l. l \<in> set (map gn_id (gh_nodes g))) LANE_SPINE
    \<and> map gn_deps (gh_nodes g) = butlast ([] # map (\<lambda>n. [gn_id n]) (gh_nodes g))
    \<and> (\<forall>n\<in>set (gh_nodes g). tells_what_ran repr (filter (\<lambda>s. lane_of repr s = gn_id n) (only_objects raw_subs))
         (executed_of repr (case lane_progress of JObj d \<Rightarrow> d | _ \<Rightarrow> []) (gn_id n)) n)"
proof -
  let ?lanes = "group_lanes repr (only_objects raw_subs) []"
  let ?progress = "case lane_progress of JObj d \<Rightarrow> d | _ \<Rightarrow> []"
  have lanes: "lanes_of repr (only_objects raw_subs) ?lanes" by (rule grouped)
  have nodes: "lane_nodes repr ?lanes ?progress None (lane_order ?lanes) = Inr (gh_nodes g)"
    using run by (auto simp: build_test_graph_def Let_def res_bind_Inr_iff split: if_splits)
  have ne: "[] \<notin> set (lane_order ?lanes)"
    using lanes_of_keys [OF lanes] lane_of_nonempty [of repr, OF assms(1), symmetric] by auto
  note chain = lane_nodes_chain [OF nodes ne]
  have ids: "map gn_id (gh_nodes g) = lane_order ?lanes" using chain by simp
  have "dict_ok ?lanes" using lanes by (simp add: lanes_of_def)
  then have "distinct (map gn_id (gh_nodes g))" unfolding ids by (rule lane_order_distinct)
  moreover have "filter (\<lambda>l. l \<in> set LANE_SPINE) (lane_order ?lanes) = filter (\<lambda>l. l \<in> set (lane_order ?lanes)) LANE_SPINE"
    by (auto simp: lane_order_def cong: conj_cong intro: filter_cong)
  ultimately show ?thesis
    using chain lanes_of_keys [OF lanes] by (simp add: ids lanes_of_members [OF lanes] del: set_map)
qed

lemma test_graph_tells_what_ran_witness:
  "\<exists>g. build_test_graph (\<lambda>_. ''?'') [JObj [(''status'', JStr ''completed'')]] (JObj [(''unit'', JStr ''pending'')]) = Inr (Some g)
     \<and> map gn_status (gh_nodes g) = [JNull] \<and> distinct (map gn_id (gh_nodes g))"
proof -
  obtain g where run: "build_test_graph (\<lambda>_. ''?'') [JObj [(''status'', JStr ''completed'')]] (JObj [(''unit'', JStr ''pending'')]) = Inr (Some g)"
    and st: "map gn_status (gh_nodes g) = [JNull]"
    by (simp add: build_test_graph_def only_objects_def lane_of_def jor_def jget_def eval_str Let_def lane_order_def LANE_SPINE_def
      dkeys_def lane_node_def executed_of_def best_time_def jopt_str_def)
  show ?thesis using run st test_graph_tells_what_ran [OF _ run] by simp
qed

section \<open>Unknown and absent\<close>

text \<open>The stages a view names as unreachable, and the specification: the stage was asked and its detail
  request failed, where a 404 is an answer.\<close>

fun unreachable_of :: "process_detail \<Rightarrow> stage list" where
  "unreachable_of No_work_item = []"
| "unreachable_of (Shown s) = sh_unreachable s"
| "unreachable_of (Not_shown n) = ns_unreachable n"

fun stages_shown :: "process_detail \<Rightarrow> stage list" where
  "stages_shown (Shown s) = dkeys (sh_graphs s)"
| "stages_shown _ = []"

definition request_fails :: "http_outcome \<Rightarrow> bool" where
  "request_fails out = (case out of TransportError \<Rightarrow> True | HttpResponse code body \<Rightarrow> code \<noteq> 404 \<and> \<not> (200 \<le> code \<and> code < 300))"

fun detail_answer :: "stage \<Rightarrow> client \<Rightarrow> string \<Rightarrow> http_outcome" where
  "detail_answer TEST c tid = c 1 (TF_PREFIX @ ''/'' @ tid @ ''/test-plan.json'')"
| "detail_answer CODE c tid = c 0 (''/api/tasks/'' @ tid)"
| "detail_answer PLAN c tid = c 0 (''/api/plan/sessions/'' @ tid)"

fun service_of_stage :: "stage \<Rightarrow> service" where
  "service_of_stage PLAN = PFACTORY" | "service_of_stage CODE = AIFACTORY" | "service_of_stage TEST = TFACTORY"

definition stage_fails :: "(service \<Rightarrow> client option) \<Rightarrow> work_item \<Rightarrow> stage \<Rightarrow> bool" where
  "stage_fails adapters wi st = (case asked (adapters (service_of_stage st)) (ss_task_id (wi_stage (service_of_stage st) wi)) of
     None \<Rightarrow> False | Some (c, tid) \<Rightarrow> request_fails (detail_answer st c tid))"

definition reachable :: "process_exc + 'a \<Rightarrow> bool" where
  "reachable r = (case r of Inl (Upstream e) \<Rightarrow> \<not> is_adapter_error e | _ \<Rightarrow> True)"

declare detail_answer.simps [simp del]

lemma reachable_simps [simp]: "reachable (Inr x)" "reachable (Inl (Raised e))"
  by (simp_all add: reachable_def)

text \<open>Computations on the answers themselves raise no adapter error.\<close>

definition local_errors :: "process_exc + 'a \<Rightarrow> bool" where
  "local_errors r = (\<forall>e. r \<noteq> Inl (Upstream e))"

named_theorems local_rules "computations that raise no adapter error"

lemma local_reachable: "local_errors r \<Longrightarrow> reachable r"
  by (auto simp: local_errors_def reachable_def split: sum.splits process_exc.splits)

lemma local_bind [local_rules]: "local_errors r \<Longrightarrow> (\<And>x. r = Inr x \<Longrightarrow> local_errors (f x)) \<Longrightarrow> local_errors (res_bind r f)"
  by (cases r) (auto simp: local_errors_def)

lemma local_Inr [local_rules]: "local_errors (Inr x)"
  by (simp add: local_errors_def)

lemma local_Raised [local_rules]: "local_errors (Inl (Raised e))"
  by (simp add: local_errors_def)

lemma local_best_json [local_rules]: "local_errors (best_json better b xs)"
  by (induction xs arbitrary: b) (auto simp: local_errors_def split: option.splits)

lemma local_best_time [local_rules]: "local_errors (best_time better xs)"
  by (auto simp: best_time_def intro!: local_rules split: list.split)

lemma local_lane_node [local_rules]: "local_errors (lane_node repr lane ms ex deps)"
  by (auto simp: lane_node_def Let_def intro!: local_rules)

lemma local_lane_nodes [local_rules]: "local_errors (lane_nodes repr lanes progress prev ls)"
  by (induction ls arbitrary: prev) (auto intro!: local_rules)

lemma local_normalize_test [local_rules]: "local_errors (normalize_test repr d)"
  by (auto simp: normalize_test_def build_test_graph_def Let_def intro!: local_rules)

lemma local_sort [local_rules]: "local_errors (sort_datetimes ts)"
  by (simp add: sort_datetimes_def local_errors_def)

lemma local_child_state [local_rules]: "local_errors (child_state repr scope store nums k)"
  by (auto simp: child_state_def plan_child_state_def Let_def intro!: local_rules split: option.split)

lemma local_plan_nodes [local_rules]: "local_errors (plan_nodes repr scope store nums fin i js)"
  by (induction repr scope store nums fin i js rule: plan_nodes.induct)
    (auto simp: plan_node_def Let_def intro!: local_rules split: prod.split)

lemma local_normalize_plan [local_rules]: "local_errors (normalize_plan repr scope store d)"
  by (auto simp: normalize_plan_def build_plan_graph_def intro!: local_rules)

lemma local_get_in [local_rules]: "local_errors (get_in v k)"
  by (auto simp: get_in_def intro!: local_rules split: json.split)

lemma local_py_list [local_rules]: "local_errors (py_list v)"
  by (auto simp: py_list_def intro!: local_rules split: json.split)

lemma local_media_files [local_rules]: "local_errors (media_files arts k)"
  by (auto simp: media_files_def intro!: local_rules)

lemma manifest_reachable: "reachable (get_evidence_manifest repr c tid)"
proof (cases "get_json repr (c 0 (TF_PREFIX @ ''/'' @ tid))")
  case (Inr data)
  show ?thesis unfolding get_evidence_manifest_def Inr
    by (rule local_reachable) (auto intro!: local_rules split: json.split option.split)
qed (simp add: get_evidence_manifest_def reachable_def)

lemma lane_progress_reachable: "reachable (lane_progress_of repr out)"
proof (cases "get_json repr out")
  case (Inr data)
  show ?thesis unfolding lane_progress_of_def Inr
    by (rule local_reachable) (auto intro!: local_rules)
qed (simp add: lane_progress_of_def reachable_def)

text \<open>A fetch tells the failed request from the answered one.\<close>

definition told_apart :: "process_exc + 'a \<Rightarrow> bool \<Rightarrow> bool" where
  "told_apart r failed = ((\<not> reachable r \<longrightarrow> failed) \<and> (\<forall>x. r = Inr x \<longrightarrow> \<not> failed))"

lemma told_detail: "told_apart (upstream (get_detail repr out)) (request_fails out)"
  by (auto simp: told_apart_def reachable_def upstream_def get_detail_def request_fails_def
    split: http_outcome.splits option.splits json.splits if_splits)

lemma told_then: "told_apart r b \<Longrightarrow> (\<And>x. r = Inr x \<Longrightarrow> reachable (f x)) \<Longrightarrow> told_apart (res_bind r f) b"
  by (cases r) (auto simp: told_apart_def reachable_def)

lemma told_after: "reachable r \<Longrightarrow> (\<And>x. told_apart (f x) b) \<Longrightarrow> told_apart (res_bind r f) b"
  by (cases r) (auto simp: told_apart_def reachable_def)

lemma reachable_then: "reachable r \<Longrightarrow> (\<And>x. reachable (f x)) \<Longrightarrow> reachable (res_bind r f)"
  by (cases r) (auto simp: reachable_def)

lemma told_test_detail: "told_apart (get_test_detail repr c tid) (request_fails (detail_answer TEST c tid))"
  unfolding get_test_detail_def detail_answer.simps
  by (rule told_then [OF told_detail]) (auto intro!: reachable_then lane_progress_reachable split: option.split)

lemma told_fetch:
  fixes ask :: "(client \<times> string) option"
  assumes "\<And>c t. ask = Some (c, t) \<Longrightarrow> told_apart (f c t) (request_fails (detail_answer st c t))"
  shows "told_apart (case ask of None \<Rightarrow> Inr a | Some (c, t) \<Rightarrow> f c t)
    (case ask of None \<Rightarrow> False | Some (c, t) \<Rightarrow> request_fails (detail_answer st c t))"
  using assms by (cases ask) (auto simp: told_apart_def)

lemma told_test_stage:
  "told_apart (fetch_test_stage repr (adapters TFACTORY) (ss_task_id (wi_stage TFACTORY wi))) (stage_fails adapters wi TEST)"
  unfolding fetch_test_stage_def stage_fails_def service_of_stage.simps Let_def
  by (rule told_fetch, rule told_after [OF manifest_reachable])
    (auto intro!: told_then [OF told_test_detail] local_reachable local_rules split: prod.split option.split)

lemma told_code_stage:
  "told_apart (fetch_code_stage repr (adapters AIFACTORY) (ss_task_id (wi_stage AIFACTORY wi))) (stage_fails adapters wi CODE)"
  unfolding fetch_code_stage_def stage_fails_def service_of_stage.simps
  by (rule told_fetch) (auto simp: get_task_detail_def detail_answer.simps intro!: told_then [OF told_detail])

lemma told_plan_stage:
  "told_apart (fetch_plan_stage repr (adapters PFACTORY) (ss_task_id (wi_stage PFACTORY wi)) scope store) (stage_fails adapters wi PLAN)"
  unfolding fetch_plan_stage_def stage_fails_def service_of_stage.simps
  by (rule told_fetch) (auto simp: get_session_detail_def detail_answer.simps intro!: told_then [OF told_detail] local_reachable local_rules split: option.split)

lemma best_effort_told:
  "best_effort st r absent u = Inr (x, u') \<Longrightarrow> told_apart r failed \<Longrightarrow>
     u' = u @ (if failed then [st] else []) \<and> (if failed then x = absent else r = Inr x)"
  by (auto simp: best_effort_def told_apart_def reachable_def split: sum.splits process_exc.splits if_splits)

lemma best_effort_reachable: "told_apart r failed \<Longrightarrow> reachable (best_effort st r absent u)"
  by (auto simp: best_effort_def reachable_def split: sum.split process_exc.split)

lemma test_stage_service: "fetch_test_stage repr ad tid = Inr (e, d, Some x) \<Longrightarrow> sd_service x = TFACTORY"
  by (auto simp: fetch_test_stage_def normalize_test_def res_bind_Inr_iff split: option.splits)

lemma code_stage_service: "fetch_code_stage repr ad tid = Inr (Some x) \<Longrightarrow> sd_service x = AIFACTORY"
  by (auto simp: fetch_code_stage_def normalize_code_def Let_def res_bind_Inr_iff split: option.splits)

lemma plan_stage_service: "fetch_plan_stage repr ad tid scope store = Inr (d, Some x) \<Longrightarrow> sd_service x = PFACTORY"
  by (auto simp: fetch_plan_stage_def normalize_plan_def res_bind_Inr_iff split: option.splits)

text \<open>What a view shows of the stages that answered: the primary one is the furthest, and every graph is of
  it or of an earlier stage.\<close>

fun up_to :: "service \<Rightarrow> stage set" where
  "up_to PFACTORY = {PLAN}" | "up_to AIFACTORY = {PLAN, CODE}" | "up_to TFACTORY = {PLAN, CODE, TEST}"

fun stage_of_service :: "service \<Rightarrow> stage" where
  "stage_of_service PFACTORY = PLAN" | "stage_of_service AIFACTORY = CODE" | "stage_of_service TFACTORY = TEST"

definition shows_answered :: "(stage \<Rightarrow> bool) \<Rightarrow> process_detail \<Rightarrow> bool" where
  "shows_answered failed out = (unreachable_of out = filter failed [TEST, CODE, PLAN]
     \<and> (case out of Shown s \<Rightarrow> \<not> failed (stage_of_service (sd_service (sh_primary s)))
           \<and> set (dkeys (sh_graphs s)) \<subseteq> up_to (sd_service (sh_primary s)) - {st. failed st}
         | _ \<Rightarrow> True))"

text \<open>A list of stages that answered, furthest first.\<close>

lemma assemble_shows:
  assumes "\<And>st d. (st, d) \<in> set stages \<Longrightarrow> \<not> failed st \<and> st = stage_of_service (sd_service d)"
    and "map fst stages \<in> set (subseqs [TEST, CODE, PLAN])" and "u = filter failed [TEST, CODE, PLAN]"
  shows "shows_answered failed (assemble wi stages ev u ex)"
proof (cases stages)
  case (Cons p rest)
  obtain st d where p: "p = (st, d)" by (cases p)
  have "(st, d) \<in> set stages" by (simp add: Cons p)
  from assms(1) [OF this] have d: "\<not> failed st" "st = stage_of_service (sd_service d)" by (rule conjunct1, rule conjunct2)
  have keys: "set (dkeys (concat (map (\<lambda>(st, d). opt_entry_of st (sd_graph d)) xs))) \<subseteq> fst ` set xs" for xs
    by (induction xs) (auto simp: opt_entry_of_def dkeys_def simp del: set_concat split: option.split)
  have "fst ` set stages \<subseteq> up_to (sd_service d)"
    using assms(2) d(2) Cons p by (cases "sd_service d") auto
  moreover have "x \<notin> {st. failed st}" if "x \<in> fst ` set stages" for x using that assms(1) by force
  ultimately have "fst ` set stages \<subseteq> up_to (sd_service d) - {st. failed st}" by blast
  from subset_trans [OF keys this]
  have "set (dkeys (concat (map (\<lambda>(st, d). opt_entry_of st (sd_graph d)) stages))) \<subseteq> up_to (sd_service d) - {st. failed st}" .
  then show ?thesis using d assms(3) by (simp add: assemble_def Cons p shows_answered_def)
qed (simp add: assemble_def shows_answered_def Let_def assms(3))

text \<open>C31: Unknown is not absent.  A view names exactly the stages that were asked and whose detail request
  failed (a 404 is an answer), shows none of them, and its primary stage is the furthest of those it
  shows; no \<open>AdapterError\<close> escapes it.\<close>

theorem unknown_is_not_absent:
  "case build_process_detail repr adapters scope store key of
     Inl (Upstream e) \<Rightarrow> \<not> is_adapter_error e
   | Inl (Raised e) \<Rightarrow> True
   | Inr out \<Rightarrow> (case get_item scope store key of None \<Rightarrow> out = No_work_item
       | Some wi \<Rightarrow> shows_answered (stage_fails adapters wi) out)"
proof (cases "get_item scope store key")
  case (Some wi)
  let ?r1 = "fetch_test_stage repr (adapters TFACTORY) (ss_task_id (wi_stage TFACTORY wi))"
  let ?r2 = "fetch_code_stage repr (adapters AIFACTORY) (ss_task_id (wi_stage AIFACTORY wi))"
  let ?r3 = "fetch_plan_stage repr (adapters PFACTORY) (ss_task_id (wi_stage PFACTORY wi)) scope store"
  let ?b1 = "best_effort TEST ?r1 (None, None, None) []"
  note t1 = told_test_stage [of repr adapters wi] and t2 = told_code_stage [of repr adapters wi]
    and t3 = told_plan_stage [of repr adapters wi scope store]
  have reach: "reachable (build_process_detail repr adapters scope store key)"
    unfolding build_process_detail_def Some option.case
    by (auto simp del: wi_stage.simps intro!: reachable_then best_effort_reachable [OF t1] best_effort_reachable [OF t2] best_effort_reachable [OF t3]
      split: prod.split)
  have "shows_answered (stage_fails adapters wi) out" if run: "build_process_detail repr adapters scope store key = Inr out" for out
  proof -
    from run obtain ev td test u1 code u2 sess plan u3
      where 1: "?b1 = Inr ((ev, td, test), u1)" and 2: "best_effort CODE ?r2 None u1 = Inr (code, u2)"
        and 3: "best_effort PLAN ?r3 (None, None) u2 = Inr ((sess, plan), u3)"
        and out: "out = assemble wi (opt_entry_of TEST test @ opt_entry_of CODE code @ opt_entry_of PLAN plan) ev u3
             (rfc0015_extras (ss_extra (wi_stage TFACTORY wi)) sess td)"
      by (auto simp: build_process_detail_def Some res_bind_Inr_iff simp del: wi_stage.simps)
    note b = best_effort_told [OF 1 t1] best_effort_told [OF 2 t2] best_effort_told [OF 3 t3]
    show ?thesis unfolding out
    proof (rule assemble_shows)
      show "map fst (opt_entry_of TEST test @ opt_entry_of CODE code @ opt_entry_of PLAN plan) \<in> set (subseqs [TEST, CODE, PLAN])"
        by (auto simp: opt_entry_of_def split: option.split)
      show "u3 = filter (stage_fails adapters wi) [TEST, CODE, PLAN]" using b by auto
    qed (use b in \<open>auto simp: opt_entry_of_def split: if_splits option.splits
        dest: test_stage_service code_stage_service plan_stage_service\<close>)
  qed
  then show ?thesis using reach Some
    by (auto simp: reachable_def split: sum.splits process_exc.splits)
qed (simp add: build_process_detail_def)

section \<open>What the view leaves out\<close>

text \<open>The detail of a test task has no artifacts and no traceability: what \<open>get_test_detail\<close> makes of the test
  plan keeps neither, so a verifier's rows reach the view only through the stored slice.\<close>

lemma test_detail_has_no_extras:
  assumes "get_test_detail repr c tid = Inr (Some d)"
  shows "extract_artifacts [session, Some d] [] = extract_artifacts [session] []"
    and "extract_traceability [Some d, src] = extract_traceability [src]"
proof -
  obtain a b u ss p where d: "d = [(''id'', JStr tid), (''spec_id'', JStr tid), (''title'', a), (''status'', b), (''updated_at'', u),
      (''subtasks'', ss), (''lane_progress'', p)]"
    using assms by (auto simp: get_test_detail_def res_bind_Inr_iff split: option.splits)
  show "extract_artifacts [session, Some d] [] = extract_artifacts [session] []"
    by (simp add: d ALIASES_def jget_def obj_field_def)
  show "extract_traceability [Some d, src] = extract_traceability [src]"
    by (simp add: d jget_def obj_field_def traced_rows_def Let_def)
qed

lemma failed_detail_raises: "request_fails out \<Longrightarrow> \<exists>e. get_detail repr out = Inl e \<and> is_adapter_error e"
  by (cases out) (auto simp: request_fails_def get_detail_def)

text \<open>When the test plan does not answer, the media the manifest listed are dropped with it.\<close>

lemma evidence_lost_with_the_plan:
  assumes "request_fails (detail_answer TEST c tid)" and "get_evidence_manifest repr c tid = Inr m" and "tid \<noteq> []"
  shows "best_effort TEST (fetch_test_stage repr (Some c) (Some tid)) (None, None, None) u = Inr ((None, None, None), u @ [TEST])"
proof -
  obtain e where e: "get_detail repr (c 1 (TF_PREFIX @ ''/'' @ tid @ ''/test-plan.json'')) = Inl e" "is_adapter_error e"
    using failed_detail_raises [OF assms(1) [unfolded detail_answer.simps]] by blast
  have "fetch_test_stage repr (Some c) (Some tid) = Inl (Upstream e)"
    using assms(2,3) e(1) by (simp add: fetch_test_stage_def asked_def Let_def get_test_detail_def upstream_def split: prod.split)
  then show ?thesis using e(2) by (simp add: best_effort_def)
qed

text \<open>A child whose build is done is shown completed while its verification still runs.\<close>

lemma done_hides_running: "child_status [''done'', ''running''] = Some ''completed''"
  by (simp add: child_status_def has_word_def FAIL_WORDS_def DONE_WORDS_def is_dead_stage_words eval_str status_sep_def)

text \<open>The evidence proxy asks for at most the one file below the spec's own folder, by a name without a slash
  or two dots; but a name that is still percent-encoded passes the check and is decoded upstream.\<close>

lemma evidence_path_is_guarded:
  "set (fst (get_evidence_media adapter scope store key kind name)) \<subseteq> {p. CHR ''/'' \<notin> set name \<and> \<not> contains_str name ''..''
     \<and> kind \<in> {''screenshots'', ''videos''}
     \<and> (\<exists>wi spec_id. get_item scope store key = Some wi \<and> ss_task_id (wi_stage TFACTORY wi) = Some spec_id
          \<and> p = media_path spec_id kind name)}"
  by (auto simp: get_evidence_media_def fetch_media_def Let_def truthy_iff split: option.splits prod.splits if_splits)

lemma encoded_traversal_is_asked:
  assumes "get_item scope store key = Some wi" and "ss_task_id (wi_stage TFACTORY wi) = Some ''7''"
  shows "fst (get_evidence_media (Some load) scope store key ''videos'' ''%2e%2e%2fstate'')
    = [''/api/tfactory/tasks/7/videos/%2e%2e%2fstate'']"
  using assms by (simp add: get_evidence_media_def fetch_media_def media_path_def TF_PREFIX_def Let_def split: option.split)

end
